(* ===== verification/Prelude.thy ===== *)
theory Prelude
  imports Complex_Main "HOL-Library.Multiset"
begin

text \<open>
  Shared vocabulary of the development: the named collections the component
  theories declare facts into, and the generic lemmas on lists and sorting that
  several components use. Nothing here mentions the program.
\<close>

named_theorems js_arith \<comment> \<open>rounding and comparison facts on JavaScript numbers\<close>
named_theorems screen_simps \<comment> \<open>unfoldings of the screening operations\<close>

type_synonym 'a or_null = "'a option"

subsection \<open>Lists\<close>

lemma filter_length_split:
  "length (filter P xs) + length (filter (\<lambda>x. \<not> P x) xs) = length xs"
  by (induction xs) auto

lemma length_filter_mono:
  assumes "\<And>x. x \<in> set xs \<Longrightarrow> P x \<Longrightarrow> Q x"
  shows "length (filter P xs) \<le> length (filter Q xs)"
  using assms by (induction xs) auto

lemma length_filter_mset:
  "mset xs = mset ys \<Longrightarrow> length (filter P xs) = length (filter P ys)"
  by (metis mset_filter size_mset)

lemma length_filter_map: "length (filter P (map f xs)) = length (filter (P \<circ> f) xs)"
  by (induction xs) auto

lemma half_less: "0 < n \<Longrightarrow> (n - 1) div 2 < n" "0 < n \<Longrightarrow> n div 2 < (n::nat)"
  by presburger+

lemma sorted_nth_le:
  assumes "sorted xs" "i \<le> j" "j < length xs"
  shows "xs ! i \<le> xs ! j"
  using assms by (simp add: sorted_iff_nth_mono)

text \<open>The first \<open>k\<close> elements of a list all satisfy \<open>P\<close>: at least \<open>k\<close> do; and dually.\<close>

lemma length_filter_prefix:
  assumes "k \<le> length xs" "\<And>i. i < k \<Longrightarrow> P (xs ! i)"
  shows "k \<le> length (filter P xs)"
proof -
  have "\<forall>x \<in> set (take k xs). P x"
    using assms by (auto simp: in_set_conv_nth)
  then have "filter P (take k xs) = take k xs" by (rule filter_True)
  moreover have "filter P xs = filter P (take k xs) @ filter P (drop k xs)"
    by (metis append_take_drop_id filter_append)
  ultimately show ?thesis using assms(1) by simp
qed

lemma length_filter_suffix:
  assumes "k \<le> length xs" "\<And>i. k \<le> i \<Longrightarrow> i < length xs \<Longrightarrow> P (xs ! i)"
  shows "length xs - k \<le> length (filter P xs)"
proof -
  have "\<forall>x \<in> set (drop k xs). P x"
    using assms by (auto simp: in_set_conv_nth)
  then have "filter P (drop k xs) = drop k xs" by (rule filter_True)
  moreover have "filter P xs = filter P (take k xs) @ filter P (drop k xs)"
    by (metis append_take_drop_id filter_append)
  ultimately show ?thesis by simp
qed

lemma sum_list_nonneg_map:
  fixes f :: "'a \<Rightarrow> 'b::ordered_comm_monoid_add"
  assumes "\<And>x. x \<in> set xs \<Longrightarrow> 0 \<le> f x"
  shows "0 \<le> sum_list (map f xs)"
  using assms by (intro sum_list_nonneg) auto

lemma foldl_invariant:
  assumes "I a" "\<And>a x. x \<in> set xs \<Longrightarrow> I a \<Longrightarrow> I (f a x)"
  shows "I (foldl f a xs)"
  using assms by (induction xs arbitrary: a) auto

text \<open>Integer division, bounded by multiplication.\<close>

lemma div_bounds:
  fixes n m :: int
  assumes "0 < m"
  shows "n div m * m \<le> n" "n < n div m * m + m"
  using div_mult_mod_eq [of n m] pos_mod_sign [OF assms, of n] pos_mod_bound [OF assms, of n]
  by linarith+

end
