(* ===== verification/JsNumber.thy ===== *)
theory JsNumber
  imports Prelude "HOL-Library.Log_Nat"
begin

text \<open>
  JavaScript's \<open>number\<close>. A finite double is the rational it denotes, and every
  arithmetic operation of the source is the exact operation followed by \<open>fl\<close>,
  the binary64 rounding of ECMA-262: to nearest, ties to even, 53 significant
  bits, subnormals with exponent \<open>-1074\<close>. What the type leaves out is overflow
  to an infinity, \<open>NaN\<close> and the sign of a zero: the source guards every division
  and takes prices and weights many orders of magnitude below \<open>2^1023\<close>, and
  the one place that could print a negative zero prints \<open>0\<close>.

  The laws of rounding that the statistics need (it is monotone, idempotent, odd,
  and exact on small integers) are the locale \<open>rounding\<close>, interpreted on \<open>fl\<close>.
\<close>

type_synonym number = rat

subsection \<open>The exponent of a positive rational\<close>

definition ilog2 :: "rat \<Rightarrow> int" where
  "ilog2 x = (case quotient_of x of (p, q) \<Rightarrow>
     let k = bitlen p - bitlen q in if 2 powi k \<le> x then k else k - 1)"

lemma powi_two_nat: "(0::int) \<le> k \<Longrightarrow> (2::rat) powi k = 2 ^ nat k"
  by (simp add: power_int_def)

lemma bitlen_bounds_rat:
  assumes "0 < p"
  shows "(2::rat) powi (bitlen p - 1) \<le> of_int p" "of_int p < (2::rat) powi (bitlen p)"
proof -
  have len: "1 \<le> bitlen p" using assms by (simp add: bitlen_alt_def)
  note b = bitlen_bounds [OF assms]
  have "(of_int (2 ^ nat (bitlen p - 1)) :: rat) \<le> of_int p"
    using b by (subst of_int_le_iff) simp
  then show "(2::rat) powi (bitlen p - 1) \<le> of_int p"
    using len by (simp add: powi_two_nat)
  have "(of_int p :: rat) < of_int (2 ^ nat (bitlen p))"
    using b by (subst of_int_less_iff) simp
  then show "of_int p < (2::rat) powi (bitlen p)"
    using len by (simp add: powi_two_nat)
qed

lemma ilog2_bounds:
  assumes "0 < x"
  shows "2 powi ilog2 x \<le> x" "x < 2 powi (ilog2 x + 1)"
proof -
  obtain p q where pq: "quotient_of x = (p, q)" by (cases "quotient_of x")
  then have q: "0 < q" and x: "x = of_int p / of_int q"
    by (auto intro: quotient_of_denom_pos quotient_of_div)
  have p: "0 < p" using assms x q by (simp add: zero_less_divide_iff)
  define k where "k = bitlen p - bitlen q"
  have lo: "2 powi (k - 1) < x"
  proof -
    have "(2::rat) powi (k - 1) * of_int q < 2 powi (k - 1) * 2 powi bitlen q"
      using bitlen_bounds_rat(2) [OF q] by simp
    also have "\<dots> = 2 powi (bitlen p - 1)"
      by (simp add: k_def flip: power_int_add)
    also have "\<dots> \<le> of_int p" by (rule bitlen_bounds_rat(1) [OF p])
    finally show ?thesis using q by (simp add: x field_simps)
  qed
  have hi: "x < 2 powi (k + 1)"
  proof -
    have "of_int p < (2::rat) powi bitlen p" by (rule bitlen_bounds_rat(2) [OF p])
    also have "\<dots> = 2 powi (k + 1) * 2 powi (bitlen q - 1)"
      by (simp add: k_def flip: power_int_add)
    also have "\<dots> \<le> 2 powi (k + 1) * of_int q"
      using bitlen_bounds_rat(1) [OF q] by simp
    finally show ?thesis using q by (simp add: x field_simps)
  qed
  show "2 powi ilog2 x \<le> x" "x < 2 powi (ilog2 x + 1)"
    using lo hi by (auto simp: ilog2_def pq Let_def k_def [symmetric])
qed

lemma powi_two_le_iff: "(2::rat) powi a \<le> 2 powi b \<longleftrightarrow> a \<le> b"
  by (meson less_irrefl not_le one_less_numeral_iff order_trans power_int_increasing
      power_int_strict_increasing semiring_norm(76) linorder_not_le order_less_imp_le)

lemma powi_two_less_iff: "(2::rat) powi a < 2 powi b \<longleftrightarrow> a < b"
  using powi_two_le_iff [of b a] by (simp add: not_le [symmetric])

lemma ilog2_unique:
  assumes "2 powi k \<le> x" "x < 2 powi (k + 1)"
  shows "ilog2 x = k"
proof -
  have "0 < x" using assms(1) by (meson less_le_trans zero_less_numeral zero_less_power_int)
  note b = ilog2_bounds [OF this]
  have "(2::rat) powi k < 2 powi (ilog2 x + 1)" using assms(1) b(2) by simp
  moreover have "(2::rat) powi ilog2 x < 2 powi (k + 1)" using assms(2) b(1) by simp
  ultimately show ?thesis by (simp add: powi_two_less_iff)
qed

lemma ilog2_mono:
  assumes "0 < x" "x \<le> y"
  shows "ilog2 x \<le> ilog2 y"
proof -
  have "0 < y" using assms by simp
  have "(2::rat) powi ilog2 x \<le> x" by (rule ilog2_bounds(1)) (rule assms)
  also note assms(2)
  also have "y < 2 powi (ilog2 y + 1)" by (rule ilog2_bounds(2)) fact
  finally show ?thesis by (simp add: powi_two_less_iff)
qed

subsection \<open>Rounding to an integer, ties to even\<close>

definition round_even :: "rat \<Rightarrow> int" where
  "round_even y = (let f = \<lfloor>y\<rfloor>; d = y - of_int f in
     if d < 1/2 then f else if d > 1/2 then f + 1 else if even f then f else f + 1)"

lemma round_even_of_int [simp]: "round_even (of_int n) = n"
  by (simp add: round_even_def)

lemma round_even_mono: "x \<le> y \<Longrightarrow> round_even x \<le> round_even y"
proof -
  assume "x \<le> y"
  then have fl: "\<lfloor>x\<rfloor> \<le> \<lfloor>y\<rfloor>" by (rule floor_mono)
  show ?thesis
  proof (cases "\<lfloor>x\<rfloor> = \<lfloor>y\<rfloor>")
    case True
    with \<open>x \<le> y\<close> show ?thesis by (auto simp: round_even_def Let_def)
  next
    case False
    with fl have "\<lfloor>x\<rfloor> + 1 \<le> \<lfloor>y\<rfloor>" by simp
    moreover have "round_even x \<le> \<lfloor>x\<rfloor> + 1" "\<lfloor>y\<rfloor> \<le> round_even y"
      by (auto simp: round_even_def Let_def)
    ultimately show ?thesis by simp
  qed
qed

lemma round_even_uminus: "round_even (- y) = - round_even y"
proof (cases "y \<in> \<int>")
  case True
  then obtain n where "y = of_int n" by (auto elim: Ints_cases)
  then show ?thesis using round_even_of_int [of "- n"] by simp
next
  case False
  define f where "f = \<lfloor>y\<rfloor>"
  have "of_int f \<noteq> y" using False by (metis Ints_of_int)
  then have b: "of_int f < y" "y < of_int f + 1"
    using of_int_floor_le [of y] floor_correct [of y] unfolding f_def by linarith+
  have "\<lfloor>- y\<rfloor> = - f - 1"
    using b by (intro floor_unique) auto
  then show ?thesis
    using b by (auto simp: round_even_def Let_def f_def [symmetric])
qed

subsection \<open>Binary64 rounding\<close>

definition ulp_exp :: "rat \<Rightarrow> int" where
  "ulp_exp x = max (ilog2 \<bar>x\<bar> - 52) (- 1074)"

definition fl :: "rat \<Rightarrow> number" where
  "fl x = (if x = 0 then 0
           else of_int (round_even (x / 2 powi ulp_exp x)) * 2 powi ulp_exp x)"

definition is_double :: "rat \<Rightarrow> bool" where
  "is_double x \<longleftrightarrow> fl x = x"

lemma fl_0 [simp]: "fl 0 = 0"
  by (simp add: fl_def)

lemma fl_uminus: "fl (- x) = - fl x"
  by (simp add: fl_def ulp_exp_def round_even_uminus)

lemma ulp_exp_mono: "0 < x \<Longrightarrow> x \<le> y \<Longrightarrow> ulp_exp x \<le> ulp_exp y"
  using ilog2_mono [of x y] by (auto simp: ulp_exp_def)

lemma powi_two_pos [simp]: "(0::rat) < 2 powi k"
  by (rule zero_less_power_int) simp

lemma powi_two_nat_int: "(0::int) \<le> k \<Longrightarrow> (2::rat) powi k = of_int (2 ^ nat k)"
  by (simp add: powi_two_nat)

lemma powi_two_diff: "(2::rat) powi (a - b) = 2 powi a / 2 powi b"
  by (simp add: power_int_diff)

lemma fl_le_powi:
  assumes "0 < x" "x \<le> 2 powi k" "ulp_exp x \<le> k"
  shows "fl x \<le> 2 powi k"
proof -
  let ?e = "ulp_exp x"
  have "x / 2 powi ?e \<le> 2 powi k / 2 powi ?e"
    using assms(2) by (simp add: divide_right_mono less_imp_le)
  also have "\<dots> = of_int (2 ^ nat (k - ?e))"
    using assms(3) powi_two_nat_int [of "k - ?e"] by (simp add: powi_two_diff)
  finally have "round_even (x / 2 powi ?e) \<le> 2 ^ nat (k - ?e)"
    using round_even_mono round_even_of_int by metis
  then have "(of_int (round_even (x / 2 powi ?e)) :: rat) \<le> of_int (2 ^ nat (k - ?e))"
    by (simp only: of_int_le_iff)
  also have "\<dots> = 2 powi k / 2 powi ?e"
    using assms(3) powi_two_nat_int [of "k - ?e"] by (simp add: powi_two_diff)
  finally show ?thesis
    using assms(1) by (simp add: fl_def field_simps)
qed

lemma fl_ge_powi:
  assumes "2 powi k \<le> x" "ulp_exp x \<le> k"
  shows "2 powi k \<le> fl x"
proof -
  let ?e = "ulp_exp x"
  have pos: "0 < x" using assms(1) powi_two_pos [of k] by linarith
  have "of_int (2 ^ nat (k - ?e)) = (2::rat) powi k / 2 powi ?e"
    using assms(2) powi_two_nat_int [of "k - ?e"] by (simp add: powi_two_diff)
  also have "\<dots> \<le> x / 2 powi ?e"
    using assms(1) by (simp add: divide_right_mono less_imp_le)
  finally have "2 ^ nat (k - ?e) \<le> round_even (x / 2 powi ?e)"
    using round_even_mono round_even_of_int by metis
  then have "(of_int (2 ^ nat (k - ?e)) :: rat) \<le> of_int (round_even (x / 2 powi ?e))"
    by (simp only: of_int_le_iff)
  then have "of_int (2 ^ nat (k - ?e)) * 2 powi ?e \<le> fl x"
    using pos by (simp add: fl_def)
  moreover have "of_int (2 ^ nat (k - ?e)) * 2 powi ?e = (2::rat) powi (k - ?e) * 2 powi ?e"
    using assms(2) powi_two_nat_int [of "k - ?e"] by simp
  moreover have "\<dots> = 2 powi k" by (simp flip: power_int_add)
  ultimately show ?thesis by simp
qed

lemma fl_mono_pos:
  assumes "0 < x" "x \<le> y"
  shows "fl x \<le> fl y"
proof (cases "ulp_exp x = ulp_exp y")
  case True
  let ?e = "ulp_exp y"
  have "round_even (x / 2 powi ?e) \<le> round_even (y / 2 powi ?e)"
    using assms by (intro round_even_mono divide_right_mono) (auto simp: less_imp_le)
  then show ?thesis
    using assms True by (simp add: fl_def mult_right_mono less_imp_le)
next
  case False
  then have lt: "ulp_exp x < ulp_exp y"
    using ulp_exp_mono [OF assms] by simp
  then have ey: "ulp_exp y = ilog2 y - 52" and lt': "ilog2 x < ilog2 y"
    using assms by (auto simp: ulp_exp_def)
  have "x < 2 powi (ilog2 x + 1)" using ilog2_bounds assms by blast
  also have "\<dots> \<le> 2 powi ilog2 y" using lt' by (simp add: powi_two_le_iff)
  finally have "fl x \<le> 2 powi ilog2 y"
    using assms lt ey by (intro fl_le_powi) auto
  also have "\<dots> \<le> fl y"
    using assms ey by (intro fl_ge_powi ilog2_bounds) auto
  finally show ?thesis .
qed

lemma fl_nonneg_pos: "0 < x \<Longrightarrow> 0 \<le> fl x"
proof -
  assume "0 < x"
  then have "round_even 0 \<le> round_even (x / 2 powi ulp_exp x)"
    by (intro round_even_mono) (simp add: less_imp_le)
  then have "0 \<le> round_even (x / 2 powi ulp_exp x)"
    using round_even_of_int [of 0] by simp
  with \<open>0 < x\<close> show ?thesis by (simp add: fl_def less_imp_le)
qed

theorem fl_mono: "x \<le> y \<Longrightarrow> fl x \<le> fl y"
proof (cases "0 < x")
  case True
  assume "x \<le> y"
  with True show ?thesis by (rule fl_mono_pos)
next
  case False
  assume xy: "x \<le> y"
  show ?thesis
  proof (cases "y < 0")
    case True
    then have "fl (- y) \<le> fl (- x)" using xy by (intro fl_mono_pos) auto
    then show ?thesis by (simp add: fl_uminus)
  next
    case nonneg: False
    have "fl x \<le> 0"
      using False fl_nonneg_pos [of "- x"] by (cases "x = 0") (auto simp: fl_uminus)
    also have "0 \<le> fl y"
      using nonneg fl_nonneg_pos [of y] by (cases "y = 0") auto
    finally show ?thesis .
  qed
qed

text \<open>The integers of at most 53 bits, scaled by a power of two, are doubles.\<close>

lemma ilog2_of_int_mult:
  assumes "0 < m" "m \<le> 2 ^ 53 - 1"
  shows "ilog2 (of_int m * 2 powi k) \<le> 52 + k"
proof (rule ccontr)
  assume "\<not> ?thesis"
  then have "53 + k \<le> ilog2 (of_int m * 2 powi k)" by simp
  then have "(2::rat) powi (53 + k) \<le> 2 powi ilog2 (of_int m * 2 powi k)"
    by (simp add: powi_two_le_iff)
  also have "\<dots> \<le> of_int m * 2 powi k"
    using assms by (intro ilog2_bounds) simp
  finally have "(2::rat) ^ 53 \<le> of_int m" by (simp add: power_int_add)
  then have "(of_int (2 ^ 53) :: rat) \<le> of_int m" by simp
  then have "2 ^ 53 \<le> m" by (simp only: of_int_le_iff)
  with assms show False by simp
qed

lemma fl_exact_multiple:
  assumes "x = of_int n * 2 powi ulp_exp x"
  shows "fl x = x"
proof -
  have "x / 2 powi ulp_exp x = of_int n"
    using assms powi_two_pos [of "ulp_exp x"] by (metis nonzero_mult_div_cancel_right less_irrefl)
  then show ?thesis using assms by (simp add: fl_def)
qed

lemma fl_scaled_int_aux:
  assumes "0 < m" "m \<le> 2 ^ 53 - 1" "- 1074 \<le> k"
  shows "fl (of_int m * 2 powi k) = of_int m * 2 powi k"
proof -
  let ?x = "of_int m * 2 powi k :: rat"
  have le: "ulp_exp ?x \<le> k"
    using ilog2_of_int_mult [OF assms(1,2), of k] assms by (simp add: ulp_exp_def)
  have "?x = of_int (m * 2 ^ nat (k - ulp_exp ?x)) * 2 powi ulp_exp ?x"
    using le powi_two_nat_int [of "k - ulp_exp ?x", symmetric]
    by (simp add: mult.assoc flip: power_int_add)
  then show ?thesis by (rule fl_exact_multiple)
qed

lemma fl_scaled_int:
  assumes "\<bar>m\<bar> \<le> 2 ^ 53" "- 1074 \<le> k"
  shows "fl (of_int m * 2 powi k) = of_int m * 2 powi k"
proof -
  have pos: "fl (of_int m * 2 powi k) = of_int m * 2 powi k"
    if m: "0 < m" "m \<le> 2 ^ 53" for m
  proof (cases "m = 2 ^ 53")
    case True
    have "(of_int m :: rat) * 2 powi k = of_int (2 ^ 52) * 2 powi (k + 1)"
      by (simp add: True power_int_add)
    moreover have "fl (of_int (2 ^ 52) * 2 powi (k + 1)) = of_int (2 ^ 52) * 2 powi (k + 1)"
      by (rule fl_scaled_int_aux) (use assms in auto)
    ultimately show ?thesis by simp
  next
    case False
    then show ?thesis using m assms(2) by (intro fl_scaled_int_aux) auto
  qed
  consider "m = 0" | "0 < m" | "0 < - m" by linarith
  then show ?thesis
  proof cases
    case 1
    then show ?thesis by simp
  next
    case 2
    then show ?thesis using assms(1) by (intro pos) auto
  next
    case 3
    then have "fl (of_int (- m) * 2 powi k) = of_int (- m) * 2 powi k"
      using assms(1) by (intro pos) auto
    then show ?thesis by (simp add: fl_uminus)
  qed
qed

lemma fl_is_scaled_int:
  "\<exists>m k. fl x = of_int m * 2 powi k \<and> \<bar>m\<bar> \<le> 2 ^ 53 \<and> - 1074 \<le> k"
proof (cases "x = 0")
  case True
  then show ?thesis by (intro exI [of _ 0]) auto
next
  case False
  let ?e = "ulp_exp x" and ?m = "round_even (x / 2 powi ulp_exp x)"
  have "\<bar>x\<bar> < 2 powi (ilog2 \<bar>x\<bar> + 1)" using False by (intro ilog2_bounds) simp
  also have "\<dots> \<le> 2 powi (53 + ?e)" by (simp add: powi_two_le_iff ulp_exp_def)
  also have "\<dots> = of_int (2 ^ 53) * 2 powi ?e" by (simp add: power_int_add)
  finally have "\<bar>x\<bar> \<le> of_int (2 ^ 53) * 2 powi ?e" by simp
  then have "\<bar>x / 2 powi ?e\<bar> \<le> of_int (2 ^ 53)"
    by (simp add: abs_div_pos [symmetric] pos_divide_le_eq)
  then have "x / 2 powi ?e \<le> of_int (2 ^ 53)" "of_int (- (2 ^ 53)) \<le> x / 2 powi ?e"
    by (simp_all only: abs_le_iff of_int_minus) linarith
  then have "?m \<le> 2 ^ 53" "- (2 ^ 53) \<le> ?m"
    using round_even_mono round_even_of_int by metis+
  moreover have "fl x = of_int ?m * 2 powi ?e" using False by (simp add: fl_def)
  moreover have "- 1074 \<le> ?e" by (simp add: ulp_exp_def)
  ultimately show ?thesis by (intro exI [of _ ?m] exI [of _ ?e]) auto
qed

theorem fl_idem: "fl (fl x) = fl x"
  using fl_is_scaled_int [of x] fl_scaled_int by metis

lemma fl_of_int: "\<bar>n\<bar> \<le> 2 ^ 53 \<Longrightarrow> fl (of_int n) = of_int n"
  using fl_scaled_int [of n 0] by simp

subsection \<open>The laws of rounding\<close>

text \<open>
  What the statistics may rely on. A client of the arithmetic proves its lemmas
  from these laws alone, so they hold of any faithful rounding; \<open>fl\<close> is one.
\<close>

locale rounding =
  fixes rnd :: "rat \<Rightarrow> rat"
  assumes rnd_mono: "x \<le> y \<Longrightarrow> rnd x \<le> rnd y"
    and rnd_idem: "rnd (rnd x) = rnd x"
    and rnd_uminus: "rnd (- x) = - rnd x"
    and rnd_int: "\<bar>n\<bar> \<le> 2 ^ 53 \<Longrightarrow> rnd (of_int n) = of_int n"
    and rnd_double: "rnd x = x \<Longrightarrow> rnd (x + x) = x + x"
    and rnd_diff_eq_0: "rnd x = x \<Longrightarrow> rnd y = y \<Longrightarrow> rnd (x - y) = 0 \<Longrightarrow> x = y"
begin

lemma rnd_0: "rnd 0 = 0"
  using rnd_int [of 0] by simp

lemma rnd_1: "rnd 1 = 1"
  using rnd_int [of 1] by simp

lemma rnd_nonneg: "0 \<le> x \<Longrightarrow> 0 \<le> rnd x"
  using rnd_mono [of 0 x] by (simp add: rnd_0)

lemma rnd_le: "rnd y = y \<Longrightarrow> x \<le> y \<Longrightarrow> rnd x \<le> y"
  using rnd_mono [of x y] by simp

lemma rnd_ge: "rnd y = y \<Longrightarrow> y \<le> x \<Longrightarrow> y \<le> rnd x"
  using rnd_mono [of y x] by simp

lemma rnd_abs: "rnd \<bar>x\<bar> = \<bar>rnd x\<bar>"
  using rnd_nonneg [of x] rnd_nonneg [of "- x"] by (cases "0 \<le> x") (auto simp: rnd_uminus)

lemma rnd_midpoint:
  assumes "rnd a = a" "rnd b = b" "a \<le> b"
  shows "a \<le> rnd (rnd (a + b) / 2)" "rnd (rnd (a + b) / 2) \<le> b"
proof -
  have "a + a \<le> rnd (a + b)" using assms rnd_double [of a] by (intro rnd_ge) auto
  then show "a \<le> rnd (rnd (a + b) / 2)" using assms(1) by (intro rnd_ge) auto
  have "rnd (a + b) \<le> b + b" using assms rnd_double [of b] by (intro rnd_le) auto
  then show "rnd (rnd (a + b) / 2) \<le> b" using assms(2) by (intro rnd_le) auto
qed

lemma rnd_diff_iff:
  "rnd x = x \<Longrightarrow> rnd y = y \<Longrightarrow> 0 < rnd (x - y) \<longleftrightarrow> y < x"
  using rnd_mono [of "x - y" 0] rnd_nonneg [of "x - y"] rnd_diff_eq_0 [of x y]
  by (force simp: rnd_0)

end

lemma fl_double: "fl x = x \<Longrightarrow> fl (x + x) = x + x"
proof -
  assume x: "fl x = x"
  obtain m k where mk: "fl x = of_int m * 2 powi k" "\<bar>m\<bar> \<le> 2 ^ 53" "- 1074 \<le> k"
    using fl_is_scaled_int [of x] by blast
  have "x + x = of_int m * 2 powi (k + 1)"
    using mk(1) x by (simp add: power_int_add)
  then show ?thesis using fl_scaled_int [of m "k + 1"] mk by simp
qed

text \<open>Two doubles differ by a multiple of \<open>2^-1074\<close>, which gradual underflow keeps.\<close>

lemma powi_two_shift: "(2::rat) powi k = 2 powi (k + j) * 2 powi (- j)"
  by (simp flip: power_int_add)

lemma double_multiple: "fl x = x \<Longrightarrow> \<exists>n. x = of_int n * 2 powi (- 1074)"
proof -
  assume x: "fl x = x"
  obtain m k where mk: "fl x = of_int m * 2 powi k" "- 1074 \<le> k"
    using fl_is_scaled_int [of x] by blast
  have "(2::rat) powi k = 2 powi (k + 1074) * 2 powi (- 1074)"
    by (rule powi_two_shift)
  also have "(2::rat) powi (k + 1074) = of_int (2 ^ nat (k + 1074))"
    using mk(2) by (intro powi_two_nat_int) simp
  finally have "x = of_int (m * 2 ^ nat (k + 1074)) * 2 powi (- 1074)"
    using mk(1) x by simp
  then show ?thesis by blast
qed

lemma fl_diff_eq_0: "fl x = x \<Longrightarrow> fl y = y \<Longrightarrow> fl (x - y) = 0 \<Longrightarrow> x = y"
proof (rule ccontr)
  assume d: "fl x = x" "fl y = y" and z: "fl (x - y) = 0" and ne: "x \<noteq> y"
  obtain m n where "x = of_int m * 2 powi (- 1074)" "y = of_int n * 2 powi (- 1074)"
    using d double_multiple by meson
  then have diff: "x - y = of_int (m - n) * 2 powi (- 1074)" by (simp add: algebra_simps)
  then have mn: "m - n \<noteq> 0" using ne by auto
  have tiny: "fl (2 powi (- 1074)) = 2 powi (- 1074)"
    using fl_scaled_int [of 1 "- 1074"] by simp
  have lb: "2 powi (- 1074) \<le> fl \<bar>x - y\<bar>"
  proof -
    have "(1::rat) \<le> of_int \<bar>m - n\<bar>" using mn by (subst of_int_1 [symmetric], subst of_int_le_iff) linarith
    then have "2 powi (- 1074) \<le> \<bar>x - y\<bar>" by (simp add: diff abs_mult)
    then show ?thesis using fl_mono tiny by metis
  qed
  have "fl \<bar>x - y\<bar> = 0"
    using z fl_uminus [of "x - y"] by (cases "0 \<le> x - y") auto
  with lb show False using powi_two_pos [of "- 1074"] by linarith
qed

interpretation binary64: rounding fl
  by unfold_locales (fact fl_mono fl_idem fl_uminus fl_of_int fl_double fl_diff_eq_0)+

lemma fl_numeral: "(numeral n :: rat) \<le> 2 ^ 53 \<Longrightarrow> fl (numeral n) = numeral n"
proof -
  assume "(numeral n :: rat) \<le> 2 ^ 53"
  then have "(of_int (numeral n) :: rat) \<le> of_int (2 ^ 53)" by simp
  then have "(numeral n :: int) \<le> 2 ^ 53" by (simp only: of_int_le_iff)
  then show ?thesis using fl_of_int [of "numeral n"] by simp
qed

lemmas fl_facts [js_arith] =
  fl_mono fl_idem binary64.rnd_nonneg binary64.rnd_abs binary64.rnd_le binary64.rnd_ge

subsection \<open>The operators of the source\<close>

definition fadd :: "number \<Rightarrow> number \<Rightarrow> number" where "fadd x y = fl (x + y)"
definition fsub :: "number \<Rightarrow> number \<Rightarrow> number" where "fsub x y = fl (x - y)"
definition fmul :: "number \<Rightarrow> number \<Rightarrow> number" where "fmul x y = fl (x * y)"
definition fdiv :: "number \<Rightarrow> number \<Rightarrow> number" where "fdiv x y = fl (x / y)"

lemmas js_ops = fadd_def fsub_def fmul_def fdiv_def

text \<open>\<open>xs.reduce((a, x) => a + x, 0)\<close>: the additions round in the order of the list.\<close>

definition fsum :: "number list \<Rightarrow> number" where
  "fsum xs = foldl fadd 0 xs"

lemma fadd_nonneg: "0 \<le> x \<Longrightarrow> 0 \<le> y \<Longrightarrow> 0 \<le> fadd x y"
  by (simp add: fadd_def binary64.rnd_nonneg)

lemma fmul_nonneg: "0 \<le> x \<Longrightarrow> 0 \<le> y \<Longrightarrow> 0 \<le> fmul x y"
  by (simp add: fmul_def binary64.rnd_nonneg)

lemma fdiv_nonneg: "0 \<le> x \<Longrightarrow> 0 \<le> y \<Longrightarrow> 0 \<le> fdiv x y"
  by (simp add: fdiv_def binary64.rnd_nonneg)

lemma fsum_nonneg:
  assumes "\<And>x. x \<in> set xs \<Longrightarrow> 0 \<le> x"
  shows "0 \<le> fsum xs"
  unfolding fsum_def
  by (rule foldl_invariant [where I = "\<lambda>a. 0 \<le> a"]) (auto intro: fadd_nonneg assms)

subsection \<open>\<open>Math.round\<close> and \<open>round4\<close>\<close>

text \<open>\<open>Math.round\<close> is exact: the integer nearest, a tie going up.\<close>

definition js_round :: "number \<Rightarrow> int" where
  "js_round x = \<lfloor>x + 1/2\<rfloor>"

definition round4 :: "number \<Rightarrow> number" where
  "round4 x = fdiv (of_int (js_round (fmul x 10000))) 10000"

lemma round4_mono: "x \<le> y \<Longrightarrow> round4 x \<le> round4 y"
proof -
  assume "x \<le> y"
  then have "fmul x 10000 \<le> fmul y 10000" by (simp add: fmul_def fl_mono)
  then have "js_round (fmul x 10000) \<le> js_round (fmul y 10000)"
    by (simp add: js_round_def floor_mono)
  then show ?thesis by (simp add: round4_def fdiv_def fl_mono divide_right_mono)
qed

lemma round4_is_double: "fl (round4 x) = round4 x"
  by (simp add: round4_def fdiv_def fl_idem)

subsection \<open>The rounding error\<close>

lemma round_even_error: "\<bar>of_int (round_even y) - y\<bar> \<le> 1 / 2"
  unfolding round_even_def Let_def by (auto simp: abs_if not_less) linarith+

lemma ulp_exp_le:
  assumes "2 powi (- 1022) \<le> \<bar>x\<bar>"
  shows "2 powi ulp_exp x \<le> \<bar>x\<bar> / 2 ^ 52"
proof -
  have pos: "0 < \<bar>x\<bar>" using assms powi_two_pos [of "- 1022"] by linarith
  have "ulp_exp x = ilog2 \<bar>x\<bar> - 52"
    using ilog2_mono [of "2 powi (- 1022)" "\<bar>x\<bar>"] assms ilog2_unique [of "- 1022" "2 powi (- 1022)"]
    by (simp add: ulp_exp_def powi_two_less_iff)
  then have "(2::rat) powi ulp_exp x = 2 powi ilog2 \<bar>x\<bar> / 2 powi 52"
    by (simp add: powi_two_diff)
  then have "(2::rat) powi ulp_exp x = 2 powi ilog2 \<bar>x\<bar> / 2 ^ 52"
    by (simp add: powi_two_nat)
  then show ?thesis
    using ilog2_bounds(1) [OF pos] by (simp add: divide_right_mono)
qed

lemma fl_error:
  assumes "2 powi (- 1022) \<le> \<bar>x\<bar>"
  shows "\<bar>fl x - x\<bar> \<le> \<bar>x\<bar> / 2 ^ 53"
proof -
  let ?u = "2 powi ulp_exp x :: rat"
  have u: "0 < ?u" by simp
  have ne: "x \<noteq> 0" using assms powi_two_pos [of "- 1022"] by auto
  have "fl x - x = (of_int (round_even (x / ?u)) - x / ?u) * ?u"
    using ne u by (simp add: fl_def algebra_simps)
  then have "\<bar>fl x - x\<bar> = \<bar>of_int (round_even (x / ?u)) - x / ?u\<bar> * ?u"
    by (simp add: abs_mult)
  also have "\<dots> \<le> 1 / 2 * ?u"
    using round_even_error [of "x / ?u"] u by (intro mult_right_mono) auto
  also have "\<dots> \<le> 1 / 2 * (\<bar>x\<bar> / 2 ^ 52)"
    using ulp_exp_le [OF assms] by simp
  finally show ?thesis by simp
qed

lemma normal_ge_1: "1 / 2 ^ 53 \<le> x \<Longrightarrow> 2 powi (- 1022) \<le> \<bar>x::rat\<bar>"
proof -
  assume "1 / 2 ^ 53 \<le> x"
  moreover have "(2::rat) powi (- 1022) \<le> 2 powi (- 53)" by (simp add: powi_two_le_iff)
  moreover have "(2::rat) powi (- 53) = 1 / 2 ^ 53" by (simp add: power_int_def field_simps)
  ultimately show ?thesis by linarith
qed

lemma fl_error_pos: "1 / 2 ^ 53 \<le> x \<Longrightarrow> \<bar>fl x - x\<bar> \<le> x / 2 ^ 53"
  using fl_error [OF normal_ge_1] by fastforce

text \<open>Dividing integers and rounding down: the quotient rounded to a double does not reach the next integer.\<close>
lemma floor_fdiv:
  assumes "0 \<le> n" "0 < m" "n + m \<le> 2 ^ 53"
  shows "\<lfloor>fdiv (of_int n) (of_int m)\<rfloor> = n div m"
proof -
  let ?x = "of_int n / of_int m :: rat" and ?q = "n div m"
  have e: "?q * m + n mod m = n" by (rule div_mult_mod_eq)
  have r: "0 \<le> n mod m" "n mod m < m" using assms(2) by simp_all
  have q1: "0 \<le> ?q" using assms by (simp add: pos_imp_zdiv_nonneg_iff)
  have q2: "?q * m \<le> n" using e r(1) by linarith
  have "(?q + 1) * m = ?q * m + m" by (simp add: distrib_right)
  then have q3: "n < (?q + 1) * m" using e r(2) by linarith
  note q = q1 q2 q3
  have lo: "of_int ?q \<le> ?x" 
    using q(2) assms(2) by (simp add: pos_le_divide_eq flip: of_int_mult)
  have "?q \<le> n" using zdiv_mono2 [of n 1 m] assms by simp 
  then have "of_int ?q \<le> fl ?x"
    using lo assms q by (intro binary64.rnd_ge) (auto simp: fl_of_int)
  moreover have "fl ?x < of_int (?q + 1)"
  proof (cases "n = 0")
    case True then show ?thesis by simp
  next
    case False
    have gap: "?x \<le> of_int (?q + 1) - 1 / of_int m"
    proof -
      have "n + 1 \<le> (?q + 1) * m" using q(3) by simp
      then have "of_int (n + 1) \<le> (of_int ((?q + 1) * m) :: rat)" by (simp only: of_int_le_iff)
      then show ?thesis using assms(2) by (simp add: field_simps)
    qed
    have big: "1 / 2 ^ 53 \<le> ?x"
    proof -
      have "of_int m \<le> (of_int (2 ^ 53) :: rat)" using assms by (simp only: of_int_le_iff)
      then show ?thesis using False assms by (simp add: field_simps)
    qed
    have "fl ?x \<le> ?x + ?x / 2 ^ 53" using fl_error_pos [OF big] by linarith
    also have "\<dots> < ?x + 1 / of_int m"
    proof -
      have "of_int n < (of_int (2 ^ 53) :: rat)" using assms by (simp only: of_int_less_iff)
      then show ?thesis using assms(2) by (simp add: field_simps)
    qed
    also have "\<dots> \<le> of_int (?q + 1)" using gap by simp
    finally show ?thesis .
  qed
  ultimately show ?thesis by (simp add: fdiv_def floor_eq_iff)
qed

end
