(* ===== verification/RobustStats.thy ===== *)
theory RobustStats
  imports JsNumber
begin

text \<open>
  packages/pricing-engine/src/median.ts: the median, the median absolute
  deviation and the weighted median. JavaScript's comparator sort
  \<open>(a, b) => a - b\<close> is the stable ascending sort, since a rounded difference of
  two doubles has the sign of the exact one (\<open>binary64.rnd_diff_iff\<close>).

  What the screens rest on is the splitting property of the median: at least half
  of the values are on either side of it, whatever the other half is.
\<close>

subsection \<open>The median\<close>

definition median :: "number list \<Rightarrow> number or_null" where
  "median values = (if values = [] then None else
     let sorted = sort values; mid = length sorted div 2
     in Some (if odd (length sorted) then sorted ! mid
              else fdiv (fadd (sorted ! (mid - 1)) (sorted ! mid)) 2))"

lemma median_eq_None [simp]: "median xs = None \<longleftrightarrow> xs = []"
  by (simp add: median_def Let_def)

lemma median_Nil [simp]: "median [] = None"
  by simp

lemma median_Some_ex: "xs \<noteq> [] \<Longrightarrow> \<exists>m. median xs = Some m"
  by (simp add: median_def Let_def)

lemma median_perm: "mset xs = mset ys \<Longrightarrow> median xs = median ys"
proof -
  assume eq: "mset xs = mset ys"
  then have "sort xs = sort ys" by (metis properties_for_sort sorted_sort mset_sort)
  moreover have "xs = [] \<longleftrightarrow> ys = []" using eq by auto
  ultimately show ?thesis by (simp add: median_def)
qed

text \<open>Where the median lies between two neighbours of the sorted list.\<close>

lemma median_between:
  assumes m: "median xs = Some m" and dbl: "\<And>x. x \<in> set xs \<Longrightarrow> fl x = x"
  defines "s \<equiv> sort xs" and "n \<equiv> length xs"
  shows "s ! ((n - 1) div 2) \<le> m" "m \<le> s ! (n div 2)"
proof -
  have ne: "xs \<noteq> []" using m by auto
  then have n: "0 < n" "length s = n" by (auto simp: n_def s_def)
  have le: "s ! ((n - 1) div 2) \<le> s ! (n div 2)"
    using n by (intro sorted_nth_le) (auto simp: s_def div_le_mono)
  have in_s: "\<And>i. i < n \<Longrightarrow> fl (s ! i) = s ! i"
    using n dbl by (metis nth_mem set_sort s_def)
  have "s ! ((n - 1) div 2) \<le> m \<and> m \<le> s ! (n div 2)"
  proof (cases "odd n")
    case True
    then have "(n - 1) div 2 = n div 2" by (metis One_nat_def odd_Suc_minus_one odd_two_times_div_two_nat odd_two_times_div_two_succ diff_Suc_1 nonzero_mult_div_cancel_left zero_neq_numeral)
    then show ?thesis using m ne True n by (simp add: median_def s_def n_def Let_def)
  next
    case False
    then have mid: "n div 2 - 1 = (n - 1) div 2" using n by presburger
    have "m = fl (fl (s ! ((n - 1) div 2) + s ! (n div 2)) / 2)"
      using m ne False mid by (simp add: median_def s_def n_def Let_def fadd_def fdiv_def)
    moreover have "(n - 1) div 2 < n" "n div 2 < n" using n by auto
    ultimately show ?thesis
      using binary64.rnd_midpoint [OF in_s in_s le] by simp
  qed
  then show "s ! ((n - 1) div 2) \<le> m" "m \<le> s ! (n div 2)" by auto
qed

lemma length_filter_sort: "length (filter P (sort xs)) = length (filter P xs)"
  by (rule length_filter_mset) simp

theorem median_splits:
  assumes m: "median xs = Some m" and dbl: "\<And>x. x \<in> set xs \<Longrightarrow> fl x = x"
  shows "length xs \<le> 2 * length (filter (\<lambda>x. x \<le> m) xs)"
    and "length xs \<le> 2 * length (filter (\<lambda>x. m \<le> x) xs)"
proof -
  let ?n = "length xs" and ?s = "sort xs"
  have ne: "0 < ?n" using m by auto
  have half: "(?n - 1) div 2 < ?n" "?n div 2 < ?n" using half_less [OF ne] by auto
  have lo: "?s ! i \<le> m" if "i < (?n - 1) div 2 + 1" for i
  proof -
    have "?s ! i \<le> ?s ! ((?n - 1) div 2)"
      using that half by (intro sorted_nth_le) simp_all
    also have "\<dots> \<le> m" by (rule median_between(1) [OF m dbl])
    finally show ?thesis .
  qed
  have "(?n - 1) div 2 + 1 \<le> length (filter (\<lambda>x. x \<le> m) ?s)"
    using lo half(1) by (intro length_filter_prefix) simp_all
  then show "?n \<le> 2 * length (filter (\<lambda>x. x \<le> m) xs)"
    by (simp add: length_filter_sort)
  have hi: "m \<le> ?s ! i" if "?n div 2 \<le> i" "i < ?n" for i
  proof -
    have "m \<le> ?s ! (?n div 2)" by (rule median_between(2) [OF m dbl])
    also have "\<dots> \<le> ?s ! i" using that by (intro sorted_nth_le) auto
    finally show ?thesis .
  qed
  have "?n - ?n div 2 \<le> length (filter (\<lambda>x. m \<le> x) ?s)"
    using hi length_filter_suffix [of "?n div 2" ?s "\<lambda>x. m \<le> x"] by simp
  then show "?n \<le> 2 * length (filter (\<lambda>x. m \<le> x) xs)"
    by (simp add: length_filter_sort)
qed

lemma median_in_range:
  assumes m: "median xs = Some m" and dbl: "\<And>x. x \<in> set xs \<Longrightarrow> fl x = x"
    and b: "\<And>x. x \<in> set xs \<Longrightarrow> lo \<le> x \<and> x \<le> hi"
  shows "lo \<le> m \<and> m \<le> hi"
proof -
  have ne: "0 < length xs" using m by auto
  have mem: "\<And>i. i < length xs \<Longrightarrow> sort xs ! i \<in> set xs"
    by (metis length_sort nth_mem set_sort)
  have "(length xs - 1) div 2 < length xs" "length xs div 2 < length xs" using half_less [OF ne] by auto
  then have "lo \<le> sort xs ! ((length xs - 1) div 2)" "sort xs ! (length xs div 2) \<le> hi"
    using b mem by blast+
  with median_between [OF m dbl] show ?thesis by simp
qed

lemma median_is_double:
  assumes "median xs = Some m" and "\<And>x. x \<in> set xs \<Longrightarrow> fl x = x"
  shows "fl m = m"
proof -
  have "xs \<noteq> []" using assms(1) by auto
  then have "\<And>i. i < length xs \<Longrightarrow> fl (sort xs ! i) = sort xs ! i"
    using assms(2) by (metis length_sort nth_mem set_sort)
  then show ?thesis
    using assms(1) \<open>xs \<noteq> []\<close> by (auto simp: median_def Let_def fdiv_def fl_idem split: if_splits)
qed

subsection \<open>The median absolute deviation\<close>

text \<open>
  The optional argument \<open>center\<close>: \<open>None\<close> is \<open>undefined\<close> (compute the median),
  \<open>Some None\<close> is \<open>null\<close>.
\<close>

definition mad :: "number list \<Rightarrow> number or_null option \<Rightarrow> number or_null" where
  "mad values center = (if values = [] then None else
     let c = (case center of None \<Rightarrow> median values | Some c \<Rightarrow> c)
     in case c of None \<Rightarrow> None
        | Some c \<Rightarrow> median (map (\<lambda>v. \<bar>fsub v c\<bar>) values))"

lemma mad_Some_iff:
  "mad xs (Some (Some c)) = (if xs = [] then None else median (map (\<lambda>v. \<bar>fsub v c\<bar>) xs))"
  by (simp add: mad_def)

lemma abs_fsub_double: "fl \<bar>fsub v c\<bar> = \<bar>fsub v c\<bar>"
  by (simp add: fsub_def binary64.rnd_abs fl_idem)

lemma mad_nonneg:
  assumes "mad xs (Some (Some c)) = Some d"
  shows "0 \<le> d"
proof -
  have "median (map (\<lambda>v. \<bar>fsub v c\<bar>) xs) = Some d"
    using assms by (auto simp: mad_Some_iff split: if_splits)
  then have "0 \<le> d \<and> d \<le> Max (set (map (\<lambda>v. \<bar>fsub v c\<bar>) xs))"
    by (rule median_in_range) (auto simp: abs_fsub_double)
  then show ?thesis by simp
qed

text \<open>At least half of the values are within the MAD of the centre.\<close>

lemma mad_covers_half:
  assumes "mad xs (Some (Some c)) = Some d"
  shows "length xs \<le> 2 * length (filter (\<lambda>v. \<bar>fsub v c\<bar> \<le> d) xs)"
proof -
  have "median (map (\<lambda>v. \<bar>fsub v c\<bar>) xs) = Some d"
    using assms by (auto simp: mad_Some_iff split: if_splits)
  from median_splits(1) [OF this] show ?thesis
    using abs_fsub_double by (auto simp: length_filter_map comp_def)
qed

subsection \<open>The weighted median\<close>

record weighted =
  wvalue :: number
  weight :: number

fun firstReaching :: "number \<Rightarrow> number \<Rightarrow> weighted list \<Rightarrow> number or_null" where
  "firstReaching half cum [] = None"
| "firstReaching half cum (v # vs) =
     (let cum' = fadd cum (weight v)
      in if cum' \<ge> half then Some (wvalue v) else firstReaching half cum' vs)"

definition weightedMedian :: "weighted list \<Rightarrow> number or_null" where
  "weightedMedian values = (if values = [] then None else
     let sorted = sort_key wvalue values;
         total = fsum (map weight sorted)
     in if total \<le> 0 then None
        else case firstReaching (fdiv total 2) 0 sorted of
               Some v \<Rightarrow> Some v
             | None \<Rightarrow> Some (wvalue (last sorted)))"

lemma firstReaching_mem: "firstReaching h c vs = Some x \<Longrightarrow> x \<in> wvalue ` set vs"
  by (induction vs arbitrary: c) (auto simp: Let_def split: if_splits)

lemma weightedMedian_mem: "weightedMedian vs = Some x \<Longrightarrow> x \<in> wvalue ` set vs"
proof -
  assume w: "weightedMedian vs = Some x"
  then have "sort_key wvalue vs \<noteq> []"
    by (metis length_0_conv length_sort option.distinct(1) weightedMedian_def)
  then have "wvalue (last (sort_key wvalue vs)) \<in> wvalue ` set vs"
    by (metis image_eqI last_in_set set_sort)
  with w show ?thesis
    by (auto simp: weightedMedian_def Let_def split: if_splits option.splits
        dest!: firstReaching_mem)
qed

text \<open>
  The result is the first value of the sorted list at which the running weight
  reaches half of the total: the prefix before it stays below half.
\<close>

lemma firstReaching_split:
  "firstReaching h c vs = Some x \<Longrightarrow>
   \<exists>us v ws. vs = us @ v # ws \<and> x = wvalue v \<and>
     h \<le> foldl fadd c (map weight (us @ [v])) \<and>
     (\<forall>k < length us. foldl fadd c (map weight (take (Suc k) us)) < h)"
proof (induction vs arbitrary: c)
  case Nil
  then show ?case by simp
next
  case (Cons a vs)
  show ?case
  proof (cases "h \<le> fadd c (weight a)")
    case True
    with Cons.prems show ?thesis
      by (intro exI [of _ "[]"] exI [of _ a] exI [of _ vs]) (auto simp: Let_def)
  next
    case False
    then have "firstReaching h (fadd c (weight a)) vs = Some x"
      using Cons.prems by (simp add: Let_def)
    from Cons.IH [OF this] obtain us v ws where
      s: "vs = us @ v # ws" "x = wvalue v"
        "h \<le> foldl fadd (fadd c (weight a)) (map weight (us @ [v]))"
        "\<forall>k < length us. foldl fadd (fadd c (weight a)) (map weight (take (Suc k) us)) < h"
      by blast
    have "\<forall>k < length (a # us). foldl fadd c (map weight (take (Suc k) (a # us))) < h"
    proof (intro allI impI)
      fix k assume "k < length (a # us)"
      then show "foldl fadd c (map weight (take (Suc k) (a # us))) < h"
        using s(4) False by (cases k) auto
    qed
    with s show ?thesis
      by (intro exI [of _ "a # us"] exI [of _ v] exI [of _ ws]) auto
  qed
qed

lemma firstReaching_None:
  "firstReaching h c vs = None \<Longrightarrow> vs \<noteq> [] \<Longrightarrow> foldl fadd c (map weight vs) < h"
proof (induction vs arbitrary: c)
  case (Cons a vs)
  then show ?case by (cases vs) (auto simp: Let_def split: if_splits)
qed simp

end
