(* ===== verification/MarketTypes.thy ===== *)
theory MarketTypes
  imports JsNumber
begin

text \<open>
  packages/types/src: the market-data vocabulary (enums.ts) and the audit receipts
  (receipts.ts). A \<open>Date\<close> is its epoch milliseconds. The text of a receipt's
  \<open>detail\<close> is kept as the template it is built from with the values the template
  interpolates (\<open>detail\<close>), not as rendered characters.
\<close>

type_synonym date = int

datatype SourceType = principal | marketplace | reseller | aggregator

datatype PricingTier = on_demand | community | spot | preemptible | reserved | committed

datatype ProviderRole = COLLECTED | SETTLEMENT_ELIGIBLE | WATCHDOG_ONLY | EXCLUDED

datatype IndexStatus = healthy | degraded | stale | withheld | frozen

datatype ProviderPriceMethod = median_method | volume_weighted_median | thin_book_holdout

datatype HoldoutReason = thin_book | no_usd_observations | all_filtered

datatype detail =
    D_unavailable
  | D_bid_offer
  | D_gpu_count "int option" int int            \<comment> \<open>the count, or missing; the bounds\<close>
  | D_out_of_band number number number string
  | D_arithmetic number number
  | D_tier "PricingTier option" "PricingTier list"
  | D_mad_zero_band number number number
  | D_mad_outlier number number number number
  | D_jump number number nat number
  | D_role "ProviderRole option"
  | D_held_out "(HoldoutReason \<times> (nat \<times> nat \<times> int \<times> int) option) option"

text \<open>\<open>reason\<close> is the source's literal; \<open>excluded_value\<close> is absent on a held-out provider.\<close>

record ExclusionReceipt =
  ex_providerId :: string
  ex_reason :: string
  ex_detail :: detail
  ex_value :: "number option"

text \<open>The optional \<open>detail\<close> of a thin book: machines, hosts and the two floors.\<close>

record ProviderHoldout =
  ho_providerId :: string
  ho_reason :: HoldoutReason
  ho_detail :: "(nat \<times> nat \<times> int \<times> int) option"

record ContributionReceipt =
  co_providerId :: string
  co_price :: number
  co_weightBeforeCap :: number
  co_weightAfterCap :: number
  co_executable :: bool
  co_sampleSize :: nat
  co_method :: ProviderPriceMethod
  co_sigma :: "number option"

record AggregationFlags =
  coverageGap :: bool
  dedupDroppedCount :: nat
  bidOffersSkipped :: nat
  arithmeticMismatches :: nat
  outOfRangeGpuCounts :: nat
  outOfBandCount :: nat

text \<open>The parameters a provider price records about the path that made it.\<close>

datatype PriceParams =
    BookParams (bp_machines: nat) (bp_hosts: nat)
  | RateCardParams "PricingTier list"

record ProviderPriceResult =
  pp_providerId :: string
  pp_gpuId :: string
  pp_panelId :: string
  pp_price :: "number option"
  pp_executable :: bool
  pp_method :: ProviderPriceMethod
  pp_sampleSize :: nat
  pp_windowStart :: date
  pp_windowEnd :: date
  pp_computedAt :: date
  pp_methodologyVersion :: string
  pp_params :: PriceParams
  pp_exclusions :: "ExclusionReceipt list"
  pp_holdout :: "ProviderHoldout option"
  pp_flags :: AggregationFlags

record Gate =
  gate_name :: string
  passed :: bool
  gate_observed :: "number option"
  gate_threshold :: "number option"
  gate_reason :: "string option"

end
