(* ===== verification/Screen.thy ===== *)
theory Screen
  imports RobustStats MarketTypes
begin

text \<open>
  packages/pricing-engine/src/screen.ts: the cross-provider MAD screen with its
  ratio-band fallback, and the jump screen against each provider's own history.
\<close>

record ScreeningConfig =
  minProvidersForScreen :: int
  madScale :: number
  sigmaLimit :: number
  madZeroRatioBand :: number

record JumpConfig =
  maxProviderJumpPct :: number
  minCorroborators :: int
  minCorroboratorMovePct :: number

record ScreenCandidate =
  sc_providerId :: string
  sc_price :: number

record MadScreenResult =
  kept :: "ScreenCandidate list"
  ms_exclusions :: "ExclusionReceipt list"
  ms_median :: "number option"
  ms_dispersion :: number

subsection \<open>The MAD screen\<close>

definition inRatioBand :: "ScreeningConfig \<Rightarrow> number \<Rightarrow> ScreenCandidate \<Rightarrow> bool" where
  "inRatioBand cfg med c =
     (let ratio = fdiv (sc_price c) med
      in fdiv 1 (madZeroRatioBand cfg) \<le> ratio \<and> ratio \<le> madZeroRatioBand cfg)"

definition ratioBandExclusion :: "ScreeningConfig \<Rightarrow> number \<Rightarrow> ScreenCandidate \<Rightarrow> ExclusionReceipt" where
  "ratioBandExclusion cfg med c =
     \<lparr>ex_providerId = sc_providerId c, ex_reason = ''mad_zero_ratio_band'',
      ex_detail = D_mad_zero_band (sc_price c) (madZeroRatioBand cfg) med,
      ex_value = Some (sc_price c)\<rparr>"

definition withinLimit :: "number \<Rightarrow> number \<Rightarrow> ScreenCandidate \<Rightarrow> bool" where
  "withinLimit med limit c \<longleftrightarrow> \<bar>fsub (sc_price c) med\<bar> \<le> limit"

definition outlierExclusion ::
  "ScreeningConfig \<Rightarrow> number \<Rightarrow> number \<Rightarrow> ScreenCandidate \<Rightarrow> ExclusionReceipt" where
  "outlierExclusion cfg med sigma c =
     \<lparr>ex_providerId = sc_providerId c, ex_reason = ''mad_outlier'',
      ex_detail = D_mad_outlier \<bar>fsub (sc_price c) med\<bar> (sigmaLimit cfg) (madScale cfg) sigma,
      ex_value = Some (sc_price c)\<rparr>"

text \<open>The loop that pushes each candidate to \<open>kept\<close> or, with a receipt, to \<open>exclusions\<close>.\<close>

fun partitionBy ::
  "(ScreenCandidate \<Rightarrow> bool) \<Rightarrow> (ScreenCandidate \<Rightarrow> ExclusionReceipt) \<Rightarrow> ScreenCandidate list \<Rightarrow>
   ScreenCandidate list \<times> ExclusionReceipt list" where
  "partitionBy P f [] = ([], [])"
| "partitionBy P f (c # cs) =
     (let (ks, es) = partitionBy P f cs in if P c then (c # ks, es) else (ks, f c # es))"

definition madScreen :: "ScreenCandidate list \<Rightarrow> ScreeningConfig \<Rightarrow> MadScreenResult" where
  "madScreen candidates cfg =
    (if candidates = [] then
       \<lparr>kept = [], ms_exclusions = [], ms_median = None, ms_dispersion = 0\<rparr>
     else
      let prices = map sc_price candidates; med = median prices in
      case med of
        None \<Rightarrow> \<lparr>kept = candidates, ms_exclusions = [], ms_median = med, ms_dispersion = 0\<rparr>
      | Some m \<Rightarrow>
         if m \<le> 0 then
           \<lparr>kept = candidates, ms_exclusions = [], ms_median = med, ms_dispersion = 0\<rparr>
         else if int (length candidates) < minProvidersForScreen cfg then
           \<lparr>kept = candidates, ms_exclusions = [], ms_median = med,
            ms_dispersion = (case mad prices (Some med) of None \<Rightarrow> 0
                             | Some d \<Rightarrow> fdiv (fmul (madScale cfg) d) m)\<rparr>
         else
           let spread = mad prices (Some med) in
           if spread = None \<or> spread = Some 0 then
             let (ks, es) = partitionBy (inRatioBand cfg m) (ratioBandExclusion cfg m) candidates
             in \<lparr>kept = ks, ms_exclusions = es, ms_median = median (map sc_price ks),
                 ms_dispersion = 0\<rparr>
           else
             let sigma = fmul (madScale cfg) (the spread);
                 limit = fmul (sigmaLimit cfg) sigma;
                 (ks, es) = partitionBy (withinLimit m limit) (outlierExclusion cfg m sigma) candidates;
                 keptPrices = map sc_price ks;
                 keptMed = median keptPrices;
                 keptMad = mad keptPrices (Some keptMed)
             in \<lparr>kept = ks, ms_exclusions = es, ms_median = keptMed,
                 ms_dispersion =
                   (case (keptMed, keptMad) of
                      (Some km, Some kd) \<Rightarrow>
                        if km > 0 then fdiv (fmul (madScale cfg) kd) km else 0
                    | _ \<Rightarrow> 0)\<rparr>)"

lemma partitionBy_eq:
  "partitionBy P f cs = (filter P cs, map f (filter (\<lambda>c. \<not> P c) cs))"
  by (induction cs) auto

lemma partitionBy_accounting:
  "partitionBy P f cs = (ks, es) \<Longrightarrow> length ks + length es = length cs"
  by (auto simp: partitionBy_eq filter_length_split)

text \<open>Which candidates the screen keeps, as one predicate on a candidate.\<close>

definition madKeeps :: "ScreenCandidate list \<Rightarrow> ScreeningConfig \<Rightarrow> ScreenCandidate \<Rightarrow> bool" where
  "madKeeps candidates cfg c =
     (let prices = map sc_price candidates in
      case median prices of None \<Rightarrow> True
      | Some m \<Rightarrow>
         if m \<le> 0 \<or> int (length candidates) < minProvidersForScreen cfg then True
         else case mad prices (Some (Some m)) of None \<Rightarrow> inRatioBand cfg m c
           | Some d \<Rightarrow> if d = 0 then inRatioBand cfg m c
                       else withinLimit m (fmul (sigmaLimit cfg) (fmul (madScale cfg) d)) c)"

lemma madScreen_pass:
  assumes "madKeeps cs cfg = (\<lambda>_. True)"
    and "cs = [] \<or> the (median (map sc_price cs)) \<le> 0 \<or>
      int (length cs) < minProvidersForScreen cfg"
  shows "kept (madScreen cs cfg) = cs \<and> ms_exclusions (madScreen cs cfg) = []"
  using assms median_Some_ex [of "map sc_price cs"]
  by (auto simp: madScreen_def Let_def)

lemma madScreen_shape:
  "\<exists>f. kept (madScreen cs cfg) = filter (madKeeps cs cfg) cs \<and>
       ms_exclusions (madScreen cs cfg) = map f (filter (\<lambda>c. \<not> madKeeps cs cfg c) cs) \<and>
       (\<forall>c. ex_providerId (f c) = sc_providerId c \<and> ex_value (f c) = Some (sc_price c))"
proof (cases "median (map sc_price cs)")
  case None
  then show ?thesis
    by (intro exI [of _ "ratioBandExclusion cfg 0"]) (simp add: madScreen_def ratioBandExclusion_def)
next
  case m: (Some m)
  then have ne: "cs \<noteq> []" by auto
  consider (pass) "m \<le> 0 \<or> int (length cs) < minProvidersForScreen cfg"
    | (band) "\<not> (m \<le> 0 \<or> int (length cs) < minProvidersForScreen cfg)"
        "mad (map sc_price cs) (Some (Some m)) \<in> {None, Some 0}"
    | (sigma) d where "\<not> (m \<le> 0 \<or> int (length cs) < minProvidersForScreen cfg)"
        "mad (map sc_price cs) (Some (Some m)) = Some d" "d \<noteq> 0"
    by (cases "mad (map sc_price cs) (Some (Some m))") auto
  then show ?thesis
  proof cases
    case pass
    then have all: "madKeeps cs cfg = (\<lambda>_. True)" by (auto simp: madKeeps_def m)
    show ?thesis
      using madScreen_pass [OF all] pass m all
      by (intro exI [of _ "ratioBandExclusion cfg m"]) (simp add: ratioBandExclusion_def)
  next
    case band
    then have all: "madKeeps cs cfg = inRatioBand cfg m"
      by (auto simp: madKeeps_def m)
    show ?thesis
      using band ne unfolding all
      by (intro exI [of _ "ratioBandExclusion cfg m"])
        (auto simp: madScreen_def m Let_def partitionBy_eq ratioBandExclusion_def)
  next
    case sigma
    let ?s = "fmul (madScale cfg) d"
    from sigma have all: "madKeeps cs cfg = withinLimit m (fmul (sigmaLimit cfg) ?s)"
      by (auto simp: madKeeps_def m)
    show ?thesis
      using sigma ne unfolding all
      by (intro exI [of _ "outlierExclusion cfg m ?s"])
        (auto simp: madScreen_def m Let_def partitionBy_eq outlierExclusion_def)
  qed
qed

lemma madScreen_kept: "kept (madScreen cs cfg) = filter (madKeeps cs cfg) cs"
  using madScreen_shape by blast

lemma madScreen_accounting:
  "length (kept (madScreen cs cfg)) + length (ms_exclusions (madScreen cs cfg)) = length cs"
proof -
  obtain f where "kept (madScreen cs cfg) = filter (madKeeps cs cfg) cs"
      "ms_exclusions (madScreen cs cfg) = map f (filter (\<lambda>c. \<not> madKeeps cs cfg c) cs)"
    using madScreen_shape by blast
  then show ?thesis by (simp add: filter_length_split)
qed

lemma madScreen_exclusions_of:
  assumes "e \<in> set (ms_exclusions (madScreen cs cfg))"
  shows "\<exists>c \<in> set cs. \<not> madKeeps cs cfg c \<and> ex_providerId e = sc_providerId c \<and>
     ex_value e = Some (sc_price c)"
proof -
  obtain f where "ms_exclusions (madScreen cs cfg) = map f (filter (\<lambda>c. \<not> madKeeps cs cfg c) cs)"
      "\<forall>c. ex_providerId (f c) = sc_providerId c \<and> ex_value (f c) = Some (sc_price c)"
    using madScreen_shape by blast
  with assms show ?thesis by auto
qed

lemma madScreen_reason:
  assumes "e \<in> set (ms_exclusions (madScreen cs cfg))"
  shows "ex_reason e =
    (case mad (map sc_price cs) (Some (median (map sc_price cs))) of
       None \<Rightarrow> ''mad_zero_ratio_band''
     | Some d \<Rightarrow> if d = 0 then ''mad_zero_ratio_band'' else ''mad_outlier'')"
proof (cases "median (map sc_price cs)")
  case None
  then show ?thesis using assms by (simp add: madScreen_def)
next
  case m: (Some m)
  have ne: "cs \<noteq> []" using m by auto
  have armed: "\<not> (m \<le> 0 \<or> int (length cs) < minProvidersForScreen cfg)"
  proof
    assume "m \<le> 0 \<or> int (length cs) < minProvidersForScreen cfg"
    then have "ms_exclusions (madScreen cs cfg) = []" by (auto simp: madScreen_def m Let_def)
    with assms show False by simp
  qed
  show ?thesis
  proof (cases "mad (map sc_price cs) (Some (Some m)) \<in> {None, Some 0}")
    case True
    then have "ms_exclusions (madScreen cs cfg) =
        map (ratioBandExclusion cfg m) (filter (\<lambda>c. \<not> inRatioBand cfg m c) cs)"
      using ne armed by (auto simp: madScreen_def m Let_def partitionBy_eq)
    with assms True show ?thesis by (auto simp: m ratioBandExclusion_def)
  next
    case False
    then obtain d where d: "mad (map sc_price cs) (Some (Some m)) = Some d" "d \<noteq> 0" by auto
    then have "ms_exclusions (madScreen cs cfg) = map (outlierExclusion cfg m (fmul (madScale cfg) d))
        (filter (\<lambda>c. \<not> withinLimit m (fmul (sigmaLimit cfg) (fmul (madScale cfg) d)) c) cs)"
      using ne armed by (auto simp: madScreen_def m Let_def partitionBy_eq)
    with assms d show ?thesis by (auto simp: m outlierExclusion_def)
  qed
qed

lemma withinLimit_of_mad:
  assumes "\<bar>fsub v m\<bar> \<le> d" "0 \<le> d" "1 \<le> madScale cfg" "1 \<le> sigmaLimit cfg" "fl d = d"
  shows "\<bar>fsub v m\<bar> \<le> fmul (sigmaLimit cfg) (fmul (madScale cfg) d)"
proof -
  have "1 * d \<le> madScale cfg * d"
    using assms by (intro mult_right_mono) auto
  then have d1: "d \<le> fmul (madScale cfg) d"
    using assms by (auto simp: fmul_def intro: binary64.rnd_ge)
  have "1 * fmul (madScale cfg) d \<le> sigmaLimit cfg * fmul (madScale cfg) d"
    using assms d1 by (intro mult_right_mono) auto
  then have "d \<le> sigmaLimit cfg * fmul (madScale cfg) d" using d1 by simp
  then have "d \<le> fmul (sigmaLimit cfg) (fmul (madScale cfg) d)"
    using assms by (auto simp: fmul_def intro: binary64.rnd_ge)
  then show ?thesis using assms(1) by simp
qed

lemma inRatioBand_at_median:
  assumes "sc_price c = m" "0 < m" "1 \<le> madZeroRatioBand cfg"
  shows "inRatioBand cfg m c"
proof -
  have "fdiv (sc_price c) m = 1" using assms by (simp add: fdiv_def binary64.rnd_1)
  moreover have "fdiv 1 (madZeroRatioBand cfg) \<le> 1"
    using assms by (auto simp: fdiv_def binary64.rnd_1 intro!: binary64.rnd_le)
  ultimately show ?thesis using assms by (simp add: inRatioBand_def)
qed

lemma fsub_eq_0: "fl x = x \<Longrightarrow> fl y = y \<Longrightarrow> \<bar>fsub x y\<bar> \<le> 0 \<Longrightarrow> x = y"
  using fl_diff_eq_0 by (auto simp: fsub_def)

lemma madScreen_keeps_half:
  assumes dbl: "\<And>c. c \<in> set cs \<Longrightarrow> fl (sc_price c) = sc_price c"
    and cfg: "1 \<le> madScale cfg" "1 \<le> sigmaLimit cfg" "1 \<le> madZeroRatioBand cfg"
  shows "length cs \<le> 2 * length (kept (madScreen cs cfg))"
proof (cases "median (map sc_price cs)")
  case None
  then have "kept (madScreen cs cfg) = cs" by (simp add: madScreen_kept madKeeps_def)
  then show ?thesis by simp
next
  case m: (Some m)
  show ?thesis
  proof (cases "m \<le> 0 \<or> int (length cs) < minProvidersForScreen cfg")
    case True
    then have "kept (madScreen cs cfg) = cs"
      by (auto simp: madScreen_kept madKeeps_def m)
    then show ?thesis by simp
  next
    case armed: False
    have ne: "cs \<noteq> []" using m by auto
    have md: "fl m = m" using median_is_double [OF m] dbl by auto
    obtain d where d: "mad (map sc_price cs) (Some (Some m)) = Some d"
      using ne median_Some_ex [of "map (\<lambda>v. \<bar>fsub v m\<bar>) (map sc_price cs)"]
      by (auto simp: mad_Some_iff)
    have "median (map (\<lambda>v. \<bar>fsub v m\<bar>) (map sc_price cs)) = Some d"
      using d ne by (simp add: mad_Some_iff)
    then have dd: "fl d = d"
      by (rule median_is_double) (auto simp: abs_fsub_double)
    note d0 = mad_nonneg [OF d]
    have "length cs \<le> 2 * length (filter (\<lambda>c. \<bar>fsub (sc_price c) m\<bar> \<le> d) cs)"
      using mad_covers_half [OF d] by (simp add: length_filter_map comp_def)
    also have "length (filter (\<lambda>c. \<bar>fsub (sc_price c) m\<bar> \<le> d) cs)
        \<le> length (filter (madKeeps cs cfg) cs)"
    proof (rule length_filter_mono)
      fix c assume c: "c \<in> set cs" and le: "\<bar>fsub (sc_price c) m\<bar> \<le> d"
      show "madKeeps cs cfg c"
      proof (cases "d = 0")
        case True
        then have "sc_price c = m" using fsub_eq_0 [OF dbl [OF c] md] le by simp
        then show ?thesis
          using inRatioBand_at_median [of c m cfg] armed cfg True
          by (simp add: madKeeps_def m d Let_def)
      next
        case False
        then show ?thesis
          using withinLimit_of_mad [OF le d0 cfg(1,2) dd] armed
          by (simp add: madKeeps_def m d Let_def withinLimit_def)
      qed
    qed
    finally show ?thesis by (simp add: madScreen_kept)
  qed
qed

lemma madScreen_dispersion_nonneg: "0 \<le> madScale cfg \<Longrightarrow> 0 \<le> ms_dispersion (madScreen cs cfg)"
  by (auto simp: madScreen_def Let_def partitionBy_eq split: option.splits
      intro!: fdiv_nonneg fmul_nonneg dest: mad_nonneg)

subsection \<open>The jump screen\<close>

record JumpCandidate = ScreenCandidate +
  trailingMedian :: "number option"

definition comparable :: "JumpCandidate \<Rightarrow> bool" where
  "comparable c \<longleftrightarrow> (case trailingMedian c of None \<Rightarrow> False | Some t \<Rightarrow> t > 0) \<and> sc_price c > 0"

definition move :: "JumpCandidate \<Rightarrow> number" where
  "move c = \<bar>fsub (fdiv (sc_price c) (the (trailingMedian c))) 1\<bar>"

definition corroboratorsOf :: "JumpConfig \<Rightarrow> JumpCandidate list \<Rightarrow> JumpCandidate \<Rightarrow> JumpCandidate list" where
  "corroboratorsOf cfg cs c =
     filter (\<lambda>q. sc_providerId q \<noteq> sc_providerId c \<and> minCorroboratorMovePct cfg \<le> move q) cs"

definition jumpExclusion :: "JumpConfig \<Rightarrow> JumpCandidate list \<Rightarrow> JumpCandidate \<Rightarrow> ExclusionReceipt" where
  "jumpExclusion cfg cs c =
     \<lparr>ex_providerId = sc_providerId c, ex_reason = ''jump_screen'',
      ex_detail = D_jump (fmul (move c) 100) (the (trailingMedian c))
                    (length (corroboratorsOf cfg cs c)) (fmul (minCorroboratorMovePct cfg) 100),
      ex_value = Some (sc_price c)\<rparr>"

definition jumps :: "JumpConfig \<Rightarrow> JumpCandidate list \<Rightarrow> JumpCandidate \<Rightarrow> bool" where
  "jumps cfg cs c \<longleftrightarrow> \<not> move c < maxProviderJumpPct cfg \<and>
     int (length (corroboratorsOf cfg cs c)) < minCorroborators cfg"

definition jumpScreen :: "JumpCandidate list \<Rightarrow> JumpConfig \<Rightarrow> ExclusionReceipt list" where
  "jumpScreen candidates cfg =
     (let cs = filter comparable candidates
      in if int (length cs) < minCorroborators cfg + 1 then []
         else map (jumpExclusion cfg cs) (filter (jumps cfg cs) cs))"

lemma jumpScreen_reason: "e \<in> set (jumpScreen cs cfg) \<Longrightarrow> ex_reason e = ''jump_screen''"
  by (auto simp: jumpScreen_def Let_def jumpExclusion_def split: if_splits)

lemma jumpScreen_sound:
  assumes "e \<in> set (jumpScreen cs cfg)"
  shows "\<exists>c \<in> set cs. comparable c \<and> ex_providerId e = sc_providerId c \<and>
           maxProviderJumpPct cfg \<le> move c \<and> ex_value e = Some (sc_price c)"
  using assms
  by (auto simp: jumpScreen_def Let_def jumps_def jumpExclusion_def not_less split: if_splits)

text \<open>
  A move of the whole market is never screened: when more than \<open>minCorroborators\<close>
  providers moved past the corroboration threshold, nobody is excluded.
\<close>

lemma filter_other_length:
  assumes "distinct (map f xs)"
  shows "length (filter P xs) \<le> length (filter (\<lambda>y. f y \<noteq> f x \<and> P y) xs) + 1"
  using assms
proof (induction xs)
  case Nil
  then show ?case by simp
next
  case (Cons a xs)
  show ?case
  proof (cases "f a = f x")
    case True
    then have "f y \<noteq> f x" if "y \<in> set xs" for y
      using Cons.prems that by (metis distinct.simps(2) image_eqI list.map(2) list.set_map)
    then have "filter (\<lambda>y. f y \<noteq> f x \<and> P y) xs = filter P xs"
      by (intro filter_cong) auto
    with True show ?thesis by simp
  next
    case False
    with Cons show ?thesis by auto
  qed
qed

lemma jumpScreen_market_move:
  assumes "distinct (map sc_providerId cs)"
    and "minCorroborators cfg <
      int (length (filter (\<lambda>c. comparable c \<and> minCorroboratorMovePct cfg \<le> move c) cs))"
  shows "jumpScreen cs cfg = []"
proof -
  let ?cs = "filter comparable cs"
  have dist: "distinct (map sc_providerId ?cs)"
    using assms(1) by (simp add: distinct_map inj_on_def)
  let ?P = "\<lambda>c. minCorroboratorMovePct cfg \<le> move c"
  have many: "minCorroborators cfg < int (length (filter ?P ?cs))"
    using assms(2) by (simp add: conj_commute)
  have "\<not> jumps cfg ?cs c" for c
  proof -
    have "length (filter ?P ?cs) \<le> length (corroboratorsOf cfg ?cs c) + 1"
      unfolding corroboratorsOf_def by (rule filter_other_length [OF dist])
    with many show ?thesis by (simp add: jumps_def)
  qed
  then show ?thesis by (simp add: jumpScreen_def Let_def)
qed

end
