(* ===== verification/Catalog.thy ===== *)
theory Catalog
  imports MarketTypes
begin

text \<open>
  packages/gpu-catalog/src/catalog.ts: the GPU catalogue and the settlement panels.
  The order of \<open>CATALOG\<close> is the only tie-break of the label matcher.
\<close>

datatype GpuId =
    H100_SXM_80GB
  | H100_PCIE_80GB
  | H100_NVL_94GB
  | H200_141GB
  | H200_NVL_141GB
  | H20_96GB
  | B200_192GB
  | B300_288GB
  | GB200_192GB
  | GB300_288GB
  | GH200_96GB
  | A100_SXM_80GB
  | A100_PCIE_80GB
  | L40S_48GB
  | L40_48GB
  | A40_48GB
  | L4_24GB
  | A10_24GB
  | A10G_24GB
  | RTX_4090_24GB
  | RTX_5090_32GB
  | RTX_PRO_6000_96GB
  | RTX_6000_ADA_48GB
  | RTX_A6000_48GB
  | V100_16GB
  | MI300X_192GB
  | MI325X_256GB

datatype GpuVendor = nvidia | amd

datatype FormFactor = SXM | PCIE | NVL | OAM | CARD

record GpuSku =
  sku_id :: GpuId
  sku_label :: string
  vendor :: GpuVendor
  vramGb :: nat
  formFactor :: "FormFactor option"
  plausibleBand :: "number \<times> number"
  patterns :: "string list"

text \<open>The text of an id, as the templates of the source interpolate it.\<close>

fun gpuIdText :: "GpuId \<Rightarrow> string" where
  "gpuIdText H100_SXM_80GB = ''H100_SXM_80GB''"
| "gpuIdText H100_PCIE_80GB = ''H100_PCIE_80GB''"
| "gpuIdText H100_NVL_94GB = ''H100_NVL_94GB''"
| "gpuIdText H200_141GB = ''H200_141GB''"
| "gpuIdText H200_NVL_141GB = ''H200_NVL_141GB''"
| "gpuIdText H20_96GB = ''H20_96GB''"
| "gpuIdText B200_192GB = ''B200_192GB''"
| "gpuIdText B300_288GB = ''B300_288GB''"
| "gpuIdText GB200_192GB = ''GB200_192GB''"
| "gpuIdText GB300_288GB = ''GB300_288GB''"
| "gpuIdText GH200_96GB = ''GH200_96GB''"
| "gpuIdText A100_SXM_80GB = ''A100_SXM_80GB''"
| "gpuIdText A100_PCIE_80GB = ''A100_PCIE_80GB''"
| "gpuIdText L40S_48GB = ''L40S_48GB''"
| "gpuIdText L40_48GB = ''L40_48GB''"
| "gpuIdText A40_48GB = ''A40_48GB''"
| "gpuIdText L4_24GB = ''L4_24GB''"
| "gpuIdText A10_24GB = ''A10_24GB''"
| "gpuIdText A10G_24GB = ''A10G_24GB''"
| "gpuIdText RTX_4090_24GB = ''RTX_4090_24GB''"
| "gpuIdText RTX_5090_32GB = ''RTX_5090_32GB''"
| "gpuIdText RTX_PRO_6000_96GB = ''RTX_PRO_6000_96GB''"
| "gpuIdText RTX_6000_ADA_48GB = ''RTX_6000_ADA_48GB''"
| "gpuIdText RTX_A6000_48GB = ''RTX_A6000_48GB''"
| "gpuIdText V100_16GB = ''V100_16GB''"
| "gpuIdText MI300X_192GB = ''MI300X_192GB''"
| "gpuIdText MI325X_256GB = ''MI325X_256GB''"

definition CATALOG :: "GpuSku list" where
  "CATALOG = [
    \<lparr>sku_id = H100_NVL_94GB, sku_label = ''H100 NVL'', vendor = nvidia, vramGb = 94, formFactor = Some NVL,
     plausibleBand = ((fl (3 / 10)), 30), patterns = [''H100 NVL'', ''H100 NVL 94GB'']\<rparr>,
    \<lparr>sku_id = H100_PCIE_80GB, sku_label = ''H100 PCIe'', vendor = nvidia, vramGb = 80, formFactor = Some PCIE,
     plausibleBand = ((fl (2 / 10)), 25), patterns = [''H100 PCIE'', ''H100 PCI E'', ''H100 PCI'']\<rparr>,
    \<lparr>sku_id = H100_SXM_80GB, sku_label = ''H100 SXM'', vendor = nvidia, vramGb = 80, formFactor = Some SXM,
     plausibleBand = ((fl (2 / 10)), 25), patterns = [''H100 SXM'', ''H100 SXM 5'', ''H100 SXM 4'', ''HGX H100'', ''H100'']\<rparr>,
    \<lparr>sku_id = H200_NVL_141GB, sku_label = ''H200 NVL'', vendor = nvidia, vramGb = 141, formFactor = Some NVL,
     plausibleBand = ((fl (3 / 10)), 30), patterns = [''H200 NVL'']\<rparr>,
    \<lparr>sku_id = H200_141GB, sku_label = ''H200'', vendor = nvidia, vramGb = 141, formFactor = Some SXM,
     plausibleBand = ((fl (3 / 10)), 30), patterns = [''H200'', ''HGX H200'']\<rparr>,
    \<lparr>sku_id = H20_96GB, sku_label = ''H20'', vendor = nvidia, vramGb = 96, formFactor = None,
     plausibleBand = ((fl (1 / 10)), 10), patterns = [''H20'']\<rparr>,
    \<lparr>sku_id = GB300_288GB, sku_label = ''GB300'', vendor = nvidia, vramGb = 288, formFactor = None,
     plausibleBand = (1, 60), patterns = [''GB300'']\<rparr>,
    \<lparr>sku_id = GB200_192GB, sku_label = ''GB200'', vendor = nvidia, vramGb = 192, formFactor = None,
     plausibleBand = (1, 60), patterns = [''GB200'', ''GRACE BLACKWELL'']\<rparr>,
    \<lparr>sku_id = B300_288GB, sku_label = ''B300'', vendor = nvidia, vramGb = 288, formFactor = Some SXM,
     plausibleBand = (1, 60), patterns = [''B300'', ''HGX B300'']\<rparr>,
    \<lparr>sku_id = B200_192GB, sku_label = ''B200'', vendor = nvidia, vramGb = 192, formFactor = Some SXM,
     plausibleBand = ((fl (5 / 10)), 40), patterns = [''B200'', ''HGX B200'']\<rparr>,
    \<lparr>sku_id = GH200_96GB, sku_label = ''GH200'', vendor = nvidia, vramGb = 96, formFactor = None,
     plausibleBand = ((fl (2 / 10)), 15), patterns = [''GH200'', ''GRACE HOPPER'']\<rparr>,
    \<lparr>sku_id = MI325X_256GB, sku_label = ''MI325X'', vendor = amd, vramGb = 256, formFactor = Some OAM,
     plausibleBand = ((fl (3 / 10)), 20), patterns = [''MI 325 X'']\<rparr>,
    \<lparr>sku_id = MI300X_192GB, sku_label = ''MI300X'', vendor = amd, vramGb = 192, formFactor = Some OAM,
     plausibleBand = ((fl (2 / 10)), 15), patterns = [''MI 300 X'']\<rparr>,
    \<lparr>sku_id = A100_PCIE_80GB, sku_label = ''A100 PCIe'', vendor = nvidia, vramGb = 80, formFactor = Some PCIE,
     plausibleBand = ((fl (1 / 10)), 15), patterns = [''A100 PCIE'', ''A100 PCI E'']\<rparr>,
    \<lparr>sku_id = A100_SXM_80GB, sku_label = ''A100 SXM'', vendor = nvidia, vramGb = 80, formFactor = Some SXM,
     plausibleBand = ((fl (1 / 10)), 15), patterns = [''A100 SXM'', ''A100 SXM 4'', ''A100'']\<rparr>,
    \<lparr>sku_id = L40S_48GB, sku_label = ''L40S'', vendor = nvidia, vramGb = 48, formFactor = Some CARD,
     plausibleBand = ((fl (5 / 100)), 8), patterns = [''L40S'']\<rparr>,
    \<lparr>sku_id = L40_48GB, sku_label = ''L40'', vendor = nvidia, vramGb = 48, formFactor = Some CARD,
     plausibleBand = ((fl (5 / 100)), 8), patterns = [''L40'']\<rparr>,
    \<lparr>sku_id = A40_48GB, sku_label = ''A40'', vendor = nvidia, vramGb = 48, formFactor = Some CARD,
     plausibleBand = ((fl (3 / 100)), 4), patterns = [''A40'']\<rparr>,
    \<lparr>sku_id = L4_24GB, sku_label = ''L4'', vendor = nvidia, vramGb = 24, formFactor = Some CARD,
     plausibleBand = ((fl (2 / 100)), 2), patterns = [''L4'']\<rparr>,
    \<lparr>sku_id = A10G_24GB, sku_label = ''A10G'', vendor = nvidia, vramGb = 24, formFactor = Some CARD,
     plausibleBand = ((fl (3 / 100)), 3), patterns = [''A10G'']\<rparr>,
    \<lparr>sku_id = A10_24GB, sku_label = ''A10'', vendor = nvidia, vramGb = 24, formFactor = Some CARD,
     plausibleBand = ((fl (3 / 100)), 3), patterns = [''A10'']\<rparr>,
    \<lparr>sku_id = RTX_5090_32GB, sku_label = ''RTX 5090'', vendor = nvidia, vramGb = 32, formFactor = Some CARD,
     plausibleBand = ((fl (1 / 10)), 8), patterns = [''RTX 5090'', ''GEFORCE RTX 5090'', ''5090'']\<rparr>,
    \<lparr>sku_id = RTX_4090_24GB, sku_label = ''RTX 4090'', vendor = nvidia, vramGb = 24, formFactor = Some CARD,
     plausibleBand = ((fl (5 / 100)), 5), patterns = [''RTX 4090 D'', ''RTX 4090'', ''GEFORCE RTX 4090'', ''GEFORCE 4090'', ''4090'']\<rparr>,
    \<lparr>sku_id = RTX_6000_ADA_48GB, sku_label = ''RTX 6000 Ada'', vendor = nvidia, vramGb = 48, formFactor = Some CARD,
     plausibleBand = ((fl (1 / 10)), 6), patterns = [''RTX 6000 ADA'', ''6000 ADA'']\<rparr>,
    \<lparr>sku_id = RTX_PRO_6000_96GB, sku_label = ''RTX PRO 6000'', vendor = nvidia, vramGb = 96, formFactor = Some CARD,
     plausibleBand = ((fl (1 / 10)), 10), patterns = [''RTX PRO 6000'', ''RTXPRO 6000'', ''PRO 6000 BLACKWELL'', ''PRO 6000'']\<rparr>,
    \<lparr>sku_id = RTX_A6000_48GB, sku_label = ''RTX A6000'', vendor = nvidia, vramGb = 48, formFactor = Some CARD,
     plausibleBand = ((fl (5 / 100)), 4), patterns = [''RTX A6000'', ''A6000'', ''RTX 6000'']\<rparr>,
    \<lparr>sku_id = V100_16GB, sku_label = ''V100'', vendor = nvidia, vramGb = 16, formFactor = None,
     plausibleBand = ((fl (2 / 100)), 3), patterns = [''V100'']\<rparr>]"

datatype catalog_error = UnknownGpuId GpuId

definition getGpu :: "GpuId \<Rightarrow> catalog_error + GpuSku" where
  "getGpu i = (case find (\<lambda>s. sku_id s = i) CATALOG of
                 None \<Rightarrow> Inl (UnknownGpuId i) | Some s \<Rightarrow> Inr s)"

definition plausibleBandFor :: "GpuId \<Rightarrow> (number \<times> number) option" where
  "plausibleBandFor i = map_option plausibleBand (find (\<lambda>s. sku_id s = i) CATALOG)"

record SettlementPanel =
  panel_id :: string
  panel_gpuId :: GpuId

definition SETTLEMENT_PANELS :: "SettlementPanel list" where
  "SETTLEMENT_PANELS =
     [\<lparr>panel_id = ''H100_PANEL_V1'', panel_gpuId = H100_SXM_80GB\<rparr>,
      \<lparr>panel_id = ''H200_PANEL_V1'', panel_gpuId = H200_141GB\<rparr>,
      \<lparr>panel_id = ''L40S_PANEL_V1'', panel_gpuId = L40S_48GB\<rparr>,
      \<lparr>panel_id = ''RTX_4090_PANEL_V1'', panel_gpuId = RTX_4090_24GB\<rparr>]"

lemma CATALOG_ids: "distinct (map sku_id CATALOG)"
  by (simp add: CATALOG_def)

lemma CATALOG_total: "\<exists>s \<in> set CATALOG. sku_id s = i"
proof -
  have "map sku_id CATALOG =
     [H100_NVL_94GB, H100_PCIE_80GB, H100_SXM_80GB, H200_NVL_141GB, H200_141GB,
      H20_96GB, GB300_288GB, GB200_192GB, B300_288GB, B200_192GB, GH200_96GB,
      MI325X_256GB, MI300X_192GB, A100_PCIE_80GB, A100_SXM_80GB, L40S_48GB, L40_48GB,
      A40_48GB, L4_24GB, A10G_24GB, A10_24GB, RTX_5090_32GB, RTX_4090_24GB,
      RTX_6000_ADA_48GB, RTX_PRO_6000_96GB, RTX_A6000_48GB, V100_16GB]"
    by (simp add: CATALOG_def)
  then have "i \<in> set (map sku_id CATALOG)"
    by (simp only: list.set insert_iff) (cases i; simp only: simp_thms)
  then show ?thesis by auto
qed

lemma getGpu_total: "\<exists>s. getGpu i = Inr s \<and> sku_id s = i \<and> s \<in> set CATALOG"
proof -
  obtain s where s: "find (\<lambda>s. sku_id s = i) CATALOG = Some s"
    using CATALOG_total [of i] by (fastforce simp: find_None_iff2 [symmetric] not_None_eq [symmetric] find_None_iff)
  then have "sku_id s = i \<and> s \<in> set CATALOG"
    by (auto simp: find_Some_iff)
  with s show ?thesis by (simp add: getGpu_def)
qed

lemma CATALOG_bands:
  "s \<in> set CATALOG \<Longrightarrow> 0 \<le> fst (plausibleBand s) \<and>
     fl (fst (plausibleBand s)) = fst (plausibleBand s) \<and>
     fl (snd (plausibleBand s)) = snd (plausibleBand s)"
  by (auto simp: CATALOG_def fl_idem fl_numeral binary64.rnd_nonneg binary64.rnd_1)

end
