(* ===== verification/JsMap.thy ===== *)
theory JsMap
  imports Prelude "HOL-Library.AList"
begin

text \<open>
  JavaScript's \<open>Map\<close>: an association list in insertion order. \<open>set\<close> on a key
  already there replaces the value where it stands, a new key goes to the end,
  \<open>delete\<close> drops the entry, and iteration runs in insertion order.

  Its contract is the locale \<open>keyed_store\<close>: what a lookup returns after each
  operation and the invariant that every operation keeps. The stores of the
  components (the dedup book, the keeper's three caches, the indexer's entity
  tables) use nothing else.
\<close>

type_synonym ('k, 'v) js_map = "('k \<times> 'v) list"

definition js_empty :: "('k, 'v) js_map" where
  "js_empty = []"

definition js_get :: "('k, 'v) js_map \<Rightarrow> 'k \<Rightarrow> 'v option" where
  "js_get m k = map_of m k"

definition js_has :: "('k, 'v) js_map \<Rightarrow> 'k \<Rightarrow> bool" where
  "js_has m k = (js_get m k \<noteq> None)"

definition js_set :: "'k \<Rightarrow> 'v \<Rightarrow> ('k, 'v) js_map \<Rightarrow> ('k, 'v) js_map" where
  "js_set k v m = AList.update k v m"

definition js_delete :: "'k \<Rightarrow> ('k, 'v) js_map \<Rightarrow> ('k, 'v) js_map" where
  "js_delete k m = AList.delete k m"

definition js_values :: "('k, 'v) js_map \<Rightarrow> 'v list" where
  "js_values m = map snd m"

definition js_ok :: "('k, 'v) js_map \<Rightarrow> bool" where
  "js_ok m \<longleftrightarrow> distinct (map fst m)"

locale keyed_store =
  fixes empty :: "'s"
    and get :: "'s \<Rightarrow> 'k \<Rightarrow> 'v option"
    and put :: "'k \<Rightarrow> 'v \<Rightarrow> 's \<Rightarrow> 's"
    and del :: "'k \<Rightarrow> 's \<Rightarrow> 's"
    and entries :: "'s \<Rightarrow> 'v list"
    and ok :: "'s \<Rightarrow> bool"
  assumes get_empty: "get empty k = None"
    and get_put: "get (put k v s) k' = (if k' = k then Some v else get s k')"
    and get_del: "ok s \<Longrightarrow> get (del k s) k' = (if k' = k then None else get s k')"
    and ok_empty: "ok empty"
    and ok_put: "ok s \<Longrightarrow> ok (put k v s)"
    and ok_del: "ok s \<Longrightarrow> ok (del k s)"
    and entries_get: "ok s \<Longrightarrow> v \<in> set (entries s) \<longleftrightarrow> (\<exists>k. get s k = Some v)"
begin

definition put_all :: "('a \<Rightarrow> 'k) \<Rightarrow> ('a \<Rightarrow> 'v) \<Rightarrow> 'a list \<Rightarrow> 's \<Rightarrow> 's" where
  "put_all key val rows s = fold (\<lambda>r. put (key r) (val r)) rows s"

lemma ok_put_all: "ok s \<Longrightarrow> ok (put_all key val rows s)"
  unfolding put_all_def by (induction rows arbitrary: s) (auto intro: ok_put)

lemma get_put_all_other:
  "k \<notin> key ` set rows \<Longrightarrow> get (put_all key val rows s) k = get s k"
  unfolding put_all_def by (induction rows arbitrary: s) (auto simp: get_put)

lemma get_put_all:
  "get (put_all key val rows s) k =
     (case find (\<lambda>r. key r = k) (rev rows) of None \<Rightarrow> get s k | Some r \<Rightarrow> Some (val r))"
proof (induction rows arbitrary: s rule: rev_induct)
  case Nil
  then show ?case by (simp add: put_all_def)
next
  case (snoc r rows)
  then show ?case by (simp add: put_all_def get_put)
qed

lemma get_put_same: "get (put k v s) k = Some v"
  by (simp add: get_put)

lemma get_put_other: "k' \<noteq> k \<Longrightarrow> get (put k v s) k' = get s k'"
  by (simp add: get_put)

lemma entries_put:
  assumes "ok s" "w \<in> set (entries (put k v s))"
  shows "w = v \<or> w \<in> set (entries s)"
proof -
  obtain k' where "get (put k v s) k' = Some w"
    using assms entries_get [OF ok_put [OF assms(1)]] by blast
  then show ?thesis
    using entries_get [OF assms(1)] by (auto simp: get_put split: if_splits)
qed

lemma entries_del:
  assumes "ok s" "w \<in> set (entries (del k s))"
  shows "w \<in> set (entries s)"
proof -
  obtain k' where "get (del k s) k' = Some w"
    using assms entries_get [OF ok_del [OF assms(1)]] by blast
  then show ?thesis
    using entries_get [OF assms(1)] by (auto simp: get_del [OF assms(1)] split: if_splits)
qed

end

lemma js_get_empty: "js_get js_empty k = None"
  by (simp add: js_get_def js_empty_def)

lemma js_get_set: "js_get (js_set k v m) k' = (if k' = k then Some v else js_get m k')"
  by (simp add: js_get_def js_set_def update_conv)

lemma js_get_delete: "js_get (js_delete k m) k' = (if k' = k then None else js_get m k')"
  by (simp add: js_get_def js_delete_def delete_conv)

lemma js_ok_empty: "js_ok js_empty"
  by (simp add: js_ok_def js_empty_def)

lemma js_ok_set: "js_ok m \<Longrightarrow> js_ok (js_set k v m)"
  by (simp add: js_ok_def js_set_def distinct_update)

lemma js_ok_delete: "js_ok m \<Longrightarrow> js_ok (js_delete k m)"
  by (simp add: js_ok_def js_delete_def distinct_delete)

lemma js_values_get:
  assumes "js_ok m"
  shows "v \<in> set (js_values m) \<longleftrightarrow> (\<exists>k. js_get m k = Some v)"
proof -
  have "v \<in> set (js_values m) \<longleftrightarrow> (\<exists>k. (k, v) \<in> set m)"
    by (force simp: js_values_def)
  then show ?thesis
    using assms by (simp add: js_ok_def js_get_def map_of_eq_Some_iff)
qed

interpretation js: keyed_store js_empty js_get js_set js_delete js_values js_ok
  by unfold_locales
    (simp_all add: js_get_empty js_get_set js_get_delete js_ok_empty js_ok_set js_ok_delete
      js_values_get)

lemmas js_get_simps [simp] = js_get_empty js_get_set js_get_delete

lemma js_size_set: "length (js_set k v m) = length m + (if js_has m k then 0 else 1)"
  unfolding js_set_def js_has_def js_get_def
  by (induction m) auto

subsection \<open>Stores whose entries carry their own key\<close>

text \<open>
  An index: each entry is stored under the key computed from it, and satisfies a
  predicate. What a client does with puts, deletions and bulk fills keeps this.
\<close>

locale self_keyed = keyed_store empty get put del entries ok
  for empty :: "'s" and get :: "'s \<Rightarrow> 'k \<Rightarrow> 'v option" and put :: "'k \<Rightarrow> 'v \<Rightarrow> 's \<Rightarrow> 's"
    and del :: "'k \<Rightarrow> 's \<Rightarrow> 's" and entries :: "'s \<Rightarrow> 'v list" and ok :: "'s \<Rightarrow> bool" +
  fixes key :: "'v \<Rightarrow> 'k" and valid :: "'v \<Rightarrow> bool" and indexed :: "'s \<Rightarrow> bool"
  assumes indexed_iff: "indexed s \<longleftrightarrow> ok s \<and> (\<forall>k v. get s k = Some v \<longrightarrow> key v = k \<and> valid v)"
begin

lemma indexed_empty: "indexed empty"
  by (simp add: indexed_iff ok_empty get_empty)

lemma indexed_put: "indexed s \<Longrightarrow> key v = k \<Longrightarrow> valid v \<Longrightarrow> indexed (put k v s)"
  by (auto simp: indexed_iff ok_put get_put)

lemma indexed_del: "indexed s \<Longrightarrow> indexed (del k s)"
  by (auto simp: indexed_iff ok_del get_del)

lemma indexed_put_all:
  assumes "indexed s" "\<And>v. v \<in> set vs \<Longrightarrow> valid v"
  shows "indexed (fold (\<lambda>v. put (key v) v) vs s)"
  using assms by (induction vs arbitrary: s) (auto intro: indexed_put)

lemma entries_valid: "indexed s \<Longrightarrow> v \<in> set (entries s) \<Longrightarrow> valid v \<and> get s (key v) = Some v"
  using entries_get by (auto simp: indexed_iff)

text \<open>With distinct keys a bulk fill stores exactly the values it is given.\<close>

lemma get_filled:
  assumes "distinct (map key vs)" "v \<in> set vs"
  shows "get (fold (\<lambda>v. put (key v) v) vs s) (key v) = Some v"
  using assms
proof (induction vs arbitrary: s rule: rev_induct)
  case (snoc w ws)
  show ?case
  proof (cases "v = w")
    case True
    then show ?thesis by (simp add: get_put)
  next
    case False
    then have v: "v \<in> set ws" using snoc.prems by simp
    moreover have "key w \<notin> key ` set ws" using snoc.prems by simp
    ultimately have "key v \<noteq> key w" by (metis imageI)
    with v show ?thesis using snoc by (simp add: get_put)
  qed
qed simp

lemma get_filled_mem:
  "get (fold (\<lambda>v. put (key v) v) vs empty) k = Some v \<Longrightarrow> v \<in> set vs"
  by (induction vs rule: rev_induct) (auto simp: get_empty get_put split: if_splits)

end

end
