(* ===== verification/JsText.thy ===== *)
theory JsText
  imports JsNumber
begin

text \<open>
  The text of numbers: decimal digits of an integer, and \<open>Number::toString\<close> for the
  template literals that feed a hash. A string is a list of characters of one byte:
  every text the source hashes or uses as a key here is ASCII.
\<close>

function nat_text :: "int \<Rightarrow> string" where
  "nat_text n = (if n < 10 then [char_of (48 + n)]
                 else nat_text (n div 10) @ [char_of (48 + n mod 10)])"
  by pat_completeness auto
termination
  by (relation "measure nat") auto

declare nat_text.simps [simp del]

definition int_text :: "int \<Rightarrow> string" where
  "int_text i = (if i < 0 then CHR ''-'' # nat_text (- i) else nat_text i)"

definition is_digit :: "char \<Rightarrow> bool" where
  "is_digit c \<longleftrightarrow> 48 \<le> (of_char c :: int) \<and> (of_char c :: int) \<le> 57"

definition digit_value :: "char \<Rightarrow> int" where
  "digit_value c = of_char c - 48"

fun digits_value :: "int \<Rightarrow> string \<Rightarrow> int" where
  "digits_value acc [] = acc"
| "digits_value acc (c # cs) = digits_value (10 * acc + digit_value c) cs"

lemma digits_value_append: "digits_value a (xs @ ys) = digits_value (digits_value a xs) ys"
  by (induction xs arbitrary: a) auto

lemma digit_value_char: "0 \<le> d \<Longrightarrow> d < 10 \<Longrightarrow> digit_value (char_of (48 + d)) = d"
  by (simp add: digit_value_def)

lemma is_digit_char: "0 \<le> d \<Longrightarrow> d < 10 \<Longrightarrow> is_digit (char_of (48 + d :: int))"
  by (simp add: is_digit_def)

lemma nat_text_digits: "0 \<le> n \<Longrightarrow> c \<in> set (nat_text n) \<Longrightarrow> is_digit c"
proof (induction n rule: nat_text.induct)
  case (1 n)
  then show ?case
    by (auto simp: nat_text.simps [of n] intro: is_digit_char split: if_splits)
qed

lemma nat_text_value: "0 \<le> n \<Longrightarrow> digits_value 0 (nat_text n) = n"
proof (induction n rule: nat_text.induct)
  case (1 n)
  show ?case
  proof (cases "n < 10")
    case True
    then show ?thesis using 1 by (simp add: nat_text.simps [of n] digit_value_char)
  next
    case False
    then show ?thesis
      using 1 by (simp add: nat_text.simps [of n] digits_value_append digit_value_char)
  qed
qed

lemma nat_text_inj: "0 \<le> m \<Longrightarrow> 0 \<le> n \<Longrightarrow> nat_text m = nat_text n \<longleftrightarrow> m = n"
  by (metis nat_text_value)

lemma nat_text_no_minus: "0 \<le> n \<Longrightarrow> nat_text n \<noteq> CHR ''-'' # cs"
proof
  assume "0 \<le> n" "nat_text n = CHR ''-'' # cs"
  then have "is_digit CHR ''-''" using nat_text_digits [of n "CHR ''-''"] by simp
  then show False by (simp add: is_digit_def)
qed

lemma int_text_inj: "int_text m = int_text n \<longleftrightarrow> m = n"
proof (cases "m < 0"; cases "n < 0")
  assume "m < 0" "\<not> n < 0"
  then show ?thesis using nat_text_no_minus [of n "nat_text (- m)"] by (auto simp: int_text_def)
next
  assume "\<not> m < 0" "n < 0"
  then show ?thesis using nat_text_no_minus [of m "nat_text (- n)"] by (auto simp: int_text_def)
qed (use nat_text_inj [of m n] nat_text_inj [of "- m" "- n"] in \<open>simp_all add: int_text_def\<close>)

text \<open>
  \<open>Number::toString\<close> of a positive double: the least number of significant digits
  \<open>k\<close> such that some \<open>s\<close> of \<open>k\<close> digits rounds back to the value, and among those the
  closest. A double always comes back from 17 digits, so the search stops.
\<close>

definition pow10 :: "int \<Rightarrow> rat" where
  "pow10 n = (if 0 \<le> n then of_int (10 ^ nat n) else 1 / of_int (10 ^ nat (- n)))"

fun dec_exp_up :: "nat \<Rightarrow> rat \<Rightarrow> int \<Rightarrow> int" where
  "dec_exp_up 0 x n = n"
| "dec_exp_up (Suc fuel) x n = (if x < pow10 n then n else dec_exp_up fuel x (n + 1))"

fun dec_exp_down :: "nat \<Rightarrow> rat \<Rightarrow> int \<Rightarrow> int" where
  "dec_exp_down 0 x n = n"
| "dec_exp_down (Suc fuel) x n =
     (if pow10 (n - 1) \<le> x then n else dec_exp_down fuel x (n - 1))"

text \<open>The \<open>n\<close> with \<open>10^(n-1) \<le> x < 10^n\<close>; 400 steps cover the range of the doubles.\<close>

definition dec_exp :: "rat \<Rightarrow> int" where
  "dec_exp x = dec_exp_down 400 x (dec_exp_up 400 x 0)"

definition shortest_with :: "rat \<Rightarrow> int \<Rightarrow> nat \<Rightarrow> int option" where
  "shortest_with x n k =
     (let y = x / pow10 (n - int k); lo = \<lfloor>y\<rfloor>; hi = lo + 1;
          back = (\<lambda>s. fl (of_int s * pow10 (n - int k)) = x)
      in if back lo \<and> (\<not> back hi \<or> y - of_int lo \<le> of_int hi - y) then Some lo
         else if back hi then Some hi else None)"

text \<open>Digits, their number and the exponent; a carry to \<open>10^k\<close> is the digit 1.\<close>

fun shortest_from :: "nat \<Rightarrow> rat \<Rightarrow> int \<Rightarrow> nat \<Rightarrow> int \<times> nat \<times> int" where
  "shortest_from 0 x n k = (\<lfloor>x / pow10 (n - int k)\<rfloor>, k, n)"
| "shortest_from (Suc f) x n k =
     (case shortest_with x n k of
        Some s \<Rightarrow> if s = 10 ^ k then (1, 1, n + 1) else (s, k, n)
      | None \<Rightarrow> shortest_from f x n (Suc k))"

text \<open>The layout of the digits: plain from \<open>10^-7\<close> to \<open>10^21\<close>, else with an exponent.\<close>

definition pos_text :: "rat \<Rightarrow> string" where
  "pos_text x =
     (let (s, k, n) = shortest_from 17 x (dec_exp x) 1; ds = nat_text s in
      if int k \<le> n \<and> n \<le> 21 then ds @ replicate (nat (n - int k)) (CHR ''0'')
      else if 0 < n \<and> n \<le> 21 then take (nat n) ds @ ''.'' @ drop (nat n) ds
      else if - 6 < n \<and> n \<le> 0 then ''0.'' @ replicate (nat (- n)) (CHR ''0'') @ ds
      else let e = n - 1; et = (if e < 0 then ''-'' else ''+'') @ nat_text \<bar>e\<bar> in
           if k = 1 then ds @ ''e'' @ et
           else take 1 ds @ ''.'' @ drop 1 ds @ ''e'' @ et)"

definition num_text :: "number \<Rightarrow> string" where
  "num_text x = (if x = 0 then ''0'' else if x < 0 then CHR ''-'' # pos_text (- x) else pos_text x)"

subsection \<open>Characters\<close>

definition char_code :: "char \<Rightarrow> int" where \<comment> \<open>\<open>charCodeAt\<close>\<close>
  "char_code c = of_char c"

lemma char_code_range: "0 \<le> char_code c" "char_code c < 256" "nat (char_code c) = of_char c"
proof -
  have "char_code c = int (of_char c)" by (simp add: char_code_def of_nat_of_char)
  then show "0 \<le> char_code c" "char_code c < 256" "nat (char_code c) = of_char c"
    using nat_of_char_less_256 [of c] by linarith+
qed

definition lower_char :: "char \<Rightarrow> char" where
  "lower_char c = (let k = char_code c in
     if (65 \<le> k \<and> k \<le> 90) \<or> (192 \<le> k \<and> k \<le> 222 \<and> k \<noteq> 215) then char_of (nat (k + 32)) else c)"

definition toLowerCase :: "string \<Rightarrow> string" where
  "toLowerCase s = map lower_char s"

end
