(* ===== verification/Aggregate.thy ===== *)
theory Aggregate
  imports RobustStats Catalog JsMap JsText
begin

text \<open>
  packages/pricing-engine/src/aggregate.ts: many observations of one provider in, at
  most one price out. The order-book path screens every row, keeps the cheapest row
  of each machine, checks the depth floors and takes the weighted median; the rate-card
  path filters by tier and takes the median. The closures \<open>exclude\<close> and \<open>screenRow\<close>
  write the receipts and the flag counters, here the state \<open>agg\<close>.
\<close>

record AggregationConfig =
  minMachinesForBook :: int
  minHostsForBook :: int
  arithmeticTolerancePerGpu :: number
  gpuCountMin :: int
  gpuCountMax :: int
  eligibleTiers :: "PricingTier list"

record AggregationObservation =
  offerId :: "string option"
  machineId :: "string option"
  hostId :: "string option"
  usdPerGpuHour :: number
  rawTotalUsdPerHour :: "number option"
  pricingTier :: "PricingTier option"
  gpuCount :: "int option"
  isBid :: bool
  available :: "bool option"
  region :: "string option"
  observedAt :: date

record AggregateProviderPriceInput =
  in_providerId :: string
  in_gpu :: GpuSku
  in_panelId :: string
  observations :: "AggregationObservation list"
  in_executable :: bool
  in_coverageGap :: bool
  aconfig :: AggregationConfig
  in_windowStart :: date
  in_windowEnd :: date
  in_computedAt :: date
  in_methodologyVersion :: string

datatype AggPath = order_book | rate_card

definition aggregationPath :: "AggregationObservation list \<Rightarrow> AggPath" where
  "aggregationPath obs =
     (if \<exists>o' \<in> set obs. machineId o' \<noteq> None \<or> hostId o' \<noteq> None then order_book else rate_card)"

record agg =
  agg_exclusions :: "ExclusionReceipt list"
  agg_flags :: AggregationFlags

subsection \<open>Screening one row\<close>

datatype RowFault = Unavailable | BidOffer | GpuCountOut | OutOfBand | ArithmeticMismatch

definition gpuCountBad :: "AggregationConfig \<Rightarrow> int option \<Rightarrow> bool" where
  "gpuCountBad cfg n = (case n of None \<Rightarrow> True | Some k \<Rightarrow> k < gpuCountMin cfg \<or> k > gpuCountMax cfg)"

definition arithmeticBad :: "AggregationConfig \<Rightarrow> AggregationObservation \<Rightarrow> bool" where
  "arithmeticBad cfg obs =
     (case (rawTotalUsdPerHour obs, gpuCount obs) of
        (Some t, Some n) \<Rightarrow> n > 0 \<and>
          \<bar>fsub (fmul (round4 (usdPerGpuHour obs)) (of_int n)) t\<bar>
            > fmul (arithmeticTolerancePerGpu cfg) (of_int n)
      | _ \<Rightarrow> False)"

text \<open>The checks of \<open>screenRow\<close> in their order; \<open>None\<close> is a row that may be priced.\<close>

definition rowFault ::
  "AggregateProviderPriceInput \<Rightarrow> AggPath \<Rightarrow> bool \<Rightarrow> AggregationObservation \<Rightarrow> RowFault option" where
  "rowFault inp path requireGpuCount obs =
     (let (bandLo, bandHi) = plausibleBand (in_gpu inp); cfg = aconfig inp in
      if available obs = Some False then Some Unavailable
      else if path = order_book \<and> isBid obs then Some BidOffer
      else if path = order_book \<and> requireGpuCount \<and> gpuCountBad cfg (gpuCount obs)
        then Some GpuCountOut
      else if usdPerGpuHour obs < bandLo \<or> usdPerGpuHour obs > bandHi then Some OutOfBand
      else if path = order_book \<and> arithmeticBad cfg obs then Some ArithmeticMismatch
      else None)"

definition exclude ::
  "AggregateProviderPriceInput \<Rightarrow> AggregationObservation \<Rightarrow> string \<Rightarrow> detail \<Rightarrow> agg \<Rightarrow> agg" where
  "exclude inp obs reason d st =
     st\<lparr>agg_exclusions := agg_exclusions st @
          [\<lparr>ex_providerId = in_providerId inp, ex_reason = reason, ex_detail = d,
            ex_value = Some (usdPerGpuHour obs)\<rparr>]\<rparr>"

fun noteFault ::
  "AggregateProviderPriceInput \<Rightarrow> AggregationObservation \<Rightarrow> RowFault \<Rightarrow> agg \<Rightarrow> agg" where
  "noteFault inp obs Unavailable st = exclude inp obs ''unavailable'' D_unavailable st"
| "noteFault inp obs BidOffer st =
     exclude inp obs ''bid_offer'' D_bid_offer
       (st\<lparr>agg_flags := (agg_flags st)\<lparr>bidOffersSkipped := bidOffersSkipped (agg_flags st) + 1\<rparr>\<rparr>)"
| "noteFault inp obs GpuCountOut st =
     exclude inp obs ''gpu_count_out_of_range''
       (D_gpu_count (gpuCount obs) (gpuCountMin (aconfig inp)) (gpuCountMax (aconfig inp)))
       (st\<lparr>agg_flags := (agg_flags st)\<lparr>outOfRangeGpuCounts := outOfRangeGpuCounts (agg_flags st) + 1\<rparr>\<rparr>)"
| "noteFault inp obs OutOfBand st =
     exclude inp obs ''out_of_band''
       (D_out_of_band (usdPerGpuHour obs) (fst (plausibleBand (in_gpu inp)))
          (snd (plausibleBand (in_gpu inp))) (gpuIdText (sku_id (in_gpu inp))))
       (st\<lparr>agg_flags := (agg_flags st)\<lparr>outOfBandCount := outOfBandCount (agg_flags st) + 1\<rparr>\<rparr>)"
| "noteFault inp obs ArithmeticMismatch st =
     exclude inp obs ''arithmetic_mismatch''
       (D_arithmetic (fmul (round4 (usdPerGpuHour obs)) (of_int (the (gpuCount obs))))
          (the (rawTotalUsdPerHour obs)))
       (st\<lparr>agg_flags := (agg_flags st)\<lparr>arithmeticMismatches := arithmeticMismatches (agg_flags st) + 1\<rparr>\<rparr>)"

definition screenRow ::
  "AggregateProviderPriceInput \<Rightarrow> AggPath \<Rightarrow> bool \<Rightarrow> AggregationObservation \<Rightarrow> agg \<Rightarrow> bool \<times> agg" where
  "screenRow inp path requireGpuCount obs st =
     (case rowFault inp path requireGpuCount obs of
        None \<Rightarrow> (True, st)
      | Some f \<Rightarrow> (False, noteFault inp obs f st))"

subsection \<open>The order book\<close>

type_synonym book_entry = "AggregationObservation \<times> nat" \<comment> \<open>the row and its index\<close>

text \<open>Pass 1: the rows that survive, with their indices.\<close>

fun screenBook ::
  "AggregateProviderPriceInput \<Rightarrow> nat \<Rightarrow> AggregationObservation list \<Rightarrow> agg \<Rightarrow> book_entry list \<times> agg" where
  "screenBook inp i [] st = ([], st)"
| "screenBook inp i (obs # rest) st =
     (let (ok, st1) = screenRow inp order_book True obs st;
          (es, st2) = screenBook inp (Suc i) rest st1
      in (if ok then (obs, i) # es else es, st2))"

definition bookKey :: "book_entry \<Rightarrow> string" where
  "bookKey e = (case machineId (fst e) of Some m \<Rightarrow> m | None \<Rightarrow>
      case hostId (fst e) of Some h \<Rightarrow> h | None \<Rightarrow>
      case offerId (fst e) of Some q \<Rightarrow> q | None \<Rightarrow> ''row:'' @ int_text (int (snd e)))"

text \<open>Pass 2: the cheapest row of each key; the counter counts the rows dropped.\<close>

definition dedupStep ::
  "(string, book_entry) js_map \<times> nat \<Rightarrow> book_entry \<Rightarrow> (string, book_entry) js_map \<times> nat" where
  "dedupStep acc e =
     (case js_get (fst acc) (bookKey e) of
        None \<Rightarrow> (js_set (bookKey e) e (fst acc), snd acc)
      | Some existing \<Rightarrow>
          (if usdPerGpuHour (fst e) < usdPerGpuHour (fst existing)
           then js_set (bookKey e) e (fst acc) else fst acc, snd acc + 1))"

definition dedupBook :: "book_entry list \<Rightarrow> (string, book_entry) js_map \<times> nat" where
  "dedupBook es = foldl dedupStep (js_empty, 0) es"

text \<open>Pass 3: the distinct machines and hosts behind the book.\<close>

definition bookMachines :: "book_entry list \<Rightarrow> string list" where
  "bookMachines book = remdups (map (\<lambda>e. case machineId (fst e) of Some m \<Rightarrow> m
     | None \<Rightarrow> ''dedup:'' @ int_text (int (snd e))) book)"

definition bookHosts :: "book_entry list \<Rightarrow> string list" where
  "bookHosts book =
     (let hostIds = List.map_filter (hostId \<circ> fst) book
      in if hostIds = [] then bookMachines book else remdups hostIds)"

definition bookWeight :: "AggregationConfig \<Rightarrow> book_entry \<Rightarrow> weighted" where
  "bookWeight cfg e =
     \<lparr>wvalue = usdPerGpuHour (fst e),
      weight = of_int (min (max (case gpuCount (fst e) of None \<Rightarrow> 1 | Some n \<Rightarrow> n) 1)
                           (min (gpuCountMax cfg) 16))\<rparr>"

subsection \<open>The result\<close>

definition initAgg :: "AggregateProviderPriceInput \<Rightarrow> agg" where
  "initAgg inp = \<lparr>agg_exclusions = [],
     agg_flags = \<lparr>coverageGap = in_coverageGap inp, dedupDroppedCount = 0, bidOffersSkipped = 0,
                  arithmeticMismatches = 0, outOfRangeGpuCounts = 0, outOfBandCount = 0\<rparr>\<rparr>"

definition baseResult ::
  "AggregateProviderPriceInput \<Rightarrow> agg \<Rightarrow> number option \<Rightarrow> ProviderPriceMethod \<Rightarrow> nat \<Rightarrow> PriceParams \<Rightarrow>
   ProviderHoldout option \<Rightarrow> ProviderPriceResult" where
  "baseResult inp st price method n params holdout =
     \<lparr>pp_providerId = in_providerId inp, pp_gpuId = gpuIdText (sku_id (in_gpu inp)),
      pp_panelId = in_panelId inp, pp_price = price, pp_executable = in_executable inp,
      pp_method = method, pp_sampleSize = n, pp_windowStart = in_windowStart inp,
      pp_windowEnd = in_windowEnd inp, pp_computedAt = in_computedAt inp,
      pp_methodologyVersion = in_methodologyVersion inp, pp_params = params,
      pp_exclusions = agg_exclusions st, pp_holdout = holdout, pp_flags = agg_flags st\<rparr>"

definition emptyHoldout :: "AggregateProviderPriceInput \<Rightarrow> ProviderHoldout" where
  "emptyHoldout inp =
     \<lparr>ho_providerId = in_providerId inp,
      ho_reason = (if observations inp = [] then no_usd_observations else all_filtered),
      ho_detail = None\<rparr>"

definition aggregateBook :: "AggregateProviderPriceInput \<Rightarrow> ProviderPriceResult" where
  "aggregateBook inp =
     (let cfg = aconfig inp;
          (screened, st1) = screenBook inp 0 (observations inp) (initAgg inp);
          (byKey, dropped) = dedupBook screened;
          st = st1\<lparr>agg_flags := (agg_flags st1)\<lparr>dedupDroppedCount := dropped\<rparr>\<rparr>;
          book = js_values byKey;
          machines = length (bookMachines book);
          hosts = length (bookHosts book)
      in if book = [] then
           baseResult inp st None volume_weighted_median 0 (BookParams 0 0) (Some (emptyHoldout inp))
         else if \<not> (int machines \<ge> minMachinesForBook cfg \<and> int hosts \<ge> minHostsForBook cfg) then
           baseResult inp st None thin_book_holdout (length book) (BookParams machines hosts)
             (Some \<lparr>ho_providerId = in_providerId inp, ho_reason = thin_book,
                    ho_detail = Some (machines, hosts, minMachinesForBook cfg, minHostsForBook cfg)\<rparr>)
         else
           baseResult inp st (map_option round4 (weightedMedian (map (bookWeight cfg) book)))
             volume_weighted_median (length book) (BookParams machines hosts) None)"

subsection \<open>The rate card\<close>

definition tierEligible :: "AggregationConfig \<Rightarrow> AggregationObservation \<Rightarrow> bool" where
  "tierEligible cfg obs =
     (case pricingTier obs of None \<Rightarrow> False | Some t \<Rightarrow> t \<in> set (eligibleTiers cfg))"

fun screenRateCard ::
  "AggregateProviderPriceInput \<Rightarrow> AggregationObservation list \<Rightarrow> agg \<Rightarrow> number list \<times> agg" where
  "screenRateCard inp [] st = ([], st)"
| "screenRateCard inp (obs # rest) st =
     (let (ok, st1) = screenRow inp rate_card False obs st in
      if \<not> ok then screenRateCard inp rest st1
      else if \<not> tierEligible (aconfig inp) obs then
        screenRateCard inp rest (exclude inp obs ''tier_not_eligible''
          (D_tier (pricingTier obs) (eligibleTiers (aconfig inp))) st1)
      else (let (ps, st2) = screenRateCard inp rest st1 in (usdPerGpuHour obs # ps, st2)))"

definition aggregateRateCard :: "AggregateProviderPriceInput \<Rightarrow> ProviderPriceResult" where
  "aggregateRateCard inp =
     (let cfg = aconfig inp;
          (prices, st) = screenRateCard inp (observations inp) (initAgg inp)
      in case median prices of
           None \<Rightarrow> baseResult inp st None median_method 0 (RateCardParams (eligibleTiers cfg))
                     (Some (emptyHoldout inp))
         | Some med \<Rightarrow> baseResult inp st (Some (round4 med)) median_method (length prices)
                     (RateCardParams (eligibleTiers cfg)) None)"

definition aggregateProviderPrice :: "AggregateProviderPriceInput \<Rightarrow> ProviderPriceResult" where
  "aggregateProviderPrice inp =
     (case aggregationPath (observations inp) of
        order_book \<Rightarrow> aggregateBook inp
      | rate_card \<Rightarrow> aggregateRateCard inp)"

subsection \<open>Screening: what survives, and one receipt per row that does not\<close>

lemma agg_exclusions_exclude [simp]:
  "length (agg_exclusions (exclude inp obs r d st)) = length (agg_exclusions st) + 1"
  by (simp add: exclude_def)

lemma agg_exclusions_noteFault [simp]:
  "length (agg_exclusions (noteFault inp obs f st)) = length (agg_exclusions st) + 1"
  by (cases f) (simp_all add: exclude_def)

lemma rowFault_None_band:
  "rowFault inp path g obs = None \<Longrightarrow>
   fst (plausibleBand (in_gpu inp)) \<le> usdPerGpuHour obs \<and>
   usdPerGpuHour obs \<le> snd (plausibleBand (in_gpu inp)) \<and> available obs \<noteq> Some False"
  by (auto simp: rowFault_def Let_def not_less split: prod.splits if_splits)

lemma rowFault_None_book:
  "rowFault inp order_book True obs = None \<Longrightarrow>
   \<not> isBid obs \<and> \<not> gpuCountBad (aconfig inp) (gpuCount obs) \<and> \<not> arithmeticBad (aconfig inp) obs"
  by (auto simp: rowFault_def Let_def split: prod.splits if_splits)

definition enumerateFrom :: "nat \<Rightarrow> 'a list \<Rightarrow> ('a \<times> nat) list" where
  "enumerateFrom i xs = zip xs [i ..< i + length xs]"

lemma enumerateFrom_simps [simp]:
  "enumerateFrom i [] = []"
  "enumerateFrom i (x # xs) = (x, i) # enumerateFrom (Suc i) xs"
  by (simp_all add: enumerateFrom_def upt_conv_Cons del: upt_Suc)

lemma fst_enumerateFrom: "e \<in> set (enumerateFrom i xs) \<Longrightarrow> fst e \<in> set xs"
  by (induction xs arbitrary: i) auto

lemma fst_screenBook:
  "fst (screenBook inp i obs st) =
     filter (\<lambda>e. rowFault inp order_book True (fst e) = None) (enumerateFrom i obs)"
  by (induction obs arbitrary: i st) (simp_all add: screenRow_def split_def Let_def split: option.split)

lemma screenBook_accounting:
  "length (fst (screenBook inp i obs st)) + length (agg_exclusions (snd (screenBook inp i obs st))) =
     length obs + length (agg_exclusions st)"
  by (induction obs arbitrary: i st) (simp_all add: screenRow_def split_def Let_def split: option.split)

lemma screenRateCard_accounting:
  "length (fst (screenRateCard inp obs st)) +
     length (agg_exclusions (snd (screenRateCard inp obs st))) =
     length obs + length (agg_exclusions st)"
  by (induction obs arbitrary: st) (simp_all add: screenRow_def split_def Let_def split: option.split)

lemma fst_screenRateCard:
  "fst (screenRateCard inp obs st) =
     map usdPerGpuHour (filter (\<lambda>q. rowFault inp rate_card False q = None \<and>
       tierEligible (aconfig inp) q) obs)"
  by (induction obs arbitrary: st) (simp_all add: screenRow_def split_def Let_def split: option.split)

subsection \<open>Deduplication\<close>

definition dedup_inv :: "book_entry list \<Rightarrow> (string, book_entry) js_map \<times> nat \<Rightarrow> bool" where
  "dedup_inv es acc \<longleftrightarrow> js_ok (fst acc) \<and>
     length (fst acc) + snd acc = length es \<and>
     (\<forall>k e. js_get (fst acc) k = Some e \<longrightarrow> e \<in> set es \<and> bookKey e = k \<and>
        (\<forall>e' \<in> set es. bookKey e' = k \<longrightarrow> usdPerGpuHour (fst e) \<le> usdPerGpuHour (fst e'))) \<and>
     (\<forall>e \<in> set es. js_has (fst acc) (bookKey e))"

lemma dedup_inv_step:
  assumes "dedup_inv es acc"
  shows "dedup_inv (es @ [e]) (dedupStep acc e)"
proof (cases "js_get (fst acc) (bookKey e)")
  case None
  then have fresh: "\<forall>e' \<in> set es. bookKey e' \<noteq> bookKey e"
    using assms by (auto simp: dedup_inv_def js_has_def)
  with None assms show ?thesis
    by (auto simp: dedup_inv_def dedupStep_def js_size_set js_has_def js_ok_set)
next
  case (Some old)
  with assms have old: "old \<in> set es" "bookKey old = bookKey e"
      "\<forall>e' \<in> set es. bookKey e' = bookKey e \<longrightarrow> usdPerGpuHour (fst old) \<le> usdPerGpuHour (fst e')"
    unfolding dedup_inv_def by metis+
  show ?thesis
  proof (cases "usdPerGpuHour (fst e) < usdPerGpuHour (fst old)")
    case True
    with Some assms old show ?thesis
      by (auto simp: dedup_inv_def dedupStep_def js_size_set js_has_def js_ok_set
          intro: order.trans less_imp_le)
  next
    case False
    with Some assms old show ?thesis
      by (auto simp: dedup_inv_def dedupStep_def js_has_def not_less)
  qed
qed

lemma dedupBook_inv: "dedup_inv es (dedupBook es)"
  unfolding dedupBook_def
proof (induction es rule: rev_induct)
  case Nil
  then show ?case by (simp add: dedup_inv_def js_ok_def js_empty_def js_get_def)
next
  case (snoc e es)
  then show ?case by (simp add: dedup_inv_step)
qed

lemma dedupBook_values:
  "e \<in> set (js_values (fst (dedupBook es))) \<Longrightarrow> e \<in> set es"
proof -
  assume e: "e \<in> set (js_values (fst (dedupBook es)))"
  have inv: "dedup_inv es (dedupBook es)" by (rule dedupBook_inv)
  then have "js_ok (fst (dedupBook es))" by (simp add: dedup_inv_def)
  then obtain k where "js_get (fst (dedupBook es)) k = Some e"
    using e js_values_get by metis
  with inv show ?thesis unfolding dedup_inv_def by metis
qed

lemma dedupBook_length:
  "length (js_values (fst (dedupBook es))) + snd (dedupBook es) = length es"
  using dedupBook_inv [of es] by (simp add: dedup_inv_def js_values_def)

subsection \<open>Properties\<close>

lemma dedupDroppedCount_noteFault [simp]:
  "dedupDroppedCount (agg_flags (noteFault inp obs f st)) = dedupDroppedCount (agg_flags st)"
  by (cases f) (simp_all add: exclude_def)

lemma dedupDroppedCount_rateCard:
  "dedupDroppedCount (agg_flags (snd (screenRateCard inp obs st))) = dedupDroppedCount (agg_flags st)"
  by (induction obs arbitrary: st)
    (simp_all add: screenRow_def exclude_def split_def Let_def split: option.split)

lemma baseResult_simps [simp]:
  "pp_price (baseResult inp st p m n ps h) = p"
  "pp_sampleSize (baseResult inp st p m n ps h) = n"
  "pp_exclusions (baseResult inp st p m n ps h) = agg_exclusions st"
  "pp_flags (baseResult inp st p m n ps h) = agg_flags st"
  "pp_params (baseResult inp st p m n ps h) = ps"
  "pp_holdout (baseResult inp st p m n ps h) = h"
  "pp_executable (baseResult inp st p m n ps h) = in_executable inp"
  "pp_providerId (baseResult inp st p m n ps h) = in_providerId inp"
  by (simp_all add: baseResult_def)

lemma aggregateBook_accounting:
  "length (observations inp) = pp_sampleSize (aggregateBook inp) +
     length (pp_exclusions (aggregateBook inp)) + dedupDroppedCount (pp_flags (aggregateBook inp))"
proof -
  obtain es st where es: "screenBook inp 0 (observations inp) (initAgg inp) = (es, st)"
    by (cases "screenBook inp 0 (observations inp) (initAgg inp)")
  obtain m d where m: "dedupBook es = (m, d)" by (cases "dedupBook es")
  have "length es + length (agg_exclusions st) = length (observations inp)"
    using screenBook_accounting [of inp 0 "observations inp" "initAgg inp"] es
    by (simp add: initAgg_def)
  moreover have "length (js_values m) + d = length es"
    using dedupBook_length [of es] m by simp
  ultimately show ?thesis
    by (auto simp: aggregateBook_def es m Let_def)
qed

lemma aggregateRateCard_accounting:
  "length (observations inp) = pp_sampleSize (aggregateRateCard inp) +
     length (pp_exclusions (aggregateRateCard inp)) +
     dedupDroppedCount (pp_flags (aggregateRateCard inp))"
proof -
  obtain ps st where ps: "screenRateCard inp (observations inp) (initAgg inp) = (ps, st)"
    by (cases "screenRateCard inp (observations inp) (initAgg inp)")
  have "length ps + length (agg_exclusions st) = length (observations inp)"
    using screenRateCard_accounting [of inp "observations inp" "initAgg inp"] ps
    by (simp add: initAgg_def)
  moreover have "dedupDroppedCount (agg_flags st) = 0"
    using dedupDroppedCount_rateCard [of inp "observations inp" "initAgg inp"] ps
    by (simp add: initAgg_def)
  ultimately show ?thesis
    by (auto simp: aggregateRateCard_def ps Let_def split: option.split)
qed

lemma aggregateBook_price:
  assumes "pp_price (aggregateBook inp) = Some p"
  shows "\<exists>obs \<in> set (observations inp). p = round4 (usdPerGpuHour obs) \<and>
           rowFault inp order_book True obs = None"
    and "\<exists>machines hosts. pp_params (aggregateBook inp) = BookParams machines hosts \<and>
           minMachinesForBook (aconfig inp) \<le> int machines \<and> minHostsForBook (aconfig inp) \<le> int hosts"
proof -
  obtain es st where es: "screenBook inp 0 (observations inp) (initAgg inp) = (es, st)"
    by (cases "screenBook inp 0 (observations inp) (initAgg inp)")
  obtain m d where m: "dedupBook es = (m, d)" by (cases "dedupBook es")
  let ?book = "js_values m"
  have w: "map_option round4 (weightedMedian (map (bookWeight (aconfig inp)) ?book)) = Some p"
    and depth: "minMachinesForBook (aconfig inp) \<le> int (length (bookMachines ?book))"
      "minHostsForBook (aconfig inp) \<le> int (length (bookHosts ?book))"
    and params: "pp_params (aggregateBook inp) =
        BookParams (length (bookMachines ?book)) (length (bookHosts ?book))"
    using assms by (auto simp: aggregateBook_def es m Let_def split: if_splits)
  from w obtain v where v: "weightedMedian (map (bookWeight (aconfig inp)) ?book) = Some v"
      "p = round4 v" by auto
  obtain e where e: "e \<in> set ?book" "v = usdPerGpuHour (fst e)"
    using weightedMedian_mem [OF v(1)] by (auto simp: bookWeight_def)
  then have "e \<in> set es" using dedupBook_values [of e es] m by simp
  then have "e \<in> set (filter (\<lambda>e. rowFault inp order_book True (fst e) = None)
      (enumerateFrom 0 (observations inp)))"
    using fst_screenBook [of inp 0 "observations inp" "initAgg inp"] es by simp
  then have "fst e \<in> set (observations inp)" "rowFault inp order_book True (fst e) = None"
    using fst_enumerateFrom [of e 0 "observations inp"] by simp_all
  then show "\<exists>obs \<in> set (observations inp). p = round4 (usdPerGpuHour obs) \<and>
      rowFault inp order_book True obs = None"
    using v(2) e(2) by blast
  show "\<exists>machines hosts. pp_params (aggregateBook inp) = BookParams machines hosts \<and>
      minMachinesForBook (aconfig inp) \<le> int machines \<and> minHostsForBook (aconfig inp) \<le> int hosts"
    using params depth by blast
qed

lemma aggregateRateCard_price:
  assumes "pp_price (aggregateRateCard inp) = Some p"
  shows "\<exists>m. median (map usdPerGpuHour (filter (\<lambda>q. rowFault inp rate_card False q = None \<and>
       tierEligible (aconfig inp) q) (observations inp))) = Some m \<and> p = round4 m"
proof -
  obtain ps st where ps: "screenRateCard inp (observations inp) (initAgg inp) = (ps, st)"
    by (cases "screenRateCard inp (observations inp) (initAgg inp)")
  then have "ps = map usdPerGpuHour (filter (\<lambda>q. rowFault inp rate_card False q = None \<and>
       tierEligible (aconfig inp) q) (observations inp))"
    using fst_screenRateCard [of inp "observations inp" "initAgg inp"] by simp
  with assms ps show ?thesis
    by (auto simp: aggregateRateCard_def Let_def split: option.splits)
qed

text \<open>Every observation a provider submits is accounted for exactly once: it is in the
  sample of the price, or has an exclusion receipt, or was dropped as a dearer duplicate.\<close>
theorem aggregate_accounts_for_every_row:
  "length (observations inp) =
     pp_sampleSize (aggregateProviderPrice inp) +
     length (pp_exclusions (aggregateProviderPrice inp)) +
     dedupDroppedCount (pp_flags (aggregateProviderPrice inp))"
  using aggregateBook_accounting aggregateRateCard_accounting
  by (cases "aggregationPath (observations inp)") (simp_all add: aggregateProviderPrice_def)

text \<open>A price that aggregation produces lies in the plausible band of its GPU (rounded to
  four decimals), whatever the rows said, and none is produced with a holdout.\<close>
theorem aggregate_price_in_band:
  assumes "pp_price (aggregateProviderPrice inp) = Some p"
    and "\<forall>obs \<in> set (observations inp). fl (usdPerGpuHour obs) = usdPerGpuHour obs"
  shows "round4 (fst (plausibleBand (in_gpu inp))) \<le> p \<and>
    p \<le> round4 (snd (plausibleBand (in_gpu inp)))"
proof (cases "aggregationPath (observations inp)")
  case order_book
  with assms(1) have "pp_price (aggregateBook inp) = Some p"
    by (simp add: aggregateProviderPrice_def)
  then show ?thesis
    using aggregateBook_price(1) rowFault_None_band by (blast intro: round4_mono)
next
  case rate_card
  let ?rows = "filter (\<lambda>q. rowFault inp rate_card False q = None \<and> tierEligible (aconfig inp) q)
    (observations inp)"
  from rate_card assms(1) have "pp_price (aggregateRateCard inp) = Some p"
    by (simp add: aggregateProviderPrice_def)
  from aggregateRateCard_price [OF this] obtain m where
    m: "median (map usdPerGpuHour ?rows) = Some m" "p = round4 m" by blast
  have "fst (plausibleBand (in_gpu inp)) \<le> m \<and> m \<le> snd (plausibleBand (in_gpu inp))"
    using assms(2) by (intro median_in_range [OF m(1)]) (auto dest: rowFault_None_band)
  then show ?thesis using m(2) round4_mono by blast
qed

text \<open>A price computed from an order book passed the depth floors and is the price of one
  of the provider's own rows, which was available, not a bid, with a GPU count in range and
  an arithmetic that holds: a thin book never prices.\<close>
theorem order_book_price_is_a_deep_executable_row:
  assumes "aggregationPath (observations inp) = order_book"
    and "pp_price (aggregateProviderPrice inp) = Some p"
  shows "(\<exists>obs \<in> set (observations inp). p = round4 (usdPerGpuHour obs) \<and>
      available obs \<noteq> Some False \<and> \<not> isBid obs \<and>
      \<not> gpuCountBad (aconfig inp) (gpuCount obs) \<and> \<not> arithmeticBad (aconfig inp) obs) \<and>
    (\<exists>machines hosts. pp_params (aggregateProviderPrice inp) = BookParams machines hosts \<and>
      minMachinesForBook (aconfig inp) \<le> int machines \<and> minHostsForBook (aconfig inp) \<le> int hosts)"
proof -
  have eq: "aggregateProviderPrice inp = aggregateBook inp"
    using assms(1) by (simp add: aggregateProviderPrice_def)
  then have "pp_price (aggregateBook inp) = Some p" using assms(2) by simp
  note price = aggregateBook_price [OF this]
  have "\<exists>obs \<in> set (observations inp). p = round4 (usdPerGpuHour obs) \<and>
      available obs \<noteq> Some False \<and> \<not> isBid obs \<and>
      \<not> gpuCountBad (aconfig inp) (gpuCount obs) \<and> \<not> arithmeticBad (aconfig inp) obs"
    using price(1) rowFault_None_band rowFault_None_book by blast
  then show ?thesis using price(2) eq by simp
qed

subsection \<open>A concrete book\<close>

definition sampleRow :: "string \<Rightarrow> string \<Rightarrow> number \<Rightarrow> AggregationObservation" where
  "sampleRow m h p = \<lparr>offerId = None, machineId = Some m, hostId = Some h, usdPerGpuHour = p,
     rawTotalUsdPerHour = None, pricingTier = Some on_demand, gpuCount = Some 1, isBid = False,
     available = Some True, region = None, observedAt = 0\<rparr>"

definition sampleSku :: GpuSku where
  "sampleSku = \<lparr>sku_id = L40S_48GB, sku_label = ''L40S'', vendor = nvidia, vramGb = 48,
     formFactor = None, plausibleBand = (1 / 4, 8), patterns = [''L40S'']\<rparr>"

definition sampleBook :: AggregateProviderPriceInput where
  "sampleBook = \<lparr>in_providerId = ''vast'', in_gpu = sampleSku, in_panelId = ''L40S_PANEL_V1'',
     observations = [sampleRow ''m1'' ''h1'' 1, sampleRow ''m2'' ''h2'' (3 / 4), sampleRow ''m2'' ''h2'' 1],
     in_executable = True, in_coverageGap = False,
     aconfig = \<lparr>minMachinesForBook = 2, minHostsForBook = 2, arithmeticTolerancePerGpu = 0,
       gpuCountMin = 1, gpuCountMax = 16, eligibleTiers = [on_demand]\<rparr>,
     in_windowStart = 0, in_windowEnd = 0, in_computedAt = 0, in_methodologyVersion = ''t''\<rparr>"

lemma sampleBook_price: "pp_price (aggregateProviderPrice sampleBook) = Some (3 / 4)"
  by code_simp

theorem aggregate_price_in_band_witness:
  "round4 (fst (plausibleBand (in_gpu sampleBook))) \<le> 3 / 4"
proof -
  have "\<forall>obs \<in> set (observations sampleBook). fl (usdPerGpuHour obs) = usdPerGpuHour obs"
    by code_simp
  from aggregate_price_in_band [OF sampleBook_price this] show ?thesis by simp
qed

theorem order_book_price_witness:
  "\<exists>obs \<in> set (observations sampleBook). 3 / 4 = round4 (usdPerGpuHour obs) \<and> \<not> isBid obs"
proof -
  have "aggregationPath (observations sampleBook) = order_book" by code_simp
  from order_book_price_is_a_deep_executable_row [OF this sampleBook_price] show ?thesis by blast
qed

end
