(* ===== verification/Gates.thy ===== *)
theory Gates
  imports MarketTypes
begin

text \<open>
  packages/pricing-engine/src/gates.ts: the publication gates. The result is the list
  of evaluated gates in the source's order; \<open>require_executable\<close> is there only when the
  configuration asks for it.
\<close>

record GatesConfig =
  minProviders :: int
  minObservations :: int
  maxObservationAgeMs :: number
  requireExecutable :: bool

record DispersionConfig =
  disp_max :: number
  disp_warn :: number

record GateInput =
  gi_contributors :: "ContributionReceipt list"
  gi_now :: date
  gi_lastPriceAt :: "string \<Rightarrow> date option option" \<comment> \<open>\<open>None\<close>: no entry; \<open>Some None\<close>: null\<close>
  gi_gates :: GatesConfig
  gi_dispersion :: number
  gi_dispersionConfig :: DispersionConfig

definition mkGate :: "string \<Rightarrow> bool \<Rightarrow> number option \<Rightarrow> number \<Rightarrow> Gate" where
  "mkGate name ok obs thr =
     \<lparr>gate_name = name, passed = ok, gate_observed = obs, gate_threshold = Some thr,
      gate_reason = None\<rparr>"

text \<open>The freshness loop: the oldest known time, and whether some time is unknown.\<close>

fun freshnessLoop ::
  "(string \<Rightarrow> date option option) \<Rightarrow> ContributionReceipt list \<Rightarrow> date option \<times> bool \<Rightarrow> date option \<times> bool" where
  "freshnessLoop lastAt [] acc = acc"
| "freshnessLoop lastAt (c # cs) (oldestAt, unknown) =
     (case lastAt (co_providerId c) of
        Some (Some t) \<Rightarrow>
          freshnessLoop lastAt cs
            (case oldestAt of None \<Rightarrow> Some t | Some old \<Rightarrow> if t < old then Some t else Some old, unknown)
      | _ \<Rightarrow> freshnessLoop lastAt cs (oldestAt, True))"

definition freshnessGate :: "GateInput \<Rightarrow> Gate" where
  "freshnessGate inp =
     (let thr = maxObservationAgeMs (gi_gates inp) in
      case freshnessLoop (gi_lastPriceAt inp) (gi_contributors inp) (None, False) of
        (Some oldestAt, False) \<Rightarrow>
          (let age = of_int (gi_now inp - oldestAt) in mkGate ''freshness'' (age \<le> thr) (Some age) thr)
      | _ \<Rightarrow> (mkGate ''freshness'' False None thr)
               \<lparr>gate_reason := Some ''contributing provider has no known last-observation time''\<rparr>)"

definition evaluateGates :: "GateInput \<Rightarrow> Gate list" where
  "evaluateGates inp =
     (let gates = gi_gates inp; cs = gi_contributors inp;
          providerCount = length cs;
          observationCount = sum_list (map co_sampleSize cs);
          executableCount = length (filter co_executable cs)
      in [mkGate ''min_providers'' (int providerCount \<ge> minProviders gates)
            (Some (of_nat providerCount)) (of_int (minProviders gates)),
          mkGate ''min_observations'' (int observationCount \<ge> minObservations gates)
            (Some (of_nat observationCount)) (of_int (minObservations gates)),
          freshnessGate inp] @
         (if requireExecutable gates
          then [(mkGate ''require_executable'' (executableCount \<ge> 1)
                   (Some (of_nat executableCount)) 1)
                  \<lparr>gate_reason := if executableCount = 0
                     then Some ''no executable contribution'' else None\<rparr>]
          else []) @
         [mkGate ''max_dispersion'' (gi_dispersion inp \<le> disp_max (gi_dispersionConfig inp))
            (Some (gi_dispersion inp)) (disp_max (gi_dispersionConfig inp))])"

definition allPassed :: "Gate list \<Rightarrow> bool" where \<comment> \<open>\<open>gates.every((g) => g.passed)\<close>\<close>
  "allPassed gs = list_all passed gs"

lemma passed_mkGate [simp]: "passed (mkGate n ok obs thr) = ok"
  by (simp add: mkGate_def)

lemma passed_reason [simp]: "passed (g\<lparr>gate_reason := r\<rparr>) = passed g"
  by simp

text \<open>What the freshness loop computes: every contributor is known, and none is older.\<close>

lemma freshnessLoop_unknown: "snd (freshnessLoop lastAt cs (a, True))"
proof (induction cs arbitrary: a)
  case (Cons c cs)
  then show ?case by (auto split: option.split)
qed simp

lemma freshnessLoop_known:
  "freshnessLoop lastAt cs (a, False) = (r, False) \<longleftrightarrow>
     (\<forall>c \<in> set cs. \<exists>t. lastAt (co_providerId c) = Some (Some t)) \<and>
     r = fold (\<lambda>c acc. let t = the (the (lastAt (co_providerId c))) in
           case acc of None \<Rightarrow> Some t | Some old \<Rightarrow> Some (min t old)) cs a"
proof (induction cs arbitrary: a)
  case Nil
  then show ?case by auto
next
  case (Cons c cs)
  show ?case
  proof (cases "\<exists>t. lastAt (co_providerId c) = Some (Some t)")
    case True
    then obtain t where t: "lastAt (co_providerId c) = Some (Some t)" by blast
    have "(case a of None \<Rightarrow> Some t | Some old \<Rightarrow> if t < old then Some t else Some old) =
        (case a of None \<Rightarrow> Some t | Some old \<Rightarrow> Some (min t old))"
      by (auto split: option.split)
    then show ?thesis using Cons [of "case a of None \<Rightarrow> Some t | Some old \<Rightarrow> Some (min t old)"] t
      by (simp add: Let_def)
  next
    case False
    then have "freshnessLoop lastAt (c # cs) (a, False) = freshnessLoop lastAt cs (a, True)"
      by (auto split: option.split)
    then show ?thesis
      using False freshnessLoop_unknown [of lastAt cs a] by (metis list.set_intros(1) snd_conv)
  qed
qed

lemma fold_min_le:
  fixes f :: "'a \<Rightarrow> int"
  assumes "fold (\<lambda>c acc. case acc of None \<Rightarrow> Some (f c) | Some old \<Rightarrow> Some (min (f c) old)) cs a = Some r"
  shows "(\<forall>c \<in> set cs. r \<le> f c) \<and> (\<forall>x. a = Some x \<longrightarrow> r \<le> x) \<and> (r \<in> f ` set cs \<or> a = Some r)"
  using assms
proof (induction cs arbitrary: a)
  case Nil
  then show ?case by simp
next
  case (Cons c cs)
  let ?a = "case a of None \<Rightarrow> Some (f c) | Some old \<Rightarrow> Some (min (f c) old)"
  have "fold (\<lambda>c acc. case acc of None \<Rightarrow> Some (f c) | Some old \<Rightarrow> Some (min (f c) old)) cs ?a = Some r"
    using Cons.prems by simp
  from Cons.IH [OF this] show ?case
    by (cases a) (auto simp: min_def split: if_splits)
qed

lemma fold_min_None:
  fixes f :: "'a \<Rightarrow> int"
  shows "fold (\<lambda>c acc. case acc of None \<Rightarrow> Some (f c) | Some old \<Rightarrow> Some (min (f c) old)) cs a = None
    \<longleftrightarrow> cs = [] \<and> a = None"
proof (induction cs arbitrary: a)
  case (Cons c cs)
  then show ?case by (auto split: option.split)
qed simp

text \<open>A contributor is fresh when the time of its last print is known and in the window.\<close>

definition fresh :: "GateInput \<Rightarrow> ContributionReceipt \<Rightarrow> bool" where
  "fresh inp c \<longleftrightarrow> (case gi_lastPriceAt inp (co_providerId c) of
     Some (Some t) \<Rightarrow> of_int (gi_now inp - t) \<le> maxObservationAgeMs (gi_gates inp)
   | _ \<Rightarrow> False)"

lemma freshnessGate_passed:
  "passed (freshnessGate inp) \<longleftrightarrow>
     gi_contributors inp \<noteq> [] \<and> (\<forall>c \<in> set (gi_contributors inp). fresh inp c)"
proof -
  let ?at = "gi_lastPriceAt inp" and ?cs = "gi_contributors inp"
  let ?f = "\<lambda>c. the (the (?at (co_providerId c)))"
  obtain r u where ru: "freshnessLoop ?at ?cs (None, False) = (r, u)"
    by (cases "freshnessLoop ?at ?cs (None, False)")
  show ?thesis
  proof (cases u)
    case True
    then have "\<not> (\<forall>c \<in> set ?cs. \<exists>t. ?at (co_providerId c) = Some (Some t))"
      using ru freshnessLoop_known [of ?at ?cs None] by (metis (no_types, lifting) prod.inject)
    then have "\<not> (\<forall>c \<in> set ?cs. fresh inp c)"
      by (auto simp: fresh_def split: option.splits)
    moreover have "\<not> passed (freshnessGate inp)"
      using ru True by (auto simp: freshnessGate_def Let_def split: option.split)
    ultimately show ?thesis by blast
  next
    case False
    then have known: "\<forall>c \<in> set ?cs. \<exists>t. ?at (co_providerId c) = Some (Some t)"
      and r: "r = fold (\<lambda>c acc. case acc of None \<Rightarrow> Some (?f c) | Some old \<Rightarrow> Some (min (?f c) old)) ?cs None"
      using ru freshnessLoop_known [of ?at ?cs None r] by (simp_all add: Let_def)
    show ?thesis
    proof (cases r)
      case None
      then have "?cs = []" using r fold_min_None [of ?f ?cs None] by simp
      then show ?thesis by (simp add: freshnessGate_def Let_def)
    next
      case (Some t)
      have lb: "(\<forall>c \<in> set ?cs. t \<le> ?f c) \<and> t \<in> ?f ` set ?cs"
        using fold_min_le [of ?f ?cs None t] r Some by auto
      have "passed (freshnessGate inp) \<longleftrightarrow> of_int (gi_now inp - t) \<le> maxObservationAgeMs (gi_gates inp)"
        using ru False Some by (simp add: freshnessGate_def Let_def)
      also have "\<dots> \<longleftrightarrow> (\<forall>c \<in> set ?cs. of_int (gi_now inp - ?f c) \<le> maxObservationAgeMs (gi_gates inp))"
      proof
        assume le: "of_int (gi_now inp - t) \<le> maxObservationAgeMs (gi_gates inp)"
        show "\<forall>c \<in> set ?cs. of_int (gi_now inp - ?f c) \<le> maxObservationAgeMs (gi_gates inp)"
        proof
          fix c assume "c \<in> set ?cs"
          then have "gi_now inp - ?f c \<le> gi_now inp - t" using lb by simp
          then have "(of_int (gi_now inp - ?f c) :: rat) \<le> of_int (gi_now inp - t)"
            by (simp only: of_int_le_iff)
          with le show "of_int (gi_now inp - ?f c) \<le> maxObservationAgeMs (gi_gates inp)" by linarith
        qed
      next
        assume "\<forall>c \<in> set ?cs. of_int (gi_now inp - ?f c) \<le> maxObservationAgeMs (gi_gates inp)"
        then show "of_int (gi_now inp - t) \<le> maxObservationAgeMs (gi_gates inp)" using lb by auto
      qed
      also have "\<dots> \<longleftrightarrow> (\<forall>c \<in> set ?cs. fresh inp c)"
      proof (rule ball_cong [OF refl])
        fix c assume "c \<in> set ?cs"
        then obtain u where "?at (co_providerId c) = Some (Some u)" using known by blast
        then show "of_int (gi_now inp - ?f c) \<le> maxObservationAgeMs (gi_gates inp) \<longleftrightarrow> fresh inp c"
          by (simp add: fresh_def)
      qed
      finally show ?thesis using lb by auto
    qed
  qed
qed

lemma allPassed_evaluateGates:
  "allPassed (evaluateGates inp) \<longleftrightarrow>
     minProviders (gi_gates inp) \<le> int (length (gi_contributors inp)) \<and>
     minObservations (gi_gates inp) \<le> int (sum_list (map co_sampleSize (gi_contributors inp))) \<and>
     passed (freshnessGate inp) \<and>
     (\<not> requireExecutable (gi_gates inp) \<or> (\<exists>c \<in> set (gi_contributors inp). co_executable c)) \<and>
     gi_dispersion inp \<le> disp_max (gi_dispersionConfig inp)"
  by (auto simp: allPassed_def evaluateGates_def Let_def filter_empty_conv Suc_le_eq)

end
