(* ===== verification/Methodology.thy ===== *)
theory Methodology
  imports Screen Aggregate Gates
begin

text \<open>
  packages/pricing-engine/src/config.ts: the methodology configuration, its default,
  the validation of an untrusted configuration and the per-panel effective
  configuration. The untrusted input is a JavaScript value (\<open>json\<close>); a number
  parsed from a file may be an infinity (\<open>1e999\<close>), so non-finite numbers are values
  of their own. The validator is the list of the source's checks in their order, and
  the first one that fails is the error thrown.
\<close>

subsection \<open>The configuration\<close>

record WeightsConfig =
  w_executable :: number
  w_rateCard :: number

record MovementConfig =
  allowancePct :: number
  slotMs :: int
  reversion :: number
  stepPct :: number

record PartialGates =
  pg_minProviders :: "int option"
  pg_minObservations :: "int option"
  pg_maxObservationAgeMs :: "number option"
  pg_requireExecutable :: "bool option"

record PartialDispersion =
  pd_max :: "number option"
  pd_warn :: "number option"

record PanelOverride =
  additionalProviders :: "string list option"
  po_gates :: "PartialGates option"
  po_dispersion :: "PartialDispersion option"

record MethodologyConfig =
  version :: string
  screening :: ScreeningConfig
  aggregation :: AggregationConfig
  weights :: WeightsConfig
  weightCap :: number
  dispersion :: DispersionConfig
  voteSigmaFloor :: number
  gates :: GatesConfig
  carryForwardWindowMs :: number
  jump :: JumpConfig
  movement :: "MovementConfig option"
  panelOverrides :: "(string \<times> PanelOverride) list"

definition noGates :: PartialGates where
  "noGates = \<lparr>pg_minProviders = None, pg_minObservations = None,
              pg_maxObservationAgeMs = None, pg_requireExecutable = None\<rparr>"

definition DEFAULT_METHODOLOGY_CONFIG :: MethodologyConfig where
  "DEFAULT_METHODOLOGY_CONFIG =
    \<lparr>version = ''0.5.1'',
     screening = \<lparr>minProvidersForScreen = 4, madScale = fl (14826 / 10000), sigmaLimit = 3,
                  madZeroRatioBand = 3\<rparr>,
     aggregation = \<lparr>minMachinesForBook = 5, minHostsForBook = 3,
                    arithmeticTolerancePerGpu = fl (5 / 1000), gpuCountMin = 1, gpuCountMax = 16,
                    eligibleTiers = [on_demand]\<rparr>,
     weights = \<lparr>w_executable = 1, w_rateCard = fl (6 / 10)\<rparr>,
     weightCap = fl (35 / 100),
     dispersion = \<lparr>disp_max = fl (45 / 100), disp_warn = fl (25 / 100)\<rparr>,
     voteSigmaFloor = fl (3 / 100),
     gates = \<lparr>minProviders = 4, minObservations = 3, maxObservationAgeMs = 1800000,
              requireExecutable = True\<rparr>,
     carryForwardWindowMs = 86400000,
     jump = \<lparr>maxProviderJumpPct = fl (25 / 100), minCorroborators = 2,
             minCorroboratorMovePct = fl (10 / 100)\<rparr>,
     movement = Some \<lparr>allowancePct = fl (5 / 10000), slotMs = 30000, reversion = fl (7 / 10),
                      stepPct = fl (4 / 10)\<rparr>,
     panelOverrides =
       [(''H100_PANEL_V1'',
         \<lparr>additionalProviders = None,
          po_gates = Some (noGates\<lparr>pg_minProviders := Some 3, pg_requireExecutable := Some True\<rparr>),
          po_dispersion = None\<rparr>),
        (''L40S_PANEL_V1'',
         \<lparr>additionalProviders = Some [''datacrunch'', ''scaleway'', ''coreweave''],
          po_gates = Some (noGates\<lparr>pg_minProviders := Some 3, pg_requireExecutable := Some False\<rparr>),
          po_dispersion = None\<rparr>),
        (''RTX_4090_PANEL_V1'',
         \<lparr>additionalProviders = Some [''akash''],
          po_gates = Some (noGates\<lparr>pg_minProviders := Some 3, pg_requireExecutable := Some True\<rparr>),
          po_dispersion = None\<rparr>)]\<rparr>"

subsection \<open>The effective configuration of a panel\<close>

definition patchGates :: "GatesConfig \<Rightarrow> PartialGates \<Rightarrow> GatesConfig" where
  "patchGates g p =
     \<lparr>minProviders = (case pg_minProviders p of None \<Rightarrow> minProviders g | Some v \<Rightarrow> v),
      minObservations = (case pg_minObservations p of None \<Rightarrow> minObservations g | Some v \<Rightarrow> v),
      maxObservationAgeMs =
        (case pg_maxObservationAgeMs p of None \<Rightarrow> maxObservationAgeMs g | Some v \<Rightarrow> v),
      requireExecutable =
        (case pg_requireExecutable p of None \<Rightarrow> requireExecutable g | Some v \<Rightarrow> v)\<rparr>"

definition patchDispersion :: "DispersionConfig \<Rightarrow> PartialDispersion \<Rightarrow> DispersionConfig" where
  "patchDispersion d p =
     \<lparr>disp_max = (case pd_max p of None \<Rightarrow> disp_max d | Some v \<Rightarrow> v),
      disp_warn = (case pd_warn p of None \<Rightarrow> disp_warn d | Some v \<Rightarrow> v)\<rparr>"

definition effectiveConfigFor :: "MethodologyConfig \<Rightarrow> string \<Rightarrow> MethodologyConfig" where
  "effectiveConfigFor config panelId =
     (case map_of (panelOverrides config) panelId of
        None \<Rightarrow> config
      | Some override \<Rightarrow>
          if po_gates override = None \<and> po_dispersion override = None then config
          else config
            \<lparr>gates := (case po_gates override of None \<Rightarrow> gates config
                       | Some p \<Rightarrow> patchGates (gates config) p),
             dispersion := (case po_dispersion override of None \<Rightarrow> dispersion config
                            | Some p \<Rightarrow> patchDispersion (dispersion config) p)\<rparr>)"

subsection \<open>Untrusted values\<close>

datatype nonfinite = NaN | PosInf | NegInf

datatype json =
    JUndef | JNull | JBool bool | JNum number | JNonFin nonfinite | JStr string
  | JArr "json list" | JObj "(string \<times> json) list"

datatype why = Missing | UnknownKey | NotAnObject | NotFinite | NotInteger | NotBoolean | OutOfRange

datatype config_error = Fail string why

definition isPlainObject :: "json \<Rightarrow> bool" where
  "isPlainObject v = (case v of JObj _ \<Rightarrow> True | _ \<Rightarrow> False)"

fun objFields :: "json \<Rightarrow> (string \<times> json) list" where
  "objFields (JObj fs) = fs"
| "objFields _ = []"

definition jget :: "json \<Rightarrow> string \<Rightarrow> json" where
  "jget v k = (case map_of (objFields v) k of None \<Rightarrow> JUndef | Some w \<Rightarrow> w)"

definition need :: "string \<Rightarrow> why \<Rightarrow> bool \<Rightarrow> config_error option" where
  "need path w ok = (if ok then None else Some (Fail path w))"

definition dotted :: "string \<Rightarrow> string \<Rightarrow> string" where
  "dotted path k = path @ ''.'' @ k"

definition assertKeys :: "json \<Rightarrow> string list \<Rightarrow> string \<Rightarrow> config_error option list" where
  "assertKeys v keys path =
     map (\<lambda>k. need (dotted path k) Missing (k \<in> fst ` set (objFields v))) keys @
     map (\<lambda>k. need (dotted path k) UnknownKey (k \<in> set keys)) (map fst (objFields v))"

definition isNum :: "json \<Rightarrow> bool" where
  "isNum v = (case v of JNum _ \<Rightarrow> True | _ \<Rightarrow> False)"

fun numVal :: "json \<Rightarrow> number" where
  "numVal (JNum x) = x"
| "numVal _ = 0"

definition isInt :: "number \<Rightarrow> bool" where
  "isInt x \<longleftrightarrow> of_int \<lfloor>x\<rfloor> = x"

text \<open>\<open>num\<close>, \<open>int\<close> and \<open>bool\<close>: the typed reads, as the checks they make.\<close>

definition numChk :: "json \<Rightarrow> string \<Rightarrow> string \<Rightarrow> config_error option list" where
  "numChk obj key path = [need (dotted path key) NotFinite (isNum (jget obj key))]"

definition intChk :: "json \<Rightarrow> string \<Rightarrow> string \<Rightarrow> config_error option list" where
  "intChk obj key path = numChk obj key path @
     [need (dotted path key) NotInteger (isInt (numVal (jget obj key)))]"

definition boolChk :: "json \<Rightarrow> string \<Rightarrow> string \<Rightarrow> config_error option list" where
  "boolChk obj key path =
     [need (dotted path key) NotBoolean (case jget obj key of JBool _ \<Rightarrow> True | _ \<Rightarrow> False)]"

fun boolVal :: "json \<Rightarrow> bool" where
  "boolVal (JBool b) = b"
| "boolVal _ = False"

fun strVal :: "json \<Rightarrow> string" where
  "strVal (JStr s) = s"
| "strVal _ = []"

fun arrVal :: "json \<Rightarrow> json list" where
  "arrVal (JArr xs) = xs"
| "arrVal _ = []"

definition numAt :: "json \<Rightarrow> string \<Rightarrow> number" where
  "numAt v k = numVal (jget v k)"

definition tierOf :: "string \<Rightarrow> PricingTier option" where
  "tierOf s = map_of [(''on_demand'', on_demand), (''community'', community), (''spot'', spot),
     (''preemptible'', preemptible), (''reserved'', reserved), (''committed'', committed)] s"

definition isTier :: "json \<Rightarrow> bool" where
  "isTier v = (case v of JStr s \<Rightarrow> tierOf s \<noteq> None | _ \<Rightarrow> False)"

subsection \<open>The checks, section by section\<close>

definition checkTop :: "json \<Rightarrow> config_error option list" where
  "checkTop input =
     [need [] NotAnObject (isPlainObject input)] @
     assertKeys input
       ([''version'', ''screening'', ''aggregation'', ''weights'', ''weightCap'', ''dispersion'',
         ''confidence'', ''gates'', ''stale'', ''jump'', ''panelOverrides''] @
        (if jget input ''movement'' \<noteq> JUndef then [''movement''] else [])) [] @
     [need ''version'' OutOfRange (case jget input ''version'' of
        JStr s \<Rightarrow> s \<noteq> [] \<and> length s \<le> 64 | _ \<Rightarrow> False)]"

definition checkScreening :: "json \<Rightarrow> config_error option list" where
  "checkScreening s =
     [need ''screening'' NotAnObject (isPlainObject s)] @
     assertKeys s [''minProvidersForScreen'', ''madScale'', ''sigmaLimit'', ''madZeroRatioBand''] ''screening'' @
     intChk s ''minProvidersForScreen'' ''screening'' @
     [need ''screening.minProvidersForScreen'' OutOfRange (numAt s ''minProvidersForScreen'' \<ge> 1)] @
     numChk s ''madScale'' ''screening'' @
     [need ''screening.madScale'' OutOfRange (numAt s ''madScale'' > 0)] @
     numChk s ''sigmaLimit'' ''screening'' @
     [need ''screening.sigmaLimit'' OutOfRange (numAt s ''sigmaLimit'' > 0)] @
     numChk s ''madZeroRatioBand'' ''screening'' @
     [need ''screening.madZeroRatioBand'' OutOfRange (numAt s ''madZeroRatioBand'' > 1)]"

definition checkAggregation :: "json \<Rightarrow> config_error option list" where
  "checkAggregation a =
     [need ''aggregation'' NotAnObject (isPlainObject a)] @
     assertKeys a [''minMachinesForBook'', ''minHostsForBook'', ''arithmeticTolerancePerGpu'',
       ''gpuCountMin'', ''gpuCountMax'', ''eligibleTiers''] ''aggregation'' @
     intChk a ''minMachinesForBook'' ''aggregation'' @
     [need ''aggregation.minMachinesForBook'' OutOfRange (numAt a ''minMachinesForBook'' \<ge> 1)] @
     intChk a ''minHostsForBook'' ''aggregation'' @
     [need ''aggregation.minHostsForBook'' OutOfRange (numAt a ''minHostsForBook'' \<ge> 1)] @
     numChk a ''arithmeticTolerancePerGpu'' ''aggregation'' @
     [need ''aggregation.arithmeticTolerancePerGpu'' OutOfRange
        (numAt a ''arithmeticTolerancePerGpu'' \<ge> 0)] @
     intChk a ''gpuCountMin'' ''aggregation'' @ intChk a ''gpuCountMax'' ''aggregation'' @
     [need ''aggregation.gpuCountMin'' OutOfRange (numAt a ''gpuCountMin'' \<ge> 1),
      need ''aggregation.gpuCountMax'' OutOfRange (numAt a ''gpuCountMax'' \<ge> numAt a ''gpuCountMin''),
      need ''aggregation.eligibleTiers'' OutOfRange (arrVal (jget a ''eligibleTiers'') \<noteq> [])] @
     map (\<lambda>t. need ''aggregation.eligibleTiers'' OutOfRange (isTier t)) (arrVal (jget a ''eligibleTiers''))"

definition checkWeights :: "json \<Rightarrow> json \<Rightarrow> config_error option list" where
  "checkWeights input w =
     [need ''weights'' NotAnObject (isPlainObject w)] @
     assertKeys w [''executable'', ''rateCard''] ''weights'' @
     numChk w ''executable'' ''weights'' @ numChk w ''rateCard'' ''weights'' @
     [need ''weights'' OutOfRange (numAt w ''executable'' > 0 \<and> numAt w ''rateCard'' > 0),
      need ''weights'' OutOfRange (numAt w ''executable'' \<ge> numAt w ''rateCard'')] @
     numChk input ''weightCap'' [] @
     [need ''weightCap'' OutOfRange (numAt input ''weightCap'' > 0 \<and> numAt input ''weightCap'' < 1)]"

definition checkDispersion :: "json \<Rightarrow> config_error option list" where
  "checkDispersion d =
     [need ''dispersion'' NotAnObject (isPlainObject d)] @
     assertKeys d [''max'', ''warn''] ''dispersion'' @
     numChk d ''max'' ''dispersion'' @ numChk d ''warn'' ''dispersion'' @
     [need ''dispersion.max'' OutOfRange (numAt d ''max'' > 0),
      need ''dispersion.warn'' OutOfRange (numAt d ''warn'' > 0 \<and> numAt d ''warn'' < numAt d ''max'')]"

definition checkConfidence :: "json \<Rightarrow> config_error option list" where
  "checkConfidence c =
     [need ''confidence'' NotAnObject (isPlainObject c)] @
     assertKeys c [''voteSigmaFloor''] ''confidence'' @
     numChk c ''voteSigmaFloor'' ''confidence'' @
     [need ''confidence.voteSigmaFloor'' OutOfRange
        (numAt c ''voteSigmaFloor'' > 0 \<and> numAt c ''voteSigmaFloor'' < 1)]"

definition gateKeys :: "string list" where
  "gateKeys = [''minProviders'', ''minObservations'', ''maxObservationAgeMs'', ''requireExecutable'']"

definition checkGates :: "json \<Rightarrow> config_error option list" where
  "checkGates g =
     [need ''gates'' NotAnObject (isPlainObject g)] @
     assertKeys g gateKeys ''gates'' @
     intChk g ''minProviders'' ''gates'' @
     [need ''gates.minProviders'' OutOfRange (numAt g ''minProviders'' \<ge> 1)] @
     intChk g ''minObservations'' ''gates'' @
     [need ''gates.minObservations'' OutOfRange (numAt g ''minObservations'' \<ge> 1)] @
     numChk g ''maxObservationAgeMs'' ''gates'' @
     [need ''gates.maxObservationAgeMs'' OutOfRange (numAt g ''maxObservationAgeMs'' > 0)] @
     boolChk g ''requireExecutable'' ''gates''"

definition checkStale :: "json \<Rightarrow> config_error option list" where
  "checkStale s =
     [need ''stale'' NotAnObject (isPlainObject s)] @
     assertKeys s [''carryForwardWindowMs''] ''stale'' @
     numChk s ''carryForwardWindowMs'' ''stale'' @
     [need ''stale.carryForwardWindowMs'' OutOfRange (numAt s ''carryForwardWindowMs'' > 0)]"

definition checkJump :: "json \<Rightarrow> config_error option list" where
  "checkJump j =
     [need ''jump'' NotAnObject (isPlainObject j)] @
     assertKeys j [''maxProviderJumpPct'', ''minCorroborators'', ''minCorroboratorMovePct''] ''jump'' @
     numChk j ''maxProviderJumpPct'' ''jump'' @
     [need ''jump.maxProviderJumpPct'' OutOfRange (numAt j ''maxProviderJumpPct'' > 0)] @
     intChk j ''minCorroborators'' ''jump'' @
     [need ''jump.minCorroborators'' OutOfRange (numAt j ''minCorroborators'' \<ge> 1)] @
     numChk j ''minCorroboratorMovePct'' ''jump'' @
     [need ''jump.minCorroboratorMovePct'' OutOfRange
        (numAt j ''minCorroboratorMovePct'' > 0 \<and>
         numAt j ''minCorroboratorMovePct'' \<le> numAt j ''maxProviderJumpPct'')]"

definition checkMovement :: "json \<Rightarrow> config_error option list" where
  "checkMovement m = (if m = JUndef then [] else
     [need ''movement'' NotAnObject (isPlainObject m)] @
     assertKeys m [''allowancePct'', ''slotMs'', ''reversion'', ''stepPct''] ''movement'' @
     numChk m ''allowancePct'' ''movement'' @
     [need ''movement.allowancePct'' OutOfRange
        (numAt m ''allowancePct'' \<ge> 0 \<and> numAt m ''allowancePct'' \<le> fl (1 / 10))] @
     intChk m ''slotMs'' ''movement'' @
     [need ''movement.slotMs'' OutOfRange (numAt m ''slotMs'' \<ge> 0)] @
     numChk m ''reversion'' ''movement'' @
     [need ''movement.reversion'' OutOfRange (numAt m ''reversion'' \<ge> 0 \<and> numAt m ''reversion'' < 1)] @
     numChk m ''stepPct'' ''movement'' @
     [need ''movement.stepPct'' OutOfRange (numAt m ''stepPct'' > 0 \<and> numAt m ''stepPct'' \<le> 1)])"

subsection \<open>Panel overrides\<close>

text \<open>
  The override checks compare without reading a finite number first: an infinity or a
  \<open>NaN\<close> compares as JavaScript compares it.
\<close>

definition isNumber :: "json \<Rightarrow> bool" where \<comment> \<open>\<open>typeof v === "number"\<close>\<close>
  "isNumber v = (case v of JNum _ \<Rightarrow> True | JNonFin _ \<Rightarrow> True | _ \<Rightarrow> False)"

fun leZero :: "json \<Rightarrow> bool" where \<comment> \<open>\<open>v <= 0\<close>\<close>
  "leZero (JNum x) = (x \<le> 0)"
| "leZero (JNonFin NegInf) = True"
| "leZero _ = False"

fun geNonfinite :: "nonfinite \<Rightarrow> nonfinite \<Rightarrow> bool" where
  "geNonfinite a b = (a \<noteq> NaN \<and> b \<noteq> NaN \<and> (a = PosInf \<or> b = NegInf))"

definition geJson :: "json \<Rightarrow> json \<Rightarrow> bool" where \<comment> \<open>\<open>v >= w\<close> on numbers\<close>
  "geJson v w =
     (case v of
        JNum x \<Rightarrow> (case w of JNum y \<Rightarrow> x \<ge> y | JNonFin b \<Rightarrow> b = NegInf | _ \<Rightarrow> False)
      | JNonFin a \<Rightarrow> (case w of JNum _ \<Rightarrow> a = PosInf | JNonFin b \<Rightarrow> geNonfinite a b | _ \<Rightarrow> False)
      | _ \<Rightarrow> False)"

definition isIntegerGe1 :: "json \<Rightarrow> bool" where
  "isIntegerGe1 v = (case v of JNum x \<Rightarrow> isInt x \<and> x \<ge> 1 | _ \<Rightarrow> False)"

definition checkSlugs :: "string \<Rightarrow> json \<Rightarrow> config_error option list" where
  "checkSlugs path slugs = (if slugs = JUndef then [] else
     [need path OutOfRange (arrVal slugs \<noteq> [])] @
     map (\<lambda>v. need path OutOfRange (case v of JStr t \<Rightarrow> t \<noteq> [] \<and> length t \<le> 64 | _ \<Rightarrow> False))
       (arrVal slugs) @
     [need path OutOfRange (distinct (arrVal slugs))])"

definition checkOverrideGates :: "string \<Rightarrow> json \<Rightarrow> config_error option list" where
  "checkOverrideGates path g = (if g = JUndef then [] else
     [need path NotAnObject (isPlainObject g \<and> objFields g \<noteq> [])] @
     map (\<lambda>k. need (dotted path k) UnknownKey (k \<in> set gateKeys)) (map fst (objFields g)) @
     [need (dotted path ''minProviders'') OutOfRange
        (jget g ''minProviders'' = JUndef \<or> isIntegerGe1 (jget g ''minProviders'')),
      need (dotted path ''minObservations'') OutOfRange
        (jget g ''minObservations'' = JUndef \<or> isIntegerGe1 (jget g ''minObservations'')),
      need (dotted path ''maxObservationAgeMs'') OutOfRange
        (jget g ''maxObservationAgeMs'' = JUndef \<or>
         isNumber (jget g ''maxObservationAgeMs'') \<and> \<not> leZero (jget g ''maxObservationAgeMs'')),
      need (dotted path ''requireExecutable'') NotBoolean
        (case jget g ''requireExecutable'' of JUndef \<Rightarrow> True | JBool _ \<Rightarrow> True | _ \<Rightarrow> False)])"

definition nullish :: "json \<Rightarrow> json \<Rightarrow> json" where \<comment> \<open>\<open>v ?? d\<close>\<close>
  "nullish v d = (case v of JUndef \<Rightarrow> d | JNull \<Rightarrow> d | _ \<Rightarrow> v)"

definition checkOverrideDispersion :: "json \<Rightarrow> string \<Rightarrow> json \<Rightarrow> config_error option list" where
  "checkOverrideDispersion global path d = (if d = JUndef then [] else
     let oMax = nullish (jget d ''max'') (jget global ''max'');
         oWarn = nullish (jget d ''warn'') (jget global ''warn'')
     in [need path NotAnObject (isPlainObject d \<and> objFields d \<noteq> [])] @
        map (\<lambda>k. need (dotted path k) UnknownKey (k \<in> {''max'', ''warn''})) (map fst (objFields d)) @
        [need (dotted path ''max'') OutOfRange (isNumber oMax \<and> \<not> leZero oMax),
         need path OutOfRange (isNumber oWarn \<and> \<not> leZero oWarn \<and> \<not> geJson oWarn oMax)])"

definition checkOverride :: "json \<Rightarrow> string \<times> json \<Rightarrow> config_error option list" where
  "checkOverride global entry =
     (let path = dotted ''panelOverrides'' (fst entry); raw = snd entry in
      [need path UnknownKey (fst entry \<in> set (map panel_id SETTLEMENT_PANELS)),
       need path NotAnObject (isPlainObject raw),
       need path Missing (objFields raw \<noteq> [])] @
      map (\<lambda>k. need (dotted path k) UnknownKey (k \<in> {''additionalProviders'', ''gates'', ''dispersion''}))
        (map fst (objFields raw)) @
      checkSlugs (dotted path ''additionalProviders'') (jget raw ''additionalProviders'') @
      checkOverrideGates (dotted path ''gates'') (jget raw ''gates'') @
      checkOverrideDispersion global (dotted path ''dispersion'') (jget raw ''dispersion''))"

definition checkOverrides :: "json \<Rightarrow> json \<Rightarrow> config_error option list" where
  "checkOverrides global v =
     [need ''panelOverrides'' NotAnObject (isPlainObject v)] @
     concat (map (checkOverride global) (objFields v))"

subsection \<open>The validator\<close>

definition configChecks :: "json \<Rightarrow> config_error option list" where
  "configChecks input =
     checkTop input @ checkScreening (jget input ''screening'') @
     checkAggregation (jget input ''aggregation'') @ checkWeights input (jget input ''weights'') @
     checkDispersion (jget input ''dispersion'') @ checkConfidence (jget input ''confidence'') @
     checkGates (jget input ''gates'') @ checkStale (jget input ''stale'') @
     checkJump (jget input ''jump'') @ checkMovement (jget input ''movement'') @
     checkOverrides (jget input ''dispersion'') (jget input ''panelOverrides'')"

fun firstFail :: "'e option list \<Rightarrow> 'e option" where
  "firstFail [] = None"
| "firstFail (None # cs) = firstFail cs"
| "firstFail (Some e # cs) = Some e"

text \<open>On success the source returns its input, typed.\<close>

definition validateMethodologyConfig :: "json \<Rightarrow> config_error + json" where
  "validateMethodologyConfig input =
     (case firstFail (configChecks input) of Some e \<Rightarrow> Inl e | None \<Rightarrow> Inr input)"

lemma firstFail_None: "firstFail cs = None \<longleftrightarrow> (\<forall>c \<in> set cs. c = None)"
  by (induction cs rule: firstFail.induct) auto

lemma need_None [simp]: "need p w b = None \<longleftrightarrow> b"
  by (simp add: need_def)

lemma firstFail_append [simp]: "firstFail (xs @ ys) = None \<longleftrightarrow> firstFail xs = None \<and> firstFail ys = None"
  by (induction xs rule: firstFail.induct) auto

lemma firstFail_Cons [simp]: "firstFail (c # cs) = None \<longleftrightarrow> c = None \<and> firstFail cs = None"
  by (cases c) auto

lemma firstFail_map [simp]: "firstFail (map f xs) = None \<longleftrightarrow> (\<forall>x \<in> set xs. f x = None)"
  by (auto simp: firstFail_None)

subsection \<open>Reading a validated configuration\<close>

definition optOf :: "(json \<Rightarrow> 'a) \<Rightarrow> json \<Rightarrow> 'a option" where
  "optOf f v = (if v = JUndef then None else Some (f v))"

definition intAt :: "json \<Rightarrow> string \<Rightarrow> int" where
  "intAt v k = \<lfloor>numAt v k\<rfloor>"

definition readOverride :: "json \<Rightarrow> PanelOverride" where
  "readOverride v =
     \<lparr>additionalProviders = optOf (\<lambda>s. map strVal (arrVal s)) (jget v ''additionalProviders''),
      po_gates = optOf (\<lambda>g. \<lparr>pg_minProviders = optOf (\<lambda>x. \<lfloor>numVal x\<rfloor>) (jget g ''minProviders''),
          pg_minObservations = optOf (\<lambda>x. \<lfloor>numVal x\<rfloor>) (jget g ''minObservations''),
          pg_maxObservationAgeMs = optOf numVal (jget g ''maxObservationAgeMs''),
          pg_requireExecutable = optOf boolVal (jget g ''requireExecutable'')\<rparr>) (jget v ''gates''),
      po_dispersion = optOf (\<lambda>d. \<lparr>pd_max = optOf numVal (jget d ''max''),
          pd_warn = optOf numVal (jget d ''warn'')\<rparr>) (jget v ''dispersion'')\<rparr>"

definition readConfig :: "json \<Rightarrow> MethodologyConfig" where
  "readConfig v =
    (let s = jget v ''screening''; a = jget v ''aggregation''; w = jget v ''weights'';
         d = jget v ''dispersion''; g = jget v ''gates''; j = jget v ''jump'' in
     \<lparr>version = strVal (jget v ''version''),
      screening = \<lparr>minProvidersForScreen = intAt s ''minProvidersForScreen'',
         madScale = numAt s ''madScale'', sigmaLimit = numAt s ''sigmaLimit'',
         madZeroRatioBand = numAt s ''madZeroRatioBand''\<rparr>,
      aggregation = \<lparr>minMachinesForBook = intAt a ''minMachinesForBook'',
         minHostsForBook = intAt a ''minHostsForBook'',
         arithmeticTolerancePerGpu = numAt a ''arithmeticTolerancePerGpu'',
         gpuCountMin = intAt a ''gpuCountMin'', gpuCountMax = intAt a ''gpuCountMax'',
         eligibleTiers = List.map_filter (tierOf \<circ> strVal) (arrVal (jget a ''eligibleTiers''))\<rparr>,
      weights = \<lparr>w_executable = numAt w ''executable'', w_rateCard = numAt w ''rateCard''\<rparr>,
      weightCap = numAt v ''weightCap'',
      dispersion = \<lparr>disp_max = numAt d ''max'', disp_warn = numAt d ''warn''\<rparr>,
      voteSigmaFloor = numAt (jget v ''confidence'') ''voteSigmaFloor'',
      gates = \<lparr>minProviders = intAt g ''minProviders'', minObservations = intAt g ''minObservations'',
         maxObservationAgeMs = numAt g ''maxObservationAgeMs'',
         requireExecutable = boolVal (jget g ''requireExecutable'')\<rparr>,
      carryForwardWindowMs = numAt (jget v ''stale'') ''carryForwardWindowMs'',
      jump = \<lparr>maxProviderJumpPct = numAt j ''maxProviderJumpPct'',
         minCorroborators = intAt j ''minCorroborators'',
         minCorroboratorMovePct = numAt j ''minCorroboratorMovePct''\<rparr>,
      movement = optOf (\<lambda>m. \<lparr>allowancePct = numAt m ''allowancePct'', slotMs = intAt m ''slotMs'',
         reversion = numAt m ''reversion'', stepPct = numAt m ''stepPct''\<rparr>) (jget v ''movement''),
      panelOverrides = map (\<lambda>(k, o'). (k, readOverride o')) (objFields (jget v ''panelOverrides''))\<rparr>)"

subsection \<open>What a valid configuration promises\<close>

definition screening_ok :: "ScreeningConfig \<Rightarrow> bool" where
  "screening_ok s \<longleftrightarrow> 1 \<le> minProvidersForScreen s \<and> 0 < madScale s \<and> 0 < sigmaLimit s \<and>
     1 < madZeroRatioBand s"

definition aggregation_ok :: "AggregationConfig \<Rightarrow> bool" where
  "aggregation_ok a \<longleftrightarrow> 1 \<le> minMachinesForBook a \<and> 1 \<le> minHostsForBook a \<and>
     0 \<le> arithmeticTolerancePerGpu a \<and> 1 \<le> gpuCountMin a \<and> gpuCountMin a \<le> gpuCountMax a \<and>
     eligibleTiers a \<noteq> []"

definition dispersion_ok :: "DispersionConfig \<Rightarrow> bool" where
  "dispersion_ok d \<longleftrightarrow> 0 < disp_max d \<and> 0 < disp_warn d \<and> disp_warn d < disp_max d"

definition gates_ok :: "GatesConfig \<Rightarrow> bool" where
  "gates_ok g \<longleftrightarrow> 1 \<le> minProviders g \<and> 1 \<le> minObservations g \<and> 0 < maxObservationAgeMs g"

definition jump_ok :: "JumpConfig \<Rightarrow> bool" where
  "jump_ok j \<longleftrightarrow> 0 < maxProviderJumpPct j \<and> 1 \<le> minCorroborators j \<and>
     0 < minCorroboratorMovePct j \<and> minCorroboratorMovePct j \<le> maxProviderJumpPct j"

definition movement_ok :: "MovementConfig option \<Rightarrow> bool" where
  "movement_ok m \<longleftrightarrow> (case m of None \<Rightarrow> True | Some m \<Rightarrow>
     0 \<le> allowancePct m \<and> allowancePct m \<le> fl (1 / 10) \<and> 0 \<le> slotMs m \<and>
     0 \<le> reversion m \<and> reversion m < 1 \<and> 0 < stepPct m \<and> stepPct m \<le> 1)"

definition global_ok :: "MethodologyConfig \<Rightarrow> bool" where
  "global_ok c \<longleftrightarrow> version c \<noteq> [] \<and> length (version c) \<le> 64 \<and>
     screening_ok (screening c) \<and> aggregation_ok (aggregation c) \<and>
     0 < w_rateCard (weights c) \<and> w_rateCard (weights c) \<le> w_executable (weights c) \<and>
     0 < weightCap c \<and> weightCap c < 1 \<and> dispersion_ok (dispersion c) \<and>
     0 < voteSigmaFloor c \<and> voteSigmaFloor c < 1 \<and> gates_ok (gates c) \<and>
     0 < carryForwardWindowMs c \<and> jump_ok (jump c) \<and> movement_ok (movement c)"

lemma isInt_floor: "isInt x \<Longrightarrow> of_int \<lfloor>x\<rfloor> = x"
  by (simp add: isInt_def)

lemma floor_ge_1: "1 \<le> x \<Longrightarrow> 1 \<le> \<lfloor>x\<rfloor>" for x :: rat
  by simp

lemmas chk_simps = intChk_def numChk_def boolChk_def numAt_def intAt_def

lemma checkScreening_sound:
  "firstFail (checkScreening s) = None \<Longrightarrow>
   screening_ok \<lparr>minProvidersForScreen = intAt s ''minProvidersForScreen'',
     madScale = numAt s ''madScale'', sigmaLimit = numAt s ''sigmaLimit'',
     madZeroRatioBand = numAt s ''madZeroRatioBand''\<rparr>"
  by (auto simp: checkScreening_def screening_ok_def chk_simps)

lemma checkJump_sound:
  "firstFail (checkJump j) = None \<Longrightarrow>
   jump_ok \<lparr>maxProviderJumpPct = numAt j ''maxProviderJumpPct'',
         minCorroborators = intAt j ''minCorroborators'',
         minCorroboratorMovePct = numAt j ''minCorroboratorMovePct''\<rparr>"
  by (auto simp: checkJump_def jump_ok_def chk_simps)

lemma checkGates_sound:
  "firstFail (checkGates g) = None \<Longrightarrow>
   gates_ok \<lparr>minProviders = intAt g ''minProviders'', minObservations = intAt g ''minObservations'',
         maxObservationAgeMs = numAt g ''maxObservationAgeMs'', requireExecutable = b\<rparr>"
  by (auto simp: checkGates_def gates_ok_def chk_simps)

lemma isTier_tierOf: "isTier t \<Longrightarrow> \<exists>p. tierOf (strVal t) = Some p"
  by (auto simp: isTier_def split: json.splits)

lemma map_filter_nonempty:
  "xs \<noteq> [] \<Longrightarrow> \<forall>x \<in> set xs. \<exists>y. f x = Some y \<Longrightarrow> List.map_filter f xs \<noteq> []"
  by (cases xs) (auto simp: List.map_filter_simps)

lemma checkAggregation_sound:
  assumes "firstFail (checkAggregation a) = None"
  shows "aggregation_ok \<lparr>minMachinesForBook = intAt a ''minMachinesForBook'',
         minHostsForBook = intAt a ''minHostsForBook'',
         arithmeticTolerancePerGpu = numAt a ''arithmeticTolerancePerGpu'',
         gpuCountMin = intAt a ''gpuCountMin'', gpuCountMax = intAt a ''gpuCountMax'',
         eligibleTiers = List.map_filter (tierOf \<circ> strVal) (arrVal (jget a ''eligibleTiers''))\<rparr>"
proof -
  let ?ts = "arrVal (jget a ''eligibleTiers'')"
  have ts: "?ts \<noteq> []" "\<forall>t \<in> set ?ts. isTier t"
    using assms by (auto simp: checkAggregation_def chk_simps)
  then have "List.map_filter (tierOf \<circ> strVal) ?ts \<noteq> []"
    by (intro map_filter_nonempty) (auto dest: isTier_tierOf)
  moreover have "numAt a ''gpuCountMin'' \<le> numAt a ''gpuCountMax''"
      "1 \<le> numAt a ''gpuCountMin''" "1 \<le> numAt a ''minMachinesForBook''"
      "1 \<le> numAt a ''minHostsForBook''" "0 \<le> numAt a ''arithmeticTolerancePerGpu''"
    using assms by (auto simp: checkAggregation_def chk_simps)
  ultimately show ?thesis
    by (simp add: aggregation_ok_def intAt_def floor_mono)
qed

lemma checkMovement_sound:
  "firstFail (checkMovement m) = None \<Longrightarrow>
   movement_ok (optOf (\<lambda>m. \<lparr>allowancePct = numAt m ''allowancePct'', slotMs = intAt m ''slotMs'',
         reversion = numAt m ''reversion'', stepPct = numAt m ''stepPct''\<rparr>) m)"
  by (auto simp: checkMovement_def movement_ok_def optOf_def chk_simps split: if_splits)

lemma validate_sections:
  assumes "validateMethodologyConfig input = Inr v"
  shows "v = input" "firstFail (checkTop input) = None"
    "firstFail (checkScreening (jget input ''screening'')) = None"
    "firstFail (checkAggregation (jget input ''aggregation'')) = None"
    "firstFail (checkWeights input (jget input ''weights'')) = None"
    "firstFail (checkDispersion (jget input ''dispersion'')) = None"
    "firstFail (checkConfidence (jget input ''confidence'')) = None"
    "firstFail (checkGates (jget input ''gates'')) = None"
    "firstFail (checkStale (jget input ''stale'')) = None"
    "firstFail (checkJump (jget input ''jump'')) = None"
    "firstFail (checkMovement (jget input ''movement'')) = None"
    "firstFail (checkOverrides (jget input ''dispersion'') (jget input ''panelOverrides'')) = None"
  using assms
  by (auto simp: validateMethodologyConfig_def configChecks_def split: option.splits)

subsection \<open>The overrides\<close>

definition numericOrAbsent :: "json \<Rightarrow> bool" where
  "numericOrAbsent v = (case v of JUndef \<Rightarrow> True | JNum _ \<Rightarrow> True | _ \<Rightarrow> False)"

text \<open>The thresholds an override patches are finite numbers: neither infinite nor \<open>null\<close>.\<close>

definition numericOverrides :: "json \<Rightarrow> bool" where
  "numericOverrides v = list_all (\<lambda>e.
     numericOrAbsent (jget (jget (snd e) ''gates'') ''maxObservationAgeMs'') \<and>
     numericOrAbsent (jget (jget (snd e) ''dispersion'') ''max'') \<and>
     numericOrAbsent (jget (jget (snd e) ''dispersion'') ''warn''))
   (objFields (jget v ''panelOverrides''))"

lemma optOf_Some_iff: "optOf f v = Some x \<longleftrightarrow> v \<noteq> JUndef \<and> x = f v"
  by (auto simp: optOf_def)

lemma optOf_cases: "(case optOf f v of None \<Rightarrow> d | Some x \<Rightarrow> x) = (if v = JUndef then d else f v)"
  by (simp add: optOf_def)

lemma patchGates_ok:
  assumes "gates_ok g" "firstFail (checkOverrideGates path j) = None"
    and "numericOrAbsent (jget j ''maxObservationAgeMs'')" "j \<noteq> JUndef"
  shows "gates_ok (patchGates g \<lparr>pg_minProviders = optOf (\<lambda>x. \<lfloor>numVal x\<rfloor>) (jget j ''minProviders''),
          pg_minObservations = optOf (\<lambda>x. \<lfloor>numVal x\<rfloor>) (jget j ''minObservations''),
          pg_maxObservationAgeMs = optOf numVal (jget j ''maxObservationAgeMs''),
          pg_requireExecutable = optOf boolVal (jget j ''requireExecutable'')\<rparr>)"
  using assms
  by (auto simp: checkOverrideGates_def gates_ok_def patchGates_def optOf_cases isIntegerGe1_def
      numericOrAbsent_def isNumber_def split: json.splits)

lemma patchDispersion_ok:
  assumes "dispersion_ok \<lparr>disp_max = numAt global ''max'', disp_warn = numAt global ''warn''\<rparr>"
    and "isNum (jget global ''max'')" "isNum (jget global ''warn'')"
    and "firstFail (checkOverrideDispersion global path j) = None" "j \<noteq> JUndef"
    and "numericOrAbsent (jget j ''max'')" "numericOrAbsent (jget j ''warn'')"
  shows "dispersion_ok (patchDispersion \<lparr>disp_max = numAt global ''max'', disp_warn = numAt global ''warn''\<rparr>
     \<lparr>pd_max = optOf numVal (jget j ''max''), pd_warn = optOf numVal (jget j ''warn'')\<rparr>)"
  using assms
  by (auto simp: checkOverrideDispersion_def Let_def dispersion_ok_def patchDispersion_def optOf_cases
      numericOrAbsent_def nullish_def isNumber_def geJson_def isNum_def numAt_def not_le
      split: json.splits if_splits)

lemma map_of_map_snd: "map_of (map (\<lambda>(k, v). (k, f v)) xs) k = map_option f (map_of xs k)"
  by (induction xs) auto

lemma checkOverrides_entry:
  assumes "firstFail (checkOverrides global v) = None" "(k, raw) \<in> set (objFields v)"
  shows "firstFail (checkOverrideGates (dotted (dotted ''panelOverrides'' k) ''gates'') (jget raw ''gates'')) = None"
    and "firstFail (checkOverrideDispersion global (dotted (dotted ''panelOverrides'' k) ''dispersion'')
           (jget raw ''dispersion'')) = None"
proof -
  have "\<forall>c \<in> set (checkOverride global (k, raw)). c = None"
    using assms by (auto simp: checkOverrides_def firstFail_None)
  then have "firstFail (checkOverride global (k, raw)) = None" by (simp add: firstFail_None)
  then show "firstFail (checkOverrideGates (dotted (dotted ''panelOverrides'' k) ''gates'') (jget raw ''gates'')) = None"
    and "firstFail (checkOverrideDispersion global (dotted (dotted ''panelOverrides'' k) ''dispersion'')
           (jget raw ''dispersion'')) = None"
    by (simp_all add: checkOverride_def Let_def)
qed

lemma effectiveConfigFor_frame:
  "version (effectiveConfigFor c p) = version c \<and> screening (effectiveConfigFor c p) = screening c \<and>
   aggregation (effectiveConfigFor c p) = aggregation c \<and> weights (effectiveConfigFor c p) = weights c \<and>
   weightCap (effectiveConfigFor c p) = weightCap c \<and>
   voteSigmaFloor (effectiveConfigFor c p) = voteSigmaFloor c \<and>
   carryForwardWindowMs (effectiveConfigFor c p) = carryForwardWindowMs c \<and>
   jump (effectiveConfigFor c p) = jump c \<and> movement (effectiveConfigFor c p) = movement c \<and>
   panelOverrides (effectiveConfigFor c p) = panelOverrides c"
  by (simp add: effectiveConfigFor_def split: option.split)

subsection \<open>Properties\<close>

lemma validated_ok:
  assumes "validateMethodologyConfig input = Inr v"
  shows "global_ok (readConfig v)"
proof -
  note sec = validate_sections [OF assms]
  have top: "version (readConfig v) \<noteq> [] \<and> length (version (readConfig v)) \<le> 64"
    using sec(1,2) by (auto simp: checkTop_def readConfig_def Let_def chk_simps split: json.splits)
  have w: "0 < numAt (jget v ''weights'') ''rateCard''"
      "numAt (jget v ''weights'') ''rateCard'' \<le> numAt (jget v ''weights'') ''executable''"
      "0 < numAt v ''weightCap''" "numAt v ''weightCap'' < 1"
    using sec(1,5) by (auto simp: checkWeights_def chk_simps)
  have d: "dispersion_ok \<lparr>disp_max = numAt (jget v ''dispersion'') ''max'',
      disp_warn = numAt (jget v ''dispersion'') ''warn''\<rparr>"
    using sec(1,6) by (auto simp: checkDispersion_def dispersion_ok_def chk_simps)
  have c: "0 < numAt (jget v ''confidence'') ''voteSigmaFloor''"
      "numAt (jget v ''confidence'') ''voteSigmaFloor'' < 1"
      "0 < numAt (jget v ''stale'') ''carryForwardWindowMs''"
    using sec(1,7,9) by (auto simp: checkConfidence_def checkStale_def chk_simps)
  show ?thesis
    using top w d c checkScreening_sound [OF sec(3)] checkAggregation_sound [OF sec(4)]
      checkGates_sound [OF sec(8)] checkJump_sound [OF sec(10)] checkMovement_sound [OF sec(11)] sec(1)
    by (simp add: global_ok_def readConfig_def Let_def)
qed

text \<open>The effective configuration of any panel keeps the ranges of a validated one, provided the
  patched thresholds are finite numbers: a panel override cannot produce a gate or a dispersion
  pair out of range.\<close>
theorem effective_config_in_range:
  assumes "validateMethodologyConfig input = Inr v" "numericOverrides v"
  shows "global_ok (effectiveConfigFor (readConfig v) panelId)"
proof (cases "map_of (objFields (jget v ''panelOverrides'')) panelId")
  case None
  then have "effectiveConfigFor (readConfig v) panelId = readConfig v"
    by (simp add: effectiveConfigFor_def readConfig_def Let_def map_of_map_snd)
  then show ?thesis using validated_ok [OF assms(1)] by simp
next
  case (Some raw)
  note sec = validate_sections [OF assms(1)]
  have raw: "(panelId, raw) \<in> set (objFields (jget v ''panelOverrides''))"
    using Some by (rule map_of_SomeD)
  note chk = checkOverrides_entry [OF sec(12) [folded sec(1)] raw]
  have num: "numericOrAbsent (jget (jget raw ''gates'') ''maxObservationAgeMs'')"
      "numericOrAbsent (jget (jget raw ''dispersion'') ''max'')"
      "numericOrAbsent (jget (jget raw ''dispersion'') ''warn'')"
    using assms(2) raw by (auto simp: numericOverrides_def list_all_iff)
  have g: "global_ok (readConfig v)" by (rule validated_ok) (rule assms)
  have dnum: "isNum (jget (jget v ''dispersion'') ''max'')" "isNum (jget (jget v ''dispersion'') ''warn'')"
    using sec(1,6) by (auto simp: checkDispersion_def chk_simps)
  have go: "gates_ok (gates (readConfig v))" "dispersion_ok (dispersion (readConfig v))"
    using g by (simp_all add: global_ok_def)
  have disp: "dispersion (readConfig v) = \<lparr>disp_max = numAt (jget v ''dispersion'') ''max'',
      disp_warn = numAt (jget v ''dispersion'') ''warn''\<rparr>"
    by (simp add: readConfig_def Let_def)
  have "gates_ok (gates (effectiveConfigFor (readConfig v) panelId))"
  proof (cases "jget raw ''gates'' = JUndef")
    case True
    then show ?thesis using go Some
      by (simp add: effectiveConfigFor_def readConfig_def Let_def map_of_map_snd readOverride_def optOf_def)
  next
    case False
    from patchGates_ok [OF go(1) chk(1) num(1) this] show ?thesis using Some False
      by (simp add: effectiveConfigFor_def readConfig_def Let_def map_of_map_snd readOverride_def optOf_def)
  qed
  moreover have "dispersion_ok (dispersion (effectiveConfigFor (readConfig v) panelId))"
  proof (cases "jget raw ''dispersion'' = JUndef")
    case True
    then show ?thesis using go Some
      by (simp add: effectiveConfigFor_def readConfig_def Let_def map_of_map_snd readOverride_def optOf_def)
  next
    case False
    from patchDispersion_ok [OF go(2) [unfolded disp] dnum chk(2) this num(2,3)]
    show ?thesis using Some False
      by (simp add: effectiveConfigFor_def readConfig_def Let_def map_of_map_snd readOverride_def optOf_def)
  qed
  ultimately show ?thesis using g effectiveConfigFor_frame [of "readConfig v" panelId]
    by (simp add: global_ok_def)
qed

text \<open>The hypothesis of the previous property is needed: an override with an infinite freshness
  window, or a \<open>null\<close> dispersion threshold, passes its checks, while the global section refuses
  every freshness window that is not a finite number.\<close>
theorem override_checks_admit_nonfinite:
  "firstFail (checkOverride global (''L40S_PANEL_V1'',
      JObj [(''gates'', JObj [(''maxObservationAgeMs'', JNonFin PosInf)])])) = None \<and>
   firstFail (checkOverride (JObj [(''max'', JNum 1), (''warn'', JNum (1 / 2))]) (''L40S_PANEL_V1'',
      JObj [(''dispersion'', JObj [(''max'', JNull)])])) = None \<and>
   firstFail (checkGates (JObj ((''maxObservationAgeMs'', JNonFin PosInf) # gs))) \<noteq> None"
proof -
  let ?g = "JObj ((''maxObservationAgeMs'', JNonFin PosInf) # gs)"
  have "jget ?g ''maxObservationAgeMs'' = JNonFin PosInf"
    by (simp add: jget_def)
  then have "firstFail (checkGates ?g) \<noteq> None"
    by (auto simp: checkGates_def chk_simps isNum_def)
  then show ?thesis
    by (simp add: checkOverride_def checkOverrideGates_def checkOverrideDispersion_def checkSlugs_def
        Let_def jget_def SETTLEMENT_PANELS_def gateKeys_def isPlainObject_def isNumber_def nullish_def geJson_def)
qed

subsection \<open>The default configuration\<close>

text \<open>The default configuration as the untrusted value it is stored as.\<close>

definition defaultJson :: json where
  "defaultJson = JObj
    [(''version'', JStr ''0.5.1''),
     (''screening'', JObj [(''minProvidersForScreen'', JNum 4), (''madScale'', JNum (fl (14826 / 10000))),
        (''sigmaLimit'', JNum 3), (''madZeroRatioBand'', JNum 3)]),
     (''aggregation'', JObj [(''minMachinesForBook'', JNum 5), (''minHostsForBook'', JNum 3),
        (''arithmeticTolerancePerGpu'', JNum (fl (5 / 1000))), (''gpuCountMin'', JNum 1),
        (''gpuCountMax'', JNum 16), (''eligibleTiers'', JArr [JStr ''on_demand''])]),
     (''weights'', JObj [(''executable'', JNum 1), (''rateCard'', JNum (fl (6 / 10)))]),
     (''weightCap'', JNum (fl (35 / 100))),
     (''dispersion'', JObj [(''max'', JNum (fl (45 / 100))), (''warn'', JNum (fl (25 / 100)))]),
     (''confidence'', JObj [(''voteSigmaFloor'', JNum (fl (3 / 100)))]),
     (''gates'', JObj [(''minProviders'', JNum 4), (''minObservations'', JNum 3),
        (''maxObservationAgeMs'', JNum 1800000), (''requireExecutable'', JBool True)]),
     (''stale'', JObj [(''carryForwardWindowMs'', JNum 86400000)]),
     (''jump'', JObj [(''maxProviderJumpPct'', JNum (fl (25 / 100))), (''minCorroborators'', JNum 2),
        (''minCorroboratorMovePct'', JNum (fl (10 / 100)))]),
     (''movement'', JObj [(''allowancePct'', JNum (fl (5 / 10000))), (''slotMs'', JNum 30000),
        (''reversion'', JNum (fl (7 / 10))), (''stepPct'', JNum (fl (4 / 10)))]),
     (''panelOverrides'', JObj
       [(''H100_PANEL_V1'', JObj [(''gates'', JObj [(''minProviders'', JNum 3), (''requireExecutable'', JBool True)])]),
        (''L40S_PANEL_V1'', JObj
          [(''additionalProviders'', JArr [JStr ''datacrunch'', JStr ''scaleway'', JStr ''coreweave'']),
           (''gates'', JObj [(''minProviders'', JNum 3), (''requireExecutable'', JBool False)])]),
        (''RTX_4090_PANEL_V1'', JObj
          [(''additionalProviders'', JArr [JStr ''akash'']),
           (''gates'', JObj [(''minProviders'', JNum 3), (''requireExecutable'', JBool True)])])])]"

lemma default_validates: "validateMethodologyConfig defaultJson = Inr defaultJson"
proof -
  have "firstFail (configChecks defaultJson) = None" by code_simp
  then show ?thesis by (simp add: validateMethodologyConfig_def)
qed

lemma default_reads: "readConfig defaultJson = DEFAULT_METHODOLOGY_CONFIG"
  by code_simp

lemma default_numeric: "numericOverrides defaultJson"
  by code_simp

text \<open>The shipped default configuration, stored as JSON, passes its own validator and reads back
  as the default.\<close>
theorem default_config_roundtrip:
  "map_sum id readConfig (validateMethodologyConfig defaultJson) = Inr DEFAULT_METHODOLOGY_CONFIG"
  by (simp add: default_validates default_reads)

theorem effective_config_in_range_witness:
  "global_ok (effectiveConfigFor DEFAULT_METHODOLOGY_CONFIG ''L40S_PANEL_V1'')"
  using effective_config_in_range [OF default_validates default_numeric, of "''L40S_PANEL_V1''"]
  by (simp add: default_reads)

end
