(* ===== verification/Weights.thy ===== *)
theory Weights
  imports JsNumber
begin

text \<open>
  packages/pricing-engine/src/weights.ts: the iterative weight cap. The loop of at
  most 60 passes is a recursion on the remaining passes; \<open>Math.max\<close> of an
  empty list never happens, as an empty total stops the loop first.
\<close>

record weight_item =
  wi_providerId :: string
  wi_weight :: number

record capped_weight =
  cw_providerId :: string
  weightBeforeCap :: number
  weightAfterCap :: number

definition EPSILON :: number where \<comment> \<open>\<open>Number.EPSILON\<close>\<close>
  "EPSILON = 1 / 2 ^ 52"

fun indexOf :: "number list \<Rightarrow> number \<Rightarrow> nat" where
  "indexOf [] x = 0"
| "indexOf (y # ys) x = (if y = x then 0 else Suc (indexOf ys x))"

definition maxOf :: "number list \<Rightarrow> number" where \<comment> \<open>\<open>Math.max(...xs)\<close>, \<open>xs\<close> not empty\<close>
  "maxOf xs = fold max (tl xs) (hd xs)"

definition withinCap :: "number \<Rightarrow> number list \<Rightarrow> bool" where
  "withinCap cap weights =
     (let total = fsum weights; maxW = maxOf weights
      in maxW \<le> fadd (fmul cap total) (fmul EPSILON (max 1 total)))"

definition recap :: "number \<Rightarrow> number list \<Rightarrow> number list" where
  "recap cap weights =
     (let total = fsum weights; maxW = maxOf weights
      in weights[indexOf weights maxW := fdiv (fmul cap (fsub total maxW)) (fsub 1 cap)])"

fun capLoop :: "nat \<Rightarrow> number \<Rightarrow> number list \<Rightarrow> number list" where
  "capLoop 0 cap weights = weights"
| "capLoop (Suc n) cap weights =
     (if fsum weights \<le> 0 then weights
      else if withinCap cap weights then weights
      else capLoop n cap (recap cap weights))"

definition improvedShare :: "number list \<Rightarrow> number list \<Rightarrow> bool" where
  "improvedShare base weights \<longleftrightarrow>
     fsum weights > 0 \<and> fsum base > 0 \<and>
     fdiv (maxOf weights) (fsum weights) < fsub (fdiv (maxOf base) (fsum base)) (fl (1 / 10 ^ 9))"

definition capWeights :: "weight_item list \<Rightarrow> number \<Rightarrow> capped_weight list" where
  "capWeights items cap =
     (let base = map wi_weight items;
          weights = capLoop 60 cap base;
          out = (if improvedShare base weights then weights else base)
      in map2 (\<lambda>item w. \<lparr>cw_providerId = wi_providerId item,
                         weightBeforeCap = wi_weight item, weightAfterCap = w\<rparr>) items out)"

subsection \<open>Shape and sign\<close>

lemma length_recap [simp]: "length (recap cap ws) = length ws"
  by (simp add: recap_def Let_def)

lemma length_capLoop [simp]: "length (capLoop n cap ws) = length ws"
  by (induction n cap ws rule: capLoop.induct) auto

lemma maxOf_ge: "x \<in> set xs \<Longrightarrow> x \<le> maxOf xs"
proof (cases xs)
  case (Cons y ys)
  assume "x \<in> set xs"
  moreover have "fold max ys y = Max (set (y # ys))"
    by (rule Max.set_eq_fold [symmetric])
  ultimately show ?thesis using Cons by (simp add: maxOf_def)
qed simp

lemma maxOf_mem: "xs \<noteq> [] \<Longrightarrow> maxOf xs \<in> set xs"
proof -
  assume "xs \<noteq> []"
  then obtain y ys where xs: "xs = y # ys" by (cases xs) auto
  have "fold max ys y = Max (set (y # ys))" by (rule Max.set_eq_fold [symmetric])
  also have "\<dots> \<in> set (y # ys)" by (intro Max_in) auto
  finally show ?thesis by (simp add: maxOf_def xs)
qed

lemma indexOf_mem: "x \<in> set xs \<Longrightarrow> indexOf xs x < length xs \<and> xs ! indexOf xs x = x"
  by (induction xs) auto

text \<open>
  With rounding a sum of non-negative terms never falls below any of them, because
  each term is a double.
\<close>

lemma foldl_fadd_ge:
  assumes "fl c = c" "\<And>x. x \<in> set xs \<Longrightarrow> 0 \<le> x"
  shows "c \<le> foldl fadd c xs"
  using assms
proof (induction xs arbitrary: c)
  case Nil
  then show ?case by simp
next
  case (Cons a xs)
  have "c \<le> fadd c a"
    using Cons.prems by (auto simp: fadd_def intro: binary64.rnd_ge)
  also have "\<dots> \<le> foldl fadd (fadd c a) xs"
    using Cons.prems by (intro Cons.IH) (auto simp: fadd_def fl_idem)
  finally show ?case by simp
qed

lemma foldl_fadd_ge_mem:
  assumes "0 \<le> c" "\<And>x. x \<in> set xs \<Longrightarrow> 0 \<le> x \<and> fl x = x" "x \<in> set xs"
  shows "x \<le> foldl fadd c xs"
  using assms
proof (induction xs arbitrary: c)
  case Nil
  then show ?case by simp
next
  case (Cons a xs)
  show ?case
  proof (cases "x = a")
    case True
    have "a \<le> fadd c a"
      using Cons.prems(1) Cons.prems(2) [of a] by (simp add: fadd_def binary64.rnd_ge)
    also have "\<dots> \<le> foldl fadd (fadd c a) xs"
      using Cons.prems by (intro foldl_fadd_ge) (auto simp: fadd_def fl_idem)
    finally show ?thesis using True by simp
  next
    case False
    have "0 \<le> fadd c a" using Cons.prems by (intro fadd_nonneg) auto
    then have "x \<le> foldl fadd (fadd c a) xs"
      using Cons.prems False by (intro Cons.IH) auto
    then show ?thesis by simp
  qed
qed

definition weights_ok :: "number list \<Rightarrow> bool" where
  "weights_ok ws \<longleftrightarrow> (\<forall>w \<in> set ws. 0 \<le> w \<and> fl w = w)"

lemma weights_ok_maxOf_le: "weights_ok ws \<Longrightarrow> ws \<noteq> [] \<Longrightarrow> maxOf ws \<le> fsum ws"
  unfolding fsum_def weights_ok_def
  by (intro foldl_fadd_ge_mem) (auto intro: maxOf_mem)

lemma recap_weights_ok:
  assumes "weights_ok ws" "0 \<le> cap" "cap \<le> 1"
  shows "weights_ok (recap cap ws)"
proof (cases "ws = []")
  case True
  then show ?thesis by (simp add: recap_def Let_def weights_ok_def)
next
  case False
  have "0 \<le> fsub (fsum ws) (maxOf ws)" "0 \<le> fsub 1 cap"
    using weights_ok_maxOf_le [OF assms(1) False] assms by (auto simp: fsub_def intro: binary64.rnd_nonneg)
  then have "0 \<le> fdiv (fmul cap (fsub (fsum ws) (maxOf ws))) (fsub 1 cap)"
    using assms by (intro fdiv_nonneg fmul_nonneg)
  then show ?thesis
    using assms(1) set_update_subset_insert
    by (fastforce simp: weights_ok_def recap_def Let_def fdiv_def fl_idem)
qed

lemma capLoop_weights_ok:
  "weights_ok ws \<Longrightarrow> 0 \<le> cap \<Longrightarrow> cap \<le> 1 \<Longrightarrow> weights_ok (capLoop n cap ws)"
  by (induction n cap ws rule: capLoop.induct) (auto intro: recap_weights_ok)

text \<open>Why the loop stopped: nothing to weigh, the cap is met, or the passes are used up.\<close>

fun capPasses :: "nat \<Rightarrow> number \<Rightarrow> number list \<Rightarrow> nat" where
  "capPasses 0 cap weights = 0"
| "capPasses (Suc n) cap weights =
     (if fsum weights \<le> 0 \<or> withinCap cap weights then 0
      else Suc (capPasses n cap (recap cap weights)))"

lemma capPasses_le: "capPasses n cap ws \<le> n"
  by (induction n cap ws rule: capPasses.induct) auto

lemma capLoop_stops:
  "capPasses n cap ws < n \<Longrightarrow>
   fsum (capLoop n cap ws) \<le> 0 \<or> withinCap cap (capLoop n cap ws)"
  by (induction n cap ws rule: capLoop.induct) auto

end
