(* ===== verification/Band.thy ===== *)
theory Band
  imports JsNumber
begin

text \<open>
  packages/pricing-engine/src/band.ts: the confidence band. Each provider casts votes
  at \<open>p - \<sigma>p\<close>, \<open>p\<close> and \<open>p + \<sigma>p\<close>; the value is the weighted mean of the central
  third of the votes, the half width comes from the quartiles of all of them.
\<close>

record ConfidenceVote =
  cv_providerId :: string
  cv_price :: number
  cv_sigma :: number
  cv_weight :: number

record ConfidenceBand =
  band_value :: number
  band_low :: number
  band_high :: number

record VotePoint =
  vp_value :: number
  vp_weight :: number

definition votePoints :: "ConfidenceVote \<Rightarrow> VotePoint list" where
  "votePoints v = (let s = max 0 (cv_sigma v) in
     [\<lparr>vp_value = fmul (cv_price v) (fsub 1 s), vp_weight = cv_weight v\<rparr>,
      \<lparr>vp_value = cv_price v, vp_weight = cv_weight v\<rparr>,
      \<lparr>vp_value = fmul (cv_price v) (fadd 1 s), vp_weight = cv_weight v\<rparr>])"

definition sortedPoints :: "ConfidenceVote list \<Rightarrow> VotePoint list" where
  "sortedPoints votes = sort_key vp_value (concat (map votePoints votes))"

text \<open>The loop over the slots: cumulated weight, weighted sum, weight in the window.\<close>

fun windowLoop ::
  "number \<Rightarrow> number \<Rightarrow> VotePoint list \<Rightarrow> number \<times> number \<times> number \<Rightarrow> number \<times> number \<times> number" where
  "windowLoop lo hi [] acc = acc"
| "windowLoop lo hi (p # ps) (cum, weightedSum, windowWeight) =
     (let slotLo = cum; cum' = fadd cum (vp_weight p);
          overlap = fsub (min cum' hi) (max slotLo lo)
      in windowLoop lo hi ps
           (if overlap > 0
            then (cum', fadd weightedSum (fmul (vp_value p) overlap), fadd windowWeight overlap)
            else (cum', weightedSum, windowWeight)))"

fun quantileLoop :: "number \<Rightarrow> number \<Rightarrow> VotePoint list \<Rightarrow> number option" where
  "quantileLoop target c [] = None"
| "quantileLoop target c (p # ps) =
     (let c' = fadd c (vp_weight p)
      in if c' \<ge> target then Some (vp_value p) else quantileLoop target c' ps)"

definition quantile :: "VotePoint list \<Rightarrow> number \<Rightarrow> number \<Rightarrow> number" where
  "quantile points total' q =
     (case quantileLoop (fmul q total') 0 points of
        Some v \<Rightarrow> v | None \<Rightarrow> vp_value (last points))"

definition confidenceBand :: "ConfidenceVote list \<Rightarrow> ConfidenceBand option" where
  "confidenceBand votes = (if votes = [] then None else
     let points = sortedPoints votes;
         total' = fsum (map vp_weight points)
     in if total' \<le> 0 then None else
     let windowLo = fdiv total' 3; windowHi = fdiv (fmul 2 total') 3;
         (cum, weightedSum, windowWeight) = windowLoop windowLo windowHi points (0, 0, 0)
     in if windowWeight \<le> 0 then None else
     let value = fdiv weightedSum windowWeight;
         q25 = quantile points total' (fl (25 / 100));
         q75 = quantile points total' (fl (75 / 100));
         halfWidth = max (max (fsub value q25) (fsub q75 value)) 0
     in Some \<lparr>band_value = round4 value, band_low = round4 (fsub value halfWidth),
              band_high = round4 (fadd value halfWidth)\<rparr>)"

subsection \<open>The band contains its value\<close>

lemma fsub_le: "fl v = v \<Longrightarrow> 0 \<le> h \<Longrightarrow> fsub v h \<le> v"
  unfolding fsub_def by (rule binary64.rnd_le) auto

lemma fadd_ge: "fl v = v \<Longrightarrow> 0 \<le> h \<Longrightarrow> v \<le> fadd v h"
  unfolding fadd_def by (rule binary64.rnd_ge) auto

lemma fdiv_double: "fl (fdiv x y) = fdiv x y"
  by (simp add: fdiv_def fl_idem)

lemma confidenceBand_Some:
  assumes "confidenceBand votes = Some b"
  shows "\<exists>v h. 0 \<le> h \<and> fl v = v \<and> band_value b = round4 v \<and> band_low b = round4 (fsub v h) \<and>
           band_high b = round4 (fadd v h)"
proof -
  let ?ps = "sortedPoints votes"
  let ?t = "fsum (map vp_weight ?ps)"
  obtain c s w where loop: "windowLoop (fdiv ?t 3) (fdiv (fmul 2 ?t) 3) ?ps (0, 0, 0) = (c, s, w)"
    by (cases "windowLoop (fdiv ?t 3) (fdiv (fmul 2 ?t) 3) ?ps (0, 0, 0)")
  let ?v = "fdiv s w"
  let ?h = "max (max (fsub ?v (quantile ?ps ?t (fl (25 / 100))))
                     (fsub (quantile ?ps ?t (fl (75 / 100))) ?v)) 0"
  have "b = \<lparr>band_value = round4 ?v, band_low = round4 (fsub ?v ?h), band_high = round4 (fadd ?v ?h)\<rparr>"
    using assms loop by (simp add: confidenceBand_def Let_def split: if_splits)
  then show ?thesis
    by (intro exI [of _ ?v] exI [of _ ?h]) (simp add: fdiv_double)
qed

lemma confidenceBand_contains:
  assumes "confidenceBand votes = Some b"
  shows "band_low b \<le> band_value b \<and> band_value b \<le> band_high b"
proof -
  obtain v h where vh: "0 \<le> h" "fl v = v" "band_value b = round4 v"
      "band_low b = round4 (fsub v h)" "band_high b = round4 (fadd v h)"
    using confidenceBand_Some [OF assms] by blast
  then show ?thesis by (simp add: round4_mono fsub_le fadd_ge)
qed

lemma length_votePoints [simp]: "length (votePoints v) = 3"
  by (simp add: votePoints_def Let_def)

lemma length_sortedPoints: "length (sortedPoints votes) = 3 * length votes"
proof -
  have "length (concat (map votePoints votes)) = 3 * length votes"
    by (induction votes) auto
  then show ?thesis by (simp add: sortedPoints_def)
qed

lemma quantileLoop_mem: "quantileLoop t c ps = Some v \<Longrightarrow> v \<in> vp_value ` set ps"
  by (induction ps arbitrary: c) (auto simp: Let_def split: if_splits)

lemma quantile_mem: "ps \<noteq> [] \<Longrightarrow> quantile ps t q \<in> vp_value ` set ps"
  by (auto simp: quantile_def dest: quantileLoop_mem split: option.split)

text \<open>A smaller target is reached no later: the quantile is monotone in \<open>q\<close>.\<close>

lemma quantileLoop_mono:
  assumes "sorted (map vp_value ps)" "t \<le> t'" "quantileLoop t' c ps = Some v'"
  shows "\<exists>v. quantileLoop t c ps = Some v \<and> v \<le> v'"
  using assms
proof (induction ps arbitrary: c)
  case Nil
  then show ?case by simp
next
  case (Cons p ps)
  let ?c = "fadd c (vp_weight p)"
  show ?case
  proof (cases "t \<le> ?c")
    case True
    have "vp_value p \<le> v'"
      using quantileLoop_mem [OF Cons.prems(3)] Cons.prems(1) by auto
    with True show ?thesis by (simp add: Let_def)
  next
    case False
    then show ?thesis using Cons by (simp add: Let_def)
  qed
qed

lemma quantile_mono:
  assumes "sorted (map vp_value ps)" "0 \<le> total'" "q \<le> q'" "ps \<noteq> []"
  shows "quantile ps total' q \<le> quantile ps total' q'"
proof -
  have t: "fmul q total' \<le> fmul q' total'"
    using assms by (simp add: fmul_def fl_mono mult_right_mono)
  have last: "v \<in> vp_value ` set ps \<Longrightarrow> v \<le> vp_value (last ps)" for v
    using assms(1,4) by (induction ps) auto
  show ?thesis
  proof (cases "quantileLoop (fmul q' total') 0 ps")
    case None
    then show ?thesis
      using last [OF quantile_mem [OF assms(4), of total' q]] by (simp add: quantile_def)
  next
    case (Some v')
    then show ?thesis
      using quantileLoop_mono [OF assms(1) t Some] by (auto simp: quantile_def)
  qed
qed

end
