(* ===== verification/Engine.thy ===== *)
theory Engine
  imports Methodology Weights Band JsText "HOL-Library.Word"
begin

text \<open>
  packages/pricing-engine/src/engine.ts: \<open>computeIndex\<close>, the settlement computation, in
  the source's ten steps. \<open>core\<close> is its result without the canonical text of the
  receipt, which is a function of it.
\<close>

unbundle bit_operations_syntax

record ProviderStat =
  ps_sigma :: "number option"
  ps_lastPriceAt :: "date option"
  ps_trailingMedian :: "number option"

record PriorCandidate =
  prior_price :: number
  prior_computedAt :: date
  prior_candidateId :: string

record IndexInput =
  gpu :: GpuSku
  panelId :: string
  providerPrices :: "ProviderPriceResult list"
  providerRoles :: "string \<Rightarrow> ProviderRole option"
  providerStats :: "string \<Rightarrow> ProviderStat option"
  prior :: "PriorCandidate option"
  now :: date
  windowStart :: date
  windowEnd :: date
  config :: MethodologyConfig

datatype PriceSource = prior_source | computed | no_source

record CalcParams =
  cp_config :: MethodologyConfig
  cp_priorCandidateId :: "string option"
  cp_priceSource :: PriceSource
  cp_carriedAnchor :: "number option"
  cp_movementOffset :: "number option" \<comment> \<open>the offset, before \<open>toFixed(8)\<close>\<close>

record IndexCore =
  ix_gpuId :: GpuId
  ix_panelId :: string
  ix_price :: "number option"
  ix_confidenceLow :: "number option"
  ix_confidenceHigh :: "number option"
  ix_dispersion :: number
  ix_status :: IndexStatus
  ix_gates :: "Gate list"
  ix_contributors :: "ContributionReceipt list"
  ix_exclusions :: "ExclusionReceipt list"
  ix_providersObserved :: nat
  ix_providersContributing :: nat
  ix_methodologyVersion :: string
  ix_calcParams :: CalcParams
  ix_windowStart :: date
  ix_windowEnd :: date
  ix_computedAt :: date

subsection \<open>Steps 1 to 3: eligibility and the screens\<close>

definition isEligible :: "IndexInput \<Rightarrow> ProviderPriceResult \<Rightarrow> bool" where
  "isEligible inp p \<longleftrightarrow> providerRoles inp (pp_providerId p) = Some SETTLEMENT_ELIGIBLE"

definition roleExclusions :: "IndexInput \<Rightarrow> ExclusionReceipt list" where
  "roleExclusions inp = map
     (\<lambda>p. \<lparr>ex_providerId = pp_providerId p, ex_reason = ''role_not_settlement_eligible'',
           ex_detail = D_role (providerRoles inp (pp_providerId p)), ex_value = pp_price p\<rparr>)
     (filter (\<lambda>p. \<not> isEligible inp p \<and> pp_price p \<noteq> None) (providerPrices inp))"

definition heldOutExclusions :: "IndexInput \<Rightarrow> ExclusionReceipt list" where
  "heldOutExclusions inp = map
     (\<lambda>p. \<lparr>ex_providerId = pp_providerId p, ex_reason = ''provider_held_out'',
           ex_detail = D_held_out (map_option (\<lambda>h. (ho_reason h, ho_detail h)) (pp_holdout p)),
           ex_value = None\<rparr>)
     (filter (\<lambda>p. isEligible inp p \<and> pp_price p = None) (providerPrices inp))"

definition observed :: "IndexInput \<Rightarrow> ProviderPriceResult list" where
  "observed inp = filter (\<lambda>p. isEligible inp p \<and> pp_price p \<noteq> None) (providerPrices inp)"

definition priceOf :: "ProviderPriceResult \<Rightarrow> number" where
  "priceOf p = the (pp_price p)"

definition jumpCandidates :: "IndexInput \<Rightarrow> JumpCandidate list" where
  "jumpCandidates inp = map
     (\<lambda>p. \<lparr>sc_providerId = pp_providerId p, sc_price = priceOf p,
           trailingMedian = Option.bind (providerStats inp (pp_providerId p)) ps_trailingMedian\<rparr>)
     (observed inp)"

definition jumpExclusions :: "IndexInput \<Rightarrow> MethodologyConfig \<Rightarrow> ExclusionReceipt list" where
  "jumpExclusions inp cfg = jumpScreen (jumpCandidates inp) (jump cfg)"

definition jumpedIds :: "IndexInput \<Rightarrow> MethodologyConfig \<Rightarrow> string list" where
  "jumpedIds inp cfg = map ex_providerId
     (filter (\<lambda>e. ex_reason e = ''jump_screen'')
        (roleExclusions inp @ heldOutExclusions inp @ jumpExclusions inp cfg))"

definition postJump :: "IndexInput \<Rightarrow> MethodologyConfig \<Rightarrow> ProviderPriceResult list" where
  "postJump inp cfg = filter (\<lambda>p. pp_providerId p \<notin> set (jumpedIds inp cfg)) (observed inp)"

definition screened :: "IndexInput \<Rightarrow> MethodologyConfig \<Rightarrow> MadScreenResult" where
  "screened inp cfg = madScreen
     (map (\<lambda>p. \<lparr>sc_providerId = pp_providerId p, sc_price = priceOf p\<rparr>) (postJump inp cfg))
     (screening cfg)"

definition keptResults :: "IndexInput \<Rightarrow> MethodologyConfig \<Rightarrow> ProviderPriceResult list" where
  "keptResults inp cfg = filter
     (\<lambda>p. pp_providerId p \<in> set (map sc_providerId (kept (screened inp cfg)))) (postJump inp cfg)"

subsection \<open>Steps 4 to 6: weights and the weighted mean\<close>

definition weightItems :: "MethodologyConfig \<Rightarrow> ProviderPriceResult list \<Rightarrow> weight_item list" where
  "weightItems cfg ps = map
     (\<lambda>p. \<lparr>wi_providerId = pp_providerId p,
           wi_weight = (if pp_executable p then w_executable (weights cfg) else w_rateCard (weights cfg))\<rparr>) ps"

definition contributorOf ::
  "IndexInput \<Rightarrow> ProviderPriceResult list \<Rightarrow> capped_weight \<Rightarrow> ContributionReceipt" where
  "contributorOf inp ps c =
     (let p = the (find (\<lambda>k. pp_providerId k = cw_providerId c) ps) in
      \<lparr>co_providerId = cw_providerId c, co_price = priceOf p,
       co_weightBeforeCap = weightBeforeCap c, co_weightAfterCap = weightAfterCap c,
       co_executable = pp_executable p, co_sampleSize = pp_sampleSize p, co_method = pp_method p,
       co_sigma = Option.bind (providerStats inp (cw_providerId c)) ps_sigma\<rparr>)"

definition contributorsOf :: "IndexInput \<Rightarrow> MethodologyConfig \<Rightarrow> ContributionReceipt list" where
  "contributorsOf inp cfg =
     (let ps = keptResults inp cfg
      in map (contributorOf inp ps) (capWeights (weightItems cfg ps) (weightCap cfg)))"

definition totalWeight :: "ContributionReceipt list \<Rightarrow> number" where
  "totalWeight cs = fsum (map co_weightAfterCap cs)"

definition weightedPrice :: "ContributionReceipt list \<Rightarrow> number option" where
  "weightedPrice cs = (if cs \<noteq> [] \<and> totalWeight cs > 0
     then Some (fdiv (foldl (\<lambda>a c. fadd a (fmul (co_price c) (co_weightAfterCap c))) 0 cs) (totalWeight cs))
     else None)"

subsection \<open>Step 10's deterministic sample\<close>

fun fnvHash :: "32 word \<Rightarrow> string \<Rightarrow> 32 word" where
  "fnvHash h [] = h"
| "fnvHash h (c # cs) = fnvHash ((h XOR of_nat (of_char c)) * 0x01000193) cs"

definition fnvUnit :: "string \<Rightarrow> number" where
  "fnvUnit seed =
     fsub (fmul (fdiv (fadd (of_int (uint (fnvHash 0x811c9dc5 seed))) (1 / 2)) 4294967296) 2) 1"

definition movementSeed :: "IndexInput \<Rightarrow> int \<Rightarrow> number \<Rightarrow> string" where
  "movementSeed inp slot price =
     gpuIdText (sku_id (gpu inp)) @ '':'' @ panelId inp @ '':'' @ int_text slot @ '':'' @ num_text price"

definition movementSlot :: "MovementConfig \<Rightarrow> date \<Rightarrow> int" where
  "movementSlot m t = (if slotMs m > 0 then \<lfloor>fdiv (of_int t) (of_int (slotMs m))\<rfloor> else t)"

definition movementRaw :: "IndexInput \<Rightarrow> MovementConfig \<Rightarrow> number \<Rightarrow> PriorCandidate \<Rightarrow> number" where
  "movementRaw inp m price pr =
     (let allowance = fmul price (allowancePct m);
          gap = fsub (prior_price pr) price;
          seed = movementSeed inp (movementSlot m (now inp)) price
      in fadd (fmul (reversion m) gap) (fmul (fmul (stepPct m) allowance) (fnvUnit seed)))"

definition clampMove :: "number \<Rightarrow> number \<Rightarrow> number" where
  "clampMove allowance raw = max (- allowance) (min allowance raw)"

subsection \<open>Step 9: status and price\<close>

record Verdict =
  v_status :: IndexStatus
  v_price :: "number option"
  v_priorCandidateId :: "string option"
  v_carriedPrior :: bool

definition carryable :: "IndexInput \<Rightarrow> MethodologyConfig \<Rightarrow> PriorCandidate option" where
  "carryable inp cfg = (case prior inp of None \<Rightarrow> None
     | Some p \<Rightarrow> if of_int (now inp - prior_computedAt p) \<le> carryForwardWindowMs cfg
                 then Some p else None)"

definition carried :: "PriorCandidate \<Rightarrow> Verdict" where
  "carried p = \<lparr>v_status = stale, v_price = Some (round4 (prior_price p)),
     v_priorCandidateId = Some (prior_candidateId p), v_carriedPrior = True\<rparr>"

definition fresh_verdict :: "IndexStatus \<Rightarrow> number option \<Rightarrow> Verdict" where
  "fresh_verdict st p = \<lparr>v_status = st, v_price = p, v_priorCandidateId = None, v_carriedPrior = False\<rparr>"

definition settle_status ::
  "IndexInput \<Rightarrow> MethodologyConfig \<Rightarrow> ContributionReceipt list \<Rightarrow> number option \<Rightarrow> number \<Rightarrow> Gate list \<Rightarrow> Verdict" where
  "settle_status inp cfg cs price disp gs =
     (if weightedPrice cs = None then
        (case carryable inp cfg of Some p \<Rightarrow> carried p | None \<Rightarrow> fresh_verdict withheld None)
      else if \<not> allPassed gs then
        (case carryable inp cfg of Some p \<Rightarrow> carried p | None \<Rightarrow> fresh_verdict withheld price)
      else if disp > disp_warn (dispersion cfg) then fresh_verdict degraded price
      else if int (length cs) < minProviders (gates (config inp)) then fresh_verdict degraded price
      else fresh_verdict healthy price)"

definition movementOffset ::
  "IndexInput \<Rightarrow> MethodologyConfig \<Rightarrow> number option \<Rightarrow> Verdict \<Rightarrow> number option" where
  "movementOffset inp cfg price v =
     (case (movement cfg, price, prior inp) of
        (Some m, Some p, Some pr) \<Rightarrow>
          if allowancePct m > 0 \<and> \<not> v_carriedPrior v
          then Some (clampMove (fmul p (allowancePct m)) (movementRaw inp m p pr))
          else None
      | _ \<Rightarrow> None)"

subsection \<open>The computation\<close>

definition voteOf :: "MethodologyConfig \<Rightarrow> ContributionReceipt \<Rightarrow> ConfidenceVote" where
  "voteOf cfg c = \<lparr>cv_providerId = co_providerId c, cv_price = co_price c,
     cv_sigma = max (voteSigmaFloor cfg) (case co_sigma c of None \<Rightarrow> 0 | Some s \<Rightarrow> s),
     cv_weight = co_weightAfterCap c\<rparr>"

definition gateInput :: "IndexInput \<Rightarrow> MethodologyConfig \<Rightarrow> ContributionReceipt list \<Rightarrow> number \<Rightarrow> GateInput" where
  "gateInput inp cfg cs disp =
     \<lparr>gi_contributors = cs, gi_now = now inp,
      gi_lastPriceAt = (\<lambda>i. map_option ps_lastPriceAt (providerStats inp i)),
      gi_gates = gates cfg, gi_dispersion = disp, gi_dispersionConfig = dispersion cfg\<rparr>"

definition indexDispersion :: "MadScreenResult \<Rightarrow> number" where
  "indexDispersion s = (if kept s \<noteq> [] then ms_dispersion s else 0)"

definition computeIndex :: "IndexInput \<Rightarrow> IndexCore" where
  "computeIndex inp =
     (let cfg = effectiveConfigFor (config inp) (panelId inp);
          screen = screened inp cfg;
          exclusions = roleExclusions inp @ heldOutExclusions inp @ jumpExclusions inp cfg @
                       ms_exclusions screen;
          cs = contributorsOf inp cfg;
          wprice = weightedPrice cs;
          price = map_option round4 wprice;
          disp = indexDispersion screen;
          band = (if wprice \<noteq> None then confidenceBand (map (voteOf cfg) cs) else None);
          gs = evaluateGates (gateInput inp cfg cs disp);
          v = settle_status inp cfg cs price disp gs;
          offset = movementOffset inp cfg price v;
          finalPrice = (case offset of None \<Rightarrow> v_price v
                        | Some d \<Rightarrow> Some (round4 (fadd (the price) d)));
          noBand = (v_status v = withheld \<or> v_carriedPrior v)
      in \<lparr>ix_gpuId = sku_id (gpu inp), ix_panelId = panelId inp, ix_price = finalPrice,
          ix_confidenceLow = (if noBand then None else map_option band_low band),
          ix_confidenceHigh = (if noBand then None else map_option band_high band),
          ix_dispersion = disp, ix_status = v_status v, ix_gates = gs, ix_contributors = cs,
          ix_exclusions = exclusions, ix_providersObserved = length (observed inp),
          ix_providersContributing = length cs, ix_methodologyVersion = version cfg,
          ix_calcParams =
            \<lparr>cp_config = cfg, cp_priorCandidateId = v_priorCandidateId v,
             cp_priceSource = (if v_priorCandidateId v \<noteq> None then prior_source
                               else if wprice \<noteq> None then computed else no_source),
             cp_carriedAnchor = (if v_carriedPrior v then price else None),
             cp_movementOffset = offset\<rparr>,
          ix_windowStart = windowStart inp, ix_windowEnd = windowEnd inp, ix_computedAt = now inp\<rparr>)"

subsection \<open>Fields of the result\<close>

abbreviation effective :: "IndexInput \<Rightarrow> MethodologyConfig" where
  "effective inp \<equiv> effectiveConfigFor (config inp) (panelId inp)"

definition anchor :: "IndexInput \<Rightarrow> number option" where
  "anchor inp = map_option round4 (weightedPrice (contributorsOf inp (effective inp)))"

definition indexGates :: "IndexInput \<Rightarrow> Gate list" where
  "indexGates inp = evaluateGates (gateInput inp (effective inp) (contributorsOf inp (effective inp))
     (indexDispersion (screened inp (effective inp))))"

definition indexVerdict :: "IndexInput \<Rightarrow> Verdict" where
  "indexVerdict inp = settle_status inp (effective inp) (contributorsOf inp (effective inp)) (anchor inp)
     (indexDispersion (screened inp (effective inp))) (indexGates inp)"

lemma computeIndex_simps:
  "ix_status (computeIndex inp) = v_status (indexVerdict inp)"
  "ix_gates (computeIndex inp) = indexGates inp"
  "ix_contributors (computeIndex inp) = contributorsOf inp (effective inp)"
  "ix_dispersion (computeIndex inp) = indexDispersion (screened inp (effective inp))"
  "ix_providersObserved (computeIndex inp) = length (observed inp)"
  "ix_providersContributing (computeIndex inp) = length (contributorsOf inp (effective inp))"
  "ix_exclusions (computeIndex inp) = roleExclusions inp @ heldOutExclusions inp @
     jumpExclusions inp (effective inp) @ ms_exclusions (screened inp (effective inp))"
  "cp_movementOffset (ix_calcParams (computeIndex inp)) =
     movementOffset inp (effective inp) (anchor inp) (indexVerdict inp)"
  "ix_price (computeIndex inp) =
     (case movementOffset inp (effective inp) (anchor inp) (indexVerdict inp) of
        None \<Rightarrow> v_price (indexVerdict inp) | Some d \<Rightarrow> Some (round4 (fadd (the (anchor inp)) d)))"
  by (simp_all add: computeIndex_def Let_def indexVerdict_def anchor_def indexGates_def split: option.split)

lemmas verdict_simps = settle_status_def carried_def fresh_verdict_def carryable_def

lemma anchor_None: "anchor inp = None \<longleftrightarrow> weightedPrice (contributorsOf inp (effective inp)) = None"
  by (simp add: anchor_def)

lemma movementOffset_fresh:
  "movementOffset inp cfg p v = Some d \<Longrightarrow> \<not> v_carriedPrior v \<and> p \<noteq> None"
  by (auto simp: movementOffset_def split: option.splits if_splits)

lemma movementOffset_bound:
  assumes "movementOffset inp cfg (Some p) v = Some d"
  shows "\<exists>m. movement cfg = Some m \<and> 0 < allowancePct m \<and> \<bar>d\<bar> \<le> \<bar>fmul p (allowancePct m)\<bar>"
proof -
  obtain m pr where m: "movement cfg = Some m" "allowancePct m > 0"
      and d: "d = clampMove (fmul p (allowancePct m)) (movementRaw inp m p pr)"
    using assms(1) by (auto simp: movementOffset_def split: option.splits if_splits)
  have "\<bar>d\<bar> \<le> \<bar>fmul p (allowancePct m)\<bar>" by (auto simp: d clampMove_def)
  with m show ?thesis by blast
qed

lemma verdict_price:
  "v_price (indexVerdict inp) =
     (if v_status (indexVerdict inp) = stale
      then map_option (\<lambda>pr. round4 (prior_price pr)) (carryable inp (effective inp))
      else anchor inp)"
  by (auto simp: indexVerdict_def settle_status_def carried_def fresh_verdict_def anchor_def
      split: option.split)

lemma stale_carryable:
  "v_status (indexVerdict inp) = stale \<Longrightarrow> carryable inp (effective inp) \<noteq> None"
  by (auto simp: indexVerdict_def settle_status_def fresh_verdict_def split: option.splits if_splits)

subsection \<open>Contributors\<close>

lemma map_ids_capWeights:
  "map cw_providerId (capWeights items cap) = map wi_providerId items"
  "length (capWeights items cap) = length items"
  by (auto simp: capWeights_def Let_def map2_map_map intro!: nth_equalityI)

lemma length_contributorsOf: "length (contributorsOf inp cfg) = length (keptResults inp cfg)"
  by (simp add: contributorsOf_def Let_def map_ids_capWeights weightItems_def)

lemma contributorsOf_ids: "map co_providerId (contributorsOf inp cfg) = map pp_providerId (keptResults inp cfg)"
proof -
  have "map co_providerId (contributorsOf inp cfg) =
      map cw_providerId (capWeights (weightItems cfg (keptResults inp cfg)) (weightCap cfg))"
    by (simp add: contributorsOf_def Let_def contributorOf_def)
  also have "\<dots> = map wi_providerId (weightItems cfg (keptResults inp cfg))"
    by (rule map_ids_capWeights)
  finally show ?thesis by (simp add: weightItems_def)
qed

lemma contributor_source:
  assumes "c \<in> set (contributorsOf inp cfg)"
  shows "\<exists>p \<in> set (keptResults inp cfg). pp_providerId p = co_providerId c \<and> co_price c = priceOf p \<and>
    co_executable c = pp_executable p \<and> co_sampleSize c = pp_sampleSize p"
proof -
  let ?ps = "keptResults inp cfg"
  obtain w where w: "w \<in> set (capWeights (weightItems cfg ?ps) (weightCap cfg))"
      "c = contributorOf inp ?ps w"
    using assms by (auto simp: contributorsOf_def Let_def)
  have "cw_providerId w \<in> set (map cw_providerId (capWeights (weightItems cfg ?ps) (weightCap cfg)))"
    using w(1) by simp
  then have "cw_providerId w \<in> pp_providerId ` set ?ps"
    by (simp only: map_ids_capWeights(1)) (auto simp: weightItems_def)
  then have "find (\<lambda>k. pp_providerId k = cw_providerId w) ?ps \<noteq> None"
    by (auto simp: find_None_iff)
  then obtain p where p: "find (\<lambda>k. pp_providerId k = cw_providerId w) ?ps = Some p" by auto
  then have "p \<in> set ?ps" "pp_providerId p = cw_providerId w"
    by (auto simp: find_Some_iff)
  with w(2) p show ?thesis by (intro bexI [of _ p]) (simp_all add: contributorOf_def Let_def)
qed

lemma keptResults_observed: "p \<in> set (keptResults inp cfg) \<Longrightarrow> p \<in> set (observed inp)"
  by (simp add: keptResults_def postJump_def)

lemma jumpedIds_eq: "jumpedIds inp cfg = map ex_providerId (jumpExclusions inp cfg)"
proof -
  have "filter (\<lambda>e. ex_reason e = ''jump_screen'') (jumpExclusions inp cfg) = jumpExclusions inp cfg"
    by (rule filter_True) (auto simp: jumpExclusions_def dest: jumpScreen_reason)
  moreover have "filter (\<lambda>e. ex_reason e = ''jump_screen'') (roleExclusions inp @ heldOutExclusions inp) = []"
    by (auto simp: roleExclusions_def heldOutExclusions_def filter_empty_conv)
  ultimately show ?thesis by (simp add: jumpedIds_def)
qed

lemma observed_cong:
  assumes "filter (isEligible inp) ps = filter (isEligible inp) (providerPrices inp)"
  shows "observed (inp\<lparr>providerPrices := ps\<rparr>) = observed inp"
proof -
  have "observed (inp\<lparr>providerPrices := ps\<rparr>) =
      filter (\<lambda>p. pp_price p \<noteq> None) (filter (isEligible inp) ps)"
    by (simp add: observed_def isEligible_def)
  also have "\<dots> = observed inp"
    by (simp add: assms observed_def)
  finally show ?thesis .
qed

subsection \<open>Properties\<close>

text \<open>C3. Only settlement-eligible data settles: replacing the prices of every other provider
  (collected, watchdog-only, excluded or unknown) by anything changes no field of the index but
  the exclusion receipts.\<close>
theorem ineligible_prices_cannot_move_the_index:
  assumes "filter (\<lambda>p. providerRoles inp (pp_providerId p) = Some SETTLEMENT_ELIGIBLE) ps =
    filter (\<lambda>p. providerRoles inp (pp_providerId p) = Some SETTLEMENT_ELIGIBLE)
      (providerPrices inp)"
  shows "(computeIndex (inp\<lparr>providerPrices := ps\<rparr>))\<lparr>ix_exclusions := []\<rparr> =
    (computeIndex inp)\<lparr>ix_exclusions := []\<rparr>"
proof -
  let ?j = "inp\<lparr>providerPrices := ps\<rparr>"
  have el: "isEligible inp = (\<lambda>p. providerRoles inp (pp_providerId p) = Some SETTLEMENT_ELIGIBLE)"
    by (rule ext) (simp add: isEligible_def)
  note obs = observed_cong [OF assms [folded el]]
  have jump: "jumpExclusions ?j cfg = jumpExclusions inp cfg" for cfg
    by (simp add: jumpExclusions_def jumpCandidates_def obs)
  have post: "postJump ?j cfg = postJump inp cfg" for cfg
    by (simp add: postJump_def jumpedIds_eq jump obs)
  have scr: "screened ?j cfg = screened inp cfg" for cfg
    by (simp add: screened_def post)
  have kept: "keptResults ?j cfg = keptResults inp cfg" for cfg
    by (simp add: keptResults_def post scr)
  have con: "contributorsOf ?j cfg = contributorsOf inp cfg" for cfg
    by (simp add: contributorsOf_def kept contributorOf_def Let_def)
  have gin: "gateInput ?j = gateInput inp" by (simp add: gateInput_def fun_eq_iff)
  have car: "carryable ?j = carryable inp"
    by (simp add: carryable_def fun_eq_iff split: option.split)
  have st: "settle_status ?j = settle_status inp"
    by (simp add: settle_status_def car fun_eq_iff)
  have raw: "movementRaw ?j = movementRaw inp"
    by (simp add: movementRaw_def movementSeed_def fun_eq_iff)
  have mv: "movementOffset ?j = movementOffset inp"
    by (auto simp: movementOffset_def raw fun_eq_iff split: option.split)
  show ?thesis
    by (simp add: computeIndex_def Let_def obs con scr gin st mv)
qed

text \<open>C4. A price published as healthy or degraded is a fresh computation whose gates all passed;
  healthy moreover means the global provider quorum (not a panel's relaxed one) and a dispersion
  within the warning threshold. No other status carries a computed price past a failed gate
  except withheld.\<close>
theorem published_status_sound:
  assumes "ix_status (computeIndex inp) \<in> {healthy, degraded}"
  shows "allPassed (ix_gates (computeIndex inp)) \<and> ix_price (computeIndex inp) \<noteq> None \<and>
    (ix_status (computeIndex inp) = healthy \<longrightarrow>
       minProviders (gates (config inp)) \<le> int (ix_providersContributing (computeIndex inp)) \<and>
       ix_dispersion (computeIndex inp) \<le> disp_warn (dispersion (effective inp)))"
proof -
  let ?v = "indexVerdict inp"
  have st: "v_status ?v \<in> {healthy, degraded}" using assms by (simp add: computeIndex_simps)
  then have has: "anchor inp \<noteq> None" and pass: "allPassed (indexGates inp)"
      and vp: "v_price ?v = anchor inp"
    by (auto simp: indexVerdict_def verdict_simps anchor_None split: option.splits if_splits)
  have 1: "allPassed (ix_gates (computeIndex inp))" using pass by (simp add: computeIndex_simps)
  have 2: "ix_price (computeIndex inp) \<noteq> None"
    using has vp by (auto simp: computeIndex_simps split: option.split)
  have 3: "minProviders (gates (config inp)) \<le> int (ix_providersContributing (computeIndex inp)) \<and>
       ix_dispersion (computeIndex inp) \<le> disp_warn (dispersion (effective inp))"
    if "ix_status (computeIndex inp) = healthy"
    using that
    by (auto simp: computeIndex_simps indexVerdict_def verdict_simps split: option.splits if_splits)
  from 1 2 3 show ?thesis by blast
qed

text \<open>A stale index republishes the prior price and nothing else: the prior exists, is no older
  than the carry-forward window, and the result carries neither a band nor a movement offset.\<close>
theorem stale_is_the_prior:
  assumes "ix_status (computeIndex inp) = stale"
  shows "\<exists>p. prior inp = Some p \<and>
      of_int (now inp - prior_computedAt p) \<le> carryForwardWindowMs (effective inp) \<and>
      ix_price (computeIndex inp) = Some (round4 (prior_price p)) \<and>
      cp_movementOffset (ix_calcParams (computeIndex inp)) = None \<and>
      ix_confidenceLow (computeIndex inp) = None \<and> ix_confidenceHigh (computeIndex inp) = None"
proof -
  let ?v = "indexVerdict inp"
  have "v_status ?v = stale" using assms by (simp add: computeIndex_simps)
  then obtain p where p: "prior inp = Some p"
      "of_int (now inp - prior_computedAt p) \<le> carryForwardWindowMs (effective inp)"
      "?v = carried p"
    by (auto simp: indexVerdict_def settle_status_def fresh_verdict_def carryable_def
        split: option.splits if_splits)
  have off: "movementOffset inp (effective inp) (anchor inp) ?v = None"
    using movementOffset_fresh [of inp "effective inp" "anchor inp" ?v] p(3)
    by (cases "movementOffset inp (effective inp) (anchor inp) ?v") (auto simp: carried_def)
  have band: "ix_confidenceLow (computeIndex inp) = None \<and> ix_confidenceHigh (computeIndex inp) = None"
    using p(3) by (simp add: computeIndex_def Let_def indexVerdict_def anchor_def indexGates_def carried_def)
  show ?thesis
    using p off band by (auto simp: computeIndex_simps carried_def)
qed

text \<open>C5. Every published figure is accounted for from the anchor, the weighted mean of the kept
  prices rounded to four decimals: with a recorded offset it is the anchor plus that offset,
  rounded, and the offset is at most the configured fraction of the anchor, so the figure lies
  between the anchor less and the anchor plus the allowance, rounded; with no offset it is the
  anchor itself, or the carried prior price when the status is stale.\<close>
theorem movement_is_bounded:
  "case cp_movementOffset (ix_calcParams (computeIndex inp)) of
     None \<Rightarrow> ix_price (computeIndex inp) =
       (if ix_status (computeIndex inp) = stale
        then Some (round4 (prior_price (the (carryable inp (effective inp))))) else anchor inp)
   | Some d \<Rightarrow> (\<exists>p m. anchor inp = Some p \<and> movement (effective inp) = Some m \<and>
       \<bar>d\<bar> \<le> \<bar>fmul p (allowancePct m)\<bar> \<and>
       ix_price (computeIndex inp) = Some (round4 (fadd p d)) \<and>
       round4 (fsub p \<bar>fmul p (allowancePct m)\<bar>) \<le> round4 (fadd p d) \<and>
       round4 (fadd p d) \<le> round4 (fadd p \<bar>fmul p (allowancePct m)\<bar>))"
proof (cases "movementOffset inp (effective inp) (anchor inp) (indexVerdict inp)")
  case None
  then show ?thesis
    using stale_carryable [of inp] by (auto simp: computeIndex_simps verdict_price)
next
  case (Some d)
  with movementOffset_fresh obtain p where p: "anchor inp = Some p" by fastforce
  obtain m where m: "movement (effective inp) = Some m" "\<bar>d\<bar> \<le> \<bar>fmul p (allowancePct m)\<bar>"
    using movementOffset_bound Some p by metis
  have "fsub p \<bar>fmul p (allowancePct m)\<bar> \<le> fadd p d" "fadd p d \<le> fadd p \<bar>fmul p (allowancePct m)\<bar>"
    using m(2) by (auto simp: fsub_def fadd_def intro!: fl_mono)
  then show ?thesis
    using m Some p by (auto simp: computeIndex_simps intro: round4_mono)
qed

lemma filter_by_id:
  assumes "distinct (map f xs)"
  shows "filter (\<lambda>x. f x \<in> set (map f (filter Q xs))) xs = filter Q xs"
    "filter (\<lambda>x. f x \<notin> set (map f (filter Q xs))) xs = filter (\<lambda>x. \<not> Q x) xs"
  using assms by (auto simp: distinct_map inj_on_def intro!: filter_cong)

lemma find_by_id:
  "distinct (map f xs) \<Longrightarrow> x \<in> set xs \<Longrightarrow> find (\<lambda>k. f k = f x) xs = Some x"
  by (induction xs) (auto simp: image_iff)

text \<open>The candidate of a result on the two screens, and what the jump screen holds against it.\<close>

definition jumpCandidate :: "IndexInput \<Rightarrow> ProviderPriceResult \<Rightarrow> JumpCandidate" where
  "jumpCandidate inp p = \<lparr>sc_providerId = pp_providerId p, sc_price = priceOf p,
     trailingMedian = Option.bind (providerStats inp (pp_providerId p)) ps_trailingMedian\<rparr>"

definition jumpedOut :: "IndexInput \<Rightarrow> ProviderPriceResult \<Rightarrow> bool" where
  "jumpedOut inp p =
     (let cfg = jump (effective inp);
          cs = filter comparable (map (jumpCandidate inp) (observed inp))
      in comparable (jumpCandidate inp p) \<and> minCorroborators cfg < int (length cs) \<and>
         jumps cfg cs (jumpCandidate inp p))"

definition outlying :: "IndexInput \<Rightarrow> ProviderPriceResult \<Rightarrow> bool" where
  "outlying inp p \<longleftrightarrow> \<not> madKeeps
     (map (\<lambda>p. \<lparr>sc_providerId = pp_providerId p, sc_price = priceOf p\<rparr>)
        (filter (\<lambda>p. \<not> jumpedOut inp p) (observed inp)))
     (screening (effective inp)) \<lparr>sc_providerId = pp_providerId p, sc_price = priceOf p\<rparr>"

definition madReason :: "IndexInput \<Rightarrow> string" where
  "madReason inp =
     (let prices = map priceOf (filter (\<lambda>p. \<not> jumpedOut inp p) (observed inp))
      in case mad prices (Some (median prices)) of
           None \<Rightarrow> ''mad_zero_ratio_band''
         | Some d \<Rightarrow> if d = 0 then ''mad_zero_ratio_band'' else ''mad_outlier'')"

text \<open>Why a provider result is left out of the mean, if it is.\<close>

definition excludedFor :: "IndexInput \<Rightarrow> ProviderPriceResult \<Rightarrow> string option" where
  "excludedFor inp p =
     (if \<not> isEligible inp p then Some ''role_not_settlement_eligible''
      else if pp_price p = None then Some ''provider_held_out''
      else if jumpedOut inp p then Some ''jump_screen''
      else if outlying inp p then Some (madReason inp) else None)"

abbreviation tag :: "ProviderPriceResult \<Rightarrow> string \<times> number option" where
  "tag p \<equiv> (pp_providerId p, pp_price p)"

lemma jumpCandidates_eq: "jumpCandidates inp = map (jumpCandidate inp) (observed inp)"
  by (simp add: jumpCandidates_def jumpCandidate_def)

lemma jumpExclusions_eq:
  "jumpExclusions inp (effective inp) =
     map (\<lambda>p. jumpExclusion (jump (effective inp)) (filter comparable (jumpCandidates inp)) (jumpCandidate inp p))
       (filter (jumpedOut inp) (observed inp))"
  by (auto simp: jumpExclusions_def jumpScreen_def Let_def jumpedOut_def [abs_def] jumpCandidates_eq
      filter_map comp_def)

lemma jumpExclusion_fields [simp]:
  "ex_providerId (jumpExclusion cfg cs (jumpCandidate inp p)) = pp_providerId p"
  "ex_value (jumpExclusion cfg cs (jumpCandidate inp p)) = Some (priceOf p)"
  "ex_reason (jumpExclusion cfg cs c) = ''jump_screen''"
  by (simp_all add: jumpExclusion_def jumpCandidate_def)

lemma distinct_observed:
  "distinct (map pp_providerId (providerPrices inp)) \<Longrightarrow> distinct (map pp_providerId (observed inp))"
  by (simp add: observed_def distinct_map inj_on_def)

lemma postJump_eq:
  assumes "distinct (map pp_providerId (providerPrices inp))"
  shows "postJump inp (effective inp) = filter (\<lambda>p. \<not> jumpedOut inp p) (observed inp)"
proof -
  have "set (jumpedIds inp (effective inp)) = set (map pp_providerId (filter (jumpedOut inp) (observed inp)))"
    by (simp add: jumpedIds_eq jumpExclusions_eq comp_def)
  then show ?thesis
    unfolding postJump_def using filter_by_id(2) [OF distinct_observed [OF assms]] by simp
qed

lemma keptResults_eq:
  assumes "distinct (map pp_providerId (providerPrices inp))"
  shows "keptResults inp (effective inp) =
    filter (\<lambda>p. \<not> outlying inp p) (postJump inp (effective inp))"
proof -
  let ?post = "postJump inp (effective inp)"
  have dist: "distinct (map pp_providerId ?post)"
    using distinct_observed [OF assms] by (simp add: postJump_def distinct_map inj_on_def)
  have "map sc_providerId (kept (screened inp (effective inp))) =
      map pp_providerId (filter (\<lambda>p. \<not> outlying inp p) ?post)"
    by (simp add: screened_def madScreen_kept filter_map comp_def outlying_def postJump_eq [OF assms])
  then show ?thesis
    unfolding keptResults_def using filter_by_id(1) [OF dist] by simp
qed

lemma contributors_tags:
  assumes "distinct (map pp_providerId (keptResults inp cfg))"
  shows "map (\<lambda>c. (co_providerId c, co_price c)) (contributorsOf inp cfg) =
    map (\<lambda>p. (pp_providerId p, priceOf p)) (keptResults inp cfg)"
proof -
  let ?ps = "keptResults inp cfg"
  let ?look = "\<lambda>i. (i, priceOf (the (find (\<lambda>k. pp_providerId k = i) ?ps)))"
  have "map (\<lambda>c. (co_providerId c, co_price c)) (contributorsOf inp cfg) =
      map ?look (map cw_providerId (capWeights (weightItems cfg ?ps) (weightCap cfg)))"
    by (simp add: contributorsOf_def contributorOf_def Let_def)
  also have "\<dots> = map ?look (map pp_providerId ?ps)"
    by (simp only: map_ids_capWeights) (simp add: weightItems_def)
  also have "\<dots> = map (\<lambda>p. (pp_providerId p, priceOf p)) ?ps"
    using find_by_id [OF assms] by simp
  finally show ?thesis .
qed

lemma mad_tags:
  assumes "distinct (map pp_providerId (providerPrices inp))"
  shows "map (\<lambda>e. (ex_providerId e, ex_value e)) (ms_exclusions (screened inp (effective inp))) =
    map (\<lambda>p. (pp_providerId p, Some (priceOf p)))
      (filter (outlying inp) (postJump inp (effective inp)))"
proof -
  let ?cs = "map (\<lambda>p. \<lparr>sc_providerId = pp_providerId p, sc_price = priceOf p\<rparr>) (postJump inp (effective inp))"
  obtain f where "ms_exclusions (screened inp (effective inp)) =
      map f (filter (\<lambda>c. \<not> madKeeps ?cs (screening (effective inp)) c) ?cs)"
    and "\<forall>c. ex_providerId (f c) = sc_providerId c \<and> ex_value (f c) = Some (sc_price c)"
    using madScreen_shape [of ?cs "screening (effective inp)"] by (auto simp: screened_def)
  then show ?thesis
    by (simp add: filter_map comp_def outlying_def postJump_eq [OF assms])
qed

lemma observed_price: "p \<in> set (observed inp) \<Longrightarrow> Some (priceOf p) = pp_price p"
  by (auto simp: observed_def priceOf_def)

lemma mset_split: "mset (map f (filter P xs)) + mset (map f (filter (\<lambda>x. \<not> P x) xs)) = mset (map f xs)"
  by (induction xs) auto


lemma exclusion_source:
  assumes "distinct (map pp_providerId (providerPrices inp))"
    and "e \<in> set (ix_exclusions (computeIndex inp))"
  shows "\<exists>p \<in> set (providerPrices inp). ex_providerId e = pp_providerId p \<and> ex_value e = pp_price p \<and>
    excludedFor inp p = Some (ex_reason e)"
proof -
  consider (role) "e \<in> set (roleExclusions inp)" | (held) "e \<in> set (heldOutExclusions inp)"
    | (jump) "e \<in> set (jumpExclusions inp (effective inp))"
    | (mad) "e \<in> set (ms_exclusions (screened inp (effective inp)))"
    using assms(2) by (auto simp: computeIndex_simps)
  then show ?thesis
  proof cases
    case role
    then show ?thesis by (auto simp: roleExclusions_def excludedFor_def)
  next
    case held
    then obtain p where p: "p \<in> set (providerPrices inp)" "isEligible inp p" "pp_price p = None"
        and e: "ex_providerId e = pp_providerId p" "ex_reason e = ''provider_held_out''" "ex_value e = None"
      by (auto simp: heldOutExclusions_def)
    then show ?thesis by (intro bexI [of _ p]) (simp_all add: excludedFor_def)
  next
    case jump
    then obtain p where "p \<in> set (observed inp)" "jumpedOut inp p"
        "ex_providerId e = pp_providerId p" "ex_value e = Some (priceOf p)" "ex_reason e = ''jump_screen''"
      by (auto simp: jumpExclusions_eq)
    then show ?thesis
      by (intro bexI [of _ p]) (auto simp: observed_def priceOf_def excludedFor_def)
  next
    case mad
    have "(ex_providerId e, ex_value e) \<in> set (map (\<lambda>e. (ex_providerId e, ex_value e))
        (ms_exclusions (screened inp (effective inp))))" using mad by auto
    then obtain p where p: "p \<in> set (postJump inp (effective inp))" "outlying inp p"
        "ex_providerId e = pp_providerId p" "ex_value e = Some (priceOf p)"
      unfolding mad_tags [OF assms(1)] by auto
    have "ex_reason e = madReason inp"
      using madScreen_reason [OF mad [unfolded screened_def]]
      by (simp add: madReason_def postJump_eq [OF assms(1)] comp_def Let_def)
    then show ?thesis
      using p by (intro bexI [of _ p])
        (auto simp: postJump_eq [OF assms(1)] observed_def priceOf_def excludedFor_def)
  qed
qed

lemma contributor_included:
  assumes "distinct (map pp_providerId (providerPrices inp))"
    and "c \<in> set (ix_contributors (computeIndex inp))"
  shows "\<exists>p \<in> set (providerPrices inp). co_providerId c = pp_providerId p \<and> Some (co_price c) = pp_price p \<and>
    excludedFor inp p = None"
proof -
  obtain p where p: "p \<in> set (keptResults inp (effective inp))" "pp_providerId p = co_providerId c"
      "co_price c = priceOf p"
    using contributor_source assms(2) by (metis computeIndex_simps(3))
  then show ?thesis
    by (intro bexI [of _ p])
      (auto simp: keptResults_eq [OF assms(1)] postJump_eq [OF assms(1)] observed_def priceOf_def excludedFor_def)
qed

lemma prices_partition:
  assumes "distinct (map pp_providerId (providerPrices inp))"
  shows "mset (map (\<lambda>p. (pp_providerId p, pp_price p))
        (filter (\<lambda>p. isEligible inp p \<or> pp_price p \<noteq> None) (providerPrices inp))) =
      mset (map (\<lambda>c. (co_providerId c, Some (co_price c))) (ix_contributors (computeIndex inp))) +
      mset (map (\<lambda>e. (ex_providerId e, ex_value e)) (ix_exclusions (computeIndex inp)))"
proof -
  let ?ps = "providerPrices inp" and ?obs = "observed inp"
  let ?post = "postJump inp (effective inp)"
  have tags: "map (\<lambda>p. (pp_providerId p, Some (priceOf p))) qs = map tag qs" if "set qs \<subseteq> set ?obs" for qs
    using that observed_price [of _ inp] by auto
  have kept_dist: "distinct (map pp_providerId (keptResults inp (effective inp)))"
    using distinct_observed [OF assms]
    by (simp add: keptResults_def postJump_def distinct_map inj_on_def)
  have "map (\<lambda>c. (co_providerId c, Some (co_price c))) (contributorsOf inp (effective inp)) =
      map (\<lambda>(i, v). (i, Some v)) (map (\<lambda>c. (co_providerId c, co_price c)) (contributorsOf inp (effective inp)))"
    by simp
  also have "\<dots> = map tag (keptResults inp (effective inp))"
    unfolding contributors_tags [OF kept_dist] by (auto intro: observed_price keptResults_observed)
  finally have con: "map (\<lambda>c. (co_providerId c, Some (co_price c))) (contributorsOf inp (effective inp)) =
      map tag (filter (\<lambda>p. \<not> outlying inp p) ?post)"
    by (simp add: keptResults_eq [OF assms])
  have madx: "map (\<lambda>e. (ex_providerId e, ex_value e)) (ms_exclusions (screened inp (effective inp))) =
      map tag (filter (outlying inp) ?post)"
    unfolding mad_tags [OF assms] by (rule tags) (auto simp: postJump_def)
  have "map (\<lambda>e. (ex_providerId e, ex_value e)) (jumpExclusions inp (effective inp)) =
      map (\<lambda>p. (pp_providerId p, Some (priceOf p))) (filter (jumpedOut inp) ?obs)"
    by (simp add: jumpExclusions_eq)
  also have "\<dots> = map tag (filter (jumpedOut inp) ?obs)" by (rule tags) auto
  finally have jumpx: "map (\<lambda>e. (ex_providerId e, ex_value e)) (jumpExclusions inp (effective inp)) =
      map tag (filter (jumpedOut inp) ?obs)" .
  have rolex: "map (\<lambda>e. (ex_providerId e, ex_value e)) (roleExclusions inp) =
      map tag (filter (\<lambda>p. \<not> isEligible inp p \<and> pp_price p \<noteq> None) ?ps)"
    by (simp add: roleExclusions_def)
  have heldx: "map (\<lambda>e. (ex_providerId e, ex_value e)) (heldOutExclusions inp) =
      map tag (filter (\<lambda>p. isEligible inp p \<and> pp_price p = None) ?ps)"
    by (simp add: heldOutExclusions_def)
  have parts: "mset (map tag (filter (\<lambda>p. isEligible inp p \<or> pp_price p \<noteq> None) ps)) =
      mset (map tag (filter (\<lambda>p. \<not> isEligible inp p \<and> pp_price p \<noteq> None) ps)) +
      mset (map tag (filter (\<lambda>p. isEligible inp p \<and> pp_price p = None) ps)) +
      mset (map tag (filter (\<lambda>p. isEligible inp p \<and> pp_price p \<noteq> None) ps))" for ps
    by (induction ps) auto
  have "mset (map tag ?obs) = mset (map tag (filter (jumpedOut inp) ?obs)) + mset (map tag ?post)"
    unfolding postJump_eq [OF assms] by (rule mset_split [symmetric])
  also have "mset (map tag ?post) = mset (map tag (filter (outlying inp) ?post)) +
      mset (map tag (filter (\<lambda>p. \<not> outlying inp p) ?post))"
    by (rule mset_split [symmetric])
  finally show "mset (map (\<lambda>p. (pp_providerId p, pp_price p))
        (filter (\<lambda>p. isEligible inp p \<or> pp_price p \<noteq> None) (providerPrices inp))) =
      mset (map (\<lambda>c. (co_providerId c, Some (co_price c))) (ix_contributors (computeIndex inp))) +
      mset (map (\<lambda>e. (ex_providerId e, ex_value e)) (ix_exclusions (computeIndex inp)))"
    unfolding computeIndex_simps map_append mset_append con parts [of ?ps] madx jumpx rolex heldx
    by (simp add: observed_def)
qed


text \<open>C21. No observed price disappears or changes hands: with one result per provider, the
  receipts of the result (contributors and exclusions together) carry each price of a provider
  result, and each price missing from an eligible provider, exactly once, under its provider and
  with its value. An exclusion names the reason that holds for its provider: not eligible for
  settlement, no price, a jump nobody corroborates, or an outlier of the MAD screen under the test
  in force; a contributor has none of them.\<close>
theorem observed_prices_are_accounted_for:
  assumes "distinct (map pp_providerId (providerPrices inp))"
  shows "mset (map (\<lambda>p. (pp_providerId p, pp_price p))
        (filter (\<lambda>p. isEligible inp p \<or> pp_price p \<noteq> None) (providerPrices inp))) =
      mset (map (\<lambda>c. (co_providerId c, Some (co_price c))) (ix_contributors (computeIndex inp))) +
      mset (map (\<lambda>e. (ex_providerId e, ex_value e)) (ix_exclusions (computeIndex inp))) \<and>
    (\<forall>e \<in> set (ix_exclusions (computeIndex inp)). \<exists>p \<in> set (providerPrices inp).
      ex_providerId e = pp_providerId p \<and> ex_value e = pp_price p \<and> excludedFor inp p = Some (ex_reason e)) \<and>
    (\<forall>c \<in> set (ix_contributors (computeIndex inp)). \<exists>p \<in> set (providerPrices inp).
      co_providerId c = pp_providerId p \<and> Some (co_price c) = pp_price p \<and> excludedFor inp p = None)"
  using prices_partition [OF assms] exclusion_source [OF assms] contributor_included [OF assms] by blast

text \<open>A withheld figure can drift: when the gates fail and the prior is older than the
  carry-forward window, the result is withheld with a price that carries a movement offset,
  although the comment on step 10 says a withheld figure never does.\<close>
theorem withheld_figure_carries_an_offset:
  assumes "anchor inp = Some p" "\<not> allPassed (indexGates inp)"
    and "prior inp = Some pr"
    and "carryForwardWindowMs (effective inp) < of_int (now inp - prior_computedAt pr)"
    and "movement (effective inp) = Some m" "0 < allowancePct m"
  shows "ix_status (computeIndex inp) = withheld \<and>
    (\<exists>d. cp_movementOffset (ix_calcParams (computeIndex inp)) = Some d \<and>
         ix_price (computeIndex inp) = Some (round4 (fadd p d)))"
proof -
  have "weightedPrice (contributorsOf inp (effective inp)) \<noteq> None"
    using assms(1) anchor_None [of inp] by simp
  then obtain w where "weightedPrice (contributorsOf inp (effective inp)) = Some w"
    by blast
  then have v: "indexVerdict inp = fresh_verdict withheld (Some p)"
    using assms by (simp add: indexVerdict_def settle_status_def carryable_def)
  then show ?thesis
    using assms by (simp add: computeIndex_simps movementOffset_def fresh_verdict_def)
qed

end
