(* ===== verification/EngineWitness.thy ===== *)
theory EngineWitness
  imports Engine
begin

text \<open>
  Concrete inputs of the index computation, at which the hypotheses of its properties
  hold: one executable provider at 2 USD, a watchdog provider, a prior candidate, and a
  configuration of small numbers. The parts of the computation are evaluated one at a
  time and the properties applied to the evaluated parts.
\<close>

definition samplePrice :: "string \<Rightarrow> number \<Rightarrow> bool \<Rightarrow> ProviderPriceResult" where
  "samplePrice i p e = \<lparr>pp_providerId = i, pp_gpuId = ''L40S_48GB'', pp_panelId = ''L40S_PANEL_V1'',
     pp_price = Some p, pp_executable = e, pp_method = median_method, pp_sampleSize = 2,
     pp_windowStart = 0, pp_windowEnd = 0, pp_computedAt = 0, pp_methodologyVersion = ''0.5.1'',
     pp_params = RateCardParams [on_demand], pp_exclusions = [], pp_holdout = None,
     pp_flags = \<lparr>coverageGap = False, dedupDroppedCount = 0, bidOffersSkipped = 0,
        arithmeticMismatches = 0, outOfRangeGpuCounts = 0, outOfBandCount = 0\<rparr>\<rparr>"

definition sampleRoles :: "string \<Rightarrow> ProviderRole option" where
  "sampleRoles i = (if i = ''watch'' then Some WATCHDOG_ONLY else Some SETTLEMENT_ELIGIBLE)"

definition sampleStats :: "string \<Rightarrow> ProviderStat option" where
  "sampleStats i = Some \<lparr>ps_sigma = None, ps_lastPriceAt = Some 999000, ps_trailingMedian = None\<rparr>"

definition sampleConfig :: MethodologyConfig where
  "sampleConfig =
    \<lparr>version = ''t'',
     screening = \<lparr>minProvidersForScreen = 4, madScale = 1, sigmaLimit = 3, madZeroRatioBand = 3\<rparr>,
     aggregation = \<lparr>minMachinesForBook = 5, minHostsForBook = 3,
                    arithmeticTolerancePerGpu = 0, gpuCountMin = 1, gpuCountMax = 16,
                    eligibleTiers = [on_demand]\<rparr>,
     weights = \<lparr>w_executable = 1, w_rateCard = 1\<rparr>,
     weightCap = 1 / 2,
     dispersion = \<lparr>disp_max = 1/2, disp_warn = 1/4\<rparr>,
     voteSigmaFloor = 1/4,
     gates = \<lparr>minProviders = 1, minObservations = 1, maxObservationAgeMs = 1800000,
              requireExecutable = True\<rparr>,
     carryForwardWindowMs = 86400000,
     jump = \<lparr>maxProviderJumpPct = 1/4, minCorroborators = 2,
             minCorroboratorMovePct = 1/8\<rparr>,
     movement = None,
     panelOverrides = []\<rparr>"

definition sampleInput :: "MethodologyConfig \<Rightarrow> ProviderPriceResult list \<Rightarrow> PriorCandidate option \<Rightarrow> IndexInput" where
  "sampleInput cfg ps pr = \<lparr>gpu = sampleSku, panelId = ''L40S_PANEL_V1'', providerPrices = ps,
     providerRoles = sampleRoles, providerStats = sampleStats, prior = pr, now = 1000000,
     windowStart = 0, windowEnd = 0, config = cfg\<rparr>"

definition samplePrior :: "PriorCandidate" where
  "samplePrior = \<lparr>prior_price = 3, prior_computedAt = 0, prior_candidateId = ''c0''\<rparr>"

definition strictConfig :: MethodologyConfig where
  "strictConfig = sampleConfig
     \<lparr>gates := \<lparr>minProviders = 2, minObservations = 1, maxObservationAgeMs = 1800000, requireExecutable = True\<rparr>,
      carryForwardWindowMs := 1,
      movement := Some \<lparr>allowancePct = 1 / 16, slotMs = 1000, reversion = 1 / 2, stepPct = 1 / 2\<rparr>\<rparr>"

definition good :: ProviderPriceResult where
  "good = samplePrice ''a'' 2 True"

definition watch :: ProviderPriceResult where
  "watch = samplePrice ''watch'' 9 True"

definition goodReceipt :: ContributionReceipt where
  "goodReceipt = \<lparr>co_providerId = ''a'', co_price = 2, co_weightBeforeCap = 1, co_weightAfterCap = 1,
     co_executable = True, co_sampleSize = 2, co_method = median_method, co_sigma = None\<rparr>"

subsection \<open>The parts, evaluated\<close>

lemma effective_sample [simp]:
  "effectiveConfigFor sampleConfig p = sampleConfig"
  "effectiveConfigFor strictConfig p = strictConfig"
  by (simp_all add: effectiveConfigFor_def sampleConfig_def strictConfig_def)

lemma sampleInput_simps [simp]:
  "config (sampleInput c ps pr) = c" "prior (sampleInput c ps pr) = pr" "now (sampleInput c ps pr) = 1000000"
  "providerPrices (sampleInput c ps pr) = ps" "panelId (sampleInput c ps pr) = ''L40S_PANEL_V1''"
  by (simp_all add: sampleInput_def)

lemma samplePrior_simps [simp]:
  "prior_price samplePrior = 3" "prior_computedAt samplePrior = 0" "prior_candidateId samplePrior = ''c0''"
  by (simp_all add: samplePrior_def)

lemma contributors_sample:
  "contributorsOf (sampleInput sampleConfig [good] None) sampleConfig = [goodReceipt]"
  by code_simp

lemma contributors_strict:
  "contributorsOf (sampleInput strictConfig [good] (Some samplePrior)) strictConfig = [goodReceipt]"
  by code_simp

lemma contributors_empty:
  "contributorsOf (sampleInput sampleConfig [] (Some samplePrior)) sampleConfig = []"
  by code_simp

lemma weightedPrice_good: "weightedPrice [goodReceipt] = Some 2" "round4 2 = 2" "weightedPrice [] = None"
  by code_simp+

lemma dispersion_sample: "indexDispersion (screened (sampleInput sampleConfig [good] None) sampleConfig) = 0"
  by code_simp

lemma dispersion_strict:
  "indexDispersion (screened (sampleInput strictConfig [good] (Some samplePrior)) strictConfig) = 0"
  by code_simp

lemma gates_sample:
  "allPassed (evaluateGates (gateInput (sampleInput sampleConfig [good] None) sampleConfig [goodReceipt] 0))"
  by code_simp

lemma gates_strict:
  "\<not> allPassed (evaluateGates (gateInput (sampleInput strictConfig [good] (Some samplePrior))
     strictConfig [goodReceipt] 0))"
  by code_simp

lemma thresholds_sample:
  "disp_warn (dispersion sampleConfig) = 1 / 4" "minProviders (gates sampleConfig) = 1"
  "carryForwardWindowMs sampleConfig = 86400000" "carryForwardWindowMs strictConfig = 1"
  "movement strictConfig = Some \<lparr>allowancePct = 1 / 16, slotMs = 1000, reversion = 1 / 2, stepPct = 1 / 2\<rparr>"
  by (simp_all add: sampleConfig_def strictConfig_def)

lemma status_sample: "ix_status (computeIndex (sampleInput sampleConfig [good] None)) = healthy"
  by (simp add: computeIndex_simps indexVerdict_def settle_status_def indexGates_def contributors_sample
      weightedPrice_good dispersion_sample gates_sample thresholds_sample fresh_verdict_def)

lemma status_stale: "ix_status (computeIndex (sampleInput sampleConfig [] (Some samplePrior))) = stale"
  by (simp add: computeIndex_simps indexVerdict_def settle_status_def contributors_empty
      weightedPrice_good thresholds_sample carryable_def carried_def)

lemma strict_facts:
  "anchor (sampleInput strictConfig [good] (Some samplePrior)) = Some 2"
  "\<not> allPassed (indexGates (sampleInput strictConfig [good] (Some samplePrior)))"
  by (simp_all add: anchor_def contributors_strict weightedPrice_good indexGates_def dispersion_strict gates_strict)

subsection \<open>Witnesses\<close>

theorem ineligible_prices_witness:
  "(computeIndex (sampleInput sampleConfig [good, watch] None))\<lparr>ix_exclusions := []\<rparr> =
   (computeIndex (sampleInput sampleConfig [good] None))\<lparr>ix_exclusions := []\<rparr>"
proof -
  let ?i = "sampleInput sampleConfig [good] None"
  have "filter (\<lambda>p. providerRoles ?i (pp_providerId p) = Some SETTLEMENT_ELIGIBLE) [good, watch] =
      filter (\<lambda>p. providerRoles ?i (pp_providerId p) = Some SETTLEMENT_ELIGIBLE) (providerPrices ?i)"
    by code_simp
  from ineligible_prices_cannot_move_the_index [OF this] show ?thesis
    by (simp add: sampleInput_def)
qed

theorem published_status_sound_witness:
  "allPassed (ix_gates (computeIndex (sampleInput sampleConfig [good] None))) \<and>
   1 \<le> ix_providersContributing (computeIndex (sampleInput sampleConfig [good] None))"
proof -
  let ?i = "sampleInput sampleConfig [good] None"
  have s: "ix_status (computeIndex ?i) \<in> {healthy, degraded}" by (simp add: status_sample)
  show ?thesis
    using published_status_sound [OF s] status_sample
    by (simp add: thresholds_sample)
qed

theorem stale_is_the_prior_witness:
  "ix_price (computeIndex (sampleInput sampleConfig [] (Some samplePrior))) = Some (round4 3)"
  using stale_is_the_prior [OF status_stale] by (auto simp: thresholds_sample)

theorem withheld_figure_witness:
  "ix_status (computeIndex (sampleInput strictConfig [good] (Some samplePrior))) = withheld \<and>
   (\<exists>d. ix_price (computeIndex (sampleInput strictConfig [good] (Some samplePrior))) = Some (round4 (fadd 2 d)))"
  using withheld_figure_carries_an_offset
    [of "sampleInput strictConfig [good] (Some samplePrior)" 2 samplePrior
      "\<lparr>allowancePct = 1 / 16, slotMs = 1000, reversion = 1 / 2, stepPct = 1 / 2\<rparr>"] strict_facts
  by (auto simp: thresholds_sample)

theorem movement_is_bounded_witness:
  "\<exists>d. cp_movementOffset (ix_calcParams (computeIndex (sampleInput strictConfig [good] (Some samplePrior)))) = Some d \<and>
     \<bar>d\<bar> \<le> \<bar>fmul 2 (1 / 16)\<bar>"
proof -
  let ?i = "sampleInput strictConfig [good] (Some samplePrior)"
  have v: "indexVerdict ?i = fresh_verdict withheld (Some 2)"
    using strict_facts
    by (simp add: indexVerdict_def settle_status_def carryable_def thresholds_sample contributors_strict
        weightedPrice_good)
  obtain d where d: "cp_movementOffset (ix_calcParams (computeIndex ?i)) = Some d"
    by (simp add: computeIndex_simps v strict_facts movementOffset_def thresholds_sample fresh_verdict_def)
  show ?thesis
    using movement_is_bounded [of ?i] d strict_facts(1) by (auto simp: thresholds_sample)
qed

theorem observed_prices_witness:
  "{#(''a'', Some 2), (''watch'', Some 9)#} =
    {#(''a'', Some 2)#} + mset (map (\<lambda>e. (ex_providerId e, ex_value e))
      (ix_exclusions (computeIndex (sampleInput sampleConfig [good, watch] None))))"
proof -
  let ?i = "sampleInput sampleConfig [good, watch] None"
  have dist: "distinct (map pp_providerId (providerPrices ?i))"
    by (simp add: good_def watch_def samplePrice_def)
  have con: "contributorsOf ?i sampleConfig = [goodReceipt]" by code_simp
  have "filter (\<lambda>p. isEligible ?i p \<or> pp_price p \<noteq> None) [good, watch] = [good, watch]"
    by (simp add: good_def watch_def samplePrice_def)
  then show ?thesis
    using observed_prices_are_accounted_for [OF dist] con
    by (simp add: computeIndex_simps(3) goodReceipt_def good_def watch_def samplePrice_def)
qed

end
