(* ===== verification/PricingProperties.thy ===== *)
theory PricingProperties
  imports Engine Band
begin

text \<open>
  The statistical layer of packages/pricing-engine as a whole: what the medians, the
  weight cap, the two screens, the deduplication, the gates and the confidence band
  promise to the index computation that calls them.
\<close>

subsection \<open>Robust statistics\<close>

text \<open>The median splits its sample: at least half of the values lie at or below it and at least
  half at or above it, although the mean of the two middle values is rounded to a double.\<close>
theorem median_half_each_side:
  assumes "median xs = Some m" "\<forall>x \<in> set xs. fl x = x"
  shows "length xs \<le> 2 * length (filter (\<lambda>x. x \<le> m) xs) \<and>
    length xs \<le> 2 * length (filter (\<lambda>x. m \<le> x) xs)"
  using median_splits [OF assms(1)] assms(2) by simp

theorem median_half_each_side_witness:
  "length [3, 1, 2, 7::number] \<le> 2 * length (filter (\<lambda>x. x \<le> 5 / 2) [3, 1, 2, 7::number])"
proof -
  have "median [3, 1, 2, 7] = Some (5 / 2)" "\<forall>x \<in> set [3, 1, 2, 7]. fl x = x"
    by code_simp+
  from median_half_each_side [OF this] show ?thesis by simp
qed

lemma foldl_fadd_double: "xs \<noteq> [] \<Longrightarrow> fl (foldl fadd c xs) = foldl fadd c xs"
proof (induction xs arbitrary: c)
  case (Cons x xs)
  then show ?case by (cases xs) (simp_all add: fadd_def fl_idem)
qed simp

lemma fdiv_two_le: "fl t = t \<Longrightarrow> 0 \<le> t \<Longrightarrow> fdiv t 2 \<le> t"
  using fl_mono [of "t / 2" t] by (simp add: fdiv_def)

text \<open>The weighted median is the first value, in price order, at which the running weight
  reaches half of the total: the fallback to the last value is never taken.\<close>
theorem weightedMedian_reaches_half:
  assumes "weightedMedian vs = Some x"
  shows "\<exists>us v ws. sort_key wvalue vs = us @ v # ws \<and> x = wvalue v \<and>
     fdiv (fsum (map weight (sort_key wvalue vs))) 2 \<le> fsum (map weight (us @ [v])) \<and>
     (\<forall>k < length us. fsum (map weight (take (Suc k) us)) <
        fdiv (fsum (map weight (sort_key wvalue vs))) 2)"
proof -
  let ?s = "sort_key wvalue vs" and ?t = "fsum (map weight (sort_key wvalue vs))"
  have ne: "vs \<noteq> []" and pos: "0 < ?t"
    using assms by (auto simp: weightedMedian_def Let_def split: if_splits)
  have sne: "?s \<noteq> []" using ne by (metis length_0_conv length_sort)
  have "fdiv ?t 2 \<le> ?t"
    using pos foldl_fadd_double [of "map weight ?s" 0] sne by (intro fdiv_two_le) (auto simp: fsum_def)
  then have "firstReaching (fdiv ?t 2) 0 ?s \<noteq> None"
    using firstReaching_None [of "fdiv ?t 2" 0 ?s] sne by (auto simp: fsum_def)
  then have "firstReaching (fdiv ?t 2) 0 ?s = Some x"
    using assms ne pos by (auto simp: weightedMedian_def Let_def split: option.splits if_splits)
  from firstReaching_split [OF this] show ?thesis
    by (simp add: fsum_def)
qed

theorem weightedMedian_reaches_half_witness:
  "\<exists>us v ws. sort_key wvalue [\<lparr>wvalue = 4, weight = 1\<rparr>, \<lparr>wvalue = 2, weight = 3\<rparr>] = us @ v # ws \<and> 2 = wvalue v"
proof -
  have "weightedMedian [\<lparr>wvalue = 4, weight = 1\<rparr>, \<lparr>wvalue = 2, weight = 3\<rparr>] = Some 2" by code_simp
  from weightedMedian_reaches_half [OF this] show ?thesis by blast
qed

subsection \<open>The weight cap\<close>

text \<open>Capping keeps the providers and their order, records every weight it was given, leaves no
  negative weight, and either changes nothing or strictly lowers the largest share.\<close>
theorem capWeights_sound:
  assumes "weights_ok (map wi_weight items)" "0 \<le> cap" "cap \<le> 1"
  shows "map cw_providerId (capWeights items cap) = map wi_providerId items \<and>
    map weightBeforeCap (capWeights items cap) = map wi_weight items \<and>
    weights_ok (map weightAfterCap (capWeights items cap)) \<and>
    (map weightAfterCap (capWeights items cap) = map wi_weight items \<or>
     improvedShare (map wi_weight items) (map weightAfterCap (capWeights items cap)))"
proof -
  let ?b = "map wi_weight items" and ?l = "capLoop 60 cap (map wi_weight items)"
  define out where "out = (if improvedShare ?b ?l then ?l else ?b)"
  have len: "length out = length items" by (simp add: out_def)
  have cw: "capWeights items cap = map2 (\<lambda>item w. \<lparr>cw_providerId = wi_providerId item,
      weightBeforeCap = wi_weight item, weightAfterCap = w\<rparr>) items out"
    by (simp add: capWeights_def out_def Let_def)
  have "map weightAfterCap (capWeights items cap) = out"
    using len by (simp add: cw split_def comp_def)
  moreover have "map cw_providerId (capWeights items cap) = map wi_providerId items"
      "map weightBeforeCap (capWeights items cap) = ?b"
    using len by (simp_all add: cw list_eq_iff_nth_eq)
  moreover have "weights_ok out"
    using assms capLoop_weights_ok by (simp add: out_def)
  moreover have "out = ?b \<or> improvedShare ?b out" by (simp add: out_def)
  ultimately show ?thesis by simp
qed

theorem capWeights_sound_witness:
  "map cw_providerId (capWeights [\<lparr>wi_providerId = ''a'', wi_weight = 8\<rparr>, \<lparr>wi_providerId = ''b'', wi_weight = 1\<rparr>] (1 / 2))
    = [''a'', ''b'']"
proof -
  have "weights_ok (map wi_weight [\<lparr>wi_providerId = ''a'', wi_weight = 8\<rparr>, \<lparr>wi_providerId = ''b'', wi_weight = 1\<rparr>])"
    by code_simp
  from capWeights_sound [OF this, of "1 / 2"] show ?thesis by simp
qed

subsection \<open>The screens\<close>

text \<open>The MAD screen never throws away most of the market: it keeps at least half of the
  candidates, each of them as it came, and every other one has a receipt.\<close>
theorem madScreen_keeps_majority:
  assumes "\<forall>c \<in> set cs. fl (sc_price c) = sc_price c"
    and "1 \<le> madScale cfg" "1 \<le> sigmaLimit cfg" "1 \<le> madZeroRatioBand cfg"
  shows "length cs \<le> 2 * length (kept (madScreen cs cfg)) \<and>
    length (kept (madScreen cs cfg)) + length (ms_exclusions (madScreen cs cfg)) = length cs \<and>
    set (kept (madScreen cs cfg)) \<subseteq> set cs"
  using madScreen_keeps_half [of cs cfg] assms madScreen_accounting [of cs cfg]
  by (auto simp: madScreen_kept)

definition screenSample :: "ScreenCandidate list" where
  "screenSample = map (\<lambda>(i, p). \<lparr>sc_providerId = i, sc_price = p\<rparr>)
     [(''a'', 2), (''b'', 2), (''c'', 9), (''d'', 3), (''e'', 2)]"

theorem madScreen_keeps_majority_witness:
  "5 \<le> 2 * length (kept (madScreen screenSample
     \<lparr>minProvidersForScreen = 4, madScale = 1, sigmaLimit = 3, madZeroRatioBand = 3\<rparr>))"
proof -
  have "\<forall>c \<in> set screenSample. fl (sc_price c) = sc_price c" by code_simp
  from madScreen_keeps_majority [OF this, of "\<lparr>minProvidersForScreen = 4, madScale = 1, sigmaLimit = 3, madZeroRatioBand = 3\<rparr>"]
  show ?thesis by (simp add: screenSample_def)
qed

text \<open>A move of the whole market excludes nobody: when more comparable providers moved than
  corroborators are asked for, the jump screen reports no exclusion.\<close>
theorem jumpScreen_spares_market_moves:
  assumes "distinct (map sc_providerId cs)"
    and "minCorroborators cfg <
      int (length (filter (\<lambda>c. comparable c \<and> minCorroboratorMovePct cfg \<le> move c) cs))"
  shows "jumpScreen cs cfg = []"
  using assms by (rule jumpScreen_market_move)

definition jumpSample :: "JumpCandidate list" where
  "jumpSample = map (\<lambda>(i, p). \<lparr>sc_providerId = i, sc_price = p, trailingMedian = Some 2\<rparr>)
     [(''a'', 4), (''b'', 4), (''c'', 5)]"

theorem jumpScreen_spares_market_moves_witness:
  "jumpScreen jumpSample \<lparr>maxProviderJumpPct = 1/4, minCorroborators = 2, minCorroboratorMovePct = 1/8\<rparr> = []"
  by (rule jumpScreen_spares_market_moves) code_simp+

subsection \<open>Deduplication\<close>

text \<open>After deduplication each machine has exactly one row in the book, a row of the provider
  that no other row of that machine undercuts, and the counter counts the rows dropped.\<close>
theorem dedupBook_cheapest:
  "distinct (map fst (fst (dedupBook es))) \<and>
   length (js_values (fst (dedupBook es))) + snd (dedupBook es) = length es \<and>
   (\<forall>e \<in> set es. \<exists>q \<in> set es. js_get (fst (dedupBook es)) (bookKey e) = Some q \<and>
      bookKey q = bookKey e \<and> usdPerGpuHour (fst q) \<le> usdPerGpuHour (fst e))"
proof -
  have inv: "dedup_inv es (dedupBook es)" by (rule dedupBook_inv)
  have "\<exists>q \<in> set es. js_get (fst (dedupBook es)) (bookKey e) = Some q \<and>
      bookKey q = bookKey e \<and> usdPerGpuHour (fst q) \<le> usdPerGpuHour (fst e)" if "e \<in> set es" for e
    using inv that by (auto simp: dedup_inv_def js_has_def)
  then show ?thesis
    using inv by (simp add: dedup_inv_def js_ok_def js_values_def)
qed

theorem dedupBook_cheapest_witness:
  "\<exists>q \<in> {(sampleRow ''m'' ''h'' 2, 0), (sampleRow ''m'' ''h'' 1, 1)}.
     js_get (fst (dedupBook [(sampleRow ''m'' ''h'' 2, 0), (sampleRow ''m'' ''h'' 1, 1)])) ''m'' = Some q \<and>
     usdPerGpuHour (fst q) \<le> 2"
  using dedupBook_cheapest [of "[(sampleRow ''m'' ''h'' 2, 0), (sampleRow ''m'' ''h'' 1, 1)]"]
  by (simp add: bookKey_def sampleRow_def)

subsection \<open>Gates and the band\<close>

text \<open>The gates pass exactly when enough providers and observations contribute, every
  contributor has a known and recent last print, one of them is executable where that is
  required, and the dispersion is at most its maximum.\<close>
theorem gates_pass_iff:
  "allPassed (evaluateGates inp) =
    (minProviders (gi_gates inp) \<le> int (length (gi_contributors inp)) \<and>
     minObservations (gi_gates inp) \<le> int (sum_list (map co_sampleSize (gi_contributors inp))) \<and>
     gi_contributors inp \<noteq> [] \<and> (\<forall>c \<in> set (gi_contributors inp). fresh inp c) \<and>
     (\<not> requireExecutable (gi_gates inp) \<or> (\<exists>c \<in> set (gi_contributors inp). co_executable c)) \<and>
     gi_dispersion inp \<le> disp_max (gi_dispersionConfig inp))"
  by (simp only: allPassed_evaluateGates freshnessGate_passed conj_assoc)

definition gateSample :: GateInput where
  "gateSample =
     \<lparr>gi_contributors = [\<lparr>co_providerId = ''a'', co_price = 2, co_weightBeforeCap = 1, co_weightAfterCap = 1,
        co_executable = True, co_sampleSize = 2, co_method = median_method, co_sigma = None\<rparr>],
      gi_now = 1000, gi_lastPriceAt = (\<lambda>_. Some (Some 500)),
      gi_gates = \<lparr>minProviders = 1, minObservations = 1, maxObservationAgeMs = 1000, requireExecutable = True\<rparr>,
      gi_dispersion = 0, gi_dispersionConfig = \<lparr>disp_max = 1 / 2, disp_warn = 1 / 4\<rparr>\<rparr>"

theorem gates_pass_iff_witness: "allPassed (evaluateGates gateSample)"
  using gates_pass_iff [of gateSample] by (simp add: gateSample_def fresh_def)

text \<open>A confidence band contains the value it is about, also after the three figures are
  rounded to four decimals.\<close>
theorem band_contains_value:
  assumes "confidenceBand votes = Some b"
  shows "band_low b \<le> band_value b \<and> band_value b \<le> band_high b"
  using assms by (rule confidenceBand_contains)

definition voteSample :: "ConfidenceVote list" where
  "voteSample = [\<lparr>cv_providerId = ''a'', cv_price = 2, cv_sigma = 0, cv_weight = 1\<rparr>]"

definition pointSample :: "VotePoint list" where
  "pointSample = replicate 3 \<lparr>vp_value = 2, vp_weight = 1\<rparr>"

lemma voteSample_points:
  "sortedPoints voteSample = pointSample" "fsum (map vp_weight pointSample) = 3"
  "windowLoop (fdiv 3 3) (fdiv (fmul 2 3) 3) pointSample (0, 0, 0) = (3, 2, 1)"
  by code_simp+

theorem band_contains_value_witness:
  "\<exists>b. confidenceBand voteSample = Some b \<and> band_low b \<le> band_value b \<and> band_value b \<le> band_high b"
proof -
  have "confidenceBand voteSample \<noteq> None"
    using voteSample_points by (simp add: confidenceBand_def Let_def) (simp add: voteSample_def)
  then obtain b where b: "confidenceBand voteSample = Some b" by blast
  from band_contains_value [OF b] b show ?thesis by blast
qed

end
