(* ===== verification/KeeperMath.thy ===== *)
theory KeeperMath
  imports JsNumber "HOL-Library.Signed_Division" "HOL-Library.Monad_Syntax"
begin

text \<open>
  apps/keeper/src/math.ts: the offline replica of the engine's perpetuals arithmetic.
  A \<open>bigint\<close> is an \<open>int\<close>; its division truncates (\<open>sdiv\<close>) and throws a
  \<open>RangeError\<close> on zero, which is the result \<open>None\<close>.
\<close>

definition BPS :: int where "BPS = 10000"
definition FUNDING_SCALE :: int where "FUNDING_SCALE = 10 ^ 18"
definition PPM :: int where "PPM = 1000000"
definition MAX_RATE_PPM_PER_SEC :: int where "MAX_RATE_PPM_PER_SEC = 100000"
definition MAX_WINDOW_SEC :: int where "MAX_WINDOW_SEC = 3600"
definition PRICE_SCALE :: int where "PRICE_SCALE = 10000"

datatype Rounding = floor_r | ceil_r

definition mulDiv :: "int \<Rightarrow> int \<Rightarrow> int \<Rightarrow> Rounding \<Rightarrow> int option" where
  "mulDiv a b d r =
     (if d = 0 then None else
      let n = a * b; q = n sdiv d
      in if r = floor_r \<or> n smod d = 0 then Some q else Some (q + 1))"

definition feeBps :: "int \<Rightarrow> int \<Rightarrow> int option" where
  "feeBps amount bps = mulDiv amount bps BPS ceil_r"

definition maintenance :: "int \<Rightarrow> int \<Rightarrow> int option" where
  "maintenance sizeUsd mmBps = mulDiv sizeUsd mmBps BPS ceil_r"

definition pnl :: "int \<Rightarrow> int \<Rightarrow> bool \<Rightarrow> int \<Rightarrow> int option" where
  "pnl sizeUsd entry isLong price =
     (if sizeUsd = 0 \<or> price = entry then Some 0 else
      let wins = (if isLong then entry < price else price < entry) in
      if wins then
        (let deltaUp = (if isLong then price - entry else entry - price)
         in mulDiv sizeUsd deltaUp entry floor_r)
      else
        (let delta = (if isLong then entry - price else price - entry)
         in map_option uminus (mulDiv sizeUsd delta entry ceil_r)))"

definition fundingOwed :: "int \<Rightarrow> int \<Rightarrow> int \<Rightarrow> int option" where
  "fundingOwed sizeUsd cum checkpoint =
     (if cum \<le> checkpoint then Some 0 else mulDiv sizeUsd (cum - checkpoint) FUNDING_SCALE ceil_r)"

definition fundingEarned :: "int \<Rightarrow> int \<Rightarrow> int \<Rightarrow> int option" where
  "fundingEarned sizeUsd cum checkpoint =
     (if cum \<le> checkpoint then Some 0 else mulDiv sizeUsd (cum - checkpoint) FUNDING_SCALE floor_r)"

definition skewFraction :: "int \<Rightarrow> int \<Rightarrow> int option" where
  "skewFraction longOi shortOi =
     (let totalOi = longOi + shortOi in
      if totalOi = 0 then Some 0 else
      let skew = (if shortOi \<le> longOi then longOi - shortOi else shortOi - longOi)
      in mulDiv skew FUNDING_SCALE totalOi floor_r)"

definition fundingDrift :: "int \<Rightarrow> int \<Rightarrow> int \<Rightarrow> int option" where
  "fundingDrift ratePpm windowSec skewFrac = mulDiv ratePpm (windowSec * skewFrac) PPM floor_r"

definition borrowDrift :: "int \<Rightarrow> int \<Rightarrow> int option" where
  "borrowDrift ratePpm windowSec = mulDiv ratePpm (windowSec * FUNDING_SCALE) PPM ceil_r"

record MarketFunding =
  openNotionalLong :: int
  openNotionalShort :: int
  fundingChargePerUnitLong :: int
  fundingChargePerUnitShort :: int
  fundingCreditPerUnitLong :: int
  fundingCreditPerUnitShort :: int
  borrowChargePerUnit :: int
  fundingUpdatedAtSec :: int
  fundingRatePpmPerSec :: int
  borrowRatePpmPerSec :: int

record AdvancedFunding =
  adv_chargeLong :: int
  adv_chargeShort :: int
  adv_creditLong :: int
  adv_creditShort :: int
  adv_borrow :: int
  adv_windowSec :: int

subsection \<open>Accrual\<close>

definition fundingWindow :: "('m) MarketFunding_scheme \<Rightarrow> int \<Rightarrow> int" where
  "fundingWindow m nowSec =
     (let dt = nowSec - fundingUpdatedAtSec m in if MAX_WINDOW_SEC < dt then MAX_WINDOW_SEC else dt)"

definition unadvanced :: "('m) MarketFunding_scheme \<Rightarrow> AdvancedFunding" where
  "unadvanced m =
     \<lparr>adv_chargeLong = fundingChargePerUnitLong m, adv_chargeShort = fundingChargePerUnitShort m,
      adv_creditLong = fundingCreditPerUnitLong m, adv_creditShort = fundingCreditPerUnitShort m,
      adv_borrow = borrowChargePerUnit m, adv_windowSec = 0\<rparr>"

text \<open>The skew step: the heavier side is charged, the lighter side (if it exists) is credited.\<close>

definition accrueSkew ::
  "('m) MarketFunding_scheme \<Rightarrow> int \<Rightarrow> int \<Rightarrow> AdvancedFunding \<Rightarrow> AdvancedFunding option" where
  "accrueSkew m window skewFrac out =
     (if skewFrac > 0 \<and> fundingRatePpmPerSec m > 0 then
        let rate = (if fundingRatePpmPerSec m > MAX_RATE_PPM_PER_SEC then MAX_RATE_PPM_PER_SEC
                    else fundingRatePpmPerSec m)
        in do {
          drift \<leftarrow> fundingDrift rate window skewFrac;
          if openNotionalLong m \<ge> openNotionalShort m then
            (let out1 = out\<lparr>adv_chargeLong := adv_chargeLong out + drift\<rparr> in
             if openNotionalShort m > 0 then do {
               c \<leftarrow> mulDiv drift (openNotionalLong m) (openNotionalShort m) floor_r;
               Some (out1\<lparr>adv_creditShort := adv_creditShort out1 + c\<rparr>)
             } else Some out1)
          else
            (let out1 = out\<lparr>adv_chargeShort := adv_chargeShort out + drift\<rparr> in
             if openNotionalLong m > 0 then do {
               c \<leftarrow> mulDiv drift (openNotionalShort m) (openNotionalLong m) floor_r;
               Some (out1\<lparr>adv_creditLong := adv_creditLong out1 + c\<rparr>)
             } else Some out1)
        }
      else Some out)"

definition accrueBorrow ::
  "('m) MarketFunding_scheme \<Rightarrow> int \<Rightarrow> AdvancedFunding \<Rightarrow> AdvancedFunding option" where
  "accrueBorrow m window out =
     (if borrowRatePpmPerSec m > 0 then do {
        d \<leftarrow> borrowDrift (borrowRatePpmPerSec m) window;
        Some (out\<lparr>adv_borrow := adv_borrow out + d\<rparr>)
      } else Some out)"

definition advanceFunding :: "('m) MarketFunding_scheme \<Rightarrow> int \<Rightarrow> AdvancedFunding option" where
  "advanceFunding m nowSec =
     (let out = unadvanced m in
      if nowSec \<le> fundingUpdatedAtSec m then Some out else
      let window = fundingWindow m nowSec; out1 = out\<lparr>adv_windowSec := window\<rparr>
      in do {
        skewFrac \<leftarrow> skewFraction (openNotionalLong m) (openNotionalShort m);
        out2 \<leftarrow> accrueSkew m window skewFrac out1;
        accrueBorrow m window out2
      })"

subsection \<open>Settlement and the gates\<close>

record PositionFunding =
  sizeUsd :: int
  collateral :: int
  entryPrice :: int
  fundingFeeCheckpoint :: int
  fundingCreditCheckpoint :: int
  borrowCheckpoint :: int
  earnedFunding :: int
  isLong :: bool

record Settlement =
  owed :: int
  earned :: int
  borrow :: int

definition settle ::
  "AdvancedFunding \<Rightarrow> ('p) PositionFunding_scheme \<Rightarrow> Settlement option" where
  "settle adv p =
     (let feeCum = (if isLong p then adv_chargeLong adv else adv_chargeShort adv);
          creditCum = (if isLong p then adv_creditLong adv else adv_creditShort adv)
      in do {
        o' \<leftarrow> fundingOwed (sizeUsd p) feeCum (fundingFeeCheckpoint p);
        e \<leftarrow> fundingEarned (sizeUsd p) creditCum (fundingCreditCheckpoint p);
        b \<leftarrow> fundingOwed (sizeUsd p) (adv_borrow adv) (borrowCheckpoint p);
        Some \<lparr>owed = o', earned = e, borrow = b\<rparr>
      })"

definition equity :: "('p) PositionFunding_scheme \<Rightarrow> Settlement \<Rightarrow> int \<Rightarrow> int option" where
  "equity p s price = do {
     u \<leftarrow> pnl (sizeUsd p) (entryPrice p) (isLong p) price;
     Some (collateral p + u + earnedFunding p + earned s - (owed s + borrow s))
   }"

definition isLiquidatable :: "('p) PositionFunding_scheme \<Rightarrow> Settlement \<Rightarrow> int \<Rightarrow> int \<Rightarrow> bool option" where
  "isLiquidatable p s price mmBps =
     (if sizeUsd p = 0 then Some False else do {
        e \<leftarrow> equity p s price;
        m \<leftarrow> maintenance (sizeUsd p) mmBps;
        Some (e < m)
      })"

datatype TriggerKind = StopLoss | TakeProfit

definition triggerMet :: "TriggerKind \<Rightarrow> bool \<Rightarrow> int \<Rightarrow> int \<Rightarrow> bool" where
  "triggerMet kind long price trigger =
     (if kind = TakeProfit then (if long then price \<ge> trigger else price \<le> trigger)
      else (if long then price \<le> trigger else price \<ge> trigger))"

definition acceptablePriceMet :: "bool \<Rightarrow> bool \<Rightarrow> int \<Rightarrow> int \<Rightarrow> bool" where
  "acceptablePriceMet long isIncrease price bound =
     (if isIncrease then (if long then price \<le> bound else price \<ge> bound)
      else (if long then price \<ge> bound else price \<le> bound))"

definition scalePrice :: "number \<Rightarrow> int" where
  "scalePrice price = js_round (fmul price (of_int PRICE_SCALE))"

subsection \<open>Rounding\<close>

lemmas scale_defs = BPS_def FUNDING_SCALE_def PPM_def MAX_RATE_PPM_PER_SEC_def MAX_WINDOW_SEC_def

lemma sdiv_pos: "0 \<le> n \<Longrightarrow> 0 < d \<Longrightarrow> n sdiv d = n div (d::int)"
  by (simp add: signed_divide_int_def sgn_if)

lemma mulDiv_floor: "0 \<le> a * b \<Longrightarrow> 0 < d \<Longrightarrow> mulDiv a b d floor_r = Some (a * b div d)"
  by (simp add: mulDiv_def sdiv_pos Let_def)

definition cdiv :: "int \<Rightarrow> int \<Rightarrow> int" where \<comment> \<open>division rounding up\<close>
  "cdiv n d = - ((- n) div d)"

lemma mulDiv_ceil:
  assumes "0 \<le> a * b" "0 < d"
  shows "mulDiv a b d ceil_r = Some (cdiv (a * b) d)"
proof -
  let ?n = "a * b"
  have smod: "?n smod d = ?n mod d"
    using assms by (auto simp: signed_modulo_int_def sgn_if)
  have "cdiv ?n d = (if ?n mod d = 0 then ?n div d else ?n div d + 1)"
    using assms by (simp add: cdiv_def zdiv_zminus1_eq_if)
  then show ?thesis
    using assms smod by (simp add: mulDiv_def sdiv_pos Let_def)
qed

lemma cdiv_bounds: "0 < d \<Longrightarrow> n \<le> cdiv n d * d \<and> cdiv n d * d < n + d"
proof -
  assume d: "0 < d"
  have "(- n) div d * d + (- n) mod d = - n" by (rule div_mult_mod_eq)
  moreover have "0 \<le> (- n) mod d" "(- n) mod d < d" using d by simp_all
  moreover have "cdiv n d * d = - ((- n) div d * d)" by (simp add: cdiv_def)
  ultimately show ?thesis by linarith
qed

lemma cdiv_nonneg: "0 \<le> n \<Longrightarrow> 0 < d \<Longrightarrow> 0 \<le> cdiv n d"
  using div_nonpos_pos_le0 [of "- n" d] by (simp add: cdiv_def)

lemma cdiv_mono: "n \<le> m \<Longrightarrow> 0 < d \<Longrightarrow> cdiv n d \<le> cdiv m d"
  by (simp add: cdiv_def zdiv_mono1)

lemma div_le_cdiv: "0 < d \<Longrightarrow> n div d \<le> cdiv n d" and cdiv_le_div: "0 < d \<Longrightarrow> cdiv n d \<le> n div d + 1"
  by (simp_all add: cdiv_def zdiv_zminus1_eq_if)

subsection \<open>Profit and loss\<close>

text \<open>On the valid range the branches of \<open>pnl\<close> are one expression: the gain rounded down.\<close>

lemma pnl_valid:
  assumes "0 \<le> sz" "0 < entry"
  shows "pnl sz entry long price =
    Some (sz * (if long then price - entry else entry - price) div entry)"
proof -
  have gain: "mulDiv sz d entry floor_r = Some (sz * d div entry)" if "0 \<le> d" for d
    using assms that by (intro mulDiv_floor) auto
  have loss: "map_option uminus (mulDiv sz d entry ceil_r) = Some (sz * (- d) div entry)" if "0 \<le> d" for d
    using assms that mulDiv_ceil [of sz d entry] by (simp add: cdiv_def)
  show ?thesis
    using gain [of "price - entry"] gain [of "entry - price"] loss [of "price - entry"] loss [of "entry - price"]
    by (auto simp: pnl_def Let_def)
qed

lemma div_uminus_sum: "0 < (d::int) \<Longrightarrow> n div d + (- n) div d \<in> {- 1, 0}"
  by (simp add: zdiv_zminus1_eq_if)

text \<open>Profit and loss never pays out more than it takes in: a long and a short of the same size and
  entry sum to zero or to one unit in the vault's favour, at every price.\<close>
theorem pnl_favours_the_vault:
  assumes "0 \<le> sz" "0 < entry"
  shows "\<exists>l s. pnl sz entry True price = Some l \<and> pnl sz entry False price = Some s \<and> l + s \<in> {- 1, 0}"
proof -
  have "sz * (entry - price) = - (sz * (price - entry))" by (simp add: algebra_simps)
  then show ?thesis
    using pnl_valid [OF assms, of True price] pnl_valid [OF assms, of False price]
      div_uminus_sum [OF assms(2), of "sz * (price - entry)"] by auto
qed

theorem pnl_favours_the_vault_witness:
  "\<exists>l s. pnl 1000000 30000 True 29999 = Some l \<and> pnl 1000000 30000 False 29999 = Some s \<and> l + s \<in> {- 1, 0}"
  by (rule pnl_favours_the_vault) simp_all

lemma pnl_mono:
  assumes "0 \<le> sz" "0 < entry" "if long then price' \<le> price else price \<le> price'"
  shows "\<exists>u u'. pnl sz entry long price = Some u \<and> pnl sz entry long price' = Some u' \<and> u' \<le> u"
proof -
  have "sz * (if long then price' - entry else entry - price') \<le>
      sz * (if long then price - entry else entry - price)"
    using assms by (intro mult_left_mono) (auto split: if_splits)
  then show ?thesis
    using pnl_valid [OF assms(1,2)] assms(2) by (auto intro: zdiv_mono1)
qed

text \<open>Liquidation is monotone: once a position can be liquidated, a price that is worse for it
  leaves it liquidatable.\<close>
theorem liquidation_is_monotone:
  assumes "isLiquidatable p s price mmBps = Some True"
    and "0 \<le> sizeUsd p" "0 < entryPrice p" "if isLong p then price' \<le> price else price \<le> price'"
  shows "isLiquidatable p s price' mmBps = Some True"
proof -
  obtain u u' where "pnl (sizeUsd p) (entryPrice p) (isLong p) price = Some u"
      "pnl (sizeUsd p) (entryPrice p) (isLong p) price' = Some u'" "u' \<le> u"
    using pnl_mono [OF assms(2-4)] by blast
  then show ?thesis
    using assms(1) by (auto simp: isLiquidatable_def equity_def bind_eq_Some_conv split: if_splits)
qed

subsection \<open>Funding\<close>

lemma skew_total:
  assumes "0 \<le> l" "0 \<le> s"
  shows "\<exists>f. skewFraction l s = Some f \<and> 0 \<le> f \<and> f \<le> FUNDING_SCALE \<and> (l = s \<longrightarrow> f = 0) \<and>
     (l * s = 0 \<and> l + s \<noteq> 0 \<longrightarrow> f = FUNDING_SCALE)"
proof (cases "l + s = 0")
  case True
  then show ?thesis by (auto simp: skewFraction_def scale_defs)
next
  case False
  then have t: "0 < l + s" using assms by simp
  define d where "d = (if s \<le> l then l - s else s - l)"
  have d: "0 \<le> d" "d \<le> l + s" using assms by (auto simp: d_def)
  have "d * FUNDING_SCALE div (l + s) \<le> (l + s) * FUNDING_SCALE div (l + s)"
    using d t by (intro zdiv_mono1 mult_right_mono) (auto simp: scale_defs)
  then have "d * FUNDING_SCALE div (l + s) \<le> FUNDING_SCALE" using t by simp
  moreover have "0 \<le> d * FUNDING_SCALE div (l + s)"
    using d t by (simp add: pos_imp_zdiv_nonneg_iff scale_defs)
  moreover have "skewFraction l s = Some (d * FUNDING_SCALE div (l + s))"
    using d t False mulDiv_floor [of d FUNDING_SCALE "l + s"]
    by (simp add: skewFraction_def d_def Let_def scale_defs)
  moreover have "l = s \<Longrightarrow> d = 0" by (simp add: d_def)
  moreover have "l * s = 0 \<Longrightarrow> d = l + s" using assms by (auto simp: d_def)
  ultimately show ?thesis using t by auto
qed

text \<open>The skew fraction is a fraction: between zero and one in units of 1e18, zero exactly when
  the two sides balance to that precision, and total on every book that is not negative.\<close>
theorem skewFraction_range:
  assumes "0 \<le> l" "0 \<le> s"
  shows "\<exists>f. skewFraction l s = Some f \<and> 0 \<le> f \<and> f \<le> FUNDING_SCALE \<and> (l = s \<longrightarrow> f = 0) \<and>
     (l * s = 0 \<and> l + s \<noteq> 0 \<longrightarrow> f = FUNDING_SCALE)"
  by (rule skew_total [OF assms])

lemma skew_step:
  assumes "0 \<le> openNotionalLong m" "0 \<le> openNotionalShort m" "0 \<le> window" "0 \<le> f"
  shows "\<exists>out'. accrueSkew m window f out = Some out' \<and>
     0 \<le> adv_chargeLong out' - adv_chargeLong out \<and> 0 \<le> adv_chargeShort out' - adv_chargeShort out \<and>
     0 \<le> adv_creditLong out' - adv_creditLong out \<and> 0 \<le> adv_creditShort out' - adv_creditShort out \<and>
     (adv_creditShort out' - adv_creditShort out) * openNotionalShort m \<le>
       (adv_chargeLong out' - adv_chargeLong out) * openNotionalLong m \<and>
     (adv_creditLong out' - adv_creditLong out) * openNotionalLong m \<le>
       (adv_chargeShort out' - adv_chargeShort out) * openNotionalShort m \<and>
     adv_borrow out' = adv_borrow out \<and> adv_windowSec out' = adv_windowSec out"
proof (cases "f > 0 \<and> fundingRatePpmPerSec m > 0")
  case False
  then show ?thesis by (auto simp: accrueSkew_def)
next
  case True
  define rate where "rate = (if fundingRatePpmPerSec m > MAX_RATE_PPM_PER_SEC then MAX_RATE_PPM_PER_SEC
     else fundingRatePpmPerSec m)"
  define drift where "drift = rate * (window * f) div PPM"
  have r: "0 \<le> rate" using True by (simp add: rate_def scale_defs)
  then have dr: "fundingDrift rate window f = Some drift" "0 \<le> drift"
    using assms mulDiv_floor [of rate "window * f" PPM]
    by (simp_all add: fundingDrift_def drift_def scale_defs pos_imp_zdiv_nonneg_iff)
  have credit: "mulDiv drift a b floor_r = Some (drift * a div b)" "0 \<le> drift * a div b"
      "drift * a div b * b \<le> drift * a" if "0 \<le> a" "0 < b" for a b
    using that dr(2) mulDiv_floor [of drift a b] div_bounds [of b "drift * a"]
    by (simp_all add: pos_imp_zdiv_nonneg_iff)
  show ?thesis
    using True dr credit [of "openNotionalLong m" "openNotionalShort m"]
      credit [of "openNotionalShort m" "openNotionalLong m"] assms
    by (auto simp: accrueSkew_def rate_def [symmetric] Let_def)
qed

definition market_ok :: "('m) MarketFunding_scheme \<Rightarrow> bool" where
  "market_ok m \<longleftrightarrow> 0 \<le> openNotionalLong m \<and> 0 \<le> openNotionalShort m"

lemma borrow_step:
  assumes "0 \<le> window"
  shows "\<exists>d. accrueBorrow m window out = Some (out\<lparr>adv_borrow := adv_borrow out + d\<rparr>) \<and> 0 \<le> d"
proof (cases "borrowRatePpmPerSec m > 0")
  case True
  then have "borrowDrift (borrowRatePpmPerSec m) window =
      Some (cdiv (borrowRatePpmPerSec m * (window * FUNDING_SCALE)) PPM)"
    using assms by (simp add: borrowDrift_def mulDiv_ceil scale_defs)
  then show ?thesis
    using True assms cdiv_nonneg [of "borrowRatePpmPerSec m * (window * FUNDING_SCALE)" PPM]
    by (simp add: accrueBorrow_def scale_defs) blast
next
  case False
  then show ?thesis by (intro exI [of _ 0]) (simp add: accrueBorrow_def)
qed

lemma advance_total:
  assumes "market_ok m"
  shows "\<exists>adv. advanceFunding m nowSec = Some adv \<and> 0 \<le> adv_windowSec adv \<and> adv_windowSec adv \<le> 3600 \<and>
     fundingChargePerUnitLong m \<le> adv_chargeLong adv \<and> fundingChargePerUnitShort m \<le> adv_chargeShort adv \<and>
     fundingCreditPerUnitLong m \<le> adv_creditLong adv \<and> fundingCreditPerUnitShort m \<le> adv_creditShort adv \<and>
     borrowChargePerUnit m \<le> adv_borrow adv \<and>
     (adv_creditShort adv - fundingCreditPerUnitShort m) * openNotionalShort m \<le>
       (adv_chargeLong adv - fundingChargePerUnitLong m) * openNotionalLong m \<and>
     (adv_creditLong adv - fundingCreditPerUnitLong m) * openNotionalLong m \<le>
       (adv_chargeShort adv - fundingChargePerUnitShort m) * openNotionalShort m \<and>
     (nowSec \<le> fundingUpdatedAtSec m \<longrightarrow> adv = unadvanced m)"
proof (cases "nowSec \<le> fundingUpdatedAtSec m")
  case True
  then show ?thesis by (simp add: advanceFunding_def unadvanced_def)
next
  case False
  let ?w = "fundingWindow m nowSec"
  let ?out = "(unadvanced m)\<lparr>adv_windowSec := ?w\<rparr>"
  have oi: "0 \<le> openNotionalLong m" "0 \<le> openNotionalShort m" using assms by (auto simp: market_ok_def)
  have w: "0 \<le> ?w" "?w \<le> 3600" using False by (auto simp: fundingWindow_def Let_def scale_defs)
  obtain f where f: "skewFraction (openNotionalLong m) (openNotionalShort m) = Some f" "0 \<le> f"
    using skew_total [OF oi] by blast
  obtain o2 where o2: "accrueSkew m ?w f ?out = Some o2"
      "0 \<le> adv_chargeLong o2 - adv_chargeLong ?out" "0 \<le> adv_chargeShort o2 - adv_chargeShort ?out"
      "0 \<le> adv_creditLong o2 - adv_creditLong ?out" "0 \<le> adv_creditShort o2 - adv_creditShort ?out"
      "(adv_creditShort o2 - adv_creditShort ?out) * openNotionalShort m \<le>
       (adv_chargeLong o2 - adv_chargeLong ?out) * openNotionalLong m"
      "(adv_creditLong o2 - adv_creditLong ?out) * openNotionalLong m \<le>
       (adv_chargeShort o2 - adv_chargeShort ?out) * openNotionalShort m"
      "adv_borrow o2 = adv_borrow ?out" "adv_windowSec o2 = adv_windowSec ?out"
    using skew_step [OF oi w(1) f(2), of ?out] by blast
  obtain d where d: "accrueBorrow m ?w o2 = Some (o2\<lparr>adv_borrow := adv_borrow o2 + d\<rparr>)" "0 \<le> d"
    using borrow_step [OF w(1)] by blast
  have "advanceFunding m nowSec = Some (o2\<lparr>adv_borrow := adv_borrow o2 + d\<rparr>)"
    using False f o2(1) d by (simp add: advanceFunding_def Let_def)
  then show ?thesis
    using o2(2-) d(2) w False by (simp add: unadvanced_def)
qed

text \<open>Accrual never fails on a market whose open interest is not negative. It advances by one
  window of at most an hour, no cumulative ever falls, a side is credited at most what the other
  side is charged, and before the stored touch time nothing changes.\<close>
theorem advance_funding_sound:
  assumes "market_ok m"
  shows "\<exists>adv. advanceFunding m nowSec = Some adv \<and> 0 \<le> adv_windowSec adv \<and> adv_windowSec adv \<le> 3600 \<and>
     fundingChargePerUnitLong m \<le> adv_chargeLong adv \<and> fundingChargePerUnitShort m \<le> adv_chargeShort adv \<and>
     fundingCreditPerUnitLong m \<le> adv_creditLong adv \<and> fundingCreditPerUnitShort m \<le> adv_creditShort adv \<and>
     borrowChargePerUnit m \<le> adv_borrow adv \<and>
     (adv_creditShort adv - fundingCreditPerUnitShort m) * openNotionalShort m \<le>
       (adv_chargeLong adv - fundingChargePerUnitLong m) * openNotionalLong m \<and>
     (adv_creditLong adv - fundingCreditPerUnitLong m) * openNotionalLong m \<le>
       (adv_chargeShort adv - fundingChargePerUnitShort m) * openNotionalShort m \<and>
     (nowSec \<le> fundingUpdatedAtSec m \<longrightarrow> adv = unadvanced m)"
  by (rule advance_total [OF assms])

lemma owed_covers:
  assumes "0 \<le> sz" "check \<le> cum"
  shows "\<exists>v. fundingOwed sz cum check = Some v \<and> sz * (cum - check) \<le> v * FUNDING_SCALE \<and> 0 \<le> v"
  using assms mulDiv_ceil [of sz "cum - check" FUNDING_SCALE] cdiv_bounds [of FUNDING_SCALE "sz * (cum - check)"]
    cdiv_nonneg [of "sz * (cum - check)" FUNDING_SCALE]
  by (auto simp: fundingOwed_def FUNDING_SCALE_def)

lemma earned_below:
  assumes "0 \<le> sz" "check \<le> cum"
  shows "\<exists>v. fundingEarned sz cum check = Some v \<and> v * FUNDING_SCALE \<le> sz * (cum - check) \<and> 0 \<le> v"
  using assms mulDiv_floor [of sz "cum - check" FUNDING_SCALE] div_bounds(1) [of FUNDING_SCALE "sz * (cum - check)"]
  by (auto simp: fundingEarned_def FUNDING_SCALE_def pos_imp_zdiv_nonneg_iff)

definition longSize :: "('p) PositionFunding_scheme list \<Rightarrow> int" where
  "longSize ps = sum_list (map sizeUsd (filter isLong ps))"

definition shortSize :: "('p) PositionFunding_scheme list \<Rightarrow> int" where
  "shortSize ps = sum_list (map sizeUsd (filter (\<lambda>p. \<not> isLong p) ps))"

text \<open>A position that was touched when the market was.\<close>

definition checkpointed :: "('m) MarketFunding_scheme \<Rightarrow> ('p) PositionFunding_scheme \<Rightarrow> bool" where
  "checkpointed m p \<longleftrightarrow> 0 \<le> sizeUsd p \<and>
     fundingFeeCheckpoint p = (if isLong p then fundingChargePerUnitLong m else fundingChargePerUnitShort m) \<and>
     fundingCreditCheckpoint p = (if isLong p then fundingCreditPerUnitLong m else fundingCreditPerUnitShort m) \<and>
     borrowCheckpoint p = borrowChargePerUnit m"

lemma side_sum:
  "sum_list (map (\<lambda>p. sizeUsd p * (if isLong p then a else b)) ps) = longSize ps * a + shortSize ps * b"
  by (induction ps) (auto simp: longSize_def shortSize_def distrib_right)

lemma settle_bounds:
  assumes "advanceFunding m nowSec = Some adv" "market_ok m" "checkpointed m p"
  shows "\<exists>s. settle adv p = Some s \<and> 0 \<le> owed s \<and> 0 \<le> earned s \<and> 0 \<le> borrow s \<and>
     earned s * FUNDING_SCALE \<le> sizeUsd p * (if isLong p then adv_creditLong adv - fundingCreditPerUnitLong m
        else adv_creditShort adv - fundingCreditPerUnitShort m) \<and>
     sizeUsd p * (if isLong p then adv_chargeLong adv - fundingChargePerUnitLong m
        else adv_chargeShort adv - fundingChargePerUnitShort m) \<le> owed s * FUNDING_SCALE"
proof -
  define fee where "fee = (if isLong p then adv_chargeLong adv else adv_chargeShort adv)"
  define cred where "cred = (if isLong p then adv_creditLong adv else adv_creditShort adv)"
  have mono: "fundingFeeCheckpoint p \<le> fee" "fundingCreditCheckpoint p \<le> cred"
      "borrowCheckpoint p \<le> adv_borrow adv" and sz: "0 \<le> sizeUsd p"
    using advance_total [OF assms(2), of nowSec] assms(1,3)
    by (auto simp: fee_def cred_def checkpointed_def)
  obtain o' e b where v: "fundingOwed (sizeUsd p) fee (fundingFeeCheckpoint p) = Some o'"
      "sizeUsd p * (fee - fundingFeeCheckpoint p) \<le> o' * FUNDING_SCALE" "0 \<le> o'"
      "fundingEarned (sizeUsd p) cred (fundingCreditCheckpoint p) = Some e"
      "e * FUNDING_SCALE \<le> sizeUsd p * (cred - fundingCreditCheckpoint p)" "0 \<le> e"
      "fundingOwed (sizeUsd p) (adv_borrow adv) (borrowCheckpoint p) = Some b" "0 \<le> b"
    using owed_covers [OF sz mono(1)] earned_below [OF sz mono(2)] owed_covers [OF sz mono(3)] by blast
  then have "settle adv p = Some \<lparr>owed = o', earned = e, borrow = b\<rparr>"
    by (simp add: settle_def fee_def [symmetric] cred_def [symmetric])
  then show ?thesis
    using v assms(3) by (auto simp: fee_def cred_def checkpointed_def)
qed

lemma settle_all:
  assumes "advanceFunding m nowSec = Some adv" "market_ok m" "\<forall>p \<in> set ps. checkpointed m p"
    and "map (settle adv) ps = map Some ss"
  shows "sum_list (map earned ss) * FUNDING_SCALE \<le>
      sum_list (map (\<lambda>p. sizeUsd p * (if isLong p then adv_creditLong adv - fundingCreditPerUnitLong m
        else adv_creditShort adv - fundingCreditPerUnitShort m)) ps) \<and>
    sum_list (map (\<lambda>p. sizeUsd p * (if isLong p then adv_chargeLong adv - fundingChargePerUnitLong m
        else adv_chargeShort adv - fundingChargePerUnitShort m)) ps) \<le>
      sum_list (map owed ss) * FUNDING_SCALE"
  using assms(3,4)
proof (induction ps arbitrary: ss)
  case Nil
  then show ?case by simp
next
  case (Cons p ps)
  then obtain s ss' where ss: "ss = s # ss'" "settle adv p = Some s" "map (settle adv) ps = map Some ss'"
    by (cases ss) auto
  from settle_bounds [OF assms(1,2)] Cons.prems(1) ss(2) have
    "earned s * FUNDING_SCALE \<le> sizeUsd p * (if isLong p then adv_creditLong adv - fundingCreditPerUnitLong m
        else adv_creditShort adv - fundingCreditPerUnitShort m)"
    "sizeUsd p * (if isLong p then adv_chargeLong adv - fundingChargePerUnitLong m
        else adv_chargeShort adv - fundingChargePerUnitShort m) \<le> owed s * FUNDING_SCALE"
    by force+
  then show ?case
    using Cons.IH [OF _ ss(3)] Cons.prems(1) ss(1) by (simp add: distrib_right)
qed

text \<open>C6. Funding never mints: when all positions of a market settle against the same accrual, what the
  credited side earns is at most what the charged side owes, after every rounding.\<close>
theorem funding_is_solvent:
  assumes "advanceFunding m nowSec = Some adv" "\<forall>p \<in> set ps. checkpointed m p"
    and "longSize ps = openNotionalLong m" "shortSize ps = openNotionalShort m"
    and "map (settle adv) ps = map Some ss"
  shows "sum_list (map earned ss) \<le> sum_list (map owed ss)"
proof -
  have "0 \<le> longSize ps" "0 \<le> shortSize ps"
    using assms(2) by (auto simp: longSize_def shortSize_def checkpointed_def intro!: sum_list_nonneg)
  then have ok: "market_ok m" using assms(3,4) by (simp add: market_ok_def)
  note sums = settle_all [OF assms(1) ok assms(2,5), unfolded side_sum, unfolded assms(3,4)]
  have "(adv_creditShort adv - fundingCreditPerUnitShort m) * openNotionalShort m \<le>
       (adv_chargeLong adv - fundingChargePerUnitLong m) * openNotionalLong m"
      "(adv_creditLong adv - fundingCreditPerUnitLong m) * openNotionalLong m \<le>
       (adv_chargeShort adv - fundingChargePerUnitShort m) * openNotionalShort m"
    using advance_total [OF ok, of nowSec] assms(1) by auto
  with sums have "sum_list (map earned ss) * FUNDING_SCALE \<le> sum_list (map owed ss) * FUNDING_SCALE"
    by (simp add: mult.commute [of "openNotionalLong m"] mult.commute [of "openNotionalShort m"])
  then show ?thesis by (simp add: FUNDING_SCALE_def)
qed

text \<open>A market of two thirds longs, one hour after its last touch, and its positions.\<close>

definition sampleMarket :: MarketFunding where
  "sampleMarket = \<lparr>openNotionalLong = 2000000, openNotionalShort = 1000000,
     fundingChargePerUnitLong = 0, fundingChargePerUnitShort = 0, fundingCreditPerUnitLong = 0,
     fundingCreditPerUnitShort = 0, borrowChargePerUnit = 0, fundingUpdatedAtSec = 1000,
     fundingRatePpmPerSec = 10, borrowRatePpmPerSec = 1\<rparr>"

definition samplePosition :: "int \<Rightarrow> bool \<Rightarrow> PositionFunding" where
  "samplePosition sz long = \<lparr>sizeUsd = sz, collateral = 100000, entryPrice = 25000, fundingFeeCheckpoint = 0,
     fundingCreditCheckpoint = 0, borrowCheckpoint = 0, earnedFunding = 0, isLong = long\<rparr>"

lemma sampleMarket_advance:
  "advanceFunding sampleMarket 9000 = Some \<lparr>adv_chargeLong = 11999999999999999, adv_chargeShort = 0,
     adv_creditLong = 0, adv_creditShort = 23999999999999998, adv_borrow = 3600000000000000,
     adv_windowSec = 3600\<rparr>"
  by code_simp

theorem funding_is_solvent_witness:
  "sum_list (map earned [\<lparr>owed = 24000, earned = 0, borrow = 7200\<rparr>, \<lparr>owed = 0, earned = 23999, borrow = 3600\<rparr>])
   \<le> sum_list (map owed [\<lparr>owed = 24000, earned = 0, borrow = 7200\<rparr>, \<lparr>owed = 0, earned = 23999, borrow = 3600\<rparr>])"
proof (rule funding_is_solvent [OF sampleMarket_advance])
  show "\<forall>p \<in> set [samplePosition 2000000 True, samplePosition 1000000 False]. checkpointed sampleMarket p"
    by (simp add: checkpointed_def samplePosition_def sampleMarket_def)
qed (simp_all add: longSize_def shortSize_def samplePosition_def sampleMarket_def settle_def fundingOwed_def
    fundingEarned_def mulDiv_floor mulDiv_ceil FUNDING_SCALE_def cdiv_def)

theorem advance_funding_sound_witness:
  "\<exists>adv. advanceFunding sampleMarket 9000 = Some adv \<and> adv_windowSec adv \<le> 3600"
proof -
  have "market_ok sampleMarket" by (simp add: market_ok_def sampleMarket_def)
  from advance_funding_sound [OF this, of 9000] show ?thesis by blast
qed

theorem skewFraction_range_witness: "\<exists>f. skewFraction 2000000 1000000 = Some f \<and> f \<le> FUNDING_SCALE"
  using skewFraction_range [of 2000000 1000000] by auto

theorem liquidation_is_monotone_witness:
  "isLiquidatable (samplePosition 2000000 True) \<lparr>owed = 0, earned = 0, borrow = 0\<rparr> 20000 500 = Some True"
proof (rule liquidation_is_monotone)
  show "isLiquidatable (samplePosition 2000000 True) \<lparr>owed = 0, earned = 0, borrow = 0\<rparr> 24000 500 = Some True"
    by code_simp
qed (simp_all add: samplePosition_def)

end
