(* ===== verification/Report.thy ===== *)
theory Report
  imports JsText
begin

text \<open>
  packages/attestor-client/src/report.ts: the codec of the attested report. A GPU id is
  32 bytes of hexadecimal text; a price is scaled to four decimals; a report names the
  epoch that contains the wall clock. \<open>Date.now()\<close> and the defaults of the parameters
  are arguments. The ABI encoding, the hash and the typed data of viem are not modelled.
\<close>

datatype report_error =
    GpuIdLength nat | GpuIdByte nat | GpuIdEmpty
  | PriceNotPositive | PriceScalesToZero | PriceNotFourDecimals
  | BadEpochLength | BadUnixSec | AgeBelowEpoch | StaleObservation | BadCalcHash

definition EPOCH_LENGTH_DEFAULT :: number where
  "EPOCH_LENGTH_DEFAULT = 60"

definition MAX_OBSERVATION_AGE_DEFAULT :: number where
  "MAX_OBSERVATION_AGE_DEFAULT = 300"

record ReportV1 =
  rp_gpuId :: string
  rp_price :: int
  rp_observedAt :: number
  rp_epoch :: number
  rp_validFrom :: number
  rp_validUntil :: number
  rp_calcHash :: string

subsection \<open>GPU ids\<close>

definition hex_char :: "int \<Rightarrow> char" where
  "hex_char d = (if d < 10 then char_of (48 + nat d) else char_of (87 + nat d))"

definition hex_byte :: "int \<Rightarrow> string" where \<comment> \<open>\<open>b.toString(16).padStart(2, "0")\<close>\<close>
  "hex_byte b = [hex_char (b div 16), hex_char (b mod 16)]"

definition printable :: "int \<Rightarrow> bool" where
  "printable code \<longleftrightarrow> \<not> (code < 0x21 \<or> 0x7e < code)"

text \<open>The loop that fills the 32 bytes stops at the first byte that is not printable.\<close>

fun idBytes :: "nat \<Rightarrow> string \<Rightarrow> report_error + int list" where
  "idBytes i [] = Inr []"
| "idBytes i (c # cs) =
     (if \<not> printable (char_code c) then Inl (GpuIdByte i)
      else case idBytes (Suc i) cs of Inl e \<Rightarrow> Inl e | Inr bs \<Rightarrow> Inr (char_code c # bs))"

definition encodeGpuId :: "string \<Rightarrow> report_error + string" where
  "encodeGpuId sku =
     (if length sku < 1 \<or> 32 < length sku then Inl (GpuIdLength (length sku))
      else case idBytes 0 sku of Inl e \<Rightarrow> Inl e
         | Inr bs \<Rightarrow> Inr (''0x'' @ concat (map hex_byte (bs @ replicate (32 - length bs) 0))))"

text \<open>
  \<open>Number.parseInt(s, 16)\<close> on a slice of at most two characters: blanks and a sign are
  skipped, then an \<open>0x\<close> prefix, then the longest run of hexadecimal digits counts;
  \<open>None\<close> stands for \<open>NaN\<close>.
\<close>

definition hex_val :: "char \<Rightarrow> int option" where
  "hex_val c = (let k = char_code c in
     if 48 \<le> k \<and> k \<le> 57 then Some (k - 48)
     else if 97 \<le> k \<and> k \<le> 102 then Some (k - 87)
     else if 65 \<le> k \<and> k \<le> 70 then Some (k - 55) else None)"

definition is_blank :: "char \<Rightarrow> bool" where
  "is_blank c \<longleftrightarrow> char_code c \<in> {9, 10, 11, 12, 13, 32, 160}"

fun hex_run :: "int option \<Rightarrow> string \<Rightarrow> int option" where
  "hex_run acc [] = acc"
| "hex_run acc (c # cs) =
     (case hex_val c of None \<Rightarrow> acc
      | Some d \<Rightarrow> hex_run (Some (16 * (case acc of None \<Rightarrow> 0 | Some a \<Rightarrow> a) + d)) cs)"

definition parseInt16 :: "string \<Rightarrow> int option" where
  "parseInt16 s =
     (let t = dropWhile is_blank s;
          neg = (t \<noteq> [] \<and> hd t = CHR ''-'');
          u = (if t \<noteq> [] \<and> hd t \<in> {CHR ''-'', CHR ''+''} then tl t else t);
          v = (if take 2 u \<in> {''0x'', ''0X''} then drop 2 u else u)
      in map_option (\<lambda>n. if neg then - n else n) (hex_run None v))"

text \<open>
  The decoding loop over the 32 pairs. A pair that is \<open>NaN\<close> passes both tests of the
  source, and \<open>String.fromCharCode(NaN)\<close> is the character 0.
\<close>

fun idChars :: "nat \<Rightarrow> nat \<Rightarrow> string \<Rightarrow> report_error + string" where
  "idChars 0 i raw = Inr []"
| "idChars (Suc n) i raw =
     (case parseInt16 (take 2 raw) of
        None \<Rightarrow> (case idChars n (Suc i) (drop 2 raw) of Inl e \<Rightarrow> Inl e | Inr t \<Rightarrow> Inr (char_of (0::nat) # t))
      | Some code \<Rightarrow>
          if code = 0 then Inr []
          else if \<not> printable code then Inl (GpuIdByte i)
          else case idChars n (Suc i) (drop 2 raw) of Inl e \<Rightarrow> Inl e
                 | Inr t \<Rightarrow> Inr (char_of (nat code) # t))"

definition decodeGpuId :: "string \<Rightarrow> report_error + string" where
  "decodeGpuId i = (case idChars 32 0 (drop 2 i) of Inl e \<Rightarrow> Inl e
     | Inr out \<Rightarrow> if length out < 1 then Inl GpuIdEmpty else Inr out)"

subsection \<open>Prices and epochs\<close>

definition SCALE_EPSILON :: number where
  "SCALE_EPSILON = fl (1 / 10 ^ 6)"

definition priceToScaled :: "number \<Rightarrow> report_error + int" where
  "priceToScaled price =
     (if price \<le> 0 then Inl PriceNotPositive else
      let exact = fmul price 10000; scaled = js_round exact
      in if scaled = 0 then Inl PriceScalesToZero
         else if SCALE_EPSILON < \<bar>fsub exact (fl (of_int scaled))\<bar> then Inl PriceNotFourDecimals
         else Inr scaled)"

definition scaledToPrice :: "int \<Rightarrow> number" where
  "scaledToPrice scaled = fdiv (fl (of_int scaled)) 10000"

definition observationSeconds :: "number \<Rightarrow> number \<Rightarrow> number" where
  "observationSeconds computedAtMs nowMs = of_int \<lfloor>fdiv (min computedAtMs nowMs) 1000\<rfloor>"

definition is_integer :: "number \<Rightarrow> bool" where
  "is_integer x \<longleftrightarrow> of_int \<lfloor>x\<rfloor> = x"

definition epochOf :: "number \<Rightarrow> number \<Rightarrow> report_error + number" where
  "epochOf unixSec epochLength =
     (if \<not> is_integer epochLength \<or> epochLength \<le> 0 then Inl BadEpochLength
      else if \<not> is_integer unixSec \<or> unixSec < 0 then Inl BadUnixSec
      else Inr (of_int \<lfloor>fdiv unixSec epochLength\<rfloor>))"

record ReportParams =
  pa_gpuId :: string
  pa_price :: number
  pa_observedAtSec :: number
  pa_nowSec :: number
  pa_epochLength :: "number option"
  pa_maxObservationAge :: "number option"
  pa_calcHash :: string

definition paEpochLength :: "ReportParams \<Rightarrow> number" where
  "paEpochLength p = (case pa_epochLength p of Some e \<Rightarrow> e | None \<Rightarrow> EPOCH_LENGTH_DEFAULT)"

definition paMaxAge :: "ReportParams \<Rightarrow> number" where
  "paMaxAge p = (case pa_maxObservationAge p of Some a \<Rightarrow> a | None \<Rightarrow> MAX_OBSERVATION_AGE_DEFAULT)"

definition buildReport :: "ReportParams \<Rightarrow> report_error + ReportV1" where
  "buildReport p =
     (let epochLength = paEpochLength p; maxAge = paMaxAge p in
      if maxAge < epochLength then Inl AgeBelowEpoch
      else if maxAge < fsub (pa_nowSec p) (pa_observedAtSec p) then Inl StaleObservation
      else
        let observedAt = observationSeconds (fmul (pa_observedAtSec p) 1000) (fmul (pa_nowSec p) 1000) in
        case epochOf (pa_nowSec p) epochLength of Inl e \<Rightarrow> Inl e
        | Inr epoch \<Rightarrow>
            let validFrom = fmul epoch epochLength in
            case encodeGpuId (pa_gpuId p) of Inl e \<Rightarrow> Inl e
            | Inr gpuId \<Rightarrow>
               (case priceToScaled (pa_price p) of Inl e \<Rightarrow> Inl e
                | Inr price \<Rightarrow> Inr \<lparr>rp_gpuId = gpuId, rp_price = price, rp_observedAt = observedAt,
                    rp_epoch = epoch, rp_validFrom = validFrom, rp_validUntil = fadd validFrom epochLength,
                    rp_calcHash = pa_calcHash p\<rparr>))"

subsection \<open>The id codec\<close>

lemma idBytes_Inr:
  "idBytes i cs = Inr bs \<longleftrightarrow> (\<forall>c \<in> set cs. printable (char_code c)) \<and> bs = map char_code cs"
proof (induction cs arbitrary: i bs)
  case (Cons c cs)
  show ?case
  proof (cases "idBytes (Suc i) cs")
    case (Inl e)
    then have "\<not> (\<forall>c \<in> set cs. printable (char_code c))"
      using Cons.IH [of "Suc i" "map char_code cs"] by auto
    then show ?thesis using Inl by auto
  next
    case (Inr ds)
    then show ?thesis using Cons.IH [of "Suc i" ds] by auto
  qed
qed auto

lemma char_code_hex_char:
  assumes "0 \<le> d" "d < 16"
  shows "char_code (hex_char d) = (if d < 10 then 48 + d else 87 + d)"
proof -
  have code: "char_code (char_of n) = int n" if "n < 256" for n :: nat
  proof -
    have "char_code (char_of n) = int (of_char (char_of n))"
      by (simp only: char_code_def of_nat_of_char)
    then show ?thesis using that by simp
  qed
  show ?thesis using assms by (simp add: hex_char_def code)
qed

lemma hex_val_hex_char: "0 \<le> d \<Longrightarrow> d < 16 \<Longrightarrow> hex_val (hex_char d) = Some d"
  by (simp add: hex_val_def char_code_hex_char)

lemma hex_char_plain:
  assumes "0 \<le> d" "d < 16"
  shows "\<not> is_blank (hex_char d) \<and> hex_char d \<notin> {CHR ''-'', CHR ''+'', CHR ''x'', CHR ''X''}"
proof -
  have k: "char_code (hex_char d) \<in> {48..57} \<union> {97..102}"
    using assms by (auto simp: char_code_hex_char)
  have "char_code CHR ''-'' = 45" "char_code CHR ''+'' = 43" "char_code CHR ''x'' = 120" "char_code CHR ''X'' = 88"
    by (simp_all add: char_code_def)
  then have "hex_char d \<notin> {CHR ''-'', CHR ''+'', CHR ''x'', CHR ''X''}"
    using k by auto
  then show ?thesis using k by (auto simp: is_blank_def)
qed

lemma parseInt16_hex_byte:
  assumes "0 \<le> b" "b < 256"
  shows "parseInt16 (hex_byte b) = Some b"
proof -
  have hi: "0 \<le> b div 16" "b div 16 < 16" and lo: "0 \<le> b mod 16" "b mod 16 < 16"
    using assms by (auto simp: pos_imp_zdiv_nonneg_iff)
  show ?thesis
    using hex_char_plain [OF hi] hex_char_plain [OF lo] hex_val_hex_char [OF hi] hex_val_hex_char [OF lo]
      div_mult_mod_eq [of b 16]
    by (auto simp: parseInt16_def hex_byte_def Let_def)
qed

lemma length_hex_byte [simp]: "length (hex_byte b) = 2"
  by (simp add: hex_byte_def)

lemma idChars_encoded:
  assumes "\<forall>c \<in> set cs. printable (char_code c)" "length cs \<le> n"
  shows "idChars n i (concat (map hex_byte (map char_code cs @ replicate (n - length cs) 0))) = Inr cs"
  using assms
proof (induction cs arbitrary: n i)
  case Nil
  show ?case
  proof (cases n)
    case (Suc m)
    have "parseInt16 (hex_byte 0) = Some 0" by (rule parseInt16_hex_byte) simp_all
    then show ?thesis using Suc by simp
  qed simp
next
  case (Cons c cs)
  then obtain m where n: "n = Suc m" "length cs \<le> m" by (cases n) auto
  have code: "0 \<le> char_code c" "char_code c < 256"
    by (rule char_code_range)+
  have "printable (char_code c)" using Cons.prems by simp
  then have "char_code c \<noteq> 0" by (auto simp: printable_def)
  moreover have "char_of (nat (char_code c)) = c"
    by (simp add: char_code_range)
  ultimately show ?case
    using Cons.IH [of m "Suc i"] Cons.prems n parseInt16_hex_byte [OF code] by simp
qed

lemma encodeGpuId_Inr:
  "encodeGpuId sku = Inr h \<longleftrightarrow> sku \<noteq> [] \<and> length sku \<le> 32 \<and> (\<forall>c \<in> set sku. printable (char_code c)) \<and>
     h = ''0x'' @ concat (map hex_byte (map char_code sku @ replicate (32 - length sku) 0))"
proof (cases "idBytes 0 sku")
  case (Inl e)
  then have "\<not> (\<forall>c \<in> set sku. printable (char_code c))"
    using idBytes_Inr [of 0 sku "map char_code sku"] by auto
  then show ?thesis using Inl by (auto simp: encodeGpuId_def)
next
  case (Inr bs)
  then have "(\<forall>c \<in> set sku. printable (char_code c)) \<and> bs = map char_code sku"
    unfolding idBytes_Inr .
  then show ?thesis using Inr by (cases sku) (auto simp: encodeGpuId_def)
qed

lemma decode_encode: "encodeGpuId sku = Inr h \<Longrightarrow> decodeGpuId h = Inr sku"
  using idChars_encoded [of sku 32 0] by (cases sku) (auto simp: encodeGpuId_Inr decodeGpuId_def)

text \<open>Decoding inverts encoding: the text of an encoded GPU id is 66 characters long and decodes
  to the SKU it was made from, so two SKUs never share an id.\<close>
theorem gpu_id_roundtrip:
  assumes "encodeGpuId sku = Inr h"
  shows "decodeGpuId h = Inr sku \<and> length h = 66 \<and> (encodeGpuId sku' = Inr h \<longrightarrow> sku' = sku)"
proof -
  have "sum_list (map (length \<circ> hex_byte) bs) = 2 * length bs" for bs
    by (induction bs) simp_all
  then have "length h = 66"
    using assms by (auto simp: encodeGpuId_Inr length_concat simp del: map_append)
  then show ?thesis
    using decode_encode [OF assms] decode_encode [of sku' h] by auto
qed

text \<open>The decoder does not refuse what is not an id: a truncated id decodes to a string of NUL
  characters, because a pair that does not parse is neither below nor above the printable range.\<close>
theorem decode_accepts_truncated_id:
  "decodeGpuId ''0x'' = Inr (replicate 32 (char_of (0::nat))) \<and>
   decodeGpuId ''0x48zz'' = Inr (CHR ''H'' # replicate 31 (char_of (0::nat)))"
  by code_simp

theorem gpu_id_roundtrip_witness:
  "\<exists>h. encodeGpuId ''L40S_48GB'' = Inr h \<and> decodeGpuId h = Inr ''L40S_48GB''"
proof -
  obtain h where h: "encodeGpuId ''L40S_48GB'' = Inr h"
    by (simp add: encodeGpuId_Inr printable_def char_code_def)
  from gpu_id_roundtrip [OF h] h show ?thesis by blast
qed

subsection \<open>Price scaling\<close>

text \<open>An integer number of ten-thousandths survives the division and the multiplication.\<close>

lemma scaled_exact:
  assumes "1 \<le> k" "k \<le> 2 ^ 32"
  shows "\<bar>fmul (fdiv (of_int k) 10000) 10000 - of_int k\<bar> \<le> 1 / 10 ^ 6"
proof -
  let ?k = "of_int k :: rat" and ?u = "1 / 2 ^ 53 :: rat"
  have kr: "1 \<le> ?k" "?k \<le> 2 ^ 32"
    using assms of_int_le_iff [of 1 k, where 'a = rat] of_int_le_iff [of k "2 ^ 32", where 'a = rat]
    by simp_all
  define p where "p = fl (?k / 10000)"
  have e1: "\<bar>p - ?k / 10000\<bar> \<le> ?k / 10000 * ?u"
    using fl_error_pos [of "?k / 10000"] kr by (simp add: p_def)
  then have p: "\<bar>p * 10000 - ?k\<bar> \<le> ?k * ?u"
    by (simp add: abs_le_iff field_simps)
  have ku: "?k * ?u \<le> 2 ^ 32 * ?u"
    using kr by (intro mult_right_mono) simp_all
  have lo: "?u \<le> p * 10000" and hi: "p * 10000 \<le> 2 ^ 32 + 1"
  proof -
    have "\<bar>p * 10000 - ?k\<bar> \<le> 2 ^ 32 * ?u" using p ku by (rule order_trans)
    then have "p * 10000 - ?k \<le> 2 ^ 32 * ?u" "?k - p * 10000 \<le> 2 ^ 32 * ?u"
      by (simp_all only: abs_le_iff) linarith
    moreover have "2 ^ 32 * ?u \<le> 1 / 2" "?u \<le> 1 / 2" by simp_all
    ultimately show "?u \<le> p * 10000" "p * 10000 \<le> 2 ^ 32 + 1"
      using kr by linarith+
  qed
  have "\<bar>fl (p * 10000) - p * 10000\<bar> \<le> p * 10000 * ?u"
    using fl_error_pos [OF lo] by simp
  also have "\<dots> \<le> (2 ^ 32 + 1) * ?u"
    using hi by (intro mult_right_mono) simp_all
  finally have "\<bar>fl (p * 10000) - ?k\<bar> \<le> (2 ^ 32 + 1) * ?u + 2 ^ 32 * ?u"
    using p ku by linarith
  also have "\<dots> \<le> 1 / 10 ^ 6" by simp
  finally show ?thesis by (simp add: p_def fmul_def fdiv_def)
qed

lemma scaled_round:
  assumes "1 \<le> k" "k \<le> 2 ^ 32"
  shows "js_round (fmul (fdiv (of_int k) 10000) 10000) = k"
proof -
  let ?x = "fmul (fdiv (of_int k) 10000) 10000"
  have "\<bar>?x - of_int k\<bar> < 1 / 2"
    using scaled_exact [OF assms] by (rule le_less_trans) simp
  then have "of_int k \<le> ?x + 1 / 2" "?x + 1 / 2 < of_int k + 1"
    by (simp_all only: abs_less_iff) linarith+
  then show ?thesis by (simp add: js_round_def floor_eq_iff)
qed

lemma priceToScaled_exact:
  assumes "1 \<le> k" "k \<le> 2 ^ 32"
  shows "priceToScaled (fdiv (of_int k) 10000) = Inr k"
proof -
  let ?p = "fdiv (of_int k) 10000"
  have "\<bar>fmul ?p 10000 - of_int k\<bar> \<le> 1 / 10 ^ 6" by (rule scaled_exact [OF assms])
  then have "fl \<bar>fmul ?p 10000 - of_int k\<bar> \<le> SCALE_EPSILON"
    unfolding SCALE_EPSILON_def by (rule fl_mono)
  then have eps: "\<not> SCALE_EPSILON < \<bar>fsub (fmul ?p 10000) (fl (of_int k))\<bar>"
    using assms by (simp add: fsub_def fl_of_int binary64.rnd_abs)
  have "\<not> ?p \<le> 0"
  proof
    assume "?p \<le> 0"
    then have "fmul ?p 10000 \<le> 0"
      using fl_mono [of "?p * 10000" 0] by (simp add: fmul_def)
    then have "js_round (fmul ?p 10000) \<le> 0"
      unfolding js_round_def by (simp add: floor_le_iff)
    then show False using scaled_round [OF assms] assms by simp
  qed
  then show ?thesis
    using eps scaled_round [OF assms] assms by (simp add: priceToScaled_def Let_def)
qed

text \<open>Scaling and unscaling a price are inverse for every scaled price up to 2^32 units, although
  the division and the multiplication both round: no such price is refused as not having four
  decimals, and none comes back as another one.\<close>
theorem price_scale_roundtrip:
  assumes "1 \<le> k" "k \<le> 2 ^ 32"
  shows "priceToScaled (scaledToPrice k) = Inr k"
  using priceToScaled_exact [OF assms] assms by (simp add: scaledToPrice_def fl_of_int)

theorem price_scale_roundtrip_witness: "priceToScaled (scaledToPrice 25001) = Inr 25001"
  by (rule price_scale_roundtrip) simp_all

text \<open>Every price that the index rounds to four decimals can be attested: when the rounded price
  is positive (and below 2^32 units), scaling accepts it and gives the integer it was rounded to.\<close>
theorem published_price_is_attestable:
  assumes "1 \<le> js_round (fmul x 10000)" "js_round (fmul x 10000) \<le> 2 ^ 32"
  shows "priceToScaled (round4 x) = Inr (js_round (fmul x 10000))"
  using priceToScaled_exact [OF assms] by (simp add: round4_def)

theorem published_price_is_attestable_witness: "priceToScaled (round4 (5 / 2)) = Inr 25000"
proof -
  have "js_round (fmul (5 / 2) 10000) = 25000" by code_simp
  then show ?thesis using published_price_is_attestable [of "5 / 2"] by simp
qed

subsection \<open>The window of a report\<close>

lemma epochOf_int:
  assumes "0 \<le> n" "0 < l" "n + l \<le> 2 ^ 53"
  shows "epochOf (of_int n) (of_int l) = Inr (of_int (n div l))"
  using floor_fdiv [OF assms] assms by (simp add: epochOf_def is_integer_def)

lemma observationSeconds_int:
  assumes "0 \<le> a" "0 \<le> b" "a * 1000 + 1000 \<le> 2 ^ 53" "b * 1000 + 1000 \<le> 2 ^ 53"
  shows "observationSeconds (fmul (of_int a) 1000) (fmul (of_int b) 1000) = of_int (min a b)"
proof -
  have ms: "fmul (of_int n) 1000 = of_int (n * 1000)" if "0 \<le> n" "n * 1000 + 1000 \<le> 2 ^ 53" for n
    using that fl_of_int [of "n * 1000"] by (simp add: fmul_def)
  have "fdiv (of_int (min a b * 1000)) 1000 = fdiv (of_int (min a b * 1000)) (of_int 1000)" by simp
  moreover have "\<lfloor>fdiv (of_int (min a b * 1000)) (of_int 1000)\<rfloor> = min a b * 1000 div 1000"
    using assms by (intro floor_fdiv) (auto simp: min_def)
  moreover have "min (of_int (a * 1000)) (of_int (b * 1000)) = (of_int (min a b * 1000) :: rat)"
    by (auto simp: min_def)
  ultimately show ?thesis
    using ms assms by (simp add: observationSeconds_def)
qed

lemma buildReport_window:
  assumes "buildReport p = Inr r"
    and "pa_nowSec p = of_int n" "pa_observedAtSec p = of_int s" "paEpochLength p = of_int l"
    and "0 \<le> n" "0 \<le> s" "0 < l" "l \<le> 2 ^ 30" "n \<le> 2 ^ 40" "s \<le> 2 ^ 40"
  shows "rp_validFrom r \<le> of_int n \<and> of_int n < rp_validUntil r \<and>
    rp_validUntil r = rp_validFrom r + of_int l \<and> rp_validFrom r = rp_epoch r * of_int l \<and>
    rp_observedAt r \<le> of_int n \<and> of_int n - rp_observedAt r \<le> max 0 (paMaxAge p) \<and> 0 < rp_price r"
proof -
  let ?e = "n div l"
  have rest: "\<not> paMaxAge p < fsub (of_int n) (of_int s)"
      "rp_epoch r = of_int ?e" "rp_validFrom r = fmul (of_int ?e) (of_int l)"
      "rp_validUntil r = fadd (fmul (of_int ?e) (of_int l)) (of_int l)"
      "rp_observedAt r = observationSeconds (fmul (of_int s) 1000) (fmul (of_int n) 1000)"
      "priceToScaled (pa_price p) = Inr (rp_price r)"
    using assms(1-4) epochOf_int [of n l] assms(5-9)
    by (auto simp: buildReport_def Let_def split: if_splits sum.splits)
  have b: "0 \<le> ?e * l" "?e * l \<le> n" "n < ?e * l + l"
    using div_bounds [OF assms(7), of n] assms(5,7) by (simp_all add: pos_imp_zdiv_nonneg_iff)
  have vf: "rp_validFrom r = of_int (?e * l)"
    using rest(3) b assms(9) fl_of_int [of "?e * l"] by (simp add: fmul_def)
  have vu: "rp_validUntil r = of_int (?e * l + l)"
    using rest(4) vf rest(3) b assms(8,9) fl_of_int [of "?e * l + l"] by (simp add: fadd_def)
  have obs: "rp_observedAt r = of_int (min s n)"
    using rest(5) observationSeconds_int [of s n] assms(5,6,9,10) by simp
  have "fsub (of_int n) (of_int s) = of_int (n - s)"
    using fl_of_int [of "n - s"] assms(5,6,9,10) by (simp add: fsub_def)
  then have age: "of_int n - rp_observedAt r \<le> max 0 (paMaxAge p)"
    using rest(1) obs by (auto simp: min_def)
  have "0 < rp_price r"
  proof -
    have "0 \<le> js_round (fmul (pa_price p) 10000)" if "0 < pa_price p"
      using that fmul_nonneg [of "pa_price p" 10000] by (simp add: js_round_def)
    then show ?thesis
      using rest(6) by (auto simp: priceToScaled_def Let_def split: if_splits)
  qed
  moreover have "of_int (?e * l) \<le> (of_int n :: rat)" "(of_int n :: rat) < of_int (?e * l + l)"
    using b by (simp_all only: of_int_le_iff of_int_less_iff)
  ultimately show ?thesis
    using vf vu obs age rest(2) by (auto simp: min_def)
qed

text \<open>A report is built for the epoch that contains the clock: its window holds the attestation
  time, is exactly one epoch long and starts on the epoch grid; the observation is neither in the
  future nor older than the age floor, and the scaled price is positive.\<close>
theorem report_window:
  assumes "buildReport p = Inr r"
    and "pa_nowSec p = of_int n" "pa_observedAtSec p = of_int s" "paEpochLength p = of_int l"
    and "0 \<le> n" "0 \<le> s" "0 < l" "l \<le> 2 ^ 30" "n \<le> 2 ^ 40" "s \<le> 2 ^ 40"
  shows "rp_validFrom r \<le> of_int n \<and> of_int n < rp_validUntil r \<and>
    rp_validUntil r = rp_validFrom r + of_int l \<and> rp_validFrom r = rp_epoch r * of_int l \<and>
    rp_observedAt r \<le> of_int n \<and> of_int n - rp_observedAt r \<le> max 0 (paMaxAge p) \<and> 0 < rp_price r"
  using assms by (rule buildReport_window)

definition sampleParams :: ReportParams where
  "sampleParams = \<lparr>pa_gpuId = ''L40S_48GB'', pa_price = 5 / 2, pa_observedAtSec = 1000, pa_nowSec = 1100,
     pa_epochLength = None, pa_maxObservationAge = None, pa_calcHash = ''0x''\<rparr>"

theorem report_window_witness:
  "\<exists>r. buildReport sampleParams = Inr r \<and> rp_validFrom r \<le> 1100 \<and> 1100 < rp_validUntil r"
proof -
  obtain h where h: "encodeGpuId ''L40S_48GB'' = Inr h"
    by (simp add: encodeGpuId_Inr printable_def char_code_def)
  have p: "priceToScaled (5 / 2) = Inr 25000" by code_simp
  have e: "epochOf 1100 60 = Inr 18" by code_simp
  have "fsub 1100 1000 = 100" by code_simp
  then obtain r where r: "buildReport sampleParams = Inr r"
    using h p e by (simp add: buildReport_def sampleParams_def paMaxAge_def paEpochLength_def Let_def
        MAX_OBSERVATION_AGE_DEFAULT_def EPOCH_LENGTH_DEFAULT_def)
  from report_window [OF r, of 1100 1000 60] r show ?thesis
    by (simp add: sampleParams_def paEpochLength_def EPOCH_LENGTH_DEFAULT_def)
qed

end
