(* ===== verification/KeeperBook.thy ===== *)
theory KeeperBook
  imports KeeperMath Report JsMap JsText MarketTypes
begin

text \<open>
  apps/keeper/src/state.ts: the keeper's in-memory book of markets, positions and pending
  orders, and its reads from the indexer's tables. A table is a list of rows; the WHERE
  clauses of the queries are filters, a failing query is \<open>None\<close>. A parse that throws is
  \<open>None\<close> too, and the operations that throw after a partial update say so in a flag.
\<close>

subsection \<open>Column values\<close>

datatype db_value = DbUndefined | DbNull | DbBigint int | DbNumber number | DbString string | DbBool bool

type_synonym row = "(string \<times> db_value) list"

definition col :: "row \<Rightarrow> string \<Rightarrow> db_value" where
  "col r c = (case map_of r c of None \<Rightarrow> DbUndefined | Some v \<Rightarrow> v)"

text \<open>\<open>BigInt(s)\<close>: blanks around, a sign on decimal digits only, radix prefixes, empty is zero.\<close>

definition digit_in :: "int \<Rightarrow> char \<Rightarrow> int option" where
  "digit_in b c = (case hex_val c of Some d \<Rightarrow> if d < b then Some d else None | None \<Rightarrow> None)"

fun digits_in :: "int \<Rightarrow> int \<Rightarrow> string \<Rightarrow> int option" where
  "digits_in b acc [] = Some acc"
| "digits_in b acc (c # cs) = (case digit_in b c of None \<Rightarrow> None | Some d \<Rightarrow> digits_in b (b * acc + d) cs)"

definition int_in :: "int \<Rightarrow> string \<Rightarrow> int option" where
  "int_in b s = (if s = [] then None else digits_in b 0 s)"

definition trim_blanks :: "string \<Rightarrow> string" where
  "trim_blanks s = rev (dropWhile is_blank (rev (dropWhile is_blank s)))"

definition bigint_of_string :: "string \<Rightarrow> int option" where
  "bigint_of_string s =
     (let t = trim_blanks s; two = take 2 t in
      if t = [] then Some 0
      else if two \<in> {''0x'', ''0X''} then int_in 16 (drop 2 t)
      else if two \<in> {''0o'', ''0O''} then int_in 8 (drop 2 t)
      else if two \<in> {''0b'', ''0B''} then int_in 2 (drop 2 t)
      else if hd t = CHR ''-'' then map_option uminus (int_in 10 (tl t))
      else if hd t = CHR ''+'' then int_in 10 (tl t)
      else int_in 10 t)"

definition js_trunc :: "number \<Rightarrow> int" where
  "js_trunc x = (if x < 0 then \<lceil>x\<rceil> else \<lfloor>x\<rfloor>)"

definition big :: "db_value \<Rightarrow> int option" where
  "big v = (case v of DbUndefined \<Rightarrow> Some 0 | DbNull \<Rightarrow> Some 0 | DbBigint n \<Rightarrow> Some n
     | DbNumber x \<Rightarrow> Some (js_trunc x) | DbString s \<Rightarrow> bigint_of_string s | DbBool b \<Rightarrow> None)"

definition toNum :: "db_value \<Rightarrow> number option" where
  "toNum v = map_option (\<lambda>n. fl (of_int n)) (big v)"

definition str :: "db_value \<Rightarrow> string" where \<comment> \<open>\<open>String(v)\<close>\<close>
  "str v = (case v of DbUndefined \<Rightarrow> ''undefined'' | DbNull \<Rightarrow> ''null'' | DbBigint n \<Rightarrow> int_text n
     | DbNumber x \<Rightarrow> num_text x | DbString s \<Rightarrow> s | DbBool b \<Rightarrow> if b then ''true'' else ''false'')"

subsection \<open>Rows\<close>

record KeeperMarket = MarketFunding +
  km_gpuId :: string
  km_enabled :: bool
  km_maxLeverageBps :: int
  km_maintenanceMarginBps :: int
  km_openFeeBps :: int
  km_closeFeeBps :: int
  km_liquidationFeeBps :: int
  km_maxOiUsd :: int
  km_minCollateralUsd :: int
  km_maxPositionUsd :: int

record KeeperPosition = PositionFunding +
  kp_wallet :: string
  kp_gpuId :: string
  kp_lastTouchedAtSec :: int

record KeeperOrder =
  ko_orderId :: int
  ko_account :: string
  ko_kind :: number
  ko_isLong :: bool
  ko_sizeDeltaUsd :: int
  ko_collateralDeltaUsd :: int
  ko_acceptablePrice :: int
  ko_triggerPrice :: int
  ko_executionFee :: int
  ko_createdAtSec :: int
  ko_market :: string

definition positionKey :: "string \<Rightarrow> string \<Rightarrow> bool \<Rightarrow> string" where
  "positionKey wallet gpuId long = wallet @ ''|'' @ gpuId @ ''|'' @ (if long then ''true'' else ''false'')"

definition isTrue :: "db_value \<Rightarrow> bool" where \<comment> \<open>\<open>v === true\<close>\<close>
  "isTrue v \<longleftrightarrow> v = DbBool True"

definition orderFromRow :: "row \<Rightarrow> KeeperOrder option" where
  "orderFromRow r = do {
     i \<leftarrow> big (col r ''order_id'');
     k \<leftarrow> toNum (col r ''kind'');
     sz \<leftarrow> big (col r ''size_delta_usd'');
     cd \<leftarrow> big (col r ''collateral_delta_usd'');
     ap \<leftarrow> big (col r ''acceptable_price'');
     tp \<leftarrow> big (col r ''trigger_price'');
     ef \<leftarrow> big (col r ''execution_fee'');
     ca \<leftarrow> big (col r ''created_at_sec'');
     Some \<lparr>ko_orderId = i, ko_account = str (col r ''account''), ko_kind = k,
       ko_isLong = isTrue (col r ''is_long''), ko_sizeDeltaUsd = sz, ko_collateralDeltaUsd = cd,
       ko_acceptablePrice = ap, ko_triggerPrice = tp, ko_executionFee = ef, ko_createdAtSec = ca,
       ko_market = str (col r ''gpu_id'')\<rparr>
   }"

definition marketFromRow :: "row \<Rightarrow> KeeperMarket option" where
  "marketFromRow r = do {
     lev \<leftarrow> big (col r ''max_leverage_bps'');
     mm \<leftarrow> big (col r ''maintenance_margin_bps'');
     opn \<leftarrow> big (col r ''open_fee_bps'');
     cls \<leftarrow> big (col r ''close_fee_bps'');
     lq \<leftarrow> big (col r ''liquidation_fee_bps'');
     fr \<leftarrow> big (col r ''funding_rate_ppm_per_sec'');
     br \<leftarrow> big (col r ''borrow_rate_ppm_per_sec'');
     oi \<leftarrow> big (col r ''max_oi_usd'');
     mc \<leftarrow> big (col r ''min_collateral_usd'');
     mp \<leftarrow> big (col r ''max_position_usd'');
     onl \<leftarrow> big (col r ''open_notional_long'');
     ons \<leftarrow> big (col r ''open_notional_short'');
     chl \<leftarrow> big (col r ''funding_charge_per_unit_long'');
     chs \<leftarrow> big (col r ''funding_charge_per_unit_short'');
     crl \<leftarrow> big (col r ''funding_credit_per_unit_long'');
     crs \<leftarrow> big (col r ''funding_credit_per_unit_short'');
     bc \<leftarrow> big (col r ''borrow_charge_per_unit'');
     fu \<leftarrow> big (col r ''funding_updated_at_sec'');
     Some \<lparr>openNotionalLong = onl, openNotionalShort = ons, fundingChargePerUnitLong = chl,
       fundingChargePerUnitShort = chs, fundingCreditPerUnitLong = crl, fundingCreditPerUnitShort = crs,
       borrowChargePerUnit = bc, fundingUpdatedAtSec = fu, fundingRatePpmPerSec = fr,
       borrowRatePpmPerSec = br, km_gpuId = str (col r ''gpu_id''), km_enabled = isTrue (col r ''enabled''),
       km_maxLeverageBps = lev, km_maintenanceMarginBps = mm, km_openFeeBps = opn, km_closeFeeBps = cls,
       km_liquidationFeeBps = lq, km_maxOiUsd = oi, km_minCollateralUsd = mc, km_maxPositionUsd = mp\<rparr>
   }"

definition positionFromRow :: "row \<Rightarrow> KeeperPosition option" where
  "positionFromRow r = do {
     sz \<leftarrow> big (col r ''size_usd'');
     c \<leftarrow> big (col r ''collateral'');
     e \<leftarrow> big (col r ''entry_price'');
     ff \<leftarrow> big (col r ''funding_fee_checkpoint'');
     fc \<leftarrow> big (col r ''funding_credit_checkpoint'');
     bc \<leftarrow> big (col r ''borrow_checkpoint'');
     ea \<leftarrow> big (col r ''earned_funding'');
     lt \<leftarrow> big (col r ''last_touched_at_sec'');
     Some \<lparr>sizeUsd = sz, collateral = c, entryPrice = e, fundingFeeCheckpoint = ff,
       fundingCreditCheckpoint = fc, borrowCheckpoint = bc, earnedFunding = ea,
       isLong = isTrue (col r ''is_long''), kp_wallet = str (col r ''wallet''),
       kp_gpuId = str (col r ''gpu_id''), kp_lastTouchedAtSec = lt\<rparr>
   }"

subsection \<open>The book\<close>

record Book =
  bk_markets :: "(string, KeeperMarket) js_map"
  bk_positions :: "(string, KeeperPosition) js_map"
  bk_orders :: "(string, KeeperOrder) js_map"
  bk_generation :: nat
  bk_lastLoadedAt :: date
  bk_chainId :: int

record database =
  perpMarket :: "row list"
  perpPosition :: "row list"
  perpOrder :: "row list"

text \<open>\<open>column = $n\<close> on an integer column and on a text column; SQL's NULL matches nothing.\<close>

definition sqlInt :: "db_value \<Rightarrow> int option" where
  "sqlInt v = (case v of DbNull \<Rightarrow> None | DbUndefined \<Rightarrow> None | _ \<Rightarrow> big v)"

definition whereInt :: "string \<Rightarrow> int \<Rightarrow> row \<Rightarrow> bool" where
  "whereInt c n r \<longleftrightarrow> sqlInt (col r c) = Some n"

definition whereText :: "string \<Rightarrow> string \<Rightarrow> row \<Rightarrow> bool" where
  "whereText c s r \<longleftrightarrow> col r c = DbString s"

definition sizePositive :: "row \<Rightarrow> bool" where \<comment> \<open>\<open>size_usd > 0\<close>\<close>
  "sizePositive r \<longleftrightarrow> (case sqlInt (col r ''size_usd'') of Some n \<Rightarrow> n > 0 | None \<Rightarrow> False)"

definition pendingRows :: "int \<Rightarrow> database \<Rightarrow> row list" where
  "pendingRows chain db = filter (\<lambda>r. whereInt ''chain_id'' chain r \<and> whereInt ''status'' 1 r) (perpOrder db)"

definition marketKey :: "KeeperMarket \<Rightarrow> string" where
  "marketKey m = km_gpuId m"

definition ownKey :: "KeeperPosition \<Rightarrow> string" where
  "ownKey p = positionKey (kp_wallet p) (kp_gpuId p) (isLong p)"

definition orderKey :: "KeeperOrder \<Rightarrow> string" where
  "orderKey o' = int_text (ko_orderId o')"

definition indexBy :: "('v \<Rightarrow> string) \<Rightarrow> 'v list \<Rightarrow> (string, 'v) js_map" where
  "indexBy key vs = fold (\<lambda>v. js_set (key v) v) vs js_empty"

text \<open>
  A full load: the three queries (each may see another snapshot), all rows parsed into
  new maps, and only then the maps of the book replaced; \<open>None\<close> is the exception.
\<close>

definition load_book ::
  "database option \<Rightarrow> database option \<Rightarrow> database option \<Rightarrow> date \<Rightarrow> Book \<Rightarrow> Book option" where
  "load_book qm qp qo now b = do {
     dm \<leftarrow> qm; dp \<leftarrow> qp; do' \<leftarrow> qo;
     ms \<leftarrow> those (map marketFromRow (filter (whereInt ''chain_id'' (bk_chainId b)) (perpMarket dm)));
     ps \<leftarrow> those (map positionFromRow
       (filter (\<lambda>r. whereInt ''chain_id'' (bk_chainId b) r \<and> sizePositive r) (perpPosition dp)));
     os \<leftarrow> those (map orderFromRow (pendingRows (bk_chainId b) do'));
     Some (b\<lparr>bk_markets := indexBy marketKey ms, bk_positions := indexBy ownKey ps,
             bk_orders := indexBy orderKey os,
             bk_generation := bk_generation b + 1, bk_lastLoadedAt := now\<rparr>)
   }"

text \<open>The refreshes return the book and whether they completed.\<close>

definition orderRows :: "database \<Rightarrow> int \<Rightarrow> int \<Rightarrow> row list" where
  "orderRows db chain orderId =
     filter (\<lambda>r. whereInt ''chain_id'' chain r \<and> whereInt ''order_id'' \<lfloor>fl (of_int orderId)\<rfloor> r) (perpOrder db)"

definition refreshOrder :: "database option \<Rightarrow> int \<Rightarrow> Book \<Rightarrow> Book \<times> bool" where
  "refreshOrder q orderId b =
     (case q of None \<Rightarrow> (b, False) | Some db \<Rightarrow>
       let gone = b\<lparr>bk_orders := js_delete (int_text orderId) (bk_orders b)\<rparr> in
       case orderRows db (bk_chainId b) orderId of [] \<Rightarrow> (gone, True)
       | r # _ \<Rightarrow>
          (case toNum (col r ''status'') of None \<Rightarrow> (b, False) | Some st \<Rightarrow>
            if st \<noteq> 1 then (gone, True) else
            case orderFromRow r of None \<Rightarrow> (b, False)
            | Some o' \<Rightarrow> (b\<lparr>bk_orders := js_set (int_text orderId) o' (bk_orders b)\<rparr>, True)))"

definition refreshSide :: "row list \<Rightarrow> string \<Rightarrow> string \<Rightarrow> bool \<Rightarrow> Book \<Rightarrow> Book \<times> bool" where
  "refreshSide rows wallet gpuId long b =
     (let key = positionKey wallet gpuId long;
          gone = b\<lparr>bk_positions := js_delete key (bk_positions b)\<rparr>
      in case find (\<lambda>r. col r ''is_long'' = DbBool long) rows of
           None \<Rightarrow> (gone, True)
         | Some r \<Rightarrow>
            (case big (col r ''size_usd'') of None \<Rightarrow> (b, False) | Some sz \<Rightarrow>
              if sz = 0 then (gone, True) else
              case positionFromRow r of None \<Rightarrow> (b, False)
              | Some p \<Rightarrow> (b\<lparr>bk_positions := js_set key p (bk_positions b)\<rparr>, True)))"

definition refreshPositions :: "database option \<Rightarrow> string \<Rightarrow> string \<Rightarrow> Book \<Rightarrow> Book \<times> bool" where
  "refreshPositions q wallet gpuId b =
     (case q of None \<Rightarrow> (b, False) | Some db \<Rightarrow>
       let rows = filter (\<lambda>r. whereInt ''chain_id'' (bk_chainId b) r \<and>
             whereText ''wallet'' (toLowerCase wallet) r \<and> whereText ''gpu_id'' gpuId r) (perpPosition db);
           (b1, ok1) = refreshSide rows wallet gpuId True b
       in if ok1 then refreshSide rows wallet gpuId False b1 else (b1, False))"

definition refreshMarket :: "database option \<Rightarrow> string \<Rightarrow> Book \<Rightarrow> Book \<times> bool" where
  "refreshMarket q gpuId b =
     (case q of None \<Rightarrow> (b, False) | Some db \<Rightarrow>
       case filter (\<lambda>r. whereInt ''chain_id'' (bk_chainId b) r \<and> whereText ''gpu_id'' gpuId r) (perpMarket db) of
         [] \<Rightarrow> (b, True)
       | r # _ \<Rightarrow> (case marketFromRow r of None \<Rightarrow> (b, False)
           | Some m \<Rightarrow> (b\<lparr>bk_markets := js_set gpuId m (bk_markets b)\<rparr>, True)))"

subsection \<open>The invariant of the book\<close>

definition indexed_by :: "('v \<Rightarrow> string) \<Rightarrow> ('v \<Rightarrow> bool) \<Rightarrow> (string, 'v) js_map \<Rightarrow> bool" where
  "indexed_by key valid m \<longleftrightarrow> js_ok m \<and> (\<forall>k v. js_get m k = Some v \<longrightarrow> key v = k \<and> valid v)"

abbreviation (input) nonempty :: "KeeperPosition \<Rightarrow> bool" where
  "nonempty p \<equiv> sizeUsd p \<noteq> 0"

abbreviation (input) anything :: "'v \<Rightarrow> bool" where
  "anything v \<equiv> True"

interpretation mk: self_keyed js_empty js_get js_set js_delete js_values js_ok marketKey anything "indexed_by marketKey anything"
  by unfold_locales (simp add: indexed_by_def)

interpretation pk: self_keyed js_empty js_get js_set js_delete js_values js_ok ownKey nonempty "indexed_by ownKey nonempty"
  by unfold_locales (simp add: indexed_by_def)

interpretation odk: self_keyed js_empty js_get js_set js_delete js_values js_ok orderKey anything "indexed_by orderKey anything"
  by unfold_locales (simp add: indexed_by_def)

definition book_ok :: "Book \<Rightarrow> bool" where
  "book_ok b \<longleftrightarrow> indexed_by marketKey anything (bk_markets b) \<and>
     indexed_by ownKey nonempty (bk_positions b) \<and> indexed_by orderKey anything (bk_orders b)"

definition empty_book :: "int \<Rightarrow> Book" where
  "empty_book chain = \<lparr>bk_markets = js_empty, bk_positions = js_empty, bk_orders = js_empty,
     bk_generation = 0, bk_lastLoadedAt = 0, bk_chainId = chain\<rparr>"

lemma marketFromRow_key: "marketFromRow r = Some m \<Longrightarrow> marketKey m = str (col r ''gpu_id'')"
  by (auto simp: marketFromRow_def marketKey_def bind_eq_Some_conv)

lemma orderFromRow_id: "orderFromRow r = Some o' \<Longrightarrow> big (col r ''order_id'') = Some (ko_orderId o')"
  by (auto simp: orderFromRow_def bind_eq_Some_conv)

lemma positionFromRow_fields:
  "positionFromRow r = Some p \<Longrightarrow> big (col r ''size_usd'') = Some (sizeUsd p) \<and>
     kp_wallet p = str (col r ''wallet'') \<and> kp_gpuId p = str (col r ''gpu_id'') \<and>
     isLong p = isTrue (col r ''is_long'')"
  by (auto simp: positionFromRow_def bind_eq_Some_conv)

lemma sqlInt_Some: "sqlInt v = Some n \<Longrightarrow> big v = Some n"
  by (auto simp: sqlInt_def split: db_value.splits)

lemma sizePositive_size: "sizePositive r \<Longrightarrow> positionFromRow r = Some p \<Longrightarrow> 0 < sizeUsd p"
  using positionFromRow_fields [of r p] sqlInt_Some
  by (fastforce simp: sizePositive_def split: option.splits)

lemma those_eq_Some: "those (map f xs) = Some ys \<longleftrightarrow> map f xs = map Some ys"
proof (induction xs arbitrary: ys)
  case (Cons x xs)
  then show ?case
    by (cases ys) (auto split: option.splits)
qed auto

lemma those_transfer:
  "map f xs = map Some ys \<Longrightarrow> (\<And>x y. f x = Some y \<Longrightarrow> g x = h y) \<Longrightarrow> map g xs = map h ys"
proof (induction xs arbitrary: ys)
  case (Cons x xs)
  then show ?case by (cases ys) auto
qed simp

lemma those_mem: "those (map f xs) = Some ys \<Longrightarrow> y \<in> set ys \<longleftrightarrow> (\<exists>x \<in> set xs. f x = Some y)"
proof -
  assume "those (map f xs) = Some ys"
  then have "map f xs = map Some ys" by (simp only: those_eq_Some)
  then have "f ` set xs = Some ` set ys" by (metis set_map)
  then show ?thesis by (metis (no_types, lifting) image_iff option.inject)
qed

lemma load_book_Some:
  assumes "load_book qm qp qo now b = Some b'"
  obtains dm dp od ms ps os where "qm = Some dm" "qp = Some dp" "qo = Some od"
    "those (map marketFromRow (filter (whereInt ''chain_id'' (bk_chainId b)) (perpMarket dm))) = Some ms"
    "those (map positionFromRow (filter (\<lambda>r. whereInt ''chain_id'' (bk_chainId b) r \<and> sizePositive r)
       (perpPosition dp))) = Some ps"
    "those (map orderFromRow (pendingRows (bk_chainId b) od)) = Some os"
    "b' = b\<lparr>bk_markets := indexBy marketKey ms, bk_positions := indexBy ownKey ps,
       bk_orders := indexBy orderKey os, bk_generation := bk_generation b + 1, bk_lastLoadedAt := now\<rparr>"
  using assms by (auto simp: load_book_def bind_eq_Some_conv)

lemma load_book_ok:
  assumes "load_book qm qp qo now b = Some b'"
  shows "book_ok b'"
proof -
  obtain dp :: database and ms ps os where
    ps: "those (map positionFromRow (filter (\<lambda>r. whereInt ''chain_id'' (bk_chainId b) r \<and> sizePositive r)
       (perpPosition dp))) = Some ps"
    and b': "b' = b\<lparr>bk_markets := indexBy marketKey ms, bk_positions := indexBy ownKey ps,
       bk_orders := indexBy orderKey os, bk_generation := bk_generation b + 1, bk_lastLoadedAt := now\<rparr>"
    by (rule load_book_Some [OF assms])
  have "nonempty p" if "p \<in> set ps" for p
    using that those_mem [OF ps, of p] sizePositive_size by force
  then show ?thesis
    unfolding b' book_ok_def indexBy_def
    by (simp add: mk.indexed_put_all mk.indexed_empty pk.indexed_put_all pk.indexed_empty
        odk.indexed_put_all odk.indexed_empty)
qed

lemma fl_floor_exact: "\<bar>n\<bar> \<le> 2 ^ 53 \<Longrightarrow> \<lfloor>fl (of_int n)\<rfloor> = n"
  by (simp add: fl_of_int)

lemma refreshOrder_ok:
  assumes "book_ok b" "\<bar>orderId\<bar> \<le> 2 ^ 53"
  shows "book_ok (fst (refreshOrder q orderId b))"
proof -
  have key: "orderKey o' = int_text orderId"
    if "orderRows db (bk_chainId b) orderId = r # rs" "orderFromRow r = Some o'" for db r rs o'
  proof -
    have "r \<in> set (orderRows db (bk_chainId b) orderId)" using that(1) by simp
    then have "sqlInt (col r ''order_id'') = Some orderId"
      using assms(2) by (simp add: orderRows_def whereInt_def fl_floor_exact)
    then show ?thesis
      using orderFromRow_id [OF that(2)] sqlInt_Some by (simp add: orderKey_def)
  qed
  show ?thesis
    using assms(1) key
    by (auto simp: refreshOrder_def book_ok_def Let_def odk.indexed_del
        split: option.splits list.splits intro!: odk.indexed_put)
qed

lemma refreshMarket_ok: "book_ok b \<Longrightarrow> book_ok (fst (refreshMarket q gpuId b))"
proof -
  assume ok: "book_ok b"
  have key: "marketKey m = gpuId"
    if "filter (\<lambda>r. whereInt ''chain_id'' c r \<and> whereText ''gpu_id'' gpuId r) t = r # rs"
      "marketFromRow r = Some m" for c t r rs m
  proof -
    have "r \<in> set (filter (\<lambda>r. whereInt ''chain_id'' c r \<and> whereText ''gpu_id'' gpuId r) t)"
      unfolding that(1) by simp
    then have "whereText ''gpu_id'' gpuId r" by simp
    then show ?thesis using marketFromRow_key [OF that(2)] by (simp add: whereText_def str_def)
  qed
  show ?thesis
    using ok key
    by (auto simp: refreshMarket_def book_ok_def split: option.splits list.splits intro!: mk.indexed_put)
qed

lemma refreshSide_ok:
  assumes "book_ok b" "toLowerCase wallet = wallet"
    and "\<And>r. r \<in> set rows \<Longrightarrow> whereText ''wallet'' (toLowerCase wallet) r \<and> whereText ''gpu_id'' gpuId r"
  shows "book_ok (fst (refreshSide rows wallet gpuId long b))"
proof -
  have key: "ownKey p = positionKey wallet gpuId long \<and> nonempty p"
    if "find (\<lambda>r. col r ''is_long'' = DbBool long) rows = Some r" "positionFromRow r = Some p"
      "big (col r ''size_usd'') = Some sz" "sz \<noteq> 0" for r p sz
  proof -
    have "r \<in> set rows" "col r ''is_long'' = DbBool long"
      using that(1) by (auto simp: find_Some_iff)
    then show ?thesis
      using assms(2) assms(3) [of r] positionFromRow_fields [OF that(2)] that(3,4)
      by (auto simp: ownKey_def whereText_def str_def isTrue_def)
  qed
  show ?thesis
    using assms(1) key
    by (auto simp: refreshSide_def book_ok_def Let_def pk.indexed_del
        split: option.splits intro!: pk.indexed_put)
qed

lemma refreshSide_chain: "bk_chainId (fst (refreshSide rows wallet gpuId long b)) = bk_chainId b"
  by (auto simp: refreshSide_def Let_def split: option.splits)

lemma refreshPositions_ok:
  assumes "book_ok b" "toLowerCase wallet = wallet"
  shows "book_ok (fst (refreshPositions q wallet gpuId b))"
proof (cases q)
  case None
  then show ?thesis using assms(1) by (simp add: refreshPositions_def)
next
  case (Some db)
  define rows where "rows = filter (\<lambda>r. whereInt ''chain_id'' (bk_chainId b) r \<and>
      whereText ''wallet'' (toLowerCase wallet) r \<and> whereText ''gpu_id'' gpuId r) (perpPosition db)"
  have "book_ok (fst (refreshSide rows wallet gpuId long b'))" if "book_ok b'" for long b'
    using that assms(2) by (rule refreshSide_ok) (auto simp: rows_def)
  then show ?thesis
    using Some assms(1) by (simp add: refreshPositions_def rows_def [symmetric] Let_def split_def)
qed

text \<open>The operations on the book, as steps.\<close>

inductive book_step :: "Book \<Rightarrow> Book \<Rightarrow> bool" where
  step_load: "load_book qm qp qo now b = Some b' \<Longrightarrow> book_step b b'"
| step_order: "\<bar>orderId\<bar> \<le> 2 ^ 53 \<Longrightarrow> book_step b (fst (refreshOrder q orderId b))"
| step_positions: "toLowerCase wallet = wallet \<Longrightarrow> book_step b (fst (refreshPositions q wallet gpuId b))"
| step_market: "book_step b (fst (refreshMarket q gpuId b))"

lemma book_step_ok: "book_step b b' \<Longrightarrow> book_ok b \<Longrightarrow> book_ok b'"
  by (induction rule: book_step.induct)
    (auto intro: load_book_ok refreshOrder_ok refreshPositions_ok refreshMarket_ok)

lemma book_ok_empty: "book_ok (empty_book chain)"
  by (simp add: book_ok_def empty_book_def mk.indexed_empty pk.indexed_empty odk.indexed_empty)

lemma book_reach_ok: "book_step\<^sup>*\<^sup>* (empty_book chain) b \<Longrightarrow> book_ok b"
  by (induction rule: rtranclp_induct) (auto intro: book_ok_empty book_step_ok)

text \<open>In every reachable book each market, position and order is stored under its own key and no
  position is empty, whatever the queries return and wherever they fail, as long as wallets are
  lower case and order ids fit a double.\<close>
theorem book_invariant:
  assumes "book_step\<^sup>*\<^sup>* (empty_book chain) b"
  shows "(\<forall>k p. js_get (bk_positions b) k = Some p \<longrightarrow>
       k = positionKey (kp_wallet p) (kp_gpuId p) (isLong p) \<and> sizeUsd p \<noteq> 0) \<and>
    (\<forall>k q. js_get (bk_orders b) k = Some q \<longrightarrow> k = int_text (ko_orderId q)) \<and>
    (\<forall>k m. js_get (bk_markets b) k = Some m \<longrightarrow> k = km_gpuId m)"
  using book_reach_ok [OF assms]
  by (auto simp: book_ok_def indexed_by_def ownKey_def orderKey_def marketKey_def)

lemma orderKey_inj: "orderKey a = orderKey b \<Longrightarrow> ko_orderId a = ko_orderId b"
  by (simp add: orderKey_def int_text_inj)

text \<open>A full load is exact: with distinct order ids in the table, the orders of the book are the
  parsed rows of this chain that are pending, no more and no fewer.\<close>
theorem load_book_orders_exact:
  assumes "load_book qm qp (Some od) now b = Some b'"
    and "distinct (map (\<lambda>r. big (col r ''order_id'')) (pendingRows (bk_chainId b) od))"
  shows "set (js_values (bk_orders b')) = {v. \<exists>r \<in> set (pendingRows (bk_chainId b) od). orderFromRow r = Some v} \<and>
    bk_generation b' = bk_generation b + 1"
proof -
  from assms(1) obtain os where os: "those (map orderFromRow (pendingRows (bk_chainId b) od)) = Some os"
      "bk_orders b' = indexBy orderKey os" "bk_generation b' = bk_generation b + 1"
    by (auto simp: load_book_def bind_eq_Some_conv)
  have ids: "map (\<lambda>r. big (col r ''order_id'')) (pendingRows (bk_chainId b) od) = map (\<lambda>v. Some (ko_orderId v)) os"
    using os(1) unfolding those_eq_Some by (rule those_transfer) (rule orderFromRow_id)
  have "distinct (map (\<lambda>v. Some (ko_orderId v)) os)"
    using assms(2) by (simp only: ids)
  then have "distinct (map ko_orderId os)"
    by (auto simp: distinct_map inj_on_def)
  then have dist: "distinct (map orderKey os)"
    unfolding distinct_map inj_on_def by (metis orderKey_inj)
  have idx: "indexed_by orderKey anything (indexBy orderKey os)"
    by (simp add: indexBy_def odk.indexed_put_all odk.indexed_empty)
  have "v \<in> set (js_values (indexBy orderKey os)) \<longleftrightarrow> v \<in> set os" for v
  proof
    assume "v \<in> set (js_values (indexBy orderKey os))"
    then have "js_get (indexBy orderKey os) (orderKey v) = Some v"
      using odk.entries_valid [OF idx] by blast
    then show "v \<in> set os" unfolding indexBy_def by (rule odk.get_filled_mem)
  next
    assume "v \<in> set os"
    then have "js_get (indexBy orderKey os) (orderKey v) = Some v"
      unfolding indexBy_def by (rule odk.get_filled [OF dist])
    then show "v \<in> set (js_values (indexBy orderKey os))"
      using idx js_values_get by (metis indexed_by_def)
  qed
  then show ?thesis
    using os those_mem [OF os(1)] by auto
qed

subsection \<open>A concrete table\<close>

definition sampleOrderRow :: "string \<Rightarrow> int \<Rightarrow> row" where
  "sampleOrderRow oid st = [(''chain_id'', DbNumber 1), (''order_id'', DbString oid), (''status'', DbNumber (of_int st)),
     (''account'', DbString ''0xab''), (''kind'', DbNumber 2), (''is_long'', DbBool True),
     (''trigger_price'', DbString ''25000''), (''gpu_id'', DbString ''0x48'')]"

definition sampleDb :: database where
  "sampleDb = \<lparr>perpMarket = [], perpPosition = [],
     perpOrder = [sampleOrderRow ''7'' 1, sampleOrderRow ''8'' 2, sampleOrderRow ''9'' 1]\<rparr>"

theorem book_invariant_witness:
  "\<exists>b q. load_book (Some sampleDb) (Some sampleDb) (Some sampleDb) 5 (empty_book 1) = Some b \<and>
     js_get (bk_orders b) ''7'' = Some q \<and> int_text (ko_orderId q) = ''7''"
proof -
  have "case load_book (Some sampleDb) (Some sampleDb) (Some sampleDb) 5 (empty_book 1) of
      None \<Rightarrow> False | Some b \<Rightarrow> js_get (bk_orders b) ''7'' \<noteq> None"
    by code_simp
  then obtain b q where b: "load_book (Some sampleDb) (Some sampleDb) (Some sampleDb) 5 (empty_book 1) = Some b"
      "js_get (bk_orders b) ''7'' = Some q"
    by (auto split: option.splits)
  have "book_step\<^sup>*\<^sup>* (empty_book 1) b" using step_load [OF b(1)] by (rule r_into_rtranclp)
  from book_invariant [OF this] b show ?thesis by metis
qed

theorem load_book_orders_exact_witness:
  "\<exists>b'. load_book (Some sampleDb) (Some sampleDb) (Some sampleDb) 5 (empty_book 1) = Some b' \<and> bk_generation b' = 1"
proof -
  have d: "distinct (map (\<lambda>r. big (col r ''order_id'')) (pendingRows (bk_chainId (empty_book 1)) sampleDb))"
    by code_simp
  have "load_book (Some sampleDb) (Some sampleDb) (Some sampleDb) 5 (empty_book 1) \<noteq> None"
    by code_simp
  then obtain b' where b': "load_book (Some sampleDb) (Some sampleDb) (Some sampleDb) 5 (empty_book 1) = Some b'"
    by blast
  from load_book_orders_exact [OF b' d] b' show ?thesis by (simp add: empty_book_def)
qed

end
