(* ===== verification/KeeperStrategy.thy ===== *)
theory KeeperStrategy
  imports KeeperBook
begin

text \<open>
  apps/keeper/src/strategy.ts: one candidate tick against the book. The result \<open>None\<close> is
  an exception (a GPU id that does not encode, or a division by a zero entry price).
\<close>

record CandidateTick =
  ct_gpuId :: string
  ct_price :: "number option"
  ct_status :: string
  ct_calcHash :: string

datatype WorkItem =
    ExecuteOrder (wi_orderId: int) (wi_wallet: string) (wi_sku: string) (wi_gpuId: string) (wi_reason: string)
  | Liquidate (wi_wallet: string) (wi_gpuId: string) (wi_isLong: bool) (wi_sku: string) (wi_reason: string)

definition KIND_MARKET_INCREASE :: number where "KIND_MARKET_INCREASE = 0"
definition KIND_MARKET_DECREASE :: number where "KIND_MARKET_DECREASE = 1"
definition KIND_STOP_LOSS :: number where "KIND_STOP_LOSS = 2"
definition KIND_TAKE_PROFIT :: number where "KIND_TAKE_PROFIT = 3"

lemmas kind_defs = KIND_MARKET_INCREASE_def KIND_MARKET_DECREASE_def KIND_STOP_LOSS_def KIND_TAKE_PROFIT_def

text \<open>Whether an order may execute at a price, and the reason that is logged; \<open>None\<close> when not.\<close>

definition orderReason :: "KeeperMarket \<Rightarrow> int \<Rightarrow> KeeperOrder \<Rightarrow> string option" where
  "orderReason market price q =
     (if ko_kind q = KIND_MARKET_INCREASE then
        (if \<not> km_enabled market then None
         else if acceptablePriceMet (ko_isLong q) True price (ko_acceptablePrice q)
           then Some ''increase within acceptable price'' else None)
      else if ko_kind q = KIND_MARKET_DECREASE then
        (if acceptablePriceMet (ko_isLong q) False price (ko_acceptablePrice q)
           then Some ''decrease within acceptable price'' else None)
      else if ko_kind q = KIND_STOP_LOSS \<or> ko_kind q = KIND_TAKE_PROFIT then
        (let kind = (if ko_kind q = KIND_STOP_LOSS then StopLoss else TakeProfit) in
         if triggerMet kind (ko_isLong q) price (ko_triggerPrice q)
           then Some ((if kind = StopLoss then ''StopLoss'' else ''TakeProfit'') @ '' triggered at '' @ int_text price)
           else None)
      else None)"

definition due :: "int \<Rightarrow> int \<Rightarrow> KeeperOrder \<Rightarrow> bool" where
  "due minOrderDelaySec nowSec q \<longleftrightarrow> \<not> nowSec < ko_createdAtSec q + minOrderDelaySec"

definition orderItem ::
  "KeeperMarket \<Rightarrow> int \<Rightarrow> int \<Rightarrow> int \<Rightarrow> string \<Rightarrow> string \<Rightarrow> KeeperOrder \<Rightarrow> WorkItem option" where
  "orderItem market minOrderDelaySec nowSec price gpuId sku q =
     (if ko_market q \<noteq> gpuId \<or> \<not> due minOrderDelaySec nowSec q then None
      else map_option (ExecuteOrder (ko_orderId q) (ko_account q) sku gpuId) (orderReason market price q))"

definition orderItems ::
  "Book \<Rightarrow> KeeperMarket \<Rightarrow> int \<Rightarrow> int \<Rightarrow> int \<Rightarrow> string \<Rightarrow> string \<Rightarrow> WorkItem list" where
  "orderItems book market minOrderDelaySec nowSec price gpuId sku =
     List.map_filter (orderItem market minOrderDelaySec nowSec price gpuId sku)
       (sort_key ko_orderId (js_values (bk_orders book)))"

definition liquidatable :: "KeeperMarket \<Rightarrow> AdvancedFunding \<Rightarrow> int \<Rightarrow> KeeperPosition \<Rightarrow> bool option" where
  "liquidatable market adv price pos = do {
     s \<leftarrow> settle adv pos;
     isLiquidatable pos s price (km_maintenanceMarginBps market)
   }"

fun liquidationItems ::
  "KeeperMarket \<Rightarrow> AdvancedFunding \<Rightarrow> int \<Rightarrow> string \<Rightarrow> string \<Rightarrow> KeeperPosition list \<Rightarrow> WorkItem list option" where
  "liquidationItems market adv price gpuId sku [] = Some []"
| "liquidationItems market adv price gpuId sku (pos # rest) =
     (if kp_gpuId pos \<noteq> gpuId then liquidationItems market adv price gpuId sku rest
      else do {
        yes \<leftarrow> liquidatable market adv price pos;
        items \<leftarrow> liquidationItems market adv price gpuId sku rest;
        Some (if yes then Liquidate (kp_wallet pos) gpuId (isLong pos) sku
                            ''equity below maintenance (offline funding math)'' # items
              else items)
      })"

definition isLiquidation :: "WorkItem \<Rightarrow> bool" where
  "isLiquidation i = (case i of Liquidate _ _ _ _ _ \<Rightarrow> True | ExecuteOrder _ _ _ _ _ \<Rightarrow> False)"

text \<open>The final sort is stable and only separates the two types.\<close>

definition liquidationsFirst :: "WorkItem list \<Rightarrow> WorkItem list" where
  "liquidationsFirst items = sort_key (\<lambda>i. if isLiquidation i then (0::nat) else 1) items"

definition evaluateTick :: "Book \<Rightarrow> int \<Rightarrow> CandidateTick \<Rightarrow> int \<Rightarrow> WorkItem list option" where
  "evaluateTick book minOrderDelaySec tick nowSec =
     (case ct_price tick of None \<Rightarrow> Some [] | Some usd \<Rightarrow>
       case encodeGpuId (ct_gpuId tick) of Inl e \<Rightarrow> None | Inr h \<Rightarrow>
         let gpuId = toLowerCase h; price = scalePrice usd in
         case js_get (bk_markets book) gpuId of None \<Rightarrow> Some [] | Some market \<Rightarrow>
           let items = orderItems book market minOrderDelaySec nowSec price gpuId (ct_gpuId tick) in
           if km_maintenanceMarginBps market = 0 then Some items
           else do {
             adv \<leftarrow> advanceFunding market nowSec;
             liqs \<leftarrow> liquidationItems market adv price gpuId (ct_gpuId tick) (js_values (bk_positions book));
             Some (liquidationsFirst (items @ liqs))
           })"

subsection \<open>Ordering\<close>

lemma insort_last_class:
  "\<not> P x \<Longrightarrow> \<forall>y \<in> set ys. \<not> P y \<Longrightarrow> insort_key (\<lambda>x. if P x then (0::nat) else 1) x ys = x # ys"
  by (cases ys) simp_all

lemma sort_two_classes:
  "sort_key (\<lambda>x. if P x then (0::nat) else 1) xs = filter P xs @ filter (\<lambda>x. \<not> P x) xs"
proof (induction xs)
  case (Cons x xs)
  have "insort_key (\<lambda>x. if P x then (0::nat) else 1) x (filter P xs @ filter (\<lambda>x. \<not> P x) xs) =
      filter P (x # xs) @ filter (\<lambda>x. \<not> P x) (x # xs)"
  proof (cases "P x")
    case True
    then show ?thesis by (cases "filter P xs @ filter (\<lambda>x. \<not> P x) xs") auto
  next
    case False
    have past: "insort_key (\<lambda>x. if P x then (0::nat) else 1) x (filter P ys @ zs) =
        filter P ys @ insort_key (\<lambda>x. if P x then (0::nat) else 1) x zs" for ys zs
      using False by (induction ys) auto
    have "insort_key (\<lambda>x. if P x then (0::nat) else 1) x (filter (\<lambda>x. \<not> P x) xs) = x # filter (\<lambda>x. \<not> P x) xs"
      using insort_last_class [of P x "filter (\<lambda>x. \<not> P x) xs"] False by simp
    then show ?thesis using past [of xs] False by simp
  qed
  then show ?case using Cons.IH by simp
qed simp

lemma orderItems_mem:
  assumes "i \<in> set (orderItems book market delay now price gpuId sku)"
  shows "\<exists>q \<in> set (js_values (bk_orders book)). ko_market q = gpuId \<and> due delay now q \<and>
     (\<exists>r. orderReason market price q = Some r \<and> i = ExecuteOrder (ko_orderId q) (ko_account q) sku gpuId r)"
  using assms by (auto simp: orderItems_def map_filter_def orderItem_def split: if_splits)

lemma orderItems_type: "i \<in> set (orderItems book market delay now price gpuId sku) \<Longrightarrow> \<not> isLiquidation i"
  by (auto dest!: orderItems_mem simp: isLiquidation_def)

lemma orderItems_sorted: "sorted (map wi_orderId (orderItems book market delay now price gpuId sku))"
proof -
  have "sorted (map wi_orderId (List.map_filter (orderItem market delay now price gpuId sku) qs))"
    if "sorted (map ko_orderId qs)" for qs
    using that
  proof (induction qs)
    case (Cons q qs)
    have ge: "\<forall>i \<in> set (List.map_filter (orderItem market delay now price gpuId sku) qs). ko_orderId q \<le> wi_orderId i"
      using Cons.prems by (auto simp: map_filter_def orderItem_def split: if_splits)
    show ?case
    proof (cases "orderItem market delay now price gpuId sku q")
      case (Some i)
      then have "wi_orderId i = ko_orderId q" by (auto simp: orderItem_def split: if_splits)
      then show ?thesis using Some Cons ge by (simp add: map_filter_simps)
    qed (use Cons in \<open>simp add: map_filter_simps\<close>)
  qed (simp add: map_filter_simps)
  then show ?thesis by (simp add: orderItems_def)
qed

lemma liquidationItems_mem:
  assumes "liquidationItems market adv price gpuId sku ps = Some items"
  shows "i \<in> set items \<longleftrightarrow> (\<exists>p \<in> set ps. kp_gpuId p = gpuId \<and> liquidatable market adv price p = Some True \<and>
     i = Liquidate (kp_wallet p) gpuId (isLong p) sku ''equity below maintenance (offline funding math)'')"
  using assms
proof (induction ps arbitrary: items)
  case (Cons p ps)
  show ?case
  proof (cases "kp_gpuId p = gpuId")
    case True
    with Cons.prems obtain yes rest where
      *: "liquidatable market adv price p = Some yes" "liquidationItems market adv price gpuId sku ps = Some rest"
      and items: "items = (if yes then Liquidate (kp_wallet p) gpuId (isLong p) sku
          ''equity below maintenance (offline funding math)'' # rest else rest)"
      by (auto simp: bind_eq_Some_conv)
    then show ?thesis using Cons.IH [OF *(2)] True by auto
  qed (use Cons in auto)
qed simp

lemma liquidationItems_type:
  assumes "liquidationItems market adv price gpuId sku ps = Some items" "i \<in> set items"
  shows "isLiquidation i"
  using assms(2) unfolding liquidationItems_mem [OF assms(1)] by (auto simp: isLiquidation_def)

lemma evaluateTick_cases:
  assumes "evaluateTick book delay tick now = Some items" "items \<noteq> []"
  obtains usd h market where "ct_price tick = Some usd" "encodeGpuId (ct_gpuId tick) = Inr h"
    "js_get (bk_markets book) (toLowerCase h) = Some market"
    "let os = orderItems book market delay now (scalePrice usd) (toLowerCase h) (ct_gpuId tick) in
     (km_maintenanceMarginBps market = 0 \<and> items = os) \<or>
     (\<exists>adv liqs. advanceFunding market now = Some adv \<and>
        liquidationItems market adv (scalePrice usd) (toLowerCase h) (ct_gpuId tick)
          (js_values (bk_positions book)) = Some liqs \<and> items = liqs @ os)"
proof -
  from assms obtain usd h market where p: "ct_price tick = Some usd" "encodeGpuId (ct_gpuId tick) = Inr h"
    "js_get (bk_markets book) (toLowerCase h) = Some market"
    by (auto simp: evaluateTick_def Let_def split: option.splits sum.splits)
  define os where "os = orderItems book market delay now (scalePrice usd) (toLowerCase h) (ct_gpuId tick)"
  have "liquidationsFirst (os @ liqs) = liqs @ os"
    if "liquidationItems market adv (scalePrice usd) (toLowerCase h) (ct_gpuId tick) ps = Some liqs" for adv liqs ps
  proof -
    have "\<forall>i \<in> set os. \<not> isLiquidation i" unfolding os_def by (blast dest: orderItems_type)
    then have "filter isLiquidation os = []" "filter (\<lambda>x. \<not> isLiquidation x) os = os"
      by (simp_all add: filter_empty_conv filter_id_conv)
    moreover have "\<forall>i \<in> set liqs. isLiquidation i" using liquidationItems_type [OF that] by blast
    then have "filter isLiquidation liqs = liqs" "filter (\<lambda>x. \<not> isLiquidation x) liqs = []"
      by (simp_all add: filter_empty_conv filter_id_conv)
    ultimately show ?thesis by (simp add: liquidationsFirst_def sort_two_classes)
  qed
  note first = this
  have run: "(if km_maintenanceMarginBps market = 0 then Some os else do {
        adv \<leftarrow> advanceFunding market now;
        liqs \<leftarrow> liquidationItems market adv (scalePrice usd) (toLowerCase h) (ct_gpuId tick)
          (js_values (bk_positions book));
        Some (liquidationsFirst (os @ liqs)) }) = Some items"
    unfolding os_def using assms(1) p by (simp add: evaluateTick_def Let_def split del: if_split)
  have "(km_maintenanceMarginBps market = 0 \<and> items = os) \<or>
     (\<exists>adv liqs. advanceFunding market now = Some adv \<and>
        liquidationItems market adv (scalePrice usd) (toLowerCase h) (ct_gpuId tick)
          (js_values (bk_positions book)) = Some liqs \<and> items = liqs @ os)"
  proof (cases "km_maintenanceMarginBps market = 0")
    case True
    with run show ?thesis by simp
  next
    case False
    with run obtain adv liqs where a: "advanceFunding market now = Some adv"
        "liquidationItems market adv (scalePrice usd) (toLowerCase h) (ct_gpuId tick)
          (js_values (bk_positions book)) = Some liqs" "items = liquidationsFirst (os @ liqs)"
      by (auto simp: bind_eq_Some_conv)
    then show ?thesis using first by auto
  qed
  with p show thesis using that by (simp add: os_def Let_def)
qed

subsection \<open>What the keeper decides to do\<close>

text \<open>Every item of work has its reason in the book: an order execution stands for a pending order
  of this market, past its delay, whose price condition holds; a liquidation stands for a position
  of this market whose equity is below maintenance after accrual. Risk reduction comes first, and
  orders run in the order of their ids.\<close>
theorem tick_work_is_justified:
  assumes "evaluateTick book delay tick now = Some items"
  shows "(\<exists>liqs os. items = liqs @ os \<and> (\<forall>i \<in> set liqs. isLiquidation i) \<and> (\<forall>i \<in> set os. \<not> isLiquidation i) \<and>
      sorted (map wi_orderId os)) \<and>
    (items \<noteq> [] \<longrightarrow> (\<exists>usd h market. ct_price tick = Some usd \<and> encodeGpuId (ct_gpuId tick) = Inr h \<and>
      js_get (bk_markets book) (toLowerCase h) = Some market \<and>
      (\<forall>i \<in> set items. (\<exists>q \<in> set (js_values (bk_orders book)). \<exists>r. i = ExecuteOrder (ko_orderId q) (ko_account q)
             (ct_gpuId tick) (toLowerCase h) r \<and> ko_market q = toLowerCase h \<and> due delay now q \<and>
             orderReason market (scalePrice usd) q = Some r) \<or>
         (\<exists>p \<in> set (js_values (bk_positions book)). \<exists>adv r. i = Liquidate (kp_wallet p) (toLowerCase h) (isLong p)
             (ct_gpuId tick) r \<and> kp_gpuId p = toLowerCase h \<and> advanceFunding market now = Some adv \<and>
             liquidatable market adv (scalePrice usd) p = Some True))))"
proof (cases "items = []")
  case True
  then show ?thesis by (intro conjI exI [of _ "[]"]) auto
next
  case False
  obtain usd h market where p: "ct_price tick = Some usd" "encodeGpuId (ct_gpuId tick) = Inr h"
      "js_get (bk_markets book) (toLowerCase h) = Some market"
    and c: "let os = orderItems book market delay now (scalePrice usd) (toLowerCase h) (ct_gpuId tick) in
     (km_maintenanceMarginBps market = 0 \<and> items = os) \<or>
     (\<exists>adv liqs. advanceFunding market now = Some adv \<and>
        liquidationItems market adv (scalePrice usd) (toLowerCase h) (ct_gpuId tick)
          (js_values (bk_positions book)) = Some liqs \<and> items = liqs @ os)"
    by (rule evaluateTick_cases [OF assms False])
  define os where "os = orderItems book market delay now (scalePrice usd) (toLowerCase h) (ct_gpuId tick)"
  have os: "\<forall>i \<in> set os. \<exists>q \<in> set (js_values (bk_orders book)). \<exists>r. i = ExecuteOrder (ko_orderId q) (ko_account q)
      (ct_gpuId tick) (toLowerCase h) r \<and> ko_market q = toLowerCase h \<and> due delay now q \<and>
      orderReason market (scalePrice usd) q = Some r"
    unfolding os_def by (blast dest: orderItems_mem)
  have kinds: "\<forall>i \<in> set os. \<not> isLiquidation i" "sorted (map wi_orderId os)"
    using orderItems_type orderItems_sorted by (auto simp: os_def)
  obtain liqs where items: "items = liqs @ os" and liqs: "\<forall>i \<in> set liqs. isLiquidation i \<and>
      (\<exists>p \<in> set (js_values (bk_positions book)). \<exists>adv r. i = Liquidate (kp_wallet p) (toLowerCase h) (isLong p)
          (ct_gpuId tick) r \<and> kp_gpuId p = toLowerCase h \<and> advanceFunding market now = Some adv \<and>
          liquidatable market adv (scalePrice usd) p = Some True)"
  proof -
    from c [unfolded Let_def, folded os_def] show thesis
    proof
      assume "km_maintenanceMarginBps market = 0 \<and> items = os"
      then show thesis using that [of "[]"] by simp
    next
      assume "\<exists>adv liqs. advanceFunding market now = Some adv \<and>
        liquidationItems market adv (scalePrice usd) (toLowerCase h) (ct_gpuId tick)
          (js_values (bk_positions book)) = Some liqs \<and> items = liqs @ os"
      then obtain adv liqs where l: "advanceFunding market now = Some adv"
        "liquidationItems market adv (scalePrice usd) (toLowerCase h) (ct_gpuId tick)
          (js_values (bk_positions book)) = Some liqs" "items = liqs @ os" by blast
      have "\<forall>i \<in> set liqs. isLiquidation i \<and>
        (\<exists>p \<in> set (js_values (bk_positions book)). \<exists>adv r. i = Liquidate (kp_wallet p) (toLowerCase h) (isLong p)
          (ct_gpuId tick) r \<and> kp_gpuId p = toLowerCase h \<and> advanceFunding market now = Some adv \<and>
          liquidatable market adv (scalePrice usd) p = Some True)"
      proof
        fix i assume i: "i \<in> set liqs"
        show "isLiquidation i \<and>
        (\<exists>p \<in> set (js_values (bk_positions book)). \<exists>adv r. i = Liquidate (kp_wallet p) (toLowerCase h) (isLong p)
          (ct_gpuId tick) r \<and> kp_gpuId p = toLowerCase h \<and> advanceFunding market now = Some adv \<and>
          liquidatable market adv (scalePrice usd) p = Some True)"
          using i liquidationItems_type [OF l(2) i] l(1) unfolding liquidationItems_mem [OF l(2)] by blast
      qed
      then show thesis by (rule that [OF l(3)])
    qed
  qed
  have "\<forall>i \<in> set items. (\<exists>q \<in> set (js_values (bk_orders book)). \<exists>r. i = ExecuteOrder (ko_orderId q) (ko_account q)
             (ct_gpuId tick) (toLowerCase h) r \<and> ko_market q = toLowerCase h \<and> due delay now q \<and>
             orderReason market (scalePrice usd) q = Some r) \<or>
         (\<exists>p \<in> set (js_values (bk_positions book)). \<exists>adv r. i = Liquidate (kp_wallet p) (toLowerCase h) (isLong p)
             (ct_gpuId tick) r \<and> kp_gpuId p = toLowerCase h \<and> advanceFunding market now = Some adv \<and>
             liquidatable market adv (scalePrice usd) p = Some True)"
    using os liqs unfolding items by auto
  then show ?thesis using p items liqs kinds by blast
qed

text \<open>C28. No underwater position is missed: when a tick evaluates, every position of its market whose
  equity is below maintenance at the new price becomes a liquidation.\<close>
theorem tick_liquidates_all:
  assumes "evaluateTick book delay tick now = Some items"
    and "ct_price tick = Some usd" "encodeGpuId (ct_gpuId tick) = Inr h"
    and "js_get (bk_markets book) (toLowerCase h) = Some market" "km_maintenanceMarginBps market \<noteq> 0"
    and "p \<in> set (js_values (bk_positions book))" "kp_gpuId p = toLowerCase h"
    and "advanceFunding market now = Some adv" "liquidatable market adv (scalePrice usd) p = Some True"
  shows "Liquidate (kp_wallet p) (toLowerCase h) (isLong p) (ct_gpuId tick)
    ''equity below maintenance (offline funding math)'' \<in> set items"
proof -
  from assms obtain liqs where liqs: "liquidationItems market adv (scalePrice usd) (toLowerCase h) (ct_gpuId tick)
      (js_values (bk_positions book)) = Some liqs"
    and items: "items = liquidationsFirst
      (orderItems book market delay now (scalePrice usd) (toLowerCase h) (ct_gpuId tick) @ liqs)"
    by (auto simp: evaluateTick_def Let_def bind_eq_Some_conv)
  have "set items = set (orderItems book market delay now (scalePrice usd) (toLowerCase h) (ct_gpuId tick)) \<union> set liqs"
    unfolding items liquidationsFirst_def by simp
  then show ?thesis
    using liquidationItems_mem [OF liqs] assms(6,7,9) by auto
qed

subsection \<open>A concrete tick\<close>

definition sampleGpu :: string where
  "sampleGpu = ''0x41'' @ concat (replicate 31 ''00'')"

definition strategyMarket :: KeeperMarket where
  "strategyMarket = \<lparr>openNotionalLong = 2000000, openNotionalShort = 1000000,
     fundingChargePerUnitLong = 0, fundingChargePerUnitShort = 0, fundingCreditPerUnitLong = 0,
     fundingCreditPerUnitShort = 0, borrowChargePerUnit = 0, fundingUpdatedAtSec = 1000,
     fundingRatePpmPerSec = 0, borrowRatePpmPerSec = 0, km_gpuId = sampleGpu, km_enabled = True,
     km_maxLeverageBps = 0, km_maintenanceMarginBps = 500, km_openFeeBps = 0, km_closeFeeBps = 0,
     km_liquidationFeeBps = 0, km_maxOiUsd = 0, km_minCollateralUsd = 0, km_maxPositionUsd = 0\<rparr>"

definition strategyPosition :: KeeperPosition where
  "strategyPosition = \<lparr>sizeUsd = 2000000, collateral = 100000, entryPrice = 25000, fundingFeeCheckpoint = 0,
     fundingCreditCheckpoint = 0, borrowCheckpoint = 0, earnedFunding = 0, isLong = True,
     kp_wallet = ''0xab'', kp_gpuId = sampleGpu, kp_lastTouchedAtSec = 0\<rparr>"

definition strategyOrder :: "int \<Rightarrow> KeeperOrder" where
  "strategyOrder i = \<lparr>ko_orderId = i, ko_account = ''0xcd'', ko_kind = 2, ko_isLong = True, ko_sizeDeltaUsd = 0,
     ko_collateralDeltaUsd = 0, ko_acceptablePrice = 0, ko_triggerPrice = 21000, ko_executionFee = 0,
     ko_createdAtSec = 10, ko_market = sampleGpu\<rparr>"

definition strategyBook :: Book where
  "strategyBook = \<lparr>bk_markets = [(sampleGpu, strategyMarket)],
     bk_positions = [(positionKey ''0xab'' sampleGpu True, strategyPosition)],
     bk_orders = [(''9'', strategyOrder 9), (''7'', strategyOrder 7)],
     bk_generation = 1, bk_lastLoadedAt = 0, bk_chainId = 1\<rparr>"

definition strategyTick :: CandidateTick where
  "strategyTick = \<lparr>ct_gpuId = ''A'', ct_price = Some 2, ct_status = ''healthy'', ct_calcHash = ''h''\<rparr>"

lemma sampleGpu_encodes: "encodeGpuId ''A'' = Inr sampleGpu"
proof -
  have "hex_byte 65 = ''41''" "hex_byte 0 = ''00''" by code_simp+
  then show ?thesis
    by (simp add: encodeGpuId_Inr sampleGpu_def printable_def char_code_def)
qed

lemma sampleGpu_lower: "toLowerCase sampleGpu = sampleGpu"
proof -
  have "lower_char CHR ''0'' = CHR ''0''" "lower_char CHR ''x'' = CHR ''x''" "lower_char CHR ''4'' = CHR ''4''"
      "lower_char CHR ''1'' = CHR ''1''"
    by (simp_all add: lower_char_def char_code_def)
  then show ?thesis by (simp add: toLowerCase_def sampleGpu_def map_concat)
qed

lemma scalePrice_2: "scalePrice 2 = 20000"
  by code_simp

lemma strategy_adv: "advanceFunding strategyMarket 100 = Some (unadvanced strategyMarket)"
  by (simp add: advanceFunding_def strategyMarket_def)

lemma strategy_liquidatable: "liquidatable strategyMarket (unadvanced strategyMarket) 20000 strategyPosition = Some True"
  by (simp add: liquidatable_def settle_def unadvanced_def strategyMarket_def strategyPosition_def
      fundingOwed_def fundingEarned_def isLiquidatable_def equity_def pnl_valid maintenance_def mulDiv_ceil
      BPS_def cdiv_def)

lemma strategy_evaluates:
  "evaluateTick strategyBook 5 strategyTick 100 = Some
     [Liquidate ''0xab'' sampleGpu True ''A'' ''equity below maintenance (offline funding math)'',
      ExecuteOrder 7 ''0xcd'' ''A'' sampleGpu (''StopLoss triggered at '' @ int_text 20000),
      ExecuteOrder 9 ''0xcd'' ''A'' sampleGpu (''StopLoss triggered at '' @ int_text 20000)]"
proof -
  have "orderItems strategyBook strategyMarket 5 100 20000 sampleGpu ''A'' =
     [ExecuteOrder 7 ''0xcd'' ''A'' sampleGpu (''StopLoss triggered at '' @ int_text 20000),
      ExecuteOrder 9 ''0xcd'' ''A'' sampleGpu (''StopLoss triggered at '' @ int_text 20000)]"
    by (simp add: orderItems_def strategyBook_def strategyOrder_def js_values_def orderItem_def due_def
        orderReason_def kind_defs triggerMet_def map_filter_simps)
  then show ?thesis
    using strategy_adv strategy_liquidatable
    by (simp add: evaluateTick_def strategyTick_def sampleGpu_encodes sampleGpu_lower scalePrice_2 Let_def
        strategyBook_def js_get_def js_values_def liquidationsFirst_def isLiquidation_def)
      (simp_all add: strategyMarket_def strategyPosition_def)?
qed

theorem tick_work_is_justified_witness:
  "\<exists>liqs os. [Liquidate ''0xab'' sampleGpu True ''A'' ''equity below maintenance (offline funding math)'',
      ExecuteOrder 7 ''0xcd'' ''A'' sampleGpu (''StopLoss triggered at '' @ int_text 20000),
      ExecuteOrder 9 ''0xcd'' ''A'' sampleGpu (''StopLoss triggered at '' @ int_text 20000)] = liqs @ os \<and>
    sorted (map wi_orderId os)"
  using tick_work_is_justified [OF strategy_evaluates] by blast

theorem tick_liquidates_all_witness:
  "Liquidate ''0xab'' sampleGpu True ''A'' ''equity below maintenance (offline funding math)'' \<in> set
     [Liquidate ''0xab'' sampleGpu True ''A'' ''equity below maintenance (offline funding math)'',
      ExecuteOrder 7 ''0xcd'' ''A'' sampleGpu (''StopLoss triggered at '' @ int_text 20000),
      ExecuteOrder 9 ''0xcd'' ''A'' sampleGpu (''StopLoss triggered at '' @ int_text 20000)]"
  using tick_liquidates_all [OF strategy_evaluates, of 2 sampleGpu strategyMarket strategyPosition "unadvanced strategyMarket"]
    strategy_adv strategy_liquidatable
  by (simp add: strategyTick_def sampleGpu_encodes sampleGpu_lower scalePrice_2 strategyBook_def js_get_def js_values_def
      strategyMarket_def strategyPosition_def)

end
