(* ===== verification/KeeperExecute.thy ===== *)
theory KeeperExecute
  imports KeeperStrategy
begin

text \<open>
  apps/keeper/src/execute.ts: from a work item to at most one broadcast. The RPC node, the
  oracle's HTTP endpoint and the indexer's tables answer as a \<open>World\<close> says; what the executor
  does to them is a trace of actions. The ABI encoding of viem is the constructor of the call.
\<close>

subsection \<open>The attestation\<close>

datatype HttpReply = FetchFails | BodyFails int | Reply int "string option" \<comment> \<open>status, updateData\<close>

datatype 'a outcome = Throws | Returns 'a

text \<open>An empty \<open>updateData\<close> is falsy, like a missing one.\<close>

definition fetchAttestation :: "HttpReply \<Rightarrow> string option outcome" where
  "fetchAttestation reply =
     (case reply of FetchFails \<Rightarrow> Throws
      | BodyFails status \<Rightarrow> if status \<noteq> 200 then Returns None else Throws
      | Reply status body \<Rightarrow>
          if status = 404 then Returns None
          else if status = 503 then Returns None
          else if status \<noteq> 200 then Returns None
          else (case body of None \<Rightarrow> Returns None
                | Some d \<Rightarrow> if d = [] then Returns None else Returns (Some d)))"

subsection \<open>One item\<close>

datatype call_data =
    CallExecuteOrder int string
  | CallLiquidate string string bool string

definition encodeCall :: "WorkItem \<Rightarrow> string \<Rightarrow> call_data" where
  "encodeCall item updateData =
     (case item of ExecuteOrder i w k g r \<Rightarrow> CallExecuteOrder i updateData
      | Liquidate w g l k r \<Rightarrow> CallLiquidate w g l updateData)"

record World =
  w_maxFeePerGas :: "int option outcome" \<comment> \<open>estimateFeesPerGas\<close>
  w_gasPrice :: "int outcome"
  w_sim :: "call_data \<Rightarrow> bool" \<comment> \<open>the eth_call does not revert\<close>
  w_send :: "call_data \<Rightarrow> string option" \<comment> \<open>the transaction hash\<close>
  w_receipt :: "string \<Rightarrow> bool"
  w_query :: "nat \<Rightarrow> nat \<Rightarrow> database option" \<comment> \<open>attempt, query of the attempt\<close>
  w_reload :: "nat \<Rightarrow> database option"
  w_now :: date

datatype action = Simulated call_data | Broadcast call_data | Awaited string | Refreshed nat | Reloaded

definition gasAllowed :: "World \<Rightarrow> int \<Rightarrow> bool outcome" where
  "gasAllowed w maxFeeGwei =
     (case w_maxFeePerGas w of Throws \<Rightarrow> Throws
      | Returns (Some m) \<Rightarrow> Returns (m \<le> maxFeeGwei * 1000000000)
      | Returns None \<Rightarrow> (case w_gasPrice w of Throws \<Rightarrow> Throws
          | Returns m \<Rightarrow> Returns (m \<le> maxFeeGwei * 1000000000)))"

definition inBook :: "Book \<Rightarrow> WorkItem \<Rightarrow> bool" where
  "inBook book item =
     (case item of ExecuteOrder i w k g r \<Rightarrow> js_has (bk_orders book) (int_text i)
      | Liquidate w g l k r \<Rightarrow> js_has (bk_positions book) (positionKey w g l))"

text \<open>One attempt of the reconciliation: the reads in order, the first that throws ends it.\<close>

definition reconcileReads :: "World \<Rightarrow> nat \<Rightarrow> WorkItem \<Rightarrow> Book \<Rightarrow> Book \<times> bool" where
  "reconcileReads w i item book =
     (case item of
        ExecuteOrder oid wal k g r \<Rightarrow>
          (let (b1, ok1) = refreshOrder (w_query w i 0) oid book in
           if \<not> ok1 then (b1, False) else
           let (b2, ok2) = refreshPositions (w_query w i 1) wal g b1 in
           if \<not> ok2 then (b2, False) else refreshMarket (w_query w i 2) g b2)
      | Liquidate wal g l k r \<Rightarrow>
          (let (b1, ok1) = refreshPositions (w_query w i 0) wal g book in
           if \<not> ok1 then (b1, False) else refreshMarket (w_query w i 1) g b1))"

text \<open>
  At most 20 attempts, then one full reload, whose failure is the exception of the whole
  item (the flag). The recursion is on the attempts that are left.
\<close>

fun reconcileLoop :: "World \<Rightarrow> WorkItem \<Rightarrow> nat \<Rightarrow> nat \<Rightarrow> Book \<Rightarrow> Book \<times> action list \<times> bool" where
  "reconcileLoop w item 0 i book =
     (case load_book (w_reload w 0) (w_reload w 1) (w_reload w 2) (w_now w) book of
        None \<Rightarrow> (book, [Reloaded], False) | Some b \<Rightarrow> (b, [Reloaded], True))"
| "reconcileLoop w item (Suc n) i book =
     (let (b, ok) = reconcileReads w i item book in
      if ok \<and> \<not> inBook b item then (b, [Refreshed i], True)
      else let (b', acts, ok') = reconcileLoop w item n (Suc i) b in (b', Refreshed i # acts, ok'))"

definition reconcile :: "World \<Rightarrow> WorkItem \<Rightarrow> Book \<Rightarrow> Book \<times> action list \<times> bool" where
  "reconcile w item book = reconcileLoop w item 20 0 book"

definition execute :: "World \<Rightarrow> int \<Rightarrow> WorkItem \<Rightarrow> string \<Rightarrow> Book \<Rightarrow> Book \<times> action list \<times> bool" where
  "execute w maxFeeGwei item updateData book =
     (if \<not> inBook book item then (book, [], True) else
      case gasAllowed w maxFeeGwei of Throws \<Rightarrow> (book, [], True)
      | Returns allowed \<Rightarrow>
         if \<not> allowed then (book, [], True) else
         let c = encodeCall item updateData in
         if \<not> w_sim w c then (book, [Simulated c], True) else
         case w_send w c of None \<Rightarrow> (book, [Simulated c, Broadcast c], True)
         | Some hash \<Rightarrow>
            if \<not> w_receipt w hash then (book, [Simulated c, Broadcast c, Awaited hash], True)
            else let (b, acts, ok) = reconcile w item book
                 in (b, [Simulated c, Broadcast c, Awaited hash] @ acts, ok))"

text \<open>A batch shares one attestation; the items run one after the other until one throws.\<close>

fun runItems ::
  "(nat \<Rightarrow> World) \<Rightarrow> int \<Rightarrow> string \<Rightarrow> nat \<Rightarrow> WorkItem list \<Rightarrow> Book \<Rightarrow> Book \<times> action list \<times> bool" where
  "runItems ws maxFeeGwei d i [] book = (book, [], True)"
| "runItems ws maxFeeGwei d i (item # items) book =
     (let (b, acts, ok) = execute (ws i) maxFeeGwei item d book in
      if \<not> ok then (b, acts, False)
      else let (b', acts', ok') = runItems ws maxFeeGwei d (Suc i) items b in (b', acts @ acts', ok'))"

definition run :: "HttpReply \<Rightarrow> (nat \<Rightarrow> World) \<Rightarrow> int \<Rightarrow> WorkItem list \<Rightarrow> Book \<Rightarrow> Book \<times> action list \<times> bool" where
  "run reply ws maxFeeGwei items book =
     (case fetchAttestation reply of Throws \<Rightarrow> (book, [], False)
      | Returns None \<Rightarrow> (book, [], True)
      | Returns (Some d) \<Rightarrow> runItems ws maxFeeGwei d 0 items book)"

subsection \<open>Traces\<close>

definition isBroadcast :: "action \<Rightarrow> bool" where
  "isBroadcast a = (case a of Broadcast c \<Rightarrow> True | _ \<Rightarrow> False)"

definition broadcasts :: "action list \<Rightarrow> action list" where
  "broadcasts acts = filter isBroadcast acts"

lemma reconcileLoop_trace:
  "reconcileLoop w item n i book = (b, acts, ok) \<Longrightarrow> broadcasts acts = [] \<and> length acts \<le> n + 1"
proof (induction n arbitrary: i book b acts ok)
  case 0
  then show ?case by (auto simp: broadcasts_def isBroadcast_def split: option.splits)
next
  case (Suc n)
  obtain b1 ok1 where r: "reconcileReads w i item book = (b1, ok1)" by (cases "reconcileReads w i item book")
  obtain b2 acts2 ok2 where l: "reconcileLoop w item n (Suc i) b1 = (b2, acts2, ok2)"
    by (metis prod_cases3)
  from Suc.IH [OF l] show ?case
    using Suc.prems r l by (auto simp: broadcasts_def isBroadcast_def split: if_splits)
qed

lemma reconcile_simulates_nothing: "reconcile w item book = (b, acts, ok) \<Longrightarrow> broadcasts acts = []"
  using reconcileLoop_trace by (auto simp: reconcile_def)

lemma execute_trace:
  assumes "execute w g item d book = (b, acts, ok)" "a \<in> set (broadcasts acts)"
  shows "\<exists>rest. acts = Simulated (encodeCall item d) # Broadcast (encodeCall item d) # rest \<and>
     broadcasts rest = [] \<and> a = Broadcast (encodeCall item d) \<and>
     w_sim w (encodeCall item d) \<and> inBook book item \<and> gasAllowed w g = Returns True"
proof -
  let ?c = "encodeCall item d"
  obtain b' acts' ok' where r: "reconcile w item book = (b', acts', ok')" by (metis prod_cases3)
  then have none: "broadcasts acts' = []" by (rule reconcile_simulates_nothing)
  have "acts = [] \<or> acts = [Simulated ?c] \<or>
      (inBook book item \<and> gasAllowed w g = Returns True \<and> w_sim w ?c \<and>
       (\<exists>rest. acts = Simulated ?c # Broadcast ?c # rest \<and> broadcasts rest = []))"
    using assms(1) r none
    by (auto simp: execute_def Let_def broadcasts_def isBroadcast_def split: if_splits outcome.splits option.splits)
  then show ?thesis
    using assms(2) by (auto simp: broadcasts_def isBroadcast_def filter_empty_conv)
qed

text \<open>C7. The keeper never pays gas to fail: an item is broadcast at most once, and only when it is
  still in the book, the fee is under the ceiling, and the very same call has just been simulated
  without a revert.\<close>
theorem execute_broadcasts_only_simulated:
  assumes "execute w maxFeeGwei item d book = (b, acts, ok)"
  shows "length (broadcasts acts) \<le> 1 \<and>
    (broadcasts acts \<noteq> [] \<longrightarrow>
      (\<exists>rest. acts = Simulated (encodeCall item d) # Broadcast (encodeCall item d) # rest) \<and>
      w_sim w (encodeCall item d) \<and> inBook book item \<and> gasAllowed w maxFeeGwei = Returns True)"
proof (cases "broadcasts acts")
  case (Cons a as)
  then obtain rest where r: "acts = Simulated (encodeCall item d) # Broadcast (encodeCall item d) # rest"
      "broadcasts rest = []" "w_sim w (encodeCall item d)" "inBook book item" "gasAllowed w maxFeeGwei = Returns True"
    using execute_trace [OF assms, of a] by auto
  then have "broadcasts acts = [Broadcast (encodeCall item d)]"
    by (simp add: broadcasts_def isBroadcast_def)
  with r show ?thesis by auto
qed simp

text \<open>The book before attempt \<open>n\<close>, and whether attempt \<open>n\<close> ends the reconciliation.\<close>

primrec attempts :: "World \<Rightarrow> WorkItem \<Rightarrow> Book \<Rightarrow> nat \<Rightarrow> Book" where
  "attempts w item book 0 = book"
| "attempts w item book (Suc n) = fst (reconcileReads w n item (attempts w item book n))"

definition settledAt :: "World \<Rightarrow> WorkItem \<Rightarrow> Book \<Rightarrow> nat \<Rightarrow> bool" where
  "settledAt w item book n \<longleftrightarrow> snd (reconcileReads w n item (attempts w item book n)) \<and>
     \<not> inBook (attempts w item book (Suc n)) item"

text \<open>What the tables said at attempt \<open>n\<close>: the order is no longer pending, or the position is closed.\<close>

definition positionRows :: "database \<Rightarrow> int \<Rightarrow> string \<Rightarrow> string \<Rightarrow> row list" where
  "positionRows db chain wallet gpuId = filter (\<lambda>r. whereInt ''chain_id'' chain r \<and>
     whereText ''wallet'' (toLowerCase wallet) r \<and> whereText ''gpu_id'' gpuId r) (perpPosition db)"

definition resolvedAt :: "World \<Rightarrow> WorkItem \<Rightarrow> int \<Rightarrow> nat \<Rightarrow> bool" where
  "resolvedAt w item chain n \<longleftrightarrow> (\<exists>db. w_query w n 0 = Some db \<and>
     (case item of
        ExecuteOrder orderId _ _ _ _ \<Rightarrow> (case orderRows db chain orderId of [] \<Rightarrow> True
          | r # _ \<Rightarrow> toNum (col r ''status'') \<noteq> Some 1)
      | Liquidate wallet gpuId long _ _ \<Rightarrow>
          (case find (\<lambda>r. col r ''is_long'' = DbBool long) (positionRows db chain wallet gpuId) of None \<Rightarrow> True
           | Some r \<Rightarrow> big (col r ''size_usd'') = Some 0)))"

lemma positionKey_side: "positionKey w g l = positionKey w g l' \<longleftrightarrow> l = l'"
  by (auto simp: positionKey_def)

lemma refreshOrder_gone:
  assumes "snd (refreshOrder q i b)" "\<not> js_has (bk_orders (fst (refreshOrder q i b))) (int_text i)"
  shows "\<exists>db. q = Some db \<and> (case orderRows db (bk_chainId b) i of [] \<Rightarrow> True
    | r # _ \<Rightarrow> toNum (col r ''status'') \<noteq> Some 1)"
  using assms by (auto simp: refreshOrder_def Let_def js_has_def split: option.splits list.splits if_splits)

lemma refresh_orders_kept:
  "bk_orders (fst (refreshPositions q w g b)) = bk_orders b" "bk_orders (fst (refreshMarket q g b)) = bk_orders b"
  "bk_positions (fst (refreshMarket q g b)) = bk_positions b"
  by (auto simp: refreshPositions_def refreshSide_def refreshMarket_def Let_def split: option.splits list.splits)

lemma refresh_chain:
  "bk_chainId (fst (refreshOrder q i b)) = bk_chainId b" "bk_chainId (fst (refreshPositions q w g b)) = bk_chainId b"
  "bk_chainId (fst (refreshMarket q g b)) = bk_chainId b"
  by (auto simp: refreshOrder_def refreshPositions_def refreshSide_def refreshMarket_def Let_def
      split: option.splits list.splits)

lemma refreshSide_gone:
  assumes "refreshSide rows w g l b = (b', True)"
  shows "js_has (bk_positions b') (positionKey w g l) \<longleftrightarrow>
      (case find (\<lambda>r. col r ''is_long'' = DbBool l) rows of None \<Rightarrow> False | Some r \<Rightarrow> big (col r ''size_usd'') \<noteq> Some 0)"
    and "l' \<noteq> l \<Longrightarrow> js_has (bk_positions b') (positionKey w g l') = js_has (bk_positions b) (positionKey w g l')"
  using assms positionKey_side [of w g l' l]
  by (auto simp: refreshSide_def Let_def js_has_def split: option.splits if_splits)

lemma refreshPositions_gone:
  assumes "snd (refreshPositions q w g b)" "\<not> js_has (bk_positions (fst (refreshPositions q w g b))) (positionKey w g l)"
  shows "\<exists>db. q = Some db \<and> (case find (\<lambda>r. col r ''is_long'' = DbBool l) (positionRows db (bk_chainId b) w g) of None \<Rightarrow> True
    | Some r \<Rightarrow> big (col r ''size_usd'') = Some 0)"
proof -
  obtain db where q: "q = Some db" using assms(1) by (cases q) (simp_all add: refreshPositions_def)
  let ?rows = "positionRows db (bk_chainId b) w g"
  obtain b1 ok1 where "refreshSide ?rows w g True b = (b1, ok1)" by fastforce
  then have b1: "refreshSide ?rows w g True b = (b1, True)"
    using assms(1) q by (cases ok1) (simp_all add: refreshPositions_def positionRows_def Let_def)
  obtain b2 where b2: "refreshSide ?rows w g False b1 = (b2, True)"
    using assms(1) q b1 by (cases "refreshSide ?rows w g False b1") (simp add: refreshPositions_def positionRows_def Let_def)
  have "fst (refreshPositions q w g b) = b2" using q b1 b2 by (simp add: refreshPositions_def positionRows_def Let_def)
  then show ?thesis
    using assms(2) q refreshSide_gone(1) [OF b1] refreshSide_gone(2) [OF b2, of True] refreshSide_gone(1) [OF b2]
    by (cases l) (auto split: option.splits)
qed

lemma reads_chain: "bk_chainId (fst (reconcileReads w i item b)) = bk_chainId b"
proof (cases item)
  case (ExecuteOrder oid wal k g r)
  obtain b1 ok1 where 1: "refreshOrder (w_query w i 0) oid b = (b1, ok1)" by fastforce
  obtain b2 ok2 where 2: "refreshPositions (w_query w i 1) wal g b1 = (b2, ok2)" by fastforce
  show ?thesis
    using refresh_chain(1) [of "w_query w i 0" oid b] refresh_chain(2) [of "w_query w i 1" wal g b1] 1 2
      refresh_chain(3) [of "w_query w i 2" g b2]
    by (simp add: reconcileReads_def ExecuteOrder)
next
  case (Liquidate wal g l k r)
  obtain b1 ok1 where 1: "refreshPositions (w_query w i 0) wal g b = (b1, ok1)" by fastforce
  show ?thesis
    using refresh_chain(2) [of "w_query w i 0" wal g b] 1
      refresh_chain(3) [of "w_query w i 1" g b1] by (simp add: reconcileReads_def Liquidate)
qed

lemma attempts_chain: "bk_chainId (attempts w item book n) = bk_chainId book"
  by (induction n) (simp_all add: reads_chain)

lemma settledAt_resolved:
  assumes "settledAt w item book n"
  shows "resolvedAt w item (bk_chainId book) n"
proof -
  let ?b = "attempts w item book n"
  have "resolvedAt w item (bk_chainId ?b) n"
  proof (cases item)
    case (ExecuteOrder oid wal k g r)
    obtain b1 ok1 where 1: "refreshOrder (w_query w n 0) oid ?b = (b1, ok1)" by fastforce
    obtain b2 ok2 where 2: "refreshPositions (w_query w n 1) wal g b1 = (b2, ok2)" by fastforce
    obtain b3 ok3 where 3: "refreshMarket (w_query w n 2) g b2 = (b3, ok3)" by fastforce
    have ok: "ok1" "ok2" "ok3" "\<not> js_has (bk_orders b3) (int_text oid)"
      using assms 1 2 3 ExecuteOrder by (auto simp: settledAt_def reconcileReads_def inBook_def split: if_splits)
    have "bk_orders b3 = bk_orders b1"
      using refresh_orders_kept(1) [of "w_query w n 1" wal g b1] refresh_orders_kept(2) [of "w_query w n 2" g b2] 2 3 by simp
    then show ?thesis
      using refreshOrder_gone [of "w_query w n 0" oid ?b] 1 ok ExecuteOrder by (simp add: resolvedAt_def)
  next
    case (Liquidate wal g l k r)
    obtain b1 ok1 where 1: "refreshPositions (w_query w n 0) wal g ?b = (b1, ok1)" by fastforce
    obtain b2 ok2 where 2: "refreshMarket (w_query w n 1) g b1 = (b2, ok2)" by fastforce
    have ok: "ok1" "ok2" "\<not> js_has (bk_positions b2) (positionKey wal g l)"
      using assms 1 2 Liquidate by (auto simp: settledAt_def reconcileReads_def inBook_def split: if_splits)
    have "bk_positions b2 = bk_positions b1"
      using refresh_orders_kept(3) [of "w_query w n 1" g b1] 2 by simp
    then show ?thesis
      using refreshPositions_gone [of "w_query w n 0" wal g ?b l] 1 ok Liquidate by (simp add: resolvedAt_def)
  qed
  then show ?thesis by (simp only: attempts_chain)
qed

lemma reconcileLoop_exact:
  "reconcileLoop w item n i (attempts w item book i) = (b, acts, ok) \<Longrightarrow>
   (\<exists>m < n. acts = map Refreshed [i..<Suc (i + m)] \<and> ok \<and> settledAt w item book (i + m) \<and>
      b = attempts w item book (Suc (i + m)) \<and> (\<forall>k < m. \<not> settledAt w item book (i + k))) \<or>
   (acts = map Refreshed [i..<i + n] @ [Reloaded] \<and> (\<forall>k < n. \<not> settledAt w item book (i + k)) \<and>
    (case load_book (w_reload w 0) (w_reload w 1) (w_reload w 2) (w_now w) (attempts w item book (i + n)) of
       None \<Rightarrow> \<not> ok \<and> b = attempts w item book (i + n) | Some loaded \<Rightarrow> ok \<and> b = loaded))"
proof (induction n arbitrary: i b acts ok)
  case 0
  then show ?case by (auto split: option.splits)
next
  case (Suc n)
  obtain b1 ok1 where r: "reconcileReads w i item (attempts w item book i) = (b1, ok1)" by fastforce
  then have b1: "attempts w item book (Suc i) = b1" and stops: "settledAt w item book i \<longleftrightarrow> ok1 \<and> \<not> inBook b1 item"
    by (simp_all add: settledAt_def)
  show ?case
  proof (cases "settledAt w item book i")
    case True
    then have "b = b1" "acts = [Refreshed i]" "ok"
      using Suc.prems r stops by simp_all
    then show ?thesis using True b1 by (intro disjI1 exI [of _ 0]) (simp del: attempts.simps)
  next
    case False
    obtain b2 acts2 ok2 where l: "reconcileLoop w item n (Suc i) b1 = (b2, acts2, ok2)" by (metis prod_cases3)
    have eq: "b = b2" "acts = Refreshed i # acts2" "ok = ok2"
      using Suc.prems r stops False l by (simp_all split: if_splits)
    have up: "[i..<Suc (i + Suc m)] = i # [Suc i..<Suc (Suc i + m)]" for m by (simp add: upt_conv_Cons)
    have all: "(\<forall>k < Suc m. \<not> settledAt w item book (i + k)) \<longleftrightarrow> (\<forall>k < m. \<not> settledAt w item book (Suc i + k))" for m
      using False by (auto simp: less_Suc_eq_0_disj)
    from Suc.IH [of "Suc i", unfolded b1, OF l] show ?thesis
    proof (elim disjE exE conjE)
      fix m assume m: "m < n" "acts2 = map Refreshed [Suc i..<Suc (Suc i + m)]" "ok2" "settledAt w item book (Suc i + m)"
        "b2 = attempts w item book (Suc (Suc i + m))" "\<forall>k < m. \<not> settledAt w item book (Suc i + k)"
      then have "acts = map Refreshed [i..<Suc (i + Suc m)]" unfolding eq up by simp
      then show ?thesis using m eq all by (intro disjI1 exI [of _ "Suc m"]) simp
    next
      assume m: "acts2 = map Refreshed [Suc i..<Suc i + n] @ [Reloaded]" "\<forall>k < n. \<not> settledAt w item book (Suc i + k)"
        "case load_book (w_reload w 0) (w_reload w 1) (w_reload w 2) (w_now w) (attempts w item book (Suc i + n)) of
           None \<Rightarrow> \<not> ok2 \<and> b2 = attempts w item book (Suc i + n) | Some loaded \<Rightarrow> ok2 \<and> b2 = loaded"
      have "acts = map Refreshed [i..<i + Suc n] @ [Reloaded]" unfolding eq m(1) by (simp add: upt_conv_Cons del: upt_Suc)
      moreover have "i + Suc n = Suc i + n" by simp
      then have "case load_book (w_reload w 0) (w_reload w 1) (w_reload w 2) (w_now w) (attempts w item book (i + Suc n)) of
           None \<Rightarrow> \<not> ok \<and> b = attempts w item book (i + Suc n) | Some loaded \<Rightarrow> ok \<and> b = loaded"
        using m(3) by (simp only: eq)
      ultimately show ?thesis using m(2) all by blast
    qed
  qed
qed

text \<open>C29. Reconciliation always returns, after at most 20 attempts. Either some attempt read every row
  it asks for and the tables it read say that the order is no longer pending, or that the position is
  closed; then the book, as the attempts so far left it, no longer holds the item, nothing more is
  read, and no earlier attempt had ended so. Or none of the 20 did, and the whole book is reloaded once: when the tables answer it is
  exactly the loaded book, which satisfies its invariant, and when they do not the item ends with an
  exception and the book is the one the attempts left.\<close>
theorem reconcile_converges:
  "case reconcile w item book of (b, acts, ok) \<Rightarrow>
     (\<exists>n < 20. acts = map Refreshed [0..<Suc n] \<and> ok \<and> \<not> inBook b item \<and> resolvedAt w item (bk_chainId book) n \<and>
        b = attempts w item book (Suc n) \<and> (\<forall>i < n. \<not> settledAt w item book i)) \<or>
     (acts = map Refreshed [0..<20] @ [Reloaded] \<and> (\<forall>i < 20. \<not> settledAt w item book i) \<and>
      (case load_book (w_reload w 0) (w_reload w 1) (w_reload w 2) (w_now w) (attempts w item book 20) of
         None \<Rightarrow> \<not> ok \<and> b = attempts w item book 20
       | Some loaded \<Rightarrow> ok \<and> b = loaded \<and> book_ok loaded))"
proof -
  obtain b acts ok where r: "reconcile w item book = (b, acts, ok)" by (metis prod_cases3)
  from reconcileLoop_exact [of w item 20 0 book b acts ok] r show ?thesis
    using settledAt_resolved
    by (auto simp: reconcile_def settledAt_def [of w item book] simp del: upt_Suc intro: load_book_ok split: option.splits)
qed

lemma runItems_broadcasts:
  "runItems ws g d i items book = (b, acts, ok) \<Longrightarrow> length (broadcasts acts) \<le> length items"
proof (induction ws g d i items book arbitrary: b acts ok rule: runItems.induct)
  case (2 ws g d i item items book)
  obtain b1 a1 ok1 where e: "execute (ws i) g item d book = (b1, a1, ok1)" by (metis prod_cases3)
  have one: "length (broadcasts a1) \<le> 1"
  proof (cases "broadcasts a1")
    case (Cons a as)
    then obtain rest where "a1 = Simulated (encodeCall item d) # Broadcast (encodeCall item d) # rest"
        "broadcasts rest = []"
      using execute_trace [OF e, of a] by auto
    then show ?thesis by (simp add: broadcasts_def isBroadcast_def)
  qed simp
  show ?case
  proof (cases ok1)
    case True
    obtain b2 a2 ok2 where l: "runItems ws g d (Suc i) items b1 = (b2, a2, ok2)" by (metis prod_cases3)
    have "acts = a1 @ a2" using "2.prems" e l True by auto
    moreover have "length (broadcasts a2) \<le> length items" using "2.IH" e l True by auto
    ultimately show ?thesis using one by (simp add: broadcasts_def)
  qed (use "2.prems" e one in auto)
qed (simp add: broadcasts_def)

text \<open>Without a usable attestation nothing happens: no status other than 200 with update data leads
  to a simulation or a broadcast, and the book is untouched; with one, a batch broadcasts at most
  once per item.\<close>
theorem run_needs_an_attestation:
  assumes "run reply ws maxFeeGwei items book = (b, acts, ok)"
  shows "length (broadcasts acts) \<le> length items \<and>
    ((\<nexists>d. reply = Reply 200 (Some d) \<and> d \<noteq> []) \<longrightarrow> acts = [] \<and> b = book)"
proof (cases "fetchAttestation reply")
  case Throws
  then have "acts = []" "b = book" using assms by (simp_all add: run_def)
  then show ?thesis by (simp add: broadcasts_def)
next
  case (Returns r)
  show ?thesis
  proof (cases r)
    case None
    then have "acts = []" "b = book" using assms Returns by (simp_all add: run_def)
    then show ?thesis by (simp add: broadcasts_def)
  next
    case (Some d)
    then have "reply = Reply 200 (Some d)" "d \<noteq> []"
      using Returns by (auto simp: fetchAttestation_def split: HttpReply.splits option.splits if_splits)
    moreover have "length (broadcasts acts) \<le> length items"
      using assms Returns Some by (simp add: run_def runItems_broadcasts)
    ultimately show ?thesis by auto
  qed
qed

subsection \<open>A concrete world\<close>

definition sampleWorld :: World where
  "sampleWorld = \<lparr>w_maxFeePerGas = Returns (Some 5), w_gasPrice = Throws, w_sim = (\<lambda>c. True),
     w_send = (\<lambda>c. Some ''0x1''), w_receipt = (\<lambda>h. False), w_query = (\<lambda>i j. None), w_reload = (\<lambda>i. None), w_now = 0\<rparr>"

definition sampleItem :: WorkItem where
  "sampleItem = ExecuteOrder 7 ''0xcd'' ''A'' sampleGpu ''r''"

lemma sample_execute:
  "execute sampleWorld 1 sampleItem ''ud'' strategyBook =
    (strategyBook, [Simulated (CallExecuteOrder 7 ''ud''), Broadcast (CallExecuteOrder 7 ''ud''), Awaited ''0x1''], True)"
proof -
  have "inBook strategyBook sampleItem"
  proof -
    have "int_text 7 = ''7''" by code_simp
    then show ?thesis by (simp add: inBook_def sampleItem_def strategyBook_def js_has_def js_get_def)
  qed
  moreover have "gasAllowed sampleWorld 1 = Returns True"
    by (simp add: gasAllowed_def sampleWorld_def)
  moreover have "encodeCall sampleItem ''ud'' = CallExecuteOrder 7 ''ud''"
    by (simp add: encodeCall_def sampleItem_def)
  ultimately show ?thesis
    by (simp add: execute_def Let_def) (simp add: sampleWorld_def)
qed

theorem execute_broadcasts_only_simulated_witness:
  "w_sim sampleWorld (encodeCall sampleItem ''ud'') \<and> inBook strategyBook sampleItem"
  using execute_broadcasts_only_simulated [OF sample_execute] by (simp add: broadcasts_def isBroadcast_def)

definition laggingWorld :: World where
  "laggingWorld = sampleWorld\<lparr>w_query := (\<lambda>i j. if i = 0 then None
     else Some \<lparr>perpMarket = [], perpPosition = [], perpOrder = []\<rparr>)\<rparr>"

theorem reconcile_converges_witness:
  "\<exists>b. reconcile laggingWorld sampleItem strategyBook = (b, [Refreshed 0, Refreshed 1], True) \<and> \<not> inBook b sampleItem"
proof -
  obtain b acts ok where r: "reconcile laggingWorld sampleItem strategyBook = (b, acts, ok)" by (metis prod_cases3)
  have zero: "\<not> resolvedAt laggingWorld sampleItem c 0" for c by (simp add: resolvedAt_def laggingWorld_def)
  have one: "settledAt laggingWorld sampleItem strategyBook 1"
    by (simp add: settledAt_def reconcileReads_def laggingWorld_def sampleItem_def refreshOrder_def orderRows_def
        refreshPositions_def refreshSide_def refreshMarket_def inBook_def js_has_def Let_def)
  from reconcile_converges [where w = laggingWorld and item = sampleItem and book = strategyBook] r one
  obtain n where n: "acts = map Refreshed [0..<Suc n]" "ok" "\<not> inBook b sampleItem"
    "resolvedAt laggingWorld sampleItem (bk_chainId strategyBook) n" "\<forall>i < n. \<not> settledAt laggingWorld sampleItem strategyBook i"
    by auto
  have "n \<noteq> 0" using n(4) zero by (cases n) auto
  moreover have "n \<le> 1" using n(5) one by (meson not_le)
  ultimately have "n = 1" by simp
  then show ?thesis using r n by (auto simp: upt_rec)
qed

theorem run_needs_an_attestation_witness:
  "length (broadcasts []) \<le> length [sampleItem] \<and> strategyBook = strategyBook"
proof -
  have "run (Reply 503 None) (\<lambda>i. sampleWorld) 1 [sampleItem] strategyBook = (strategyBook, [], True)"
    by (simp add: run_def fetchAttestation_def)
  from run_needs_an_attestation [OF this] show ?thesis by simp
qed

end
