(* ===== verification/KeeperMain.thy ===== *)
theory KeeperMain
  imports KeeperExecute
begin

text \<open>
  apps/keeper/src/main.ts, stream.ts and health.ts: boot retries, the clock, the tick loop
  with its deduplication, and the two candidate streams as a state machine of callbacks.
  The batches the tick loop hands to the executor are its result.
\<close>

subsection \<open>Boot\<close>

text \<open>\<open>attempt i\<close> is the outcome of the i-th try; the loop throws after \<open>tries\<close> failures.\<close>

function bootRetryFrom :: "nat \<Rightarrow> nat \<Rightarrow> (nat \<Rightarrow> 'a option) \<Rightarrow> 'a outcome" where
  "bootRetryFrom i tries attempt =
     (case attempt i of Some x \<Rightarrow> Returns x
      | None \<Rightarrow> if tries \<le> i then Throws else bootRetryFrom (Suc i) tries attempt)"
  by pat_completeness auto
termination by (relation "measure (\<lambda>(i, tries, attempt). tries - i)") auto

declare bootRetryFrom.simps [simp del]

definition bootRetry :: "nat \<Rightarrow> (nat \<Rightarrow> 'a option) \<Rightarrow> 'a outcome" where
  "bootRetry tries attempt = bootRetryFrom 1 tries attempt"

lemma bootRetryFrom_Returns:
  "bootRetryFrom i tries attempt = Returns x \<longleftrightarrow>
     (\<exists>j. i \<le> j \<and> j \<le> max i tries \<and> attempt j = Some x \<and> (\<forall>k. i \<le> k \<and> k < j \<longrightarrow> attempt k = None))"
    (is "_ \<longleftrightarrow> (\<exists>j. ?first i j)")
proof (induction i tries attempt rule: bootRetryFrom.induct)
  case (1 i tries attempt)
  let ?first = "\<lambda>i j. i \<le> j \<and> j \<le> max i tries \<and> attempt j = Some x \<and> (\<forall>k. i \<le> k \<and> k < j \<longrightarrow> attempt k = None)"
  show ?case
  proof (cases "attempt i")
    case (Some y)
    have "?first i j \<longleftrightarrow> j = i \<and> y = x" for j
      using Some by (cases "j = i") auto
    then show ?thesis using Some by (subst bootRetryFrom.simps) auto
  next
    case None
    have step: "?first i j \<longleftrightarrow> \<not> tries \<le> i \<and> ?first (Suc i) j" for j
    proof (cases "j = i")
      case False
      have "(\<forall>k. i \<le> k \<and> k < j \<longrightarrow> attempt k = None) \<longleftrightarrow> (\<forall>k. Suc i \<le> k \<and> k < j \<longrightarrow> attempt k = None)"
        using None by (metis Suc_leD Suc_leI le_neq_implies_less)
      then show ?thesis using False by auto
    qed (use None in auto)
    show ?thesis
      using 1 [OF None] None unfolding step by (subst bootRetryFrom.simps) auto
  qed
qed

text \<open>A boot step is retried until it succeeds and no longer: the result is the first success among
  the allowed tries, and the step throws exactly when all of them fail.\<close>
theorem boot_retry_first_success:
  "bootRetry tries attempt = Returns x \<longleftrightarrow>
     (\<exists>j. 1 \<le> j \<and> j \<le> max 1 tries \<and> attempt j = Some x \<and> (\<forall>k. 1 \<le> k \<and> k < j \<longrightarrow> attempt k = None))"
  unfolding bootRetry_def by (rule bootRetryFrom_Returns)

theorem boot_retry_first_success_witness:
  "bootRetry 30 (\<lambda>i. if i = 2 then Some True else None) = Returns True"
  unfolding boot_retry_first_success by (rule exI [of _ 2]) auto

subsection \<open>The tick loop\<close>

record Keeper =
  kr_book :: Book
  kr_dedupe :: "(string, string) js_map"
  kr_lastTicks :: "(string, CandidateTick) js_map"
  kr_chainNow :: int
  kr_syncedMs :: int
  kr_minOrderDelay :: int

definition syncClock :: "int \<Rightarrow> int \<Rightarrow> Keeper \<Rightarrow> Keeper" where
  "syncClock blockTimestamp nowMs k = k\<lparr>kr_chainNow := blockTimestamp, kr_syncedMs := nowMs\<rparr>"

text \<open>\<open>Math.floor(ms / 1000)\<close> is integer division below 2^53 milliseconds (\<open>floor_fdiv\<close>).\<close>

definition nowSec :: "Keeper \<Rightarrow> int \<Rightarrow> int" where
  "nowSec k nowMs =
     (if kr_chainNow k = 0 then nowMs div 1000
      else kr_chainNow k + max 0 ((nowMs - kr_syncedMs k) div 1000))"

definition dedupeKey :: "Book \<Rightarrow> CandidateTick \<Rightarrow> string" where
  "dedupeKey book tick = ct_calcHash tick @ '':'' @ int_text (int (bk_generation book))"

text \<open>
  The state after the tick and the batch for the executor; \<open>None\<close> is an exception of the
  evaluation, after the candidate was already recorded as seen.
\<close>

definition processTick :: "int \<Rightarrow> CandidateTick \<Rightarrow> Keeper \<Rightarrow> Keeper \<times> WorkItem list option" where
  "processTick nowMs tick k =
     (let key = ct_gpuId tick; dk = dedupeKey (kr_book k) tick in
      if js_get (kr_dedupe k) key = Some dk then (k, Some [])
      else
        let k' = k\<lparr>kr_dedupe := js_set key dk (kr_dedupe k), kr_lastTicks := js_set key tick (kr_lastTicks k)\<rparr>
        in (k', evaluateTick (kr_book k') (kr_minOrderDelay k') tick (nowSec k' nowMs)))"

text \<open>The re-evaluation of the stored candidates; an exception ends it, later batches are lost.\<close>

fun reevaluate :: "Keeper \<Rightarrow> int \<Rightarrow> CandidateTick list \<Rightarrow> (string \<times> WorkItem list) list \<times> bool" where
  "reevaluate k nowMs [] = ([], True)"
| "reevaluate k nowMs (tick # ticks) =
     (case evaluateTick (kr_book k) (kr_minOrderDelay k) tick (nowSec k nowMs) of
        None \<Rightarrow> ([], False)
      | Some items \<Rightarrow>
          (let (bs, ok) = reevaluate k nowMs ticks
           in (if items = [] then bs else (ct_gpuId tick, items) # bs, ok)))"

definition reevaluateAll :: "Keeper \<Rightarrow> int \<Rightarrow> (string \<times> WorkItem list) list \<times> bool" where
  "reevaluateAll k nowMs = reevaluate k nowMs (js_values (kr_lastTicks k))"

text \<open>The periodic reload: load, clock, re-evaluation; a failing step ends it with a warning.\<close>

definition periodicReload ::
  "database option \<Rightarrow> database option \<Rightarrow> database option \<Rightarrow> int option \<Rightarrow> int \<Rightarrow> Keeper \<Rightarrow>
   Keeper \<times> (string \<times> WorkItem list) list" where
  "periodicReload qm qp qo block nowMs k =
     (case load_book qm qp qo nowMs (kr_book k) of None \<Rightarrow> (k, [])
      | Some b \<Rightarrow>
         let k1 = k\<lparr>kr_book := b\<rparr> in
         case block of None \<Rightarrow> (k1, [])
         | Some t \<Rightarrow> let k2 = syncClock t nowMs k1 in (k2, fst (reevaluateAll k2 nowMs)))"

text \<open>A candidate that was processed is not processed again while the book is the same: repeating
  the tick, at any later time, neither emits work nor changes the keeper, and a full reload makes
  the keeper look at it again.\<close>
theorem tick_deduplicated:
  "processTick t2 tick (fst (processTick t1 tick k)) = (fst (processTick t1 tick k), Some []) \<and>
   (load_book qm qp qo t3 (kr_book k) = Some b \<longrightarrow>
      js_get (kr_dedupe (fst (processTick t1 tick k))) (ct_gpuId tick) \<noteq> Some (dedupeKey b tick))"
proof -
  have seen: "js_get (kr_dedupe (fst (processTick t1 tick k))) (ct_gpuId tick) = Some (dedupeKey (kr_book k) tick)"
    and book: "kr_book (fst (processTick t1 tick k)) = kr_book k"
    by (auto simp: processTick_def Let_def)
  have "dedupeKey b tick \<noteq> dedupeKey (kr_book k) tick" if "load_book qm qp qo t3 (kr_book k) = Some b"
  proof -
    have "bk_generation b = bk_generation (kr_book k) + 1"
      using that by (auto simp: load_book_def bind_eq_Some_conv)
    then show ?thesis by (simp add: dedupeKey_def int_text_inj)
  qed
  then show ?thesis using seen book by (auto simp: processTick_def [of t2] Let_def)
qed

theorem tick_deduplicated_witness:
  "\<exists>k. processTick 9 strategyTick k = (k, Some [])"
  using tick_deduplicated [of 9 strategyTick] by blast

text \<open>The keeper's chain clock never runs backwards between two syncs and never shows a time before
  the block it was synced to.\<close>
theorem clock_is_monotone:
  assumes "t1 \<le> t2" "kr_chainNow k \<noteq> 0"
  shows "nowSec k t1 \<le> nowSec k t2 \<and> kr_chainNow k \<le> nowSec k t1"
  using assms by (auto simp: nowSec_def intro!: zdiv_mono1 max.mono)

definition clockKeeper :: Keeper where
  "clockKeeper = \<lparr>kr_book = empty_book 1, kr_dedupe = js_empty, kr_lastTicks = js_empty, kr_chainNow = 700,
     kr_syncedMs = 5000, kr_minOrderDelay = 0\<rparr>"

theorem clock_is_monotone_witness: "700 \<le> nowSec clockKeeper 1000 \<and> nowSec clockKeeper 1000 \<le> nowSec clockKeeper 9000"
  using clock_is_monotone [of 1000 9000 clockKeeper] by (simp add: clockKeeper_def)

subsection \<open>Health\<close>

datatype HealthLevel = HealthError | HealthWarn | HealthOk

definition healthLevel :: "int \<Rightarrow> int \<Rightarrow> HealthLevel" where
  "healthLevel balance minBalanceWei =
     (if balance < minBalanceWei sdiv 2 then HealthError
      else if balance < minBalanceWei then HealthWarn else HealthOk)"

subsection \<open>The candidate streams\<close>

record StreamState =
  ss_stopped :: bool
  ss_sseActive :: bool
  ss_timer :: bool \<comment> \<open>a reconnect is scheduled\<close>
  ss_downSince :: int
  ss_backoffMs :: int
  ss_sseLoops :: nat \<comment> \<open>the SSE readers that are running\<close>

definition scheduleReconnect :: "StreamState \<Rightarrow> StreamState" where
  "scheduleReconnect s = (if ss_stopped s \<or> ss_timer s then s else s\<lparr>ss_timer := True\<rparr>)"

definition open_ws :: "bool \<Rightarrow> StreamState \<Rightarrow> StreamState" where \<comment> \<open>\<open>open()\<close>; whether the constructor throws\<close>
  "open_ws throws s = (if ss_stopped s then s else if throws then scheduleReconnect s else s)"

definition on_open :: "StreamState \<Rightarrow> StreamState" where
  "on_open s = (let s1 = s\<lparr>ss_backoffMs := 1000, ss_downSince := 0\<rparr>
     in if ss_sseActive s1 then s1\<lparr>ss_sseActive := False\<rparr> else s1)"

definition on_close :: "int \<Rightarrow> StreamState \<Rightarrow> StreamState" where
  "on_close t s = (if ss_stopped s then s else
     scheduleReconnect (if ss_downSince s = 0 then s\<lparr>ss_downSince := t\<rparr> else s))"

definition on_timer :: "int \<Rightarrow> int \<Rightarrow> bool \<Rightarrow> StreamState \<Rightarrow> StreamState" where
  "on_timer sseFallbackSec t throws s =
     (let s1 = s\<lparr>ss_timer := False\<rparr>;
          s2 = (if \<not> ss_sseActive s1 \<and> ss_downSince s1 > 0 \<and> t - ss_downSince s1 > sseFallbackSec * 1000
                then s1\<lparr>ss_sseActive := True, ss_sseLoops := ss_sseLoops s1 + 1\<rparr> else s1);
          s3 = s2\<lparr>ss_backoffMs := min (ss_backoffMs s2 * 2) 30000\<rparr>
      in open_ws throws s3)"

definition on_stop :: "StreamState \<Rightarrow> StreamState" where
  "on_stop s = s\<lparr>ss_stopped := True, ss_timer := False\<rparr>"

definition stream_init :: StreamState where
  "stream_init = \<lparr>ss_stopped = False, ss_sseActive = False, ss_timer = False, ss_downSince = 0,
     ss_backoffMs = 1000, ss_sseLoops = 0\<rparr>"

inductive stream_step :: "int \<Rightarrow> StreamState \<Rightarrow> StreamState \<Rightarrow> bool" for sec where
  ws_construct: "stream_step sec s (open_ws throws s)" if "s = stream_init"
| ws_opened: "stream_step sec s (on_open s)"
| ws_closed: "stream_step sec s (on_close t s)" if "0 \<le> t"
| timer_fired: "stream_step sec s (on_timer sec t throws s)" if "ss_timer s"
| stopped: "stream_step sec s (on_stop s)"
| sse_exits: "stream_step sec s (s\<lparr>ss_sseLoops := ss_sseLoops s - 1\<rparr>)" if "ss_stopped s"

inductive_cases stream_stepE: "stream_step sec s s'"

definition stream_ok :: "StreamState \<Rightarrow> bool" where
  "stream_ok s \<longleftrightarrow> 1000 \<le> ss_backoffMs s \<and> ss_backoffMs s \<le> 30000 \<and> 0 \<le> ss_downSince s \<and>
     (ss_stopped s \<longrightarrow> \<not> ss_timer s)"

lemmas stream_defs = scheduleReconnect_def open_ws_def on_open_def on_close_def on_timer_def on_stop_def Let_def

lemma stream_step_ok: "stream_step sec s s' \<Longrightarrow> stream_ok s \<Longrightarrow> stream_ok s'"
  by (induction rule: stream_step.induct) (auto simp: stream_ok_def stream_defs stream_init_def)

lemma stream_ok_init: "stream_ok stream_init"
  by (simp add: stream_ok_def stream_init_def)

lemma stream_step_loops: "stream_step sec s s' \<Longrightarrow> \<not> ss_stopped s \<Longrightarrow> ss_sseLoops s \<le> ss_sseLoops s'"
  by (induction rule: stream_step.induct) (auto simp: stream_defs)

text \<open>In every reachable state of the stream the reconnect delay lies between one and thirty seconds,
  and once the handle is stopped no reconnect is pending.\<close>
theorem stream_invariant:
  assumes "(stream_step sec)\<^sup>*\<^sup>* stream_init s"
  shows "1000 \<le> ss_backoffMs s \<and> ss_backoffMs s \<le> 30000 \<and> (ss_stopped s \<longrightarrow> \<not> ss_timer s)"
proof -
  have "stream_ok s"
    using assms by (induction rule: rtranclp_induct) (auto intro: stream_step_ok stream_ok_init)
  then show ?thesis by (simp add: stream_ok_def)
qed

theorem stream_invariant_witness: "ss_backoffMs stream_init \<le> 30000"
  using stream_invariant [where sec = 10, OF rtranclp.rtrancl_refl] by blast

text \<open>The SSE fallback is never retired: a reconnected socket clears the flag, but no step short of
  stopping ends a running SSE reader, so a second outage starts a second reader beside the first.\<close>
theorem sse_readers_accumulate:
  "(\<forall>s. \<not> ss_stopped s \<longrightarrow> ss_sseLoops s \<le> ss_sseLoops (on_open s)) \<and>
   (\<exists>s. (stream_step 10)\<^sup>*\<^sup>* stream_init s \<and> \<not> ss_stopped s \<and> \<not> ss_sseActive s \<and> ss_sseLoops s = 2)"
proof -
  define s1 where "s1 = on_close 1000 stream_init"
  define s2 where "s2 = on_timer 10 12000 False s1"
  define s3 where "s3 = on_close 20000 (on_open s2)"
  define s4 where "s4 = on_timer 10 40000 False s3"
  have v: "s1 = stream_init\<lparr>ss_downSince := 1000, ss_timer := True\<rparr>"
    by (simp add: s1_def stream_defs stream_init_def)
  have v2: "s2 = stream_init\<lparr>ss_downSince := 1000, ss_sseActive := True, ss_sseLoops := 1, ss_backoffMs := 2000\<rparr>"
    by (simp add: s2_def v stream_defs stream_init_def)
  have v3: "s3 = stream_init\<lparr>ss_downSince := 20000, ss_timer := True, ss_sseLoops := 1\<rparr>"
    by (simp add: s3_def v2 stream_defs stream_init_def)
  have v4: "s4 = stream_init\<lparr>ss_downSince := 20000, ss_sseActive := True, ss_sseLoops := 2, ss_backoffMs := 2000\<rparr>"
    by (simp add: s4_def v3 stream_defs stream_init_def)
  have "stream_step 10 stream_init s1" unfolding s1_def by (rule ws_closed) simp
  moreover have "stream_step 10 s1 s2" unfolding s2_def by (rule timer_fired) (simp add: v)
  moreover have "stream_step 10 s2 (on_open s2)" by (rule ws_opened)
  moreover have "stream_step 10 (on_open s2) s3" unfolding s3_def by (rule ws_closed) simp
  moreover have "stream_step 10 s3 s4" unfolding s4_def by (rule timer_fired) (simp add: v3)
  moreover have "stream_step 10 s4 (on_open s4)" by (rule ws_opened)
  ultimately have "(stream_step 10)\<^sup>*\<^sup>* stream_init (on_open s4)"
    by (meson converse_rtranclp_into_rtranclp rtranclp.rtrancl_refl)
  moreover have "\<not> ss_stopped (on_open s4) \<and> \<not> ss_sseActive (on_open s4) \<and> ss_sseLoops (on_open s4) = 2"
    by (simp add: v4 stream_defs stream_init_def)
  ultimately show ?thesis
    using stream_step_loops [OF ws_opened] by blast
qed

theorem sse_readers_accumulate_witness:
  "\<exists>s. (stream_step 10)\<^sup>*\<^sup>* stream_init s \<and> ss_sseLoops s = 2"
  using sse_readers_accumulate by blast

subsection \<open>Frames of the event stream\<close>

definition NL :: char where "NL = CHR 0x0A"

text \<open>The text before and after the first blank line.\<close>

fun splitFrame :: "string \<Rightarrow> (string \<times> string) option" where
  "splitFrame [] = None"
| "splitFrame [c] = None"
| "splitFrame (a # b # rest) =
     (if a = NL \<and> b = NL then Some ([], rest)
      else map_option (\<lambda>(f, r). (a # f, r)) (splitFrame (b # rest)))"

lemma splitFrame_shorter: "splitFrame s = Some (f, r) \<Longrightarrow> length r < length s"
  by (induction s arbitrary: f r rule: splitFrame.induct) (auto split: if_splits)

text \<open>The inner loop: all complete frames of the buffer, and what is left of it.\<close>

function frames :: "string \<Rightarrow> string list \<times> string" where
  "frames buf = (case splitFrame buf of None \<Rightarrow> ([], buf)
     | Some (f, r) \<Rightarrow> (let (fs, rest) = frames r in (f # fs, rest)))"
  by pat_completeness auto
termination by (relation "measure length") (auto dest: splitFrame_shorter)

declare frames.simps [simp del]

fun linesOf :: "string \<Rightarrow> string \<Rightarrow> string list" where \<comment> \<open>\<open>split("\n")\<close>, with the line so far\<close>
  "linesOf cur [] = [rev cur]"
| "linesOf cur (c # cs) = (if c = NL then rev cur # linesOf [] cs else linesOf (c # cur) cs)"

definition dataLine :: "string \<Rightarrow> string option" where
  "dataLine frame = map_option (drop 6) (find (\<lambda>l. take 6 l = ''data: '') (linesOf [] frame))"

lemma splitFrame_append: "splitFrame s = Some (f, r) \<Longrightarrow> splitFrame (s @ t) = Some (f, r @ t)"
  by (induction s arbitrary: f r rule: splitFrame.induct) (auto split: if_splits)

text \<open>How the network cuts the event stream does not matter: reading two chunks one after the other
  yields the same frames and the same rest as reading them at once.\<close>
theorem frames_chunking:
  "frames (a @ b) = (let (fs, r) = frames a; (gs, r') = frames (r @ b) in (fs @ gs, r'))"
proof (induction a rule: frames.induct)
  case (1 a)
  show ?case
  proof (cases "splitFrame a")
    case None
    then show ?thesis by (simp add: frames.simps [of a] split_def)
  next
    case (Some fr)
    obtain f r where fr: "fr = (f, r)" by (cases fr)
    have "frames (a @ b) = (let (fs, rest) = frames (r @ b) in (f # fs, rest))"
      using splitFrame_append [of a f r b] Some fr by (simp add: frames.simps [of "a @ b"])
    then show ?thesis
      using 1 [OF Some fr [symmetric]] Some fr by (simp add: frames.simps [of a] split_def Let_def)
  qed
qed

end
