(* ===== verification/Tables.thy ===== *)
theory Tables
  imports Prelude
begin

text \<open>
  What the services use of PostgreSQL, as operations on lists of rows: an insert that ignores
  conflicts with a unique index (\<open>ON CONFLICT DO NOTHING RETURNING\<close>), an insert that updates
  the conflicting row, and \<open>ORDER BY ... LIMIT 1\<close>. A unique index is the key of a row; a partial
  index has no key (\<open>None\<close>) for the rows its \<open>WHERE\<close> leaves out. Rows that tie in an order
  come in insertion order (the standard leaves it open; no property here depends on it).
\<close>

subsection \<open>Operations\<close>

definition conflicts :: "('r \<Rightarrow> 'k option) \<Rightarrow> 'r \<Rightarrow> 'r list \<Rightarrow> bool" where
  "conflicts key r rows \<longleftrightarrow> key r \<noteq> None \<and> key r \<in> key ` set rows"

definition insertIgnore :: "('r \<Rightarrow> 'k option) \<Rightarrow> 'r \<Rightarrow> 'r list \<Rightarrow> 'r list \<times> bool" where
  "insertIgnore key r rows = (if conflicts key r rows then (rows, False) else (rows @ [r], True))"

text \<open>A statement with many rows: it returns the rows that went in.\<close>

fun insertAllIgnore :: "('r \<Rightarrow> 'k option) \<Rightarrow> 'r list \<Rightarrow> 'r list \<Rightarrow> 'r list \<times> 'r list" where
  "insertAllIgnore key [] rows = (rows, [])"
| "insertAllIgnore key (r # rs) rows =
     (let (rows', ok) = insertIgnore key r rows; (rows'', ins) = insertAllIgnore key rs rows'
      in (rows'', if ok then r # ins else ins))"

text \<open>\<open>ON CONFLICT DO UPDATE\<close>: the conflicting row is rewritten in place.\<close>

definition insertOrUpdate :: "('r \<Rightarrow> 'k option) \<Rightarrow> ('r \<Rightarrow> 'r \<Rightarrow> 'r) \<Rightarrow> 'r \<Rightarrow> 'r list \<Rightarrow> 'r list" where
  "insertOrUpdate key upd r rows =
     (if conflicts key r rows then map (\<lambda>old. if key old = key r then upd r old else old) rows
      else rows @ [r])"

definition firstBy :: "('r \<Rightarrow> int) \<Rightarrow> 'r list \<Rightarrow> 'r option" where
  "firstBy k rows = (case sort_key k rows of [] \<Rightarrow> None | r # rs \<Rightarrow> Some r)"

definition latestBy :: "('r \<Rightarrow> int) \<Rightarrow> 'r list \<Rightarrow> 'r option" where
  "latestBy k rows = firstBy (\<lambda>r. - k r) rows"

definition headOf :: "'r list \<Rightarrow> 'r option" where \<comment> \<open>\<open>rows[0] ?? null\<close>\<close>
  "headOf rows = (case rows of [] \<Rightarrow> None | r # rs \<Rightarrow> Some r)"

subsection \<open>Facts\<close>

lemma headOf_simps [simp]: "headOf [] = None" "headOf (r # rs) = Some r"
  by (simp_all add: headOf_def)

lemma headOf_Some: "headOf rows = Some r \<Longrightarrow> r \<in> set rows"
  by (cases rows) auto

lemma headOf_None [simp]: "headOf rows = None \<longleftrightarrow> rows = []"
  by (cases rows) auto

lemma firstBy_None [simp]: "firstBy k rows = None \<longleftrightarrow> rows = []"
proof -
  have "sort_key k rows = [] \<longleftrightarrow> rows = []"
    by (metis length_0_conv length_sort)
  then show ?thesis by (cases "sort_key k rows") (simp_all add: firstBy_def)
qed

lemma firstBy_Some:
  assumes "firstBy k rows = Some r"
  shows "r \<in> set rows \<and> (\<forall>x \<in> set rows. k r \<le> k x)"
proof -
  obtain rs where s: "sort_key k rows = r # rs"
    using assms by (auto simp: firstBy_def split: list.splits)
  have mem: "set rows = insert r (set rs)"
    using s by (metis list.simps(15) set_sort)
  have "sorted (map k (r # rs))"
    using s by (metis sorted_sort_key)
  then show ?thesis using mem by auto
qed

lemma latestBy_None [simp]: "latestBy k rows = None \<longleftrightarrow> rows = []"
  by (simp add: latestBy_def)

lemma latestBy_Some: "latestBy k rows = Some r \<Longrightarrow> r \<in> set rows \<and> (\<forall>x \<in> set rows. k x \<le> k r)"
  using firstBy_Some by (fastforce simp: latestBy_def)

subsection \<open>Tables that ignore conflicts\<close>

text \<open>
  The contract of every idempotent writer of the services: a row whose key is free is appended
  and reported as inserted, a row whose key is taken leaves the store as it is.
\<close>

definition uniqueOn :: "('r \<Rightarrow> 'k option) \<Rightarrow> 'r list \<Rightarrow> bool" where
  "uniqueOn key rows \<longleftrightarrow> distinct (filter (\<lambda>k. k \<noteq> None) (map key rows))"

locale ignoring_table =
  fixes key :: "'r \<Rightarrow> 'k option"
    and rows :: "'t \<Rightarrow> 'r list"
    and put :: "'r \<Rightarrow> 't \<Rightarrow> 't \<times> bool"
  assumes put_free: "\<not> conflicts key r (rows t) \<Longrightarrow> rows (fst (put r t)) = rows t @ [r] \<and> snd (put r t)"
    and put_taken: "conflicts key r (rows t) \<Longrightarrow> put r t = (t, False)"
begin

lemma put_unique: "uniqueOn key (rows t) \<Longrightarrow> uniqueOn key (rows (fst (put r t)))"
proof (cases "conflicts key r (rows t)")
  case False
  assume "uniqueOn key (rows t)"
  then show ?thesis
    using put_free [OF False] False by (auto simp: uniqueOn_def conflicts_def)
qed (simp add: put_taken)

lemma put_appends: "\<exists>new. rows (fst (put r t)) = rows t @ new \<and> set new \<subseteq> {r}"
  using put_free [of r t] put_taken [of r t] by (cases "conflicts key r (rows t)") auto

lemma put_reports: "snd (put r t) \<longleftrightarrow> \<not> conflicts key r (rows t)"
  using put_free [of r t] put_taken [of r t] by (cases "conflicts key r (rows t)") auto

lemma put_again: "key r \<noteq> None \<Longrightarrow> key r' = key r \<Longrightarrow> put r' (fst (put r t)) = (fst (put r t), False)"
proof -
  assume k: "key r \<noteq> None" "key r' = key r"
  have "conflicts key r' (rows (fst (put r t)))"
    using put_free [of r t] put_taken [of r t] k
    by (cases "conflicts key r (rows t)") (auto simp: conflicts_def)
  then show ?thesis by (rule put_taken)
qed

lemma put_present: "key r \<noteq> None \<Longrightarrow> \<exists>x \<in> set (rows (fst (put r t))). key x = key r"
  using put_free [of r t] put_taken [of r t]
  by (cases "conflicts key r (rows t)") (auto simp: conflicts_def)

end

lemma uniqueOn_the_row:
  assumes "uniqueOn key rows" "x \<in> set rows" "y \<in> set rows" "key x = Some k" "key y = Some k"
  shows "x = y"
proof -
  obtain a b where s: "rows = a @ x # b" using assms(2) by (auto dest: split_list)
  then have "y \<notin> set a" "y \<notin> set b"
    using assms(1,4,5) by (auto simp: uniqueOn_def image_iff)
  then show ?thesis using s assms(3) by auto
qed

interpretation plain: ignoring_table key "\<lambda>rows. rows" "insertIgnore key" for key :: "'r \<Rightarrow> 'k option"
  by unfold_locales (simp_all add: insertIgnore_def)

lemma insertAllIgnore_spec:
  "insertAllIgnore key rs rows = (rows', ins) \<Longrightarrow>
   rows' = rows @ ins \<and> set ins \<subseteq> set rs \<and> (uniqueOn key rows \<longrightarrow> uniqueOn key rows')"
proof (induction rs arbitrary: rows rows' ins)
  case (Cons r rs)
  obtain rows1 ok where i: "insertIgnore key r rows = (rows1, ok)" by (cases "insertIgnore key r rows")
  obtain rows2 ins2 where a: "insertAllIgnore key rs rows1 = (rows2, ins2)"
    by (cases "insertAllIgnore key rs rows1")
  have step: "rows1 = rows @ (if ok then [r] else [])"
    using i by (auto simp: insertIgnore_def split: if_splits)
  have u: "uniqueOn key rows \<longrightarrow> uniqueOn key rows1"
    using plain.put_unique [of key rows r] i by simp
  show ?case using Cons.IH [OF a] Cons.prems i a step u by (auto split: if_splits)
qed simp

lemma insertAllIgnore_again:
  assumes "\<forall>r \<in> set rs. conflicts key r rows"
  shows "insertAllIgnore key rs rows = (rows, [])"
  using assms by (induction rs) (auto simp: insertIgnore_def)

lemma insertAllIgnore_present:
  "insertAllIgnore key rs rows = (rows', ins) \<Longrightarrow> r \<in> set rs \<Longrightarrow> key r \<noteq> None \<Longrightarrow> conflicts key r rows'"
proof (induction rs arbitrary: rows rows' ins)
  case (Cons q rs)
  obtain rows1 ok where i: "insertIgnore key q rows = (rows1, ok)" by (cases "insertIgnore key q rows")
  obtain rows2 ins2 where a: "insertAllIgnore key rs rows1 = (rows2, ins2)"
    by (cases "insertAllIgnore key rs rows1")
  have eq: "rows' = rows1 @ ins2"
    using Cons.prems(1) i a insertAllIgnore_spec [OF a] by (auto split: if_splits)
  show ?case
  proof (cases "r = q")
    case True
    then have "conflicts key r rows1"
      using i Cons.prems(3) by (auto simp: insertIgnore_def conflicts_def split: if_splits)
    then show ?thesis using eq by (auto simp: conflicts_def)
  next
    case False
    then show ?thesis using Cons.IH [OF a] Cons.prems i a by (auto split: if_splits)
  qed
qed simp

end
