(* ===== verification/Repos.thy ===== *)
theory Repos
  imports Tables Methodology JsMap JsText
begin

text \<open>
  packages/db/src/repos.ts: the reads and writes of the services on the pricing database, over
  tables that are lists of rows in insertion order. \<open>gen_random_uuid()\<close> is a counter and
  \<open>new Date()\<close> an argument. A \<open>numeric\<close> column keeps the value it is given: the writers round
  to its scale first.
\<close>

subsection \<open>Rows\<close>

datatype CadenceTier = FAST | MEDIUM | SLOW

datatype FailureKind =
    network_failure | parse_failure | timeout_failure | rate_limited | auth_failed | empty_result
  | insufficient_data_failure | schema_drift | unknown_failure

datatype RunStatus = run_success | run_partial | run_failed | run_skipped | run_circuit_open

datatype WalletKind = embedded | external

datatype trigger = scheduled | manual | replay

record ProviderSeed =
  sd_slug :: string
  sd_name :: string
  sd_sourceType :: SourceType
  sd_role :: ProviderRole
  sd_cadenceTier :: CadenceTier
  sd_homepageUrl :: "string option"
  sd_config :: "json option"

record ProviderRow =
  pv_id :: nat
  pv_slug :: string
  pv_name :: string
  pv_sourceType :: SourceType
  pv_role :: ProviderRole
  pv_cadenceTier :: CadenceTier
  pv_homepageUrl :: "string option"
  pv_config :: json
  pv_updatedAt :: date

record MethodologyVersionInput =
  mi_version :: string
  mi_config :: json
  mi_configHash :: string
  mi_changelog :: "string option"

record MethodologyRow =
  mr_version :: string
  mr_config :: json
  mr_configHash :: string
  mr_changelog :: "string option"
  mr_effectiveFrom :: date
  mr_effectiveTo :: "date option"

record RunCounts =
  rc_rawCount :: int
  rc_normalizedCount :: int
  rc_unmappedCount :: int

record CollectionRunInput = RunCounts +
  ru_providerId :: nat
  ru_collectorId :: string
  ru_trigger :: trigger
  ru_attempt :: int
  ru_startedAt :: date
  ru_finishedAt :: date
  ru_durationMs :: int
  ru_status :: RunStatus
  ru_failureKind :: "FailureKind option"
  ru_errorMessage :: "string option"

record RunRow = CollectionRunInput +
  ru_id :: nat

record SourceFailureInput =
  sf_providerId :: nat
  sf_collectorId :: string
  sf_collectionRunId :: "nat option"
  sf_failureKind :: FailureKind
  sf_detail :: "string option"
  sf_retryAfterSeconds :: "int option"
  sf_circuitOpened :: "bool option"
  sf_occurredAt :: date

record SourceFailureRow =
  sr_providerId :: nat
  sr_collectorId :: string
  sr_collectionRunId :: "nat option"
  sr_failureKind :: FailureKind
  sr_detail :: "string option"
  sr_retryAfterSeconds :: "int option"
  sr_circuitOpened :: bool
  sr_occurredAt :: date

record RawRowInput =
  ri_providerSlug :: string
  ri_sourceType :: SourceType
  ri_rawGpuLabel :: string
  ri_rawPrice :: "number option"
  ri_rawCurrency :: string
  ri_rawUnit :: string
  ri_gpuCount :: "int option"
  ri_region :: "string option"
  ri_pricingTier :: "PricingTier option"
  ri_observedAt :: date
  ri_sourceUrl :: "string option"
  ri_sourceId :: "string option"
  ri_rawPayload :: json
  ri_providerId :: nat
  ri_collectionRunId :: "nat option"

record RawRow = RawRowInput +
  raw_id :: nat
  raw_fingerprint :: string

record NormalizedRow =
  no_rawObservationId :: nat
  no_providerId :: nat
  no_sourceType :: SourceType
  no_gpuId :: string
  no_usdPerGpuHour :: number
  no_pricingTier :: PricingTier
  no_gpuCount :: "int option"
  no_region :: "string option"
  no_available :: "bool option"
  no_offerId :: "string option"
  no_machineId :: "string option"
  no_hostId :: "string option"
  no_rawTotalUsdPerHour :: "number option"
  no_isBid :: bool
  no_fxRateUsed :: "number option"
  no_fxRateDate :: "string option"
  no_normalizationVersion :: string
  no_observedAt :: date

record UnmappedRowInput =
  ui_providerId :: nat
  ui_rawGpuLabel :: string
  ui_sample :: "nat option"
  ui_lastSeenAt :: date

record UnmappedRow =
  um_providerId :: nat
  um_rawGpuLabel :: string
  um_sample :: "nat option"
  um_firstSeenAt :: date
  um_lastSeenAt :: date
  um_occurrences :: int

record ProviderPriceRow =
  pr_providerId :: nat
  pr_gpuId :: string
  pr_panelId :: "string option"
  pr_price :: "number option"
  pr_method :: ProviderPriceMethod
  pr_executable :: bool
  pr_sampleSize :: int
  pr_windowStart :: date
  pr_windowEnd :: date
  pr_computedAt :: date
  pr_methodologyVersion :: string
  pr_params :: json
  pr_receipts :: json

record IndexCandidateRowInput =
  cd_gpuId :: string
  cd_panelId :: string
  cd_price :: "number option"
  cd_confidenceLow :: "number option"
  cd_confidenceHigh :: "number option"
  cd_dispersion :: number
  cd_status :: IndexStatus
  cd_providersObserved :: int
  cd_providersContributing :: int
  cd_methodologyVersion :: string
  cd_gates :: json
  cd_contributors :: "string list" \<comment> \<open>their \<open>providerId\<close>s\<close>
  cd_exclusions :: json
  cd_calcParams :: json
  cd_calcHash :: string
  cd_windowStart :: date
  cd_windowEnd :: date
  cd_computedAt :: date
  cd_priorCandidateId :: "nat option"

record CandidateRow = IndexCandidateRowInput +
  cd_id :: nat

record PublicationRow =
  pb_candidateId :: nat
  pb_gpuId :: string
  pb_panelId :: string
  pb_price :: number
  pb_confidenceLow :: "number option"
  pb_confidenceHigh :: "number option"
  pb_status :: IndexStatus
  pb_publisherVersion :: string
  pb_target :: string
  pb_txRef :: string
  pb_publishedAt :: date

text \<open>The \<open>detail\<close> of a violation: the values that its template interpolates.\<close>

datatype violation_detail =
    V_none | V_status IndexStatus | V_age number number | V_versions string string
  | V_over number number | V_move number number number | V_sources nat nat

record PublishViolation =
  vi_code :: string
  vi_detail :: violation_detail

record ViolationRow =
  vr_candidateId :: nat
  vr_gpuId :: string
  vr_target :: string
  vr_violations :: "PublishViolation list"
  vr_publisherVersion :: string
  vr_recordedAt :: date

record OracleReportRow =
  or_version :: int
  or_gpuId :: string
  or_candidateId :: "nat option"
  or_price :: number
  or_observedAt :: number
  or_epoch :: number
  or_validFrom :: number
  or_validUntil :: number
  or_calcHash :: string
  or_signature :: string
  or_reportHash :: string
  or_attestedAt :: date

record FxRateInput =
  fi_currency :: string
  fi_rateDate :: date
  fi_usdPerUnit :: number
  fi_fetchedAt :: date
  fi_source :: "string option"

record FxRateRow =
  fx_currency :: string
  fx_rateDate :: date
  fx_usdPerUnit :: number
  fx_fetchedAt :: date
  fx_source :: string

record UserWalletUpsert =
  wi_privyUserId :: string
  wi_address :: string
  wi_walletKind :: WalletKind
  wi_label :: "string option"

record UserWalletRow =
  uw_id :: nat
  uw_privyUserId :: string
  uw_address :: string
  uw_walletKind :: WalletKind
  uw_label :: "string option"
  uw_firstSeenAt :: date
  uw_lastSeenAt :: date

record Db =
  db_providers :: "ProviderRow list"
  db_methodologies :: "MethodologyRow list"
  db_runs :: "RunRow list"
  db_failures :: "SourceFailureRow list"
  db_raw :: "RawRow list"
  db_normalized :: "NormalizedRow list"
  db_unmapped :: "UnmappedRow list"
  db_providerPrices :: "ProviderPriceRow list"
  db_candidates :: "CandidateRow list"
  db_published :: "PublicationRow list"
  db_violations :: "ViolationRow list"
  db_reports :: "OracleReportRow list"
  db_fxRates :: "FxRateRow list"
  db_wallets :: "UserWalletRow list"
  db_nextId :: nat

definition db_empty :: Db where
  "db_empty = \<lparr>db_providers = [], db_methodologies = [], db_runs = [], db_failures = [], db_raw = [],
     db_normalized = [], db_unmapped = [], db_providerPrices = [], db_candidates = [], db_published = [],
     db_violations = [], db_reports = [], db_fxRates = [], db_wallets = [], db_nextId = 0\<rparr>"

definition freshId :: "Db \<Rightarrow> nat \<times> Db" where
  "freshId db = (db_nextId db, db\<lparr>db_nextId := Suc (db_nextId db)\<rparr>)"

subsection \<open>Providers and methodology versions\<close>

definition providerOf :: "nat \<Rightarrow> date \<Rightarrow> ProviderSeed \<Rightarrow> ProviderRow" where
  "providerOf i now sd = \<lparr>pv_id = i, pv_slug = sd_slug sd, pv_name = sd_name sd,
     pv_sourceType = sd_sourceType sd, pv_role = sd_role sd, pv_cadenceTier = sd_cadenceTier sd,
     pv_homepageUrl = sd_homepageUrl sd, pv_config = (case sd_config sd of None \<Rightarrow> JObj [] | Some c \<Rightarrow> c),
     pv_updatedAt = now\<rparr>"

text \<open>A seed that conflicts rewrites everything but the id and the slug.\<close>

definition seedProvider :: "date \<Rightarrow> ProviderSeed \<Rightarrow> Db \<Rightarrow> Db" where
  "seedProvider now sd db =
     (let (i, db') = freshId db in
      db'\<lparr>db_providers := insertOrUpdate (\<lambda>r. Some (pv_slug r)) (\<lambda>new old. new\<lparr>pv_id := pv_id old\<rparr>)
            (providerOf i now sd) (db_providers db')\<rparr>)"

definition seedProviders :: "date \<Rightarrow> ProviderSeed list \<Rightarrow> Db \<Rightarrow> Db" where
  "seedProviders now seeds db = foldl (\<lambda>db sd. seedProvider now sd db) db seeds"

definition getProviderBySlug :: "string \<Rightarrow> Db \<Rightarrow> ProviderRow option" where
  "getProviderBySlug slug db = headOf (filter (\<lambda>r. pv_slug r = slug) (db_providers db))"

definition closeOpen :: "date \<Rightarrow> MethodologyRow \<Rightarrow> MethodologyRow" where
  "closeOpen now r = (if mr_effectiveTo r = None then r\<lparr>mr_effectiveTo := Some now\<rparr> else r)"

text \<open>The transaction; the second \<open>new Date()\<close> is not before the first.\<close>

definition ensureMethodologyVersion :: "date \<Rightarrow> date \<Rightarrow> MethodologyVersionInput \<Rightarrow> Db \<Rightarrow> Db" where
  "ensureMethodologyVersion now now' input db =
     (if filter (\<lambda>r. mr_version r = mi_version input) (db_methodologies db) \<noteq> [] then db
      else db\<lparr>db_methodologies := fst (insertIgnore (\<lambda>r. Some (mr_version r))
        \<lparr>mr_version = mi_version input, mr_config = mi_config input, mr_configHash = mi_configHash input,
         mr_changelog = mi_changelog input, mr_effectiveFrom = now', mr_effectiveTo = None\<rparr>
        (map (closeOpen now) (db_methodologies db)))\<rparr>)"

definition getCurrentMethodology :: "Db \<Rightarrow> MethodologyRow option" where
  "getCurrentMethodology db =
     latestBy mr_effectiveFrom (filter (\<lambda>r. mr_effectiveTo r = None) (db_methodologies db))"

definition getMethodologyVersion :: "string \<Rightarrow> Db \<Rightarrow> MethodologyRow option" where
  "getMethodologyVersion v db = headOf (filter (\<lambda>r. mr_version r = v) (db_methodologies db))"

subsection \<open>Collection runs and failures\<close>

definition insertCollectionRun :: "CollectionRunInput \<Rightarrow> Db \<Rightarrow> nat \<times> Db" where
  "insertCollectionRun run db =
     (let (i, db') = freshId db in
      (i, db'\<lparr>db_runs := db_runs db' @ [CollectionRunInput.extend run \<lparr>ru_id = i\<rparr>]\<rparr>))"

definition failureRow :: "SourceFailureInput \<Rightarrow> SourceFailureRow" where
  "failureRow f = \<lparr>sr_providerId = sf_providerId f, sr_collectorId = sf_collectorId f,
     sr_collectionRunId = sf_collectionRunId f, sr_failureKind = sf_failureKind f, sr_detail = sf_detail f,
     sr_retryAfterSeconds = sf_retryAfterSeconds f,
     sr_circuitOpened = (case sf_circuitOpened f of None \<Rightarrow> False | Some b \<Rightarrow> b), sr_occurredAt = sf_occurredAt f\<rparr>"

definition insertSourceFailures :: "SourceFailureInput list \<Rightarrow> Db \<Rightarrow> Db" where
  "insertSourceFailures fs db = (if fs = [] then db else db\<lparr>db_failures := db_failures db @ map failureRow fs\<rparr>)"

definition getRecentRuns :: "nat \<Rightarrow> nat \<Rightarrow> Db \<Rightarrow> (RunStatus \<times> date) list" where
  "getRecentRuns providerId limit db =
     take limit (map (\<lambda>r. (ru_status r, ru_startedAt r))
       (sort_key (\<lambda>r. - ru_startedAt r) (filter (\<lambda>r. ru_providerId r = providerId) (db_runs db))))"

definition updateCollectionRunCounts :: "nat \<Rightarrow> RunCounts \<Rightarrow> Db \<Rightarrow> Db" where
  "updateCollectionRunCounts i counts db =
     db\<lparr>db_runs := map (\<lambda>r. if ru_id r = i then r\<lparr>rc_rawCount := rc_rawCount counts,
       rc_normalizedCount := rc_normalizedCount counts, rc_unmappedCount := rc_unmappedCount counts\<rparr> else r) (db_runs db)\<rparr>"

definition getLastRunPerCollector :: "Db \<Rightarrow> (string \<times> date) list" where
  "getLastRunPerCollector db =
     map (\<lambda>c. (c, Max (set (map ru_finishedAt (filter (\<lambda>r. ru_collectorId r = c) (db_runs db))))))
       (remdups (map ru_collectorId (db_runs db)))"

subsection \<open>Observations\<close>

text \<open>\<open>Date.toISOString\<close>, for the years of four digits.\<close>

definition padded :: "nat \<Rightarrow> int \<Rightarrow> string" where
  "padded w n = (let t = nat_text n in replicate (w - length t) (CHR ''0'') @ t)"

definition civil :: "int \<Rightarrow> int \<times> int \<times> int" where
  "civil days =
     (let z = days + 719468; era = z div 146097; doe = z mod 146097;
          yoe = (doe - doe div 1460 + doe div 36524 - doe div 146096) div 365;
          doy = doe - (365 * yoe + yoe div 4 - yoe div 100);
          mp = (5 * doy + 2) div 153;
          month = (if mp < 10 then mp + 3 else mp - 9)
      in (yoe + era * 400 + (if month \<le> 2 then 1 else 0), month, doy - (153 * mp + 2) div 5 + 1))"

definition isoText :: "date \<Rightarrow> string" where
  "isoText t =
     (let (y, m, d) = civil (t div 86400000); ms = t mod 86400000 in
      padded 4 y @ ''-'' @ padded 2 m @ ''-'' @ padded 2 d @ ''T'' @ padded 2 (ms div 3600000) @ '':'' @
      padded 2 (ms div 60000 mod 60) @ '':'' @ padded 2 (ms div 1000 mod 60) @ ''.'' @ padded 3 (ms mod 1000) @ ''Z'')"

definition US :: char where "US = CHR 0x1F"

definition OBS_FINGERPRINT_VERSION :: string where "OBS_FINGERPRINT_VERSION = ''v1''"

fun joined :: "string list \<Rightarrow> string" where \<comment> \<open>\<open>join\<close> with the unit separator\<close>
  "joined [] = []"
| "joined [x] = x"
| "joined (x # y # ys) = x @ US # joined (y # ys)"

definition orEmpty :: "string option \<Rightarrow> string" where
  "orEmpty x = (case x of None \<Rightarrow> [] | Some s \<Rightarrow> s)"

definition fingerprintFields :: "('r) RawRowInput_scheme \<Rightarrow> string list" where
  "fingerprintFields r =
     [OBS_FINGERPRINT_VERSION, ri_providerSlug r, orEmpty (ri_sourceId r), isoText (ri_observedAt r),
      ri_rawGpuLabel r, ri_rawUnit r, orEmpty (ri_region r),
      (case ri_gpuCount r of None \<Rightarrow> [] | Some n \<Rightarrow> int_text n)]"

text \<open>\<open>sha256Hex\<close> is an argument.\<close>

definition obsFingerprint :: "(string \<Rightarrow> string) \<Rightarrow> ('r) RawRowInput_scheme \<Rightarrow> string" where
  "obsFingerprint sha256 r = sha256 (joined (fingerprintFields r))"

fun withRawIds :: "(string \<Rightarrow> string) \<Rightarrow> nat \<Rightarrow> RawRowInput list \<Rightarrow> RawRow list" where
  "withRawIds sha256 i [] = []"
| "withRawIds sha256 i (r # rs) =
     RawRowInput.extend r \<lparr>raw_id = i, raw_fingerprint = obsFingerprint sha256 r\<rparr> # withRawIds sha256 (Suc i) rs"

definition rawKey :: "RawRow \<Rightarrow> string option" where
  "rawKey r = Some (raw_fingerprint r)"

definition insertRawObservations ::
  "(string \<Rightarrow> string) \<Rightarrow> RawRowInput list \<Rightarrow> Db \<Rightarrow> (nat \<times> string \<times> string) list \<times> Db" where
  "insertRawObservations sha256 rows db =
     (if rows = [] then ([], db) else
      let (t, ins) = insertAllIgnore rawKey (withRawIds sha256 (db_nextId db) rows) (db_raw db) in
      (map (\<lambda>r. (raw_id r, ri_rawGpuLabel r, raw_fingerprint r)) ins,
       db\<lparr>db_raw := t, db_nextId := db_nextId db + length rows\<rparr>))"

definition normalizedKey :: "NormalizedRow \<Rightarrow> nat option" where
  "normalizedKey r = Some (no_rawObservationId r)"

definition insertNormalizedObservations :: "NormalizedRow list \<Rightarrow> Db \<Rightarrow> Db" where
  "insertNormalizedObservations rows db =
     (if rows = [] then db
      else db\<lparr>db_normalized := fst (insertAllIgnore normalizedKey rows (db_normalized db))\<rparr>)"

text \<open>
  The batch collapses to one row per provider and label before the upsert. \<open>key\<close> is the JSON
  text of the pair, which separates its parts; the map is keyed by the pair.
\<close>

type_synonym merged = "((nat \<times> string) \<times> UnmappedRowInput \<times> date) list"

definition mergeEntry :: "UnmappedRowInput \<Rightarrow> merged \<Rightarrow> merged" where
  "mergeEntry e m =
     (let k = (ui_providerId e, ui_rawGpuLabel e) in
      case js_get m k of None \<Rightarrow> js_set k (e, ui_lastSeenAt e) m
      | Some (entry, firstSeen) \<Rightarrow>
          let entry1 = (if ui_sample entry = None \<and> ui_sample e \<noteq> None then entry\<lparr>ui_sample := ui_sample e\<rparr> else entry);
              entry2 = (if ui_lastSeenAt entry1 < ui_lastSeenAt e then entry1\<lparr>ui_lastSeenAt := ui_lastSeenAt e\<rparr> else entry1);
              firstSeen' = (if ui_lastSeenAt e < firstSeen then ui_lastSeenAt e else firstSeen)
          in js_set k (entry2, firstSeen') m)"

definition mergeEntries :: "UnmappedRowInput list \<Rightarrow> merged" where
  "mergeEntries entries = foldl (\<lambda>m e. mergeEntry e m) js_empty entries"

definition unmappedRow :: "UnmappedRowInput \<times> date \<Rightarrow> UnmappedRow" where
  "unmappedRow m = \<lparr>um_providerId = ui_providerId (fst m), um_rawGpuLabel = ui_rawGpuLabel (fst m),
     um_sample = ui_sample (fst m), um_firstSeenAt = snd m, um_lastSeenAt = ui_lastSeenAt (fst m), um_occurrences = 1\<rparr>"

definition unmappedKey :: "UnmappedRow \<Rightarrow> (nat \<times> string) option" where
  "unmappedKey r = Some (um_providerId r, um_rawGpuLabel r)"

definition seenAgain :: "UnmappedRow \<Rightarrow> UnmappedRow \<Rightarrow> UnmappedRow" where
  "seenAgain new old = old\<lparr>um_occurrences := um_occurrences old + 1, um_lastSeenAt := um_lastSeenAt new\<rparr>"

definition upsertUnmappedLabels :: "UnmappedRowInput list \<Rightarrow> Db \<Rightarrow> Db" where
  "upsertUnmappedLabels entries db =
     (if entries = [] then db
      else db\<lparr>db_unmapped := foldl (\<lambda>t m. insertOrUpdate unmappedKey seenAgain (unmappedRow m) t)
        (db_unmapped db) (js_values (mergeEntries entries))\<rparr>)"

definition getObservationsInWindow :: "string \<Rightarrow> date \<Rightarrow> date \<Rightarrow> Db \<Rightarrow> (NormalizedRow \<times> ProviderRow) list" where
  "getObservationsInWindow gpuId windowStart windowEnd db =
     sort_key (\<lambda>(ob, pv). no_observedAt ob)
       [(ob, pv). ob \<leftarrow> db_normalized db, pv \<leftarrow> db_providers db, pv_id pv = no_providerId ob,
          no_gpuId ob = gpuId \<and> windowStart \<le> no_observedAt ob \<and> no_observedAt ob < windowEnd]"

subsection \<open>Provider prices and index candidates\<close>

definition insertProviderPrices :: "ProviderPriceRow list \<Rightarrow> Db \<Rightarrow> Db" where
  "insertProviderPrices rows db =
     (if rows = [] then db else db\<lparr>db_providerPrices := db_providerPrices db @ rows\<rparr>)"

definition getProviderPriceHistory :: "string \<Rightarrow> date \<Rightarrow> Db \<Rightarrow> ProviderPriceRow list" where
  "getProviderPriceHistory gpuId since db =
     sort_key pr_computedAt
       (filter (\<lambda>r. pr_gpuId r = gpuId \<and> since \<le> pr_computedAt r) (db_providerPrices db))"

text \<open>The unique index on (gpu, calcHash) leaves the stale rows out.\<close>

definition candidateKey :: "('r) IndexCandidateRowInput_scheme \<Rightarrow> (string \<times> string) option" where
  "candidateKey r = (if cd_status r = stale then None else Some (cd_gpuId r, cd_calcHash r))"

datatype 'a result = Thrown | Value 'a

definition insertIndexCandidate :: "IndexCandidateRowInput \<Rightarrow> Db \<Rightarrow> (nat \<times> bool) result \<times> Db" where
  "insertIndexCandidate input db =
     (let (i, db') = freshId db; row = IndexCandidateRowInput.extend input \<lparr>cd_id = i\<rparr>;
          (t, inserted) = insertIgnore candidateKey row (db_candidates db)
      in if inserted then (Value (i, True), db'\<lparr>db_candidates := t\<rparr>)
         else (case headOf (filter (\<lambda>r. cd_gpuId r = cd_gpuId input \<and> cd_calcHash r = cd_calcHash input) t) of
                 None \<Rightarrow> (Thrown, db') | Some found \<Rightarrow> (Value (cd_id found, False), db')))"

definition candidatesOf :: "string \<Rightarrow> Db \<Rightarrow> CandidateRow list" where
  "candidatesOf gpuId db = filter (\<lambda>r. cd_gpuId r = gpuId) (db_candidates db)"

definition getLatestCandidate :: "string \<Rightarrow> Db \<Rightarrow> CandidateRow option" where
  "getLatestCandidate gpuId db = latestBy cd_computedAt (candidatesOf gpuId db)"

definition getLatestPricedCandidate :: "string \<Rightarrow> Db \<Rightarrow> CandidateRow option" where
  "getLatestPricedCandidate gpuId db =
     latestBy cd_computedAt (filter (\<lambda>r. cd_price r \<noteq> None) (candidatesOf gpuId db))"

definition getLatestHealthyCandidate :: "string \<Rightarrow> Db \<Rightarrow> CandidateRow option" where
  "getLatestHealthyCandidate gpuId db =
     latestBy cd_computedAt (filter (\<lambda>r. cd_status r \<in> {healthy, degraded}) (candidatesOf gpuId db))"

definition getCandidateById :: "nat \<Rightarrow> Db \<Rightarrow> CandidateRow option" where
  "getCandidateById i db = headOf (filter (\<lambda>r. cd_id r = i) (db_candidates db))"

definition getCandidatesSince :: "date \<Rightarrow> Db \<Rightarrow> CandidateRow list" where
  "getCandidatesSince since db =
     sort_key (\<lambda>r. - cd_computedAt r) (filter (\<lambda>r. since \<le> cd_computedAt r) (db_candidates db))"

definition getCandidateHistory :: "string \<Rightarrow> nat \<Rightarrow> Db \<Rightarrow> CandidateRow list" where
  "getCandidateHistory gpuId limit db = take limit (sort_key (\<lambda>r. - cd_computedAt r) (candidatesOf gpuId db))"

definition getLatestCandidatesByGpu :: "string list option \<Rightarrow> Db \<Rightarrow> CandidateRow list" where
  "getLatestCandidatesByGpu gpuIds db =
     (let rows = (case gpuIds of Some (g # gs) \<Rightarrow> filter (\<lambda>r. cd_gpuId r \<in> set (g # gs)) (db_candidates db)
                  | _ \<Rightarrow> db_candidates db)
      in List.map_filter (\<lambda>g. latestBy cd_computedAt (filter (\<lambda>r. cd_gpuId r = g) rows))
           (remdups (map cd_gpuId rows)))"

subsection \<open>Candles\<close>

record CandidateCandleRow =
  ca_bucketStart :: date
  ca_open :: number
  ca_high :: number
  ca_low :: number
  ca_close :: number
  ca_samples :: nat

definition bucketOf :: "int \<Rightarrow> CandidateRow \<Rightarrow> date" where
  "bucketOf intervalSec r = cd_computedAt r div (intervalSec * 1000) * (intervalSec * 1000)"

definition windowed :: "string \<Rightarrow> date \<Rightarrow> date \<Rightarrow> Db \<Rightarrow> CandidateRow list" where
  "windowed gpuId start stop db =
     filter (\<lambda>r. cd_price r \<noteq> None \<and> start \<le> cd_computedAt r \<and> cd_computedAt r < stop) (candidatesOf gpuId db)"

definition candleOf :: "date \<Rightarrow> CandidateRow list \<Rightarrow> CandidateCandleRow" where
  "candleOf bucket rows =
     (let price = (\<lambda>r. the (cd_price r));
          ascending = sort_key cd_computedAt (sort_key (\<lambda>r. int (cd_id r)) rows);
          descending = sort_key (\<lambda>r. - cd_computedAt r) (sort_key (\<lambda>r. - int (cd_id r)) rows)
      in \<lparr>ca_bucketStart = bucket, ca_open = price (hd ascending), ca_high = Max (set (map price rows)),
          ca_low = Min (set (map price rows)), ca_close = price (hd descending), ca_samples = length rows\<rparr>)"

definition getCandidateCandles :: "string \<Rightarrow> int \<Rightarrow> date \<Rightarrow> date \<Rightarrow> Db \<Rightarrow> CandidateCandleRow list" where
  "getCandidateCandles gpuId intervalSec start stop db =
     (let rows = windowed gpuId start stop db in
      map (\<lambda>b. candleOf b (filter (\<lambda>r. bucketOf intervalSec r = b) rows))
        (sort (remdups (map (bucketOf intervalSec) rows))))"

subsection \<open>Publications, violations and reports\<close>

definition publicationKey :: "PublicationRow \<Rightarrow> (nat \<times> string) option" where
  "publicationKey r = Some (pb_candidateId r, pb_target r)"

definition recordPublication :: "PublicationRow \<Rightarrow> Db \<Rightarrow> Db \<times> bool" where
  "recordPublication row db =
     (let (t, ok) = insertIgnore publicationKey row (db_published db) in (db\<lparr>db_published := t\<rparr>, ok))"

definition getPublication :: "nat \<Rightarrow> string \<Rightarrow> Db \<Rightarrow> PublicationRow option" where
  "getPublication c target db =
     headOf (filter (\<lambda>r. pb_candidateId r = c \<and> pb_target r = target) (db_published db))"

definition getLatestPublication :: "string \<Rightarrow> string \<Rightarrow> Db \<Rightarrow> PublicationRow option" where
  "getLatestPublication gpuId target db =
     latestBy pb_publishedAt (filter (\<lambda>r. pb_gpuId r = gpuId \<and> pb_target r = target) (db_published db))"

definition violationKey :: "ViolationRow \<Rightarrow> (nat \<times> string) option" where
  "violationKey r = Some (vr_candidateId r, vr_target r)"

definition recordPublishViolations :: "ViolationRow \<Rightarrow> Db \<Rightarrow> Db \<times> bool" where
  "recordPublishViolations row db =
     (let (t, ok) = insertIgnore violationKey row (db_violations db) in (db\<lparr>db_violations := t\<rparr>, ok))"

definition reportKey :: "OracleReportRow \<Rightarrow> (string \<times> number) option" where
  "reportKey r = Some (or_gpuId r, or_epoch r)"

definition insertOracleReport :: "OracleReportRow \<Rightarrow> Db \<Rightarrow> Db \<times> bool" where
  "insertOracleReport row db =
     (let (t, ok) = insertIgnore reportKey row (db_reports db) in (db\<lparr>db_reports := t\<rparr>, ok))"

definition getOracleReport :: "string \<Rightarrow> number \<Rightarrow> Db \<Rightarrow> OracleReportRow option" where
  "getOracleReport gpuId epoch db =
     headOf (filter (\<lambda>r. or_gpuId r = gpuId \<and> or_epoch r = epoch) (db_reports db))"

text \<open>An epoch is an integer, so the floor keeps the order of the epochs.\<close>

definition getLatestOracleReport :: "string \<Rightarrow> Db \<Rightarrow> OracleReportRow option" where
  "getLatestOracleReport gpuId db =
     latestBy (\<lambda>r. \<lfloor>or_epoch r\<rfloor>) (filter (\<lambda>r. or_gpuId r = gpuId) (db_reports db))"

definition getOracleReportsSince :: "string \<Rightarrow> number \<Rightarrow> Db \<Rightarrow> OracleReportRow list" where
  "getOracleReportsSince gpuId sinceEpoch db =
     sort_key or_epoch (filter (\<lambda>r. or_gpuId r = gpuId \<and> sinceEpoch \<le> or_epoch r) (db_reports db))"

subsection \<open>Exchange rates and wallets\<close>

definition fxRow :: "FxRateInput \<Rightarrow> FxRateRow" where
  "fxRow r = \<lparr>fx_currency = fi_currency r, fx_rateDate = fi_rateDate r, fx_usdPerUnit = fi_usdPerUnit r,
     fx_fetchedAt = fi_fetchedAt r, fx_source = (case fi_source r of None \<Rightarrow> ''ecb'' | Some s \<Rightarrow> s)\<rparr>"

definition fxKey :: "FxRateRow \<Rightarrow> (string \<times> date) option" where
  "fxKey r = Some (fx_currency r, fx_rateDate r)"

definition insertFxRates :: "FxRateInput list \<Rightarrow> Db \<Rightarrow> Db" where
  "insertFxRates rows db =
     (if rows = [] then db
      else db\<lparr>db_fxRates := fst (insertAllIgnore fxKey (map fxRow rows) (db_fxRates db))\<rparr>)"

definition getFxRate :: "string \<Rightarrow> date \<Rightarrow> Db \<Rightarrow> FxRateRow option" where
  "getFxRate currency asOfDate db =
     latestBy fx_rateDate (filter (\<lambda>r. fx_currency r = currency \<and> fx_rateDate r \<le> asOfDate) (db_fxRates db))"

definition walletKey :: "UserWalletRow \<Rightarrow> string option" where
  "walletKey r = Some (uw_address r)"

definition walletRow :: "nat \<Rightarrow> date \<Rightarrow> UserWalletUpsert \<Rightarrow> UserWalletRow" where
  "walletRow i now input = \<lparr>uw_id = i, uw_privyUserId = wi_privyUserId input,
     uw_address = toLowerCase (wi_address input), uw_walletKind = wi_walletKind input,
     uw_label = wi_label input, uw_firstSeenAt = now, uw_lastSeenAt = now\<rparr>"

definition signInAgain :: "UserWalletRow \<Rightarrow> UserWalletRow \<Rightarrow> UserWalletRow" where
  "signInAgain new old = old\<lparr>uw_privyUserId := uw_privyUserId new, uw_walletKind := uw_walletKind new,
     uw_label := uw_label new, uw_lastSeenAt := uw_lastSeenAt new\<rparr>"

definition findUserWalletByAddress :: "string \<Rightarrow> Db \<Rightarrow> UserWalletRow option" where
  "findUserWalletByAddress address db =
     headOf (filter (\<lambda>r. uw_address r = toLowerCase address) (db_wallets db))"

text \<open>The row it returns is the row of the address.\<close>

definition upsertUserWallet :: "date \<Rightarrow> UserWalletUpsert \<Rightarrow> Db \<Rightarrow> UserWalletRow option \<times> Db" where
  "upsertUserWallet now input db =
     (let (i, db') = freshId db;
          db'' = db'\<lparr>db_wallets := insertOrUpdate walletKey signInAgain (walletRow i now input) (db_wallets db')\<rparr>
      in (findUserWalletByAddress (wi_address input) db'', db''))"

definition findUserWalletByPrivyUserId :: "string \<Rightarrow> Db \<Rightarrow> UserWalletRow option" where
  "findUserWalletByPrivyUserId u db = headOf (filter (\<lambda>r. uw_privyUserId r = u) (db_wallets db))"

end
