(* ===== verification/Assess.thy ===== *)
theory Assess
  imports Repos Report
begin

text \<open>
  apps/attestor/src: types.ts (the candidate, the configuration, the violation codes),
  thresholds.ts (the panel's thresholds) and validate.ts (the attestor's own audit of a candidate).
  A violation keeps the values its text interpolates.
\<close>

subsection \<open>types.ts\<close>

record CandidateLike =
  cl_id :: nat
  cl_gpuId :: string
  cl_panelId :: string
  cl_price :: "number option"
  cl_confidenceLow :: "number option"
  cl_confidenceHigh :: "number option"
  cl_status :: IndexStatus
  cl_providersContributing :: int
  cl_dispersion :: number
  cl_methodologyVersion :: string
  cl_calcHash :: string
  cl_computedAt :: date
  cl_contributors :: "string list"

record AttestorConfig =
  at_pinnedMethodologyVersion :: string
  at_minContributors :: "number option"
  at_maxDispersion :: "number option"
  at_maxFreshnessMs :: number
  at_maxJumpPct :: number
  at_maxBandWidthPct :: "number option"

record ResolvedAttestorConfig =
  rv_pinnedMethodologyVersion :: string
  rv_minContributors :: number
  rv_maxDispersion :: number
  rv_maxFreshnessMs :: number
  rv_maxJumpPct :: number
  rv_maxBandWidthPct :: number

type_synonym BreakerMap = "(string, bool) js_map"

record AttestableIndexValue =
  va_candidateId :: nat
  va_gpuId :: string
  va_panelId :: string
  va_price :: number
  va_confidenceLow :: "number option"
  va_confidenceHigh :: "number option"
  va_status :: IndexStatus
  va_methodologyVersion :: string
  va_calcHash :: string
  va_computedAt :: date

record Assessment =
  as_violations :: "PublishViolation list"
  as_value :: "AttestableIndexValue option"

definition VIOLATION :: "(string \<times> string) list" where
  "VIOLATION = [(''status'', ''not_publishable_status''), (''price'', ''missing_price''),
     (''freshness'', ''stale_candidate''), (''methodology'', ''methodology_mismatch''),
     (''contributors'', ''insufficient_contributors''), (''dispersion'', ''excess_dispersion''),
     (''band'', ''excess_band_width''), (''jump'', ''jump_requires_manual''),
     (''sources'', ''contributor_sources_unhealthy''), (''healthUnknown'', ''source_health_unavailable'')]"

definition violation :: "string \<Rightarrow> violation_detail \<Rightarrow> PublishViolation" where
  "violation k d = \<lparr>vi_code = the (map_of VIOLATION k), vi_detail = d\<rparr>"

subsection \<open>thresholds.ts\<close>

definition minWith :: "number option \<Rightarrow> number \<Rightarrow> number" where \<comment> \<open>\<open>Math.min(x ?? Infinity, y)\<close>\<close>
  "minWith x y = (case x of None \<Rightarrow> y | Some m \<Rightarrow> min m y)"

definition resolvePanelThresholds :: "AttestorConfig \<Rightarrow> MethodologyConfig \<Rightarrow> string \<Rightarrow> ResolvedAttestorConfig" where
  "resolvePanelThresholds config methodology panelId =
     (let effective = effectiveConfigFor methodology panelId in
      \<lparr>rv_pinnedMethodologyVersion = at_pinnedMethodologyVersion config,
       rv_minContributors = max (case at_minContributors config of None \<Rightarrow> 0 | Some m \<Rightarrow> m)
         (of_int (minProviders (gates effective))),
       rv_maxDispersion = minWith (at_maxDispersion config) (disp_max (dispersion effective)),
       rv_maxFreshnessMs = at_maxFreshnessMs config,
       rv_maxJumpPct = at_maxJumpPct config,
       rv_maxBandWidthPct = minWith (at_maxBandWidthPct config) (disp_max (dispersion effective))\<rparr>)"

subsection \<open>validate.ts\<close>

definition ageMs :: "CandidateLike \<Rightarrow> date \<Rightarrow> number" where
  "ageMs candidate now = of_int (now - cl_computedAt candidate)"

definition bandWidthPct :: "CandidateLike \<Rightarrow> number option" where
  "bandWidthPct candidate =
     (case (cl_price candidate, cl_confidenceLow candidate, cl_confidenceHigh candidate) of
        (Some price, Some low, Some high) \<Rightarrow> if 0 < price then Some (fdiv (fsub high low) price) else None
      | _ \<Rightarrow> None)"

definition jumpPct :: "CandidateLike \<Rightarrow> number option \<Rightarrow> number option" where
  "jumpPct candidate previous =
     (case (previous, cl_price candidate) of
        (Some prev, Some price) \<Rightarrow> if 0 < prev then Some (fdiv \<bar>fsub price prev\<bar> prev) else None
      | _ \<Rightarrow> None)"

definition openBreakers :: "CandidateLike \<Rightarrow> BreakerMap \<Rightarrow> nat" where
  "openBreakers candidate breakers =
     length (filter (\<lambda>c. js_get breakers c = Some True) (cl_contributors candidate))"

text \<open>The ten checks in their order; each adds at most one violation and none stops the others.\<close>

definition candidateViolations ::
  "CandidateLike \<Rightarrow> ResolvedAttestorConfig \<Rightarrow> date \<Rightarrow> number option \<Rightarrow> BreakerMap option \<Rightarrow> PublishViolation list" where
  "candidateViolations candidate config now previous breakers =
     (if cl_status candidate \<noteq> healthy \<and> cl_status candidate \<noteq> degraded
      then [violation ''status'' (V_status (cl_status candidate))] else []) @
     (if cl_price candidate = None then [violation ''price'' V_none] else []) @
     (if rv_maxFreshnessMs config < ageMs candidate now
      then [violation ''freshness'' (V_age (ageMs candidate now) (rv_maxFreshnessMs config))] else []) @
     (if cl_methodologyVersion candidate \<noteq> rv_pinnedMethodologyVersion config
      then [violation ''methodology''
              (V_versions (cl_methodologyVersion candidate) (rv_pinnedMethodologyVersion config))] else []) @
     (if of_int (cl_providersContributing candidate) < rv_minContributors config
      then [violation ''contributors''
              (V_over (of_int (cl_providersContributing candidate)) (rv_minContributors config))] else []) @
     (if rv_maxDispersion config < cl_dispersion candidate
      then [violation ''dispersion'' (V_over (cl_dispersion candidate) (rv_maxDispersion config))] else []) @
     (case bandWidthPct candidate of None \<Rightarrow> []
      | Some w \<Rightarrow> if rv_maxBandWidthPct config < w
                  then [violation ''band'' (V_over w (rv_maxBandWidthPct config))] else []) @
     (case jumpPct candidate previous of None \<Rightarrow> []
      | Some j \<Rightarrow> if rv_maxJumpPct config < j
                  then [violation ''jump'' (V_move j (the previous) (rv_maxJumpPct config))] else []) @
     (case breakers of None \<Rightarrow> []
      | Some b \<Rightarrow> if length (cl_contributors candidate) < openBreakers candidate b * 2
                  then [violation ''sources''
                    (V_sources (openBreakers candidate b) (length (cl_contributors candidate)))] else [])"

definition assessCandidate ::
  "CandidateLike \<Rightarrow> ResolvedAttestorConfig \<Rightarrow> date \<Rightarrow> number option \<Rightarrow> BreakerMap option \<Rightarrow> Assessment" where
  "assessCandidate candidate config now previous breakers =
     \<lparr>as_violations = candidateViolations candidate config now previous breakers,
      as_value = (case cl_price candidate of None \<Rightarrow> None
        | Some price \<Rightarrow> Some \<lparr>va_candidateId = cl_id candidate, va_gpuId = cl_gpuId candidate,
            va_panelId = cl_panelId candidate, va_price = price,
            va_confidenceLow = cl_confidenceLow candidate, va_confidenceHigh = cl_confidenceHigh candidate,
            va_status = cl_status candidate, va_methodologyVersion = cl_methodologyVersion candidate,
            va_calcHash = cl_calcHash candidate, va_computedAt = cl_computedAt candidate\<rparr>)\<rparr>"

subsection \<open>Thresholds only tighten\<close>

lemma violation_codes [simp]:
  "vi_code (violation ''status'' d) = ''not_publishable_status''"
  "vi_code (violation ''contributors'' d) = ''insufficient_contributors''"
  "vi_code (violation ''dispersion'' d) = ''excess_dispersion''"
  "vi_code (violation ''band'' d) = ''excess_band_width''"
  "vi_code (violation ''jump'' d) = ''jump_requires_manual''"
  by (simp_all add: violation_def VIOLATION_def)

lemma flagged:
  "of_int (cl_providersContributing c) < rv_minContributors r \<Longrightarrow>
     ''insufficient_contributors'' \<in> vi_code ` set (candidateViolations c r now previous breakers)"
  "rv_maxDispersion r < cl_dispersion c \<Longrightarrow>
     ''excess_dispersion'' \<in> vi_code ` set (candidateViolations c r now previous breakers)"
  "bandWidthPct c = Some w \<Longrightarrow> rv_maxBandWidthPct r < w \<Longrightarrow>
     ''excess_band_width'' \<in> vi_code ` set (candidateViolations c r now previous breakers)"
  "jumpPct c previous = Some j \<Longrightarrow> rv_maxJumpPct r < j \<Longrightarrow>
     ''jump_requires_manual'' \<in> vi_code ` set (candidateViolations c r now previous breakers)"
  unfolding candidateViolations_def set_append image_Un by simp_all

text \<open>The operator's limits only tighten the methodology's: the resolved thresholds of a panel are never
  below its provider quorum nor above its dispersion cap, and a candidate that passes the contributor
  and spread checks of the attestor also satisfies the panel's own quorum and cap.\<close>
theorem operator_limits_only_tighten:
  assumes "resolvePanelThresholds config methodology panel = r"
    and "effectiveConfigFor methodology panel = eff"
    and "codes = map vi_code (candidateViolations candidate r now previous breakers)"
  shows "of_int (minProviders (gates eff)) \<le> rv_minContributors r \<and> rv_maxDispersion r \<le> disp_max (dispersion eff) \<and>
    rv_maxBandWidthPct r \<le> disp_max (dispersion eff) \<and>
    (''insufficient_contributors'' \<notin> set codes \<longrightarrow> minProviders (gates eff) \<le> cl_providersContributing candidate) \<and>
    (''excess_dispersion'' \<notin> set codes \<longrightarrow> cl_dispersion candidate \<le> disp_max (dispersion eff)) \<and>
    (''excess_band_width'' \<notin> set codes \<longrightarrow> (case bandWidthPct candidate of None \<Rightarrow> True
       | Some w \<Rightarrow> w \<le> disp_max (dispersion eff)))"
proof -
  have r: "of_int (minProviders (gates eff)) \<le> rv_minContributors r" "rv_maxDispersion r \<le> disp_max (dispersion eff)"
      "rv_maxBandWidthPct r \<le> disp_max (dispersion eff)"
    using assms(1,2) by (auto simp: resolvePanelThresholds_def Let_def minWith_def split: option.splits)
  have codes: "set codes = vi_code ` set (candidateViolations candidate r now previous breakers)"
    using assms(3) by simp
  have "''insufficient_contributors'' \<notin> set codes \<longrightarrow> rv_minContributors r \<le> of_int (cl_providersContributing candidate)"
    using flagged(1) [of candidate r now previous breakers] codes by force
  moreover have "''excess_dispersion'' \<notin> set codes \<longrightarrow> cl_dispersion candidate \<le> rv_maxDispersion r"
    using flagged(2) [of r candidate now previous breakers] codes by force
  moreover have "''excess_band_width'' \<notin> set codes \<longrightarrow> (case bandWidthPct candidate of None \<Rightarrow> True
      | Some w \<Rightarrow> w \<le> rv_maxBandWidthPct r)"
    using flagged(3) [of candidate _ r now previous breakers] codes by (force split: option.split)
  moreover have "minProviders (gates eff) \<le> cl_providersContributing candidate"
    if "rv_minContributors r \<le> of_int (cl_providersContributing candidate)"
    using order_trans [OF r(1) that] by simp
  moreover have "cl_dispersion candidate \<le> disp_max (dispersion eff)" if "cl_dispersion candidate \<le> rv_maxDispersion r"
    using that r(2) by (rule order_trans)
  moreover have "case bandWidthPct candidate of None \<Rightarrow> True | Some w \<Rightarrow> w \<le> disp_max (dispersion eff)"
    if "case bandWidthPct candidate of None \<Rightarrow> True | Some w \<Rightarrow> w \<le> rv_maxBandWidthPct r"
    using that order_trans [OF _ r(3)] by (cases "bandWidthPct candidate") simp_all
  ultimately show ?thesis
    using r by blast
qed

end
