(* ===== verification/RepoFacts.thy ===== *)
theory RepoFacts
  imports Repos
begin

text \<open>
  What the repository operations keep: the unique keys of the tables, the single open
  methodology, the shape of a candle, and the idempotence of the writers.
\<close>

subsection \<open>Idempotent writers\<close>

interpretation rep: ignoring_table reportKey db_reports insertOracleReport
  by unfold_locales (simp_all add: insertOracleReport_def insertIgnore_def)

interpretation vio: ignoring_table violationKey db_violations recordPublishViolations
  by unfold_locales (simp_all add: recordPublishViolations_def insertIgnore_def)

interpretation pub: ignoring_table publicationKey db_published recordPublication
  by unfold_locales (simp_all add: recordPublication_def insertIgnore_def)

lemma insertOrUpdate_keys:
  assumes "\<And>old. key old = key r \<Longrightarrow> key (upd r old) = key old"
  shows "map key (insertOrUpdate key upd r rows) = map key rows @ (if conflicts key r rows then [] else [key r])"
  using assms by (simp add: insertOrUpdate_def)

lemma insertOrUpdate_unique:
  assumes "\<And>old. key old = key r \<Longrightarrow> key (upd r old) = key old" "uniqueOn key rows"
  shows "uniqueOn key (insertOrUpdate key upd r rows)"
proof -
  have keys: "map key (insertOrUpdate key upd r rows) = map key rows @ (if conflicts key r rows then [] else [key r])"
    by (rule insertOrUpdate_keys) (rule assms(1))
  have "key r \<notin> set (filter (\<lambda>k. k \<noteq> None) (map key rows))" if "\<not> conflicts key r rows"
    using that by (cases "key r") (simp_all add: conflicts_def)
  then show ?thesis
    using assms(2) unfolding uniqueOn_def keys by (cases "conflicts key r rows"; cases "key r") simp_all
qed

lemma foldl_unmapped_unique:
  "uniqueOn unmappedKey t \<Longrightarrow>
   uniqueOn unmappedKey (foldl (\<lambda>t m. insertOrUpdate unmappedKey seenAgain (unmappedRow m) t) t ms)"
  by (induction ms arbitrary: t) (simp_all add: insertOrUpdate_unique seenAgain_def unmappedKey_def)

subsection \<open>Methodology versions\<close>

definition openRows :: "Db \<Rightarrow> MethodologyRow list" where
  "openRows db = filter (\<lambda>r. mr_effectiveTo r = None) (db_methodologies db)"

lemma closeOpen_simps [simp]:
  "mr_version (closeOpen now r) = mr_version r" "mr_effectiveTo (closeOpen now r) \<noteq> None"
  by (simp_all add: closeOpen_def)

definition methodologyKey :: "MethodologyRow \<Rightarrow> string option" where
  "methodologyKey r = Some (mr_version r)"

definition methodologies_ok :: "Db \<Rightarrow> bool" where
  "methodologies_ok db \<longleftrightarrow> length (openRows db) \<le> 1 \<and> uniqueOn methodologyKey (db_methodologies db)"

lemma ensure_new:
  assumes "\<forall>r \<in> set (db_methodologies db). mr_version r \<noteq> mi_version input"
  shows "\<exists>row. db_methodologies (ensureMethodologyVersion now now' input db) =
       map (closeOpen now) (db_methodologies db) @ [row] \<and> mr_version row = mi_version input \<and>
     mr_config row = mi_config input \<and> mr_effectiveTo row = None \<and> mr_effectiveFrom row = now'"
proof -
  have none: "filter (\<lambda>r. mr_version r = mi_version input) (db_methodologies db) = []"
    using assms by (simp add: filter_empty_conv)
  show ?thesis
    using assms by (auto simp: ensureMethodologyVersion_def none insertIgnore_def conflicts_def)
qed

lemma ensure_old:
  assumes "r \<in> set (db_methodologies db)" "mr_version r = mi_version input"
  shows "ensureMethodologyVersion now now' input db = db"
  using assms by (auto simp: ensureMethodologyVersion_def filter_empty_conv)

lemma openRows_ensure:
  assumes "\<forall>r \<in> set (db_methodologies db). mr_version r \<noteq> mi_version input"
  shows "\<exists>row. openRows (ensureMethodologyVersion now now' input db) = [row] \<and>
     mr_version row = mi_version input \<and> mr_config row = mi_config input \<and> mr_effectiveFrom row = now'"
proof -
  have "filter (\<lambda>r. mr_effectiveTo r = None) (map (closeOpen now) rows) = []" for rows
    by (induction rows) simp_all
  then show ?thesis using ensure_new [OF assms, of now now'] by (auto simp: openRows_def)
qed

lemma ensure_ok:
  assumes "methodologies_ok db"
  shows "methodologies_ok (ensureMethodologyVersion now now' input db)"
proof (cases "\<forall>r \<in> set (db_methodologies db). mr_version r \<noteq> mi_version input")
  case True
  obtain row where row: "db_methodologies (ensureMethodologyVersion now now' input db) =
      map (closeOpen now) (db_methodologies db) @ [row]" "mr_version row = mi_version input"
    using ensure_new [OF True, of now now'] by blast
  have "methodologyKey \<circ> closeOpen now = methodologyKey"
    by (rule ext) (simp add: methodologyKey_def)
  then have "uniqueOn methodologyKey (db_methodologies (ensureMethodologyVersion now now' input db))"
    using assms True row unfolding methodologies_ok_def uniqueOn_def
    by (auto simp: methodologyKey_def)
  then show ?thesis using openRows_ensure [OF True, of now now'] by (auto simp: methodologies_ok_def)
next
  case False
  then show ?thesis using ensure_old assms by fastforce
qed

lemma latestBy_single: "latestBy k [r] = Some r"
  by (simp add: latestBy_def firstBy_def)

text \<open>The current methodology is the last version that was new: registering an unknown version
  makes it current and closes its predecessor, registering a known one changes nothing, and no
  history of registrations leaves two versions open.\<close>
theorem current_methodology:
  assumes "methodologies_ok db"
  shows "methodologies_ok (ensureMethodologyVersion now now' input db) \<and>
    (if \<exists>r \<in> set (db_methodologies db). mr_version r = mi_version input
     then ensureMethodologyVersion now now' input db = db
     else \<exists>row. getCurrentMethodology (ensureMethodologyVersion now now' input db) = Some row \<and>
            mr_version row = mi_version input \<and> mr_config row = mi_config input \<and>
            getMethodologyVersion (mi_version input) (ensureMethodologyVersion now now' input db) = Some row)"
proof (cases "\<exists>r \<in> set (db_methodologies db). mr_version r = mi_version input")
  case True
  then show ?thesis using assms ensure_ok ensure_old by auto
next
  case False
  let ?db = "ensureMethodologyVersion now now' input db"
  have new: "\<forall>r \<in> set (db_methodologies db). mr_version r \<noteq> mi_version input" using False by blast
  obtain row where row: "openRows ?db = [row]" "mr_version row = mi_version input" "mr_config row = mi_config input"
    using openRows_ensure [OF new, of now now'] by blast
  then have cur: "getCurrentMethodology ?db = Some row"
    by (simp add: getCurrentMethodology_def openRows_def latestBy_single)
  obtain r where r: "db_methodologies ?db = map (closeOpen now) (db_methodologies db) @ [r]"
      "mr_version r = mi_version input" "mr_effectiveTo r = None"
    using ensure_new [OF new, of now now'] by blast
  have "row \<in> set (db_methodologies ?db)" "mr_effectiveTo row = None"
    using row(1) by (auto simp: openRows_def filter_eq_Cons_iff)
  then have "row = r" using r(1) by auto
  moreover have "getMethodologyVersion (mi_version input) ?db = Some r"
  proof -
    have "filter (\<lambda>r. mr_version r = mi_version input) (map (closeOpen now) (db_methodologies db)) = []"
      using new by (auto simp: filter_empty_conv)
    then show ?thesis using r by (simp add: getMethodologyVersion_def)
  qed
  ultimately show ?thesis using cur row False ensure_ok [OF assms] by auto
qed

subsection \<open>Candles\<close>

lemma windowed_priced: "r \<in> set (windowed gpuId start stop db) \<Longrightarrow>
    cd_gpuId r = gpuId \<and> cd_price r \<noteq> None \<and> start \<le> cd_computedAt r \<and> cd_computedAt r < stop"
  by (simp add: windowed_def candidatesOf_def)

lemma hd_sort_mem: "rows \<noteq> [] \<Longrightarrow> hd (sort_key k (sort_key j rows)) \<in> set rows"
  by (metis hd_in_set length_0_conv length_sort set_sort)

lemma hd_sort_least:
  assumes "x \<in> set rows"
  shows "k (hd (sort_key k (sort_key j rows))) \<le> k x"
proof -
  have "x \<in> set (sort_key k (sort_key j rows))" using assms by simp
  then obtain y ys where s: "sort_key k (sort_key j rows) = y # ys"
    by (cases "sort_key k (sort_key j rows)") auto
  then have "sorted (map k (y # ys))" by (metis sorted_sort_key)
  then show ?thesis using s \<open>x \<in> set (sort_key k (sort_key j rows))\<close> by auto
qed

definition candle_sound :: "int \<Rightarrow> CandidateRow list \<Rightarrow> CandidateCandleRow \<Rightarrow> bool" where
  "candle_sound intervalSec rows c \<longleftrightarrow>
     (let inside = filter (\<lambda>r. ca_bucketStart c \<le> cd_computedAt r \<and>
            cd_computedAt r < ca_bucketStart c + intervalSec * 1000) rows
      in inside \<noteq> [] \<and> ca_samples c = length inside \<and> intervalSec * 1000 dvd ca_bucketStart c \<and>
        (\<forall>r \<in> set inside. ca_low c \<le> the (cd_price r) \<and> the (cd_price r) \<le> ca_high c) \<and>
        (\<exists>first \<in> set inside. ca_open c = the (cd_price first) \<and>
           (\<forall>r \<in> set inside. cd_computedAt first \<le> cd_computedAt r)) \<and>
        (\<exists>last \<in> set inside. ca_close c = the (cd_price last) \<and>
           (\<forall>r \<in> set inside. cd_computedAt r \<le> cd_computedAt last)))"

lemma candleOf_sound:
  assumes "0 < intervalSec" "b \<in> bucketOf intervalSec ` set rows"
  shows "candle_sound intervalSec rows (candleOf b (filter (\<lambda>r. bucketOf intervalSec r = b) rows))"
proof -
  let ?w = "intervalSec * 1000"
  let ?in = "filter (\<lambda>r. bucketOf intervalSec r = b) rows"
  let ?f = "\<lambda>r. the (cd_price r)"
  have w: "0 < ?w" using assms(1) by simp
  have dvd: "?w dvd b" using assms(2) by (auto simp: bucketOf_def)
  then obtain q where q: "b = q * ?w" by (metis dvdE mult.commute)
  have same: "(bucketOf intervalSec r = b) = (b \<le> cd_computedAt r \<and> cd_computedAt r < b + ?w)" for r
  proof -
    let ?t = "cd_computedAt r"
    note bounds = div_bounds [OF w, of ?t]
    have "?t div ?w = q \<longleftrightarrow> q * ?w \<le> ?t \<and> ?t < q * ?w + ?w"
    proof
      assume "q * ?w \<le> ?t \<and> ?t < q * ?w + ?w"
      then have "0 \<le> ?t - q * ?w" "?t - q * ?w < ?w" by linarith+
      then have "(?t - q * ?w) div ?w = 0" by (rule div_pos_pos_trivial)
      then show "?t div ?w = q" using w div_mult_self1 [of ?w "?t - q * ?w" q] by simp
    qed (use bounds in auto)
    then show ?thesis using q w by (simp add: bucketOf_def)
  qed
  define I where "I = ?in"
  define c where "c = candleOf b I"
  define f :: "CandidateRow \<Rightarrow> number" where "f = (\<lambda>r. the (cd_price r))"
  have ne: "I \<noteq> []" using assms(2) by (auto simp: I_def filter_empty_conv)
  have sel: "ca_bucketStart c = b" "ca_samples c = length I" "ca_low c = Min (f ` set I)" "ca_high c = Max (f ` set I)"
      "ca_open c = f (hd (sort_key cd_computedAt (sort_key (\<lambda>r. int (cd_id r)) I)))"
      "ca_close c = f (hd (sort_key (\<lambda>r. - cd_computedAt r) (sort_key (\<lambda>r. - int (cd_id r)) I)))"
    by (simp_all add: c_def candleOf_def f_def Let_def)
  have inside: "filter (\<lambda>r. ca_bucketStart c \<le> cd_computedAt r \<and> cd_computedAt r < ca_bucketStart c + ?w) rows = I"
    unfolding sel(1) I_def same ..
  have low: "\<forall>r \<in> set I. ca_low c \<le> f r \<and> f r \<le> ca_high c"
    using sel(3,4) by simp
  have opens: "\<exists>first \<in> set I. ca_open c = f first \<and> (\<forall>r \<in> set I. cd_computedAt first \<le> cd_computedAt r)"
    using hd_sort_mem [OF ne, of cd_computedAt "\<lambda>r. int (cd_id r)"]
      hd_sort_least [of _ I cd_computedAt "\<lambda>r. int (cd_id r)"] sel(5) by blast
  have closes: "\<exists>last \<in> set I. ca_close c = f last \<and> (\<forall>r \<in> set I. cd_computedAt r \<le> cd_computedAt last)"
  proof (intro bexI conjI ballI)
    let ?l = "hd (sort_key (\<lambda>r. - cd_computedAt r) (sort_key (\<lambda>r. - int (cd_id r)) I))"
    show "cd_computedAt r \<le> cd_computedAt ?l" if "r \<in> set I" for r
      using hd_sort_least [OF that, where k = "\<lambda>r. - cd_computedAt r" and j = "\<lambda>r. - int (cd_id r)"] by simp
    show "?l \<in> set I" using ne by (rule hd_sort_mem)
    show "ca_close c = f ?l" by (rule sel(6))
  qed
  show ?thesis
    unfolding candle_sound_def Let_def I_def [symmetric] c_def [symmetric] inside
    using ne sel(1,2) dvd low opens closes unfolding f_def by simp
qed

lemma sum_length_classes:
  "sum_list (map (\<lambda>b. length (filter (\<lambda>r. f r = b) rows)) bs) = length (filter (\<lambda>r. f r \<in> set bs) rows)"
  if "distinct bs"
  using that
proof (induction bs)
  case (Cons b bs)
  have "length (filter (\<lambda>r. f r \<in> set (b # bs)) rows) =
      length (filter (\<lambda>r. f r = b) rows) + length (filter (\<lambda>r. f r \<in> set bs) rows)"
    using Cons.prems by (induction rows) auto
  then show ?case using Cons by simp
qed simp

text \<open>The candles partition the priced computations of the window: the buckets lie on the grid in
  strictly ascending order, each candle covers exactly the computations of its interval, its extremes
  enclose every price, it opens with a first and closes with a last computation of the interval, and
  no computation is lost or counted twice.\<close>
theorem candles_partition_the_series:
  assumes "0 < intervalSec"
  shows "(\<forall>c \<in> set (getCandidateCandles gpuId intervalSec start stop db).
       candle_sound intervalSec (windowed gpuId start stop db) c) \<and>
    sorted_wrt (<) (map ca_bucketStart (getCandidateCandles gpuId intervalSec start stop db)) \<and>
    sum_list (map ca_samples (getCandidateCandles gpuId intervalSec start stop db)) =
      length (windowed gpuId start stop db)"
proof -
  let ?rows = "windowed gpuId start stop db"
  let ?bs = "sort (remdups (map (bucketOf intervalSec) ?rows))"
  have starts: "map ca_bucketStart (getCandidateCandles gpuId intervalSec start stop db) = ?bs"
    by (simp add: getCandidateCandles_def Let_def candleOf_def comp_def)
  have sizes: "map ca_samples (getCandidateCandles gpuId intervalSec start stop db) =
      map (\<lambda>b. length (filter (\<lambda>r. bucketOf intervalSec r = b) ?rows)) ?bs"
    by (simp add: getCandidateCandles_def Let_def candleOf_def comp_def)
  have "candle_sound intervalSec ?rows c" if "c \<in> set (getCandidateCandles gpuId intervalSec start stop db)" for c
    using that candleOf_sound [OF assms] by (auto simp: getCandidateCandles_def Let_def)
  moreover have "sorted_wrt (<) ?bs" by (simp add: strict_sorted_iff)
  moreover have "filter (\<lambda>r. bucketOf intervalSec r \<in> set ?bs) ?rows = ?rows" by (simp add: filter_id_conv)
  moreover have "distinct ?bs" by simp
  ultimately show ?thesis
    using sum_length_classes [of ?bs "bucketOf intervalSec" ?rows] starts sizes by simp
qed

subsection \<open>Ingestion\<close>

lemma rawKey_withRawIds: "map rawKey (withRawIds sha256 i rs) = map (\<lambda>r. Some (obsFingerprint sha256 r)) rs"
  by (induction rs arbitrary: i) (simp_all add: rawKey_def RawRowInput.defs)

lemma withRawIds_keys:
  "rawKey ` set (withRawIds sha256 i rs) = (\<lambda>r. Some (obsFingerprint sha256 r)) ` set rs"
  using arg_cong [OF rawKey_withRawIds, of set sha256 i rs] by simp

text \<open>Ingestion is idempotent: a batch appends to the raw table exactly the rows it returns, one per
  new fingerprint, and the same batch again, whatever happened in between to other tables, returns
  nothing and leaves the table alone.\<close>
theorem ingest_is_idempotent:
  assumes "insertRawObservations sha256 rows db = (ret, db')"
    and "db_raw later = db_raw db'"
  shows "\<exists>new. db_raw db' = db_raw db @ new \<and>
      ret = map (\<lambda>r. (raw_id r, ri_rawGpuLabel r, raw_fingerprint r)) new \<and>
      (uniqueOn rawKey (db_raw db) \<longrightarrow> uniqueOn rawKey (db_raw db')) \<and>
      (\<forall>r \<in> set rows. obsFingerprint sha256 r \<in> raw_fingerprint ` set (db_raw db')) \<and>
      fst (insertRawObservations sha256 rows later) = [] \<and>
      db_raw (snd (insertRawObservations sha256 rows later)) = db_raw later"
proof (cases "rows = []")
  case True
  then show ?thesis using assms by (auto simp: insertRawObservations_def)
next
  case False
  let ?rs = "\<lambda>i. withRawIds sha256 i rows"
  obtain t ins where i: "insertAllIgnore rawKey (?rs (db_nextId db)) (db_raw db) = (t, ins)"
    by (cases "insertAllIgnore rawKey (?rs (db_nextId db)) (db_raw db)")
  have eq: "db_raw db' = t" "ret = map (\<lambda>r. (raw_id r, ri_rawGpuLabel r, raw_fingerprint r)) ins"
    using assms(1) i False by (auto simp: insertRawObservations_def)
  have sp: "t = db_raw db @ ins" "uniqueOn rawKey (db_raw db) \<longrightarrow> uniqueOn rawKey t"
    using insertAllIgnore_spec [OF i] by blast+
  have there: "rawKey q \<in> rawKey ` set t" if "q \<in> set (?rs j)" for q j
  proof -
    have "rawKey q \<in> rawKey ` set (?rs (db_nextId db))"
      using that withRawIds_keys [of sha256 j rows] withRawIds_keys [of sha256 "db_nextId db" rows] by blast
    then obtain q' where q': "q' \<in> set (?rs (db_nextId db))" "rawKey q' = rawKey q" by auto
    from insertAllIgnore_present [OF i q'(1)] q'(2) show ?thesis by (simp add: conflicts_def rawKey_def)
  qed
  have present: "\<forall>r \<in> set rows. obsFingerprint sha256 r \<in> raw_fingerprint ` set t"
  proof
    fix r assume "r \<in> set rows"
    then have "Some (obsFingerprint sha256 r) \<in> rawKey ` set (?rs (db_nextId db))"
      unfolding withRawIds_keys by blast
    then obtain q where "q \<in> set (?rs (db_nextId db))" "rawKey q = Some (obsFingerprint sha256 r)" by auto
    then have "Some (obsFingerprint sha256 r) \<in> rawKey ` set t" using there by metis
    then show "obsFingerprint sha256 r \<in> raw_fingerprint ` set t" by (auto simp: rawKey_def)
  qed
  have again: "insertAllIgnore rawKey (?rs (db_nextId later)) (db_raw later) = (db_raw later, [])"
    using there assms(2) eq(1) by (intro insertAllIgnore_again) (simp add: conflicts_def rawKey_def)
  show ?thesis
    using eq sp present again False by (auto simp: insertRawObservations_def)
qed

subsection \<open>The worklist of unknown labels\<close>

definition unmappedInputKey :: "UnmappedRowInput \<Rightarrow> nat \<times> string" where
  "unmappedInputKey e = (ui_providerId e, ui_rawGpuLabel e)"

definition entry_ok :: "UnmappedRowInput list \<Rightarrow> (nat \<times> string) \<times> UnmappedRowInput \<times> date \<Rightarrow> bool" where
  "entry_ok es p \<longleftrightarrow> (let (k, e, f) = p in unmappedInputKey e = k \<and>
     (\<exists>x \<in> set es. unmappedInputKey x = k \<and> ui_lastSeenAt x = ui_lastSeenAt e) \<and>
     (\<forall>x \<in> set es. unmappedInputKey x = k \<longrightarrow> f \<le> ui_lastSeenAt x \<and> ui_lastSeenAt x \<le> ui_lastSeenAt e))"

lemma entry_ok_other: "entry_ok es p \<Longrightarrow> fst p \<noteq> unmappedInputKey e \<Longrightarrow> entry_ok (es @ [e]) p"
  by (cases p) (auto simp: entry_ok_def)

definition merge_ok :: "UnmappedRowInput list \<Rightarrow> merged \<Rightarrow> bool" where
  "merge_ok es m \<longleftrightarrow> distinct (map fst m) \<and> fst ` set m = unmappedInputKey ` set es \<and>
     (\<forall>p \<in> set m. entry_ok es p)"

lemma set_update: "distinct (map fst m) \<Longrightarrow>
    set (AList.update k v m) = {(k, v)} \<union> {x \<in> set m. fst x \<noteq> k}"
  by (induction m) (auto simp: image_iff)

lemma mergeEntry_ok:
  assumes "merge_ok es m"
  shows "merge_ok (es @ [e]) (mergeEntry e m)"
proof -
  let ?k = "unmappedInputKey e"
  have d: "distinct (map fst m)" using assms by (simp add: merge_ok_def)
  have upd: "merge_ok (es @ [e]) (js_set ?k (x, f) m)"
    if "entry_ok (es @ [e]) (?k, x, f)" for x f
  proof -
    have s: "set (js_set ?k (x, f) m) = {(?k, x, f)} \<union> {p \<in> set m. fst p \<noteq> ?k}"
      using d by (simp add: js_set_def set_update)
    have keys: "fst ` set (js_set ?k (x, f) m) = insert ?k (fst ` set m)"
      unfolding s by (auto simp: image_iff)
    have "distinct (map fst (js_set ?k (x, f) m))"
      using d by (simp add: js_set_def distinct_update)
    moreover have "fst ` set (js_set ?k (x, f) m) = unmappedInputKey ` set (es @ [e])"
      using assms keys by (auto simp: merge_ok_def)
    moreover have "\<forall>p \<in> set (js_set ?k (x, f) m). entry_ok (es @ [e]) p"
      unfolding s using assms that entry_ok_other by (auto simp: merge_ok_def)
    ultimately show ?thesis by (simp add: merge_ok_def)
  qed
  show ?thesis
  proof (cases "js_get m ?k")
    case None
    then have "?k \<notin> fst ` set m" by (simp add: js_get_def map_of_eq_None_iff)
    then have "\<forall>y \<in> set es. unmappedInputKey y \<noteq> ?k"
      using assms unfolding merge_ok_def by (metis imageI)
    then have "merge_ok (es @ [e]) (js_set ?k (e, ui_lastSeenAt e) m)"
      by (intro upd) (auto simp: entry_ok_def)
    then show ?thesis using None by (simp add: mergeEntry_def unmappedInputKey_def)
  next
    case (Some ef)
    obtain x f where ef: "ef = (x, f)" by (cases ef)
    then have mem: "(?k, x, f) \<in> set m" using Some by (simp add: js_get_def map_of_SomeD)
    have x: "unmappedInputKey x = ?k"
        "\<exists>y \<in> set es. unmappedInputKey y = ?k \<and> ui_lastSeenAt y = ui_lastSeenAt x"
        "\<forall>y \<in> set es. unmappedInputKey y = ?k \<longrightarrow> f \<le> ui_lastSeenAt y \<and> ui_lastSeenAt y \<le> ui_lastSeenAt x"
      using assms mem by (auto simp: merge_ok_def entry_ok_def)
    define x1 where "x1 = (if ui_sample x = None \<and> ui_sample e \<noteq> None then x\<lparr>ui_sample := ui_sample e\<rparr> else x)"
    define x2 where "x2 = (if ui_lastSeenAt x1 < ui_lastSeenAt e then x1\<lparr>ui_lastSeenAt := ui_lastSeenAt e\<rparr> else x1)"
    define f2 where "f2 = (if ui_lastSeenAt e < f then ui_lastSeenAt e else f)"
    have x1: "unmappedInputKey x1 = unmappedInputKey x" "ui_lastSeenAt x1 = ui_lastSeenAt x"
      by (simp_all add: x1_def unmappedInputKey_def)
    have x2: "unmappedInputKey x2 = ?k" "ui_lastSeenAt x2 = max (ui_lastSeenAt x) (ui_lastSeenAt e)"
      using x(1) x1 by (auto simp: x2_def unmappedInputKey_def max_def)
    have "merge_ok (es @ [e]) (js_set ?k (x2, f2) m)"
      using x x2 by (intro upd) (auto simp: entry_ok_def f2_def max_def)
    moreover have "mergeEntry e m = js_set ?k (x2, f2) m"
      using Some ef by (simp add: mergeEntry_def unmappedInputKey_def Let_def x1_def x2_def f2_def)
    ultimately show ?thesis by simp
  qed
qed

lemma mergeEntries_ok: "merge_ok es (mergeEntries es)"
proof (induction es rule: rev_induct)
  case (snoc e es)
  then show ?case using mergeEntry_ok [OF snoc] by (simp add: mergeEntries_def)
qed (simp add: merge_ok_def mergeEntries_def js_empty_def)

definition occurrences :: "nat \<times> string \<Rightarrow> UnmappedRow list \<Rightarrow> int" where
  "occurrences k t = sum_list (map um_occurrences (filter (\<lambda>r. unmappedKey r = Some k) t))"

lemma seenAgain_key: "unmappedKey (seenAgain new old) = unmappedKey old"
  by (simp add: seenAgain_def unmappedKey_def)

lemma distinct_singleton_list: "set xs = {x} \<Longrightarrow> distinct xs \<Longrightarrow> xs = [x]"
  by (cases xs; cases "tl xs") auto

lemma occurrences_upsert:
  assumes "uniqueOn unmappedKey t" "unmappedKey r = Some k'" "um_occurrences r = 1"
  shows "occurrences k (insertOrUpdate unmappedKey seenAgain r t) = occurrences k t + (if k = k' then 1 else 0)"
proof (cases "conflicts unmappedKey r t")
  case False
  then show ?thesis
    using assms(2,3) by (auto simp: insertOrUpdate_def occurrences_def)
next
  case True
  let ?u = "\<lambda>old. if unmappedKey old = unmappedKey r then seenAgain r old else old"
  have key: "unmappedKey (?u old) = unmappedKey old" for old by (simp add: seenAgain_key)
  have fm: "filter (\<lambda>q. unmappedKey q = Some k) (map ?u t) = map ?u (filter (\<lambda>q. unmappedKey q = Some k) t)"
    by (simp add: filter_map comp_def key)
  show ?thesis
  proof (cases "k = k'")
    case False
    have "map ?u (filter (\<lambda>q. unmappedKey q = Some k) t) = filter (\<lambda>q. unmappedKey q = Some k) t"
      using False assms(2) by (intro map_idI) auto
    then show ?thesis using fm True False by (simp add: insertOrUpdate_def occurrences_def)
  next
    case same: True
    obtain x where x: "x \<in> set t" "unmappedKey x = Some k"
      using True assms(2) same by (auto simp: conflicts_def)
    have "set (filter (\<lambda>q. unmappedKey q = Some k) t) = {x}"
    proof -
      have "y = x" if "y \<in> set t" "unmappedKey y = Some k" for y
        by (rule uniqueOn_the_row [OF assms(1) that(1) x(1) that(2) x(2)])
      then have "set (filter (\<lambda>q. unmappedKey q = Some k) t) \<subseteq> {x}" by (simp add: subset_iff)
      moreover have "x \<in> set (filter (\<lambda>q. unmappedKey q = Some k) t)" using x by simp
      ultimately show ?thesis by blast
    qed
    moreover have "distinct (filter (\<lambda>q. unmappedKey q = Some k) t)"
    proof -
      have "distinct (map unmappedKey t)"
        using assms(1) by (simp add: uniqueOn_def unmappedKey_def comp_def filter_map)
      then show ?thesis by (metis distinct_filter distinct_map)
    qed
    ultimately have one: "filter (\<lambda>q. unmappedKey q = Some k) t = [x]"
      by (rule distinct_singleton_list)
    show ?thesis
      using fm True one same x(2) assms(2)
      by (simp add: insertOrUpdate_def occurrences_def seenAgain_def)
  qed
qed

lemma occurrences_foldl:
  assumes "uniqueOn unmappedKey t"
  shows "occurrences k (foldl (\<lambda>t m. insertOrUpdate unmappedKey seenAgain (unmappedRow m) t) t ms) =
    occurrences k t + int (length (filter (\<lambda>m. unmappedInputKey (fst m) = k) ms))"
  using assms
proof (induction ms arbitrary: t)
  case (Cons m ms)
  let ?t = "insertOrUpdate unmappedKey seenAgain (unmappedRow m) t"
  have "uniqueOn unmappedKey ?t"
    using Cons.prems by (intro insertOrUpdate_unique seenAgain_key)
  moreover have "occurrences k ?t = occurrences k t + (if k = unmappedInputKey (fst m) then 1 else 0)"
    by (rule occurrences_upsert [OF Cons.prems])
      (simp_all add: unmappedRow_def unmappedKey_def unmappedInputKey_def)
  ultimately show ?case using Cons.IH [of ?t] by auto
qed simp

lemma length_filter_distinct_key:
  "distinct (map fst m) \<Longrightarrow> (\<forall>p \<in> set m. f (snd p) = fst p) \<Longrightarrow>
   length (filter (\<lambda>x. f x = k) (map snd m)) = (if k \<in> fst ` set m then 1 else 0)"
proof (induction m)
  case (Cons p m)
  have "k \<notin> fst ` set m" if "fst p = k" using Cons.prems that by auto
  then show ?case using Cons by (auto simp: filter_map)
qed simp

text \<open>The worklist counts batches, not rows: a batch advances each unknown label it mentions by exactly
  one, however often it mentions it, and touches no other label; each label keeps a single row.\<close>
theorem worklist_counts_batches:
  assumes "uniqueOn unmappedKey (db_unmapped db)"
  shows "uniqueOn unmappedKey (db_unmapped (upsertUnmappedLabels entries db)) \<and>
    occurrences k (db_unmapped (upsertUnmappedLabels entries db)) = occurrences k (db_unmapped db) +
      (if k \<in> unmappedInputKey ` set entries then 1 else 0)"
proof (cases "entries = []")
  case False
  note ok = mergeEntries_ok [of entries, unfolded merge_ok_def]
  have "length (filter (\<lambda>m. unmappedInputKey (fst m) = k) (map snd (mergeEntries entries))) =
      (if k \<in> fst ` set (mergeEntries entries) then 1 else 0)"
    using ok by (intro length_filter_distinct_key) (auto simp: entry_ok_def)
  then show ?thesis
    using False ok foldl_unmapped_unique [OF assms] occurrences_foldl [OF assms, of k]
    by (simp add: upsertUnmappedLabels_def js_values_def)
qed (simp add: assms upsertUnmappedLabels_def)

subsection \<open>Wallets\<close>

lemma filter_conflict:
  assumes "uniqueOn key t" "x \<in> set t" "key x = Some k"
  shows "headOf (filter (\<lambda>r. key r = Some k) t) = Some x"
proof (cases "filter (\<lambda>r. key r = Some k) t")
  case Nil
  then show ?thesis using assms(2,3) by (auto simp: filter_empty_conv)
next
  case (Cons y ys)
  then have "y \<in> set (filter (\<lambda>r. key r = Some k) t)" by simp
  then have "y \<in> set t" "key y = Some k" by simp_all
  then show ?thesis using uniqueOn_the_row [OF assms(1) _ assms(2) _ assms(3)] Cons by simp
qed

lemma findUserWallet_key:
  "findUserWalletByAddress a db = headOf (filter (\<lambda>r. walletKey r = Some (toLowerCase a)) (db_wallets db))"
  by (simp add: findUserWalletByAddress_def walletKey_def)

text \<open>One wallet is one account: signing in again with an address, in any case of its letters, finds the
  row it had before (same id, same first sight) under the new identity, and every other row stays.\<close>
theorem one_account_per_wallet:
  assumes "upsertUserWallet now input db = (found, db')" "uniqueOn walletKey (db_wallets db)"
  shows "uniqueOn walletKey (db_wallets db') \<and>
    (\<exists>row. found = Some row \<and> findUserWalletByAddress (wi_address input) db' = Some row \<and>
       uw_address row = toLowerCase (wi_address input) \<and> uw_privyUserId row = wi_privyUserId input \<and>
       (case findUserWalletByAddress (wi_address input) db of
          None \<Rightarrow> db_wallets db' = db_wallets db @ [row] \<and> uw_id row = db_nextId db
        | Some old \<Rightarrow> uw_id row = uw_id old \<and> uw_firstSeenAt row = uw_firstSeenAt old \<and>
            db_wallets db' = map (\<lambda>r. if r = old then row else r) (db_wallets db)))"
proof -
  let ?k = "toLowerCase (wi_address input)"
  let ?new = "walletRow (db_nextId db) now input"
  have new: "walletKey ?new = Some ?k" by (simp add: walletKey_def walletRow_def)
  have upd: "walletKey (signInAgain n old) = walletKey old" for n old
    by (simp add: signInAgain_def walletKey_def)
  have db': "db_wallets db' = insertOrUpdate walletKey signInAgain ?new (db_wallets db)"
      "found = findUserWalletByAddress (wi_address input) db'"
    using assms(1) by (auto simp: upsertUserWallet_def freshId_def Let_def)
  have unique: "uniqueOn walletKey (db_wallets db')"
    unfolding db'(1) by (rule insertOrUpdate_unique [OF upd assms(2)])
  show ?thesis
  proof (cases "findUserWalletByAddress (wi_address input) db")
    case None
    then have free: "\<not> conflicts walletKey ?new (db_wallets db)"
      using new by (auto simp: findUserWallet_key conflicts_def filter_empty_conv)
    then have rows: "db_wallets db' = db_wallets db @ [?new]"
      using db'(1) by (simp add: insertOrUpdate_def)
    have "findUserWalletByAddress (wi_address input) db' = Some ?new"
      unfolding findUserWallet_key by (rule filter_conflict [OF unique _ new]) (simp add: rows)
    then show ?thesis using unique db'(2) rows None by (simp add: walletRow_def)
  next
    case (Some old)
    have old: "old \<in> set (db_wallets db)" "walletKey old = Some ?k"
      using Some headOf_Some [of _ old] by (auto simp: findUserWallet_key dest: headOf_Some)
    then have taken: "conflicts walletKey ?new (db_wallets db)"
      using new by (auto simp: conflicts_def image_iff intro: bexI [of _ old])
    let ?row = "signInAgain ?new old"
    have "(walletKey r = walletKey ?new) = (r = old)" if "r \<in> set (db_wallets db)" for r
      using uniqueOn_the_row [OF assms(2) that old(1) _ old(2)] new old(2) by auto
    then have rows: "db_wallets db' = map (\<lambda>r. if r = old then ?row else r) (db_wallets db)"
      unfolding db'(1) insertOrUpdate_def using taken by (auto intro: map_cong)
    have "findUserWalletByAddress (wi_address input) db' = Some ?row"
      unfolding findUserWallet_key
      by (rule filter_conflict [OF unique]) (use rows old upd in auto)
    then show ?thesis
      using unique db'(2) rows Some old(2) by (simp add: signInAgain_def walletRow_def walletKey_def)
  qed
qed

subsection \<open>Candidates\<close>

text \<open>Inserting a candidate always returns an id: the error of a conflict without a row is
  unreachable. A stale candidate always goes in; another one goes in unless a candidate of the same
  GPU and calculation hash is there that is not stale, and then an existing id of that pair is
  returned and no row changes.\<close>
theorem candidate_insert_total:
  shows "\<exists>i inserted. fst (insertIndexCandidate input db) = Value (i, inserted) \<and>
    (if inserted
     then db_candidates (snd (insertIndexCandidate input db)) =
            db_candidates db @ [IndexCandidateRowInput.extend input \<lparr>cd_id = db_nextId db\<rparr>] \<and> i = db_nextId db
     else cd_status input \<noteq> stale \<and>
       (\<exists>r \<in> set (db_candidates db). cd_id r = i \<and> cd_gpuId r = cd_gpuId input \<and> cd_calcHash r = cd_calcHash input) \<and>
       db_candidates (snd (insertIndexCandidate input db)) = db_candidates db)"
proof -
  let ?row = "IndexCandidateRowInput.extend input \<lparr>cd_id = db_nextId db\<rparr>"
  have fields: "cd_gpuId ?row = cd_gpuId input" "cd_calcHash ?row = cd_calcHash input" "cd_status ?row = cd_status input"
    by (simp_all add: IndexCandidateRowInput.defs)
  show ?thesis
  proof (cases "conflicts candidateKey ?row (db_candidates db)")
    case False
    then have "fst (insertIndexCandidate input db) = Value (db_nextId db, True)"
        "db_candidates (snd (insertIndexCandidate input db)) = db_candidates db @ [?row]"
      by (simp_all add: insertIndexCandidate_def freshId_def insertIgnore_def Let_def)
    then show ?thesis by (intro exI [of _ "db_nextId db"] exI [of _ True]) simp
  next
    case True
    then obtain q where q: "q \<in> set (db_candidates db)" "candidateKey q = candidateKey ?row" "candidateKey ?row \<noteq> None"
      by (auto simp: conflicts_def)
    then have same: "cd_gpuId q = cd_gpuId input" "cd_calcHash q = cd_calcHash input" "cd_status input \<noteq> stale"
      using fields by (auto simp: candidateKey_def split: if_splits)
    obtain f where f: "headOf (filter (\<lambda>r. cd_gpuId r = cd_gpuId input \<and> cd_calcHash r = cd_calcHash input)
        (db_candidates db)) = Some f"
      using q(1) same(1,2)
      by (cases "filter (\<lambda>r. cd_gpuId r = cd_gpuId input \<and> cd_calcHash r = cd_calcHash input) (db_candidates db)")
        (auto simp: filter_empty_conv)
    have "f \<in> set (db_candidates db)" "cd_gpuId f = cd_gpuId input" "cd_calcHash f = cd_calcHash input"
      using headOf_Some [OF f] by auto
    then show ?thesis
      using True f same(3)
      by (auto simp: insertIndexCandidate_def freshId_def insertIgnore_def Let_def)
  qed
qed

text \<open>A withheld figure can be the base of the next computation: when the newest candidate of a GPU is
  withheld and carries a price, it is what the priced lookup returns, although the lookup's comment
  says that a withheld row has no price.\<close>
theorem withheld_price_is_carried_forward:
  assumes "cd_status input = withheld" "cd_price input = Some p"
    and "\<forall>r \<in> set (db_candidates db). cd_computedAt r < cd_computedAt input \<and> cd_calcHash r \<noteq> cd_calcHash input"
  shows "\<exists>row. getLatestPricedCandidate (cd_gpuId input) (snd (insertIndexCandidate input db)) = Some row \<and>
    cd_status row = withheld \<and> cd_price row = Some p \<and> cd_computedAt row = cd_computedAt input"
proof -
  let ?row = "IndexCandidateRowInput.extend input \<lparr>cd_id = db_nextId db\<rparr>"
  let ?db = "snd (insertIndexCandidate input db)"
  have fields: "cd_gpuId ?row = cd_gpuId input" "cd_calcHash ?row = cd_calcHash input" "cd_status ?row = withheld"
      "cd_price ?row = Some p" "cd_computedAt ?row = cd_computedAt input"
    using assms by (simp_all add: IndexCandidateRowInput.defs)
  have "\<not> conflicts candidateKey ?row (db_candidates db)"
    using assms(3) fields by (auto simp: conflicts_def candidateKey_def split: if_splits)
  then have rows: "db_candidates ?db = db_candidates db @ [?row]"
    by (simp add: insertIndexCandidate_def freshId_def insertIgnore_def Let_def)
  let ?priced = "filter (\<lambda>r. cd_price r \<noteq> None) (candidatesOf (cd_gpuId input) ?db)"
  have mem: "?row \<in> set ?priced" using rows fields by (simp add: candidatesOf_def)
  then have "latestBy cd_computedAt ?priced \<noteq> None"
    unfolding latestBy_None by (metis empty_iff empty_set)
  then obtain r where r: "latestBy cd_computedAt ?priced = Some r" by blast
  have "cd_computedAt ?row \<le> cd_computedAt r" "r \<in> set (db_candidates ?db)"
    using latestBy_Some [OF r] mem by (auto simp: candidatesOf_def)
  then have "r = ?row" using rows assms(3) fields by auto
  then show ?thesis using r fields by (simp add: getLatestPricedCandidate_def)
qed

subsection \<open>The whole database\<close>

text \<open>Every write of the services, with whatever arguments they pass.\<close>

inductive db_step :: "Db \<Rightarrow> Db \<Rightarrow> bool" where
  st_seed: "db_step db (seedProviders now seeds db)"
| st_methodology: "db_step db (ensureMethodologyVersion now now' mi db)"
| st_run: "db_step db (snd (insertCollectionRun run db))"
| st_failures: "db_step db (insertSourceFailures fs db)"
| st_counts: "db_step db (updateCollectionRunCounts i counts db)"
| st_raw: "db_step db (snd (insertRawObservations sha256 raws db))"
| st_normalized: "db_step db (insertNormalizedObservations ns db)"
| st_unmapped: "db_step db (upsertUnmappedLabels us db)"
| st_prices: "db_step db (insertProviderPrices ps db)"
| st_candidate: "db_step db (snd (insertIndexCandidate c db))"
| st_publication: "db_step db (fst (recordPublication pb db))"
| st_violations: "db_step db (fst (recordPublishViolations v db))"
| st_report: "db_step db (fst (insertOracleReport r db))"
| st_fx: "db_step db (insertFxRates fx db)"
| st_wallet: "db_step db (snd (upsertUserWallet now w db))"

definition providerKey :: "ProviderRow \<Rightarrow> string option" where
  "providerKey r = Some (pv_slug r)"

definition db_ok :: "Db \<Rightarrow> bool" where
  "db_ok db \<longleftrightarrow> methodologies_ok db \<and> uniqueOn providerKey (db_providers db) \<and> uniqueOn rawKey (db_raw db) \<and>
     uniqueOn normalizedKey (db_normalized db) \<and> uniqueOn unmappedKey (db_unmapped db) \<and>
     uniqueOn candidateKey (db_candidates db) \<and> distinct (map cd_id (db_candidates db)) \<and>
     (\<forall>r \<in> set (db_candidates db). cd_id r < db_nextId db) \<and> uniqueOn publicationKey (db_published db) \<and>
     uniqueOn violationKey (db_violations db) \<and> uniqueOn reportKey (db_reports db) \<and>
     uniqueOn fxKey (db_fxRates db) \<and> uniqueOn walletKey (db_wallets db)"

lemma methodologies_ok_cong: "db_methodologies db' = db_methodologies db \<Longrightarrow> methodologies_ok db' = methodologies_ok db"
  by (simp add: methodologies_ok_def openRows_def)

lemma seedProvider_keys:
  "uniqueOn providerKey (db_providers db) \<Longrightarrow> uniqueOn providerKey (db_providers (seedProvider now sd db))"
  unfolding seedProvider_def freshId_def Let_def providerKey_def [abs_def]
  by (simp add: insertOrUpdate_unique)

lemma seedProvider_ok: "db_ok db \<Longrightarrow> db_ok (seedProvider now sd db)"
  using seedProvider_keys [of db now sd]
  by (auto simp: db_ok_def methodologies_ok_def openRows_def seedProvider_def freshId_def Let_def)

lemma seedProviders_ok: "db_ok db \<Longrightarrow> db_ok (seedProviders now seeds db)"
  unfolding seedProviders_def by (induction seeds arbitrary: db) (simp_all add: seedProvider_ok)

lemma ensureMethodologyVersion_ok: "db_ok db \<Longrightarrow> db_ok (ensureMethodologyVersion now now' mi db)"
  using ensure_ok [of db now now' mi] by (simp add: db_ok_def) (simp add: ensureMethodologyVersion_def)

lemma insertAllIgnore_unique: "uniqueOn key t \<Longrightarrow> uniqueOn key (fst (insertAllIgnore key rs t))"
  using insertAllIgnore_spec [of key rs t] by (metis prod.collapse)

lemma insertIndexCandidate_eq:
  "snd (insertIndexCandidate c db) = db\<lparr>db_nextId := Suc (db_nextId db), db_candidates :=
     fst (insertIgnore candidateKey (IndexCandidateRowInput.extend c \<lparr>cd_id = db_nextId db\<rparr>) (db_candidates db))\<rparr>"
  by (simp add: insertIndexCandidate_def freshId_def insertIgnore_def Let_def split: option.split)

lemma insertIndexCandidate_ok:
  assumes "db_ok db"
  shows "db_ok (snd (insertIndexCandidate c db))"
proof -
  let ?row = "IndexCandidateRowInput.extend c \<lparr>cd_id = db_nextId db\<rparr>"
  have "cd_id ?row = db_nextId db" by (simp add: IndexCandidateRowInput.defs)
  moreover have "distinct (map cd_id (db_candidates db))" "\<forall>r \<in> set (db_candidates db). cd_id r < db_nextId db"
    using assms by (simp_all add: db_ok_def)
  ultimately have "distinct (map cd_id (fst (insertIgnore candidateKey ?row (db_candidates db))))"
      "\<forall>r \<in> set (fst (insertIgnore candidateKey ?row (db_candidates db))). cd_id r < Suc (db_nextId db)"
    by (auto simp: insertIgnore_def less_Suc_eq)
  then show ?thesis
    using assms plain.put_unique [of candidateKey "db_candidates db" ?row]
    unfolding insertIndexCandidate_eq by (simp add: db_ok_def methodologies_ok_def openRows_def)
qed

lemma insertRaw_ok: "db_ok db \<Longrightarrow> db_ok (snd (insertRawObservations sha256 raws db))"
  using insertAllIgnore_unique [of rawKey "db_raw db"]
  by (auto simp: db_ok_def methodologies_ok_def openRows_def insertRawObservations_def Let_def split_def
      intro: less_le_trans trans_less_add1)

lemma insertNormalized_ok: "db_ok db \<Longrightarrow> db_ok (insertNormalizedObservations ns db)"
  using insertAllIgnore_unique [of normalizedKey "db_normalized db"]
  by (auto simp: db_ok_def methodologies_ok_def openRows_def insertNormalizedObservations_def)

lemma insertFx_ok: "db_ok db \<Longrightarrow> db_ok (insertFxRates fx db)"
  using insertAllIgnore_unique [of fxKey "db_fxRates db"]
  by (auto simp: db_ok_def methodologies_ok_def openRows_def insertFxRates_def)

lemma upsertUnmapped_ok: "db_ok db \<Longrightarrow> db_ok (upsertUnmappedLabels us db)"
  using foldl_unmapped_unique [of "db_unmapped db"]
  by (auto simp: db_ok_def methodologies_ok_def openRows_def upsertUnmappedLabels_def)

lemma upsertWallet_ok: "db_ok db \<Longrightarrow> db_ok (snd (upsertUserWallet now w db))"
  using insertOrUpdate_unique [of walletKey _ signInAgain "db_wallets db"]
  by (auto simp: db_ok_def methodologies_ok_def openRows_def upsertUserWallet_def freshId_def Let_def
      signInAgain_def walletKey_def)

lemma insertReport_ok: "db_ok db \<Longrightarrow> db_ok (fst (insertOracleReport r db))"
  using rep.put_unique [of db r]
  by (auto simp: db_ok_def methodologies_ok_def openRows_def insertOracleReport_def split_def Let_def)

lemma recordViolations_ok: "db_ok db \<Longrightarrow> db_ok (fst (recordPublishViolations v db))"
  using vio.put_unique [of db v]
  by (auto simp: db_ok_def methodologies_ok_def openRows_def recordPublishViolations_def split_def Let_def)

lemma recordPublication_ok: "db_ok db \<Longrightarrow> db_ok (fst (recordPublication pb db))"
  using pub.put_unique [of db pb]
  by (auto simp: db_ok_def methodologies_ok_def openRows_def recordPublication_def split_def Let_def)

lemma plain_writes_ok:
  "db_ok db \<Longrightarrow> db_ok (snd (insertCollectionRun run db))"
  "db_ok db \<Longrightarrow> db_ok (insertSourceFailures fs db)"
  "db_ok db \<Longrightarrow> db_ok (updateCollectionRunCounts i counts db)"
  "db_ok db \<Longrightarrow> db_ok (insertProviderPrices ps db)"
  by (auto simp: db_ok_def methodologies_ok_def openRows_def insertCollectionRun_def freshId_def
      insertSourceFailures_def updateCollectionRunCounts_def insertProviderPrices_def)

lemmas write_ok = seedProviders_ok ensureMethodologyVersion_ok insertIndexCandidate_ok insertRaw_ok
  insertNormalized_ok insertFx_ok upsertUnmapped_ok upsertWallet_ok insertReport_ok recordViolations_ok
  recordPublication_ok plain_writes_ok

lemma db_step_ok: "db_step db db' \<Longrightarrow> db_ok db \<Longrightarrow> db_ok db'"
  by (induction rule: db_step.induct) (simp_all only: write_ok)

lemma db_ok_empty: "db_ok db_empty"
  by (simp add: db_ok_def db_empty_def methodologies_ok_def openRows_def uniqueOn_def)

lemma db_reach_ok: "db_step\<^sup>*\<^sup>* db_empty db \<Longrightarrow> db_ok db"
  by (induction rule: rtranclp_induct) (auto intro: db_ok_empty db_step_ok)

text \<open>Whatever the services write and in whatever order, at most one methodology is open, and a GPU has
  one report per epoch, a candidate one violation record per target, a fingerprint one observation, a
  currency one rate per day and an address one wallet.\<close>
theorem database_invariant:
  assumes "db_step\<^sup>*\<^sup>* db_empty db"
  shows "length (filter (\<lambda>r. mr_effectiveTo r = None) (db_methodologies db)) \<le> 1 \<and>
    distinct (map (\<lambda>r. (or_gpuId r, or_epoch r)) (db_reports db)) \<and>
    distinct (map (\<lambda>r. (vr_candidateId r, vr_target r)) (db_violations db)) \<and>
    distinct (map raw_fingerprint (db_raw db)) \<and>
    distinct (map (\<lambda>r. (fx_currency r, fx_rateDate r)) (db_fxRates db)) \<and>
    distinct (map uw_address (db_wallets db)) \<and> distinct (map cd_id (db_candidates db))"
proof -
  have total: "distinct (map f rows)" if "uniqueOn (\<lambda>r. Some (f r)) rows" for f :: "'r \<Rightarrow> 'k" and rows
  proof -
    have "distinct (map (\<lambda>r. Some (f r)) rows)"
      using that by (simp add: uniqueOn_def filter_map comp_def)
    then show ?thesis by (simp add: distinct_map inj_on_def)
  qed
  have keys: "reportKey = (\<lambda>r. Some (or_gpuId r, or_epoch r))" "violationKey = (\<lambda>r. Some (vr_candidateId r, vr_target r))"
      "rawKey = (\<lambda>r. Some (raw_fingerprint r))" "fxKey = (\<lambda>r. Some (fx_currency r, fx_rateDate r))"
      "walletKey = (\<lambda>r. Some (uw_address r))"
    by (rule ext, simp add: reportKey_def violationKey_def rawKey_def fxKey_def walletKey_def)+
  have "db_ok db" using assms by (rule db_reach_ok)
  then show ?thesis
    unfolding db_ok_def methodologies_ok_def openRows_def keys by - (elim conjE, intro conjI; (assumption | (rule total, assumption)))
qed

subsection \<open>Concrete rows\<close>

definition sampleReportRow :: OracleReportRow where
  "sampleReportRow = \<lparr>or_version = 1, or_gpuId = ''H100'', or_candidateId = Some 0, or_price = 25000,
     or_observedAt = 1000, or_epoch = 18, or_validFrom = 1080, or_validUntil = 1140, or_calcHash = ''0x'',
     or_signature = ''0x'', or_reportHash = ''0x'', or_attestedAt = 1100000\<rparr>"

definition sampleVersion :: MethodologyVersionInput where
  "sampleVersion = \<lparr>mi_version = ''v1'', mi_config = JObj [], mi_configHash = ''h'', mi_changelog = None\<rparr>"

definition sampleRaw :: RawRowInput where
  "sampleRaw = \<lparr>ri_providerSlug = ''p'', ri_sourceType = principal, ri_rawGpuLabel = ''H100'', ri_rawPrice = Some 2,
     ri_rawCurrency = ''USD'', ri_rawUnit = ''hour'', ri_gpuCount = Some 8, ri_region = None, ri_pricingTier = None,
     ri_observedAt = 0, ri_sourceUrl = None, ri_sourceId = None, ri_rawPayload = JNull, ri_providerId = 1,
     ri_collectionRunId = None\<rparr>"

definition sampleLabel :: "date \<Rightarrow> UnmappedRowInput" where
  "sampleLabel t = \<lparr>ui_providerId = 1, ui_rawGpuLabel = ''H100x'', ui_sample = None, ui_lastSeenAt = t\<rparr>"

definition sampleWallet :: UserWalletUpsert where
  "sampleWallet = \<lparr>wi_privyUserId = ''did:privy:1'', wi_address = ''0xAB'', wi_walletKind = embedded, wi_label = None\<rparr>"

definition sampleCandidate :: "IndexStatus \<Rightarrow> number \<Rightarrow> date \<Rightarrow> IndexCandidateRowInput" where
  "sampleCandidate st price t = \<lparr>cd_gpuId = ''H100'', cd_panelId = ''panel'', cd_price = Some price,
     cd_confidenceLow = Some price, cd_confidenceHigh = Some price, cd_dispersion = 0, cd_status = st,
     cd_providersObserved = 3, cd_providersContributing = 3, cd_methodologyVersion = ''v1'', cd_gates = JArr [],
     cd_contributors = [''a'', ''b'', ''c''], cd_exclusions = JArr [], cd_calcParams = JObj [],
     cd_calcHash = replicate 64 (CHR ''a''), cd_windowStart = 0, cd_windowEnd = t, cd_computedAt = t,
     cd_priorCandidateId = None\<rparr>"

theorem database_invariant_witness:
  "distinct (map (\<lambda>r. (or_gpuId r, or_epoch r)) (db_reports (fst (insertOracleReport sampleReportRow db_empty))))"
proof -
  have "db_step\<^sup>*\<^sup>* db_empty (fst (insertOracleReport sampleReportRow db_empty))"
    using st_report by (rule r_into_rtranclp)
  from database_invariant [OF this] show ?thesis by blast
qed

theorem current_methodology_witness:
  "\<exists>row. getCurrentMethodology (ensureMethodologyVersion 5 5 sampleVersion db_empty) = Some row \<and> mr_version row = ''v1''"
proof -
  have "methodologies_ok db_empty" using db_ok_empty by (simp add: db_ok_def)
  from current_methodology [OF this, of 5 5 sampleVersion]
  show ?thesis by (auto simp: db_empty_def sampleVersion_def)
qed

theorem candles_partition_the_series_witness:
  "sum_list (map ca_samples (getCandidateCandles ''H100'' 60 0 100000 (snd (insertIndexCandidate (sampleCandidate healthy 2 70000) db_empty)))) = 1"
proof -
  have "length (windowed ''H100'' 0 100000 (snd (insertIndexCandidate (sampleCandidate healthy 2 70000) db_empty))) = 1"
    by code_simp
  then show ?thesis
    using candles_partition_the_series [of 60 "''H100''" 0 100000 "snd (insertIndexCandidate (sampleCandidate healthy 2 70000) db_empty)"]
    by simp
qed

theorem ingest_is_idempotent_witness:
  "fst (insertRawObservations (\<lambda>s. s) [sampleRaw, sampleRaw] (snd (insertRawObservations (\<lambda>s. s) [sampleRaw, sampleRaw] db_empty))) = []"
  using ingest_is_idempotent [OF prod.collapse [symmetric] refl, of "\<lambda>s. s" "[sampleRaw, sampleRaw]" db_empty] by blast

theorem worklist_counts_batches_witness:
  "occurrences (1, ''H100x'') (db_unmapped (upsertUnmappedLabels [sampleLabel 1, sampleLabel 3, sampleLabel 2] db_empty)) = 1"
proof -
  have "uniqueOn unmappedKey (db_unmapped db_empty)" using db_ok_empty by (simp add: db_ok_def)
  from worklist_counts_batches [OF this, of "[sampleLabel 1, sampleLabel 3, sampleLabel 2]" "(1, ''H100x'')"]
  show ?thesis by (simp add: unmappedInputKey_def sampleLabel_def db_empty_def occurrences_def)
qed

theorem one_account_per_wallet_witness:
  "\<exists>row db'. upsertUserWallet 9 sampleWallet db_empty = (Some row, db') \<and> uw_address row = toLowerCase ''0xAB''"
proof -
  have "uniqueOn walletKey (db_wallets db_empty)" using db_ok_empty by (simp add: db_ok_def)
  from one_account_per_wallet [OF _ this, of 9 sampleWallet] show ?thesis
    by (cases "upsertUserWallet 9 sampleWallet db_empty") (auto simp: sampleWallet_def)
qed

theorem candidate_insert_total_witness:
  "\<exists>i ins. fst (insertIndexCandidate (sampleCandidate healthy 2 70000) db_empty) = Value (i, ins)"
  using candidate_insert_total [of "sampleCandidate healthy 2 70000" db_empty] by blast

theorem withheld_price_is_carried_forward_witness:
  "\<exists>row. getLatestPricedCandidate ''H100'' (snd (insertIndexCandidate (sampleCandidate withheld 2 70000) db_empty)) = Some row \<and>
     cd_status row = withheld"
  using withheld_price_is_carried_forward [of "sampleCandidate withheld 2 70000" 2 db_empty]
  by (auto simp: sampleCandidate_def db_empty_def)

end
