(* ===== verification/Attestor.thy ===== *)
theory Attestor
  imports Assess RepoFacts
begin

text \<open>
  apps/attestor/src: store.ts (the persistence the poller needs, as a record of functions, and its
  implementation on the repositories) and poller.ts (one evaluation pass and the loop around it).
  Signing, hashing and the health endpoint are arguments; a call that throws is \<open>Thrown\<close>, and a
  store call may throw at any time.
\<close>

subsection \<open>The store\<close>

record 's AttestorStore =
  latestCandidates :: "'s \<Rightarrow> CandidateLike list result"
  methodologyConfig :: "string \<Rightarrow> 's \<Rightarrow> MethodologyConfig option result"
  reportForEpoch :: "string \<Rightarrow> number \<Rightarrow> 's \<Rightarrow> bool result"
  latestReport :: "string \<Rightarrow> 's \<Rightarrow> (number \<times> number \<times> date) option result"
  recordReport :: "OracleReportRow \<Rightarrow> 's \<Rightarrow> bool result \<times> 's"
  recordViolations :: "ViolationRow \<Rightarrow> 's \<Rightarrow> bool result \<times> 's"

definition candidateFromRow :: "CandidateRow \<Rightarrow> CandidateLike" where
  "candidateFromRow row = \<lparr>cl_id = cd_id row, cl_gpuId = cd_gpuId row, cl_panelId = cd_panelId row,
     cl_price = cd_price row, cl_confidenceLow = cd_confidenceLow row, cl_confidenceHigh = cd_confidenceHigh row,
     cl_status = cd_status row, cl_providersContributing = cd_providersContributing row,
     cl_dispersion = cd_dispersion row, cl_methodologyVersion = cd_methodologyVersion row,
     cl_calcHash = cd_calcHash row, cl_computedAt = cd_computedAt row, cl_contributors = cd_contributors row\<rparr>"

definition latestCandidatesIn :: "string list \<Rightarrow> Db \<Rightarrow> CandidateLike list" where
  "latestCandidatesIn gpuIds db =
     List.map_filter (\<lambda>g. map_option candidateFromRow (headOf (getCandidateHistory g 1 db))) gpuIds"

text \<open>\<open>up op\<close> says whether the database answers the operation.\<close>

datatype store_op = OpCandidates | OpMethodology | OpForEpoch | OpLatestReport | OpRecordReport | OpRecordViolations

definition drizzleStore :: "(store_op \<Rightarrow> bool) \<Rightarrow> string list \<Rightarrow> Db AttestorStore" where
  "drizzleStore up gpuIds =
     \<lparr>latestCandidates = (\<lambda>db. if up OpCandidates then Value (latestCandidatesIn gpuIds db) else Thrown),
      methodologyConfig = (\<lambda>v db. if up OpMethodology
        then Value (map_option (readConfig \<circ> mr_config) (getMethodologyVersion v db)) else Thrown),
      reportForEpoch = (\<lambda>g e db. if up OpForEpoch then Value (getOracleReport g e db \<noteq> None) else Thrown),
      latestReport = (\<lambda>g db. if up OpLatestReport
        then Value (map_option (\<lambda>r. (or_price r, or_epoch r, or_attestedAt r)) (getLatestOracleReport g db)) else Thrown),
      recordReport = (\<lambda>r db. if up OpRecordReport
        then (let (db', b) = insertOracleReport r db in (Value b, db')) else (Thrown, db)),
      recordViolations = (\<lambda>v db. if up OpRecordViolations
        then (let (db', b) = recordPublishViolations v db in (Value b, db')) else (Thrown, db))\<rparr>"

subsection \<open>One candidate\<close>

record TickResult =
  tr_attested :: nat
  tr_flagged :: nat
  tr_skipped :: nat

definition noResult :: TickResult where
  "noResult = \<lparr>tr_attested = 0, tr_flagged = 0, tr_skipped = 0\<rparr>"

record PollerOpts =
  po_config :: AttestorConfig
  po_epochLength :: number
  po_maxObservationAge :: number
  po_fetchBreakers :: "BreakerMap result option"
  po_sign :: "ReportV1 \<Rightarrow> string option"
  po_reportHash :: "ReportV1 \<Rightarrow> string \<Rightarrow> string"

definition is_hex_digest :: "string \<Rightarrow> bool" where
  "is_hex_digest s \<longleftrightarrow> length s = 64 \<and> (\<forall>c \<in> set s. hex_val c \<noteq> None)"

definition calcHashBytes32 :: "string \<Rightarrow> report_error + string" where
  "calcHashBytes32 calcHash =
     (if take 2 calcHash = ''0x'' \<and> is_hex_digest (drop 2 calcHash) then Inr calcHash
      else if is_hex_digest calcHash then Inr (''0x'' @ calcHash)
      else Inl BadCalcHash)"

definition TARGET :: string where "TARGET = ''attestor''"

definition secondsOf :: "date \<Rightarrow> number" where
  "secondsOf now = of_int \<lfloor>fdiv (of_int now) 1000\<rfloor>"

definition violationRow :: "PollerOpts \<Rightarrow> date \<Rightarrow> CandidateLike \<Rightarrow> PublishViolation list \<Rightarrow> ViolationRow" where
  "violationRow opts now candidate vs = \<lparr>vr_candidateId = cl_id candidate, vr_gpuId = cl_gpuId candidate,
     vr_target = TARGET, vr_violations = vs,
     vr_publisherVersion = at_pinnedMethodologyVersion (po_config opts), vr_recordedAt = now\<rparr>"

definition beyondFloor :: "number \<Rightarrow> number \<Rightarrow> PublishViolation" where
  "beyondFloor ageSec maxAge = \<lparr>vi_code = ''observation_beyond_floor'', vi_detail = V_age ageSec maxAge\<rparr>"

definition reportParams :: "PollerOpts \<Rightarrow> number \<Rightarrow> number \<Rightarrow> AttestableIndexValue \<Rightarrow> string \<Rightarrow> ReportParams" where
  "reportParams opts nowSec observedAtSec v h = \<lparr>pa_gpuId = va_gpuId v, pa_price = va_price v,
     pa_observedAtSec = observedAtSec, pa_nowSec = nowSec, pa_epochLength = Some (po_epochLength opts),
     pa_maxObservationAge = Some (po_maxObservationAge opts), pa_calcHash = h\<rparr>"

definition reportRow :: "PollerOpts \<Rightarrow> date \<Rightarrow> AttestableIndexValue \<Rightarrow> ReportV1 \<Rightarrow> string \<Rightarrow> OracleReportRow" where
  "reportRow opts now v rp signature = \<lparr>or_version = 1, or_gpuId = va_gpuId v,
     or_candidateId = Some (va_candidateId v), or_price = fl (of_int (rp_price rp)), or_observedAt = rp_observedAt rp,
     or_epoch = rp_epoch rp, or_validFrom = rp_validFrom rp, or_validUntil = rp_validUntil rp,
     or_calcHash = rp_calcHash rp, or_signature = signature, or_reportHash = po_reportHash opts rp signature,
     or_attestedAt = now\<rparr>"

text \<open>The signed report of a value, or \<open>None\<close> where the hash, the report or the signature throws.\<close>

definition signedRow :: "PollerOpts \<Rightarrow> date \<Rightarrow> number \<Rightarrow> number \<Rightarrow> AttestableIndexValue \<Rightarrow> OracleReportRow option" where
  "signedRow opts now nowSec observedAtSec v =
     (case calcHashBytes32 (va_calcHash v) of Inl e \<Rightarrow> None
      | Inr h \<Rightarrow> (case buildReport (reportParams opts nowSec observedAtSec v h) of Inl e \<Rightarrow> None
          | Inr rp \<Rightarrow> map_option (reportRow opts now v rp) (po_sign opts rp)))"

definition skipped :: "TickResult \<Rightarrow> TickResult" where
  "skipped c = c\<lparr>tr_skipped := Suc (tr_skipped c)\<rparr>"

text \<open>A refusal: the violations are recorded and the candidate skipped, unless the store throws.\<close>

definition refuse ::
  "'s AttestorStore \<Rightarrow> PollerOpts \<Rightarrow> date \<Rightarrow> CandidateLike \<Rightarrow> PublishViolation list \<Rightarrow> TickResult \<times> 's \<Rightarrow> TickResult \<times> 's" where
  "refuse store opts now candidate vs cs =
     (case recordViolations store (violationRow opts now candidate vs) (snd cs) of
        (Thrown, s') \<Rightarrow> (fst cs, s') | (Value inserted, s') \<Rightarrow> (skipped (fst cs), s'))"

definition attest ::
  "'s AttestorStore \<Rightarrow> OracleReportRow \<Rightarrow> TickResult \<times> 's \<Rightarrow> TickResult \<times> 's" where
  "attest store row cs =
     (case recordReport store row (snd cs) of
        (Thrown, s') \<Rightarrow> (fst cs, s')
      | (Value inserted, s') \<Rightarrow>
          (if inserted then (fst cs)\<lparr>tr_attested := Suc (tr_attested (fst cs))\<rparr> else fst cs, s'))"

definition annotateAndAttest ::
  "'s AttestorStore \<Rightarrow> PollerOpts \<Rightarrow> date \<Rightarrow> CandidateLike \<Rightarrow> PublishViolation list \<Rightarrow> OracleReportRow \<Rightarrow>
   TickResult \<times> 's \<Rightarrow> TickResult \<times> 's" where
  "annotateAndAttest store opts now candidate vs row cs =
     (if vs = [] then attest store row cs
      else case recordViolations store (violationRow opts now candidate vs) (snd cs) of
        (Thrown, s') \<Rightarrow> (fst cs, s')
      | (Value inserted, s') \<Rightarrow>
          attest store row
            (if inserted then (fst cs)\<lparr>tr_flagged := Suc (tr_flagged (fst cs))\<rparr> else fst cs, s'))"

text \<open>The body of the loop; whatever throws in it is caught and the next candidate follows.\<close>

definition handleCandidate ::
  "'s AttestorStore \<Rightarrow> PollerOpts \<Rightarrow> MethodologyConfig \<Rightarrow> BreakerMap option \<Rightarrow> date \<Rightarrow> CandidateLike \<Rightarrow>
   TickResult \<times> 's \<Rightarrow> TickResult \<times> 's" where
  "handleCandidate store opts methodology breakers now candidate cs =
     (let nowSec = secondsOf now in
      case epochOf nowSec (po_epochLength opts) of Inl e \<Rightarrow> cs
      | Inr epoch \<Rightarrow>
        (case reportForEpoch store (cl_gpuId candidate) epoch (snd cs) of Thrown \<Rightarrow> cs
         | Value True \<Rightarrow> (skipped (fst cs), snd cs)
         | Value False \<Rightarrow>
           (case latestReport store (cl_gpuId candidate) (snd cs) of Thrown \<Rightarrow> cs
            | Value previous \<Rightarrow>
              (let a = assessCandidate candidate
                     (resolvePanelThresholds (po_config opts) methodology (cl_panelId candidate)) now
                     (map_option fst previous) breakers in
               case as_value a of None \<Rightarrow> refuse store opts now candidate (as_violations a) cs
               | Some v \<Rightarrow>
                 (let observedAtSec = observationSeconds (of_int (va_computedAt v)) (of_int now);
                      ageSec = fsub nowSec observedAtSec in
                  if po_maxObservationAge opts < ageSec
                  then refuse store opts now candidate
                         (as_violations a @ [beyondFloor ageSec (po_maxObservationAge opts)]) cs
                  else case signedRow opts now nowSec observedAtSec v of None \<Rightarrow> cs
                    | Some row \<Rightarrow> annotateAndAttest store opts now candidate (as_violations a) row cs)))))"

subsection \<open>One pass\<close>

definition tickInner :: "'s AttestorStore \<Rightarrow> PollerOpts \<Rightarrow> date \<Rightarrow> 's \<Rightarrow> TickResult \<times> 's" where
  "tickInner store opts now s =
     (if po_fetchBreakers opts = Some Thrown then (noResult, s) else
      let breakers = (case po_fetchBreakers opts of Some (Value b) \<Rightarrow> Some b | _ \<Rightarrow> None) in
      case latestCandidates store s of Thrown \<Rightarrow> (noResult, s)
      | Value candidates \<Rightarrow>
        (case methodologyConfig store (at_pinnedMethodologyVersion (po_config opts)) s of
           Thrown \<Rightarrow> (noResult, s) | Value None \<Rightarrow> (noResult, s)
         | Value (Some methodology) \<Rightarrow>
             foldl (\<lambda>cs c. handleCandidate store opts methodology breakers now c cs) (noResult, s) candidates))"

subsection \<open>The loop around it\<close>

record Poller =
  pl_inFlight :: bool
  pl_busyStreak :: nat

datatype tick_outcome = Finished TickResult | Rejected | TimedOut

text \<open>A tick finds a pass in flight (the flag: it warns) or starts one.\<close>

definition tickBusy :: "Poller \<Rightarrow> Poller \<times> TickResult \<times> bool" where
  "tickBusy p = (let n = Suc (pl_busyStreak p) in
     (p\<lparr>pl_busyStreak := n\<rparr>, noResult, n = 1 \<or> n mod 12 = 0))"

definition tickStart :: "Poller \<Rightarrow> Poller" where
  "tickStart p = p\<lparr>pl_inFlight := True\<rparr>"

definition tickEnd :: "tick_outcome \<Rightarrow> Poller \<Rightarrow> Poller \<times> TickResult option" where
  "tickEnd out p =
     (case out of
        Finished r \<Rightarrow> (p\<lparr>pl_busyStreak := 0, pl_inFlight := False\<rparr>, Some r)
      | TimedOut \<Rightarrow> (p\<lparr>pl_busyStreak := 0, pl_inFlight := False\<rparr>, Some noResult)
      | Rejected \<Rightarrow> (p\<lparr>pl_inFlight := False\<rparr>, None))"

subsection \<open>The contract of the store\<close>

definition valueOf :: "CandidateLike \<Rightarrow> AttestableIndexValue option" where
  "valueOf c = as_value (assessCandidate c (undefined :: ResolvedAttestorConfig) 0 None None)"

lemma as_value_valueOf [simp]: "as_value (assessCandidate c cfg now previous breakers) = valueOf c"
  by (simp add: valueOf_def assessCandidate_def)

definition observedSec :: "date \<Rightarrow> AttestableIndexValue \<Rightarrow> number" where
  "observedSec now v = observationSeconds (of_int (va_computedAt v)) (of_int now)"

text \<open>The row is what the attestor signs for the candidate at this time.\<close>

definition attests :: "PollerOpts \<Rightarrow> date \<Rightarrow> CandidateLike \<Rightarrow> OracleReportRow \<Rightarrow> bool" where
  "attests opts now c row \<longleftrightarrow> (\<exists>v. valueOf c = Some v \<and>
     \<not> po_maxObservationAge opts < fsub (secondsOf now) (observedSec now v) \<and>
     signedRow opts now (secondsOf now) (observedSec now v) v = Some row)"

locale attestor_store =
  fixes store :: "'s AttestorStore"
    and reports :: "'s \<Rightarrow> OracleReportRow list"
  assumes report_law: "recordReport store r s = (res, s') \<Longrightarrow>
      (case res of Thrown \<Rightarrow> reports s' = reports s
       | Value b \<Rightarrow> (b \<longleftrightarrow> \<not> conflicts reportKey r (reports s)) \<and>
           reports s' = reports s @ (if b then [r] else []))"
    and violations_law: "recordViolations store v s = (res, s') \<Longrightarrow> reports s' = reports s"
    and epoch_law: "reportForEpoch store g e s = Value b \<Longrightarrow>
      b \<longleftrightarrow> (\<exists>r \<in> set (reports s). or_gpuId r = g \<and> or_epoch r = e)"
begin

definition grows :: "PollerOpts \<Rightarrow> date \<Rightarrow> CandidateLike set \<Rightarrow> TickResult \<times> 's \<Rightarrow> TickResult \<times> 's \<Rightarrow> bool" where
  "grows opts now cands cs cs' \<longleftrightarrow> (\<exists>new. reports (snd cs') = reports (snd cs) @ new \<and>
     tr_attested (fst cs') = tr_attested (fst cs) + length new \<and>
     (uniqueOn reportKey (reports (snd cs)) \<longrightarrow> uniqueOn reportKey (reports (snd cs'))) \<and>
     (\<forall>r \<in> set new. \<exists>c \<in> cands. attests opts now c r))"

lemma grows_refl: "reports (snd cs') = reports (snd cs) \<Longrightarrow> tr_attested (fst cs') = tr_attested (fst cs) \<Longrightarrow>
    grows opts now cands cs cs'"
  by (simp add: grows_def)

lemma grows_trans:
  assumes "grows opts now cands cs1 cs2" "grows opts now cands' cs2 cs3"
  shows "grows opts now (cands \<union> cands') cs1 cs3"
proof -
  from assms obtain n1 n2 where
      n1: "reports (snd cs2) = reports (snd cs1) @ n1" "tr_attested (fst cs2) = tr_attested (fst cs1) + length n1"
        "uniqueOn reportKey (reports (snd cs1)) \<longrightarrow> uniqueOn reportKey (reports (snd cs2))"
        "\<forall>r \<in> set n1. \<exists>c \<in> cands. attests opts now c r" and
      n2: "reports (snd cs3) = reports (snd cs2) @ n2" "tr_attested (fst cs3) = tr_attested (fst cs2) + length n2"
        "uniqueOn reportKey (reports (snd cs2)) \<longrightarrow> uniqueOn reportKey (reports (snd cs3))"
        "\<forall>r \<in> set n2. \<exists>c \<in> cands'. attests opts now c r"
    unfolding grows_def by blast
  show ?thesis
    unfolding grows_def
    by (rule exI [of _ "n1 @ n2"]) (use n1 n2 in auto)
qed

lemma refuse_grows: "grows opts now {} cs (refuse store opts now c vs cs)"
proof -
  obtain res s' where r: "recordViolations store (violationRow opts now c vs) (snd cs) = (res, s')" by force
  then have "reports s' = reports (snd cs)" by (rule violations_law)
  then show ?thesis
    using r by (cases res) (auto simp: refuse_def skipped_def intro: grows_refl)
qed

lemma attest_grows:
  assumes "attests opts now c row"
  shows "grows opts now {c} cs (attest store row cs)"
proof -
  obtain res s' where r: "recordReport store row (snd cs) = (res, s')" by force
  note law = report_law [OF r]
  show ?thesis
  proof (cases res)
    case Thrown
    then show ?thesis using law r by (auto simp: attest_def intro: grows_refl)
  next
    case (Value b)
    have "uniqueOn reportKey (reports (snd cs)) \<longrightarrow> uniqueOn reportKey (reports s')"
      using plain.put_unique [of reportKey "reports (snd cs)" row] law Value by (auto simp: insertIgnore_def)
    then show ?thesis
      using law r Value assms
      by (auto simp: attest_def grows_def intro: exI [of _ "[row]"] exI [of _ "[]"])
  qed
qed

lemma annotate_grows:
  assumes "attests opts now c row"
  shows "grows opts now {c} cs (annotateAndAttest store opts now c vs row cs)"
proof (cases "vs = []")
  case False
  obtain res s' where r: "recordViolations store (violationRow opts now c vs) (snd cs) = (res, s')" by force
  then have same: "reports s' = reports (snd cs)" by (rule violations_law)
  show ?thesis
  proof (cases res)
    case Thrown
    then show ?thesis using r same False by (auto simp: annotateAndAttest_def intro: grows_refl)
  next
    case (Value b)
    define cs1 where "cs1 = (if b then (fst cs)\<lparr>tr_flagged := Suc (tr_flagged (fst cs))\<rparr> else fst cs, s')"
    have "grows opts now {} cs cs1" using same by (intro grows_refl) (simp_all add: cs1_def)
    from grows_trans [OF this attest_grows [OF assms, of cs1]]
    show ?thesis using r Value False by (simp add: annotateAndAttest_def cs1_def)
  qed
qed (simp add: annotateAndAttest_def attest_grows assms)

lemma grows_mono: "grows opts now a cs cs' \<Longrightarrow> a \<subseteq> b \<Longrightarrow> grows opts now b cs cs'"
  unfolding grows_def by blast

lemma handle_grows: "grows opts now {c} cs (handleCandidate store opts methodology breakers now c cs)"
proof -
  have id: "grows opts now {c} cs cs" and skip: "grows opts now {c} cs (skipped (fst cs), snd cs)"
    by (auto simp: skipped_def intro: grows_refl)
  have ref: "grows opts now {c} cs (refuse store opts now c vs cs)" for vs
    using refuse_grows grows_mono by blast
  show ?thesis
    unfolding handleCandidate_def Let_def as_value_valueOf observedSec_def [symmetric]
    by (auto split: sum.split result.split bool.split option.split
        intro!: id skip ref annotate_grows simp: attests_def)
qed

lemma pass_grows:
  assumes "tickInner store opts now s = (res, s')"
  shows "\<exists>cands. (latestCandidates store s = Value cands \<or> cands = []) \<and>
    grows opts now (set cands) (noResult, s) (res, s')"
proof -
  have fold: "grows opts now (set cands) cs (foldl (\<lambda>cs c. handleCandidate store opts m b now c cs) cs cands)" for cands cs m b
  proof (induction cands arbitrary: cs)
    case (Cons c cands)
    from grows_trans [OF handle_grows [of opts now c cs m b] Cons.IH [of "handleCandidate store opts m b now c cs"]]
    show ?case by simp
  qed (simp add: grows_refl)
  have none: "grows opts now (set []) (noResult, s) (noResult, s)" by (simp add: grows_refl)
  show ?thesis
  proof (cases "po_fetchBreakers opts = Some Thrown")
    case True
    then show ?thesis using assms none by (auto simp: tickInner_def intro!: exI [of _ "[]"])
  next
    case False
    show ?thesis
    proof (cases "latestCandidates store s")
      case Thrown
      then show ?thesis using assms none False by (auto simp: tickInner_def intro!: exI [of _ "[]"])
    next
      case (Value cands)
      show ?thesis
      proof (cases "methodologyConfig store (at_pinnedMethodologyVersion (po_config opts)) s")
        case Thrown
        then show ?thesis using assms none False Value by (auto simp: tickInner_def intro!: exI [of _ "[]"])
      next
        case (Value m)
        show ?thesis
        proof (cases m)
          case None
          then show ?thesis
            using assms none False Value \<open>latestCandidates store s = Value cands\<close>
            by (auto simp: tickInner_def intro!: exI [of _ "[]"])
        next
          case (Some methodology)
          then have "(res, s') = foldl (\<lambda>cs c. handleCandidate store opts methodology
              (case po_fetchBreakers opts of Some (Value b) \<Rightarrow> Some b | _ \<Rightarrow> None) now c cs) (noResult, s) cands"
            using assms False Value \<open>latestCandidates store s = Value cands\<close> by (simp add: tickInner_def)
          then show ?thesis
            using fold \<open>latestCandidates store s = Value cands\<close> by metis
        qed
      qed
    qed
  qed
qed

end

interpretation drz: attestor_store "drizzleStore up gpuIds" db_reports for up gpuIds
proof
  show "case res of Thrown \<Rightarrow> db_reports s' = db_reports s
      | Value b \<Rightarrow> (b \<longleftrightarrow> \<not> conflicts reportKey r (db_reports s)) \<and>
          db_reports s' = db_reports s @ (if b then [r] else [])"
    if "recordReport (drizzleStore up gpuIds) r s = (res, s')" for r s res s'
    using that by (auto simp: drizzleStore_def insertOracleReport_def insertIgnore_def Let_def split: if_splits)
  show "db_reports s' = db_reports s" if "recordViolations (drizzleStore up gpuIds) v s = (res, s')" for v s res s'
    using that by (auto simp: drizzleStore_def recordPublishViolations_def Let_def split_def split: if_splits)
  show "b \<longleftrightarrow> (\<exists>r \<in> set (db_reports s). or_gpuId r = g \<and> or_epoch r = e)"
    if "reportForEpoch (drizzleStore up gpuIds) g e s = Value b" for g e s b
    using that by (auto simp: drizzleStore_def getOracleReport_def filter_empty_conv split: if_splits)
qed

subsection \<open>What is attested\<close>

lemma secondsOf_int: "0 \<le> now \<Longrightarrow> now + 1000 \<le> 2 ^ 53 \<Longrightarrow> secondsOf now = of_int (now div 1000)"
  using floor_fdiv [of now 1000] by (simp add: secondsOf_def)

lemma observedSec_int:
  assumes "0 \<le> now" "now + 1000 \<le> 2 ^ 53" "0 \<le> va_computedAt v"
  shows "observedSec now v = of_int (min (va_computedAt v) now div 1000)"
proof -
  have "min (of_int (va_computedAt v)) (of_int now) = (of_int (min (va_computedAt v) now) :: rat)"
    by (auto simp: min_def)
  then show ?thesis
    using floor_fdiv [of "min (va_computedAt v) now" 1000] assms
    by (simp add: observedSec_def observationSeconds_def min_def)
qed

lemma valueOf_Some: "valueOf c = Some v \<longleftrightarrow> (\<exists>p. cl_price c = Some p \<and>
    v = \<lparr>va_candidateId = cl_id c, va_gpuId = cl_gpuId c, va_panelId = cl_panelId c, va_price = p,
      va_confidenceLow = cl_confidenceLow c, va_confidenceHigh = cl_confidenceHigh c, va_status = cl_status c,
      va_methodologyVersion = cl_methodologyVersion c, va_calcHash = cl_calcHash c, va_computedAt = cl_computedAt c\<rparr>)"
  by (auto simp: valueOf_def assessCandidate_def split: option.splits)

lemma signedRow_Some:
  assumes "signedRow opts now nowSec obs v = Some row"
  shows "\<exists>h rp sig. buildReport (reportParams opts nowSec obs v h) = Inr rp \<and> po_sign opts rp = Some sig \<and>
    row = reportRow opts now v rp sig"
  using assms by (auto simp: signedRow_def split: sum.splits)

lemma buildReport_price: "buildReport p = Inr r \<Longrightarrow> priceToScaled (pa_price p) = Inr (rp_price r)"
  by (auto simp: buildReport_def Let_def split: if_splits sum.splits)

text \<open>A row that is fit to be attested for a stored candidate, at a time in milliseconds.\<close>

definition sound_row :: "PollerOpts \<Rightarrow> int \<Rightarrow> date \<Rightarrow> CandidateRow \<Rightarrow> OracleReportRow \<Rightarrow> bool" where
  "sound_row opts l now c r \<longleftrightarrow>
     or_gpuId r = cd_gpuId c \<and> or_candidateId r = Some (cd_id c) \<and> or_attestedAt r = now \<and>
     (\<exists>p k. cd_price c = Some p \<and> priceToScaled p = Inr k \<and> or_price r = fl (of_int k) \<and> 0 < k) \<and>
     or_epoch r * of_int l = or_validFrom r \<and> or_validUntil r = or_validFrom r + of_int l \<and>
     or_validFrom r \<le> of_int (now div 1000) \<and> of_int (now div 1000) < or_validUntil r \<and>
     or_observedAt r \<le> of_int (now div 1000) \<and>
     of_int (now div 1000) - or_observedAt r \<le> max 0 (po_maxObservationAge opts)"

lemma attests_sound:
  assumes "attests opts now (candidateFromRow c) r"
    and "po_epochLength opts = of_int l" "0 < l" "l \<le> 2 ^ 30" "0 \<le> now" "now \<le> 2 ^ 49" "0 \<le> cd_computedAt c"
  shows "sound_row opts l now c r"
proof -
  obtain v where v: "valueOf (candidateFromRow c) = Some v"
      "signedRow opts now (secondsOf now) (observedSec now v) v = Some r"
    using assms(1) by (auto simp: attests_def)
  then obtain p where p: "cd_price c = Some p" "va_price v = p" "va_gpuId v = cd_gpuId c"
      "va_candidateId v = cd_id c" "va_computedAt v = cd_computedAt c"
    by (auto simp: valueOf_Some candidateFromRow_def)
  define n where "n = now div 1000"
  define s where "s = min (cd_computedAt c) now div 1000"
  have sec: "secondsOf now = of_int n" "observedSec now v = of_int s"
    using assms(5-7) p(5) secondsOf_int [of now] observedSec_int [of now v] by (simp_all add: n_def s_def)
  have bounds: "0 \<le> n" "n \<le> 2 ^ 40" "0 \<le> s" "s \<le> 2 ^ 40"
  proof -
    have "now div 1000 \<le> 2 ^ 49 div 1000" using assms(6) by (rule zdiv_mono1) simp
    then show "n \<le> 2 ^ 40" by (simp add: n_def)
    have "s \<le> now div 1000" unfolding s_def by (rule zdiv_mono1) simp_all
    then show "s \<le> 2 ^ 40" using \<open>n \<le> 2 ^ 40\<close> by (simp add: n_def)
    show "0 \<le> n" using assms(5) by (simp add: n_def pos_imp_zdiv_nonneg_iff)
    show "0 \<le> s" using assms(5,7) by (simp add: s_def pos_imp_zdiv_nonneg_iff)
  qed
  obtain h rp sig where rp: "buildReport (reportParams opts (of_int n) (of_int s) v h) = Inr rp"
      "r = reportRow opts now v rp sig"
    using signedRow_Some [OF v(2)] sec by auto
  have fields: "pa_nowSec (reportParams opts (of_int n) (of_int s) v h) = of_int n"
      "pa_observedAtSec (reportParams opts (of_int n) (of_int s) v h) = of_int s"
      "paEpochLength (reportParams opts (of_int n) (of_int s) v h) = of_int l"
      "paMaxAge (reportParams opts (of_int n) (of_int s) v h) = po_maxObservationAge opts"
      "pa_price (reportParams opts (of_int n) (of_int s) v h) = p"
    using assms(2) p(2) by (simp_all add: reportParams_def paEpochLength_def paMaxAge_def)
  from buildReport_window [OF rp(1) fields(1-3) bounds(1,3) assms(3,4) bounds(2,4)]
  have w: "rp_validFrom rp \<le> of_int n" "of_int n < rp_validUntil rp" "rp_validUntil rp = rp_validFrom rp + of_int l"
      "rp_validFrom rp = rp_epoch rp * of_int l" "rp_observedAt rp \<le> of_int n"
      "of_int n - rp_observedAt rp \<le> max 0 (po_maxObservationAge opts)" "0 < rp_price rp"
    using fields(4) by auto
  have "priceToScaled p = Inr (rp_price rp)" using buildReport_price [OF rp(1)] fields(5) by simp
  then show ?thesis
    using w p rp(2) by (simp add: sound_row_def reportRow_def n_def)
qed

lemma map_filter_mem: "y \<in> set (List.map_filter f xs) \<longleftrightarrow> (\<exists>x \<in> set xs. f x = Some y)"
  by (induction xs) (auto simp: map_filter_simps split: option.splits)

lemma latestCandidatesIn_mem:
  assumes "c \<in> set (latestCandidatesIn gpuIds db)"
  shows "\<exists>row. row \<in> set (db_candidates db) \<and> c = candidateFromRow row \<and> getLatestCandidate (cd_gpuId row) db = Some row"
proof -
  obtain g row where r: "headOf (getCandidateHistory g 1 db) = Some row" "c = candidateFromRow row"
    using assms by (auto simp: latestCandidatesIn_def map_filter_mem)
  have "getLatestCandidate g db = Some row"
    using r(1) by (cases "sort_key (\<lambda>r. - cd_computedAt r) (candidatesOf g db)")
      (auto simp: getCandidateHistory_def getLatestCandidate_def latestBy_def firstBy_def)
  moreover from latestBy_Some [OF this [unfolded getLatestCandidate_def]]
  have "row \<in> set (db_candidates db)" "cd_gpuId row = g" by (auto simp: candidatesOf_def)
  ultimately show ?thesis using r(2) by blast
qed

text \<open>C8. A pass attests only what is fit to be attested: whatever the database answers and wherever it
  fails, the pass appends reports and rewrites none, counts exactly the appended ones, keeps one
  report per GPU and epoch, and each new report is for the newest candidate of its GPU, with that
  candidate's price scaled and positive, in the epoch that holds the clock, observed neither in the
  future nor before the age floor.\<close>
theorem pass_attests_soundly:
  assumes "tickInner (drizzleStore up gpuIds) opts now db = (res, db')"
    and "po_epochLength opts = of_int l" "0 < l" "l \<le> 2 ^ 30" "0 \<le> now" "now \<le> 2 ^ 49"
    and "\<forall>c \<in> set (db_candidates db). 0 \<le> cd_computedAt c"
  shows "\<exists>new. db_reports db' = db_reports db @ new \<and> tr_attested res = length new \<and>
    (uniqueOn reportKey (db_reports db) \<longrightarrow> uniqueOn reportKey (db_reports db')) \<and>
    (\<forall>r \<in> set new. \<exists>c. getLatestCandidate (or_gpuId r) db = Some c \<and> sound_row opts l now c r)"
proof -
  obtain cands where c: "latestCandidates (drizzleStore up gpuIds) db = Value cands \<or> cands = []"
      "drz.grows opts now (set cands) (noResult, db) (res, db')"
    using drz.pass_grows [OF assms(1)] by blast
  from c(2) obtain new where new: "db_reports db' = db_reports db @ new" "tr_attested res = length new"
      "uniqueOn reportKey (db_reports db) \<longrightarrow> uniqueOn reportKey (db_reports db')"
      "\<forall>r \<in> set new. \<exists>c \<in> set cands. attests opts now c r"
    unfolding drz.grows_def noResult_def fst_conv snd_conv TickResult.simps add_0 by blast
  have "\<exists>c. getLatestCandidate (or_gpuId r) db = Some c \<and> sound_row opts l now c r" if r: "r \<in> set new" for r
  proof -
    obtain c' where c': "c' \<in> set cands" "attests opts now c' r"
      using bspec [OF new(4) r] by (rule bexE)
    have "latestCandidates (drizzleStore up gpuIds) db = Value cands"
      using c(1) c'(1) by (cases cands) simp_all
    then have "cands = latestCandidatesIn gpuIds db"
      by (simp add: drizzleStore_def split: if_splits)
    then have "c' \<in> set (latestCandidatesIn gpuIds db)" using c'(1) by simp
    then obtain row where row: "row \<in> set (db_candidates db)" "c' = candidateFromRow row"
        "getLatestCandidate (cd_gpuId row) db = Some row"
      using latestCandidatesIn_mem by blast
    have "sound_row opts l now row r"
      by (rule attests_sound) (use c'(2) row assms(2-7) in auto)
    then show ?thesis using row(3) by (auto simp: sound_row_def)
  qed
  then show ?thesis using new by blast
qed

subsection \<open>The audit never blocks\<close>

text \<open>Two databases that differ at most in the violation ledger.\<close>

definition same_but_ledger :: "Db \<Rightarrow> Db \<Rightarrow> bool" where
  "same_but_ledger a b \<longleftrightarrow> a\<lparr>db_violations := []\<rparr> = b\<lparr>db_violations := []\<rparr>"

definition alike :: "TickResult \<times> Db \<Rightarrow> TickResult \<times> Db \<Rightarrow> bool" where
  "alike x y \<longleftrightarrow> same_but_ledger (snd x) (snd y) \<and> tr_attested (fst x) = tr_attested (fst y) \<and>
     tr_skipped (fst x) = tr_skipped (fst y)"

lemma same_but_ledger_fields:
  assumes "same_but_ledger a b"
  shows "db_reports a = db_reports b" "db_candidates a = db_candidates b" "db_methodologies a = db_methodologies b"
proof -
  have eq: "a\<lparr>db_violations := []\<rparr> = b\<lparr>db_violations := []\<rparr>" using assms by (simp add: same_but_ledger_def)
  show "db_reports a = db_reports b" using arg_cong [OF eq, of db_reports] by simp
  show "db_candidates a = db_candidates b" using arg_cong [OF eq, of db_candidates] by simp
  show "db_methodologies a = db_methodologies b" using arg_cong [OF eq, of db_methodologies] by simp
qed

abbreviation (input) available :: "string list \<Rightarrow> Db AttestorStore" where
  "available gpuIds \<equiv> drizzleStore (\<lambda>op. True) gpuIds"

lemma same_reads:
  assumes "same_but_ledger a b"
  shows "reportForEpoch (available gs) g e a = reportForEpoch (available gs) g e b"
    and "latestReport (available gs) g a = latestReport (available gs) g b"
    and "latestCandidates (available gs) a = latestCandidates (available gs) b"
    and "methodologyConfig (available gs) v a = methodologyConfig (available gs) v b"
  using same_but_ledger_fields [OF assms]
  by (simp_all add: drizzleStore_def getOracleReport_def getLatestOracleReport_def latestCandidatesIn_def
      getCandidateHistory_def candidatesOf_def getMethodologyVersion_def)

lemma record_ledger:
  "\<exists>inserted db'. recordViolations (available gs) v db = (Value inserted, db') \<and> same_but_ledger db db'"
  by (simp add: drizzleStore_def recordPublishViolations_def Let_def split_def same_but_ledger_def)

lemma same_but_ledger_equiv:
  "same_but_ledger a a" "same_but_ledger a b \<Longrightarrow> same_but_ledger b a"
  "same_but_ledger a b \<Longrightarrow> same_but_ledger b c \<Longrightarrow> same_but_ledger a c"
  by (simp_all add: same_but_ledger_def)

lemma refuse_alike:
  assumes "alike x y"
  shows "alike (refuse (available gs) o1 now c v1 x) (refuse (available gs) o2 now c v2 y)"
proof -
  obtain b1 d1 where r1: "recordViolations (available gs) (violationRow o1 now c v1) (snd x) = (Value b1, d1)"
      "same_but_ledger (snd x) d1"
    using record_ledger by blast
  obtain b2 d2 where r2: "recordViolations (available gs) (violationRow o2 now c v2) (snd y) = (Value b2, d2)"
      "same_but_ledger (snd y) d2"
    using record_ledger by blast
  have "same_but_ledger d1 d2"
    using assms r1(2) r2(2) unfolding alike_def by (metis same_but_ledger_equiv(2,3))
  then show ?thesis
    using assms r1(1) r2(1) by (simp add: refuse_def alike_def skipped_def)
qed

lemma insert_report_commutes:
  "(fst (insertOracleReport row a))\<lparr>db_violations := []\<rparr> = fst (insertOracleReport row (a\<lparr>db_violations := []\<rparr>))"
  by (simp add: insertOracleReport_def Let_def split_def)

lemma attest_alike:
  assumes "alike x y"
  shows "alike (attest (available gs) row x) (attest (available gs) row y)"
proof -
  have same: "same_but_ledger (snd x) (snd y)" "db_reports (snd x) = db_reports (snd y)"
    using assms same_but_ledger_fields by (auto simp: alike_def)
  then have "same_but_ledger (fst (insertOracleReport row (snd x))) (fst (insertOracleReport row (snd y)))"
    unfolding same_but_ledger_def insert_report_commutes by simp
  moreover have "snd (insertOracleReport row (snd x)) = snd (insertOracleReport row (snd y))"
    using same(2) by (simp add: insertOracleReport_def Let_def split_def)
  ultimately show ?thesis
    using assms by (auto simp: attest_def drizzleStore_def Let_def split_def alike_def)
qed

lemma flag_alike:
  assumes "alike x y"
  shows "alike (if b then (fst x)\<lparr>tr_flagged := Suc (tr_flagged (fst x))\<rparr> else fst x, d)
      (if b' then (fst y)\<lparr>tr_flagged := Suc (tr_flagged (fst y))\<rparr> else fst y, d') \<longleftrightarrow> same_but_ledger d d'"
  using assms by (simp add: alike_def)

lemma annotate_attest_alike:
  assumes "alike x y"
  shows "alike (annotateAndAttest (available gs) o1 now c v1 row x) (annotateAndAttest (available gs) o2 now c v2 row y)"
proof -
  have half: "\<exists>x'. annotateAndAttest (available gs) o1 now c v1 row x = attest (available gs) row x' \<and> alike x x'"
    for o1 v1 and x :: "TickResult \<times> Db"
  proof (cases "v1 = []")
    case True
    then show ?thesis
      by (intro exI [of _ x]) (simp add: annotateAndAttest_def alike_def same_but_ledger_equiv)
  next
    case False
    obtain b d where r: "recordViolations (available gs) (violationRow o1 now c v1) (snd x) = (Value b, d)"
        "same_but_ledger (snd x) d"
      using record_ledger by blast
    show ?thesis
      by (rule exI [of _ "(if b then (fst x)\<lparr>tr_flagged := Suc (tr_flagged (fst x))\<rparr> else fst x, d)"])
        (simp add: annotateAndAttest_def False r alike_def)
  qed
  obtain x' where x': "annotateAndAttest (available gs) o1 now c v1 row x = attest (available gs) row x'" "alike x x'"
    using half by blast
  obtain y' where y': "annotateAndAttest (available gs) o2 now c v2 row y = attest (available gs) row y'" "alike y y'"
    using half by blast
  have "alike x' y'"
    using assms x'(2) y'(2) unfolding alike_def by (metis same_but_ledger_equiv(2,3))
  then show ?thesis using x'(1) y'(1) by (simp add: attest_alike)
qed

definition same_signer :: "PollerOpts \<Rightarrow> PollerOpts \<Rightarrow> bool" where
  "same_signer o1 o2 \<longleftrightarrow> po_epochLength o1 = po_epochLength o2 \<and> po_maxObservationAge o1 = po_maxObservationAge o2 \<and>
     po_sign o1 = po_sign o2 \<and> po_reportHash o1 = po_reportHash o2"

lemma signedRow_cong: "same_signer o1 o2 \<Longrightarrow> signedRow o1 = signedRow o2"
proof -
  assume same: "same_signer o1 o2"
  then have "reportRow o1 = reportRow o2" "reportParams o1 = reportParams o2"
    by (simp_all add: fun_eq_iff same_signer_def reportRow_def reportParams_def)
  then show ?thesis using same by (intro ext) (simp add: signedRow_def same_signer_def split: sum.split)
qed

lemma handle_alike:
  assumes "same_signer o1 o2" "alike x y"
  shows "alike (handleCandidate (available gs) o1 m1 b1 now c x) (handleCandidate (available gs) o2 m2 b2 now c y)"
proof -
  have same: "same_but_ledger (snd x) (snd y)" using assms(2) by (simp add: alike_def)
  have e: "po_epochLength o2 = po_epochLength o1" "po_maxObservationAge o2 = po_maxObservationAge o1"
    using assms(1) by (simp_all add: same_signer_def)
  note reads = same_reads [OF same]
  have skip: "alike (skipped (fst x), snd x) (skipped (fst y), snd y)"
    using assms(2) by (simp add: alike_def skipped_def)
  show ?thesis
    unfolding handleCandidate_def Let_def as_value_valueOf e signedRow_cong [OF assms(1)] reads
    by (auto split: sum.split result.split bool.split option.split
        intro!: assms(2) skip refuse_alike annotate_attest_alike)
qed

lemma foldl_alike:
  assumes "same_signer o1 o2"
  shows "alike x y \<Longrightarrow> alike (foldl (\<lambda>cs c. handleCandidate (available gs) o1 m1 b1 now c cs) x cands)
    (foldl (\<lambda>cs c. handleCandidate (available gs) o2 m2 b2 now c cs) y cands)"
  by (induction cands arbitrary: x y) (simp_all add: handle_alike [OF assms])

text \<open>C9. The audit annotates and never blocks: with the database up, two attestors that differ in their
  thresholds, in the stored methodology they are pinned to and in the source health they see attest
  the same reports in a pass and skip as many candidates; their databases differ in the violation
  ledger alone.\<close>
theorem audit_never_blocks:
  assumes "same_signer o1 o2" "po_fetchBreakers o1 \<noteq> Some Thrown" "po_fetchBreakers o2 \<noteq> Some Thrown"
    and "getMethodologyVersion (at_pinnedMethodologyVersion (po_config o1)) db \<noteq> None"
    and "getMethodologyVersion (at_pinnedMethodologyVersion (po_config o2)) db \<noteq> None"
    and "tickInner (drizzleStore (\<lambda>op. True) gpuIds) o1 now db = (r1, db1)"
    and "tickInner (drizzleStore (\<lambda>op. True) gpuIds) o2 now db = (r2, db2)"
  shows "db1\<lparr>db_violations := []\<rparr> = db2\<lparr>db_violations := []\<rparr> \<and> db_reports db1 = db_reports db2 \<and>
    tr_attested r1 = tr_attested r2 \<and> tr_skipped r1 = tr_skipped r2"
proof -
  obtain m1 where m1: "getMethodologyVersion (at_pinnedMethodologyVersion (po_config o1)) db = Some m1" using assms(4) by blast
  obtain m2 where m2: "getMethodologyVersion (at_pinnedMethodologyVersion (po_config o2)) db = Some m2" using assms(5) by blast
  have run: "tickInner (available gpuIds) opts now db =
      foldl (\<lambda>cs c. handleCandidate (available gpuIds) opts (readConfig (mr_config m))
        (case po_fetchBreakers opts of Some (Value b) \<Rightarrow> Some b | _ \<Rightarrow> None) now c cs) (noResult, db) (latestCandidatesIn gpuIds db)"
    if "po_fetchBreakers opts \<noteq> Some Thrown"
      "getMethodologyVersion (at_pinnedMethodologyVersion (po_config opts)) db = Some m" for opts m
    using that by (simp add: tickInner_def drizzleStore_def)
  have "alike (r1, db1) (r2, db2)"
    unfolding assms(6,7) [symmetric] run [OF assms(2) m1] run [OF assms(3) m2]
    by (rule foldl_alike [OF assms(1)]) (simp add: alike_def same_but_ledger_equiv)
  then have same: "same_but_ledger db1 db2" "tr_attested r1 = tr_attested r2" "tr_skipped r1 = tr_skipped r2"
    by (simp_all add: alike_def)
  then show ?thesis using same_but_ledger_fields(1) [OF same(1)] by (simp add: same_but_ledger_def)
qed

text \<open>Every later pass of an epoch is a no-op: when each newest candidate's GPU has its report for the
  epoch of the clock, a pass writes nothing at all and counts every candidate as skipped.\<close>
theorem settled_epoch_is_quiet:
  assumes "po_fetchBreakers opts \<noteq> Some Thrown"
    and "getMethodologyVersion (at_pinnedMethodologyVersion (po_config opts)) db \<noteq> None"
    and "\<forall>c \<in> set (latestCandidatesIn gpuIds db). \<exists>r \<in> set (db_reports db).
      or_gpuId r = cl_gpuId c \<and> epochOf (secondsOf now) (po_epochLength opts) = Inr (or_epoch r)"
  shows "tickInner (drizzleStore (\<lambda>op. True) gpuIds) opts now db =
    (noResult\<lparr>tr_skipped := length (latestCandidatesIn gpuIds db)\<rparr>, db)"
proof -
  have step: "handleCandidate (available gpuIds) opts m b now c (res, db) = (skipped res, db)"
    if there: "\<exists>r \<in> set (db_reports db). or_gpuId r = cl_gpuId c \<and> epochOf (secondsOf now) (po_epochLength opts) = Inr (or_epoch r)"
    for c res m b
  proof -
    obtain r where r: "r \<in> set (db_reports db)" "or_gpuId r = cl_gpuId c"
        "epochOf (secondsOf now) (po_epochLength opts) = Inr (or_epoch r)" using there by blast
    then have "reportForEpoch (available gpuIds) (cl_gpuId c) (or_epoch r) db = Value True"
      by (auto simp: drizzleStore_def getOracleReport_def filter_empty_conv)
    then show ?thesis using r(3) by (simp add: handleCandidate_def Let_def)
  qed
  have fold: "foldl (\<lambda>cs c. handleCandidate (available gpuIds) opts m b now c cs) (res, db) cands =
      (res\<lparr>tr_skipped := tr_skipped res + length cands\<rparr>, db)"
    if "\<forall>c \<in> set cands. \<exists>r \<in> set (db_reports db). or_gpuId r = cl_gpuId c \<and>
      epochOf (secondsOf now) (po_epochLength opts) = Inr (or_epoch r)" for cands res m b
    using that
  proof (induction cands arbitrary: res)
    case (Cons c cands)
    then show ?case using step [of c m b res] by (simp add: skipped_def)
  qed simp
  obtain m where m: "getMethodologyVersion (at_pinnedMethodologyVersion (po_config opts)) db = Some m" using assms(2) by blast
  have reads: "latestCandidates (available gpuIds) db = Value (latestCandidatesIn gpuIds db)"
      "methodologyConfig (available gpuIds) (at_pinnedMethodologyVersion (po_config opts)) db = Value (Some (readConfig (mr_config m)))"
    by (simp_all add: drizzleStore_def m)
  show ?thesis
    unfolding tickInner_def Let_def reads using assms(1) fold [OF assms(3)] by (simp add: noResult_def)
qed

subsection \<open>The jump audit\<close>

lemma scaled_price_small:
  assumes "priceToScaled p = Inr k" "0 < k" "k \<le> 2 ^ 40"
  shows "0 < p \<and> p \<le> of_int k / 1000"
proof -
  have p: "0 < p" "js_round (fmul p 10000) = k"
    using assms(1) by (auto simp: priceToScaled_def Let_def split: if_splits)
  have "p \<le> of_int k / 1000"
  proof (rule ccontr)
    assume "\<not> p \<le> of_int k / 1000"
    then have "of_int (10 * k) \<le> p * 10000" by simp
    then have "fl (of_int (10 * k)) \<le> fmul p 10000" unfolding fmul_def by (rule fl_mono)
    then have "of_int (10 * k) \<le> fmul p 10000" using assms(2,3) fl_of_int [of "10 * k"] by simp
    then have "10 * k \<le> js_round (fmul p 10000)" unfolding js_round_def by (simp add: le_floor_iff)
    then show False using p(2) assms(2) by simp
  qed
  then show ?thesis using p by simp
qed

text \<open>The jump audit compares dollars with scaled units: the ledger keeps the scaled price, the candidate
  the price in dollars, so a candidate whose price is exactly the one last attested for its GPU is
  flagged as a jump, for every limit up to 99 percent.\<close>
theorem jump_audit_compares_units:
  assumes "getLatestOracleReport (cl_gpuId c) db = Some row" "or_price row = fl (of_int k)"
    and "cl_price c = Some p" "priceToScaled p = Inr k" "0 < k" "k \<le> 2 ^ 40"
    and "latestReport (drizzleStore (\<lambda>op. True) gpuIds) (cl_gpuId c) db = Value previous"
    and "at_maxJumpPct config \<le> 99 / 100"
  shows "''jump_requires_manual'' \<in> vi_code ` set (as_violations (assessCandidate c
    (resolvePanelThresholds config methodology (cl_panelId c)) now (map_option fst previous) breakers))"
proof -
  have kf: "fl (of_int k) = of_int k" using assms(5,6) by (intro fl_of_int) simp
  have prev: "map_option fst previous = Some (of_int k)"
    using assms(1,2,7) kf by (auto simp: drizzleStore_def)
  have p: "0 < p" "p \<le> of_int k / 1000" using scaled_price_small [OF assms(4-6)] by simp_all
  define j where "j = fdiv \<bar>fsub p (of_int k)\<bar> (of_int k)"
  have k1: "1 \<le> (of_int k :: rat)" using assms(5) by simp
  have "fsub p (of_int k) \<le> - fl (of_int k * (999 / 1000))"
  proof -
    have "p - of_int k \<le> - (of_int k * (999 / 1000))" using p(2) by simp
    then have "fl (p - of_int k) \<le> fl (- (of_int k * (999 / 1000)))" by (rule fl_mono)
    then show ?thesis by (simp add: fsub_def fl_uminus)
  qed
  moreover have "of_int k * (998 / 1000) \<le> fl (of_int k * (999 / 1000))"
  proof -
    define x :: rat where "x = of_int k * (999 / 1000)"
    have x: "999 / 1000 \<le> x" using k1 by (simp add: x_def)
    then have "\<bar>fl x - x\<bar> \<le> x / 2 ^ 53" by (intro fl_error_pos) simp
    then have "x - x / 2 ^ 53 \<le> fl x" by linarith
    moreover have "x / 2 ^ 53 \<le> x / 1000" using x by (intro divide_left_mono) simp_all
    ultimately have "x - x / 1000 \<le> fl x" by linarith
    then show ?thesis using k1 unfolding x_def by simp
  qed
  ultimately have "of_int k * (998 / 1000) \<le> \<bar>fsub p (of_int k)\<bar>" by linarith
  then have "998 / 1000 \<le> \<bar>fsub p (of_int k)\<bar> / of_int k" using k1 by (simp add: field_simps)
  then have "fl (998 / 1000) \<le> j" unfolding j_def fdiv_def by (rule fl_mono)
  moreover have "99 / 100 < fl (998 / 1000)" by code_simp
  ultimately have big: "at_maxJumpPct config < j" using assms(8) by simp
  have "jumpPct c (Some (of_int k)) = Some j"
    using assms(3,5) by (simp add: jumpPct_def j_def)
  moreover have "rv_maxJumpPct (resolvePanelThresholds config methodology (cl_panelId c)) < j"
    using big by (simp add: resolvePanelThresholds_def Let_def)
  ultimately show ?thesis
    unfolding prev by (simp add: assessCandidate_def flagged(4))
qed

subsection \<open>A concrete attestor\<close>

definition sampleOpts :: PollerOpts where
  "sampleOpts = \<lparr>po_config = \<lparr>at_pinnedMethodologyVersion = ''v1'', at_minContributors = None, at_maxDispersion = None,
       at_maxFreshnessMs = 600000, at_maxJumpPct = 1 / 4, at_maxBandWidthPct = None\<rparr>,
     po_epochLength = 60, po_maxObservationAge = 300, po_fetchBreakers = None,
     po_sign = (\<lambda>rp. Some ''0x51''), po_reportHash = (\<lambda>rp sig. ''0x52'')\<rparr>"

definition strictOpts :: PollerOpts where
  "strictOpts = sampleOpts\<lparr>po_config := (po_config sampleOpts)\<lparr>at_minContributors := Some 9, at_maxJumpPct := 0\<rparr>\<rparr>"

text \<open>A methodology that is stored, a healthy candidate of one minute ago.\<close>

definition sampleState :: Db where
  "sampleState = snd (insertIndexCandidate (sampleCandidate healthy (5 / 2) 60000)
     (ensureMethodologyVersion 5 5 sampleVersion db_empty))"

definition settledState :: Db where
  "settledState = fst (insertOracleReport (sampleReportRow\<lparr>or_epoch := 2\<rparr>) sampleState)"

theorem operator_limits_only_tighten_witness:
  "of_int (minProviders (gates (effectiveConfigFor DEFAULT_METHODOLOGY_CONFIG ''panel''))) \<le>
   rv_minContributors (resolvePanelThresholds (po_config strictOpts) DEFAULT_METHODOLOGY_CONFIG ''panel'')"
  using operator_limits_only_tighten [OF refl refl refl] by blast

theorem pass_attests_soundly_witness:
  "\<exists>res db' new. tickInner (drizzleStore (\<lambda>op. True) [''H100'']) sampleOpts 120000 sampleState = (res, db') \<and>
     db_reports db' = db_reports sampleState @ new \<and> tr_attested res = length new"
proof -
  obtain res db' where run: "tickInner (drizzleStore (\<lambda>op. True) [''H100'']) sampleOpts 120000 sampleState = (res, db')"
    by force
  have times: "\<forall>c \<in> set (db_candidates sampleState). 0 \<le> cd_computedAt c" by code_simp
  have "po_epochLength sampleOpts = of_int 60" by (simp add: sampleOpts_def)
  from pass_attests_soundly [OF run this _ _ _ _ times] show ?thesis using run by auto
qed

theorem audit_never_blocks_witness:
  "db_reports (snd (tickInner (drizzleStore (\<lambda>op. True) [''H100'']) sampleOpts 120000 sampleState)) =
   db_reports (snd (tickInner (drizzleStore (\<lambda>op. True) [''H100'']) strictOpts 120000 sampleState))"
proof -
  have same: "same_signer sampleOpts strictOpts" "po_fetchBreakers sampleOpts \<noteq> Some Thrown"
      "po_fetchBreakers strictOpts \<noteq> Some Thrown"
    by (simp_all add: same_signer_def strictOpts_def sampleOpts_def)
  have "getMethodologyVersion ''v1'' sampleState \<noteq> None" by code_simp
  then have stored: "getMethodologyVersion (at_pinnedMethodologyVersion (po_config sampleOpts)) sampleState \<noteq> None"
      "getMethodologyVersion (at_pinnedMethodologyVersion (po_config strictOpts)) sampleState \<noteq> None"
    by (simp_all add: strictOpts_def sampleOpts_def)
  from audit_never_blocks [OF same stored prod.collapse [symmetric] prod.collapse [symmetric], of "[''H100'']" 120000]
  show ?thesis by blast
qed

theorem settled_epoch_is_quiet_witness:
  "tickInner (drizzleStore (\<lambda>op. True) [''H100'']) sampleOpts 120000 settledState =
    (noResult\<lparr>tr_skipped := length (latestCandidatesIn [''H100''] settledState)\<rparr>, settledState)"
proof (rule settled_epoch_is_quiet)
  show "po_fetchBreakers sampleOpts \<noteq> Some Thrown" by (simp add: sampleOpts_def)
  have "getMethodologyVersion ''v1'' settledState \<noteq> None" by code_simp
  then show "getMethodologyVersion (at_pinnedMethodologyVersion (po_config sampleOpts)) settledState \<noteq> None"
    by (simp add: sampleOpts_def)
  have "epochOf (secondsOf 120000) 60 = Inr 2" by code_simp
  moreover have "\<forall>c \<in> set (latestCandidatesIn [''H100''] settledState). \<exists>r \<in> set (db_reports settledState).
      or_gpuId r = cl_gpuId c \<and> or_epoch r = 2" by code_simp
  ultimately show "\<forall>c \<in> set (latestCandidatesIn [''H100''] settledState). \<exists>r \<in> set (db_reports settledState).
      or_gpuId r = cl_gpuId c \<and> epochOf (secondsOf 120000) (po_epochLength sampleOpts) = Inr (or_epoch r)"
    by (simp add: sampleOpts_def)
qed

theorem jump_audit_compares_units_witness:
  "''jump_requires_manual'' \<in> vi_code ` set (as_violations (assessCandidate
     (candidateFromRow (IndexCandidateRowInput.extend (sampleCandidate healthy (5 / 2) 60000) \<lparr>cd_id = 0\<rparr>))
     (resolvePanelThresholds (po_config sampleOpts) DEFAULT_METHODOLOGY_CONFIG ''panel'') 120000 (Some 25000) None))"
proof -
  let ?c = "candidateFromRow (IndexCandidateRowInput.extend (sampleCandidate healthy (5 / 2) 60000) \<lparr>cd_id = 0\<rparr>)"
  have c: "cl_gpuId ?c = ''H100''" "cl_price ?c = Some (5 / 2)" "cl_panelId ?c = ''panel''"
    by (simp_all add: candidateFromRow_def IndexCandidateRowInput.defs sampleCandidate_def)
  have fl: "fl (of_int 25000) = of_int 25000" by (rule fl_of_int) simp
  have row: "getLatestOracleReport (cl_gpuId ?c) settledState = Some (sampleReportRow\<lparr>or_epoch := 2\<rparr>)"
    unfolding c by (simp add: getLatestOracleReport_def settledState_def sampleState_def insertOracleReport_def
        insertIgnore_def insertIndexCandidate_eq conflicts_def db_empty_def ensureMethodologyVersion_def
        sampleReportRow_def latestBy_def firstBy_def Let_def)
  have price: "or_price (sampleReportRow\<lparr>or_epoch := 2\<rparr>) = fl (of_int 25000)"
    unfolding fl by (simp add: sampleReportRow_def)
  have scaled: "priceToScaled (5 / 2) = Inr 25000" by code_simp
  have read: "latestReport (drizzleStore (\<lambda>op. True) [''H100'']) (cl_gpuId ?c) settledState =
      Value (Some (25000, 2, 1100000))"
    using row by (simp add: drizzleStore_def sampleReportRow_def)
  from jump_audit_compares_units [OF row price c(2) scaled _ _ read, of "po_config sampleOpts" DEFAULT_METHODOLOGY_CONFIG 120000 None]
  show ?thesis using c(3) by (simp add: sampleOpts_def)
qed

end
