(* ===== verification/EnvioStore.thy ===== *)
theory EnvioStore
  imports JsMap JsText
begin

text \<open>
  apps/indexer/src/envio-compat.ts and schema.ts: the store the indexer's handlers write through.
  An entity is a JavaScript object, here its own properties in insertion order; a table names the
  entity, computes its id from a row and lists the columns that change type on the way in and out.
  Envio runs a handler twice, first to preload: the writes of that pass go to an overlay.
  \<open>context[entity]\<close> is Envio's and may lack an entity; \<open>CHAIN_ID\<close> comes from the generated
  configuration.
\<close>

subsection \<open>Values\<close>

datatype jsval =
    JBig int
  | JNum number
  | JStr string
  | JBool bool
  | JNull
  | JUndef
  | JArr "jsval list"
  | JObj "(string \<times> jsval) list"

type_synonym entity_row = "(string, jsval) js_map"

fun join_texts :: "string \<Rightarrow> string list \<Rightarrow> string" where
  "join_texts sep [] = []"
| "join_texts sep [x] = x"
| "join_texts sep (x # y # xs) = x @ sep @ join_texts sep (y # xs)"

text \<open>\<open>String(v)\<close>, as a template literal has it.\<close>

fun js_text :: "jsval \<Rightarrow> string" where
  "js_text (JBig n) = int_text n"
| "js_text (JNum x) = num_text x"
| "js_text (JStr s) = s"
| "js_text (JBool b) = (if b then ''true'' else ''false'')"
| "js_text JNull = ''null''"
| "js_text JUndef = ''undefined''"
| "js_text (JArr vs) =
     join_texts '','' (map (\<lambda>v. if v = JNull \<or> v = JUndef then '''' else js_text v) vs)"
| "js_text (JObj fs) = ''[object Object]''"

definition field :: "entity_row \<Rightarrow> string \<Rightarrow> jsval" where \<comment> \<open>\<open>row[f]\<close>\<close>
  "field r f = (case js_get r f of None \<Rightarrow> JUndef | Some v \<Rightarrow> v)"

definition spread :: "entity_row \<Rightarrow> entity_row \<Rightarrow> entity_row" where \<comment> \<open>\<open>{...a, ...b}\<close>\<close>
  "spread a b = fold (\<lambda>(f, v). js_set f v) b a"

subsection \<open>Tables\<close>

record Table =
  entity :: string
  tableId :: "entity_row \<Rightarrow> string"
  bigintNumbers :: "string list"
  intNumbers :: "string list"

definition table :: "string \<Rightarrow> (entity_row \<Rightarrow> string) \<Rightarrow> string list \<Rightarrow> string list \<Rightarrow> Table" where
  "table e i bigs ints =
     \<lparr>entity = e, tableId = i, bigintNumbers = bigs, intNumbers = ints\<rparr>"

definition event_id :: "entity_row \<Rightarrow> string" where
  "event_id v = js_text (field v ''blockNumber'') @ ''_'' @ js_text (field v ''logIndex'')"

definition event_table :: "string \<Rightarrow> string list \<Rightarrow> string list \<Rightarrow> Table" where
  "event_table e bigs ints = table e event_id bigs ints"

definition by_field :: "string \<Rightarrow> entity_row \<Rightarrow> string" where
  "by_field f v = js_text (field v f)"

definition by_fields :: "string list \<Rightarrow> entity_row \<Rightarrow> string" where
  "by_fields fs v = join_texts ''_'' (map (\<lambda>f. js_text (field v f)) fs)"

definition STAMP :: "string list" where \<comment> \<open>the default of \<open>event\<close>\<close>
  "STAMP = [''blockTimestamp'']"

definition EVENT_TABLES :: "Table list" where
  "EVENT_TABLES =
    [event_table ''GusdMinted'' STAMP [], event_table ''GusdRedeemed'' STAMP [],
     event_table ''SgusdDeposited'' STAMP [], event_table ''SgusdWithdrawn'' STAMP [],
     event_table ''SgusdSeeded'' STAMP [], event_table ''GpuCreated'' STAMP [],
     event_table ''GpuIssued'' STAMP [], event_table ''RouterBuy'' STAMP [],
     event_table ''RouterSell'' STAMP [], event_table ''StableMintViaSwap'' STAMP [],
     event_table ''StableRedeemViaSwap'' STAMP [], event_table ''RevenueDistributed'' STAMP [],
     event_table ''HookPoolRegistered'' STAMP [], event_table ''HookSwap'' STAMP [],
     event_table ''GpuFill'' STAMP [],
     event_table ''PriceConsumed'' [''blockTimestamp'', ''observedAtSec''] [],
     event_table ''SignerTransferStarted'' STAMP [], event_table ''SignerAccepted'' STAMP [],
     event_table ''PmPoolInitialized'' STAMP [''fee'', ''tick'', ''tickSpacing''],
     event_table ''PmSwap'' STAMP [''fee'', ''tick''],
     event_table ''PmLiquidityModified'' STAMP [], event_table ''PmDonate'' STAMP [],
     event_table ''PosmPositionModified'' STAMP [], event_table ''TokenTransfer'' STAMP [],
     event_table ''SgusdEngineWithdrawal'' STAMP [], event_table ''PerpOrderCreated'' STAMP [],
     event_table ''PerpOrderExecuted'' STAMP [], event_table ''PerpOrderCancelled'' STAMP [],
     event_table ''PerpPositionIncreased'' STAMP [], event_table ''PerpPositionDecreased'' STAMP [],
     event_table ''PerpPositionClosed'' STAMP [], event_table ''PerpPositionLiquidated'' STAMP [],
     event_table ''PerpClaimableSettled'' STAMP [], event_table ''PerpClaimed'' STAMP [],
     event_table ''PerpFundingAccrued'' [''blockTimestamp'', ''updatedAtSec''] []]"

definition STATE_TABLES :: "Table list" where
  "STATE_TABLES =
    [table ''Pool'' (by_field ''poolId'') [''registeredAtSec'', ''swapCount'', ''lastSwapAtSec'']
       [''fee'', ''tickSpacing'', ''tick''],
     table ''GpuAsset'' (by_field ''gpuId'') [''issuedCount'', ''firstIssuedAtSec'',
       ''lastIssuedAtSec'', ''buyCount'', ''sellCount'', ''lastTradeAtSec''] [],
     table ''GpuOracleState'' (by_field ''gpuId'') [''observedAtSec''] [],
     table ''GpuToken'' (by_field ''token'') [] [],
     table ''WalletBalance'' (by_fields [''wallet'', ''token'']) [''transferCount'', ''lastTransferAtSec''] [],
     table ''WalletCostBasis'' (by_fields [''wallet'', ''gpuId''])
       [''acquisitions'', ''disposals'', ''firstActivityAtSec'', ''lastActivityAtSec''] [],
     table ''WalletVaultPosition'' (by_field ''wallet'')
       [''deposits'', ''withdraws'', ''firstActivityAtSec'', ''lastActivityAtSec''] [],
     table ''Wallet'' (by_field ''address'') [''eventCount''] [],
     event_table ''UserEvent'' STAMP [],
     table ''PoolStatsHourly'' (by_fields [''poolId'', ''bucketStart''])
       [''bucketStart'', ''buys'', ''sells'', ''swaps''] [],
     table ''PoolLiquidityPosition'' (by_fields [''poolId'', ''tickLower'', ''tickUpper'', ''salt''])
       [''modifyCount'', ''firstModifiedAtSec'', ''lastModifiedAtSec''] [],
     table ''ProtocolStats'' (\<lambda>_. ''protocol'') [''mintCount'', ''redeemCount'', ''issuedCount'',
       ''buyCount'', ''sellCount'', ''maxObservationAgeSec'', ''epochLengthSec''] [],
     table ''SgusdVault'' (\<lambda>_. ''vault'') [''depositCount'', ''withdrawCount''] [],
     table ''ProtocolStatsDaily'' (by_field ''bucketStart'') [''bucketStart'', ''mintCount'',
       ''redeemCount'', ''issuedCount'', ''buyCount'', ''sellCount''] [],
     table ''PerpMarket'' (by_field ''gpuId'') [''fundingUpdatedAtSec'', ''createdAtSec'']
       [''maxLeverageBps'', ''maintenanceMarginBps'', ''openFeeBps'', ''closeFeeBps'',
        ''liquidationFeeBps'', ''fundingRatePpmPerSec'', ''borrowRatePpmPerSec''],
     table ''PerpPosition'' (by_fields [''wallet'', ''gpuId'', ''isLong'']) [''openedAtSec'',
       ''lastTouchedAtSec'', ''closedAtSec'', ''liquidatedAtSec'', ''increaseCount'', ''decreaseCount''] [],
     table ''PerpOrder'' (by_field ''orderId'') [''orderId'', ''createdAtSec'', ''resolvedAtSec'']
       [''kind'', ''status''],
     table ''PerpClaimable'' (by_field ''wallet'') [''settleCount'', ''claimCount'', ''lastActivityAtSec''] [],
     table ''PerpEngineStats'' (\<lambda>_. ''engine'') [''minOrderDelaySec'', ''orderCount'', ''liquidationCount''] []]"

subsection \<open>Rows in and out\<close>

definition NUMBER_FIELDS :: "string list" where
  "NUMBER_FIELDS =
    [''blockNumber'', ''logIndex'', ''feeBps'', ''poolFee'', ''tickSpacing'', ''source'', ''swapFee'',
     ''tick'', ''tickLower'', ''tickUpper'', ''registeredBlockNumber'', ''lastSwapBlockNumber'',
     ''issuanceFeeBps'', ''lastConsumedBlockNumber'', ''firstSeenBlockNumber'',
     ''lastSeenBlockNumber'', ''mintFeeBps'', ''redeemFeeBps'', ''hookFeeBps'', ''sgusdSplitBps'']"

datatype store_error = NotAnInteger string | MissingOperations string | MissingEntity string string

text \<open>\<open>Number(bigint)\<close> rounds to a double; \<open>BigInt(number)\<close> throws on a fraction.\<close>

definition to_Number :: "string \<Rightarrow> entity_row \<Rightarrow> entity_row" where
  "to_Number f r = (case js_get r f of Some (JBig n) \<Rightarrow> js_set f (JNum (fl (of_int n))) r | _ \<Rightarrow> r)"

definition to_BigInt :: "string \<Rightarrow> entity_row \<Rightarrow> store_error + entity_row" where
  "to_BigInt f r =
     (case js_get r f of
        Some (JNum x) \<Rightarrow> if of_int \<lfloor>x\<rfloor> = x then Inr (js_set f (JBig \<lfloor>x\<rfloor>) r) else Inl (NotAnInteger f)
      | _ \<Rightarrow> Inr r)"

fun to_BigInts :: "string list \<Rightarrow> entity_row \<Rightarrow> store_error + entity_row" where
  "to_BigInts [] r = Inr r"
| "to_BigInts (f # fs) r = (case to_BigInt f r of Inl e \<Rightarrow> Inl e | Inr r' \<Rightarrow> to_BigInts fs r')"

definition toEntity :: "Table \<Rightarrow> entity_row \<Rightarrow> store_error + entity_row" where
  "toEntity t v =
     (let e = js_delete ''chainId'' (js_set ''id'' (JStr (tableId t v)) v)
      in to_BigInts (bigintNumbers t) (fold to_Number (NUMBER_FIELDS @ intNumbers t) e))"

definition fromEntity :: "nat \<Rightarrow> Table \<Rightarrow> entity_row \<Rightarrow> entity_row" where
  "fromEntity CHAIN_ID t v =
     fold to_Number (bigintNumbers t) (js_set ''chainId'' (JNum (of_nat CHAIN_ID)) v)"

subsection \<open>The context's store\<close>

record EnvioStore =
  entities :: "(string \<times> string, entity_row) js_map"
  preloadOverlay :: "(string, entity_row) js_map"
  preloadActive :: bool

record EnvioContext =
  isPreload :: bool
  chain_id :: nat
  CHAIN_ID :: nat
  declared :: "string \<Rightarrow> bool" \<comment> \<open>the context has operations for the entity\<close>

definition phase_change :: "EnvioContext \<Rightarrow> EnvioStore \<Rightarrow> EnvioStore" where
  "phase_change c s =
     (if isPreload c \<and> \<not> preloadActive s then s\<lparr>preloadOverlay := js_empty, preloadActive := True\<rparr>
      else if \<not> isPreload c \<and> preloadActive s then s\<lparr>preloadOverlay := js_empty, preloadActive := False\<rparr>
      else s)"

definition overlay_key :: "EnvioContext \<Rightarrow> Table \<Rightarrow> string \<Rightarrow> string" where
  "overlay_key c t i = int_text (int (chain_id c)) @ '':'' @ entity t @ '':'' @ i"

definition read_entity :: "EnvioContext \<Rightarrow> Table \<Rightarrow> string \<Rightarrow> EnvioStore \<Rightarrow> store_error + entity_row option" where
  "read_entity c t i s =
     (case (if isPreload c then js_get (preloadOverlay s) (overlay_key c t i) else None) of
        Some e \<Rightarrow> Inr (Some e)
      | None \<Rightarrow> if declared c (entity t) then Inr (js_get (entities s) (entity t, i))
                else Inl (MissingOperations (entity t)))"

definition write_entity :: "EnvioContext \<Rightarrow> Table \<Rightarrow> entity_row \<Rightarrow> EnvioStore \<Rightarrow> store_error option \<times> EnvioStore" where
  "write_entity c t v s =
     (case toEntity t v of
        Inl e \<Rightarrow> (Some e, s)
      | Inr e \<Rightarrow>
          let i = js_text (field e ''id'')
          in if isPreload c
             then (None, s\<lparr>preloadOverlay := js_set (overlay_key c t i) e (preloadOverlay s)\<rparr>)
             else if declared c (entity t)
             then (None, s\<lparr>entities := js_set (entity t, i) e (entities s)\<rparr>)
             else (Some (MissingOperations (entity t)), s))"

definition find_row :: "EnvioContext \<Rightarrow> Table \<Rightarrow> entity_row \<Rightarrow> EnvioStore \<Rightarrow> store_error + entity_row option" where
  "find_row c t key s =
     (case read_entity c t (tableId t key) s of
        Inl e \<Rightarrow> Inl e
      | Inr r \<Rightarrow> Inr (map_option (fromEntity (CHAIN_ID c) t) r))"

definition insert_values :: "EnvioContext \<Rightarrow> Table \<Rightarrow> entity_row \<Rightarrow> EnvioStore \<Rightarrow> store_error option \<times> EnvioStore" where
  "insert_values c t v s = write_entity c t v s"

definition insert_onConflictDoUpdate ::
  "EnvioContext \<Rightarrow> Table \<Rightarrow> entity_row \<Rightarrow> (entity_row \<Rightarrow> entity_row) \<Rightarrow> EnvioStore \<Rightarrow>
   store_error option \<times> EnvioStore" where
  "insert_onConflictDoUpdate c t v upd s =
     (case read_entity c t (tableId t v) s of
        Inl e \<Rightarrow> (Some e, s)
      | Inr None \<Rightarrow> write_entity c t v s
      | Inr (Some old) \<Rightarrow>
          let existing = fromEntity (CHAIN_ID c) t old in write_entity c t (spread existing (upd existing)) s)"

definition update_set ::
  "EnvioContext \<Rightarrow> Table \<Rightarrow> entity_row \<Rightarrow> entity_row \<Rightarrow> EnvioStore \<Rightarrow> store_error option \<times> EnvioStore" where
  "update_set c t key patch s =
     (case read_entity c t (tableId t key) s of
        Inl e \<Rightarrow> (Some e, s)
      | Inr None \<Rightarrow> (Some (MissingEntity (entity t) (tableId t key)), s)
      | Inr (Some old) \<Rightarrow> write_entity c t (spread (fromEntity (CHAIN_ID c) t old) patch) s)"

subsection \<open>Handlers\<close>

text \<open>What a handler does with its \<open>context.db\<close>: a tree of reads and writes; a rejected call
  ends it.\<close>

datatype handler =
    Done
  | Find Table entity_row "entity_row option \<Rightarrow> handler"
  | Insert Table entity_row handler
  | Upsert Table entity_row "entity_row \<Rightarrow> entity_row" handler
  | Update Table entity_row entity_row handler
  | Throw store_error

primrec run_handler :: "handler \<Rightarrow> EnvioContext \<Rightarrow> EnvioStore \<Rightarrow> store_error option \<times> EnvioStore" where
  "run_handler Done c s = (None, s)"
| "run_handler (Find t k h) c s =
     (case find_row c t k s of Inl e \<Rightarrow> (Some e, s) | Inr r \<Rightarrow> run_handler (h r) c s)"
| "run_handler (Insert t v h) c s =
     (case insert_values c t v s of (Some e, s') \<Rightarrow> (Some e, s') | (None, s') \<Rightarrow> run_handler h c s')"
| "run_handler (Upsert t v u h) c s =
     (case insert_onConflictDoUpdate c t v u s of
        (Some e, s') \<Rightarrow> (Some e, s') | (None, s') \<Rightarrow> run_handler h c s')"
| "run_handler (Update t k p h) c s =
     (case update_set c t k p s of (Some e, s') \<Rightarrow> (Some e, s') | (None, s') \<Rightarrow> run_handler h c s')"
| "run_handler (Throw e) c s = (Some e, s)"

text \<open>\<open>register\<close>: the db is created for the event, then the handler runs.\<close>

definition register :: "handler \<Rightarrow> EnvioContext \<Rightarrow> EnvioStore \<Rightarrow> store_error option \<times> EnvioStore" where
  "register h c s = run_handler h c (phase_change c s)"

subsection \<open>The two passes\<close>

lemma write_entity_preload:
  "isPreload c \<Longrightarrow> entities (snd (write_entity c t v s)) = entities s"
  by (simp add: write_entity_def Let_def split: sum.splits)

lemma insert_preload: "isPreload c \<Longrightarrow> entities (snd (insert_values c t v s)) = entities s"
  by (simp add: insert_values_def write_entity_preload)

lemma upsert_preload:
  "isPreload c \<Longrightarrow> entities (snd (insert_onConflictDoUpdate c t v u s)) = entities s"
  by (simp add: insert_onConflictDoUpdate_def Let_def write_entity_preload split: sum.splits option.splits)

lemma update_preload: "isPreload c \<Longrightarrow> entities (snd (update_set c t k p s)) = entities s"
  by (simp add: update_set_def write_entity_preload split: sum.splits option.splits)

lemma run_preload: "isPreload c \<Longrightarrow> entities (snd (run_handler h c s)) = entities s"
proof (induction h arbitrary: s)
  case (Find t k h)
  then show ?case by (auto split: sum.splits)
next
  case (Insert t v h)
  then show ?case using insert_preload [of c t v s] by (auto split: prod.splits option.splits)
next
  case (Upsert t v u h)
  then show ?case using upsert_preload [of c t v u s] by (auto split: prod.splits option.splits)
next
  case (Update t k p h)
  then show ?case using update_preload [of c t k p s] by (auto split: prod.splits option.splits)
qed simp_all

text \<open>The ordered pass neither reads nor writes the overlay: two stores with the same entities
  behave alike.\<close>

definition same_run :: "store_error option \<times> EnvioStore \<Rightarrow> store_error option \<times> EnvioStore \<Rightarrow> bool" where
  "same_run a b \<longleftrightarrow> fst a = fst b \<and> entities (snd a) = entities (snd b)"

lemma read_entity_ordered:
  "\<not> isPreload c \<Longrightarrow> entities s = entities s' \<Longrightarrow> read_entity c t i s = read_entity c t i s'"
  by (simp add: read_entity_def)

lemma write_entity_ordered:
  "\<not> isPreload c \<Longrightarrow> entities s = entities s' \<Longrightarrow> same_run (write_entity c t v s) (write_entity c t v s')"
  by (simp add: write_entity_def same_run_def Let_def split: sum.splits)

lemma insert_ordered:
  "\<not> isPreload c \<Longrightarrow> entities s = entities s' \<Longrightarrow> same_run (insert_values c t v s) (insert_values c t v s')"
  by (simp add: insert_values_def write_entity_ordered)

lemma same_run_error: "entities s = entities s' \<Longrightarrow> same_run (e, s) (e, s')"
  by (simp add: same_run_def)

lemma upsert_ordered:
  assumes "\<not> isPreload c" "entities s = entities s'"
  shows "same_run (insert_onConflictDoUpdate c t v u s) (insert_onConflictDoUpdate c t v u s')"
proof -
  have r: "read_entity c t (tableId t v) s = read_entity c t (tableId t v) s'"
    using assms by (rule read_entity_ordered)
  show ?thesis
  proof (cases "read_entity c t (tableId t v) s'")
    case (Inl e)
    then show ?thesis using assms(2) by (simp add: insert_onConflictDoUpdate_def r same_run_error)
  next
    case (Inr q)
    then show ?thesis
      by (cases q)
        (simp_all add: insert_onConflictDoUpdate_def r Let_def write_entity_ordered [OF assms])
  qed
qed

lemma update_ordered:
  assumes "\<not> isPreload c" "entities s = entities s'"
  shows "same_run (update_set c t k p s) (update_set c t k p s')"
proof -
  have r: "read_entity c t (tableId t k) s = read_entity c t (tableId t k) s'"
    using assms by (rule read_entity_ordered)
  show ?thesis
  proof (cases "read_entity c t (tableId t k) s'")
    case (Inl e)
    then show ?thesis using assms(2) by (simp add: update_set_def r same_run_error)
  next
    case (Inr q)
    then show ?thesis
      using assms(2)
      by (cases q) (simp_all add: update_set_def r same_run_error write_entity_ordered [OF assms])
  qed
qed

lemma same_run_step:
  assumes "same_run a b" "\<And>s s'. entities s = entities s' \<Longrightarrow> same_run (f s) (f s')"
  shows "same_run (case a of (Some e, s) \<Rightarrow> (Some e, s) | (None, s) \<Rightarrow> f s)
    (case b of (Some e, s) \<Rightarrow> (Some e, s) | (None, s) \<Rightarrow> f s)"
proof -
  obtain e s e' s' where ab: "a = (e, s)" "b = (e', s')" by (cases a; cases b)
  then have "e' = e" "entities s = entities s'" using assms(1) by (simp_all add: same_run_def)
  then show ?thesis
    using assms(2) [of s s'] by (cases e) (simp_all add: ab same_run_error)
qed

lemma run_ordered:
  "\<not> isPreload c \<Longrightarrow> entities s = entities s' \<Longrightarrow> same_run (run_handler h c s) (run_handler h c s')"
proof (induction h arbitrary: s s')
  case (Find t k h)
  have r: "find_row c t k s = find_row c t k s'"
    unfolding find_row_def read_entity_ordered [OF Find.prems] ..
  show ?case
  proof (cases "find_row c t k s'")
    case (Inl e)
    then show ?thesis using Find.prems by (simp add: r same_run_error)
  next
    case (Inr q)
    then show ?thesis using Find.IH [OF _ Find.prems] by (simp add: r)
  qed
next
  case (Insert t v h)
  then show ?case using insert_ordered by (auto intro!: same_run_step)
next
  case (Upsert t v u h)
  then show ?case using upsert_ordered by (auto intro!: same_run_step)
next
  case (Update t k p h)
  then show ?case using update_ordered by (auto intro!: same_run_step)
qed (simp_all add: same_run_def)

lemma phase_change_entities [simp]: "entities (phase_change c s) = entities s"
  by (simp add: phase_change_def)

text \<open>C38. The preload pass leaves no trace: whatever handlers ran in it, and whether or not they
  were rejected, the ordered run of a handler returns and stores exactly what it would have
  without it.\<close>
theorem preload_leaves_no_trace:
  assumes "isPreload p" "\<not> isPreload c"
  shows "entities (snd (register g p s)) = entities s \<and>
    same_run (register h c (snd (register g p s))) (register h c s)"
  using assms by (simp_all add: register_def run_preload run_ordered)

subsection \<open>What is written is read back\<close>

definition as_Number :: "jsval \<Rightarrow> jsval" where
  "as_Number v = (case v of JBig n \<Rightarrow> JNum (fl (of_int n)) | _ \<Rightarrow> v)"

definition as_BigInt :: "jsval \<Rightarrow> jsval" where
  "as_BigInt v = (case v of JNum x \<Rightarrow> JBig \<lfloor>x\<rfloor> | _ \<Rightarrow> v)"

lemma as_Number_idem [simp]: "as_Number (as_Number v) = as_Number v"
  by (cases v) (simp_all add: as_Number_def)

lemma as_BigInt_idem [simp]: "as_BigInt (as_BigInt v) = as_BigInt v"
  by (cases v) (simp_all add: as_BigInt_def)

lemma get_to_Number:
  "js_get (to_Number f r) g = (if g = f then map_option as_Number (js_get r g) else js_get r g)"
  by (auto simp: to_Number_def as_Number_def split: option.splits jsval.splits)

lemma get_to_Numbers:
  "js_get (fold to_Number fs r) g = (if g \<in> set fs then map_option as_Number (js_get r g) else js_get r g)"
  by (induction fs arbitrary: r) (auto simp: get_to_Number option.map_comp comp_def)

lemma get_to_BigInt:
  "to_BigInt f r = Inr r' \<Longrightarrow>
   js_get r' g = (if g = f then map_option as_BigInt (js_get r g) else js_get r g)"
  by (auto simp: to_BigInt_def as_BigInt_def split: option.splits jsval.splits if_splits)

lemma get_to_BigInts:
  "to_BigInts fs r = Inr r' \<Longrightarrow>
   js_get r' g = (if g \<in> set fs then map_option as_BigInt (js_get r g) else js_get r g)"
proof (induction fs arbitrary: r)
  case (Cons f fs)
  then obtain q where q: "to_BigInt f r = Inr q" "to_BigInts fs q = Inr r'"
    by (auto split: sum.splits)
  show ?case
    using Cons.IH [OF q(2)] get_to_BigInt [OF q(1), of g] by (auto simp: option.map_comp comp_def)
qed simp

lemma toEntity_get:
  assumes "toEntity t v = Inr e" "f \<noteq> ''id''"
  shows "js_get e f = (if f = ''chainId'' then None
    else map_option ((if f \<in> set (bigintNumbers t) then as_BigInt else id) \<circ>
      (if f \<in> set (NUMBER_FIELDS @ intNumbers t) then as_Number else id)) (js_get v f))"
  using assms by (auto simp: toEntity_def Let_def get_to_BigInts get_to_Numbers option.map_comp option.map_id
      simp del: fold_append fold_simps split: if_splits)

lemma toEntity_id: "toEntity t v = Inr e \<Longrightarrow> js_get e ''id'' = Some (JStr (tableId t v))"
  by (simp add: toEntity_def Let_def get_to_BigInts get_to_Numbers as_Number_def as_BigInt_def
      del: fold_append fold_simps)

lemma fromEntity_get:
  assumes "f \<noteq> ''chainId''"
  shows "js_get (fromEntity n t e) f =
    (if f \<in> set (bigintNumbers t) then map_option as_Number (js_get e f) else js_get e f)"
  using assms by (simp add: fromEntity_def get_to_Numbers)

lemma find_after_insert:
  assumes "\<not> isPreload c" "declared c (entity t)" "toEntity t v = Inr e" "tableId t k = tableId t v"
  shows "insert_values c t v s = (None, s\<lparr>entities := js_set (entity t, tableId t v) e (entities s)\<rparr>)"
    and "find_row c t k (snd (insert_values c t v s)) = Inr (Some (fromEntity (CHAIN_ID c) t e))"
  using assms toEntity_id [OF assms(3)]
  by (simp_all add: insert_values_def write_entity_def Let_def find_row_def read_entity_def field_def)

text \<open>A counter column comes back as the number that was written as long as it is at most
  \<open>2^53\<close> in size, whether it was written as a number or as a bigint; a bigint column that is not a
  counter comes back exactly, whatever its size.\<close>
theorem columns_read_back:
  assumes "\<not> isPreload c" "declared c (entity t)" "tableId t k = tableId t v"
    and "toEntity t v = Inr e" "js_get v f = Some w" "f \<noteq> ''id''" "f \<noteq> ''chainId''"
    and "f \<notin> set (NUMBER_FIELDS @ intNumbers t)"
    and "if f \<in> set (bigintNumbers t) then w \<in> {JBig n, JNum (of_int n)} \<and> \<bar>n\<bar> \<le> 2 ^ 53 else w = JBig n"
  shows "\<exists>row. find_row c t k (snd (insert_values c t v s)) = Inr (Some row) \<and>
    field row f = (if f \<in> set (bigintNumbers t) then JNum (of_int n) else JBig n)"
proof -
  have "js_get (fromEntity (CHAIN_ID c) t e) f =
      Some (if f \<in> set (bigintNumbers t) then JNum (of_int n) else JBig n)"
    using assms(5-9) toEntity_get [OF assms(4,6)] fl_of_int [of n]
    by (auto simp: fromEntity_get as_Number_def as_BigInt_def split: if_splits)
  then show ?thesis
    using find_after_insert(2) [OF assms(1,2,4,3)] by (simp add: field_def)
qed

text \<open>Above \<open>2^53\<close> the counter is rounded: an order id of \<open>2^53 + 1\<close> is read back as
  \<open>2^53\<close>.\<close>
theorem counter_rounds_above_2_53: "as_Number (JBig (2 ^ 53 + 1)) = JNum (2 ^ 53)"
  by (simp add: as_Number_def) code_simp

text \<open>No two tables share an entity, so a write to one never lands in another.\<close>
lemma entities_distinct: "distinct (map entity (EVENT_TABLES @ STATE_TABLES))"
  by code_simp

subsection \<open>Witnesses\<close>

definition sampleTable :: Table where
  "sampleTable = table ''Wallet'' (by_field ''address'') [''eventCount''] []"

definition sampleRow :: entity_row where
  "sampleRow = [(''chainId'', JNum 1), (''address'', JStr ''0xa''), (''eventCount'', JNum 7)]"

definition sampleContext :: "bool \<Rightarrow> EnvioContext" where
  "sampleContext p = \<lparr>isPreload = p, chain_id = 1, CHAIN_ID = 1, declared = (\<lambda>_. True)\<rparr>"

definition sampleStore :: EnvioStore where
  "sampleStore = \<lparr>entities = js_empty, preloadOverlay = js_empty, preloadActive = False\<rparr>"

theorem preload_leaves_no_trace_witness:
  "entities (snd (register (Insert sampleTable sampleRow Done) (sampleContext True) sampleStore)) = js_empty \<and>
   same_run
     (register (Insert sampleTable sampleRow Done) (sampleContext False)
       (snd (register (Insert sampleTable sampleRow Done) (sampleContext True) sampleStore)))
     (register (Insert sampleTable sampleRow Done) (sampleContext False) sampleStore)"
  using preload_leaves_no_trace [of "sampleContext True" "sampleContext False"
      "Insert sampleTable sampleRow Done" sampleStore "Insert sampleTable sampleRow Done"]
  by (simp add: sampleContext_def sampleStore_def)

theorem columns_read_back_witness:
  "\<exists>row. find_row (sampleContext False) sampleTable sampleRow
       (snd (insert_values (sampleContext False) sampleTable sampleRow sampleStore)) = Inr (Some row) \<and>
     field row ''eventCount'' = JNum 7"
proof -
  have e: "toEntity sampleTable sampleRow =
      Inr [(''address'', JStr ''0xa''), (''eventCount'', JBig 7), (''id'', JStr ''0xa'')]"
    by code_simp
  have "''eventCount'' \<notin> set (NUMBER_FIELDS @ intNumbers sampleTable)"
    "js_get sampleRow ''eventCount'' = Some (JNum 7)"
    by code_simp+
  then show ?thesis
    using columns_read_back [OF _ _ _ e, of "sampleContext False" sampleRow "''eventCount''" "JNum 7" 7 sampleStore]
    by (simp add: sampleContext_def sampleTable_def table_def)
qed

end
