(* ===== verification/Indexer.thy ===== *)
theory Indexer
  imports EnvioStore Report
begin

text \<open>
  What the indexer's handlers share: event keys (events.ts), GPU ids (format.ts), the entity tables
  with typed rows, and the user-event projection with its registry of wallets
  (projections/user-event.ts, handlers/user-event.ts). A column the handlers compute with is an
  \<open>int\<close>, whether the source holds it as a bigint or as an integral number: \<open>columns_read_back\<close>
  says when the two agree.
\<close>

subsection \<open>Events\<close>

record EventMeta =
  block_number :: int
  block_timestamp :: int
  log_index :: int
  log_address :: string
  transaction_hash :: string

record EventKeys =
  chainId :: int
  blockNumber :: int
  logIndex :: int
  blockTimestamp :: int

definition eventKeys :: "EventMeta \<Rightarrow> int \<Rightarrow> EventKeys" where
  "eventKeys event chain =
     \<lparr>chainId = chain, blockNumber = block_number event, logIndex = log_index event,
      blockTimestamp = block_timestamp event\<rparr>"

definition eventTxHash :: "EventMeta \<Rightarrow> string" where
  "eventTxHash event = transaction_hash event"

definition lowerAddr :: "string \<Rightarrow> string" where
  "lowerAddr v = toLowerCase v"

text \<open>\<open>/^0x/i\<close>\<close>

definition hex_prefix :: "string \<Rightarrow> bool" where
  "hex_prefix s \<longleftrightarrow> take 2 s \<in> {''0x'', ''0X''}"

fun eventToData :: "jsval \<Rightarrow> jsval" where
  "eventToData (JBig n) = JStr (int_text n)"
| "eventToData (JStr s) = JStr (if hex_prefix s then toLowerCase s else s)"
| "eventToData (JArr vs) = JArr (map eventToData vs)"
| "eventToData (JObj fs) = JObj (map (\<lambda>(k, v). (k, eventToData v)) fs)"
| "eventToData v = v"

subsection \<open>GPU ids\<close>

text \<open>The characters are code units: \<open>String.fromCharCode\<close> takes its argument modulo \<open>2^16\<close>, and
  \<open>NaN\<close> as 0, after the test \<open>byte === 0\<close> that \<open>NaN\<close> fails.\<close>

fun sku_units :: "string \<Rightarrow> int list" where
  "sku_units (a # b # hex) =
     (case parseInt16 [a, b] of
        None \<Rightarrow> 0 # sku_units hex
      | Some byte \<Rightarrow> if byte = 0 then [] else byte mod 65536 # sku_units hex)"
| "sku_units _ = []"

definition decodeSku :: "string \<Rightarrow> int list" where \<comment> \<open>\<open>decodeGpuId\<close> of format.ts\<close>
  "decodeSku gpuId = sku_units (if take 2 gpuId = ''0x'' then drop 2 gpuId else gpuId)"

subsection \<open>Entity tables\<close>

datatype index_error =
    MissingRow string string              \<comment> \<open>\<open>update\<close> of a row that is not there\<close>
  | NotIndexed string                     \<comment> \<open>an event name outside the closed set\<close>
  | Underflow string string int int       \<comment> \<open>a balance below zero\<close>
  | Untracked string string               \<comment> \<open>the event, and the pool, GPU or token without a row\<close>
  | OrderingUnknown string                \<comment> \<open>a swap on a pool whose currency order is not known\<close>
  | NoAddressOf string                    \<comment> \<open>a contract without an address in the configuration\<close>

type_synonym 'r entity_table = "(string, 'r) js_map"

definition insertRow :: "('r \<Rightarrow> string) \<Rightarrow> 'r \<Rightarrow> 'r entity_table \<Rightarrow> 'r entity_table" where
  "insertRow key v t = js_set (key v) v t"

definition upsertRow :: "('r \<Rightarrow> string) \<Rightarrow> 'r \<Rightarrow> ('r \<Rightarrow> 'r) \<Rightarrow> 'r entity_table \<Rightarrow> 'r entity_table" where
  "upsertRow key v upd t =
     (case js_get t (key v) of None \<Rightarrow> js_set (key v) v t | Some old \<Rightarrow> js_set (key v) (upd old) t)"

definition updateRow :: "string \<Rightarrow> string \<Rightarrow> ('r \<Rightarrow> 'r) \<Rightarrow> 'r entity_table \<Rightarrow> index_error + 'r entity_table" where
  "updateRow ent i upd t =
     (case js_get t i of None \<Rightarrow> Inl (MissingRow ent i) | Some old \<Rightarrow> Inr (js_set i (upd old) t))"

definition andThen :: "('e + 'a) \<Rightarrow> ('a \<Rightarrow> 'e + 'b) \<Rightarrow> 'e + 'b" where
  "andThen x f = (case x of Inl e \<Rightarrow> Inl e | Inr a \<Rightarrow> f a)"

definition event_key :: "EventKeys \<Rightarrow> string" where
  "event_key k = int_text (blockNumber k) @ ''_'' @ int_text (logIndex k)"

text \<open>A row of a log table: the keys of the event and the columns taken from its arguments.\<close>

type_synonym 'a logged = "EventKeys \<times> 'a"

definition logRow :: "EventKeys \<Rightarrow> 'a \<Rightarrow> 'a logged entity_table \<Rightarrow> 'a logged entity_table" where
  "logRow k a t = insertRow (\<lambda>r. event_key (fst r)) (k, a) t"

subsection \<open>User events\<close>

definition INDEXED_EVENT_NAMES :: "string list" where
  "INDEXED_EVENT_NAMES = [''Minted'', ''Redeemed'', ''Issued'', ''Buy'', ''Sell'', ''Deposit'', ''Withdraw'',
     ''PerpOrderCreated'', ''PerpOrderExecuted'', ''PerpClaimed'']"

definition isIndexedEventName :: "string \<Rightarrow> bool" where
  "isIndexedEventName name \<longleftrightarrow> name \<in> set INDEXED_EVENT_NAMES"

record UserEventInput =
  in_keys :: EventKeys
  in_contract :: string
  in_event :: string
  in_user :: string
  in_args :: "(string \<times> jsval) list"
  in_txHash :: string

record UserEventRow =
  ue_keys :: EventKeys
  ue_contract :: string
  ue_event :: string
  ue_user :: string
  ue_txHash :: string
  ue_data :: jsval

record WalletRow =
  w_address :: string
  firstSeenBlockNumber :: int
  lastSeenBlockNumber :: int
  eventCount :: int

record UserDb =
  userEvents :: "UserEventRow entity_table"
  wallets :: "WalletRow entity_table"

definition projectUserEvent :: "UserEventInput \<Rightarrow> index_error + UserEventRow" where
  "projectUserEvent i =
     (if \<not> isIndexedEventName (in_event i) then Inl (NotIndexed (in_event i))
      else Inr \<lparr>ue_keys = in_keys i, ue_contract = toLowerCase (in_contract i), ue_event = in_event i,
             ue_user = toLowerCase (in_user i), ue_txHash = toLowerCase (in_txHash i),
             ue_data = eventToData (JObj (in_args i))\<rparr>)"

definition stampWallet :: "UserEventRow \<Rightarrow> WalletRow entity_table \<Rightarrow> WalletRow entity_table" where
  "stampWallet row t =
     (let n = blockNumber (ue_keys row); wallet = js_get t (ue_user row);
          first = (case wallet of None \<Rightarrow> n | Some w \<Rightarrow> min (firstSeenBlockNumber w) n);
          last = (case wallet of None \<Rightarrow> n | Some w \<Rightarrow> max (lastSeenBlockNumber w) n);
          count = (case wallet of None \<Rightarrow> 1 | Some w \<Rightarrow> eventCount w + 1)
      in upsertRow w_address
           \<lparr>w_address = ue_user row, firstSeenBlockNumber = first, lastSeenBlockNumber = last,
            eventCount = count\<rparr>
           (\<lambda>w. w\<lparr>firstSeenBlockNumber := first, lastSeenBlockNumber := last, eventCount := count\<rparr>) t)"

definition recordUserEvent :: "UserEventInput \<Rightarrow> 'a UserDb_scheme \<Rightarrow> index_error + 'a UserDb_scheme" where
  "recordUserEvent i db =
     (case projectUserEvent i of
        Inl e \<Rightarrow> Inl e
      | Inr row \<Rightarrow>
          Inr (db\<lparr>userEvents := insertRow (\<lambda>r. event_key (ue_keys r)) row (userEvents db),
                  wallets := stampWallet row (wallets db)\<rparr>))"

text \<open>The call every handler makes: the emitting contract and the hash are the event's.\<close>

definition userEventOf ::
  "EventMeta \<Rightarrow> int \<Rightarrow> string \<Rightarrow> string \<Rightarrow> (string \<times> jsval) list \<Rightarrow> UserEventInput" where
  "userEventOf event chain name user args =
     \<lparr>in_keys = eventKeys event chain, in_contract = log_address event, in_event = name, in_user = user,
      in_args = args, in_txHash = eventTxHash event\<rparr>"

subsection \<open>Facts on tables\<close>

lemma andThen_Inr [simp]: "andThen (Inr a) f = f a"
  by (simp add: andThen_def)

lemma andThen_Inl [simp]: "andThen (Inl e) f = Inl e"
  by (simp add: andThen_def)

lemma andThen_eq_Inr: "andThen x f = Inr b \<longleftrightarrow> (\<exists>a. x = Inr a \<and> f a = Inr b)"
  by (cases x) simp_all

lemma values_js_set_fresh: "js_get m k = None \<Longrightarrow> js_values (js_set k v m) = js_values m @ [v]"
  unfolding js_get_def js_set_def js_values_def by (induction m) (auto split: if_splits)

lemma get_insertRow: "js_get (insertRow key v t) k = (if k = key v then Some v else js_get t k)"
  by (simp add: insertRow_def)

lemma get_upsertRow:
  "js_get (upsertRow key v upd t) k =
     (if k = key v then Some (case js_get t k of None \<Rightarrow> v | Some old \<Rightarrow> upd old) else js_get t k)"
  by (auto simp: upsertRow_def split: option.splits)

lemma updateRow_Inr:
  "updateRow ent i upd t = Inr t' \<longleftrightarrow> (\<exists>old. js_get t i = Some old \<and> t' = js_set i (upd old) t)"
  by (auto simp: updateRow_def split: option.splits)

text \<open>The sum of a column over a table.\<close>

definition total :: "('r \<Rightarrow> int) \<Rightarrow> 'r entity_table \<Rightarrow> int" where
  "total f t = (\<Sum>r \<leftarrow> js_values t. f r)"

lemma total_empty [simp]: "total f js_empty = 0"
  by (simp add: total_def js_values_def js_empty_def)

lemma total_js_set:
  "total f (js_set k v t) = total f t + f v - (case js_get t k of None \<Rightarrow> 0 | Some old \<Rightarrow> f old)"
  unfolding total_def js_values_def js_set_def js_get_def by (induction t) auto

lemma total_upsertRow:
  "total f (upsertRow key v upd t) =
     total f t + (case js_get t (key v) of None \<Rightarrow> f v | Some old \<Rightarrow> f (upd old) - f old)"
  by (simp add: upsertRow_def total_js_set split: option.splits)

lemma total_updateRow:
  "updateRow ent i upd t = Inr t' \<Longrightarrow>
   total f t' = total f t + (case js_get t i of None \<Rightarrow> 0 | Some old \<Rightarrow> f (upd old) - f old)"
  by (auto simp: updateRow_Inr total_js_set)

text \<open>Every row stands under its own id.\<close>

definition keyed :: "('r \<Rightarrow> string) \<Rightarrow> 'r entity_table \<Rightarrow> bool" where
  "keyed key t \<longleftrightarrow> (\<forall>k r. js_get t k = Some r \<longrightarrow> key r = k)"

lemma keyed_empty [simp]: "keyed key js_empty"
  by (simp add: keyed_def)

lemma keyed_insertRow: "keyed key t \<Longrightarrow> keyed key (insertRow key v t)"
  by (simp add: keyed_def get_insertRow)

lemma keyed_upsertRow:
  "keyed key t \<Longrightarrow> (\<And>r. key (upd r) = key r) \<Longrightarrow> keyed key (upsertRow key v upd t)"
  by (auto simp: keyed_def get_upsertRow split: option.splits)

subsection \<open>Event keys\<close>

lemma int_text_plain: "c \<in> set (int_text n) \<Longrightarrow> c \<noteq> CHR ''_''"
proof -
  assume c: "c \<in> set (int_text n)"
  have u: "\<not> is_digit CHR ''_''" by (simp add: is_digit_def)
  have "is_digit c \<or> c = CHR ''-''"
    using c nat_text_digits [of n c] nat_text_digits [of "- n" c] by (auto simp: int_text_def split: if_splits)
  then show ?thesis using u by auto
qed

lemma append_sep_inj:
  "x \<notin> set a \<Longrightarrow> x \<notin> set b \<Longrightarrow> a @ x # c = b @ x # d \<longleftrightarrow> a = b \<and> c = d"
proof (induction a arbitrary: b)
  case Nil
  then show ?case by (cases b) auto
next
  case (Cons y a)
  then show ?case by (cases b) auto
qed

lemma event_key_eq:
  "event_key j = event_key k \<longleftrightarrow> blockNumber j = blockNumber k \<and> logIndex j = logIndex k"
  using append_sep_inj [of "CHR ''_''" "int_text (blockNumber j)" "int_text (blockNumber k)"
      "int_text (logIndex j)" "int_text (logIndex k)"] int_text_plain
  by (auto simp: event_key_def int_text_inj)

subsection \<open>GPU ids\<close>

lemma sku_units_bytes:
  assumes "\<forall>b \<in> set bs. 0 < b \<and> b < 256"
  shows "sku_units (concat (map hex_byte (bs @ replicate n 0))) = bs"
  using assms
proof (induction bs)
  case Nil
  have "parseInt16 (hex_byte 0) = Some 0" by (rule parseInt16_hex_byte) simp_all
  then show ?case by (cases n) (simp_all add: hex_byte_def)
next
  case (Cons b bs)
  then have "parseInt16 (hex_byte b) = Some b" by (intro parseInt16_hex_byte) auto
  then show ?case using Cons by (simp add: hex_byte_def)
qed

text \<open>The indexer decodes what the attestor encodes: the SKU it reads from an on-chain GPU id is
  the SKU the id was made from, with no decoder of the attestor's in between.\<close>
theorem indexer_decodes_attestor_ids:
  assumes "encodeGpuId sku = Inr h"
  shows "decodeSku h = map char_code sku"
proof -
  have b: "0 < b \<and> b < 256" if "b \<in> set (map char_code sku)" for b
    using that assms char_code_range by (auto simp: encodeGpuId_Inr printable_def)
  then show ?thesis
    using assms sku_units_bytes [of "map char_code sku"] by (auto simp: encodeGpuId_Inr decodeSku_def)
qed

theorem indexer_decodes_attestor_ids_witness:
  "\<exists>h. encodeGpuId ''H100'' = Inr h \<and> decodeSku h = [72, 49, 48, 48]"
proof -
  have e: "\<exists>h. encodeGpuId ''H100'' = Inr h"
    by (simp add: encodeGpuId_Inr printable_def char_code_def)
  then obtain h where h: "encodeGpuId ''H100'' = Inr h" ..
  show ?thesis
    using h indexer_decodes_attestor_ids [OF h] by (simp add: char_code_def)
qed

subsection \<open>The registry of wallets\<close>

definition rows_of :: "string \<Rightarrow> 'a UserDb_scheme \<Rightarrow> UserEventRow list" where
  "rows_of u db = filter (\<lambda>r. ue_user r = u) (js_values (userEvents db))"

text \<open>The reference: a wallet recomputed from the rows of the user-event table.\<close>

definition summary :: "string \<Rightarrow> UserEventRow list \<Rightarrow> WalletRow option" where
  "summary u rows =
     (if rows = [] then None
      else Some \<lparr>w_address = u,
        firstSeenBlockNumber = Min (set (map (\<lambda>r. blockNumber (ue_keys r)) rows)),
        lastSeenBlockNumber = Max (set (map (\<lambda>r. blockNumber (ue_keys r)) rows)),
        eventCount = int (length rows)\<rparr>)"

definition registry_ok :: "'a UserDb_scheme \<Rightarrow> bool" where
  "registry_ok db \<longleftrightarrow> (\<forall>u. js_get (wallets db) u = summary u (rows_of u db))"

lemma recordUserEvent_Inr:
  assumes "recordUserEvent i db = Inr db'"
  obtains row where "projectUserEvent i = Inr row" "ue_keys row = in_keys i"
    "db' = db\<lparr>userEvents := insertRow (\<lambda>r. event_key (ue_keys r)) row (userEvents db),
              wallets := stampWallet row (wallets db)\<rparr>"
proof -
  obtain row where p: "projectUserEvent i = Inr row"
    using assms by (auto simp: recordUserEvent_def split: sum.splits)
  then have "ue_keys row = in_keys i" by (auto simp: projectUserEvent_def split: if_splits)
  then show thesis using that [OF p] assms p by (simp add: recordUserEvent_def)
qed

lemma recordUserEvent_closed:
  "isIndexedEventName (in_event i) \<Longrightarrow> \<exists>db'. recordUserEvent i db = Inr db'"
  by (simp add: recordUserEvent_def projectUserEvent_def)

lemma stampWallet_get:
  assumes "js_get t (ue_user row) = summary (ue_user row) rows"
  shows "js_get (stampWallet row t) u =
    (if u = ue_user row then summary u (rows @ [row]) else js_get t u)"
proof (cases "rows = []")
  case True
  then show ?thesis
    using assms by (auto simp: stampWallet_def Let_def get_upsertRow summary_def)
next
  case False
  then show ?thesis
    using assms
    by (auto simp: stampWallet_def Let_def get_upsertRow summary_def Min_insert2 max.commute min.commute)
qed

lemma recordUserEvent_registry:
  assumes "registry_ok db" "recordUserEvent i db = Inr db'" "js_get (userEvents db) (event_key (in_keys i)) = None"
  shows "registry_ok db'"
proof -
  obtain row where row: "ue_keys row = in_keys i"
    and db': "db' = db\<lparr>userEvents := insertRow (\<lambda>r. event_key (ue_keys r)) row (userEvents db),
              wallets := stampWallet row (wallets db)\<rparr>"
    using recordUserEvent_Inr [OF assms(2)] by metis
  have rows: "rows_of u db' = rows_of u db @ (if ue_user row = u then [row] else [])" for u
    using assms(3) row by (simp add: rows_of_def db' insertRow_def values_js_set_fresh)
  have "js_get (wallets db') u = summary u (rows_of u db')" for u
    using stampWallet_get [of "wallets db" row "rows_of (ue_user row) db" u] assms(1) rows [of u]
    by (auto simp: registry_ok_def db')
  then show ?thesis by (simp add: registry_ok_def)
qed

fun recordAll :: "UserEventInput list \<Rightarrow> 'a UserDb_scheme \<Rightarrow> index_error + 'a UserDb_scheme" where
  "recordAll [] db = Inr db"
| "recordAll (i # is) db = andThen (recordUserEvent i db) (recordAll is)"

end
