(* ===== verification/CostBasis.thy ===== *)
theory CostBasis
  imports Indexer
begin

text \<open>
  apps/indexer/src/projections/cost-basis.ts and balances.ts: the weighted average cost of a wallet's
  GPUs and of its vault shares, and the legs of a transfer. BigInt division truncates; the amounts on
  chain are unsigned.
\<close>

subsection \<open>Cost basis\<close>

datatype BasisState = complete | partial

record BasisSnapshot =
  qtyGpu :: int
  costGusd :: int
  realizedPnlGusd :: int
  basisState :: BasisState
  acquisitions :: int
  disposals :: int

definition emptyBasis :: BasisSnapshot where
  "emptyBasis = \<lparr>qtyGpu = 0, costGusd = 0, realizedPnlGusd = 0, basisState = complete,
     acquisitions = 0, disposals = 0\<rparr>"

definition big_div :: "int \<Rightarrow> int \<Rightarrow> int" where \<comment> \<open>bigint division\<close>
  "big_div a b = sgn a * sgn b * (\<bar>a\<bar> div \<bar>b\<bar>)"

definition mulDivFloor :: "int \<Rightarrow> int \<Rightarrow> int \<Rightarrow> int" where
  "mulDivFloor a b denom = (if denom = 0 then 0 else big_div (a * b) denom)"

definition acquireBasis :: "BasisSnapshot \<Rightarrow> int \<Rightarrow> int \<Rightarrow> BasisSnapshot" where
  "acquireBasis b qty cost =
     b\<lparr>qtyGpu := qtyGpu b + qty, costGusd := costGusd b + cost, acquisitions := acquisitions b + 1\<rparr>"

definition disposeBasis :: "BasisSnapshot \<Rightarrow> int \<Rightarrow> int \<Rightarrow> BasisSnapshot" where
  "disposeBasis b qty proceeds =
     (if basisState b \<noteq> complete \<or> qtyGpu b = 0 then b\<lparr>disposals := disposals b + 1\<rparr>
      else let out = (if qty \<ge> qtyGpu b then qtyGpu b else qty);
               attributed = mulDivFloor (costGusd b) out (qtyGpu b)
           in b\<lparr>qtyGpu := qtyGpu b - out, costGusd := costGusd b - attributed,
                realizedPnlGusd := realizedPnlGusd b + proceeds - attributed, disposals := disposals b + 1\<rparr>)"

definition demoteBasis :: "BasisSnapshot \<Rightarrow> BasisSnapshot" where
  "demoteBasis b = b\<lparr>basisState := partial\<rparr>"

subsection \<open>Vault positions\<close>

record VaultSnapshot =
  shares :: int
  assetsCost :: int
  vaultPnlGusd :: int \<comment> \<open>\<open>realizedPnlGusd\<close>\<close>
  vaultState :: BasisState \<comment> \<open>\<open>basisState\<close>\<close>
  deposits :: int
  withdraws :: int

definition emptyVault :: VaultSnapshot where
  "emptyVault = \<lparr>shares = 0, assetsCost = 0, vaultPnlGusd = 0, vaultState = complete,
     deposits = 0, withdraws = 0\<rparr>"

definition depositVault :: "VaultSnapshot \<Rightarrow> int \<Rightarrow> int \<Rightarrow> VaultSnapshot" where
  "depositVault v assets new =
     v\<lparr>shares := shares v + new, assetsCost := assetsCost v + assets, deposits := deposits v + 1\<rparr>"

definition withdrawVault :: "VaultSnapshot \<Rightarrow> int \<Rightarrow> int \<Rightarrow> VaultSnapshot" where
  "withdrawVault v assetsOut burned =
     (if vaultState v \<noteq> complete \<or> shares v = 0
      then v\<lparr>shares := (if shares v \<ge> burned then shares v - burned else 0), withdraws := withdraws v + 1\<rparr>
      else let out = (if burned \<ge> shares v then shares v else burned);
               costBurned = mulDivFloor (assetsCost v) out (shares v)
           in v\<lparr>shares := shares v - out, assetsCost := assetsCost v - costBurned,
                vaultPnlGusd := vaultPnlGusd v + assetsOut - costBurned, withdraws := withdraws v + 1\<rparr>)"

definition demoteVault :: "VaultSnapshot \<Rightarrow> VaultSnapshot" where
  "demoteVault v = v\<lparr>vaultState := partial\<rparr>"

subsection \<open>Transfer legs\<close>

definition ZERO_ADDRESS :: string where
  "ZERO_ADDRESS = ''0x0000000000000000000000000000000000000000''"

definition balanceChanges :: "string \<Rightarrow> string \<Rightarrow> int \<Rightarrow> (string \<times> int) list" where
  "balanceChanges sender receiver value =
     (let isMint = (toLowerCase sender = ZERO_ADDRESS); isBurn = (toLowerCase receiver = ZERO_ADDRESS)
      in if isMint \<and> isBurn then []
         else if isMint then [(receiver, value)]
         else if isBurn then [(sender, - value)]
         else [(sender, - value), (receiver, value)])"

subsection \<open>Average cost\<close>

lemma mulDivFloor_nonneg:
  "0 \<le> a \<Longrightarrow> 0 \<le> b \<Longrightarrow> 0 < d \<Longrightarrow> mulDivFloor a b d = (a * b) div d"
  by (auto simp: mulDivFloor_def big_div_def sgn_if zero_le_mult_iff abs_mult)

lemma mulDivFloor_bounds:
  assumes "0 \<le> a" "0 \<le> b" "b \<le> d" "0 < d"
  shows "0 \<le> mulDivFloor a b d" "mulDivFloor a b d \<le> a"
proof -
  have "a * b \<le> a * d" using assms by (simp add: mult_left_mono)
  then have "(a * b) div d \<le> (a * d) div d" using assms(4) by (rule zdiv_mono1)
  then show "mulDivFloor a b d \<le> a" "0 \<le> mulDivFloor a b d"
    using assms by (simp_all add: mulDivFloor_nonneg pos_imp_zdiv_nonneg_iff)
qed

lemma mulDivFloor_all: "0 \<le> a \<Longrightarrow> 0 < d \<Longrightarrow> mulDivFloor a d d = a"
  by (simp add: mulDivFloor_nonneg)

text \<open>The steps a wallet takes with one GPU.\<close>

datatype basis_step = Acquire int int | Dispose int int | Demote

fun basisStep :: "basis_step \<Rightarrow> BasisSnapshot \<Rightarrow> BasisSnapshot" where
  "basisStep (Acquire q c) b = acquireBasis b q c"
| "basisStep (Dispose q p) b = disposeBasis b q p"
| "basisStep Demote b = demoteBasis b"

definition step_ok :: "basis_step \<Rightarrow> bool" where
  "step_ok s = (case s of Acquire q c \<Rightarrow> 0 \<le> q \<and> 0 \<le> c | Dispose q p \<Rightarrow> 0 \<le> q \<and> 0 \<le> p | Demote \<Rightarrow> True)"

definition basis_ok :: "BasisSnapshot \<Rightarrow> bool" where
  "basis_ok b \<longleftrightarrow> 0 \<le> qtyGpu b \<and> 0 \<le> costGusd b"

lemma basis_ok_step:
  assumes "basis_ok b" "step_ok s"
  shows "basis_ok (basisStep s b)"
proof (cases s)
  case (Dispose q p)
  show ?thesis
  proof (cases "basisState b \<noteq> complete \<or> qtyGpu b = 0")
    case True
    then show ?thesis using assms(1) Dispose by (simp add: disposeBasis_def basis_ok_def)
  next
    case False
    then have "0 < qtyGpu b" "0 \<le> costGusd b" "0 \<le> q"
      using assms Dispose by (auto simp: basis_ok_def step_ok_def)
    then show ?thesis
      using False Dispose mulDivFloor_bounds(2) [of "costGusd b" "min q (qtyGpu b)" "qtyGpu b"]
        mulDivFloor_bounds(2) [of "costGusd b" "qtyGpu b" "qtyGpu b"]
      by (auto simp: disposeBasis_def basis_ok_def Let_def min_def split: if_splits)
  qed
qed (use assms in \<open>auto simp: basis_ok_def step_ok_def acquireBasis_def demoteBasis_def\<close>)

text \<open>Quantity and cost of a basis never go below zero, whatever a wallet buys, sells, oversells or
  transfers, and its completeness is lost for good at the first transfer.\<close>
theorem basis_nonneg_and_monotone:
  assumes "basis_ok b" "list_all step_ok ss"
  shows "basis_ok (fold basisStep ss b) \<and>
    (basisState (fold basisStep ss b) = complete \<longleftrightarrow> basisState b = complete \<and> Demote \<notin> set ss)"
  using assms
proof (induction ss arbitrary: b)
  case (Cons s ss)
  have "basisState (basisStep s b) = complete \<longleftrightarrow> basisState b = complete \<and> s \<noteq> Demote"
    by (cases s) (auto simp: acquireBasis_def disposeBasis_def demoteBasis_def Let_def)
  then show ?case
    using Cons basis_ok_step [of b s] by auto
qed simp

text \<open>The proceeds of the disposals that find something to dispose of.\<close>

fun booked :: "basis_step list \<Rightarrow> BasisSnapshot \<Rightarrow> int" where
  "booked [] b = 0"
| "booked (s # ss) b =
     (case s of Dispose q p \<Rightarrow> (if basisState b = complete \<and> qtyGpu b \<noteq> 0 then p else 0) | _ \<Rightarrow> 0)
     + booked ss (basisStep s b)"

definition paid_in :: "basis_step list \<Rightarrow> int" where
  "paid_in ss = (\<Sum>s \<leftarrow> ss. case s of Acquire q c \<Rightarrow> c | _ \<Rightarrow> 0)"

lemma basis_identity_step:
  "realizedPnlGusd (basisStep s b) - costGusd (basisStep s b) =
   realizedPnlGusd b - costGusd b - (case s of Acquire q c \<Rightarrow> c | _ \<Rightarrow> 0) +
   (case s of Dispose q p \<Rightarrow> (if basisState b = complete \<and> qtyGpu b \<noteq> 0 then p else 0) | _ \<Rightarrow> 0)"
  by (cases s) (auto simp: acquireBasis_def disposeBasis_def demoteBasis_def Let_def)

text \<open>Units never come free of cost bookkeeping: a cost is paid for a quantity.\<close>

definition dust_free :: "basis_step \<Rightarrow> bool" where
  "dust_free s = (case s of Acquire q c \<Rightarrow> 0 < q \<or> c = 0 | _ \<Rightarrow> True)"

definition cost_carried :: "BasisSnapshot \<Rightarrow> bool" where
  "cost_carried b \<longleftrightarrow> basis_ok b \<and> (qtyGpu b = 0 \<longrightarrow> costGusd b = 0)"

lemma cost_carried_step:
  assumes "cost_carried b" "step_ok s" "dust_free s"
  shows "cost_carried (basisStep s b)"
proof -
  have ok: "basis_ok (basisStep s b)" using basis_ok_step assms by (simp add: cost_carried_def)
  have "qtyGpu (basisStep s b) = 0 \<longrightarrow> costGusd (basisStep s b) = 0"
    using assms mulDivFloor_all [of "costGusd b" "qtyGpu b"]
    by (cases s) (auto simp: acquireBasis_def disposeBasis_def demoteBasis_def Let_def cost_carried_def
        basis_ok_def step_ok_def dust_free_def)
  then show ?thesis using ok by (simp add: cost_carried_def)
qed

text \<open>C17. No gUSD is made or lost by the rounding: at every moment the realized profit is the booked
  proceeds less the cost paid in, plus the cost still carried; and a wallet whose whole quantity is
  disposed of carries no cost any more, so that its profit is proceeds less cost.\<close>
theorem profit_is_proceeds_less_cost:
  assumes "list_all step_ok ss" "list_all dust_free ss" "b = fold basisStep ss emptyBasis"
  shows "realizedPnlGusd b = booked ss emptyBasis - paid_in ss + costGusd b \<and>
    (qtyGpu b = 0 \<longrightarrow> costGusd b = 0)"
proof -
  have "realizedPnlGusd (fold basisStep ss x) - costGusd (fold basisStep ss x) =
      realizedPnlGusd x - costGusd x + booked ss x - paid_in ss" for x
  proof (induction ss arbitrary: x)
    case (Cons s ss)
    show ?case using Cons [of "basisStep s x"] basis_identity_step [of s x] by (simp add: paid_in_def)
  qed (simp add: paid_in_def)
  from this [of emptyBasis]
  have p: "realizedPnlGusd b = booked ss emptyBasis - paid_in ss + costGusd b"
    using assms(3) by (simp add: emptyBasis_def)
  have "cost_carried (fold basisStep ss x)" if "cost_carried x" "list_all step_ok ss" "list_all dust_free ss" for x
    using that by (induction ss arbitrary: x) (simp_all add: cost_carried_step)
  from this [of emptyBasis] have "cost_carried b"
    using assms by (simp add: cost_carried_def basis_ok_def emptyBasis_def)
  then show ?thesis using p by (simp add: cost_carried_def)
qed

text \<open>A disposal keeps the average cost: the cost left per unit is the cost before per unit, rounded
  up by less than one unit of gUSD over the whole holding, and never down.\<close>
theorem disposal_keeps_the_average:
  assumes "basis_ok b" "basisState b = complete" "0 \<le> qty" "qty < qtyGpu b"
  shows "costGusd b * qtyGpu (disposeBasis b qty p) \<le> costGusd (disposeBasis b qty p) * qtyGpu b \<and>
    costGusd (disposeBasis b qty p) * qtyGpu b <
      costGusd b * qtyGpu (disposeBasis b qty p) + qtyGpu b"
proof -
  let ?c = "costGusd b" and ?q = "qtyGpu b"
  have q: "0 < ?q" "0 \<le> ?c" using assms by (auto simp: basis_ok_def)
  have a: "mulDivFloor ?c qty ?q = ?c * qty div ?q" using q assms(3) by (simp add: mulDivFloor_nonneg)
  have d: "qtyGpu (disposeBasis b qty p) = ?q - qty" "costGusd (disposeBasis b qty p) = ?c - ?c * qty div ?q"
    using assms q a by (simp_all add: disposeBasis_def Let_def)
  have "(?c - ?c * qty div ?q) * ?q = ?c * (?q - qty) + (?c * qty - ?q * (?c * qty div ?q))"
    by (simp add: algebra_simps)
  also have "?c * qty - ?q * (?c * qty div ?q) = ?c * qty mod ?q"
    by (simp add: minus_mult_div_eq_mod)
  finally show ?thesis using q(1) by (simp add: d)
qed

subsection \<open>The vault\<close>

lemma withdrawVault_shares:
  assumes "0 \<le> shares v" "0 \<le> burned"
  shows "shares (withdrawVault v assetsOut burned) = max 0 (shares v - burned)"
  using assms by (auto simp: withdrawVault_def Let_def max_def)

text \<open>A vault position keeps its shares and its books: a withdrawal burns at most the shares that
  are there, in either state of the basis; the cost stays between zero and what it was, and what is
  realized is the assets received less the cost taken out.\<close>
theorem vault_withdraw_books:
  assumes "0 \<le> shares v" "0 \<le> assetsCost v" "0 \<le> burned"
  shows "shares (withdrawVault v out burned) = max 0 (shares v - burned) \<and>
    0 \<le> assetsCost (withdrawVault v out burned) \<and> assetsCost (withdrawVault v out burned) \<le> assetsCost v \<and>
    vaultPnlGusd (withdrawVault v out burned) =
      vaultPnlGusd v + (if vaultState v = complete \<and> shares v \<noteq> 0
        then out - (assetsCost v - assetsCost (withdrawVault v out burned)) else 0)"
proof (cases "vaultState v = complete \<and> shares v \<noteq> 0")
  case True
  let ?o = "if burned \<ge> shares v then shares v else burned"
  have "0 \<le> mulDivFloor (assetsCost v) ?o (shares v) \<and> mulDivFloor (assetsCost v) ?o (shares v) \<le> assetsCost v"
    using assms True mulDivFloor_bounds [of "assetsCost v" ?o "shares v"] by auto
  then show ?thesis
    using True withdrawVault_shares [OF assms(1,3), of out] by (auto simp: withdrawVault_def Let_def)
next
  case False
  then show ?thesis
    using assms withdrawVault_shares [OF assms(1,3), of out] by (auto simp: withdrawVault_def)
qed

subsection \<open>Witnesses\<close>

definition sampleSteps :: "basis_step list" where
  "sampleSteps = [Acquire 3 10, Dispose 1 5, Dispose 5 8]"

lemma sampleSteps_ok: "list_all step_ok sampleSteps" "list_all dust_free sampleSteps" "basis_ok emptyBasis"
  by (simp_all add: sampleSteps_def step_ok_def dust_free_def basis_ok_def emptyBasis_def)

theorem basis_nonneg_and_monotone_witness: "basis_ok (fold basisStep sampleSteps emptyBasis)"
  using basis_nonneg_and_monotone [OF sampleSteps_ok(3,1)] by simp

theorem profit_is_proceeds_less_cost_witness:
  "realizedPnlGusd (fold basisStep sampleSteps emptyBasis) = 3"
proof -
  have "booked sampleSteps emptyBasis = 13" "paid_in sampleSteps = 10"
    "costGusd (fold basisStep sampleSteps emptyBasis) = 0"
    by code_simp+
  then show ?thesis using profit_is_proceeds_less_cost [OF sampleSteps_ok(1,2) refl] by simp
qed

theorem disposal_keeps_the_average_witness:
  "costGusd (disposeBasis (emptyBasis\<lparr>qtyGpu := 3, costGusd := 10\<rparr>) 1 5) * 3 < 10 * 2 + (3::int)"
  using disposal_keeps_the_average [of "emptyBasis\<lparr>qtyGpu := 3, costGusd := 10\<rparr>" 1 5]
  by (simp add: emptyBasis_def basis_ok_def disposeBasis_def Let_def)

theorem vault_withdraw_books_witness:
  "shares (withdrawVault (emptyVault\<lparr>shares := 4, assetsCost := 9\<rparr>) 7 10) = 0"
  using vault_withdraw_books [of "emptyVault\<lparr>shares := 4, assetsCost := 9\<rparr>" 10 7] by (simp add: emptyVault_def)

end
