(* ===== verification/IndexerPerp.thy ===== *)
theory IndexerPerp
  imports Indexer
begin

text \<open>
  apps/indexer/src/handlers/perp.ts: the projection of the perpetual futures engine. Each event adds
  a row to its log table and moves the state tables the keeper and the web read. The arguments of an
  event are a record; a log row carries them as the handler stores them, addresses in lower case.
\<close>

subsection \<open>Arguments of the events\<close>

record MarketParams =
  maxLeverageBps :: int
  maintenanceMarginBps :: int
  openFeeBps :: int
  closeFeeBps :: int
  liquidationFeeBps :: int
  fundingRatePpmPerSec :: int
  borrowRatePpmPerSec :: int
  maxOiUsd :: int
  minCollateralUsd :: int
  maxPositionUsd :: int

record OrderCreatedArgs =
  oc_orderId :: int
  oc_account :: string
  oc_gpuId :: string
  oc_kind :: int
  oc_isLong :: bool
  oc_sizeDeltaUsd :: int
  oc_collateralDeltaUsd :: int
  oc_acceptablePrice :: int
  oc_triggerPrice :: int
  oc_executionFee :: int

record OrderExecutedArgs =
  ox_orderId :: int
  ox_executor :: string
  ox_account :: string
  ox_gpuId :: string
  ox_kind :: int
  ox_isLong :: bool
  ox_execPrice :: int
  ox_executionFeePaid :: int
  ox_sizeDeltaUsd :: int
  ox_realizedPnl :: int
  ox_feesPaid :: int
  ox_fundingNet :: int
  ox_claimableDelta :: int

record OrderCancelledArgs =
  on_orderId :: int
  on_account :: string
  on_kind :: int
  on_feeRefunded :: int
  on_collateralRefunded :: int

record PositionIncreasedArgs =
  pi_account :: string
  pi_gpuId :: string
  pi_isLong :: bool
  pi_newSizeUsd :: int
  pi_newCollateral :: int
  pi_newEntryPrice :: int
  pi_fundingFeeCheckpoint :: int
  pi_fundingCreditCheckpoint :: int
  pi_borrowCheckpoint :: int
  pi_newEarnedFunding :: int

record PositionDecreasedArgs =
  pd_account :: string
  pd_gpuId :: string
  pd_isLong :: bool
  pd_sizeDeltaUsd :: int
  pd_realizedPnl :: int
  pd_fundingNet :: int
  pd_closeFee :: int
  pd_claimableDelta :: int
  pd_remainingSizeUsd :: int
  pd_remainingCollateral :: int
  pd_fundingFeeCheckpoint :: int
  pd_fundingCreditCheckpoint :: int
  pd_borrowCheckpoint :: int
  pd_remainingEarnedFunding :: int

record PositionClosedArgs =
  pc_account :: string
  pc_gpuId :: string
  pc_isLong :: bool
  pc_execPrice :: int

record PositionLiquidatedArgs =
  pl_account :: string
  pl_gpuId :: string
  pl_isLong :: bool
  pl_executor :: string
  pl_execPrice :: int
  pl_liquidationFee :: int
  pl_badDebt :: int
  pl_claimableDelta :: int

record ClaimableSettledArgs =
  cs_account :: string
  cs_gpuId :: string
  cs_amount :: int

record ClaimedArgs =
  cd_account :: string
  cd_to :: string
  cd_requested :: int
  cd_paid :: int

record FundingAccruedArgs =
  fa_gpuId :: string
  fa_chargePerUnitLong :: int
  fa_chargePerUnitShort :: int
  fa_creditPerUnitLong :: int
  fa_creditPerUnitShort :: int
  fa_borrowPerUnit :: int
  fa_updatedAt :: int

record EngineWithdrawalArgs =
  ew_to :: string
  ew_requested :: int
  ew_paid :: int

subsection \<open>Rows of the state tables\<close>

record PerpMarketRow =
  mk_gpuId :: string
  mk_enabled :: bool
  mk_params :: MarketParams
  mk_openNotionalLong :: int
  mk_openNotionalShort :: int
  mk_fundingChargePerUnitLong :: int
  mk_fundingChargePerUnitShort :: int
  mk_fundingCreditPerUnitLong :: int
  mk_fundingCreditPerUnitShort :: int
  mk_borrowChargePerUnit :: int
  mk_fundingUpdatedAtSec :: int
  mk_createdAtSec :: int

record PerpOrderRow =
  od_orderId :: int
  od_account :: string
  od_gpuId :: string
  od_kind :: int
  od_status :: int
  od_isLong :: bool
  od_sizeDeltaUsd :: int
  od_collateralDeltaUsd :: int
  od_acceptablePrice :: int
  od_triggerPrice :: int
  od_executionFee :: int
  od_createdAtSec :: int
  od_resolvedAtSec :: "int option"
  od_executor :: "string option"
  od_execPrice :: "int option"
  od_realizedPnl :: "int option"
  od_feesPaid :: "int option"
  od_fundingNet :: "int option"
  od_claimableDelta :: "int option"

record PerpPositionRow =
  ps_wallet :: string
  ps_gpuId :: string
  ps_isLong :: bool
  ps_sizeUsd :: int
  ps_collateral :: int
  ps_entryPrice :: int
  ps_fundingFeeCheckpoint :: "int option"
  ps_fundingCreditCheckpoint :: "int option"
  ps_borrowCheckpoint :: "int option"
  ps_earnedFunding :: "int option"
  ps_openedAtSec :: "int option"
  ps_lastTouchedAtSec :: "int option"
  ps_closedAtSec :: "int option"
  ps_liquidatedAtSec :: "int option"
  ps_liquidator :: "string option"
  ps_increaseCount :: int
  ps_decreaseCount :: int
  ps_realizedPnlGusd :: int

record PerpClaimableRow =
  cl_wallet :: string
  cl_balance :: int
  cl_totalSettled :: int
  cl_totalClaimed :: int
  cl_settleCount :: int
  cl_claimCount :: int
  cl_lastActivityAtSec :: "int option"

record PerpEngineStatsRow =
  es_minOrderDelaySec :: "int option"
  es_orderCount :: int
  es_liquidationCount :: int
  es_claimedGusd :: int

record PerpDb = UserDb +
  perpOrderCreated :: "OrderCreatedArgs logged entity_table"
  perpOrderExecuted :: "OrderExecutedArgs logged entity_table"
  perpOrderCancelled :: "OrderCancelledArgs logged entity_table"
  perpPositionIncreased :: "PositionIncreasedArgs logged entity_table"
  perpPositionDecreased :: "PositionDecreasedArgs logged entity_table"
  perpPositionClosed :: "PositionClosedArgs logged entity_table"
  perpPositionLiquidated :: "PositionLiquidatedArgs logged entity_table"
  perpClaimableSettled :: "ClaimableSettledArgs logged entity_table"
  perpClaimed :: "ClaimedArgs logged entity_table"
  perpFundingAccrued :: "FundingAccruedArgs logged entity_table"
  sgusdEngineWithdrawal :: "EngineWithdrawalArgs logged entity_table"
  perpMarkets :: "PerpMarketRow entity_table"
  perpOrders :: "PerpOrderRow entity_table"
  perpPositions :: "PerpPositionRow entity_table"
  perpClaimable :: "PerpClaimableRow entity_table"
  perpEngineStats :: "PerpEngineStatsRow entity_table"

definition orderKey :: "int \<Rightarrow> string" where
  "orderKey i = int_text i"

definition positionKey :: "string \<Rightarrow> string \<Rightarrow> bool \<Rightarrow> string" where
  "positionKey wallet gpuId long =
     wallet @ ''_'' @ gpuId @ ''_'' @ (if long then ''true'' else ''false'')"

definition position_id :: "PerpPositionRow \<Rightarrow> string" where
  "position_id r = positionKey (ps_wallet r) (ps_gpuId r) (ps_isLong r)"

subsection \<open>Helpers\<close>

definition zeroEngineStats :: PerpEngineStatsRow where
  "zeroEngineStats =
     \<lparr>es_minOrderDelaySec = None, es_orderCount = 0, es_liquidationCount = 0, es_claimedGusd = 0\<rparr>"

text \<open>The deltas of a bump; a delta that is not given leaves its column out of the patch.\<close>

record EngineDeltas =
  d_orderCount :: "int option"
  d_liquidationCount :: "int option"
  d_claimedGusd :: "int option"

definition no_deltas :: EngineDeltas where
  "no_deltas = \<lparr>d_orderCount = None, d_liquidationCount = None, d_claimedGusd = None\<rparr>"

definition or_else :: "int option \<Rightarrow> int \<Rightarrow> int" where
  "or_else d x = (case d of None \<Rightarrow> x | Some v \<Rightarrow> v)"

definition plus_delta :: "int option \<Rightarrow> int \<Rightarrow> int" where
  "plus_delta d x = (case d of None \<Rightarrow> x | Some v \<Rightarrow> x + v)"

definition bumpEngineStats :: "EngineDeltas \<Rightarrow> 'a PerpDb_scheme \<Rightarrow> 'a PerpDb_scheme" where
  "bumpEngineStats d db = db\<lparr>perpEngineStats := upsertRow (\<lambda>_. ''engine'')
     (zeroEngineStats\<lparr>es_orderCount := or_else (d_orderCount d) 0,
        es_liquidationCount := or_else (d_liquidationCount d) 0,
        es_claimedGusd := or_else (d_claimedGusd d) 0\<rparr>)
     (\<lambda>row. row\<lparr>es_orderCount := plus_delta (d_orderCount d) (es_orderCount row),
        es_liquidationCount := plus_delta (d_liquidationCount d) (es_liquidationCount row),
        es_claimedGusd := plus_delta (d_claimedGusd d) (es_claimedGusd row)\<rparr>)
     (perpEngineStats db)\<rparr>"

record ClaimableDeltas =
  c_balance :: "int option"
  c_totalSettled :: "int option"
  c_totalClaimed :: "int option"
  c_settleCount :: "int option"
  c_claimCount :: "int option"

definition bumpClaimable :: "EventKeys \<Rightarrow> string \<Rightarrow> ClaimableDeltas \<Rightarrow> 'a PerpDb_scheme \<Rightarrow> 'a PerpDb_scheme" where
  "bumpClaimable keys wallet d db = db\<lparr>perpClaimable := upsertRow cl_wallet
     \<lparr>cl_wallet = wallet, cl_balance = or_else (c_balance d) 0,
      cl_totalSettled = or_else (c_totalSettled d) 0, cl_totalClaimed = or_else (c_totalClaimed d) 0,
      cl_settleCount = or_else (c_settleCount d) 0, cl_claimCount = or_else (c_claimCount d) 0,
      cl_lastActivityAtSec = None\<rparr>
     (\<lambda>row. row\<lparr>cl_lastActivityAtSec := Some (blockTimestamp keys),
        cl_balance := plus_delta (c_balance d) (cl_balance row),
        cl_totalSettled := plus_delta (c_totalSettled d) (cl_totalSettled row),
        cl_totalClaimed := plus_delta (c_totalClaimed d) (cl_totalClaimed row),
        cl_settleCount := plus_delta (c_settleCount d) (cl_settleCount row),
        cl_claimCount := plus_delta (c_claimCount d) (cl_claimCount row)\<rparr>)
     (perpClaimable db)\<rparr>"

definition creditPositionPnl ::
  "EventKeys \<Rightarrow> string \<Rightarrow> string \<Rightarrow> bool \<Rightarrow> int \<Rightarrow> 'a PerpDb_scheme \<Rightarrow> 'a PerpDb_scheme" where
  "creditPositionPnl keys account gpuId long pnl db = db\<lparr>perpPositions := upsertRow position_id
     \<lparr>ps_wallet = account, ps_gpuId = gpuId, ps_isLong = long, ps_sizeUsd = 0, ps_collateral = 0,
      ps_entryPrice = 0, ps_fundingFeeCheckpoint = None, ps_fundingCreditCheckpoint = None,
      ps_borrowCheckpoint = None, ps_earnedFunding = None, ps_openedAtSec = Some (blockTimestamp keys),
      ps_lastTouchedAtSec = Some (blockTimestamp keys), ps_closedAtSec = None, ps_liquidatedAtSec = None,
      ps_liquidator = None, ps_increaseCount = 0, ps_decreaseCount = 0, ps_realizedPnlGusd = pnl\<rparr>
     (\<lambda>row. row\<lparr>ps_realizedPnlGusd := ps_realizedPnlGusd row + pnl\<rparr>)
     (perpPositions db)\<rparr>"

subsection \<open>Market configuration\<close>

definition onMarketCreated :: "EventKeys \<Rightarrow> string \<Rightarrow> MarketParams \<Rightarrow> 'a PerpDb_scheme \<Rightarrow> 'a PerpDb_scheme" where
  "onMarketCreated keys gpuId params db = db\<lparr>perpMarkets := insertRow mk_gpuId
     \<lparr>mk_gpuId = gpuId, mk_enabled = True, mk_params = params, mk_openNotionalLong = 0,
      mk_openNotionalShort = 0, mk_fundingChargePerUnitLong = 0, mk_fundingChargePerUnitShort = 0,
      mk_fundingCreditPerUnitLong = 0, mk_fundingCreditPerUnitShort = 0, mk_borrowChargePerUnit = 0,
      mk_fundingUpdatedAtSec = blockTimestamp keys, mk_createdAtSec = blockTimestamp keys\<rparr>
     (perpMarkets db)\<rparr>"

definition onMarketParamsUpdated :: "string \<Rightarrow> MarketParams \<Rightarrow> 'a PerpDb_scheme \<Rightarrow> index_error + 'a PerpDb_scheme" where
  "onMarketParamsUpdated gpuId params db =
     (if js_get (perpMarkets db) gpuId = None then Inr db
      else andThen (updateRow ''PerpMarket'' gpuId (\<lambda>r. r\<lparr>mk_params := params\<rparr>) (perpMarkets db))
        (\<lambda>t. Inr (db\<lparr>perpMarkets := t\<rparr>)))"

definition onMarketEnabled :: "string \<Rightarrow> bool \<Rightarrow> 'a PerpDb_scheme \<Rightarrow> index_error + 'a PerpDb_scheme" where
  "onMarketEnabled gpuId on db =
     (if js_get (perpMarkets db) gpuId = None then Inr db
      else andThen (updateRow ''PerpMarket'' gpuId (\<lambda>r. r\<lparr>mk_enabled := on\<rparr>) (perpMarkets db))
        (\<lambda>t. Inr (db\<lparr>perpMarkets := t\<rparr>)))"

definition onMinOrderDelaySet :: "int \<Rightarrow> 'a PerpDb_scheme \<Rightarrow> 'a PerpDb_scheme" where
  "onMinOrderDelaySet seconds db = db\<lparr>perpEngineStats :=
     upsertRow (\<lambda>_. ''engine'') zeroEngineStats (\<lambda>row. row\<lparr>es_minOrderDelaySec := Some seconds\<rparr>)
       (perpEngineStats db)\<rparr>"

subsection \<open>Orders\<close>

definition orderCreatedData :: "OrderCreatedArgs \<Rightarrow> (string \<times> jsval) list" where
  "orderCreatedData a =
     [(''orderId'', JBig (oc_orderId a)), (''account'', JStr (oc_account a)), (''gpuId'', JStr (oc_gpuId a)),
      (''kind'', JBig (oc_kind a)), (''isLong'', JBool (oc_isLong a)),
      (''sizeDeltaUsd'', JBig (oc_sizeDeltaUsd a)), (''collateralDeltaUsd'', JBig (oc_collateralDeltaUsd a)),
      (''acceptablePrice'', JBig (oc_acceptablePrice a)), (''triggerPrice'', JBig (oc_triggerPrice a)),
      (''executionFee'', JBig (oc_executionFee a))]"

definition onOrderCreated ::
  "EventMeta \<Rightarrow> int \<Rightarrow> OrderCreatedArgs \<Rightarrow> 'a PerpDb_scheme \<Rightarrow> index_error + 'a PerpDb_scheme" where
  "onOrderCreated event chain a db =
     (let keys = eventKeys event chain;
          account = lowerAddr (oc_account a);
          db1 = db\<lparr>perpOrderCreated := logRow keys (a\<lparr>oc_account := account\<rparr>) (perpOrderCreated db)\<rparr>;
          db2 = db1\<lparr>perpOrders := insertRow (\<lambda>r. orderKey (od_orderId r))
            \<lparr>od_orderId = oc_orderId a, od_account = account, od_gpuId = oc_gpuId a, od_kind = oc_kind a,
             od_status = 1, od_isLong = oc_isLong a, od_sizeDeltaUsd = oc_sizeDeltaUsd a,
             od_collateralDeltaUsd = oc_collateralDeltaUsd a, od_acceptablePrice = oc_acceptablePrice a,
             od_triggerPrice = oc_triggerPrice a, od_executionFee = oc_executionFee a,
             od_createdAtSec = blockTimestamp keys, od_resolvedAtSec = None, od_executor = None,
             od_execPrice = None, od_realizedPnl = None, od_feesPaid = None, od_fundingNet = None,
             od_claimableDelta = None\<rparr> (perpOrders db1)\<rparr>;
          db3 = bumpEngineStats (no_deltas\<lparr>d_orderCount := Some 1\<rparr>) db2
      in recordUserEvent (userEventOf event chain ''PerpOrderCreated'' (oc_account a) (orderCreatedData a)) db3)"

definition orderExecutedData :: "OrderExecutedArgs \<Rightarrow> (string \<times> jsval) list" where
  "orderExecutedData a =
     [(''orderId'', JBig (ox_orderId a)), (''executor'', JStr (ox_executor a)), (''account'', JStr (ox_account a)),
      (''gpuId'', JStr (ox_gpuId a)), (''kind'', JBig (ox_kind a)), (''isLong'', JBool (ox_isLong a)),
      (''execPrice'', JBig (ox_execPrice a)), (''executionFeePaid'', JBig (ox_executionFeePaid a)),
      (''sizeDeltaUsd'', JBig (ox_sizeDeltaUsd a)), (''realizedPnl'', JBig (ox_realizedPnl a)),
      (''feesPaid'', JBig (ox_feesPaid a)), (''fundingNet'', JBig (ox_fundingNet a)),
      (''claimableDelta'', JBig (ox_claimableDelta a))]"

definition resolveOrder :: "EventKeys \<Rightarrow> OrderExecutedArgs \<Rightarrow> PerpOrderRow \<Rightarrow> PerpOrderRow" where
  "resolveOrder keys a r = r\<lparr>od_status := 2, od_resolvedAtSec := Some (blockTimestamp keys),
     od_executor := Some (lowerAddr (ox_executor a)), od_execPrice := Some (ox_execPrice a),
     od_realizedPnl := Some (ox_realizedPnl a), od_feesPaid := Some (ox_feesPaid a),
     od_fundingNet := Some (ox_fundingNet a), od_claimableDelta := Some (ox_claimableDelta a)\<rparr>"

definition KIND_MARKET_INCREASE :: int where
  "KIND_MARKET_INCREASE = 0"

definition onOrderExecuted ::
  "EventMeta \<Rightarrow> int \<Rightarrow> OrderExecutedArgs \<Rightarrow> 'a PerpDb_scheme \<Rightarrow> index_error + 'a PerpDb_scheme" where
  "onOrderExecuted event chain a db =
     (let keys = eventKeys event chain;
          account = lowerAddr (ox_account a);
          db1 = db\<lparr>perpOrderExecuted := logRow keys
            (a\<lparr>ox_executor := lowerAddr (ox_executor a), ox_account := account\<rparr>) (perpOrderExecuted db)\<rparr>;
          i = orderKey (ox_orderId a)
      in andThen
           (if js_get (perpOrders db1) i = None then Inr db1
            else andThen (updateRow ''PerpOrder'' i (resolveOrder keys a) (perpOrders db1))
              (\<lambda>t. Inr (db1\<lparr>perpOrders := t\<rparr>)))
           (\<lambda>db2. recordUserEvent
              (userEventOf event chain ''PerpOrderExecuted'' (ox_account a) (orderExecutedData a))
              (if ox_kind a \<noteq> KIND_MARKET_INCREASE
               then creditPositionPnl keys account (ox_gpuId a) (ox_isLong a) (ox_realizedPnl a) db2
               else db2)))"

definition onOrderCancelled ::
  "EventKeys \<Rightarrow> OrderCancelledArgs \<Rightarrow> 'a PerpDb_scheme \<Rightarrow> index_error + 'a PerpDb_scheme" where
  "onOrderCancelled keys a db =
     (let db1 = db\<lparr>perpOrderCancelled :=
            logRow keys (a\<lparr>on_account := lowerAddr (on_account a)\<rparr>) (perpOrderCancelled db)\<rparr>
      in andThen (updateRow ''PerpOrder'' (orderKey (on_orderId a))
             (\<lambda>r. r\<lparr>od_status := 3, od_resolvedAtSec := Some (blockTimestamp keys)\<rparr>) (perpOrders db1))
           (\<lambda>t. Inr (db1\<lparr>perpOrders := t\<rparr>)))"

subsection \<open>Positions\<close>

definition onPositionIncreased :: "EventKeys \<Rightarrow> PositionIncreasedArgs \<Rightarrow> 'a PerpDb_scheme \<Rightarrow> 'a PerpDb_scheme" where
  "onPositionIncreased keys a db =
     (let account = lowerAddr (pi_account a);
          existing = js_get (perpPositions db) (positionKey account (pi_gpuId a) (pi_isLong a));
          count = (case existing of None \<Rightarrow> 0 | Some r \<Rightarrow> ps_increaseCount r) + 1;
          db1 = db\<lparr>perpPositions := upsertRow position_id
            \<lparr>ps_wallet = account, ps_gpuId = pi_gpuId a, ps_isLong = pi_isLong a,
             ps_sizeUsd = pi_newSizeUsd a, ps_collateral = pi_newCollateral a,
             ps_entryPrice = pi_newEntryPrice a, ps_fundingFeeCheckpoint = Some (pi_fundingFeeCheckpoint a),
             ps_fundingCreditCheckpoint = Some (pi_fundingCreditCheckpoint a),
             ps_borrowCheckpoint = Some (pi_borrowCheckpoint a),
             ps_earnedFunding = Some (pi_newEarnedFunding a),
             ps_openedAtSec = Some (blockTimestamp keys), ps_lastTouchedAtSec = Some (blockTimestamp keys),
             ps_closedAtSec = None, ps_liquidatedAtSec = None, ps_liquidator = None,
             ps_increaseCount = count, ps_decreaseCount = 0, ps_realizedPnlGusd = 0\<rparr>
            (\<lambda>r. r\<lparr>ps_sizeUsd := pi_newSizeUsd a, ps_collateral := pi_newCollateral a,
               ps_entryPrice := pi_newEntryPrice a,
               ps_fundingFeeCheckpoint := Some (pi_fundingFeeCheckpoint a),
               ps_fundingCreditCheckpoint := Some (pi_fundingCreditCheckpoint a),
               ps_borrowCheckpoint := Some (pi_borrowCheckpoint a),
               ps_earnedFunding := Some (pi_newEarnedFunding a),
               ps_lastTouchedAtSec := Some (blockTimestamp keys), ps_increaseCount := count\<rparr>)
            (perpPositions db)\<rparr>
      in db1\<lparr>perpPositionIncreased := logRow keys (a\<lparr>pi_account := account\<rparr>) (perpPositionIncreased db1)\<rparr>)"

definition onPositionDecreased :: "EventKeys \<Rightarrow> PositionDecreasedArgs \<Rightarrow> 'a PerpDb_scheme \<Rightarrow> 'a PerpDb_scheme" where
  "onPositionDecreased keys a db =
     (let account = lowerAddr (pd_account a);
          existing = js_get (perpPositions db) (positionKey account (pd_gpuId a) (pd_isLong a));
          count = (case existing of None \<Rightarrow> 0 | Some r \<Rightarrow> ps_decreaseCount r) + 1;
          db1 = db\<lparr>perpPositions := upsertRow position_id
            \<lparr>ps_wallet = account, ps_gpuId = pd_gpuId a, ps_isLong = pd_isLong a,
             ps_sizeUsd = pd_remainingSizeUsd a, ps_collateral = pd_remainingCollateral a,
             ps_entryPrice = 0, ps_fundingFeeCheckpoint = Some (pd_fundingFeeCheckpoint a),
             ps_fundingCreditCheckpoint = Some (pd_fundingCreditCheckpoint a),
             ps_borrowCheckpoint = Some (pd_borrowCheckpoint a),
             ps_earnedFunding = Some (pd_remainingEarnedFunding a),
             ps_openedAtSec = None, ps_lastTouchedAtSec = Some (blockTimestamp keys),
             ps_closedAtSec = None, ps_liquidatedAtSec = None, ps_liquidator = None,
             ps_increaseCount = 0, ps_decreaseCount = count, ps_realizedPnlGusd = 0\<rparr>
            (\<lambda>r. r\<lparr>ps_sizeUsd := pd_remainingSizeUsd a, ps_collateral := pd_remainingCollateral a,
               ps_fundingFeeCheckpoint := Some (pd_fundingFeeCheckpoint a),
               ps_fundingCreditCheckpoint := Some (pd_fundingCreditCheckpoint a),
               ps_borrowCheckpoint := Some (pd_borrowCheckpoint a),
               ps_earnedFunding := Some (pd_remainingEarnedFunding a),
               ps_lastTouchedAtSec := Some (blockTimestamp keys), ps_decreaseCount := count\<rparr>)
            (perpPositions db)\<rparr>
      in db1\<lparr>perpPositionDecreased := logRow keys (a\<lparr>pd_account := account\<rparr>) (perpPositionDecreased db1)\<rparr>)"

definition onPositionClosed ::
  "EventKeys \<Rightarrow> PositionClosedArgs \<Rightarrow> 'a PerpDb_scheme \<Rightarrow> index_error + 'a PerpDb_scheme" where
  "onPositionClosed keys a db =
     (let account = lowerAddr (pc_account a);
          i = positionKey account (pc_gpuId a) (pc_isLong a)
      in if js_get (perpPositions db) i = None then Inr db
         else andThen (updateRow ''PerpPosition'' i
             (\<lambda>r. r\<lparr>ps_sizeUsd := 0, ps_closedAtSec := Some (blockTimestamp keys)\<rparr>) (perpPositions db))
           (\<lambda>t. let db1 = db\<lparr>perpPositions := t\<rparr>
                in Inr (db1\<lparr>perpPositionClosed :=
                  logRow keys (a\<lparr>pc_account := account\<rparr>) (perpPositionClosed db1)\<rparr>)))"

definition onPositionLiquidated ::
  "EventKeys \<Rightarrow> PositionLiquidatedArgs \<Rightarrow> 'a PerpDb_scheme \<Rightarrow> index_error + 'a PerpDb_scheme" where
  "onPositionLiquidated keys a db =
     (let account = lowerAddr (pl_account a);
          db1 = db\<lparr>perpPositionLiquidated := logRow keys
            (a\<lparr>pl_account := account, pl_executor := lowerAddr (pl_executor a)\<rparr>) (perpPositionLiquidated db)\<rparr>;
          i = positionKey account (pl_gpuId a) (pl_isLong a)
      in andThen
           (if js_get (perpPositions db1) i = None then Inr db1
            else andThen (updateRow ''PerpPosition'' i
                (\<lambda>r. r\<lparr>ps_sizeUsd := 0, ps_liquidatedAtSec := Some (blockTimestamp keys),
                  ps_liquidator := Some (lowerAddr (pl_executor a))\<rparr>) (perpPositions db1))
              (\<lambda>t. Inr (db1\<lparr>perpPositions := t\<rparr>)))
           (\<lambda>db2. Inr (bumpEngineStats (no_deltas\<lparr>d_liquidationCount := Some 1\<rparr>) db2)))"

subsection \<open>Claimable balances\<close>

definition onClaimableSettled :: "EventKeys \<Rightarrow> ClaimableSettledArgs \<Rightarrow> 'a PerpDb_scheme \<Rightarrow> 'a PerpDb_scheme" where
  "onClaimableSettled keys a db =
     (let account = lowerAddr (cs_account a);
          db1 = db\<lparr>perpClaimableSettled :=
            logRow keys (a\<lparr>cs_account := account\<rparr>) (perpClaimableSettled db)\<rparr>
      in if 0 < cs_amount a
         then bumpClaimable keys account \<lparr>c_balance = Some (cs_amount a), c_totalSettled = Some (cs_amount a),
           c_totalClaimed = None, c_settleCount = Some 1, c_claimCount = None\<rparr> db1
         else db1)"

definition claimedData :: "ClaimedArgs \<Rightarrow> (string \<times> jsval) list" where
  "claimedData a =
     [(''account'', JStr (cd_account a)), (''to'', JStr (cd_to a)), (''requested'', JBig (cd_requested a)),
      (''paid'', JBig (cd_paid a))]"

definition onClaimed ::
  "EventMeta \<Rightarrow> int \<Rightarrow> ClaimedArgs \<Rightarrow> 'a PerpDb_scheme \<Rightarrow> index_error + 'a PerpDb_scheme" where
  "onClaimed event chain a db =
     (let keys = eventKeys event chain;
          account = lowerAddr (cd_account a);
          db1 = db\<lparr>perpClaimed :=
            logRow keys (a\<lparr>cd_account := account, cd_to := lowerAddr (cd_to a)\<rparr>) (perpClaimed db)\<rparr>;
          db2 = (if 0 < cd_paid a
                 then bumpClaimable keys account \<lparr>c_balance = Some (- cd_paid a), c_totalSettled = None,
                   c_totalClaimed = Some (cd_paid a), c_settleCount = None, c_claimCount = Some 1\<rparr> db1
                 else db1);
          db3 = bumpEngineStats (no_deltas\<lparr>d_claimedGusd := Some (cd_paid a)\<rparr>) db2
      in recordUserEvent (userEventOf event chain ''PerpClaimed'' (cd_account a) (claimedData a)) db3)"

subsection \<open>Funding and the vault\<close>

definition zeroParams :: MarketParams where
  "zeroParams = \<lparr>maxLeverageBps = 0, maintenanceMarginBps = 0, openFeeBps = 0, closeFeeBps = 0,
     liquidationFeeBps = 0, fundingRatePpmPerSec = 0, borrowRatePpmPerSec = 0, maxOiUsd = 0,
     minCollateralUsd = 0, maxPositionUsd = 0\<rparr>"

definition onFundingAccrued :: "EventKeys \<Rightarrow> FundingAccruedArgs \<Rightarrow> 'a PerpDb_scheme \<Rightarrow> 'a PerpDb_scheme" where
  "onFundingAccrued keys a db =
     (let db1 = db\<lparr>perpFundingAccrued := logRow keys a (perpFundingAccrued db)\<rparr>
      in db1\<lparr>perpMarkets := upsertRow mk_gpuId
           \<lparr>mk_gpuId = fa_gpuId a, mk_enabled = True, mk_params = zeroParams, mk_openNotionalLong = 0,
            mk_openNotionalShort = 0, mk_fundingChargePerUnitLong = fa_chargePerUnitLong a,
            mk_fundingChargePerUnitShort = fa_chargePerUnitShort a,
            mk_fundingCreditPerUnitLong = fa_creditPerUnitLong a,
            mk_fundingCreditPerUnitShort = fa_creditPerUnitShort a,
            mk_borrowChargePerUnit = fa_borrowPerUnit a, mk_fundingUpdatedAtSec = fa_updatedAt a,
            mk_createdAtSec = blockTimestamp keys\<rparr>
           (\<lambda>r. r\<lparr>mk_fundingChargePerUnitLong := fa_chargePerUnitLong a,
              mk_fundingChargePerUnitShort := fa_chargePerUnitShort a,
              mk_fundingCreditPerUnitLong := fa_creditPerUnitLong a,
              mk_fundingCreditPerUnitShort := fa_creditPerUnitShort a,
              mk_borrowChargePerUnit := fa_borrowPerUnit a, mk_fundingUpdatedAtSec := fa_updatedAt a\<rparr>)
           (perpMarkets db1)\<rparr>)"

definition onEngineWithdrawal :: "EventKeys \<Rightarrow> EngineWithdrawalArgs \<Rightarrow> 'a PerpDb_scheme \<Rightarrow> 'a PerpDb_scheme" where
  "onEngineWithdrawal keys a db = db\<lparr>sgusdEngineWithdrawal :=
     logRow keys (a\<lparr>ew_to := lowerAddr (ew_to a)\<rparr>) (sgusdEngineWithdrawal db)\<rparr>"

subsection \<open>The stream of events\<close>

datatype PerpEvent =
    MarketCreated string MarketParams
  | MarketParamsUpdated string MarketParams
  | MarketEnabled string bool
  | MinOrderDelaySet int
  | OrderCreated OrderCreatedArgs
  | OrderExecuted OrderExecutedArgs
  | OrderCancelled OrderCancelledArgs
  | PositionIncreased PositionIncreasedArgs
  | PositionDecreased PositionDecreasedArgs
  | PositionClosed PositionClosedArgs
  | PositionLiquidated PositionLiquidatedArgs
  | ClaimableSettled ClaimableSettledArgs
  | Claimed ClaimedArgs
  | FundingAccrued FundingAccruedArgs
  | EngineWithdrawal EngineWithdrawalArgs

fun perpStep :: "EventMeta \<Rightarrow> int \<Rightarrow> PerpEvent \<Rightarrow> 'a PerpDb_scheme \<Rightarrow> index_error + 'a PerpDb_scheme" where
  "perpStep m c (MarketCreated g p) db = Inr (onMarketCreated (eventKeys m c) g p db)"
| "perpStep m c (MarketParamsUpdated g p) db = onMarketParamsUpdated g p db"
| "perpStep m c (MarketEnabled g b) db = onMarketEnabled g b db"
| "perpStep m c (MinOrderDelaySet n) db = Inr (onMinOrderDelaySet n db)"
| "perpStep m c (OrderCreated a) db = onOrderCreated m c a db"
| "perpStep m c (OrderExecuted a) db = onOrderExecuted m c a db"
| "perpStep m c (OrderCancelled a) db = onOrderCancelled (eventKeys m c) a db"
| "perpStep m c (PositionIncreased a) db = Inr (onPositionIncreased (eventKeys m c) a db)"
| "perpStep m c (PositionDecreased a) db = Inr (onPositionDecreased (eventKeys m c) a db)"
| "perpStep m c (PositionClosed a) db = onPositionClosed (eventKeys m c) a db"
| "perpStep m c (PositionLiquidated a) db = onPositionLiquidated (eventKeys m c) a db"
| "perpStep m c (ClaimableSettled a) db = Inr (onClaimableSettled (eventKeys m c) a db)"
| "perpStep m c (Claimed a) db = onClaimed m c a db"
| "perpStep m c (FundingAccrued a) db = Inr (onFundingAccrued (eventKeys m c) a db)"
| "perpStep m c (EngineWithdrawal a) db = Inr (onEngineWithdrawal (eventKeys m c) a db)"

fun perpRun :: "int \<Rightarrow> (EventMeta \<times> PerpEvent) list \<Rightarrow> 'a PerpDb_scheme \<Rightarrow> index_error + 'a PerpDb_scheme" where
  "perpRun c [] db = Inr db"
| "perpRun c ((m, e) # es) db = andThen (perpStep m c e db) (perpRun c es)"

end
