(* ===== verification/WalletState.thy ===== *)
theory WalletState
  imports CostBasis IndexerPerp
begin

text \<open>
  apps/indexer/src/handlers/wallet-state.ts and the transfer handlers (gpu-token.ts, gusd.ts, sgusd.ts):
  the balances, cost bases and vault positions of the wallets. The protocol's addresses come from the
  generated configuration: each contract has none, one or a list of them.
\<close>

subsection \<open>Protocol addresses\<close>

datatype contract_address = NoAddress | OneAddress string | Addresses "string list"

definition protocolContractAddresses :: "(string \<times> contract_address) list \<Rightarrow> string set" where
  "protocolContractAddresses contracts =
     insert ZERO_ADDRESS (\<Union>(n, a) \<in> set contracts.
       case a of NoAddress \<Rightarrow> {} | OneAddress x \<Rightarrow> {toLowerCase x} | Addresses xs \<Rightarrow> toLowerCase ` set xs)"

definition isUserWallet :: "string \<Rightarrow> string set \<Rightarrow> bool" where
  "isUserWallet address contracts \<longleftrightarrow> toLowerCase address \<notin> contracts"

subsection \<open>Rows\<close>

record TransferArgs =
  tr_token :: string
  tr_from :: string
  tr_to :: string
  tr_value :: int

record WalletBalanceRow =
  wb_wallet :: string
  wb_token :: string
  wb_balance :: int
  wb_transferCount :: int
  wb_lastTransferAtSec :: int
  wb_lastTransferBlockNumber :: int

record WalletCostBasisRow =
  cb_wallet :: string
  cb_gpuId :: string
  cb_basis :: BasisSnapshot
  cb_firstActivityAtSec :: int
  cb_lastActivityAtSec :: int

record WalletVaultRow =
  vp_wallet :: string
  vp_position :: VaultSnapshot
  vp_firstActivityAtSec :: int
  vp_lastActivityAtSec :: int

record GpuTokenRow =
  gt_token :: string
  gt_gpuId :: string

record WalletDb = PerpDb +
  tokenTransfer :: "TransferArgs logged entity_table"
  walletBalances :: "WalletBalanceRow entity_table"
  walletCostBasis :: "WalletCostBasisRow entity_table"
  walletVaultPositions :: "WalletVaultRow entity_table"
  gpuTokens :: "GpuTokenRow entity_table"

definition pairKey :: "string \<Rightarrow> string \<Rightarrow> string" where
  "pairKey wallet other = wallet @ ''_'' @ other"

subsection \<open>Balances\<close>

definition applyBalanceDelta ::
  "EventKeys \<Rightarrow> string \<Rightarrow> string \<Rightarrow> int \<Rightarrow> 'a WalletDb_scheme \<Rightarrow> index_error + 'a WalletDb_scheme" where
  "applyBalanceDelta keys token wallet delta db =
     (let row = js_get (walletBalances db) (pairKey wallet token);
          previous = (case row of None \<Rightarrow> 0 | Some r \<Rightarrow> wb_balance r);
          balance = previous + delta;
          count = (case row of None \<Rightarrow> 0 | Some r \<Rightarrow> wb_transferCount r) + 1
      in if balance < 0 then Inl (Underflow wallet token previous delta)
         else Inr (db\<lparr>walletBalances := upsertRow (\<lambda>r. pairKey (wb_wallet r) (wb_token r))
           \<lparr>wb_wallet = wallet, wb_token = token, wb_balance = balance, wb_transferCount = count,
            wb_lastTransferAtSec = blockTimestamp keys, wb_lastTransferBlockNumber = blockNumber keys\<rparr>
           (\<lambda>r. r\<lparr>wb_balance := balance, wb_transferCount := count,
              wb_lastTransferAtSec := blockTimestamp keys, wb_lastTransferBlockNumber := blockNumber keys\<rparr>)
           (walletBalances db)\<rparr>))"

fun applyChanges ::
  "EventKeys \<Rightarrow> string \<Rightarrow> (string \<times> int) list \<Rightarrow> 'a WalletDb_scheme \<Rightarrow> index_error + 'a WalletDb_scheme" where
  "applyChanges keys token [] db = Inr db"
| "applyChanges keys token ((w, d) # cs) db =
     andThen (applyBalanceDelta keys token w d db) (applyChanges keys token cs)"

subsection \<open>Cost basis\<close>

text \<open>\<open>asBasisState\<close> is the identity on the two states the indexer writes.\<close>

definition updateBasis ::
  "EventKeys \<Rightarrow> string \<Rightarrow> string \<Rightarrow> (BasisSnapshot \<Rightarrow> BasisSnapshot) \<Rightarrow> 'a WalletDb_scheme \<Rightarrow> 'a WalletDb_scheme" where
  "updateBasis keys wallet gpuId f db =
     (let row = js_get (walletCostBasis db) (pairKey wallet gpuId);
          current = (case row of None \<Rightarrow> emptyBasis | Some r \<Rightarrow> cb_basis r);
          first = (case row of None \<Rightarrow> blockTimestamp keys | Some r \<Rightarrow> cb_firstActivityAtSec r)
      in db\<lparr>walletCostBasis := upsertRow (\<lambda>r. pairKey (cb_wallet r) (cb_gpuId r))
           \<lparr>cb_wallet = wallet, cb_gpuId = gpuId, cb_basis = f current, cb_firstActivityAtSec = first,
            cb_lastActivityAtSec = blockTimestamp keys\<rparr>
           (\<lambda>r. r\<lparr>cb_basis := f current, cb_lastActivityAtSec := blockTimestamp keys\<rparr>)
           (walletCostBasis db)\<rparr>)"

definition recordGpuAcquisition ::
  "EventKeys \<Rightarrow> string \<Rightarrow> string \<Rightarrow> int \<Rightarrow> int \<Rightarrow> 'a WalletDb_scheme \<Rightarrow> 'a WalletDb_scheme" where
  "recordGpuAcquisition keys wallet gpuId qty cost db =
     updateBasis keys wallet gpuId (\<lambda>b. acquireBasis b qty cost) db"

definition recordGpuDisposal ::
  "EventKeys \<Rightarrow> string \<Rightarrow> string \<Rightarrow> int \<Rightarrow> int \<Rightarrow> 'a WalletDb_scheme \<Rightarrow> 'a WalletDb_scheme" where
  "recordGpuDisposal keys wallet gpuId qty proceeds db =
     updateBasis keys wallet gpuId (\<lambda>b. disposeBasis b qty proceeds) db"

definition demoteGpuBasis :: "EventKeys \<Rightarrow> string \<Rightarrow> string \<Rightarrow> 'a WalletDb_scheme \<Rightarrow> 'a WalletDb_scheme" where
  "demoteGpuBasis keys wallet gpuId db = updateBasis keys wallet gpuId demoteBasis db"

subsection \<open>Vault positions\<close>

definition updateVault ::
  "EventKeys \<Rightarrow> string \<Rightarrow> (VaultSnapshot \<Rightarrow> VaultSnapshot) \<Rightarrow> 'a WalletDb_scheme \<Rightarrow> 'a WalletDb_scheme" where
  "updateVault keys wallet f db =
     (let row = js_get (walletVaultPositions db) wallet;
          current = (case row of None \<Rightarrow> emptyVault | Some r \<Rightarrow> vp_position r);
          first = (case row of None \<Rightarrow> blockTimestamp keys | Some r \<Rightarrow> vp_firstActivityAtSec r)
      in db\<lparr>walletVaultPositions := upsertRow vp_wallet
           \<lparr>vp_wallet = wallet, vp_position = f current, vp_firstActivityAtSec = first,
            vp_lastActivityAtSec = blockTimestamp keys\<rparr>
           (\<lambda>r. r\<lparr>vp_position := f current, vp_lastActivityAtSec := blockTimestamp keys\<rparr>)
           (walletVaultPositions db)\<rparr>)"

definition recordVaultDeposit :: "EventKeys \<Rightarrow> string \<Rightarrow> int \<Rightarrow> int \<Rightarrow> 'a WalletDb_scheme \<Rightarrow> 'a WalletDb_scheme" where
  "recordVaultDeposit keys wallet assets new db = updateVault keys wallet (\<lambda>v. depositVault v assets new) db"

definition recordVaultWithdraw :: "EventKeys \<Rightarrow> string \<Rightarrow> int \<Rightarrow> int \<Rightarrow> 'a WalletDb_scheme \<Rightarrow> 'a WalletDb_scheme" where
  "recordVaultWithdraw keys wallet assets burned db =
     updateVault keys wallet (\<lambda>v. withdrawVault v assets burned) db"

definition demoteVaultPosition :: "EventKeys \<Rightarrow> string \<Rightarrow> 'a WalletDb_scheme \<Rightarrow> 'a WalletDb_scheme" where
  "demoteVaultPosition keys wallet db = updateVault keys wallet demoteVault db"

subsection \<open>Transfers\<close>

text \<open>The token of a transfer is the emitting contract.\<close>

definition logTransfer :: "EventKeys \<Rightarrow> TransferArgs \<Rightarrow> 'a WalletDb_scheme \<Rightarrow> 'a WalletDb_scheme" where
  "logTransfer keys t db = db\<lparr>tokenTransfer := logRow keys t (tokenTransfer db)\<rparr>"

definition onGusdTransfer :: "EventKeys \<Rightarrow> TransferArgs \<Rightarrow> 'a WalletDb_scheme \<Rightarrow> index_error + 'a WalletDb_scheme" where
  "onGusdTransfer keys t db =
     applyChanges keys (tr_token t) (balanceChanges (tr_from t) (tr_to t) (tr_value t)) (logTransfer keys t db)"

definition onGpuTransfer ::
  "(string \<times> contract_address) list \<Rightarrow> EventKeys \<Rightarrow> TransferArgs \<Rightarrow> 'a WalletDb_scheme \<Rightarrow>
   index_error + 'a WalletDb_scheme" where
  "onGpuTransfer config keys t db =
     andThen
       (applyChanges keys (tr_token t) (balanceChanges (tr_from t) (tr_to t) (tr_value t)) (logTransfer keys t db))
       (\<lambda>db1. let contracts = protocolContractAddresses config
              in if isUserWallet (tr_from t) contracts \<and> isUserWallet (tr_to t) contracts
                 then (case js_get (gpuTokens db1) (tr_token t) of
                         None \<Rightarrow> Inl (Untracked ''GPUToken'' (tr_token t))
                       | Some mapping \<Rightarrow>
                           Inr (demoteGpuBasis keys (tr_to t) (gt_gpuId mapping)
                             (demoteGpuBasis keys (tr_from t) (gt_gpuId mapping) db1)))
                 else Inr db1)"

definition onSgusdTransfer ::
  "(string \<times> contract_address) list \<Rightarrow> EventKeys \<Rightarrow> TransferArgs \<Rightarrow> 'a WalletDb_scheme \<Rightarrow>
   index_error + 'a WalletDb_scheme" where
  "onSgusdTransfer config keys t db =
     andThen
       (applyChanges keys (tr_token t) (balanceChanges (tr_from t) (tr_to t) (tr_value t)) (logTransfer keys t db))
       (\<lambda>db1. let contracts = protocolContractAddresses config
              in if isUserWallet (tr_from t) contracts \<and> isUserWallet (tr_to t) contracts
                 then Inr (demoteVaultPosition keys (tr_to t) (demoteVaultPosition keys (tr_from t) db1))
                 else Inr db1)"

end
