(* ===== verification/ProtocolCounters.thy ===== *)
theory ProtocolCounters
  imports WalletState
begin

text \<open>
  apps/indexer/src/handlers/stats.ts and buckets.ts, projections/buckets.ts: the counters of the
  protocol, of the vault, of a day and of a pool's hour. Every bump of the source inserts the zero row
  with the event's deltas and adds the same deltas on conflict; a column an event does not name has
  the delta 0.
\<close>

subsection \<open>Buckets\<close>

definition HOUR_SECONDS :: int where
  "HOUR_SECONDS = 3600"

definition DAY_SECONDS :: int where
  "DAY_SECONDS = 86400"

definition hourBucketStart :: "int \<Rightarrow> int" where
  "hourBucketStart t = big_div t HOUR_SECONDS * HOUR_SECONDS"

definition dayBucketStart :: "int \<Rightarrow> int" where
  "dayBucketStart t = big_div t DAY_SECONDS * DAY_SECONDS"

subsection \<open>Counters\<close>

record StatsCounters =
  gs_gusdMintedGusd :: int
  gs_gusdRedeemedGusd :: int
  gs_mintCount :: int
  gs_redeemCount :: int
  gs_issuedGpu :: int
  gs_issuedCount :: int
  gs_issuanceProceedsGusd :: int
  gs_issuanceFeesGusd :: int
  gs_buyCount :: int
  gs_sellCount :: int
  gs_buyVolumeGusd :: int
  gs_sellVolumeGusd :: int
  gs_hookFeesGusd :: int
  gs_lpFeesGusdEst :: int
  gs_revenueDistributedGusd :: int
  gs_revenueToVaultGusd :: int
  gs_revenueToTreasuryGusd :: int

record VaultCounters =
  vt_seededGusd :: int
  vt_depositsGusd :: int
  vt_withdrawsGusd :: int
  vt_sharesMinted :: int
  vt_sharesBurned :: int
  vt_depositCount :: int
  vt_withdrawCount :: int
  vt_revenueGusd :: int

record DailyCounters =
  dy_mintedGusd :: int
  dy_redeemedGusd :: int
  dy_mintCount :: int
  dy_redeemCount :: int
  dy_issuedGpu :: int
  dy_issuedCount :: int
  dy_issuanceProceedsGusd :: int
  dy_buyVolumeGusd :: int
  dy_sellVolumeGusd :: int
  dy_buyCount :: int
  dy_sellCount :: int
  dy_hookFeesGusd :: int
  dy_revenueDistributedGusd :: int

record HourCounters =
  hr_volumeGusd :: int
  hr_buyVolumeGusd :: int
  hr_sellVolumeGusd :: int
  hr_buys :: int
  hr_sells :: int
  hr_hookFeesGusd :: int
  hr_lpFeesGusdEst :: int
  hr_swaps :: int

definition zeroStats :: StatsCounters where
  "zeroStats =
     \<lparr>gs_gusdMintedGusd = 0, gs_gusdRedeemedGusd = 0, gs_mintCount = 0,
     gs_redeemCount = 0, gs_issuedGpu = 0, gs_issuedCount = 0, gs_issuanceProceedsGusd = 0,
     gs_issuanceFeesGusd = 0, gs_buyCount = 0, gs_sellCount = 0, gs_buyVolumeGusd = 0,
     gs_sellVolumeGusd = 0, gs_hookFeesGusd = 0, gs_lpFeesGusdEst = 0,
     gs_revenueDistributedGusd = 0, gs_revenueToVaultGusd = 0,
     gs_revenueToTreasuryGusd = 0\<rparr>"

definition zeroVault :: VaultCounters where
  "zeroVault =
     \<lparr>vt_seededGusd = 0, vt_depositsGusd = 0, vt_withdrawsGusd = 0, vt_sharesMinted = 0,
     vt_sharesBurned = 0, vt_depositCount = 0, vt_withdrawCount = 0, vt_revenueGusd = 0\<rparr>"

definition zeroDaily :: DailyCounters where
  "zeroDaily =
     \<lparr>dy_mintedGusd = 0, dy_redeemedGusd = 0, dy_mintCount = 0, dy_redeemCount = 0,
     dy_issuedGpu = 0, dy_issuedCount = 0, dy_issuanceProceedsGusd = 0, dy_buyVolumeGusd = 0,
     dy_sellVolumeGusd = 0, dy_buyCount = 0, dy_sellCount = 0, dy_hookFeesGusd = 0,
     dy_revenueDistributedGusd = 0\<rparr>"

definition zeroHour :: HourCounters where
  "zeroHour =
     \<lparr>hr_volumeGusd = 0, hr_buyVolumeGusd = 0, hr_sellVolumeGusd = 0, hr_buys = 0,
     hr_sells = 0, hr_hookFeesGusd = 0, hr_lpFeesGusdEst = 0, hr_swaps = 0\<rparr>"

definition addStats :: "StatsCounters \<Rightarrow> StatsCounters \<Rightarrow> StatsCounters" where
  "addStats a b =
     \<lparr>gs_gusdMintedGusd = gs_gusdMintedGusd a + gs_gusdMintedGusd b,
     gs_gusdRedeemedGusd = gs_gusdRedeemedGusd a + gs_gusdRedeemedGusd b,
     gs_mintCount = gs_mintCount a + gs_mintCount b,
     gs_redeemCount = gs_redeemCount a + gs_redeemCount b,
     gs_issuedGpu = gs_issuedGpu a + gs_issuedGpu b,
     gs_issuedCount = gs_issuedCount a + gs_issuedCount b,
     gs_issuanceProceedsGusd = gs_issuanceProceedsGusd a + gs_issuanceProceedsGusd b,
     gs_issuanceFeesGusd = gs_issuanceFeesGusd a + gs_issuanceFeesGusd b,
     gs_buyCount = gs_buyCount a + gs_buyCount b, gs_sellCount = gs_sellCount a + gs_sellCount b,
     gs_buyVolumeGusd = gs_buyVolumeGusd a + gs_buyVolumeGusd b,
     gs_sellVolumeGusd = gs_sellVolumeGusd a + gs_sellVolumeGusd b,
     gs_hookFeesGusd = gs_hookFeesGusd a + gs_hookFeesGusd b,
     gs_lpFeesGusdEst = gs_lpFeesGusdEst a + gs_lpFeesGusdEst b,
     gs_revenueDistributedGusd = gs_revenueDistributedGusd a + gs_revenueDistributedGusd b,
     gs_revenueToVaultGusd = gs_revenueToVaultGusd a + gs_revenueToVaultGusd b,
     gs_revenueToTreasuryGusd = gs_revenueToTreasuryGusd a + gs_revenueToTreasuryGusd b\<rparr>"

definition addVault :: "VaultCounters \<Rightarrow> VaultCounters \<Rightarrow> VaultCounters" where
  "addVault a b =
     \<lparr>vt_seededGusd = vt_seededGusd a + vt_seededGusd b,
     vt_depositsGusd = vt_depositsGusd a + vt_depositsGusd b,
     vt_withdrawsGusd = vt_withdrawsGusd a + vt_withdrawsGusd b,
     vt_sharesMinted = vt_sharesMinted a + vt_sharesMinted b,
     vt_sharesBurned = vt_sharesBurned a + vt_sharesBurned b,
     vt_depositCount = vt_depositCount a + vt_depositCount b,
     vt_withdrawCount = vt_withdrawCount a + vt_withdrawCount b,
     vt_revenueGusd = vt_revenueGusd a + vt_revenueGusd b\<rparr>"

definition addDaily :: "DailyCounters \<Rightarrow> DailyCounters \<Rightarrow> DailyCounters" where
  "addDaily a b =
     \<lparr>dy_mintedGusd = dy_mintedGusd a + dy_mintedGusd b,
     dy_redeemedGusd = dy_redeemedGusd a + dy_redeemedGusd b,
     dy_mintCount = dy_mintCount a + dy_mintCount b,
     dy_redeemCount = dy_redeemCount a + dy_redeemCount b,
     dy_issuedGpu = dy_issuedGpu a + dy_issuedGpu b,
     dy_issuedCount = dy_issuedCount a + dy_issuedCount b,
     dy_issuanceProceedsGusd = dy_issuanceProceedsGusd a + dy_issuanceProceedsGusd b,
     dy_buyVolumeGusd = dy_buyVolumeGusd a + dy_buyVolumeGusd b,
     dy_sellVolumeGusd = dy_sellVolumeGusd a + dy_sellVolumeGusd b,
     dy_buyCount = dy_buyCount a + dy_buyCount b, dy_sellCount = dy_sellCount a + dy_sellCount b,
     dy_hookFeesGusd = dy_hookFeesGusd a + dy_hookFeesGusd b,
     dy_revenueDistributedGusd = dy_revenueDistributedGusd a + dy_revenueDistributedGusd b\<rparr>"

definition addHour :: "HourCounters \<Rightarrow> HourCounters \<Rightarrow> HourCounters" where
  "addHour a b =
     \<lparr>hr_volumeGusd = hr_volumeGusd a + hr_volumeGusd b,
     hr_buyVolumeGusd = hr_buyVolumeGusd a + hr_buyVolumeGusd b,
     hr_sellVolumeGusd = hr_sellVolumeGusd a + hr_sellVolumeGusd b,
     hr_buys = hr_buys a + hr_buys b, hr_sells = hr_sells a + hr_sells b,
     hr_hookFeesGusd = hr_hookFeesGusd a + hr_hookFeesGusd b,
     hr_lpFeesGusdEst = hr_lpFeesGusdEst a + hr_lpFeesGusdEst b,
     hr_swaps = hr_swaps a + hr_swaps b\<rparr>"

subsection \<open>Rows\<close>

record ProtocolStatsRow =
  st_counters :: StatsCounters
  st_mintFeeBps :: "int option"
  st_redeemFeeBps :: "int option"
  st_hookFeeBps :: "int option"
  st_sgusdSplitBps :: "int option"
  st_vault :: "string option"
  st_treasury :: "string option"
  st_attestor :: "string option"
  st_epochLengthSec :: "int option"
  st_maxObservationAgeSec :: "int option"

record SgusdVaultRow =
  sv_counters :: VaultCounters

record DailyRow =
  da_bucketStart :: int
  da_counters :: DailyCounters

record PoolHourRow =
  ph_poolId :: string
  ph_bucketStart :: int
  ph_counters :: HourCounters

definition zeroProtocolStats :: ProtocolStatsRow where
  "zeroProtocolStats = \<lparr>st_counters = zeroStats, st_mintFeeBps = None, st_redeemFeeBps = None,
     st_hookFeeBps = None, st_sgusdSplitBps = None, st_vault = None, st_treasury = None, st_attestor = None,
     st_epochLengthSec = None, st_maxObservationAgeSec = None\<rparr>"

definition zeroSgusdVault :: SgusdVaultRow where
  "zeroSgusdVault = \<lparr>sv_counters = zeroVault\<rparr>"

definition zeroDailyBucket :: "int \<Rightarrow> DailyRow" where
  "zeroDailyBucket start = \<lparr>da_bucketStart = start, da_counters = zeroDaily\<rparr>"

definition zeroPoolHourBucket :: "string \<Rightarrow> int \<Rightarrow> PoolHourRow" where
  "zeroPoolHourBucket pool start = \<lparr>ph_poolId = pool, ph_bucketStart = start, ph_counters = zeroHour\<rparr>"

definition dailyKey :: "DailyRow \<Rightarrow> string" where
  "dailyKey r = int_text (da_bucketStart r)"

definition hourKey :: "PoolHourRow \<Rightarrow> string" where
  "hourKey r = ph_poolId r @ ''_'' @ int_text (ph_bucketStart r)"

record StatsDb = WalletDb +
  protocolStats :: "ProtocolStatsRow entity_table"
  sgusdVault :: "SgusdVaultRow entity_table"
  protocolStatsDaily :: "DailyRow entity_table"
  poolStatsHourly :: "PoolHourRow entity_table"

subsection \<open>Bumps\<close>

definition bumpStats :: "StatsCounters \<Rightarrow> 'a StatsDb_scheme \<Rightarrow> 'a StatsDb_scheme" where
  "bumpStats d db = db\<lparr>protocolStats := upsertRow (\<lambda>_. ''protocol'')
     (zeroProtocolStats\<lparr>st_counters := addStats zeroStats d\<rparr>)
     (\<lambda>r. r\<lparr>st_counters := addStats (st_counters r) d\<rparr>) (protocolStats db)\<rparr>"

text \<open>A configuration mirror: the columns are set on the zero row and on conflict alike.\<close>

definition setStats :: "(ProtocolStatsRow \<Rightarrow> ProtocolStatsRow) \<Rightarrow> 'a StatsDb_scheme \<Rightarrow> 'a StatsDb_scheme" where
  "setStats f db =
     db\<lparr>protocolStats := upsertRow (\<lambda>_. ''protocol'') (f zeroProtocolStats) f (protocolStats db)\<rparr>"

definition bumpVault :: "VaultCounters \<Rightarrow> 'a StatsDb_scheme \<Rightarrow> 'a StatsDb_scheme" where
  "bumpVault d db = db\<lparr>sgusdVault := upsertRow (\<lambda>_. ''vault'')
     (zeroSgusdVault\<lparr>sv_counters := addVault zeroVault d\<rparr>)
     (\<lambda>r. r\<lparr>sv_counters := addVault (sv_counters r) d\<rparr>) (sgusdVault db)\<rparr>"

definition bumpDailyBucket :: "int \<Rightarrow> DailyCounters \<Rightarrow> 'a StatsDb_scheme \<Rightarrow> 'a StatsDb_scheme" where
  "bumpDailyBucket timestampSec d db =
     (let start = dayBucketStart timestampSec
      in db\<lparr>protocolStatsDaily := upsertRow dailyKey
           ((zeroDailyBucket start)\<lparr>da_counters := addDaily zeroDaily d\<rparr>)
           (\<lambda>r. r\<lparr>da_counters := addDaily (da_counters r) d\<rparr>) (protocolStatsDaily db)\<rparr>)"

definition bumpPoolHourBucket :: "string \<Rightarrow> int \<Rightarrow> HourCounters \<Rightarrow> 'a StatsDb_scheme \<Rightarrow> 'a StatsDb_scheme" where
  "bumpPoolHourBucket pool timestampSec d db =
     (let start = hourBucketStart timestampSec
      in db\<lparr>poolStatsHourly := upsertRow hourKey
           ((zeroPoolHourBucket pool start)\<lparr>ph_counters := addHour zeroHour d\<rparr>)
           (\<lambda>r. r\<lparr>ph_counters := addHour (ph_counters r) d\<rparr>) (poolStatsHourly db)\<rparr>)"

end
