(* ===== verification/MarketHandlers.thy ===== *)
theory MarketHandlers
  imports ProtocolCounters
begin

text \<open>
  The handlers of apps/indexer/src/handlers for gUSD, sgUSD, the router, the primary market, the
  revenue ledger, the stable router and the oracle. A handler that raises changes nothing: the event's
  writes are one transaction of Envio.
\<close>

subsection \<open>Arguments\<close>

record MintedArgs =
  mi_to :: string
  mi_underlyingIn :: int
  mi_gusdOut :: int
  mi_fee :: int

record RedeemedArgs =
  rd_from :: string
  rd_gusdIn :: int
  rd_underlyingOut :: int
  rd_fee :: int

record DepositArgs =
  de_sender :: string
  de_owner :: string
  de_assets :: int
  de_shares :: int

record WithdrawArgs =
  wi_sender :: string
  wi_receiver :: string
  wi_owner :: string
  wi_assets :: int
  wi_shares :: int

record GpuCreatedArgs =
  gc_gpuId :: string
  gc_token :: string
  gc_feeBps :: int
  gc_poolFee :: int
  gc_tickSpacing :: int

record IssuedArgs =
  is_caller :: string
  is_gpuId :: string
  is_to :: string
  is_amount :: int
  is_base :: int
  is_fee :: int

record BuyArgs =
  bu_gpuId :: string
  bu_recipient :: string
  bu_payer :: string
  bu_gpuOut :: int
  bu_paid :: int
  bu_polFeeGusd :: int
  bu_hookFeeGusd :: int
  bu_issuanceFee :: int

record SellArgs =
  se_gpuId :: string
  se_recipient :: string
  se_gpuIn :: int
  se_out :: int
  se_polFeeGusd :: int
  se_hookFeeGusd :: int

record MintedViaSwapArgs =
  mv_stable :: string
  mv_to :: string
  mv_amountIn :: int
  mv_underlyingOut :: int
  mv_gusdOut :: int

record RedeemedViaSwapArgs =
  rv_stable :: string
  rv_to :: string
  rv_gusdIn :: int
  rv_underlyingIn :: int
  rv_stableOut :: int

record DistributedArgs =
  di_amount :: int
  di_toVault :: int
  di_toTreasury :: int

record PriceConsumedArgs =
  pr_gpuId :: string
  pr_price :: int
  pr_epoch :: int
  pr_observedAt :: int
  pr_reportHash :: string
  pr_caller :: string

record SignerArgs =
  sg_previous :: string
  sg_next :: string

subsection \<open>Rows\<close>

record GpuAssetRow =
  ga_gpuId :: string
  ga_token :: string
  ga_gpuSku :: "int list"
  ga_issuanceFeeBps :: int
  ga_issuanceEnabled :: bool
  ga_poolFee :: int
  ga_tickSpacing :: int
  ga_issuedGpu :: int
  ga_issuedCount :: int
  ga_issuanceProceedsGusd :: int
  ga_issuanceFeesGusd :: int
  ga_principalContributedGusd :: int
  ga_polGusd :: int
  ga_polGpu :: int
  ga_polFeesGusd :: int
  ga_buyCount :: int
  ga_sellCount :: int
  ga_volumeGusd :: int
  ga_canonicalPoolId :: "string option"
  ga_firstIssuedAtSec :: "int option"
  ga_lastIssuedAtSec :: "int option"
  ga_lastTradeAtSec :: "int option"

record GpuOracleRow =
  go_gpuId :: string
  go_price :: int
  go_observedAtSec :: int
  go_epoch :: int
  go_reportHash :: string
  go_caller :: string
  go_lastConsumedBlockNumber :: int

record MarketDb = StatsDb +
  gusdMinted :: "MintedArgs logged entity_table"
  gusdRedeemed :: "RedeemedArgs logged entity_table"
  sgusdDeposited :: "DepositArgs logged entity_table"
  sgusdWithdrawn :: "WithdrawArgs logged entity_table"
  sgusdSeeded :: "int logged entity_table"
  gpuCreated :: "(GpuCreatedArgs \<times> int list) logged entity_table"
  gpuIssued :: "IssuedArgs logged entity_table"
  routerBuy :: "BuyArgs logged entity_table"
  routerSell :: "SellArgs logged entity_table"
  stableMintViaSwap :: "MintedViaSwapArgs logged entity_table"
  stableRedeemViaSwap :: "RedeemedViaSwapArgs logged entity_table"
  revenueDistributed :: "DistributedArgs logged entity_table"
  priceConsumed :: "PriceConsumedArgs logged entity_table"
  signerTransferStarted :: "SignerArgs logged entity_table"
  signerAccepted :: "SignerArgs logged entity_table"
  gpuAssets :: "GpuAssetRow entity_table"
  gpuOracleState :: "GpuOracleRow entity_table"

text \<open>The asset of an event: a missing row stops the indexing.\<close>

definition withAsset ::
  "string \<Rightarrow> string \<Rightarrow> (GpuAssetRow \<Rightarrow> GpuAssetRow) \<Rightarrow> 'a MarketDb_scheme \<Rightarrow> index_error + 'a MarketDb_scheme" where
  "withAsset what gpuId f db =
     (case js_get (gpuAssets db) gpuId of
        None \<Rightarrow> Inl (Untracked what gpuId)
      | Some asset \<Rightarrow>
          andThen (updateRow ''GpuAsset'' gpuId (\<lambda>_. f asset) (gpuAssets db))
            (\<lambda>t. Inr (db\<lparr>gpuAssets := t\<rparr>)))"

subsection \<open>gUSD\<close>

definition mintedData :: "MintedArgs \<Rightarrow> (string \<times> jsval) list" where
  "mintedData a = [(''to'', JStr (mi_to a)), (''underlyingIn'', JBig (mi_underlyingIn a)),
     (''gusdOut'', JBig (mi_gusdOut a)), (''fee'', JBig (mi_fee a))]"

definition onMinted :: "EventMeta \<Rightarrow> int \<Rightarrow> MintedArgs \<Rightarrow> 'a MarketDb_scheme \<Rightarrow> index_error + 'a MarketDb_scheme" where
  "onMinted event chain a db =
     (let keys = eventKeys event chain;
          db1 = db\<lparr>gusdMinted := logRow keys a (gusdMinted db)\<rparr>
      in andThen (recordUserEvent (userEventOf event chain ''Minted'' (mi_to a) (mintedData a)) db1)
           (\<lambda>db2. Inr (bumpDailyBucket (blockTimestamp keys)
              (zeroDaily\<lparr>dy_mintedGusd := mi_gusdOut a, dy_mintCount := 1\<rparr>)
              (bumpStats (zeroStats\<lparr>gs_gusdMintedGusd := mi_gusdOut a, gs_mintCount := 1\<rparr>) db2))))"

definition redeemedData :: "RedeemedArgs \<Rightarrow> (string \<times> jsval) list" where
  "redeemedData a = [(''from'', JStr (rd_from a)), (''gusdIn'', JBig (rd_gusdIn a)),
     (''underlyingOut'', JBig (rd_underlyingOut a)), (''fee'', JBig (rd_fee a))]"

definition onRedeemed :: "EventMeta \<Rightarrow> int \<Rightarrow> RedeemedArgs \<Rightarrow> 'a MarketDb_scheme \<Rightarrow> index_error + 'a MarketDb_scheme" where
  "onRedeemed event chain a db =
     (let keys = eventKeys event chain;
          db1 = db\<lparr>gusdRedeemed := logRow keys a (gusdRedeemed db)\<rparr>
      in andThen (recordUserEvent (userEventOf event chain ''Redeemed'' (rd_from a) (redeemedData a)) db1)
           (\<lambda>db2. Inr (bumpDailyBucket (blockTimestamp keys)
              (zeroDaily\<lparr>dy_redeemedGusd := rd_gusdIn a, dy_redeemCount := 1\<rparr>)
              (bumpStats (zeroStats\<lparr>gs_gusdRedeemedGusd := rd_gusdIn a, gs_redeemCount := 1\<rparr>) db2))))"

definition onFeesUpdated :: "int \<Rightarrow> int \<Rightarrow> 'a MarketDb_scheme \<Rightarrow> 'a MarketDb_scheme" where
  "onFeesUpdated mintFee redeemFee db =
     setStats (\<lambda>r. r\<lparr>st_mintFeeBps := Some mintFee, st_redeemFeeBps := Some redeemFee\<rparr>) db"

subsection \<open>sgUSD\<close>

definition depositData :: "DepositArgs \<Rightarrow> (string \<times> jsval) list" where
  "depositData a = [(''sender'', JStr (de_sender a)), (''owner'', JStr (de_owner a)),
     (''assets'', JBig (de_assets a)), (''shares'', JBig (de_shares a))]"

definition onDeposit :: "EventMeta \<Rightarrow> int \<Rightarrow> DepositArgs \<Rightarrow> 'a MarketDb_scheme \<Rightarrow> index_error + 'a MarketDb_scheme" where
  "onDeposit event chain a db =
     (let keys = eventKeys event chain;
          db1 = db\<lparr>sgusdDeposited := logRow keys a (sgusdDeposited db)\<rparr>
      in andThen (recordUserEvent (userEventOf event chain ''Deposit'' (de_owner a) (depositData a)) db1)
           (\<lambda>db2. let db3 = recordVaultDeposit keys (de_owner a) (de_assets a) (de_shares a) db2;
                      isSeed = (toLowerCase (de_owner a) = toLowerCase (log_address event))
                  in Inr (bumpVault (zeroVault\<lparr>vt_depositsGusd := (if isSeed then 0 else de_assets a),
                       vt_sharesMinted := de_shares a, vt_depositCount := 1\<rparr>) db3)))"

definition withdrawData :: "WithdrawArgs \<Rightarrow> (string \<times> jsval) list" where
  "withdrawData a = [(''sender'', JStr (wi_sender a)), (''receiver'', JStr (wi_receiver a)),
     (''owner'', JStr (wi_owner a)), (''assets'', JBig (wi_assets a)), (''shares'', JBig (wi_shares a))]"

definition onWithdraw :: "EventMeta \<Rightarrow> int \<Rightarrow> WithdrawArgs \<Rightarrow> 'a MarketDb_scheme \<Rightarrow> index_error + 'a MarketDb_scheme" where
  "onWithdraw event chain a db =
     (let keys = eventKeys event chain;
          db1 = db\<lparr>sgusdWithdrawn := logRow keys a (sgusdWithdrawn db)\<rparr>
      in andThen (recordUserEvent (userEventOf event chain ''Withdraw'' (wi_owner a) (withdrawData a)) db1)
           (\<lambda>db2. Inr (bumpVault (zeroVault\<lparr>vt_withdrawsGusd := wi_assets a, vt_sharesBurned := wi_shares a,
                vt_withdrawCount := 1\<rparr>)
              (recordVaultWithdraw keys (wi_owner a) (wi_assets a) (wi_shares a) db2))))"

definition onSeeded :: "EventKeys \<Rightarrow> int \<Rightarrow> 'a MarketDb_scheme \<Rightarrow> 'a MarketDb_scheme" where
  "onSeeded keys assets db =
     bumpVault (zeroVault\<lparr>vt_seededGusd := assets\<rparr>) (db\<lparr>sgusdSeeded := logRow keys assets (sgusdSeeded db)\<rparr>)"

subsection \<open>Router\<close>

definition buyData :: "BuyArgs \<Rightarrow> (string \<times> jsval) list" where
  "buyData a = [(''gpuId'', JStr (bu_gpuId a)), (''recipient'', JStr (bu_recipient a)),
     (''payer'', JStr (bu_payer a)), (''gpuOut'', JBig (bu_gpuOut a)), (''paid'', JBig (bu_paid a)),
     (''polFeeGusd'', JBig (bu_polFeeGusd a)), (''hookFeeGusd'', JBig (bu_hookFeeGusd a)),
     (''issuanceFee'', JBig (bu_issuanceFee a))]"

definition onBuy :: "EventMeta \<Rightarrow> int \<Rightarrow> BuyArgs \<Rightarrow> 'a MarketDb_scheme \<Rightarrow> index_error + 'a MarketDb_scheme" where
  "onBuy event chain a db =
     (let keys = eventKeys event chain;
          db1 = db\<lparr>routerBuy := logRow keys a (routerBuy db)\<rparr>
      in andThen (recordUserEvent (userEventOf event chain ''Buy'' (bu_recipient a) (buyData a)) db1)
           (\<lambda>db2. andThen
              (withAsset ''Buy'' (bu_gpuId a)
                (\<lambda>g. g\<lparr>ga_buyCount := ga_buyCount g + 1, ga_volumeGusd := ga_volumeGusd g + bu_paid a,
                   ga_lastTradeAtSec := Some (blockTimestamp keys)\<rparr>)
                (recordGpuAcquisition keys (bu_recipient a) (bu_gpuId a) (bu_gpuOut a) (bu_paid a) db2))
              (\<lambda>db3. Inr (bumpDailyBucket (blockTimestamp keys)
                 (zeroDaily\<lparr>dy_buyVolumeGusd := bu_paid a, dy_buyCount := 1\<rparr>)
                 (bumpStats (zeroStats\<lparr>gs_buyCount := 1, gs_buyVolumeGusd := bu_paid a\<rparr>) db3)))))"

definition sellData :: "SellArgs \<Rightarrow> (string \<times> jsval) list" where
  "sellData a = [(''gpuId'', JStr (se_gpuId a)), (''recipient'', JStr (se_recipient a)),
     (''gpuIn'', JBig (se_gpuIn a)), (''out'', JBig (se_out a)),
     (''polFeeGusd'', JBig (se_polFeeGusd a)), (''hookFeeGusd'', JBig (se_hookFeeGusd a))]"

definition onSell :: "EventMeta \<Rightarrow> int \<Rightarrow> SellArgs \<Rightarrow> 'a MarketDb_scheme \<Rightarrow> index_error + 'a MarketDb_scheme" where
  "onSell event chain a db =
     (let keys = eventKeys event chain;
          db1 = db\<lparr>routerSell := logRow keys a (routerSell db)\<rparr>
      in andThen (recordUserEvent (userEventOf event chain ''Sell'' (se_recipient a) (sellData a)) db1)
           (\<lambda>db2. andThen
              (withAsset ''Sell'' (se_gpuId a)
                (\<lambda>g. g\<lparr>ga_sellCount := ga_sellCount g + 1, ga_volumeGusd := ga_volumeGusd g + se_out a,
                   ga_lastTradeAtSec := Some (blockTimestamp keys)\<rparr>)
                (recordGpuDisposal keys (se_recipient a) (se_gpuId a) (se_gpuIn a) (se_out a) db2))
              (\<lambda>db3. Inr (bumpDailyBucket (blockTimestamp keys)
                 (zeroDaily\<lparr>dy_sellVolumeGusd := se_out a, dy_sellCount := 1\<rparr>)
                 (bumpStats (zeroStats\<lparr>gs_sellCount := 1, gs_sellVolumeGusd := se_out a\<rparr>) db3)))))"

subsection \<open>Primary market\<close>

definition onGpuCreated :: "EventKeys \<Rightarrow> GpuCreatedArgs \<Rightarrow> 'a MarketDb_scheme \<Rightarrow> 'a MarketDb_scheme" where
  "onGpuCreated keys a db =
     (let sku = decodeSku (gc_gpuId a);
          db1 = db\<lparr>gpuCreated := logRow keys (a, sku) (gpuCreated db)\<rparr>;
          db2 = db1\<lparr>gpuAssets := upsertRow ga_gpuId
            \<lparr>ga_gpuId = gc_gpuId a, ga_token = gc_token a, ga_gpuSku = sku, ga_issuanceFeeBps = gc_feeBps a,
             ga_issuanceEnabled = False, ga_poolFee = gc_poolFee a, ga_tickSpacing = gc_tickSpacing a,
             ga_issuedGpu = 0, ga_issuedCount = 0, ga_issuanceProceedsGusd = 0, ga_issuanceFeesGusd = 0,
             ga_principalContributedGusd = 0, ga_polGusd = 0, ga_polGpu = 0, ga_polFeesGusd = 0,
             ga_buyCount = 0, ga_sellCount = 0, ga_volumeGusd = 0, ga_canonicalPoolId = None,
             ga_firstIssuedAtSec = None, ga_lastIssuedAtSec = None, ga_lastTradeAtSec = None\<rparr>
            (\<lambda>g. g\<lparr>ga_token := gc_token a, ga_gpuSku := sku, ga_issuanceFeeBps := gc_feeBps a,
               ga_poolFee := gc_poolFee a, ga_tickSpacing := gc_tickSpacing a\<rparr>)
            (gpuAssets db1)\<rparr>
      in db2\<lparr>gpuTokens := upsertRow gt_token \<lparr>gt_token = gc_token a, gt_gpuId = gc_gpuId a\<rparr>
           (\<lambda>r. r\<lparr>gt_gpuId := gc_gpuId a\<rparr>) (gpuTokens db2)\<rparr>)"

definition contractAddress :: "(string \<times> contract_address) list \<Rightarrow> string \<Rightarrow> contract_address" where
  "contractAddress config name = (case map_of config name of None \<Rightarrow> NoAddress | Some a \<Rightarrow> a)"

definition isInSwapBackstop :: "(string \<times> contract_address) list \<Rightarrow> string \<Rightarrow> bool" where
  "isInSwapBackstop config caller =
     (case contractAddress config ''GPUHook'' of
        OneAddress hook \<Rightarrow> toLowerCase caller = toLowerCase hook
      | _ \<Rightarrow> False)"

definition issuedData :: "IssuedArgs \<Rightarrow> (string \<times> jsval) list" where
  "issuedData a = [(''caller'', JStr (is_caller a)), (''gpuId'', JStr (is_gpuId a)), (''to'', JStr (is_to a)),
     (''amount'', JBig (is_amount a)), (''base'', JBig (is_base a)), (''fee'', JBig (is_fee a))]"

definition onIssued ::
  "(string \<times> contract_address) list \<Rightarrow> EventMeta \<Rightarrow> int \<Rightarrow> IssuedArgs \<Rightarrow> 'a MarketDb_scheme \<Rightarrow>
   index_error + 'a MarketDb_scheme" where
  "onIssued config event chain a db =
     (let keys = eventKeys event chain;
          backstop = isInSwapBackstop config (is_caller a);
          db1 = db\<lparr>gpuIssued := logRow keys a (gpuIssued db)\<rparr>
      in andThen
           (if backstop then Inr db1
            else recordUserEvent (userEventOf event chain ''Issued'' (is_to a) (issuedData a)) db1)
           (\<lambda>db2. andThen
              (withAsset ''Issued'' (is_gpuId a)
                (\<lambda>g. g\<lparr>ga_issuedGpu := ga_issuedGpu g + is_amount a, ga_issuedCount := ga_issuedCount g + 1,
                   ga_issuanceProceedsGusd := ga_issuanceProceedsGusd g + is_base a,
                   ga_issuanceFeesGusd := ga_issuanceFeesGusd g + is_fee a,
                   ga_principalContributedGusd := ga_principalContributedGusd g + is_base a,
                   ga_firstIssuedAtSec := (case ga_firstIssuedAtSec g of None \<Rightarrow> Some (blockTimestamp keys) | Some t \<Rightarrow> Some t),
                   ga_lastIssuedAtSec := Some (blockTimestamp keys)\<rparr>) db2)
              (\<lambda>db3. let db4 = bumpDailyBucket (blockTimestamp keys)
                         (zeroDaily\<lparr>dy_issuedGpu := is_amount a, dy_issuedCount := 1,
                            dy_issuanceProceedsGusd := is_base a\<rparr>)
                         (bumpStats (zeroStats\<lparr>gs_issuedGpu := is_amount a, gs_issuedCount := 1,
                            gs_issuanceProceedsGusd := is_base a, gs_issuanceFeesGusd := is_fee a\<rparr>) db3)
                     in case contractAddress config ''GpuRouter'' of
                          OneAddress router \<Rightarrow>
                            Inr (if toLowerCase (is_caller a) \<noteq> toLowerCase router \<and> \<not> backstop
                                 then recordGpuAcquisition keys (is_to a) (is_gpuId a) (is_amount a)
                                   (is_base a + is_fee a) db4
                                 else db4)
                        | _ \<Rightarrow> Inl (NoAddressOf ''GpuRouter''))))"

definition onIssuanceEnabledSet :: "string \<Rightarrow> bool \<Rightarrow> 'a MarketDb_scheme \<Rightarrow> index_error + 'a MarketDb_scheme" where
  "onIssuanceEnabledSet gpuId on db =
     withAsset ''IssuanceEnabledSet'' gpuId (\<lambda>g. g\<lparr>ga_issuanceEnabled := on\<rparr>) db"

definition onIssuanceFeeSet :: "string \<Rightarrow> int \<Rightarrow> 'a MarketDb_scheme \<Rightarrow> index_error + 'a MarketDb_scheme" where
  "onIssuanceFeeSet gpuId fee db =
     withAsset ''IssuanceFeeSet'' gpuId (\<lambda>g. g\<lparr>ga_issuanceFeeBps := fee\<rparr>) db"

subsection \<open>Revenue and the stable router\<close>

definition onDistributed :: "EventKeys \<Rightarrow> DistributedArgs \<Rightarrow> 'a MarketDb_scheme \<Rightarrow> 'a MarketDb_scheme" where
  "onDistributed keys a db =
     (let db1 = db\<lparr>revenueDistributed := logRow keys a (revenueDistributed db)\<rparr>;
          db2 = bumpStats (zeroStats\<lparr>gs_revenueDistributedGusd := di_amount a,
            gs_revenueToVaultGusd := di_toVault a, gs_revenueToTreasuryGusd := di_toTreasury a\<rparr>) db1;
          db3 = bumpVault (zeroVault\<lparr>vt_revenueGusd := di_toVault a\<rparr>) db2
      in bumpDailyBucket (blockTimestamp keys) (zeroDaily\<lparr>dy_revenueDistributedGusd := di_amount a\<rparr>) db3)"

definition onSplitUpdated :: "int \<Rightarrow> 'a MarketDb_scheme \<Rightarrow> 'a MarketDb_scheme" where
  "onSplitUpdated bps db = setStats (\<lambda>r. r\<lparr>st_sgusdSplitBps := Some bps\<rparr>) db"

definition onRecipientsUpdated :: "string \<Rightarrow> string \<Rightarrow> 'a MarketDb_scheme \<Rightarrow> 'a MarketDb_scheme" where
  "onRecipientsUpdated vault treasury db =
     setStats (\<lambda>r. r\<lparr>st_vault := Some vault, st_treasury := Some treasury\<rparr>) db"

definition onMintedViaSwap :: "EventKeys \<Rightarrow> MintedViaSwapArgs \<Rightarrow> 'a MarketDb_scheme \<Rightarrow> 'a MarketDb_scheme" where
  "onMintedViaSwap keys a db = db\<lparr>stableMintViaSwap := logRow keys a (stableMintViaSwap db)\<rparr>"

definition onRedeemedViaSwap :: "EventKeys \<Rightarrow> RedeemedViaSwapArgs \<Rightarrow> 'a MarketDb_scheme \<Rightarrow> 'a MarketDb_scheme" where
  "onRedeemedViaSwap keys a db = db\<lparr>stableRedeemViaSwap := logRow keys a (stableRedeemViaSwap db)\<rparr>"

subsection \<open>Oracle\<close>

definition onPriceConsumed :: "EventKeys \<Rightarrow> PriceConsumedArgs \<Rightarrow> 'a MarketDb_scheme \<Rightarrow> 'a MarketDb_scheme" where
  "onPriceConsumed keys a db =
     (let db1 = db\<lparr>priceConsumed := logRow keys a (priceConsumed db)\<rparr>;
          row = \<lparr>go_gpuId = pr_gpuId a, go_price = pr_price a, go_observedAtSec = pr_observedAt a,
            go_epoch = pr_epoch a, go_reportHash = pr_reportHash a, go_caller = pr_caller a,
            go_lastConsumedBlockNumber = blockNumber keys\<rparr>
      in db1\<lparr>gpuOracleState := upsertRow go_gpuId row
           (\<lambda>r. r\<lparr>go_price := pr_price a, go_observedAtSec := pr_observedAt a, go_epoch := pr_epoch a,
              go_reportHash := pr_reportHash a, go_caller := pr_caller a,
              go_lastConsumedBlockNumber := blockNumber keys\<rparr>)
           (gpuOracleState db1)\<rparr>)"

definition onSignerTransferStarted :: "EventKeys \<Rightarrow> SignerArgs \<Rightarrow> 'a MarketDb_scheme \<Rightarrow> 'a MarketDb_scheme" where
  "onSignerTransferStarted keys a db =
     db\<lparr>signerTransferStarted := logRow keys a (signerTransferStarted db)\<rparr>"

definition onSignerAccepted :: "EventKeys \<Rightarrow> SignerArgs \<Rightarrow> 'a MarketDb_scheme \<Rightarrow> 'a MarketDb_scheme" where
  "onSignerAccepted keys a db =
     setStats (\<lambda>r. r\<lparr>st_attestor := Some (sg_next a)\<rparr>)
       (db\<lparr>signerAccepted := logRow keys a (signerAccepted db)\<rparr>)"

definition onEpochLengthSet :: "int \<Rightarrow> 'a MarketDb_scheme \<Rightarrow> 'a MarketDb_scheme" where
  "onEpochLengthSet seconds db = setStats (\<lambda>r. r\<lparr>st_epochLengthSec := Some seconds\<rparr>) db"

definition onMaxObservationAgeSet :: "int \<Rightarrow> 'a MarketDb_scheme \<Rightarrow> 'a MarketDb_scheme" where
  "onMaxObservationAgeSet seconds db = setStats (\<lambda>r. r\<lparr>st_maxObservationAgeSec := Some seconds\<rparr>) db"

end
