(* ===== verification/PoolHandlers.thy ===== *)
theory PoolHandlers
  imports MarketHandlers
begin

text \<open>
  The handlers of the Uniswap v4 side: hook.ts, pool-manager.ts, liquidity.ts and
  position-manager.ts under apps/indexer/src/handlers.
\<close>

record GpuFillArgs =
  gf_poolId :: string
  gf_gpuId :: string
  gf_sender :: string
  gf_isBuy :: bool
  gf_gpuAmount :: int
  gf_gusdAmount :: int
  gf_protocolFee :: int
  gf_source :: int

record HookSwapArgs =
  hs_poolId :: string
  hs_sender :: string
  hs_amount0 :: int
  hs_amount1 :: int
  hs_swapFee :: int

record InitializeArgs =
  iz_poolId :: string
  iz_currency0 :: string
  iz_currency1 :: string
  iz_fee :: int
  iz_tickSpacing :: int
  iz_hooks :: string
  iz_sqrtPriceX96 :: int
  iz_tick :: int

record SwapArgs =
  sw_poolId :: string
  sw_sender :: string
  sw_amount0 :: int
  sw_amount1 :: int
  sw_sqrtPriceX96 :: int
  sw_liquidity :: int
  sw_tick :: int
  sw_fee :: int

record ModifyArgs =
  ml_poolId :: string
  ml_sender :: string
  ml_tickLower :: int
  ml_tickUpper :: int
  ml_liquidityDelta :: int
  ml_salt :: string

record DonateArgs =
  dn_poolId :: string
  dn_sender :: string
  dn_amount0 :: int
  dn_amount1 :: int

record PoolRow =
  po_poolId :: string
  po_gpuId :: "string option"
  po_canonical :: bool
  po_registeredBlockNumber :: "int option"
  po_registeredAtSec :: "int option"
  po_currency0 :: "string option"
  po_currency1 :: "string option"
  po_fee :: "int option"
  po_tickSpacing :: "int option"
  po_hooks :: "string option"
  po_gusdIsCurrency0 :: "bool option"
  po_sqrtPriceX96 :: "int option"
  po_tick :: "int option"
  po_liquidity :: "int option"
  po_swapCount :: int
  po_volumeGusd :: int
  po_buyVolumeGusd :: int
  po_sellVolumeGusd :: int
  po_hookFeesGusd :: int
  po_lpFeesGusdEst :: int
  po_lastSwapAtSec :: "int option"
  po_lastSwapBlockNumber :: "int option"

record LiquidityRow =
  lq_poolId :: string
  lq_tickLower :: int
  lq_tickUpper :: int
  lq_salt :: string
  lq_liquidity :: int
  lq_firstModifier :: string
  lq_lastModifier :: string
  lq_modifyCount :: int
  lq_firstModifiedAtSec :: int
  lq_lastModifiedAtSec :: int

record PoolDb = MarketDb +
  hookPoolRegistered :: "(string \<times> string) logged entity_table"
  hookSwap :: "HookSwapArgs logged entity_table"
  gpuFill :: "GpuFillArgs logged entity_table"
  pmPoolInitialized :: "InitializeArgs logged entity_table"
  pmSwap :: "SwapArgs logged entity_table"
  pmLiquidityModified :: "ModifyArgs logged entity_table"
  pmDonate :: "DonateArgs logged entity_table"
  posmPositionModified :: "ModifyArgs logged entity_table"
  pools :: "PoolRow entity_table"
  poolLiquidityPositions :: "LiquidityRow entity_table"

text \<open>A pool nobody has traded on; the columns an insert leaves out are absent.\<close>

definition freshPool :: "string \<Rightarrow> PoolRow" where
  "freshPool poolId =
     \<lparr>po_poolId = poolId, po_gpuId = None, po_canonical = False, po_registeredBlockNumber = None,
      po_registeredAtSec = None, po_currency0 = None, po_currency1 = None, po_fee = None,
      po_tickSpacing = None, po_hooks = None, po_gusdIsCurrency0 = None, po_sqrtPriceX96 = None,
      po_tick = None, po_liquidity = None, po_swapCount = 0, po_volumeGusd = 0, po_buyVolumeGusd = 0,
      po_sellVolumeGusd = 0, po_hookFeesGusd = 0, po_lpFeesGusdEst = 0, po_lastSwapAtSec = None,
      po_lastSwapBlockNumber = None\<rparr>"

definition updatePool :: "string \<Rightarrow> (PoolRow \<Rightarrow> PoolRow) \<Rightarrow> 'a PoolDb_scheme \<Rightarrow> index_error + 'a PoolDb_scheme" where
  "updatePool poolId f db =
     andThen (updateRow ''Pool'' poolId f (pools db)) (\<lambda>t. Inr (db\<lparr>pools := t\<rparr>))"

subsection \<open>Hook\<close>

definition onPoolRegistered ::
  "EventMeta \<Rightarrow> int \<Rightarrow> string \<Rightarrow> string \<Rightarrow> 'a PoolDb_scheme \<Rightarrow> index_error + 'a PoolDb_scheme" where
  "onPoolRegistered event chain gpuId poolId db =
     (let keys = eventKeys event chain;
          db1 = db\<lparr>hookPoolRegistered := logRow keys (poolId, gpuId) (hookPoolRegistered db)\<rparr>;
          register = (\<lambda>r. r\<lparr>po_gpuId := Some gpuId, po_canonical := True,
            po_registeredBlockNumber := Some (block_number event),
            po_registeredAtSec := Some (block_timestamp event)\<rparr>);
          db2 = db1\<lparr>pools := upsertRow po_poolId (register (freshPool poolId)) register (pools db1)\<rparr>
      in case js_get (gpuAssets db2) gpuId of
           None \<Rightarrow> Inl (Untracked ''PoolRegistered'' gpuId)
         | Some asset \<Rightarrow>
             andThen (withAsset ''PoolRegistered'' gpuId (\<lambda>g. g\<lparr>ga_canonicalPoolId := Some poolId\<rparr>) db2)
               (\<lambda>db3. case js_get (pools db3) poolId of
                  None \<Rightarrow> Inl (Untracked ''PoolRegistered'' poolId)
                | Some pool \<Rightarrow>
                    (case po_currency0 pool of
                       None \<Rightarrow> Inr db3
                     | Some c0 \<Rightarrow>
                         updatePool poolId
                           (\<lambda>r. r\<lparr>po_gusdIsCurrency0 := Some (toLowerCase c0 \<noteq> toLowerCase (ga_token asset))\<rparr>)
                           db3)))"

definition onGpuFill :: "EventKeys \<Rightarrow> GpuFillArgs \<Rightarrow> 'a PoolDb_scheme \<Rightarrow> index_error + 'a PoolDb_scheme" where
  "onGpuFill keys a db =
     (let db1 = db\<lparr>gpuFill := logRow keys a (gpuFill db)\<rparr>;
          n = gf_gusdAmount a; fee = gf_protocolFee a; buySide = gf_isBuy a
      in case js_get (pools db1) (gf_poolId a) of
           None \<Rightarrow> Inl (Untracked ''GpuFill'' (gf_poolId a))
         | Some pool \<Rightarrow>
             andThen
               (updatePool (gf_poolId a)
                 (\<lambda>r. r\<lparr>po_volumeGusd := po_volumeGusd pool + n,
                    po_buyVolumeGusd := (if buySide then po_buyVolumeGusd pool + n else po_buyVolumeGusd pool),
                    po_sellVolumeGusd := (if buySide then po_sellVolumeGusd pool else po_sellVolumeGusd pool + n),
                    po_hookFeesGusd := po_hookFeesGusd pool + fee,
                    po_lastSwapAtSec := Some (blockTimestamp keys),
                    po_lastSwapBlockNumber := Some (blockNumber keys)\<rparr>) db1)
               (\<lambda>db2. let
                    db3 = bumpPoolHourBucket (gf_poolId a) (blockTimestamp keys)
                      (zeroHour\<lparr>hr_volumeGusd := n, hr_buyVolumeGusd := (if buySide then n else 0),
                         hr_sellVolumeGusd := (if buySide then 0 else n), hr_hookFeesGusd := fee\<rparr>) db2;
                    db4 = bumpStats (zeroStats\<lparr>gs_hookFeesGusd := fee\<rparr>) db3;
                    db5 = bumpDailyBucket (blockTimestamp keys) (zeroDaily\<lparr>dy_hookFeesGusd := fee\<rparr>) db4
                  in withAsset ''GpuFill'' (gf_gpuId a) (\<lambda>g. g\<lparr>ga_polFeesGusd := ga_polFeesGusd g + fee\<rparr>) db5))"

definition onHookSwap :: "EventKeys \<Rightarrow> HookSwapArgs \<Rightarrow> 'a PoolDb_scheme \<Rightarrow> 'a PoolDb_scheme" where
  "onHookSwap keys a db = db\<lparr>hookSwap := logRow keys a (hookSwap db)\<rparr>"

definition onHookFeeBpsSet :: "int \<Rightarrow> 'a PoolDb_scheme \<Rightarrow> 'a PoolDb_scheme" where
  "onHookFeeBpsSet newFee db = setStats (\<lambda>r. r\<lparr>st_hookFeeBps := Some newFee\<rparr>) db"

subsection \<open>Pool manager\<close>

definition FEE_DENOMINATOR :: int where
  "FEE_DENOMINATOR = 1000000"

definition onInitialize ::
  "(string \<times> contract_address) list \<Rightarrow> EventKeys \<Rightarrow> InitializeArgs \<Rightarrow> 'a PoolDb_scheme \<Rightarrow>
   index_error + 'a PoolDb_scheme" where
  "onInitialize config keys a db =
     (case contractAddress config ''GUSD'' of
        OneAddress gusd \<Rightarrow>
          let db1 = db\<lparr>pmPoolInitialized := logRow keys a (pmPoolInitialized db)\<rparr>;
              set_key = (\<lambda>r. r\<lparr>po_currency0 := Some (iz_currency0 a), po_currency1 := Some (iz_currency1 a),
                po_fee := Some (iz_fee a), po_tickSpacing := Some (iz_tickSpacing a), po_hooks := Some (iz_hooks a),
                po_sqrtPriceX96 := Some (iz_sqrtPriceX96 a), po_tick := Some (iz_tick a)\<rparr>)
          in Inr (db1\<lparr>pools := upsertRow po_poolId
               ((set_key (freshPool (iz_poolId a)))
                 \<lparr>po_gusdIsCurrency0 := Some (toLowerCase (iz_currency0 a) = toLowerCase gusd)\<rparr>)
               set_key (pools db1)\<rparr>)
      | _ \<Rightarrow> Inl (NoAddressOf ''GUSD''))"

definition onSwap :: "EventKeys \<Rightarrow> SwapArgs \<Rightarrow> 'a PoolDb_scheme \<Rightarrow> index_error + 'a PoolDb_scheme" where
  "onSwap keys a db =
     (let db1 = db\<lparr>pmSwap := logRow keys a (pmSwap db)\<rparr>;
          fullyCovered = (sw_amount0 a = 0 \<and> sw_amount1 a = 0)
      in case js_get (pools db1) (sw_poolId a) of
           None \<Rightarrow> Inl (Untracked ''Swap'' (sw_poolId a))
         | Some pool \<Rightarrow>
             (case po_gusdIsCurrency0 pool of
                None \<Rightarrow> Inl (OrderingUnknown (sw_poolId a))
              | Some first \<Rightarrow>
                  let gusdDelta = (if first then sw_amount0 a else sw_amount1 a);
                      gusdMoved = (if gusdDelta < 0 then - gusdDelta else gusdDelta);
                      isBuy = (gusdDelta < 0);
                      lpFeeEst = (if isBuy then big_div (gusdMoved * sw_fee a) FEE_DENOMINATOR else 0)
                  in andThen
                    (updatePool (sw_poolId a)
                      (\<lambda>r. r\<lparr>po_sqrtPriceX96 := Some (sw_sqrtPriceX96 a), po_liquidity := Some (sw_liquidity a),
                         po_tick := Some (sw_tick a), po_swapCount := po_swapCount pool + 1,
                         po_volumeGusd := po_volumeGusd pool + gusdMoved,
                         po_buyVolumeGusd := (if isBuy then po_buyVolumeGusd pool + gusdMoved else po_buyVolumeGusd pool),
                         po_sellVolumeGusd := (if isBuy then po_sellVolumeGusd pool else po_sellVolumeGusd pool + gusdMoved),
                         po_lpFeesGusdEst := po_lpFeesGusdEst pool + lpFeeEst,
                         po_lastSwapAtSec := Some (blockTimestamp keys),
                         po_lastSwapBlockNumber := Some (blockNumber keys)\<rparr>) db1)
                    (\<lambda>db2. if fullyCovered then Inr db2
                       else Inr (bumpPoolHourBucket (sw_poolId a) (blockTimestamp keys)
                         (zeroHour\<lparr>hr_volumeGusd := gusdMoved, hr_buyVolumeGusd := (if isBuy then gusdMoved else 0),
                            hr_sellVolumeGusd := (if isBuy then 0 else gusdMoved),
                            hr_buys := (if isBuy then 1 else 0), hr_sells := (if isBuy then 0 else 1),
                            hr_lpFeesGusdEst := lpFeeEst, hr_swaps := 1\<rparr>)
                         (bumpStats (zeroStats\<lparr>gs_lpFeesGusdEst := lpFeeEst\<rparr>) db2)))))"

definition liquidityKey :: "string \<Rightarrow> int \<Rightarrow> int \<Rightarrow> string \<Rightarrow> string" where
  "liquidityKey pool lower upper salt =
     pool @ ''_'' @ int_text lower @ ''_'' @ int_text upper @ ''_'' @ salt"

definition liquidity_id :: "LiquidityRow \<Rightarrow> string" where
  "liquidity_id r = liquidityKey (lq_poolId r) (lq_tickLower r) (lq_tickUpper r) (lq_salt r)"

definition newLiquidity :: "EventKeys \<Rightarrow> ModifyArgs \<Rightarrow> int \<Rightarrow> LiquidityRow" where
  "newLiquidity keys a n =
     \<lparr>lq_poolId = ml_poolId a, lq_tickLower = ml_tickLower a, lq_tickUpper = ml_tickUpper a,
      lq_salt = ml_salt a, lq_liquidity = ml_liquidityDelta a, lq_firstModifier = ml_sender a,
      lq_lastModifier = ml_sender a, lq_modifyCount = n, lq_firstModifiedAtSec = blockTimestamp keys,
      lq_lastModifiedAtSec = blockTimestamp keys\<rparr>"

definition onModifyLiquidity :: "EventKeys \<Rightarrow> ModifyArgs \<Rightarrow> 'a PoolDb_scheme \<Rightarrow> 'a PoolDb_scheme" where
  "onModifyLiquidity keys a db =
     (let db1 = db\<lparr>pmLiquidityModified := logRow keys a (pmLiquidityModified db)\<rparr>
      in db1\<lparr>poolLiquidityPositions := upsertRow liquidity_id (newLiquidity keys a 1)
           (\<lambda>r. r\<lparr>lq_liquidity := lq_liquidity r + ml_liquidityDelta a, lq_modifyCount := lq_modifyCount r + 1,
              lq_lastModifiedAtSec := blockTimestamp keys\<rparr>)
           (poolLiquidityPositions db1)\<rparr>)"

definition onDonate :: "EventKeys \<Rightarrow> DonateArgs \<Rightarrow> 'a PoolDb_scheme \<Rightarrow> 'a PoolDb_scheme" where
  "onDonate keys a db = db\<lparr>pmDonate := logRow keys a (pmDonate db)\<rparr>"

subsection \<open>Position manager\<close>

definition onModifyPosition :: "EventKeys \<Rightarrow> ModifyArgs \<Rightarrow> 'a PoolDb_scheme \<Rightarrow> 'a PoolDb_scheme" where
  "onModifyPosition keys a db =
     (let db1 = db\<lparr>posmPositionModified := logRow keys a (posmPositionModified db)\<rparr>
      in db1\<lparr>poolLiquidityPositions := upsertRow liquidity_id (newLiquidity keys a 0)
           (\<lambda>r. r\<lparr>lq_firstModifier := ml_sender a, lq_lastModifier := ml_sender a,
              lq_lastModifiedAtSec := blockTimestamp keys\<rparr>)
           (poolLiquidityPositions db1)\<rparr>)"

subsection \<open>Inventory\<close>

definition onBidCredited :: "string \<Rightarrow> int \<Rightarrow> 'a PoolDb_scheme \<Rightarrow> index_error + 'a PoolDb_scheme" where
  "onBidCredited gpuId amount db =
     withAsset ''BidCredited'' gpuId (\<lambda>g. g\<lparr>ga_polGusd := ga_polGusd g + amount\<rparr>) db"

definition onGpuNoted :: "string \<Rightarrow> int \<Rightarrow> 'a PoolDb_scheme \<Rightarrow> index_error + 'a PoolDb_scheme" where
  "onGpuNoted gpuId amount db =
     withAsset ''GpuNoted'' gpuId (\<lambda>g. g\<lparr>ga_polGpu := ga_polGpu g + amount\<rparr>) db"

definition onInventoryPulled :: "string \<Rightarrow> int \<Rightarrow> bool \<Rightarrow> 'a PoolDb_scheme \<Rightarrow> index_error + 'a PoolDb_scheme" where
  "onInventoryPulled gpuId amount gusd db =
     withAsset ''InventoryPulled'' gpuId
       (\<lambda>g. if gusd then g\<lparr>ga_polGusd := ga_polGusd g - amount\<rparr> else g\<lparr>ga_polGpu := ga_polGpu g - amount\<rparr>) db"

subsection \<open>The stream of events\<close>

datatype IndexEvent =
    Perp PerpEvent
  | GusdTransfer TransferArgs
  | GpuTransfer TransferArgs
  | SgusdTransfer TransferArgs
  | Minted MintedArgs
  | Redeemed RedeemedArgs
  | FeesUpdated int int
  | Deposit DepositArgs
  | Withdraw WithdrawArgs
  | Seeded int
  | Buy BuyArgs
  | Sell SellArgs
  | GpuCreated GpuCreatedArgs
  | Issued IssuedArgs
  | IssuanceEnabledSet string bool
  | IssuanceFeeSet string int
  | Distributed DistributedArgs
  | SplitUpdated int
  | RecipientsUpdated string string
  | MintedViaSwap MintedViaSwapArgs
  | RedeemedViaSwap RedeemedViaSwapArgs
  | PriceConsumed PriceConsumedArgs
  | SignerTransferStarted SignerArgs
  | SignerAccepted SignerArgs
  | EpochLengthSet int
  | MaxObservationAgeSet int
  | PoolRegistered string string
  | GpuFill GpuFillArgs
  | HookSwap HookSwapArgs
  | HookFeeBpsSet int
  | Initialize InitializeArgs
  | Swap SwapArgs
  | ModifyLiquidity ModifyArgs
  | Donate DonateArgs
  | ModifyPosition ModifyArgs
  | BidCredited string int
  | GpuNoted string int
  | InventoryPulled string int bool

type_synonym config = "(string \<times> contract_address) list"

fun indexStep :: "config \<Rightarrow> EventMeta \<Rightarrow> int \<Rightarrow> IndexEvent \<Rightarrow> PoolDb \<Rightarrow> index_error + PoolDb" where
  "indexStep g m c (Perp e) db = perpStep m c e db"
| "indexStep g m c (GusdTransfer t) db = onGusdTransfer (eventKeys m c) t db"
| "indexStep g m c (GpuTransfer t) db = onGpuTransfer g (eventKeys m c) t db"
| "indexStep g m c (SgusdTransfer t) db = onSgusdTransfer g (eventKeys m c) t db"
| "indexStep g m c (Minted a) db = onMinted m c a db"
| "indexStep g m c (Redeemed a) db = onRedeemed m c a db"
| "indexStep g m c (FeesUpdated x y) db = Inr (onFeesUpdated x y db)"
| "indexStep g m c (Deposit a) db = onDeposit m c a db"
| "indexStep g m c (Withdraw a) db = onWithdraw m c a db"
| "indexStep g m c (Seeded n) db = Inr (onSeeded (eventKeys m c) n db)"
| "indexStep g m c (Buy a) db = onBuy m c a db"
| "indexStep g m c (Sell a) db = onSell m c a db"
| "indexStep g m c (GpuCreated a) db = Inr (onGpuCreated (eventKeys m c) a db)"
| "indexStep g m c (Issued a) db = onIssued g m c a db"
| "indexStep g m c (IssuanceEnabledSet i b) db = onIssuanceEnabledSet i b db"
| "indexStep g m c (IssuanceFeeSet i n) db = onIssuanceFeeSet i n db"
| "indexStep g m c (Distributed a) db = Inr (onDistributed (eventKeys m c) a db)"
| "indexStep g m c (SplitUpdated n) db = Inr (onSplitUpdated n db)"
| "indexStep g m c (RecipientsUpdated v t) db = Inr (onRecipientsUpdated v t db)"
| "indexStep g m c (MintedViaSwap a) db = Inr (onMintedViaSwap (eventKeys m c) a db)"
| "indexStep g m c (RedeemedViaSwap a) db = Inr (onRedeemedViaSwap (eventKeys m c) a db)"
| "indexStep g m c (PriceConsumed a) db = Inr (onPriceConsumed (eventKeys m c) a db)"
| "indexStep g m c (SignerTransferStarted a) db = Inr (onSignerTransferStarted (eventKeys m c) a db)"
| "indexStep g m c (SignerAccepted a) db = Inr (onSignerAccepted (eventKeys m c) a db)"
| "indexStep g m c (EpochLengthSet n) db = Inr (onEpochLengthSet n db)"
| "indexStep g m c (MaxObservationAgeSet n) db = Inr (onMaxObservationAgeSet n db)"
| "indexStep g m c (PoolRegistered i p) db = onPoolRegistered m c i p db"
| "indexStep g m c (GpuFill a) db = onGpuFill (eventKeys m c) a db"
| "indexStep g m c (HookSwap a) db = Inr (onHookSwap (eventKeys m c) a db)"
| "indexStep g m c (HookFeeBpsSet n) db = Inr (onHookFeeBpsSet n db)"
| "indexStep g m c (Initialize a) db = onInitialize g (eventKeys m c) a db"
| "indexStep g m c (Swap a) db = onSwap (eventKeys m c) a db"
| "indexStep g m c (ModifyLiquidity a) db = Inr (onModifyLiquidity (eventKeys m c) a db)"
| "indexStep g m c (Donate a) db = Inr (onDonate (eventKeys m c) a db)"
| "indexStep g m c (ModifyPosition a) db = Inr (onModifyPosition (eventKeys m c) a db)"
| "indexStep g m c (BidCredited i n) db = onBidCredited i n db"
| "indexStep g m c (GpuNoted i n) db = onGpuNoted i n db"
| "indexStep g m c (InventoryPulled i n b) db = onInventoryPulled i n b db"

fun indexRun :: "config \<Rightarrow> int \<Rightarrow> (EventMeta \<times> IndexEvent) list \<Rightarrow> PoolDb \<Rightarrow> index_error + PoolDb" where
  "indexRun g c [] db = Inr db"
| "indexRun g c ((m, e) # es) db = andThen (indexStep g m c e db) (indexRun g c es)"

end
