(* ===== verification/PerpLedger.thy ===== *)
theory PerpLedger
  imports IndexerPerp
begin

text \<open>
  What the perp projection keeps: the claimable balances, the realized profit of the positions and
  the engine counters are the sums of the event stream, an order's row has the columns of its state,
  and the columns no handler moves.
\<close>

subsection \<open>Runs\<close>

lemma perpRun_append: "perpRun c (es @ fs) db = andThen (perpRun c es db) (perpRun c fs)"
  by (induction es arbitrary: db) (auto simp: andThen_def split: sum.splits)

lemma perpRun_snoc:
  "perpRun c (es @ [(m, e)]) db = andThen (perpRun c es db) (perpStep m c e)"
  by (simp add: perpRun_append andThen_def split: sum.splits)

text \<open>An invariant of the steps holds after a run.\<close>

lemma perpRun_invariant:
  assumes "perpRun c es db = Inr db'" "I db"
    and "\<And>m e d d'. (m, e) \<in> set es \<Longrightarrow> I d \<Longrightarrow> perpStep m c e d = Inr d' \<Longrightarrow> I d'"
  shows "I db'"
  using assms
proof (induction es arbitrary: db)
  case (Cons x es)
  obtain m e where x: "x = (m, e)" by (cases x)
  obtain d where d: "perpStep m c e db = Inr d" "perpRun c es d = Inr db'"
    using Cons.prems(1) by (auto simp: x andThen_eq_Inr)
  have "I d" using Cons.prems(2,3) d(1) x by auto
  then show ?case using Cons.IH [OF d(2)] Cons.prems(3) by auto
qed simp

text \<open>A view of the state that follows the events is the fold of the events.\<close>

lemma perpRun_view:
  assumes "perpRun c es db = Inr db'"
    and "\<And>m e d d'. perpStep m c e d = Inr d' \<Longrightarrow> view d' = follow e (view d)"
  shows "view db' = fold follow (map snd es) (view db)"
  using assms(1)
proof (induction es arbitrary: db)
  case (Cons x es)
  obtain m e where x: "x = (m, e)" by (cases x)
  obtain d where d: "perpStep m c e db = Inr d" "perpRun c es d = Inr db'"
    using Cons.prems by (auto simp: x andThen_eq_Inr)
  show ?case using Cons.IH [OF d(2)] assms(2) [OF d(1)] by (simp add: x)
qed simp

subsection \<open>What each handler leaves alone\<close>

lemma recordUserEvent_perp:
  assumes "recordUserEvent i db = Inr db'"
  shows "perpClaimable db' = perpClaimable (db :: 'a PerpDb_scheme) \<and> perpPositions db' = perpPositions db \<and>
    perpEngineStats db' = perpEngineStats db \<and> perpOrders db' = perpOrders db \<and>
    perpMarkets db' = perpMarkets db"
  using assms by (auto simp: recordUserEvent_def split: sum.splits)

lemmas perp_handlers =
  onMarketCreated_def onMarketParamsUpdated_def onMarketEnabled_def onMinOrderDelaySet_def
  onOrderCreated_def onOrderExecuted_def onOrderCancelled_def onPositionIncreased_def
  onPositionDecreased_def onPositionClosed_def onPositionLiquidated_def onClaimableSettled_def
  onClaimed_def onFundingAccrued_def onEngineWithdrawal_def bumpEngineStats_def bumpClaimable_def
  creditPositionPnl_def Let_def

subsection \<open>Claimable balances\<close>

type_synonym claim_view = "(int \<times> int \<times> int \<times> int \<times> int) option"

definition claim_row :: "PerpClaimableRow \<Rightarrow> int \<times> int \<times> int \<times> int \<times> int" where
  "claim_row r = (cl_balance r, cl_totalSettled r, cl_totalClaimed r, cl_settleCount r, cl_claimCount r)"

definition claim_view :: "string \<Rightarrow> 'a PerpDb_scheme \<Rightarrow> claim_view" where
  "claim_view u db = map_option claim_row (js_get (perpClaimable db) u)"

text \<open>The reference: the amounts settled to an account and paid to it, in the order of the events.\<close>

fun settlement :: "string \<Rightarrow> PerpEvent \<Rightarrow> int list" where
  "settlement u (ClaimableSettled a) = (if lowerAddr (cs_account a) = u \<and> 0 < cs_amount a then [cs_amount a] else [])"
| "settlement u _ = []"

fun payment :: "string \<Rightarrow> PerpEvent \<Rightarrow> int list" where
  "payment u (Claimed a) = (if lowerAddr (cd_account a) = u \<and> 0 < cd_paid a then [cd_paid a] else [])"
| "payment u _ = []"

definition settlements :: "string \<Rightarrow> PerpEvent list \<Rightarrow> int list" where
  "settlements u es = concat (map (settlement u) es)"

definition payments :: "string \<Rightarrow> PerpEvent list \<Rightarrow> int list" where
  "payments u es = concat (map (payment u) es)"

definition claim_reference :: "string \<Rightarrow> PerpEvent list \<Rightarrow> claim_view" where
  "claim_reference u es =
     (let s = settlements u es; p = payments u es
      in if s = [] \<and> p = [] then None
         else Some (sum_list s - sum_list p, sum_list s, sum_list p, int (length s), int (length p)))"

definition follow_claim :: "string \<Rightarrow> PerpEvent \<Rightarrow> claim_view \<Rightarrow> claim_view" where
  "follow_claim u e v =
     (let s = settlement u e; p = payment u e
      in if s = [] \<and> p = [] then v
         else case v of
           None \<Rightarrow> Some (sum_list s - sum_list p, sum_list s, sum_list p, int (length s), int (length p))
         | Some (b, ts, tc, sc, cc) \<Rightarrow>
             Some (b + sum_list s - sum_list p, ts + sum_list s, tc + sum_list p,
               sc + int (length s), cc + int (length p)))"

lemma claim_reference_snoc: "claim_reference u (es @ [e]) = follow_claim u e (claim_reference u es)"
proof -
  have s: "settlements u (es @ [e]) = settlements u es @ settlement u e"
    and p: "payments u (es @ [e]) = payments u es @ payment u e"
    by (simp_all add: settlements_def payments_def)
  show ?thesis
    by (cases "settlements u es = [] \<and> payments u es = []")
      (auto simp: claim_reference_def follow_claim_def Let_def s p)
qed

lemma fold_follow_claim: "fold (follow_claim u) es (claim_reference u fs) = claim_reference u (fs @ es)"
proof (induction es arbitrary: fs)
  case (Cons e es)
  then show ?case using Cons.IH [of "fs @ [e]"] by (simp add: claim_reference_snoc)
qed simp

lemma claim_view_bump:
  "claim_view u (bumpClaimable keys w d db) =
     (if u = w then Some (case claim_view u db of
          None \<Rightarrow> (or_else (c_balance d) 0, or_else (c_totalSettled d) 0, or_else (c_totalClaimed d) 0,
            or_else (c_settleCount d) 0, or_else (c_claimCount d) 0)
        | Some (b, ts, tc, sc, cc) \<Rightarrow>
            (plus_delta (c_balance d) b, plus_delta (c_totalSettled d) ts, plus_delta (c_totalClaimed d) tc,
             plus_delta (c_settleCount d) sc, plus_delta (c_claimCount d) cc))
      else claim_view u db)"
  by (auto simp: claim_view_def bumpClaimable_def get_upsertRow claim_row_def split: option.splits)

lemma claim_view_cong: "perpClaimable db' = perpClaimable db \<Longrightarrow> claim_view u db' = claim_view u db"
  by (simp add: claim_view_def)

lemma onClaimed_claimable:
  assumes "onClaimed m c a db = Inr db'"
  shows "perpClaimable db' = perpClaimable
    (if 0 < cd_paid a
     then bumpClaimable (eventKeys m c) (lowerAddr (cd_account a)) \<lparr>c_balance = Some (- cd_paid a), c_totalSettled = None,
        c_totalClaimed = Some (cd_paid a), c_settleCount = None, c_claimCount = Some 1\<rparr> db
     else db)"
  using assms
  by (auto simp: onClaimed_def Let_def bumpEngineStats_def bumpClaimable_def dest!: recordUserEvent_perp)

lemma claim_view_step:
  assumes "perpStep m c e db = Inr db'"
  shows "claim_view u db' = follow_claim u e (claim_view u db)"
proof (cases e)
  case (ClaimableSettled a)
  let ?db1 = "db\<lparr>perpClaimableSettled := logRow (eventKeys m c)
    (a\<lparr>cs_account := lowerAddr (cs_account a)\<rparr>) (perpClaimableSettled db)\<rparr>"
  have "claim_view u ?db1 = claim_view u db" by (simp add: claim_view_def)
  then show ?thesis
    using assms ClaimableSettled
    by (auto simp: onClaimableSettled_def Let_def claim_view_bump follow_claim_def or_else_def
        plus_delta_def split: option.splits)
next
  case (Claimed a)
  then have "claim_view u db' = claim_view u
      (if 0 < cd_paid a
       then bumpClaimable (eventKeys m c) (lowerAddr (cd_account a)) \<lparr>c_balance = Some (- cd_paid a), c_totalSettled = None,
          c_totalClaimed = Some (cd_paid a), c_settleCount = None, c_claimCount = Some 1\<rparr> db
       else db)"
    using assms onClaimed_claimable [of m c a db db'] by (intro claim_view_cong) simp
  then show ?thesis
    using Claimed
    by (auto simp: claim_view_bump follow_claim_def Let_def or_else_def plus_delta_def split: option.splits)
qed (use assms in \<open>auto simp: perp_handlers follow_claim_def andThen_eq_Inr updateRow_Inr
      dest!: recordUserEvent_perp intro!: claim_view_cong split: if_splits\<close>)

text \<open>C13. An account's claimable row is the event stream's: it is there exactly when something was
  settled or paid to the account; its balance is the sum of the settlements less the sum of the
  payments, and its totals and counts are theirs.\<close>
theorem claimable_is_the_event_stream:
  assumes "perpRun c es db = Inr db'" "perpClaimable db = js_empty"
  shows "claim_view u db' = claim_reference u (map snd es)"
proof -
  have "claim_view u db = claim_reference u []"
    using assms(2) by (simp add: claim_view_def claim_reference_def settlements_def payments_def)
  then show ?thesis
    using perpRun_view [where view = "claim_view u" and follow = "follow_claim u", OF assms(1) claim_view_step] fold_follow_claim [of u "map snd es" "[]"]
    by simp
qed

subsection \<open>Realized profit\<close>

definition realized :: "string \<Rightarrow> 'a PerpDb_scheme \<Rightarrow> int" where
  "realized i db = (case js_get (perpPositions db) i of None \<Rightarrow> 0 | Some r \<Rightarrow> ps_realizedPnlGusd r)"

fun profit :: "string \<Rightarrow> PerpEvent \<Rightarrow> int" where
  "profit i (OrderExecuted a) =
     (if ox_kind a \<noteq> KIND_MARKET_INCREASE \<and>
         positionKey (lowerAddr (ox_account a)) (ox_gpuId a) (ox_isLong a) = i then ox_realizedPnl a else 0)"
| "profit i _ = 0"

lemma onOrderExecuted_parts:
  assumes "onOrderExecuted m c a db = Inr db'"
  shows "\<exists>d. recordUserEvent (userEventOf m c ''PerpOrderExecuted'' (ox_account a) (orderExecutedData a))
      (if ox_kind a \<noteq> KIND_MARKET_INCREASE
       then creditPositionPnl (eventKeys m c) (lowerAddr (ox_account a)) (ox_gpuId a) (ox_isLong a)
         (ox_realizedPnl a) d
       else d) = Inr db' \<and> perpPositions d = perpPositions db"
  using assms unfolding onOrderExecuted_def Let_def andThen_eq_Inr
  by - (elim exE conjE, intro exI conjI, assumption, auto simp: andThen_eq_Inr split: if_splits)

lemma realized_step:
  assumes "perpStep m c e db = Inr db'"
  shows "realized i db' = realized i db + profit i e"
proof (cases e)
  case (OrderExecuted a)
  let ?i = "positionKey (lowerAddr (ox_account a)) (ox_gpuId a) (ox_isLong a)"
  let ?user = "\<lambda>d. recordUserEvent (userEventOf m c ''PerpOrderExecuted'' (ox_account a) (orderExecutedData a))
      (if ox_kind a \<noteq> KIND_MARKET_INCREASE
       then creditPositionPnl (eventKeys m c) (lowerAddr (ox_account a)) (ox_gpuId a) (ox_isLong a)
         (ox_realizedPnl a) d
       else d)"
  obtain db2 where u: "?user db2 = Inr db'" and p: "perpPositions db2 = perpPositions db"
    using onOrderExecuted_parts [of m c a db db'] assms OrderExecuted by auto
  have credit: "js_get (perpPositions (creditPositionPnl k w g l x db2)) i =
      (if i = positionKey w g l then Some (case js_get (perpPositions db) i of
          None \<Rightarrow> \<lparr>ps_wallet = w, ps_gpuId = g, ps_isLong = l, ps_sizeUsd = 0, ps_collateral = 0,
            ps_entryPrice = 0, ps_fundingFeeCheckpoint = None, ps_fundingCreditCheckpoint = None,
            ps_borrowCheckpoint = None, ps_earnedFunding = None, ps_openedAtSec = Some (blockTimestamp k),
            ps_lastTouchedAtSec = Some (blockTimestamp k), ps_closedAtSec = None, ps_liquidatedAtSec = None,
            ps_liquidator = None, ps_increaseCount = 0, ps_decreaseCount = 0, ps_realizedPnlGusd = x\<rparr>
        | Some row \<Rightarrow> row\<lparr>ps_realizedPnlGusd := ps_realizedPnlGusd row + x\<rparr>)
       else js_get (perpPositions db) i)" for k w g l x
    by (simp add: creditPositionPnl_def get_upsertRow position_id_def p)
  have "perpPositions db' = perpPositions
      (if ox_kind a \<noteq> KIND_MARKET_INCREASE
       then creditPositionPnl (eventKeys m c) (lowerAddr (ox_account a)) (ox_gpuId a) (ox_isLong a)
         (ox_realizedPnl a) db2
       else db2)"
    using recordUserEvent_perp [OF u] by blast
  then show ?thesis
    using OrderExecuted by (auto simp: realized_def credit p split: option.split)
qed (use assms in \<open>auto simp: perp_handlers andThen_eq_Inr updateRow_Inr realized_def get_upsertRow position_id_def
      dest!: recordUserEvent_perp split: if_splits option.splits\<close>)

text \<open>C15. A position's realized profit is the sum over the executed orders that reduce it, each
  counted once: neither an increase, nor the decrease or liquidation event of the same touch, moves
  it.\<close>
theorem realized_profit_counts_once:
  assumes "perpRun c es db = Inr db'"
  shows "realized i db' = realized i db + (\<Sum>(m, e) \<leftarrow> es. profit i e)"
  using assms
proof (induction es arbitrary: db)
  case (Cons x es)
  obtain m e where x: "x = (m, e)" by (cases x)
  obtain d where d: "perpStep m c e db = Inr d" "perpRun c es d = Inr db'"
    using Cons.prems by (auto simp: x andThen_eq_Inr)
  show ?case using Cons.IH [OF d(2)] realized_step [OF d(1), of i] by (simp add: x)
qed simp

subsection \<open>Engine counters\<close>

definition engine_view :: "'a PerpDb_scheme \<Rightarrow> int \<times> int \<times> int" where
  "engine_view db = (case js_get (perpEngineStats db) ''engine'' of None \<Rightarrow> (0, 0, 0)
     | Some r \<Rightarrow> (es_orderCount r, es_liquidationCount r, es_claimedGusd r))"

fun follow_engine :: "PerpEvent \<Rightarrow> int \<times> int \<times> int \<Rightarrow> int \<times> int \<times> int" where
  "follow_engine (OrderCreated a) (n, l, c) = (n + 1, l, c)"
| "follow_engine (PositionLiquidated a) (n, l, c) = (n, l + 1, c)"
| "follow_engine (Claimed a) (n, l, c) = (n, l, c + cd_paid a)"
| "follow_engine _ v = v"

lemma engine_view_bump:
  "engine_view (bumpEngineStats d db) =
     (case engine_view db of (n, l, c) \<Rightarrow>
        (plus_delta (d_orderCount d) n, plus_delta (d_liquidationCount d) l, plus_delta (d_claimedGusd d) c))"
  by (auto simp: engine_view_def bumpEngineStats_def get_upsertRow zeroEngineStats_def or_else_def
      plus_delta_def split: option.splits)

lemma engine_view_cong: "perpEngineStats db' = perpEngineStats db \<Longrightarrow> engine_view db' = engine_view db"
  by (simp add: engine_view_def)

lemma bumpClaimable_stats [simp]: "perpEngineStats (bumpClaimable k w d db) = perpEngineStats db"
  by (simp add: bumpClaimable_def)

lemma engine_view_user:
  assumes "\<exists>i d. recordUserEvent i (bumpEngineStats D d) = Inr db' \<and> perpEngineStats d = perpEngineStats db"
  shows "engine_view db' = engine_view (bumpEngineStats D db)"
proof -
  obtain i d where d: "recordUserEvent i (bumpEngineStats D d) = Inr db'"
      "perpEngineStats d = perpEngineStats db"
    using assms by blast
  have "perpEngineStats db' = perpEngineStats (bumpEngineStats D db)"
    using recordUserEvent_perp [OF d(1)] d(2) by (simp add: bumpEngineStats_def)
  then show ?thesis by (rule engine_view_cong)
qed

lemma engine_view_step:
  assumes "perpStep m c e db = Inr db'"
  shows "engine_view db' = follow_engine e (engine_view db)"
proof (cases e)
  case (OrderCreated a)
  then have "\<exists>i d. recordUserEvent i (bumpEngineStats (no_deltas\<lparr>d_orderCount := Some 1\<rparr>) d) = Inr db' \<and>
      perpEngineStats d = perpEngineStats db"
    using assms unfolding perpStep.simps(5) [of m c a db, folded OrderCreated] onOrderCreated_def Let_def
    by - (intro exI conjI, assumption, simp)
  from engine_view_user [OF this] show ?thesis
    using OrderCreated by (simp add: engine_view_bump plus_delta_def no_deltas_def split: prod.splits)
next
  case (PositionLiquidated a)
  then obtain d where d: "db' = bumpEngineStats (no_deltas\<lparr>d_liquidationCount := Some 1\<rparr>) d"
      "perpEngineStats d = perpEngineStats db"
    using assms by (auto simp: onPositionLiquidated_def Let_def andThen_eq_Inr updateRow_Inr split: if_splits)
  then show ?thesis
    using PositionLiquidated engine_view_cong [OF d(2)]
    by (simp add: engine_view_bump plus_delta_def no_deltas_def split: prod.splits)
next
  case (Claimed a)
  then have "\<exists>i d. recordUserEvent i (bumpEngineStats (no_deltas\<lparr>d_claimedGusd := Some (cd_paid a)\<rparr>) d) = Inr db' \<and>
      perpEngineStats d = perpEngineStats db"
    using assms unfolding perpStep.simps(13) [of m c a db, folded Claimed] onClaimed_def Let_def
    by - (intro exI conjI, assumption, simp)
  from engine_view_user [OF this] show ?thesis
    using Claimed by (simp add: engine_view_bump plus_delta_def no_deltas_def split: prod.splits)
next
  case (MinOrderDelaySet n)
  then show ?thesis
    using assms
    by (auto simp: onMinOrderDelaySet_def engine_view_def get_upsertRow zeroEngineStats_def split: option.splits)
qed (use assms in \<open>auto simp: perp_handlers andThen_eq_Inr updateRow_Inr
      dest!: recordUserEvent_perp intro!: engine_view_cong split: if_splits\<close>)

definition count_events :: "(PerpEvent \<Rightarrow> bool) \<Rightarrow> PerpEvent list \<Rightarrow> int" where
  "count_events P es = int (length (filter P es))"

definition is_order :: "PerpEvent \<Rightarrow> bool" where
  "is_order e \<longleftrightarrow> (\<exists>a. e = OrderCreated a)"

definition is_liquidation :: "PerpEvent \<Rightarrow> bool" where
  "is_liquidation e \<longleftrightarrow> (\<exists>a. e = PositionLiquidated a)"

fun claim_paid :: "PerpEvent \<Rightarrow> int" where
  "claim_paid (Claimed a) = cd_paid a"
| "claim_paid _ = 0"

lemma follow_engine_eq:
  "follow_engine e (n, l, c) =
     (n + (if is_order e then 1 else 0), l + (if is_liquidation e then 1 else 0), c + claim_paid e)"
  by (cases e) (simp_all add: is_order_def is_liquidation_def)

lemma fold_follow_engine:
  "fold follow_engine es (n, l, c) =
     (n + count_events is_order es, l + count_events is_liquidation es, c + sum_list (map claim_paid es))"
  by (induction es arbitrary: n l c) (simp_all add: follow_engine_eq count_events_def)

text \<open>The engine row counts the orders created, the liquidations and the gUSD paid out by
  claims, each once, from the first event on.\<close>
theorem engine_row_counts_the_stream:
  assumes "perpRun c es db = Inr db'" "perpEngineStats db = js_empty"
  shows "engine_view db' =
    (count_events is_order (map snd es), count_events is_liquidation (map snd es),
     sum_list (map claim_paid (map snd es)))"
proof -
  have "engine_view db = (0, 0, 0)" using assms(2) by (simp add: engine_view_def)
  then show ?thesis
    using perpRun_view [where view = engine_view and follow = follow_engine, OF assms(1) engine_view_step]
    by (simp add: fold_follow_engine)
qed

subsection \<open>Claims against the engine\<close>

definition claims_ok :: "'a PerpDb_scheme \<Rightarrow> bool" where
  "claims_ok db \<longleftrightarrow>
     total cl_balance (perpClaimable db) =
       total cl_totalSettled (perpClaimable db) - total cl_totalClaimed (perpClaimable db) \<and>
     total cl_totalClaimed (perpClaimable db) = snd (snd (engine_view db))"

lemma total_bumpClaimable:
  "total cl_balance (perpClaimable (bumpClaimable k w d db)) =
     total cl_balance (perpClaimable db) + or_else (c_balance d) 0"
  "total cl_totalSettled (perpClaimable (bumpClaimable k w d db)) =
     total cl_totalSettled (perpClaimable db) + or_else (c_totalSettled d) 0"
  "total cl_totalClaimed (perpClaimable (bumpClaimable k w d db)) =
     total cl_totalClaimed (perpClaimable db) + or_else (c_totalClaimed d) 0"
  by (simp_all add: bumpClaimable_def total_upsertRow or_else_def plus_delta_def split: option.splits)

fun claim_moves :: "PerpEvent \<Rightarrow> int \<times> int \<times> int" where
  "claim_moves (ClaimableSettled a) = (max 0 (cs_amount a), max 0 (cs_amount a), 0)"
| "claim_moves (Claimed a) = (- max 0 (cd_paid a), 0, max 0 (cd_paid a))"
| "claim_moves _ = (0, 0, 0)"

lemma claim_totals_step:
  assumes "perpStep m c e db = Inr db'" "claim_moves e = (b, s, p)"
  shows "total cl_balance (perpClaimable db') = total cl_balance (perpClaimable db) + b \<and>
    total cl_totalSettled (perpClaimable db') = total cl_totalSettled (perpClaimable db) + s \<and>
    total cl_totalClaimed (perpClaimable db') = total cl_totalClaimed (perpClaimable db) + p"
proof (cases e)
  case (ClaimableSettled a)
  then show ?thesis
    using assms by (auto simp: onClaimableSettled_def Let_def total_bumpClaimable or_else_def)
next
  case (Claimed a)
  then show ?thesis
    using assms onClaimed_claimable [of m c a db db'] by (auto simp: total_bumpClaimable or_else_def)
qed (use assms in \<open>auto simp: perp_handlers andThen_eq_Inr updateRow_Inr dest!: recordUserEvent_perp
      split: if_splits\<close>)

text \<open>C14. The books of the claims agree: over all wallets, what can still be claimed is what was
  settled less what was claimed, and what was claimed is the engine row's \<open>claimedGusd\<close>.\<close>
theorem claims_reconcile:
  assumes "perpRun c es db = Inr db'" "claims_ok db"
    and "\<And>m a. (m, Claimed a) \<in> set es \<Longrightarrow> 0 \<le> cd_paid a"
  shows "claims_ok db'"
proof (rule perpRun_invariant [where I = claims_ok, OF assms(1,2)])
  fix m e and d d' :: "'a PerpDb_scheme"
  assume e: "(m, e) \<in> set es" and ok: "claims_ok d" and step: "perpStep m c e d = Inr d'"
  obtain b s p where mv: "claim_moves e = (b, s, p)" by (cases "claim_moves e") auto
  have m: "b = s - p \<and> p = claim_paid e"
    using mv assms(3) e by (cases e) auto
  obtain n l q where v: "engine_view d = (n, l, q)" by (cases "engine_view d") auto
  show "claims_ok d'"
    using ok claim_totals_step [OF step mv] engine_view_step [OF step] m
    by (simp add: claims_ok_def v follow_engine_eq)
qed

subsection \<open>Order rows\<close>

definition order_row_ok :: "PerpOrderRow \<Rightarrow> bool" where
  "order_row_ok r \<longleftrightarrow> od_status r \<in> {1, 2, 3} \<and> (od_status r = 1 \<longleftrightarrow> od_resolvedAtSec r = None) \<and>
     (od_status r = 1 \<longrightarrow> od_executor r = None \<and> od_execPrice r = None \<and> od_realizedPnl r = None \<and>
        od_feesPaid r = None \<and> od_fundingNet r = None \<and> od_claimableDelta r = None) \<and>
     (od_status r = 2 \<longrightarrow> od_executor r \<noteq> None \<and> od_execPrice r \<noteq> None \<and> od_realizedPnl r \<noteq> None \<and>
        od_feesPaid r \<noteq> None \<and> od_fundingNet r \<noteq> None \<and> od_claimableDelta r \<noteq> None)"

definition orders_ok :: "'a PerpDb_scheme \<Rightarrow> bool" where
  "orders_ok db \<longleftrightarrow> (\<forall>i r. js_get (perpOrders db) i = Some r \<longrightarrow> orderKey (od_orderId r) = i \<and> order_row_ok r)"

lemma orders_ok_cong: "orders_ok db \<Longrightarrow> perpOrders db' = perpOrders db \<Longrightarrow> orders_ok db'"
  by (simp add: orders_ok_def)

lemma orders_ok_set:
  "orders_ok db \<Longrightarrow> perpOrders db' = js_set i r (perpOrders db) \<Longrightarrow> orderKey (od_orderId r) = i \<Longrightarrow>
   order_row_ok r \<Longrightarrow> orders_ok db'"
  by (simp add: orders_ok_def)

lemma resolveOrder_ok: "order_row_ok (resolveOrder k a r)"
  by (simp add: order_row_ok_def resolveOrder_def)

lemma onOrderExecuted_orders:
  assumes "onOrderExecuted m c a db = Inr db'"
  shows "perpOrders db' = perpOrders db \<or>
    (\<exists>r. js_get (perpOrders db) (orderKey (ox_orderId a)) = Some r \<and>
      perpOrders db' = js_set (orderKey (ox_orderId a)) (resolveOrder (eventKeys m c) a r) (perpOrders db))"
  using assms
  by (auto simp: onOrderExecuted_def Let_def andThen_eq_Inr updateRow_Inr creditPositionPnl_def
      dest!: recordUserEvent_perp split: if_splits)

lemma orders_ok_step:
  assumes "orders_ok db" "perpStep m c e db = Inr db'"
  shows "orders_ok db'"
proof (cases e)
  case (OrderCreated a)
  then show ?thesis
    using assms
    by (auto simp: onOrderCreated_def Let_def bumpEngineStats_def insertRow_def order_row_ok_def
        dest!: recordUserEvent_perp intro: orders_ok_set [OF assms(1)])
next
  case (OrderExecuted a)
  then consider "perpOrders db' = perpOrders db"
    | r where "js_get (perpOrders db) (orderKey (ox_orderId a)) = Some r"
      "perpOrders db' = js_set (orderKey (ox_orderId a)) (resolveOrder (eventKeys m c) a r) (perpOrders db)"
    using onOrderExecuted_orders [of m c a db db'] assms(2) by auto
  then show ?thesis
  proof cases
    case 1
    then show ?thesis by (rule orders_ok_cong [OF assms(1)])
  next
    case 2
    have "orderKey (od_orderId (resolveOrder (eventKeys m c) a r)) = orderKey (ox_orderId a)"
      using assms(1) 2(1) by (auto simp: orders_ok_def resolveOrder_def)
    then show ?thesis using orders_ok_set [OF assms(1) 2(2)] resolveOrder_ok by blast
  qed
next
  case (OrderCancelled a)
  then obtain r where r: "js_get (perpOrders db) (orderKey (on_orderId a)) = Some r"
    "perpOrders db' = js_set (orderKey (on_orderId a))
      (r\<lparr>od_status := 3, od_resolvedAtSec := Some (blockTimestamp (eventKeys m c))\<rparr>) (perpOrders db)"
    using assms(2) by (auto simp: onOrderCancelled_def Let_def andThen_eq_Inr updateRow_Inr)
  show ?thesis
    using assms(1) r(1) by (intro orders_ok_set [OF assms(1) r(2)]) (auto simp: orders_ok_def order_row_ok_def)
qed (use assms in \<open>auto simp: perp_handlers andThen_eq_Inr updateRow_Inr
      dest!: recordUserEvent_perp intro: orders_ok_cong [OF assms(1)] split: if_splits\<close>)

text \<open>C16. Every order row is well formed at all times: it stands under its own id, its status is
  pending, executed or cancelled, it carries a resolution time exactly when it is not pending, no
  outcome while it is pending and the whole outcome once it is executed.\<close>
theorem order_rows_wellformed:
  assumes "perpRun c es db = Inr db'" "orders_ok db"
  shows "orders_ok db'"
  using perpRun_invariant [where I = orders_ok, OF assms] orders_ok_step by blast

subsection \<open>What the projection loses\<close>

text \<open>The first minimum order delay is lost: the insert writes the zero row, in which the delay is
  null, and only a conflict would have written the delay.\<close>
theorem first_order_delay_is_lost:
  assumes "js_get (perpEngineStats db) ''engine'' = None"
  shows "js_get (perpEngineStats (onMinOrderDelaySet n db)) ''engine'' = Some zeroEngineStats \<and>
    es_minOrderDelaySec zeroEngineStats = None"
  using assms by (simp add: onMinOrderDelaySet_def get_upsertRow zeroEngineStats_def)

definition no_open_interest :: "'a PerpDb_scheme \<Rightarrow> bool" where
  "no_open_interest db \<longleftrightarrow> (\<forall>i r. js_get (perpMarkets db) i = Some r \<longrightarrow>
     mk_openNotionalLong r = 0 \<and> mk_openNotionalShort r = 0)"

text \<open>No handler moves the open interest: whatever positions are opened and closed, every market
  row says that nothing is open on either side.\<close>
theorem open_interest_stays_zero:
  assumes "perpRun c es db = Inr db'" "no_open_interest db"
  shows "no_open_interest db'"
proof (rule perpRun_invariant [where I = no_open_interest, OF assms])
  fix m e and d d' :: "'a PerpDb_scheme"
  assume "no_open_interest d" "perpStep m c e d = Inr d'"
  then show "no_open_interest d'"
    by (cases e)
      (auto simp: perp_handlers andThen_eq_Inr updateRow_Inr no_open_interest_def get_insertRow get_upsertRow
        dest!: recordUserEvent_perp split: if_splits option.splits)
qed

text \<open>A position that is closed and opened again keeps the stamp of the close and the time it was
  first opened.\<close>
theorem reopened_position_keeps_closed_stamp:
  assumes "js_get (perpPositions db) (positionKey (lowerAddr (pi_account a)) (pi_gpuId a) (pi_isLong a)) = Some r"
  shows "\<exists>r'. js_get (perpPositions (onPositionIncreased keys a db))
      (positionKey (lowerAddr (pi_account a)) (pi_gpuId a) (pi_isLong a)) = Some r' \<and>
    ps_sizeUsd r' = pi_newSizeUsd a \<and> ps_closedAtSec r' = ps_closedAtSec r \<and>
    ps_openedAtSec r' = ps_openedAtSec r \<and> ps_liquidatedAtSec r' = ps_liquidatedAtSec r"
  using assms by (simp add: onPositionIncreased_def Let_def get_upsertRow position_id_def)

subsection \<open>Witnesses\<close>

definition emptyPerpDb :: PerpDb where
  "emptyPerpDb =
     \<lparr>userEvents = js_empty, wallets = js_empty, perpOrderCreated = js_empty, perpOrderExecuted = js_empty,
      perpOrderCancelled = js_empty, perpPositionIncreased = js_empty, perpPositionDecreased = js_empty,
      perpPositionClosed = js_empty, perpPositionLiquidated = js_empty, perpClaimableSettled = js_empty,
      perpClaimed = js_empty, perpFundingAccrued = js_empty, sgusdEngineWithdrawal = js_empty,
      perpMarkets = js_empty, perpOrders = js_empty, perpPositions = js_empty, perpClaimable = js_empty,
      perpEngineStats = js_empty\<rparr>"

definition sampleMeta :: "int \<Rightarrow> EventMeta" where
  "sampleMeta n = \<lparr>block_number = 100, block_timestamp = 1000, log_index = n, log_address = ''0xE'',
     transaction_hash = ''0xF''\<rparr>"

definition samplePerp :: "(EventMeta \<times> PerpEvent) list" where
  "samplePerp =
     [(sampleMeta 0, OrderCreated \<lparr>oc_orderId = 1, oc_account = ''0xA'', oc_gpuId = ''0x48'', oc_kind = 1,
         oc_isLong = True, oc_sizeDeltaUsd = 50, oc_collateralDeltaUsd = 0, oc_acceptablePrice = 1,
         oc_triggerPrice = 0, oc_executionFee = 2\<rparr>),
      (sampleMeta 1, OrderExecuted \<lparr>ox_orderId = 1, ox_executor = ''0xB'', ox_account = ''0xA'', ox_gpuId = ''0x48'',
         ox_kind = 1, ox_isLong = True, ox_execPrice = 1, ox_executionFeePaid = 2, ox_sizeDeltaUsd = 50,
         ox_realizedPnl = 7, ox_feesPaid = 0, ox_fundingNet = 0, ox_claimableDelta = 10\<rparr>),
      (sampleMeta 2, ClaimableSettled \<lparr>cs_account = ''0xA'', cs_gpuId = ''0x48'', cs_amount = 10\<rparr>),
      (sampleMeta 3, Claimed \<lparr>cd_account = ''0xA'', cd_to = ''0xA'', cd_requested = 4, cd_paid = 4\<rparr>)]"

lemma samplePerp_runs:
  obtains db where "perpRun 1 samplePerp emptyPerpDb = Inr db"
proof -
  have "(case perpRun 1 samplePerp emptyPerpDb of Inr _ \<Rightarrow> True | Inl _ \<Rightarrow> False)"
    by code_simp
  then show thesis using that by (auto split: sum.splits)
qed

lemma emptyPerpDb_tables:
  "perpClaimable emptyPerpDb = js_empty" "perpEngineStats emptyPerpDb = js_empty"
  "perpPositions emptyPerpDb = js_empty" "perpMarkets emptyPerpDb = js_empty" "orders_ok emptyPerpDb"
  "claims_ok emptyPerpDb" "no_open_interest emptyPerpDb" "realized i emptyPerpDb = 0"
  by (simp_all add: emptyPerpDb_def orders_ok_def claims_ok_def no_open_interest_def engine_view_def realized_def)

theorem claimable_is_the_event_stream_witness:
  "\<exists>db. perpRun 1 samplePerp emptyPerpDb = Inr db \<and> claim_view ''0xa'' db = Some (6, 10, 4, 1, 1)"
proof -
  obtain db where db: "perpRun 1 samplePerp emptyPerpDb = Inr db" by (rule samplePerp_runs)
  have "claim_reference ''0xa'' (map snd samplePerp) = Some (6, 10, 4, 1, 1)" by code_simp
  then show ?thesis using db claimable_is_the_event_stream [OF db emptyPerpDb_tables(1), of "''0xa''"] by simp
qed

theorem realized_profit_counts_once_witness:
  "\<exists>db. perpRun 1 samplePerp emptyPerpDb = Inr db \<and> realized (positionKey ''0xa'' ''0x48'' True) db = 7"
proof -
  obtain db where db: "perpRun 1 samplePerp emptyPerpDb = Inr db" by (rule samplePerp_runs)
  have "(\<Sum>(m, e) \<leftarrow> samplePerp. profit (positionKey ''0xa'' ''0x48'' True) e) = 7" by code_simp
  then show ?thesis
    using db realized_profit_counts_once [OF db, of "positionKey ''0xa'' ''0x48'' True"]
    by (simp add: emptyPerpDb_tables)
qed

theorem engine_row_counts_the_stream_witness:
  "\<exists>db. perpRun 1 samplePerp emptyPerpDb = Inr db \<and> engine_view db = (1, 0, 4)"
proof -
  obtain db where db: "perpRun 1 samplePerp emptyPerpDb = Inr db" by (rule samplePerp_runs)
  have "count_events is_order (map snd samplePerp) = 1" "count_events is_liquidation (map snd samplePerp) = 0"
    "sum_list (map claim_paid (map snd samplePerp)) = 4"
    by (simp_all add: count_events_def samplePerp_def is_order_def is_liquidation_def)
  then show ?thesis
    using db engine_row_counts_the_stream [OF db emptyPerpDb_tables(2)] by simp
qed

theorem claims_reconcile_witness:
  "\<exists>db. perpRun 1 samplePerp emptyPerpDb = Inr db \<and> claims_ok db"
proof -
  obtain db where db: "perpRun 1 samplePerp emptyPerpDb = Inr db" by (rule samplePerp_runs)
  show ?thesis
    using db claims_reconcile [OF db emptyPerpDb_tables(6)] by (auto simp: samplePerp_def)
qed

theorem order_rows_wellformed_witness:
  "\<exists>db. perpRun 1 samplePerp emptyPerpDb = Inr db \<and> orders_ok db"
proof -
  obtain db where db: "perpRun 1 samplePerp emptyPerpDb = Inr db" by (rule samplePerp_runs)
  show ?thesis using db order_rows_wellformed [OF db emptyPerpDb_tables(5)] by blast
qed

theorem first_order_delay_is_lost_witness:
  "js_get (perpEngineStats (onMinOrderDelaySet 30 emptyPerpDb)) ''engine'' = Some zeroEngineStats"
  using first_order_delay_is_lost [of emptyPerpDb 30] by (simp add: emptyPerpDb_tables)

theorem open_interest_stays_zero_witness:
  "\<exists>db. perpRun 1 samplePerp emptyPerpDb = Inr db \<and> no_open_interest db"
proof -
  obtain db where db: "perpRun 1 samplePerp emptyPerpDb = Inr db" by (rule samplePerp_runs)
  show ?thesis using db open_interest_stays_zero [OF db emptyPerpDb_tables(7)] by blast
qed

end
