(* ===== verification/IndexerRun.thy ===== *)
theory IndexerRun
  imports PoolHandlers PerpLedger
begin

text \<open>
  The indexer as a whole: what holds of its database after any stream of events. The counters of the
  protocol are the sums of the days', a pool's cumulatives are the sums of its hours', and the
  protocol's volumes and fees are the sums of the GPUs' and the pools'.
\<close>

subsection \<open>Runs\<close>

lemma indexRun_invariant:
  assumes "indexRun g c es db = Inr db'" "I db"
    and "\<And>m e d d'. (m, e) \<in> set es \<Longrightarrow> I d \<Longrightarrow> indexStep g m c e d = Inr d' \<Longrightarrow> I d'"
  shows "I db'"
  using assms
proof (induction es arbitrary: db)
  case (Cons x es)
  obtain m e where x: "x = (m, e)" by (cases x)
  obtain d where d: "indexStep g m c e db = Inr d" "indexRun g c es d = Inr db'"
    using Cons.prems(1) by (auto simp: x andThen_eq_Inr)
  have "I d" using Cons.prems(2,3) d(1) x by auto
  then show ?case using Cons.IH [OF d(2)] Cons.prems(3) by auto
qed simp

text \<open>What an operation does to the tables the properties speak of, beside those of the users and the
  perps.\<close>

lemma table_frames [simp]:
  fixes db :: PoolDb
  shows
    "walletBalances (bumpStats d db) = walletBalances db"
    "walletCostBasis (bumpStats d db) = walletCostBasis db"
    "walletVaultPositions (bumpStats d db) = walletVaultPositions db"
    "gpuTokens (bumpStats d db) = gpuTokens db"
    "sgusdVault (bumpStats d db) = sgusdVault db"
    "protocolStatsDaily (bumpStats d db) = protocolStatsDaily db"
    "poolStatsHourly (bumpStats d db) = poolStatsHourly db"
    "gpuAssets (bumpStats d db) = gpuAssets db"
    "pools (bumpStats d db) = pools db"
    "poolLiquidityPositions (bumpStats d db) = poolLiquidityPositions db"
    "walletBalances (setStats f db) = walletBalances db"
    "walletCostBasis (setStats f db) = walletCostBasis db"
    "walletVaultPositions (setStats f db) = walletVaultPositions db"
    "gpuTokens (setStats f db) = gpuTokens db"
    "sgusdVault (setStats f db) = sgusdVault db"
    "protocolStatsDaily (setStats f db) = protocolStatsDaily db"
    "poolStatsHourly (setStats f db) = poolStatsHourly db"
    "gpuAssets (setStats f db) = gpuAssets db"
    "pools (setStats f db) = pools db"
    "poolLiquidityPositions (setStats f db) = poolLiquidityPositions db"
    "walletBalances (bumpVault v db) = walletBalances db"
    "walletCostBasis (bumpVault v db) = walletCostBasis db"
    "walletVaultPositions (bumpVault v db) = walletVaultPositions db"
    "gpuTokens (bumpVault v db) = gpuTokens db"
    "protocolStats (bumpVault v db) = protocolStats db"
    "protocolStatsDaily (bumpVault v db) = protocolStatsDaily db"
    "poolStatsHourly (bumpVault v db) = poolStatsHourly db"
    "gpuAssets (bumpVault v db) = gpuAssets db"
    "pools (bumpVault v db) = pools db"
    "poolLiquidityPositions (bumpVault v db) = poolLiquidityPositions db"
    "walletBalances (bumpDailyBucket s y db) = walletBalances db"
    "walletCostBasis (bumpDailyBucket s y db) = walletCostBasis db"
    "walletVaultPositions (bumpDailyBucket s y db) = walletVaultPositions db"
    "gpuTokens (bumpDailyBucket s y db) = gpuTokens db"
    "protocolStats (bumpDailyBucket s y db) = protocolStats db"
    "sgusdVault (bumpDailyBucket s y db) = sgusdVault db"
    "poolStatsHourly (bumpDailyBucket s y db) = poolStatsHourly db"
    "gpuAssets (bumpDailyBucket s y db) = gpuAssets db"
    "pools (bumpDailyBucket s y db) = pools db"
    "poolLiquidityPositions (bumpDailyBucket s y db) = poolLiquidityPositions db"
    "walletBalances (bumpPoolHourBucket p s h db) = walletBalances db"
    "walletCostBasis (bumpPoolHourBucket p s h db) = walletCostBasis db"
    "walletVaultPositions (bumpPoolHourBucket p s h db) = walletVaultPositions db"
    "gpuTokens (bumpPoolHourBucket p s h db) = gpuTokens db"
    "protocolStats (bumpPoolHourBucket p s h db) = protocolStats db"
    "sgusdVault (bumpPoolHourBucket p s h db) = sgusdVault db"
    "protocolStatsDaily (bumpPoolHourBucket p s h db) = protocolStatsDaily db"
    "gpuAssets (bumpPoolHourBucket p s h db) = gpuAssets db"
    "pools (bumpPoolHourBucket p s h db) = pools db"
    "poolLiquidityPositions (bumpPoolHourBucket p s h db) = poolLiquidityPositions db"
    "walletBalances (updateBasis k w i b db) = walletBalances db"
    "walletVaultPositions (updateBasis k w i b db) = walletVaultPositions db"
    "gpuTokens (updateBasis k w i b db) = gpuTokens db"
    "protocolStats (updateBasis k w i b db) = protocolStats db"
    "sgusdVault (updateBasis k w i b db) = sgusdVault db"
    "protocolStatsDaily (updateBasis k w i b db) = protocolStatsDaily db"
    "poolStatsHourly (updateBasis k w i b db) = poolStatsHourly db"
    "gpuAssets (updateBasis k w i b db) = gpuAssets db"
    "pools (updateBasis k w i b db) = pools db"
    "poolLiquidityPositions (updateBasis k w i b db) = poolLiquidityPositions db"
    "walletBalances (updateVault k w u db) = walletBalances db"
    "walletCostBasis (updateVault k w u db) = walletCostBasis db"
    "gpuTokens (updateVault k w u db) = gpuTokens db"
    "protocolStats (updateVault k w u db) = protocolStats db"
    "sgusdVault (updateVault k w u db) = sgusdVault db"
    "protocolStatsDaily (updateVault k w u db) = protocolStatsDaily db"
    "poolStatsHourly (updateVault k w u db) = poolStatsHourly db"
    "gpuAssets (updateVault k w u db) = gpuAssets db"
    "pools (updateVault k w u db) = pools db"
    "poolLiquidityPositions (updateVault k w u db) = poolLiquidityPositions db"
  by (simp_all add: bumpStats_def setStats_def bumpVault_def bumpDailyBucket_def bumpPoolHourBucket_def
      updateBasis_def updateVault_def Let_def)

lemma recordUserEvent_shape:
  "recordUserEvent i db = Inr db' \<Longrightarrow> \<exists>u w. db' = db\<lparr>userEvents := u, wallets := w\<rparr>"
  by (auto simp: recordUserEvent_def split: sum.splits)

lemma withAsset_Inr:
  "withAsset what i f db = Inr db' \<longleftrightarrow>
     (\<exists>asset. js_get (gpuAssets db) i = Some asset \<and> db' = db\<lparr>gpuAssets := js_set i (f asset) (gpuAssets db)\<rparr>)"
  by (auto simp: withAsset_def updateRow_def split: option.splits)

lemma updatePool_Inr:
  "updatePool i f db = Inr db' \<longleftrightarrow>
     (\<exists>pool. js_get (pools db) i = Some pool \<and> db' = db\<lparr>pools := js_set i (f pool) (pools db)\<rparr>)"
  by (auto simp: updatePool_def updateRow_def split: option.splits)

lemma applyChanges_shape:
  "applyChanges k t cs db = Inr db' \<Longrightarrow> \<exists>b. db' = db\<lparr>walletBalances := b\<rparr>"
proof (induction cs arbitrary: db)
  case (Cons x cs)
  obtain w d where x: "x = (w, d)" by (cases x)
  obtain db1 where s: "applyBalanceDelta k t w d db = Inr db1" "applyChanges k t cs db1 = Inr db'"
    using Cons.prems by (auto simp: x andThen_eq_Inr)
  obtain b1 where "db1 = db\<lparr>walletBalances := b1\<rparr>"
    using s(1) by (auto simp: applyBalanceDelta_def Let_def split: if_splits)
  then show ?case using Cons.IH [OF s(2)] by auto
next
  case Nil
  then have "db' = db\<lparr>walletBalances := walletBalances db\<rparr>" by simp
  then show ?case ..
qed

definition perp_tables :: "PoolDb \<Rightarrow> _" where
  "perp_tables db = (walletBalances db, walletCostBasis db, walletVaultPositions db, gpuTokens db, protocolStats db,
     sgusdVault db, protocolStatsDaily db, poolStatsHourly db, gpuAssets db, pools db, poolLiquidityPositions db)"

lemma perpStep_frame:
  assumes "perpStep m c e db = Inr db'"
  shows "perp_tables db' = perp_tables db"
  using assms
  by (cases e) (auto simp: perp_handlers perp_tables_def andThen_eq_Inr updateRow_Inr recordUserEvent_def
      split: if_splits sum.splits)

lemmas index_handlers =
  onMinted_def onRedeemed_def onFeesUpdated_def onDeposit_def onWithdraw_def onSeeded_def onBuy_def onSell_def
  onGpuCreated_def onIssued_def onIssuanceEnabledSet_def onIssuanceFeeSet_def onDistributed_def
  onSplitUpdated_def onRecipientsUpdated_def onMintedViaSwap_def onRedeemedViaSwap_def onPriceConsumed_def
  onSignerTransferStarted_def onSignerAccepted_def onEpochLengthSet_def onMaxObservationAgeSet_def
  onPoolRegistered_def onGpuFill_def onHookSwap_def onHookFeeBpsSet_def onInitialize_def onSwap_def
  onModifyLiquidity_def onDonate_def onModifyPosition_def onBidCredited_def onGpuNoted_def onInventoryPulled_def
  onGusdTransfer_def onGpuTransfer_def onSgusdTransfer_def logTransfer_def
  recordGpuAcquisition_def recordGpuDisposal_def demoteGpuBasis_def recordVaultDeposit_def recordVaultWithdraw_def
  demoteVaultPosition_def

subsection \<open>The days\<close>

definition statsOf :: "ProtocolStatsRow entity_table \<Rightarrow> StatsCounters" where
  "statsOf t = (case js_get t ''protocol'' of None \<Rightarrow> zeroStats | Some r \<Rightarrow> st_counters r)"

definition dailyOf :: "StatsCounters \<Rightarrow> DailyCounters" where
  "dailyOf s =
     \<lparr>dy_mintedGusd = gs_gusdMintedGusd s, dy_redeemedGusd = gs_gusdRedeemedGusd s,
      dy_mintCount = gs_mintCount s, dy_redeemCount = gs_redeemCount s, dy_issuedGpu = gs_issuedGpu s,
      dy_issuedCount = gs_issuedCount s, dy_issuanceProceedsGusd = gs_issuanceProceedsGusd s,
      dy_buyVolumeGusd = gs_buyVolumeGusd s, dy_sellVolumeGusd = gs_sellVolumeGusd s,
      dy_buyCount = gs_buyCount s, dy_sellCount = gs_sellCount s, dy_hookFeesGusd = gs_hookFeesGusd s,
      dy_revenueDistributedGusd = gs_revenueDistributedGusd s\<rparr>"

definition sumDays :: "DailyRow entity_table \<Rightarrow> DailyCounters" where
  "sumDays t =
     \<lparr>dy_mintedGusd = total (dy_mintedGusd \<circ> da_counters) t,
      dy_redeemedGusd = total (dy_redeemedGusd \<circ> da_counters) t,
      dy_mintCount = total (dy_mintCount \<circ> da_counters) t,
      dy_redeemCount = total (dy_redeemCount \<circ> da_counters) t,
      dy_issuedGpu = total (dy_issuedGpu \<circ> da_counters) t,
      dy_issuedCount = total (dy_issuedCount \<circ> da_counters) t,
      dy_issuanceProceedsGusd = total (dy_issuanceProceedsGusd \<circ> da_counters) t,
      dy_buyVolumeGusd = total (dy_buyVolumeGusd \<circ> da_counters) t,
      dy_sellVolumeGusd = total (dy_sellVolumeGusd \<circ> da_counters) t,
      dy_buyCount = total (dy_buyCount \<circ> da_counters) t,
      dy_sellCount = total (dy_sellCount \<circ> da_counters) t,
      dy_hookFeesGusd = total (dy_hookFeesGusd \<circ> da_counters) t,
      dy_revenueDistributedGusd = total (dy_revenueDistributedGusd \<circ> da_counters) t\<rparr>"

lemma statsOf_bump [simp]:
  "statsOf (protocolStats (bumpStats d (db :: PoolDb))) = addStats (statsOf (protocolStats db)) d"
  by (simp add: statsOf_def bumpStats_def get_upsertRow zeroProtocolStats_def split: option.splits)

lemma statsOf_set:
  assumes "\<And>r. st_counters (f r) = st_counters r"
  shows "statsOf (protocolStats (setStats f (db :: PoolDb))) = statsOf (protocolStats db)"
  using assms by (simp add: statsOf_def setStats_def get_upsertRow zeroProtocolStats_def split: option.splits)

lemma sumDays_bump [simp]:
  "sumDays (protocolStatsDaily (bumpDailyBucket s d (db :: PoolDb))) = addDaily (sumDays (protocolStatsDaily db)) d"
  by (simp add: sumDays_def bumpDailyBucket_def Let_def total_upsertRow addDaily_def zeroDaily_def
      zeroDailyBucket_def split: option.splits)

definition days_ok :: "PoolDb \<Rightarrow> bool" where
  "days_ok db \<longleftrightarrow> sumDays (protocolStatsDaily db) = dailyOf (statsOf (protocolStats db))"

lemma dailyOf_add: "dailyOf (addStats s d) = addDaily (dailyOf s) (dailyOf d)"
  by (simp add: dailyOf_def addStats_def addDaily_def)

lemma addDaily_zero [simp]: "addDaily x zeroDaily = x"
  by (simp add: addDaily_def zeroDaily_def)

text \<open>The deltas of the handlers, on the protocol row and on the day.\<close>

lemma dailyOf_deltas:
  "dailyOf (zeroStats\<lparr>gs_gusdMintedGusd := x, gs_mintCount := 1\<rparr>) = zeroDaily\<lparr>dy_mintedGusd := x, dy_mintCount := 1\<rparr>"
  "dailyOf (zeroStats\<lparr>gs_gusdRedeemedGusd := x, gs_redeemCount := 1\<rparr>) = zeroDaily\<lparr>dy_redeemedGusd := x, dy_redeemCount := 1\<rparr>"
  "dailyOf (zeroStats\<lparr>gs_buyCount := 1, gs_buyVolumeGusd := x\<rparr>) = zeroDaily\<lparr>dy_buyVolumeGusd := x, dy_buyCount := 1\<rparr>"
  "dailyOf (zeroStats\<lparr>gs_sellCount := 1, gs_sellVolumeGusd := x\<rparr>) = zeroDaily\<lparr>dy_sellVolumeGusd := x, dy_sellCount := 1\<rparr>"
  "dailyOf (zeroStats\<lparr>gs_issuedGpu := x, gs_issuedCount := 1, gs_issuanceProceedsGusd := y, gs_issuanceFeesGusd := z\<rparr>) =
     zeroDaily\<lparr>dy_issuedGpu := x, dy_issuedCount := 1, dy_issuanceProceedsGusd := y\<rparr>"
  "dailyOf (zeroStats\<lparr>gs_revenueDistributedGusd := x, gs_revenueToVaultGusd := y, gs_revenueToTreasuryGusd := z\<rparr>) =
     zeroDaily\<lparr>dy_revenueDistributedGusd := x\<rparr>"
  "dailyOf (zeroStats\<lparr>gs_hookFeesGusd := x\<rparr>) = zeroDaily\<lparr>dy_hookFeesGusd := x\<rparr>"
  "dailyOf (zeroStats\<lparr>gs_lpFeesGusdEst := x\<rparr>) = zeroDaily"
  by (simp_all add: dailyOf_def zeroStats_def zeroDaily_def)

lemmas days_simps = days_ok_def Let_def andThen_eq_Inr withAsset_Inr updatePool_Inr statsOf_set
  dailyOf_add dailyOf_deltas

lemma days_ok_step:
  assumes "days_ok db" "indexStep g m c e db = Inr db'"
  shows "days_ok db'"
proof (cases e)
  case (Perp p)
  then show ?thesis using assms perpStep_frame [of m c p db db'] by (simp add: days_ok_def perp_tables_def)
next
  case (InventoryPulled i n b)
  then obtain t where "db' = db\<lparr>gpuAssets := t\<rparr>"
    using assms(2) by (auto simp: onInventoryPulled_def withAsset_Inr simp del: if_split)
  then show ?thesis using assms(1) by (simp add: days_ok_def)
qed (use assms in \<open>auto simp: index_handlers days_simps dest!: recordUserEvent_shape applyChanges_shape
      split: if_splits option.splits contract_address.splits\<close>)

subsection \<open>Pools and their hours\<close>

definition cumulatives :: "PoolRow \<Rightarrow> int \<times> int \<times> int \<times> int \<times> int" where
  "cumulatives r =
     (po_volumeGusd r, po_buyVolumeGusd r, po_sellVolumeGusd r, po_hookFeesGusd r, po_lpFeesGusdEst r)"

definition poolView :: "string \<Rightarrow> PoolRow entity_table \<Rightarrow> int \<times> int \<times> int \<times> int \<times> int" where
  "poolView p t = (case js_get t p of None \<Rightarrow> (0, 0, 0, 0, 0) | Some r \<Rightarrow> cumulatives r)"

definition two_sided :: "int \<times> int \<times> int \<times> int \<times> int \<Rightarrow> bool" where \<comment> \<open>volume is buys and sells\<close>
  "two_sided x \<longleftrightarrow> (case x of (v, b, l, h, f) \<Rightarrow> v = b + l)"

definition hourSum :: "(HourCounters \<Rightarrow> int) \<Rightarrow> string \<Rightarrow> PoolHourRow entity_table \<Rightarrow> int" where
  "hourSum f p t = total (\<lambda>r. if ph_poolId r = p then f (ph_counters r) else 0) t"

definition hourView :: "string \<Rightarrow> PoolHourRow entity_table \<Rightarrow> int \<times> int \<times> int \<times> int \<times> int" where
  "hourView p t = (hourSum hr_volumeGusd p t, hourSum hr_buyVolumeGusd p t, hourSum hr_sellVolumeGusd p t,
     hourSum hr_hookFeesGusd p t, hourSum hr_lpFeesGusdEst p t)"

lemma hourKey_pool:
  assumes "hourKey r = hourKey r'"
  shows "ph_poolId r = ph_poolId r'"
proof -
  let ?n = "\<lambda>r. rev (int_text (ph_bucketStart r))"
  have e: "?n r @ CHR ''_'' # rev (ph_poolId r) = ?n r' @ CHR ''_'' # rev (ph_poolId r')"
    using arg_cong [OF assms, of rev] by (simp add: hourKey_def)
  have p: "CHR ''_'' \<notin> set (?n r)" for r :: PoolHourRow using int_text_plain by auto
  have "?n r = ?n r' \<and> rev (ph_poolId r) = rev (ph_poolId r')"
    using e unfolding append_sep_inj [OF p p] .
  then show ?thesis by simp
qed

lemma hourSum_bump:
  fixes db :: PoolDb
  assumes "keyed hourKey (poolStatsHourly db)" "\<And>x y. f (addHour x y) = f x + f y" "f zeroHour = 0"
  shows "hourSum f p (poolStatsHourly (bumpPoolHourBucket q s d db)) =
    hourSum f p (poolStatsHourly db) + (if q = p then f d else 0)"
proof -
  let ?v = "(zeroPoolHourBucket q (hourBucketStart s))\<lparr>ph_counters := addHour zeroHour d\<rparr>"
  have q: "ph_poolId old = q" if "js_get (poolStatsHourly db) (hourKey ?v) = Some old" for old
  proof -
    have "hourKey old = hourKey ?v" using assms(1) that by (auto simp: keyed_def)
    from hourKey_pool [OF this] show ?thesis by (simp add: zeroPoolHourBucket_def)
  qed
  show ?thesis
  proof (cases "js_get (poolStatsHourly db) (hourKey ?v)")
    case None
    then show ?thesis
      using assms(2,3)
      by (simp add: hourSum_def bumpPoolHourBucket_def Let_def total_upsertRow zeroPoolHourBucket_def)
  next
    case (Some old)
    then show ?thesis
      using assms(2,3) q [OF Some]
      by (simp add: hourSum_def bumpPoolHourBucket_def Let_def total_upsertRow)
  qed
qed

lemma keyed_bumpHour:
  "keyed hourKey (poolStatsHourly (db :: PoolDb)) \<Longrightarrow> keyed hourKey (poolStatsHourly (bumpPoolHourBucket q s d db))"
  unfolding bumpPoolHourBucket_def Let_def by (simp add: keyed_upsertRow hourKey_def)

lemma hourView_bump:
  fixes db :: PoolDb
  assumes "keyed hourKey (poolStatsHourly db)"
  shows "hourView p (poolStatsHourly (bumpPoolHourBucket q s d db)) =
    (if q = p then (case hourView p (poolStatsHourly db) of (v, b, l, h, f) \<Rightarrow>
        (v + hr_volumeGusd d, b + hr_buyVolumeGusd d, l + hr_sellVolumeGusd d, h + hr_hookFeesGusd d,
         f + hr_lpFeesGusdEst d))
     else hourView p (poolStatsHourly db))"
  unfolding hourView_def
  by (simp add: hourSum_bump [OF assms] addHour_def zeroHour_def)

definition hours_ok :: "PoolDb \<Rightarrow> bool" where
  "hours_ok db \<longleftrightarrow> keyed hourKey (poolStatsHourly db) \<and>
     (\<forall>p. hourView p (poolStatsHourly db) = poolView p (pools db) \<and> two_sided (poolView p (pools db)))"

lemma hours_ok_keep:
  "hours_ok db \<Longrightarrow> poolStatsHourly db' = poolStatsHourly db \<Longrightarrow> (\<And>p. poolView p (pools db') = poolView p (pools db)) \<Longrightarrow>
   hours_ok db'"
  by (simp add: hours_ok_def)

lemma poolView_set: "poolView p (js_set q r t) = (if p = q then cumulatives r else poolView p t)"
  by (simp add: poolView_def)

lemma poolView_upsert:
  "(\<And>r. cumulatives (f r) = cumulatives r) \<Longrightarrow> cumulatives v = (0, 0, 0, 0, 0) \<Longrightarrow>
   poolView p (upsertRow po_poolId v f t) = poolView p t"
  by (simp add: poolView_def get_upsertRow split: option.split)

text \<open>A fill or a swap moves the cumulatives and the bucket by the same amounts.\<close>

lemma hours_ok_move:
  fixes db :: PoolDb
  assumes ok: "hours_ok db" and pool: "js_get (pools db) q = Some pool"
    and db': "pools db' = js_set q r (pools db)"
      "poolStatsHourly db' = poolStatsHourly (bumpPoolHourBucket q s d db)"
    and r: "po_volumeGusd r = po_volumeGusd pool + hr_volumeGusd d"
      "po_buyVolumeGusd r = po_buyVolumeGusd pool + hr_buyVolumeGusd d"
      "po_sellVolumeGusd r = po_sellVolumeGusd pool + hr_sellVolumeGusd d"
      "po_hookFeesGusd r = po_hookFeesGusd pool + hr_hookFeesGusd d"
      "po_lpFeesGusdEst r = po_lpFeesGusdEst pool + hr_lpFeesGusdEst d"
    and d: "hr_volumeGusd d = hr_buyVolumeGusd d + hr_sellVolumeGusd d"
  shows "hours_ok db'"
proof -
  have k: "keyed hourKey (poolStatsHourly db)" using ok by (simp add: hours_ok_def)
  have "hourView p (poolStatsHourly db') = poolView p (pools db') \<and> two_sided (poolView p (pools db'))" for p
  proof -
    have o: "hourView p (poolStatsHourly db) = poolView p (pools db)" "two_sided (poolView p (pools db))"
      using ok by (simp_all add: hours_ok_def)
    have "poolView q (pools db) = cumulatives pool"
      using pool by (simp add: poolView_def)
    then show ?thesis
      using o r d
      by (cases "p = q") (simp_all add: db' poolView_set hourView_bump [OF k] cumulatives_def two_sided_def)
  qed
  then show ?thesis using keyed_bumpHour [OF k] by (simp add: hours_ok_def db')
qed

text \<open>The row of the pool after a fill and after a swap, and the deltas of its bucket.\<close>

definition fillRow :: "EventKeys \<Rightarrow> GpuFillArgs \<Rightarrow> PoolRow \<Rightarrow> PoolRow" where
  "fillRow keys a pool = pool\<lparr>po_volumeGusd := po_volumeGusd pool + gf_gusdAmount a,
     po_buyVolumeGusd := (if gf_isBuy a then po_buyVolumeGusd pool + gf_gusdAmount a else po_buyVolumeGusd pool),
     po_sellVolumeGusd := (if gf_isBuy a then po_sellVolumeGusd pool else po_sellVolumeGusd pool + gf_gusdAmount a),
     po_hookFeesGusd := po_hookFeesGusd pool + gf_protocolFee a, po_lastSwapAtSec := Some (blockTimestamp keys),
     po_lastSwapBlockNumber := Some (blockNumber keys)\<rparr>"

definition fillHour :: "GpuFillArgs \<Rightarrow> HourCounters" where
  "fillHour a = zeroHour\<lparr>hr_volumeGusd := gf_gusdAmount a,
     hr_buyVolumeGusd := (if gf_isBuy a then gf_gusdAmount a else 0),
     hr_sellVolumeGusd := (if gf_isBuy a then 0 else gf_gusdAmount a), hr_hookFeesGusd := gf_protocolFee a\<rparr>"

lemma onGpuFill_tables:
  fixes db :: PoolDb
  assumes "onGpuFill keys a db = Inr db'"
  shows "\<exists>pool asset. js_get (pools db) (gf_poolId a) = Some pool \<and> js_get (gpuAssets db) (gf_gpuId a) = Some asset \<and>
    pools db' = js_set (gf_poolId a) (fillRow keys a pool) (pools db) \<and>
    poolStatsHourly db' =
      poolStatsHourly (bumpPoolHourBucket (gf_poolId a) (blockTimestamp keys) (fillHour a) db) \<and>
    gpuAssets db' = js_set (gf_gpuId a) (asset\<lparr>ga_polFeesGusd := ga_polFeesGusd asset + gf_protocolFee a\<rparr>)
      (gpuAssets db) \<and>
    protocolStats db' = protocolStats (bumpStats (zeroStats\<lparr>gs_hookFeesGusd := gf_protocolFee a\<rparr>) db) \<and>
    sgusdVault db' = sgusdVault db"
  using assms
  by (auto simp: onGpuFill_def Let_def andThen_eq_Inr withAsset_Inr updatePool_Inr fillRow_def fillHour_def
      bumpPoolHourBucket_def bumpStats_def bumpDailyBucket_def split: option.splits)

definition gusdDelta :: "PoolRow \<Rightarrow> SwapArgs \<Rightarrow> int" where
  "gusdDelta pool a = (if po_gusdIsCurrency0 pool = Some True then sw_amount0 a else sw_amount1 a)"

definition swapFeeEst :: "PoolRow \<Rightarrow> SwapArgs \<Rightarrow> int" where
  "swapFeeEst pool a =
     (if gusdDelta pool a < 0 then big_div (- gusdDelta pool a * sw_fee a) FEE_DENOMINATOR else 0)"

definition swapRow :: "EventKeys \<Rightarrow> SwapArgs \<Rightarrow> PoolRow \<Rightarrow> PoolRow" where
  "swapRow keys a pool = pool\<lparr>po_sqrtPriceX96 := Some (sw_sqrtPriceX96 a), po_liquidity := Some (sw_liquidity a),
     po_tick := Some (sw_tick a), po_swapCount := po_swapCount pool + 1,
     po_volumeGusd := po_volumeGusd pool + \<bar>gusdDelta pool a\<bar>,
     po_buyVolumeGusd := (if gusdDelta pool a < 0 then po_buyVolumeGusd pool + \<bar>gusdDelta pool a\<bar> else po_buyVolumeGusd pool),
     po_sellVolumeGusd := (if gusdDelta pool a < 0 then po_sellVolumeGusd pool else po_sellVolumeGusd pool + \<bar>gusdDelta pool a\<bar>),
     po_lpFeesGusdEst := po_lpFeesGusdEst pool + swapFeeEst pool a,
     po_lastSwapAtSec := Some (blockTimestamp keys), po_lastSwapBlockNumber := Some (blockNumber keys)\<rparr>"

definition swapHour :: "PoolRow \<Rightarrow> SwapArgs \<Rightarrow> HourCounters" where
  "swapHour pool a = zeroHour\<lparr>hr_volumeGusd := \<bar>gusdDelta pool a\<bar>,
     hr_buyVolumeGusd := (if gusdDelta pool a < 0 then \<bar>gusdDelta pool a\<bar> else 0),
     hr_sellVolumeGusd := (if gusdDelta pool a < 0 then 0 else \<bar>gusdDelta pool a\<bar>),
     hr_buys := (if gusdDelta pool a < 0 then 1 else 0), hr_sells := (if gusdDelta pool a < 0 then 0 else 1),
     hr_lpFeesGusdEst := swapFeeEst pool a, hr_swaps := 1\<rparr>"

lemma onSwap_tables:
  fixes db :: PoolDb
  assumes "onSwap keys a db = Inr db'"
  shows "\<exists>pool. js_get (pools db) (sw_poolId a) = Some pool \<and> po_gusdIsCurrency0 pool \<noteq> None \<and>
    pools db' = js_set (sw_poolId a) (swapRow keys a pool) (pools db) \<and>
    (if sw_amount0 a = 0 \<and> sw_amount1 a = 0
     then poolStatsHourly db' = poolStatsHourly db \<and> protocolStats db' = protocolStats db
     else poolStatsHourly db' =
         poolStatsHourly (bumpPoolHourBucket (sw_poolId a) (blockTimestamp keys) (swapHour pool a) db) \<and>
       protocolStats db' = protocolStats (bumpStats (zeroStats\<lparr>gs_lpFeesGusdEst := swapFeeEst pool a\<rparr>) db)) \<and>
    gpuAssets db' = gpuAssets db \<and> sgusdVault db' = sgusdVault db"
proof -
  obtain pool first where pool: "js_get (pools db) (sw_poolId a) = Some pool" "po_gusdIsCurrency0 pool = Some first"
    using assms by (auto simp: onSwap_def Let_def split: option.splits)
  have g: "(if first then sw_amount0 a else sw_amount1 a) = gusdDelta pool a"
    using pool(2) by (simp add: gusdDelta_def)
  show ?thesis
    using assms pool
    by (cases "sw_amount0 a = 0 \<and> sw_amount1 a = 0"; cases "gusdDelta pool a < 0")
      (auto simp: onSwap_def Let_def g andThen_eq_Inr updatePool_Inr swapRow_def swapHour_def swapFeeEst_def
        bumpPoolHourBucket_def bumpStats_def)
qed

lemma total_upsert_same:
  "(\<And>r. f (u r) = f r) \<Longrightarrow> f v = 0 \<Longrightarrow> total f (upsertRow key v u t) = total f t"
  by (simp add: total_upsertRow split: option.split)

lemma onPoolRegistered_tables:
  fixes db :: PoolDb
  assumes "onPoolRegistered m c i p db = Inr db'"
  shows "poolStatsHourly db' = poolStatsHourly db \<and> protocolStats db' = protocolStats db \<and>
    sgusdVault db' = sgusdVault db \<and> (\<forall>q. poolView q (pools db') = poolView q (pools db)) \<and>
    total po_hookFeesGusd (pools db') = total po_hookFeesGusd (pools db) \<and>
    total po_lpFeesGusdEst (pools db') = total po_lpFeesGusdEst (pools db) \<and>
    (\<exists>asset. js_get (gpuAssets db) i = Some asset \<and>
      gpuAssets db' = js_set i (asset\<lparr>ga_canonicalPoolId := Some p\<rparr>) (gpuAssets db))"
proof -
  let ?reg = "\<lambda>r. r\<lparr>po_gpuId := Some i, po_canonical := True, po_registeredBlockNumber := Some (block_number m),
    po_registeredAtSec := Some (block_timestamp m)\<rparr>"
  define t where "t = upsertRow po_poolId (?reg (freshPool p)) ?reg (pools db)"
  have view: "poolView q t = poolView q (pools db)" for q
    unfolding t_def by (rule poolView_upsert) (simp_all add: cumulatives_def freshPool_def)
  have set: "poolView q (js_set p (r\<lparr>po_gusdIsCurrency0 := b\<rparr>) t) = poolView q t" if r: "js_get t p = Some r" for q r b
    using r by (simp add: poolView_set cumulatives_def) (simp add: poolView_def cumulatives_def)
  have tot: "total po_hookFeesGusd t = total po_hookFeesGusd (pools db)"
    "total po_lpFeesGusdEst t = total po_lpFeesGusdEst (pools db)"
    unfolding t_def by (rule total_upsert_same; simp add: freshPool_def)+
  show ?thesis
    using assms
    by (auto simp: onPoolRegistered_def Let_def andThen_eq_Inr withAsset_Inr updatePool_Inr set view tot total_js_set
        simp flip: t_def split: option.splits)
qed

lemma hours_ok_step:
  assumes ok: "hours_ok db" and step: "indexStep g m c e db = Inr db'"
  shows "hours_ok db'"
proof (cases e)
  case (Perp p)
  then show ?thesis
    using step perpStep_frame [of m c p db db'] by (intro hours_ok_keep [OF ok]) (simp_all add: perp_tables_def)
next
  case (GpuFill a)
  then obtain pool where t: "js_get (pools db) (gf_poolId a) = Some pool"
    "pools db' = js_set (gf_poolId a) (fillRow (eventKeys m c) a pool) (pools db)"
    "poolStatsHourly db' = poolStatsHourly
      (bumpPoolHourBucket (gf_poolId a) (blockTimestamp (eventKeys m c)) (fillHour a) db)"
    using onGpuFill_tables [of "eventKeys m c" a db db'] step by auto
  show ?thesis
    by (rule hours_ok_move [OF ok t]) (simp_all add: fillRow_def fillHour_def zeroHour_def)
next
  case (Swap a)
  then obtain pool where t: "js_get (pools db) (sw_poolId a) = Some pool"
    "pools db' = js_set (sw_poolId a) (swapRow (eventKeys m c) a pool) (pools db)"
    and h: "if sw_amount0 a = 0 \<and> sw_amount1 a = 0 then poolStatsHourly db' = poolStatsHourly db
      else poolStatsHourly db' = poolStatsHourly
        (bumpPoolHourBucket (sw_poolId a) (blockTimestamp (eventKeys m c)) (swapHour pool a) db)"
    using onSwap_tables [of "eventKeys m c" a db db'] step by (auto split: if_splits)
  show ?thesis
  proof (cases "sw_amount0 a = 0 \<and> sw_amount1 a = 0")
    case True
    then have "gusdDelta pool a = 0" by (simp add: gusdDelta_def)
    then have "poolView q (pools db') = poolView q (pools db)" for q
      using t by (auto simp: poolView_set swapRow_def swapFeeEst_def cumulatives_def poolView_def)
    then show ?thesis using h True by (intro hours_ok_keep [OF ok]) simp_all
  next
    case False
    then have h': "poolStatsHourly db' = poolStatsHourly
        (bumpPoolHourBucket (sw_poolId a) (blockTimestamp (eventKeys m c)) (swapHour pool a) db)"
      using h by simp
    show ?thesis
      by (rule hours_ok_move [OF ok t h']) (simp_all add: swapRow_def swapHour_def zeroHour_def)
  qed
next
  case (PoolRegistered i p)
  then show ?thesis
    using onPoolRegistered_tables [of m c i p db db'] step by (intro hours_ok_keep [OF ok]) simp_all
next
  case (Initialize a)
  then show ?thesis
    using step
    by (auto simp: onInitialize_def Let_def poolView_upsert cumulatives_def freshPool_def
        intro!: hours_ok_keep [OF ok] split: contract_address.splits)
next
  case (InventoryPulled i n b)
  then obtain t where "db' = db\<lparr>gpuAssets := t\<rparr>"
    using step by (auto simp: onInventoryPulled_def withAsset_Inr simp del: if_split)
  then show ?thesis by (intro hours_ok_keep [OF ok]) simp_all
qed (use step in \<open>auto simp: index_handlers Let_def andThen_eq_Inr withAsset_Inr
      dest!: recordUserEvent_shape applyChanges_shape intro!: hours_ok_keep [OF ok]
      split: if_splits option.splits contract_address.splits\<close>)

subsection \<open>The protocol and its parts\<close>

definition vaultOf :: "SgusdVaultRow entity_table \<Rightarrow> VaultCounters" where
  "vaultOf t = (case js_get t ''vault'' of None \<Rightarrow> zeroVault | Some r \<Rightarrow> sv_counters r)"

lemma vaultOf_bump [simp]:
  "vaultOf (sgusdVault (bumpVault d (db :: PoolDb))) = addVault (vaultOf (sgusdVault db)) d"
  by (simp add: vaultOf_def bumpVault_def get_upsertRow zeroSgusdVault_def split: option.splits)

text \<open>What the protocol row must agree with: the sums over the GPUs, over the pools, and the vault's
  revenue.\<close>

definition assets_agree :: "GpuAssetRow entity_table \<Rightarrow> StatsCounters \<Rightarrow> bool" where
  "assets_agree t s \<longleftrightarrow>
     total ga_polFeesGusd t = gs_hookFeesGusd s \<and> total ga_issuedGpu t = gs_issuedGpu s \<and>
     total ga_issuedCount t = gs_issuedCount s \<and> total ga_issuanceProceedsGusd t = gs_issuanceProceedsGusd s \<and>
     total ga_issuanceFeesGusd t = gs_issuanceFeesGusd s \<and> total ga_buyCount t = gs_buyCount s \<and>
     total ga_sellCount t = gs_sellCount s \<and> total ga_volumeGusd t = gs_buyVolumeGusd s + gs_sellVolumeGusd s"

definition pools_agree :: "PoolRow entity_table \<Rightarrow> StatsCounters \<Rightarrow> bool" where
  "pools_agree t s \<longleftrightarrow>
     total po_hookFeesGusd t = gs_hookFeesGusd s \<and> total po_lpFeesGusdEst t = gs_lpFeesGusdEst s"

definition sums_ok :: "PoolDb \<Rightarrow> bool" where
  "sums_ok db \<longleftrightarrow> assets_agree (gpuAssets db) (statsOf (protocolStats db)) \<and>
     pools_agree (pools db) (statsOf (protocolStats db)) \<and>
     vt_revenueGusd (vaultOf (sgusdVault db)) = gs_revenueToVaultGusd (statsOf (protocolStats db))"

lemma sums_ok_keep:
  "sums_ok db \<Longrightarrow> gpuAssets db' = gpuAssets db \<Longrightarrow> pools db' = pools db \<Longrightarrow> sgusdVault db' = sgusdVault db \<Longrightarrow>
   statsOf (protocolStats db') = statsOf (protocolStats db) \<Longrightarrow> sums_ok db'"
  by (simp add: sums_ok_def)

lemmas sums_simps = sums_ok_def assets_agree_def pools_agree_def Let_def andThen_eq_Inr withAsset_Inr updatePool_Inr
  statsOf_set total_js_set addStats_def addVault_def zeroStats_def zeroVault_def total_upsert_same

definition issuedRow :: "EventKeys \<Rightarrow> IssuedArgs \<Rightarrow> GpuAssetRow \<Rightarrow> GpuAssetRow" where
  "issuedRow keys a g = g\<lparr>ga_issuedGpu := ga_issuedGpu g + is_amount a, ga_issuedCount := ga_issuedCount g + 1,
     ga_issuanceProceedsGusd := ga_issuanceProceedsGusd g + is_base a,
     ga_issuanceFeesGusd := ga_issuanceFeesGusd g + is_fee a,
     ga_principalContributedGusd := ga_principalContributedGusd g + is_base a,
     ga_firstIssuedAtSec := (case ga_firstIssuedAtSec g of None \<Rightarrow> Some (blockTimestamp keys) | Some t \<Rightarrow> Some t),
     ga_lastIssuedAtSec := Some (blockTimestamp keys)\<rparr>"

lemma onIssued_core:
  fixes db :: PoolDb
  assumes "onIssued g m c a db = Inr db'"
  shows "\<exists>db2. gpuAssets db2 = gpuAssets db \<and> protocolStats db2 = protocolStats db \<and> sgusdVault db2 = sgusdVault db \<and>
      pools db2 = pools db \<and> walletCostBasis db2 = walletCostBasis db \<and>
      andThen (withAsset ''Issued'' (is_gpuId a) (issuedRow (eventKeys m c) a) db2)
        (\<lambda>db3. let db4 = bumpDailyBucket (blockTimestamp (eventKeys m c))
             (zeroDaily\<lparr>dy_issuedGpu := is_amount a, dy_issuedCount := 1, dy_issuanceProceedsGusd := is_base a\<rparr>)
             (bumpStats (zeroStats\<lparr>gs_issuedGpu := is_amount a, gs_issuedCount := 1,
                gs_issuanceProceedsGusd := is_base a, gs_issuanceFeesGusd := is_fee a\<rparr>) db3)
         in case contractAddress g ''GpuRouter'' of
              OneAddress router \<Rightarrow>
                Inr (if toLowerCase (is_caller a) \<noteq> toLowerCase router \<and> \<not> isInSwapBackstop g (is_caller a)
                     then recordGpuAcquisition (eventKeys m c) (is_to a) (is_gpuId a) (is_amount a)
                       (is_base a + is_fee a) db4
                     else db4)
            | _ \<Rightarrow> Inl (NoAddressOf ''GpuRouter'')) = Inr db'"
  using assms unfolding onIssued_def Let_def [of "eventKeys m c"] Let_def [of "isInSwapBackstop g (is_caller a)"]
    Let_def [of "db\<lparr>gpuIssued := logRow (eventKeys m c) a (gpuIssued db)\<rparr>"] andThen_eq_Inr issuedRow_def
  by - (elim exE conjE, intro exI conjI, auto simp: Let_def dest!: recordUserEvent_shape split: if_splits)

lemma onIssued_tables:
  fixes db :: PoolDb
  assumes "onIssued g m c a db = Inr db'"
  shows "\<exists>asset. js_get (gpuAssets db) (is_gpuId a) = Some asset \<and>
    gpuAssets db' = js_set (is_gpuId a) (issuedRow (eventKeys m c) a asset) (gpuAssets db) \<and>
    protocolStats db' = protocolStats (bumpStats (zeroStats\<lparr>gs_issuedGpu := is_amount a, gs_issuedCount := 1,
      gs_issuanceProceedsGusd := is_base a, gs_issuanceFeesGusd := is_fee a\<rparr>) db) \<and>
    sgusdVault db' = sgusdVault db \<and> pools db' = pools db \<and>
    (\<forall>router. contractAddress g ''GpuRouter'' = OneAddress router \<longrightarrow>
       toLowerCase (is_caller a) = toLowerCase router \<or> isInSwapBackstop g (is_caller a) \<longrightarrow>
       walletCostBasis db' = walletCostBasis db)"
proof -
  from onIssued_core [OF assms]
  obtain db2 asset where d: "gpuAssets db2 = gpuAssets db" "protocolStats db2 = protocolStats db"
      "sgusdVault db2 = sgusdVault db" "pools db2 = pools db" "walletCostBasis db2 = walletCostBasis db"
    and asset: "js_get (gpuAssets db2) (is_gpuId a) = Some asset"
    and r: "(let db4 = bumpDailyBucket (blockTimestamp (eventKeys m c))
           (zeroDaily\<lparr>dy_issuedGpu := is_amount a, dy_issuedCount := 1, dy_issuanceProceedsGusd := is_base a\<rparr>)
           (bumpStats (zeroStats\<lparr>gs_issuedGpu := is_amount a, gs_issuedCount := 1,
              gs_issuanceProceedsGusd := is_base a, gs_issuanceFeesGusd := is_fee a\<rparr>)
             (db2\<lparr>gpuAssets := js_set (is_gpuId a) (issuedRow (eventKeys m c) a asset) (gpuAssets db2)\<rparr>))
       in case contractAddress g ''GpuRouter'' of
            OneAddress router \<Rightarrow>
              Inr (if toLowerCase (is_caller a) \<noteq> toLowerCase router \<and> \<not> isInSwapBackstop g (is_caller a)
                   then recordGpuAcquisition (eventKeys m c) (is_to a) (is_gpuId a) (is_amount a)
                     (is_base a + is_fee a) db4
                   else db4)
          | _ \<Rightarrow> Inl (NoAddressOf ''GpuRouter'')) = Inr db'"
    unfolding andThen_eq_Inr withAsset_Inr by blast
  have s: "protocolStats (bumpStats x (y :: PoolDb)) = protocolStats (bumpStats x z)"
    if p: "protocolStats y = protocolStats z" for x y z
    using p by (simp add: bumpStats_def)
  obtain router where "contractAddress g ''GpuRouter'' = OneAddress router"
    using r by (auto simp: Let_def split: contract_address.splits)
  then show ?thesis
    using r d asset
    by (cases "toLowerCase (is_caller a) \<noteq> toLowerCase router \<and> \<not> isInSwapBackstop g (is_caller a)")
      (auto simp: Let_def recordGpuAcquisition_def intro!: s)
qed

lemma sums_ok_step:
  assumes ok: "sums_ok db" and step: "indexStep g m c e db = Inr db'"
  shows "sums_ok db'"
proof (cases e)
  case (Perp p)
  then show ?thesis
    using step perpStep_frame [of m c p db db'] by (intro sums_ok_keep [OF ok]) (simp_all add: perp_tables_def)
next
  case (Issued a)
  then show ?thesis
    using ok onIssued_tables [of g m c a db db'] step by (auto simp: sums_simps issuedRow_def)
next
  case (GpuFill a)
  then show ?thesis
    using ok onGpuFill_tables [of "eventKeys m c" a db db'] step by (auto simp: sums_simps fillRow_def)
next
  case (Swap a)
  then obtain pool where t: "js_get (pools db) (sw_poolId a) = Some pool"
    "pools db' = js_set (sw_poolId a) (swapRow (eventKeys m c) a pool) (pools db)"
    "gpuAssets db' = gpuAssets db" "sgusdVault db' = sgusdVault db"
    and st: "if sw_amount0 a = 0 \<and> sw_amount1 a = 0 then protocolStats db' = protocolStats db
      else protocolStats db' = protocolStats (bumpStats (zeroStats\<lparr>gs_lpFeesGusdEst := swapFeeEst pool a\<rparr>) db)"
    using onSwap_tables [of "eventKeys m c" a db db'] step by (auto split: if_splits)
  have "swapFeeEst pool a = 0" if "sw_amount0 a = 0 \<and> sw_amount1 a = 0"
    using that by (simp add: swapFeeEst_def gusdDelta_def)
  then show ?thesis
    using ok t st
    by (cases "sw_amount0 a = 0 \<and> sw_amount1 a = 0") (simp_all add: sums_simps swapRow_def)
next
  case (PoolRegistered i p)
  then show ?thesis
    using ok onPoolRegistered_tables [of m c i p db db'] step by (auto simp: sums_simps)
next
  case (InventoryPulled i n b)
  then obtain asset where "db' = db\<lparr>gpuAssets := js_set i (if b then asset\<lparr>ga_polGusd := ga_polGusd asset - n\<rparr>
      else asset\<lparr>ga_polGpu := ga_polGpu asset - n\<rparr>) (gpuAssets db)\<rparr>" "js_get (gpuAssets db) i = Some asset"
    using step by (auto simp: onInventoryPulled_def withAsset_Inr simp del: if_split)
  then show ?thesis using ok by (cases b) (simp_all add: sums_simps)
next
  case (Minted a)
  then show ?thesis
    using step ok by (auto simp: onMinted_def sums_simps dest!: recordUserEvent_shape split: contract_address.splits)
next
  case (Redeemed a)
  then show ?thesis
    using step ok by (auto simp: onRedeemed_def sums_simps dest!: recordUserEvent_shape split: contract_address.splits)
next
  case (Buy a)
  then show ?thesis
    using step ok by (auto simp: onBuy_def recordGpuAcquisition_def sums_simps dest!: recordUserEvent_shape split: contract_address.splits)
next
  case (Sell a)
  then show ?thesis
    using step ok by (auto simp: onSell_def recordGpuDisposal_def sums_simps dest!: recordUserEvent_shape split: contract_address.splits)
next
  case (GpuCreated a)
  then show ?thesis
    using step ok by (auto simp: onGpuCreated_def sums_simps dest!: recordUserEvent_shape split: contract_address.splits)
next
  case (Distributed a)
  then show ?thesis
    using step ok by (auto simp: onDistributed_def sums_simps dest!: recordUserEvent_shape split: contract_address.splits)
next
  case (Initialize a)
  then show ?thesis
    using step ok by (auto simp: onInitialize_def freshPool_def sums_simps dest!: recordUserEvent_shape split: contract_address.splits)
next
  case (IssuanceEnabledSet i b)
  then show ?thesis
    using step ok by (auto simp: onIssuanceEnabledSet_def sums_simps dest!: recordUserEvent_shape split: contract_address.splits)
next
  case (IssuanceFeeSet i n)
  then show ?thesis
    using step ok by (auto simp: onIssuanceFeeSet_def sums_simps dest!: recordUserEvent_shape split: contract_address.splits)
next
  case (BidCredited i n)
  then show ?thesis
    using step ok by (auto simp: onBidCredited_def sums_simps dest!: recordUserEvent_shape split: contract_address.splits)
next
  case (GpuNoted i n)
  then show ?thesis
    using step ok by (auto simp: onGpuNoted_def sums_simps dest!: recordUserEvent_shape split: contract_address.splits)
next
  case (Deposit a)
  then show ?thesis
    using step ok by (auto simp: onDeposit_def recordVaultDeposit_def sums_simps dest!: recordUserEvent_shape split: contract_address.splits)
next
  case (Withdraw a)
  then show ?thesis
    using step ok by (auto simp: onWithdraw_def recordVaultWithdraw_def sums_simps dest!: recordUserEvent_shape split: contract_address.splits)
next
  case (Seeded n)
  then show ?thesis
    using step ok by (auto simp: onSeeded_def sums_simps dest!: recordUserEvent_shape split: contract_address.splits)
qed (use step in \<open>auto simp: index_handlers Let_def andThen_eq_Inr statsOf_set
      dest!: recordUserEvent_shape applyChanges_shape intro!: sums_ok_keep [OF ok]
      split: if_splits option.splits contract_address.splits\<close>)

end
