(* ===== verification/WalletFacts.thy ===== *)
theory WalletFacts
  imports IndexerRun
begin

text \<open>
  What the wallet tables keep over any stream of events: balances are the transfers, supplies are what
  was minted less what was burned, and the cost bases move by trades only.
\<close>

subsection \<open>Balances\<close>

definition balanceOf :: "string \<Rightarrow> string \<Rightarrow> 'a WalletDb_scheme \<Rightarrow> int" where
  "balanceOf w tok db = (case js_get (walletBalances db) (pairKey w tok) of None \<Rightarrow> 0 | Some r \<Rightarrow> wb_balance r)"

text \<open>An address has no underscore, so the two parts of a row id can be told apart.\<close>

definition plain :: "string \<Rightarrow> bool" where
  "plain s \<longleftrightarrow> CHR ''_'' \<notin> set s"

lemma pairKey_eq: "plain w \<Longrightarrow> plain w' \<Longrightarrow> pairKey w x = pairKey w' x' \<longleftrightarrow> w = w' \<and> x = x'"
  using append_sep_inj [of "CHR ''_''" w w' x x'] by (simp add: plain_def pairKey_def)

definition balances_ok :: "'a WalletDb_scheme \<Rightarrow> bool" where
  "balances_ok db \<longleftrightarrow> (\<forall>k r. js_get (walletBalances db) k = Some r \<longrightarrow>
     k = pairKey (wb_wallet r) (wb_token r) \<and> plain (wb_wallet r) \<and> 0 \<le> wb_balance r)"

definition supplyOf :: "string \<Rightarrow> 'a WalletDb_scheme \<Rightarrow> int" where
  "supplyOf tok db = total (\<lambda>r. if wb_token r = tok then wb_balance r else 0) (walletBalances db)"

lemma applyBalanceDelta_Inl:
  "(\<exists>e. applyBalanceDelta k tok w d db = Inl e) \<longleftrightarrow> balanceOf w tok db + d < 0"
  by (simp add: applyBalanceDelta_def Let_def balanceOf_def)

lemma applyBalanceDelta_facts:
  assumes "applyBalanceDelta k tok w d db = Inr db'" "balances_ok db" "plain w"
  shows "balances_ok db'"
    and "plain w' \<Longrightarrow> balanceOf w' t db' = balanceOf w' t db + (if w' = w \<and> t = tok then d else 0)"
    and "supplyOf t db' = supplyOf t db + (if t = tok then d else 0)"
proof -
  let ?key = "\<lambda>r. pairKey (wb_wallet r) (wb_token r)"
  have nonneg: "0 \<le> balanceOf w tok db + d"
    using assms(1) by (auto simp: applyBalanceDelta_def Let_def balanceOf_def split: if_splits)
  have own: "wb_wallet r = w \<and> wb_token r = tok" if "js_get (walletBalances db) (pairKey w tok) = Some r" for r
    using assms(2,3) that pairKey_eq [of w "wb_wallet r" tok "wb_token r"] by (auto simp: balances_ok_def)
  obtain v u where t: "walletBalances db' = upsertRow ?key v u (walletBalances db)"
    and v: "?key v = pairKey w tok" "wb_wallet v = w" "wb_token v = tok" "wb_balance v = balanceOf w tok db + d"
    and u: "\<And>r. wb_wallet (u r) = wb_wallet r" "\<And>r. wb_token (u r) = wb_token r"
      "\<And>r. wb_balance (u r) = balanceOf w tok db + d"
    using assms(1) by (auto simp: applyBalanceDelta_def Let_def balanceOf_def split: if_splits)
  show "balances_ok db'"
    using assms(2,3) nonneg v u own by (auto simp: balances_ok_def t get_upsertRow split: option.splits)
  show "balanceOf w' t db' = balanceOf w' t db + (if w' = w \<and> t = tok then d else 0)" if "plain w'"
    using v u pairKey_eq [OF that assms(3), of t tok]
    by (auto simp: balanceOf_def t get_upsertRow split: option.splits)
  show "supplyOf t db' = supplyOf t db + (if t = tok then d else 0)"
    using v u own by (auto simp: supplyOf_def t total_upsertRow balanceOf_def split: option.splits)
qed

lemma applyChanges_facts:
  assumes "applyChanges k tok cs db = Inr db'" "balances_ok db" "\<forall>(w, d) \<in> set cs. plain w"
  shows "balances_ok db' \<and>
    (plain w' \<longrightarrow> balanceOf w' t db' =
      balanceOf w' t db + (\<Sum>(w, d) \<leftarrow> cs. if w' = w \<and> t = tok then d else 0)) \<and>
    supplyOf t db' = supplyOf t db + (\<Sum>(w, d) \<leftarrow> cs. if t = tok then d else 0)"
  using assms
proof (induction cs arbitrary: db)
  case (Cons x cs)
  obtain w d where x: "x = (w, d)" by (cases x)
  obtain db1 where s: "applyBalanceDelta k tok w d db = Inr db1" "applyChanges k tok cs db1 = Inr db'"
    using Cons.prems(1) by (auto simp: x andThen_eq_Inr)
  have "plain w" using Cons.prems(3) by (simp add: x)
  note f = applyBalanceDelta_facts [OF s(1) Cons.prems(2) this]
  show ?case using Cons.IH [OF s(2) f(1)] Cons.prems(3) f(2,3) by (auto simp: x)
qed simp

subsection \<open>Transfers\<close>

fun transferOf :: "IndexEvent \<Rightarrow> TransferArgs option" where
  "transferOf (GusdTransfer t) = Some t"
| "transferOf (GpuTransfer t) = Some t"
| "transferOf (SgusdTransfer t) = Some t"
| "transferOf _ = None"

text \<open>The reference: what a transfer adds to a holder's balance and to the supply.\<close>

definition received :: "string \<Rightarrow> string \<Rightarrow> IndexEvent \<Rightarrow> int" where
  "received w tok e = (case transferOf e of None \<Rightarrow> 0 | Some t \<Rightarrow>
     if tr_token t = tok
     then (if tr_to t = w \<and> toLowerCase (tr_to t) \<noteq> ZERO_ADDRESS then tr_value t else 0)
        - (if tr_from t = w \<and> toLowerCase (tr_from t) \<noteq> ZERO_ADDRESS then tr_value t else 0)
     else 0)"

definition minted_less_burned :: "string \<Rightarrow> IndexEvent \<Rightarrow> int" where
  "minted_less_burned tok e = (case transferOf e of None \<Rightarrow> 0 | Some t \<Rightarrow>
     if tr_token t = tok
     then (if toLowerCase (tr_from t) = ZERO_ADDRESS then tr_value t else 0)
        - (if toLowerCase (tr_to t) = ZERO_ADDRESS then tr_value t else 0)
     else 0)"

definition plain_transfer :: "IndexEvent \<Rightarrow> bool" where
  "plain_transfer e \<longleftrightarrow> (case transferOf e of None \<Rightarrow> True | Some t \<Rightarrow> plain (tr_from t) \<and> plain (tr_to t))"

lemma balances_untouched:
  assumes "transferOf e = None" "indexStep g m c e db = Inr db'"
  shows "walletBalances db' = walletBalances db"
proof (cases e)
  case (Perp p)
  then show ?thesis using assms perpStep_frame [of m c p db db'] by (simp add: perp_tables_def)
next
  case (InventoryPulled i n b)
  then show ?thesis using assms(2) by (auto simp: onInventoryPulled_def withAsset_Inr simp del: if_split)
qed (use assms in \<open>auto simp: index_handlers Let_def andThen_eq_Inr withAsset_Inr updatePool_Inr
      dest!: recordUserEvent_shape split: if_splits option.splits contract_address.splits\<close>)

lemma transfer_step:
  assumes "transferOf e = Some t" "indexStep g m c e db = Inr db'"
  shows "\<exists>db1. applyChanges (eventKeys m c) (tr_token t) (balanceChanges (tr_from t) (tr_to t) (tr_value t))
      (logTransfer (eventKeys m c) t db) = Inr db1 \<and> walletBalances db' = walletBalances db1"
  using assms
  by (cases e) (auto simp: onGusdTransfer_def onGpuTransfer_def onSgusdTransfer_def andThen_eq_Inr Let_def
      demoteGpuBasis_def demoteVaultPosition_def split: if_splits option.splits)

lemma balances_cong:
  "walletBalances db' = walletBalances db \<Longrightarrow> balances_ok db' = balances_ok db \<and>
     balanceOf w t db' = balanceOf w t db \<and> supplyOf t db' = supplyOf t db"
  by (simp add: balances_ok_def balanceOf_def supplyOf_def)

lemma balances_step:
  assumes "balances_ok db" "indexStep g m c e db = Inr db'" "plain_transfer e"
  shows "balances_ok db' \<and> (plain w \<longrightarrow> balanceOf w tok db' = balanceOf w tok db + received w tok e) \<and>
    supplyOf tok db' = supplyOf tok db + minted_less_burned tok e"
proof (cases "transferOf e")
  case None
  then show ?thesis
    using assms balances_cong [OF balances_untouched [OF None assms(2)]]
    by (simp add: received_def minted_less_burned_def)
next
  case (Some t)
  obtain db1 where s: "applyChanges (eventKeys m c) (tr_token t) (balanceChanges (tr_from t) (tr_to t) (tr_value t))
      (logTransfer (eventKeys m c) t db) = Inr db1" "walletBalances db' = walletBalances db1"
    using transfer_step [OF Some assms(2)] by blast
  have l: "walletBalances (logTransfer (eventKeys m c) t db) = walletBalances db" by (simp add: logTransfer_def)
  have p: "\<forall>(w, d) \<in> set (balanceChanges (tr_from t) (tr_to t) (tr_value t)). plain w"
    using assms(3) Some by (auto simp: plain_transfer_def balanceChanges_def Let_def)
  have ok: "balances_ok (logTransfer (eventKeys m c) t db)" using assms(1) balances_cong [OF l] by blast
  show ?thesis
    using applyChanges_facts [OF s(1) ok p, of w tok] balances_cong [OF s(2), of w tok] balances_cong [OF l, of w tok] Some
    by (auto simp: received_def minted_less_burned_def balanceChanges_def Let_def)
qed

text \<open>C1. Balances are the transfers: after any stream of events, what a wallet holds of a token is what
  it held plus what it received less what it sent, the token's holdings have grown by what was minted
  less what was burned, and no balance is negative.\<close>
theorem balances_are_the_transfers:
  assumes "indexRun g c es db = Inr db'" "balances_ok db" "\<forall>(m, e) \<in> set es. plain_transfer e" "plain w"
  shows "balanceOf w tok db' = balanceOf w tok db + (\<Sum>(m, e) \<leftarrow> es. received w tok e) \<and>
    supplyOf tok db' = supplyOf tok db + (\<Sum>(m, e) \<leftarrow> es. minted_less_burned tok e) \<and> 0 \<le> balanceOf w tok db'"
  using assms
proof (induction es arbitrary: db)
  case Nil
  then show ?case by (auto simp: balanceOf_def balances_ok_def split: option.splits)
next
  case (Cons x es)
  obtain m e where x: "x = (m, e)" by (cases x)
  obtain d where d: "indexStep g m c e db = Inr d" "indexRun g c es d = Inr db'"
    using Cons.prems(1) by (auto simp: x andThen_eq_Inr)
  have s: "balances_ok d" "balanceOf w tok d = balanceOf w tok db + received w tok e"
    "supplyOf tok d = supplyOf tok db + minted_less_burned tok e"
    using balances_step [OF Cons.prems(2) d(1), of w tok] Cons.prems(3,4) by (auto simp: x)
  show ?case using Cons.IH [OF d(2) s(1)] Cons.prems(3,4) s(2,3) by (auto simp: x)
qed

text \<open>A transfer out of a wallet that does not hold the amount stops the indexing, and one it can
  cover never does.\<close>
theorem overdraft_stops_indexing:
  assumes "toLowerCase (tr_from t) \<noteq> ZERO_ADDRESS" "0 \<le> tr_value t" "balances_ok db"
    "plain (tr_from t)" "plain (tr_to t)"
  shows "(\<exists>e. onGusdTransfer keys t db = Inl e) \<longleftrightarrow> balanceOf (tr_from t) (tr_token t) db < tr_value t"
proof -
  let ?d = "logTransfer keys t db"
  have l: "walletBalances ?d = walletBalances db" by (simp add: logTransfer_def)
  have bal: "balanceOf w x ?d = balanceOf w x db" for w x using balances_cong [OF l] by blast
  have ok: "balances_ok ?d" using balances_cong [OF l] assms(3) by blast
  show ?thesis
  proof (cases "applyBalanceDelta keys (tr_token t) (tr_from t) (- tr_value t) ?d")
    case (Inl e)
    then have "balanceOf (tr_from t) (tr_token t) db < tr_value t"
      using applyBalanceDelta_Inl [of keys "tr_token t" "tr_from t" "- tr_value t" ?d] bal by auto
    then show ?thesis
      using Inl assms(1) by (simp add: onGusdTransfer_def balanceChanges_def Let_def)
  next
    case (Inr d1)
    then have enough: "\<not> balanceOf (tr_from t) (tr_token t) db < tr_value t"
      using applyBalanceDelta_Inl [of keys "tr_token t" "tr_from t" "- tr_value t" ?d] bal by auto
    note f = applyBalanceDelta_facts [OF Inr ok assms(4)]
    have "0 \<le> balanceOf (tr_to t) (tr_token t) d1"
      using f(1) by (auto simp: balances_ok_def balanceOf_def split: option.splits)
    then have "\<exists>d2. applyBalanceDelta keys (tr_token t) (tr_to t) (tr_value t) d1 = Inr d2"
      using applyBalanceDelta_Inl [of keys "tr_token t" "tr_to t" "tr_value t" d1] assms(2)
      by (cases "applyBalanceDelta keys (tr_token t) (tr_to t) (tr_value t) d1") auto
    then show ?thesis
      using Inr enough assms(1) by (auto simp: onGusdTransfer_def balanceChanges_def Let_def)
  qed
qed

subsection \<open>Cost bases\<close>

definition basisOf :: "string \<Rightarrow> string \<Rightarrow> 'a WalletDb_scheme \<Rightarrow> BasisSnapshot" where
  "basisOf w gpu db =
     (case js_get (walletCostBasis db) (pairKey w gpu) of None \<Rightarrow> emptyBasis | Some r \<Rightarrow> cb_basis r)"

lemma basisOf_update:
  assumes "plain w" "plain w'"
  shows "basisOf w' gpu' (updateBasis k w gpu f db) =
    (if w' = w \<and> gpu' = gpu then f (basisOf w gpu db) else basisOf w' gpu' db)"
  using pairKey_eq [OF assms(2,1), of gpu' gpu]
  by (auto simp: basisOf_def updateBasis_def Let_def get_upsertRow split: option.splits)

lemma applyChanges_basis:
  "applyChanges k t cs db = Inr db' \<Longrightarrow> walletCostBasis db' = walletCostBasis db \<and> gpuTokens db' = gpuTokens db"
  using applyChanges_shape [of k t cs db db'] by auto

text \<open>C18. A transfer never moves a cost basis, it only takes its completeness: quantity, cost, profit and
  counts of every basis stay, and a basis is demoted exactly when its owner is an end of a transfer
  of that GPU between two wallets that are not the protocol's.\<close>
theorem transfers_only_demote:
  assumes "onGpuTransfer config keys t db = Inr db'" "plain (tr_from t)" "plain (tr_to t)" "plain w"
  shows "\<exists>demoted. basisOf w gpu db' = (if demoted then demoteBasis (basisOf w gpu db) else basisOf w gpu db) \<and>
    (demoted \<longleftrightarrow> w \<in> {tr_from t, tr_to t} \<and>
       isUserWallet (tr_from t) (protocolContractAddresses config) \<and>
       isUserWallet (tr_to t) (protocolContractAddresses config) \<and>
       map_option gt_gpuId (js_get (gpuTokens db) (tr_token t)) = Some gpu)"
proof -
  obtain db1 where c: "applyChanges keys (tr_token t) (balanceChanges (tr_from t) (tr_to t) (tr_value t))
      (logTransfer keys t db) = Inr db1"
    and r: "(let contracts = protocolContractAddresses config
              in if isUserWallet (tr_from t) contracts \<and> isUserWallet (tr_to t) contracts
                 then (case js_get (gpuTokens db1) (tr_token t) of
                         None \<Rightarrow> Inl (Untracked ''GPUToken'' (tr_token t))
                       | Some mapping \<Rightarrow>
                           Inr (demoteGpuBasis keys (tr_to t) (gt_gpuId mapping)
                             (demoteGpuBasis keys (tr_from t) (gt_gpuId mapping) db1)))
                 else Inr db1) = Inr db'"
    using assms(1) unfolding onGpuTransfer_def andThen_eq_Inr by blast
  have k: "gpuTokens db1 = gpuTokens db" "basisOf w' i db1 = basisOf w' i db" for w' i
    using applyChanges_basis [of keys "tr_token t" _ "logTransfer keys t db" db1] c
    by (simp_all add: logTransfer_def basisOf_def)
  show ?thesis
  proof (cases "isUserWallet (tr_from t) (protocolContractAddresses config) \<and>
      isUserWallet (tr_to t) (protocolContractAddresses config)")
    case True
    then obtain g where g: "js_get (gpuTokens db) (tr_token t) = Some g"
      and d: "db' = demoteGpuBasis keys (tr_to t) (gt_gpuId g) (demoteGpuBasis keys (tr_from t) (gt_gpuId g) db1)"
      using r k(1) by (auto simp: Let_def split: option.splits)
    show ?thesis
      using True g assms(2-4)
      by (intro exI [of _ "w \<in> {tr_from t, tr_to t} \<and> gt_gpuId g = gpu"])
        (auto simp: d demoteGpuBasis_def basisOf_update k(2) demoteBasis_def)
  next
    case False
    then show ?thesis using r k(2) by (intro exI [of _ False]) (auto simp: Let_def)
  qed
qed

definition basisTable ::
  "EventKeys \<Rightarrow> string \<Rightarrow> string \<Rightarrow> (BasisSnapshot \<Rightarrow> BasisSnapshot) \<Rightarrow> WalletCostBasisRow entity_table \<Rightarrow>
   WalletCostBasisRow entity_table" where
  "basisTable k w g f t = walletCostBasis (updateBasis k w g f
     \<lparr>userEvents = [], wallets = [], perpOrderCreated = [], perpOrderExecuted = [], perpOrderCancelled = [],
      perpPositionIncreased = [], perpPositionDecreased = [], perpPositionClosed = [],
      perpPositionLiquidated = [], perpClaimableSettled = [], perpClaimed = [], perpFundingAccrued = [],
      sgusdEngineWithdrawal = [], perpMarkets = [], perpOrders = [], perpPositions = [], perpClaimable = [],
      perpEngineStats = [], tokenTransfer = [], walletBalances = [], walletCostBasis = t,
      walletVaultPositions = [], gpuTokens = []\<rparr>)"

lemma walletCostBasis_updateBasis:
  "walletCostBasis (updateBasis k w g f db) = basisTable k w g f (walletCostBasis db)"
  by (simp add: basisTable_def updateBasis_def Let_def)

lemma onBuy_basis:
  fixes db :: PoolDb
  assumes "onBuy m c b db = Inr db'"
  shows "walletCostBasis db' = walletCostBasis
    (updateBasis (eventKeys m c) (bu_recipient b) (bu_gpuId b) (\<lambda>x. acquireBasis x (bu_gpuOut b) (bu_paid b)) db)"
  using assms
  by (auto simp: onBuy_def Let_def andThen_eq_Inr withAsset_Inr recordGpuAcquisition_def walletCostBasis_updateBasis
      dest!: recordUserEvent_shape)

text \<open>A purchase through the router is one acquisition: of the issuance leg, which the router or the
  hook calls, and the buy that follows it, only the buy moves the buyer's basis, by the quantity and
  the whole amount paid.\<close>
theorem router_buy_acquires_once:
  fixes db :: PoolDb
  assumes "onIssued config m c i db = Inr db1" "onBuy m' c b db1 = Inr db2"
    and "contractAddress config ''GpuRouter'' = OneAddress router"
    and "toLowerCase (is_caller i) = toLowerCase router \<or> isInSwapBackstop config (is_caller i)"
    and "plain (bu_recipient b)"
  shows "basisOf (bu_recipient b) (bu_gpuId b) db2 =
    acquireBasis (basisOf (bu_recipient b) (bu_gpuId b) db) (bu_gpuOut b) (bu_paid b)"
proof -
  have cong: "walletCostBasis x = walletCostBasis y \<Longrightarrow> basisOf w g x = basisOf w g y" for w g and x y :: PoolDb
    by (simp add: basisOf_def)
  have "walletCostBasis db1 = walletCostBasis db"
    using onIssued_tables [OF assms(1)] assms(3,4) by blast
  then have "basisOf (bu_recipient b) (bu_gpuId b) db1 = basisOf (bu_recipient b) (bu_gpuId b) db" by (rule cong)
  moreover have "basisOf (bu_recipient b) (bu_gpuId b) db2 = basisOf (bu_recipient b) (bu_gpuId b)
      (updateBasis (eventKeys m' c) (bu_recipient b) (bu_gpuId b) (\<lambda>x. acquireBasis x (bu_gpuOut b) (bu_paid b)) db1)"
    by (rule cong) (rule onBuy_basis [OF assms(2)])
  ultimately show ?thesis
    by (simp add: basisOf_update [OF assms(5,5)])
qed

subsection \<open>Liquidity positions\<close>

text \<open>The first modifier of a liquidity position is the last one: the position manager's handler
  overwrites both columns on every modification.\<close>
theorem first_modifier_is_overwritten:
  "\<exists>r. js_get (poolLiquidityPositions (onModifyPosition keys a db))
      (liquidityKey (ml_poolId a) (ml_tickLower a) (ml_tickUpper a) (ml_salt a)) = Some r \<and>
    lq_firstModifier r = ml_sender a \<and> lq_lastModifier r = ml_sender a"
  by (simp add: onModifyPosition_def Let_def get_upsertRow liquidity_id_def newLiquidity_def split: option.split)

text \<open>The handler is not total in the order of its two events: if the position manager's event came
  first, its liquidity would be counted by both.\<close>
lemma liquidity_counted_twice_if_reordered:
  assumes "js_get (poolLiquidityPositions db) (liquidityKey (ml_poolId a) (ml_tickLower a) (ml_tickUpper a) (ml_salt a)) = None"
  shows "map_option lq_liquidity (js_get (poolLiquidityPositions (onModifyLiquidity keys a (onModifyPosition keys a db)))
      (liquidityKey (ml_poolId a) (ml_tickLower a) (ml_tickUpper a) (ml_salt a))) = Some (2 * ml_liquidityDelta a)"
  using assms
  by (simp add: onModifyLiquidity_def onModifyPosition_def Let_def get_upsertRow liquidity_id_def newLiquidity_def)

end
