(* ===== verification/IndexerProperties.thy ===== *)
theory IndexerProperties
  imports WalletFacts
begin

text \<open>
  The properties of the indexer over whole streams of events, with a stream on which each can be seen
  to hold.
\<close>

subsection \<open>The registry\<close>

definition same_users :: "'a UserDb_scheme \<Rightarrow> 'a UserDb_scheme \<Rightarrow> bool" where
  "same_users a b \<longleftrightarrow> userEvents a = userEvents b \<and> wallets a = wallets b"

lemma user_frames [simp]:
  fixes db :: PoolDb
  shows
    "userEvents (bumpStats d db) = userEvents db" "wallets (bumpStats d db) = wallets db"
    "userEvents (setStats f db) = userEvents db" "wallets (setStats f db) = wallets db"
    "userEvents (bumpVault v db) = userEvents db" "wallets (bumpVault v db) = wallets db"
    "userEvents (bumpDailyBucket s y db) = userEvents db" "wallets (bumpDailyBucket s y db) = wallets db"
    "userEvents (bumpPoolHourBucket p s h db) = userEvents db" "wallets (bumpPoolHourBucket p s h db) = wallets db"
    "userEvents (updateBasis k w i b db) = userEvents db" "wallets (updateBasis k w i b db) = wallets db"
    "userEvents (updateVault k w u db) = userEvents db" "wallets (updateVault k w u db) = wallets db"
  by (simp_all add: bumpStats_def setStats_def bumpVault_def bumpDailyBucket_def bumpPoolHourBucket_def
      updateBasis_def updateVault_def Let_def)

text \<open>A step writes at most one user event, under the key of the event.\<close>

definition one_user_event :: "EventMeta \<Rightarrow> int \<Rightarrow> 'a UserDb_scheme \<Rightarrow> 'a UserDb_scheme \<Rightarrow> bool" where
  "one_user_event m c db db' \<longleftrightarrow> same_users db' db \<or>
     (\<exists>name u args x y. recordUserEvent (userEventOf m c name u args) x = Inr y \<and> same_users x db \<and> same_users db' y)"

lemma one_user_eventI:
  "recordUserEvent (userEventOf m c name u args) x = Inr y \<Longrightarrow> same_users x db \<Longrightarrow> same_users db' y \<Longrightarrow>
   one_user_event m c db db'"
  unfolding one_user_event_def by blast

lemma perp_one_user_event:
  fixes db :: PoolDb
  assumes "perpStep m c e db = Inr db'"
  shows "one_user_event m c db db'"
proof (cases e)
  case (OrderCreated a)
  then show ?thesis
    using assms
    by (auto simp: onOrderCreated_def Let_def bumpEngineStats_def same_users_def elim!: one_user_eventI)
next
  case (OrderExecuted a)
  then have "onOrderExecuted m c a db = Inr db'" using assms by simp
  then have "\<exists>d. recordUserEvent (userEventOf m c ''PerpOrderExecuted'' (ox_account a) (orderExecutedData a))
      (if ox_kind a \<noteq> KIND_MARKET_INCREASE
       then creditPositionPnl (eventKeys m c) (lowerAddr (ox_account a)) (ox_gpuId a) (ox_isLong a)
         (ox_realizedPnl a) d
       else d) = Inr db' \<and> same_users d db"
    unfolding onOrderExecuted_def Let_def andThen_eq_Inr
    by - (elim exE conjE, intro exI conjI, assumption, auto simp: andThen_eq_Inr same_users_def split: if_splits)
  then show ?thesis
    by (auto simp: same_users_def creditPositionPnl_def elim!: one_user_eventI split: if_splits)
next
  case (Claimed a)
  then show ?thesis
    using assms
    by (auto simp: onClaimed_def Let_def bumpEngineStats_def bumpClaimable_def same_users_def elim!: one_user_eventI)
qed (use assms in \<open>auto simp: perp_handlers andThen_eq_Inr updateRow_Inr one_user_event_def same_users_def
      split: if_splits\<close>)

lemma step_one_user_event:
  assumes "indexStep g m c e db = Inr db'"
  shows "one_user_event m c db db'"
proof (cases e)
  case (Perp p)
  then show ?thesis using assms perp_one_user_event by simp
next
  case (Minted a)
  then show ?thesis
    using assms by (auto simp: onMinted_def Let_def andThen_eq_Inr same_users_def elim!: one_user_eventI)
next
  case (Redeemed a)
  then show ?thesis
    using assms by (auto simp: onRedeemed_def Let_def andThen_eq_Inr same_users_def elim!: one_user_eventI)
next
  case (Deposit a)
  then show ?thesis
    using assms by (auto simp: onDeposit_def recordVaultDeposit_def Let_def andThen_eq_Inr same_users_def elim!: one_user_eventI)
next
  case (Withdraw a)
  then show ?thesis
    using assms by (auto simp: onWithdraw_def recordVaultWithdraw_def Let_def andThen_eq_Inr same_users_def elim!: one_user_eventI)
next
  case (Buy a)
  then show ?thesis
    using assms by (auto simp: onBuy_def recordGpuAcquisition_def Let_def andThen_eq_Inr withAsset_Inr same_users_def elim!: one_user_eventI)
next
  case (Sell a)
  then show ?thesis
    using assms by (auto simp: onSell_def recordGpuDisposal_def Let_def andThen_eq_Inr withAsset_Inr same_users_def elim!: one_user_eventI)
next
  case (Issued a)
  then have "onIssued g m c a db = Inr db'" using assms by simp
  then have "\<exists>d. (if isInSwapBackstop g (is_caller a) then Inr (db\<lparr>gpuIssued := logRow (eventKeys m c) a (gpuIssued db)\<rparr>)
      else recordUserEvent (userEventOf m c ''Issued'' (is_to a) (issuedData a))
        (db\<lparr>gpuIssued := logRow (eventKeys m c) a (gpuIssued db)\<rparr>)) = Inr d \<and> same_users db' d"
    unfolding onIssued_def Let_def andThen_eq_Inr
    by - (elim exE conjE, intro exI conjI, assumption, auto simp: withAsset_Inr same_users_def
        recordGpuAcquisition_def split: contract_address.splits if_splits)
  then obtain d where d: "same_users db' d"
    "(if isInSwapBackstop g (is_caller a) then Inr (db\<lparr>gpuIssued := logRow (eventKeys m c) a (gpuIssued db)\<rparr>)
      else recordUserEvent (userEventOf m c ''Issued'' (is_to a) (issuedData a))
        (db\<lparr>gpuIssued := logRow (eventKeys m c) a (gpuIssued db)\<rparr>)) = Inr d"
    by blast
  then show ?thesis
  proof (cases "isInSwapBackstop g (is_caller a)")
    case True
    then show ?thesis using d by (auto simp: one_user_event_def same_users_def)
  next
    case False
    then have r: "recordUserEvent (userEventOf m c ''Issued'' (is_to a) (issuedData a))
        (db\<lparr>gpuIssued := logRow (eventKeys m c) a (gpuIssued db)\<rparr>) = Inr d"
      using d(2) by simp
    show ?thesis by (rule one_user_eventI [OF r _ d(1)]) (simp add: same_users_def)
  qed
next
  case (InventoryPulled i n b)
  then show ?thesis
    using assms by (auto simp: onInventoryPulled_def withAsset_Inr one_user_event_def same_users_def simp del: if_split)
qed (use assms in \<open>auto simp: index_handlers Let_def andThen_eq_Inr withAsset_Inr updatePool_Inr
      one_user_event_def same_users_def dest!: applyChanges_shape split: if_splits option.splits contract_address.splits\<close>)

lemma registry_cong: "same_users a b \<Longrightarrow> registry_ok a \<longleftrightarrow> registry_ok b"
  by (simp add: same_users_def registry_ok_def rows_of_def)

definition fresh_for :: "string list \<Rightarrow> 'a UserDb_scheme \<Rightarrow> bool" where
  "fresh_for ks db \<longleftrightarrow> (\<forall>k \<in> set ks. js_get (userEvents db) k = None)"

lemma registry_step:
  assumes "registry_ok db" "one_user_event m c db db'" "fresh_for (event_key (eventKeys m c) # ks) db"
    and "event_key (eventKeys m c) \<notin> set ks"
  shows "registry_ok db' \<and> fresh_for ks db'"
proof -
  consider "same_users db' db"
    | name u args x y where "recordUserEvent (userEventOf m c name u args) x = Inr y" "same_users x db" "same_users db' y"
    using assms(2) unfolding one_user_event_def by blast
  then show ?thesis
  proof cases
    case 1
    then show ?thesis using assms(1,3) registry_cong [OF 1] by (simp add: same_users_def fresh_for_def)
  next
    case 2
    have k: "in_keys (userEventOf m c name u args) = eventKeys m c" by (simp add: userEventOf_def)
    have x: "registry_ok x" "js_get (userEvents x) (event_key (eventKeys m c)) = None"
      using assms(1,3) registry_cong [OF 2(2)] 2(2) by (simp_all add: same_users_def fresh_for_def)
    have "registry_ok y" using recordUserEvent_registry [OF x(1) 2(1)] x(2) k by simp
    moreover have "fresh_for ks y"
    proof -
      obtain row where row: "ue_keys row = eventKeys m c"
        "y = x\<lparr>userEvents := insertRow (\<lambda>r. event_key (ue_keys r)) row (userEvents x), wallets := stampWallet row (wallets x)\<rparr>"
        using recordUserEvent_Inr [OF 2(1)] k by metis
      then show ?thesis
        using assms(3,4) 2(2) by (auto simp: fresh_for_def same_users_def get_insertRow)
    qed
    ultimately show ?thesis
      using registry_cong [OF 2(3)] 2(3) by (simp add: fresh_for_def same_users_def)
  qed
qed

text \<open>C12. The registry of wallets is the user events: after any stream of events with distinct
  positions in the chain, a wallet has a row exactly when it has a user event, and the row's first and
  last block and its count are those of its events.\<close>
theorem registry_is_the_user_events:
  assumes "indexRun g c es db = Inr db'" "registry_ok db"
    and "distinct (map (\<lambda>(m, e). event_key (eventKeys m c)) es)"
    and "fresh_for (map (\<lambda>(m, e). event_key (eventKeys m c)) es) db"
  shows "js_get (wallets db') u = summary u (rows_of u db')"
proof -
  have "registry_ok db'"
    using assms
  proof (induction es arbitrary: db)
    case (Cons x es)
    obtain m e where x: "x = (m, e)" by (cases x)
    obtain d where d: "indexStep g m c e db = Inr d" "indexRun g c es d = Inr db'"
      using Cons.prems(1) by (auto simp: x andThen_eq_Inr)
    have "registry_ok d \<and> fresh_for (map (\<lambda>(m, e). event_key (eventKeys m c)) es) d"
      using registry_step [OF Cons.prems(2) step_one_user_event [OF d(1)]] Cons.prems(3,4) by (simp add: x)
    then show ?case using Cons.IH [OF d(2)] Cons.prems(3) by simp
  qed simp
  then show ?thesis by (simp add: registry_ok_def)
qed

subsection \<open>Sums\<close>

text \<open>C11. The days add up: after any stream of events, every counter the protocol row and the daily
  buckets share is in the row the sum over the days.\<close>
theorem protocol_is_the_sum_of_its_days:
  assumes "indexRun g c es db = Inr db'" "days_ok db"
  shows "sumDays (protocolStatsDaily db') = dailyOf (statsOf (protocolStats db'))"
proof -
  have "days_ok db'"
    by (rule indexRun_invariant [where I = days_ok, OF assms]) (rule days_ok_step)
  then show ?thesis by (simp add: days_ok_def)
qed

text \<open>C2. The hours add up: the volume, its two sides and the fees of every pool are the sums over its
  hourly buckets, whatever mix of native swaps and hook fills moved them, and the volume is its buys
  and its sells.\<close>
theorem pool_is_the_sum_of_its_hours:
  assumes "indexRun g c es db = Inr db'" "hours_ok db"
  shows "poolView p (pools db') = hourView p (poolStatsHourly db') \<and> two_sided (poolView p (pools db'))"
proof -
  have "hours_ok db'"
    by (rule indexRun_invariant [where I = hours_ok, OF assms]) (rule hours_ok_step)
  then show ?thesis by (simp add: hours_ok_def)
qed

text \<open>C10. The parts add up: the protocol's issuance, trades, volume and hook fees are the sums over the
  GPUs, its hook fees and estimated LP fees the sums over the pools, and the revenue it sent to the
  vault is the vault's.\<close>
theorem protocol_is_the_sum_of_its_parts:
  assumes "indexRun g c es db = Inr db'" "sums_ok db"
  shows "assets_agree (gpuAssets db') (statsOf (protocolStats db')) \<and>
    pools_agree (pools db') (statsOf (protocolStats db')) \<and>
    vt_revenueGusd (vaultOf (sgusdVault db')) = gs_revenueToVaultGusd (statsOf (protocolStats db'))"
proof -
  have "sums_ok db'"
    by (rule indexRun_invariant [where I = sums_ok, OF assms]) (rule sums_ok_step)
  then show ?thesis by (simp add: sums_ok_def)
qed

subsection \<open>A stream\<close>

definition emptyIndex :: PoolDb where
  "emptyIndex =
     \<lparr>userEvents = js_empty, wallets = js_empty, perpOrderCreated = js_empty, perpOrderExecuted = js_empty,
      perpOrderCancelled = js_empty, perpPositionIncreased = js_empty, perpPositionDecreased = js_empty,
      perpPositionClosed = js_empty, perpPositionLiquidated = js_empty, perpClaimableSettled = js_empty,
      perpClaimed = js_empty, perpFundingAccrued = js_empty, sgusdEngineWithdrawal = js_empty,
      perpMarkets = js_empty, perpOrders = js_empty, perpPositions = js_empty, perpClaimable = js_empty,
      perpEngineStats = js_empty, tokenTransfer = js_empty, walletBalances = js_empty,
      walletCostBasis = js_empty, walletVaultPositions = js_empty, gpuTokens = js_empty,
      protocolStats = js_empty, sgusdVault = js_empty, protocolStatsDaily = js_empty, poolStatsHourly = js_empty,
      gusdMinted = js_empty, gusdRedeemed = js_empty, sgusdDeposited = js_empty, sgusdWithdrawn = js_empty,
      sgusdSeeded = js_empty, gpuCreated = js_empty, gpuIssued = js_empty, routerBuy = js_empty,
      routerSell = js_empty, stableMintViaSwap = js_empty, stableRedeemViaSwap = js_empty,
      revenueDistributed = js_empty, priceConsumed = js_empty, signerTransferStarted = js_empty,
      signerAccepted = js_empty, gpuAssets = js_empty, gpuOracleState = js_empty,
      hookPoolRegistered = js_empty, hookSwap = js_empty, gpuFill = js_empty, pmPoolInitialized = js_empty,
      pmSwap = js_empty, pmLiquidityModified = js_empty, pmDonate = js_empty, posmPositionModified = js_empty,
      pools = js_empty, poolLiquidityPositions = js_empty\<rparr>"

definition sampleConfig :: config where
  "sampleConfig = [(''GpuRouter'', OneAddress ''0xR''), (''GPUHook'', OneAddress ''0xH''), (''GUSD'', OneAddress ''0xG'')]"

definition sampleIssued :: IssuedArgs where
  "sampleIssued = \<lparr>is_caller = ''0xR'', is_gpuId = ''0x48'', is_to = ''0xA'', is_amount = 3, is_base = 9, is_fee = 1\<rparr>"

definition sampleBuy :: BuyArgs where
  "sampleBuy = \<lparr>bu_gpuId = ''0x48'', bu_recipient = ''0xA'', bu_payer = ''0xA'', bu_gpuOut = 3, bu_paid = 10,
     bu_polFeeGusd = 0, bu_hookFeeGusd = 0, bu_issuanceFee = 1\<rparr>"

definition sampleMint :: TransferArgs where
  "sampleMint = \<lparr>tr_token = ''0xG'', tr_from = ZERO_ADDRESS, tr_to = ''0xA'', tr_value = 100\<rparr>"

definition sampleTransfer :: TransferArgs where
  "sampleTransfer = \<lparr>tr_token = ''0xG'', tr_from = ''0xA'', tr_to = ''0xB'', tr_value = 30\<rparr>"

definition sampleStream :: "(EventMeta \<times> IndexEvent) list" where
  "sampleStream =
     [(sampleMeta 0, GpuCreated \<lparr>gc_gpuId = ''0x48'', gc_token = ''0xT'', gc_feeBps = 10, gc_poolFee = 3000, gc_tickSpacing = 60\<rparr>),
      (sampleMeta 1, Initialize \<lparr>iz_poolId = ''0xP'', iz_currency0 = ''0xG'', iz_currency1 = ''0xT'', iz_fee = 3000,
         iz_tickSpacing = 60, iz_hooks = ''0xH'', iz_sqrtPriceX96 = 1, iz_tick = 0\<rparr>),
      (sampleMeta 2, PoolRegistered ''0x48'' ''0xP''),
      (sampleMeta 3, Minted \<lparr>mi_to = ''0xA'', mi_underlyingIn = 101, mi_gusdOut = 100, mi_fee = 1\<rparr>),
      (sampleMeta 4, GusdTransfer sampleMint),
      (sampleMeta 5, GusdTransfer sampleTransfer),
      (sampleMeta 6, Issued sampleIssued),
      (sampleMeta 7, Buy sampleBuy),
      (sampleMeta 8, Swap \<lparr>sw_poolId = ''0xP'', sw_sender = ''0xR'', sw_amount0 = -1000, sw_amount1 = 5,
         sw_sqrtPriceX96 = 1, sw_liquidity = 7, sw_tick = 0, sw_fee = 3000\<rparr>),
      (sampleMeta 9, GpuFill \<lparr>gf_poolId = ''0xP'', gf_gpuId = ''0x48'', gf_sender = ''0xM'', gf_isBuy = False,
         gf_gpuAmount = 1, gf_gusdAmount = 40, gf_protocolFee = 2, gf_source = 1\<rparr>),
      (sampleMeta 10, Distributed \<lparr>di_amount = 5, di_toVault = 3, di_toTreasury = 2\<rparr>)]"

lemma sampleStream_runs:
  obtains db where "indexRun sampleConfig 1 sampleStream emptyIndex = Inr db"
proof -
  have "(case indexRun sampleConfig 1 sampleStream emptyIndex of Inr _ \<Rightarrow> True | Inl _ \<Rightarrow> False)"
    by code_simp
  then show thesis using that by (auto split: sum.splits)
qed

lemma js_values_empty [simp]: "js_values js_empty = []"
  by (simp add: js_values_def js_empty_def)

lemma emptyIndex_ok:
  "days_ok emptyIndex" "hours_ok emptyIndex" "sums_ok emptyIndex" "balances_ok emptyIndex" "registry_ok emptyIndex"
  "fresh_for ks emptyIndex" "balanceOf w tok emptyIndex = 0" "supplyOf tok emptyIndex = 0"
  by (simp_all add: emptyIndex_def days_ok_def hours_ok_def sums_ok_def balances_ok_def registry_ok_def fresh_for_def
      sumDays_def dailyOf_def statsOf_def zeroStats_def hourView_def hourSum_def poolView_def two_sided_def
      assets_agree_def pools_agree_def vaultOf_def zeroVault_def summary_def rows_of_def balanceOf_def supplyOf_def)

lemma sampleStream_facts:
  "\<forall>(m, e) \<in> set sampleStream. plain_transfer e" "plain ''0xA''" "plain ''0xB''"
  "distinct (map (\<lambda>(m, e). event_key (eventKeys m 1)) sampleStream)"
  "(\<Sum>(m, e) \<leftarrow> sampleStream. received ''0xA'' ''0xG'' e) = 70"
  "(\<Sum>(m, e) \<leftarrow> sampleStream. minted_less_burned ''0xG'' e) = 100"
  by code_simp+

theorem registry_is_the_user_events_witness:
  "\<exists>db. indexRun sampleConfig 1 sampleStream emptyIndex = Inr db \<and>
     js_get (wallets db) ''0xa'' = summary ''0xa'' (rows_of ''0xa'' db)"
proof -
  obtain db where db: "indexRun sampleConfig 1 sampleStream emptyIndex = Inr db" by (rule sampleStream_runs)
  show ?thesis
    using db registry_is_the_user_events [OF db emptyIndex_ok(5) sampleStream_facts(4) emptyIndex_ok(6)] by blast
qed

theorem protocol_is_the_sum_of_its_days_witness:
  "\<exists>db. indexRun sampleConfig 1 sampleStream emptyIndex = Inr db \<and>
     sumDays (protocolStatsDaily db) = dailyOf (statsOf (protocolStats db))"
proof -
  obtain db where db: "indexRun sampleConfig 1 sampleStream emptyIndex = Inr db" by (rule sampleStream_runs)
  show ?thesis using db protocol_is_the_sum_of_its_days [OF db emptyIndex_ok(1)] by blast
qed

theorem pool_is_the_sum_of_its_hours_witness:
  "\<exists>db. indexRun sampleConfig 1 sampleStream emptyIndex = Inr db \<and>
     poolView ''0xP'' (pools db) = hourView ''0xP'' (poolStatsHourly db)"
proof -
  obtain db where db: "indexRun sampleConfig 1 sampleStream emptyIndex = Inr db" by (rule sampleStream_runs)
  show ?thesis using db pool_is_the_sum_of_its_hours [OF db emptyIndex_ok(2)] by blast
qed

theorem protocol_is_the_sum_of_its_parts_witness:
  "\<exists>db. indexRun sampleConfig 1 sampleStream emptyIndex = Inr db \<and>
     assets_agree (gpuAssets db) (statsOf (protocolStats db))"
proof -
  obtain db where db: "indexRun sampleConfig 1 sampleStream emptyIndex = Inr db" by (rule sampleStream_runs)
  show ?thesis using db protocol_is_the_sum_of_its_parts [OF db emptyIndex_ok(3)] by blast
qed

theorem balances_are_the_transfers_witness:
  "\<exists>db. indexRun sampleConfig 1 sampleStream emptyIndex = Inr db \<and>
     balanceOf ''0xA'' ''0xG'' db = 70 \<and> supplyOf ''0xG'' db = 100"
proof -
  obtain db where db: "indexRun sampleConfig 1 sampleStream emptyIndex = Inr db" by (rule sampleStream_runs)
  show ?thesis
    using db balances_are_the_transfers [OF db emptyIndex_ok(4) sampleStream_facts(1,2), of "''0xG''"]
    by (simp add: emptyIndex_ok sampleStream_facts)
qed

theorem overdraft_stops_indexing_witness:
  "\<exists>e. onGusdTransfer (eventKeys (sampleMeta 0) 1) sampleTransfer emptyIndex = Inl e"
proof -
  have "toLowerCase (tr_from sampleTransfer) \<noteq> ZERO_ADDRESS" by code_simp
  then show ?thesis
    using overdraft_stops_indexing [of sampleTransfer emptyIndex "eventKeys (sampleMeta 0) 1"]
      emptyIndex_ok sampleStream_facts(2,3)
    by (simp add: sampleTransfer_def)
qed

theorem transfers_only_demote_witness:
  "\<exists>db. onGpuTransfer sampleConfig (eventKeys (sampleMeta 0) 1) sampleMint emptyIndex = Inr db \<and>
     basisOf ''0xA'' ''0x48'' db = basisOf ''0xA'' ''0x48'' emptyIndex"
proof -
  have "(case onGpuTransfer sampleConfig (eventKeys (sampleMeta 0) 1) sampleMint emptyIndex of Inr _ \<Rightarrow> True | Inl _ \<Rightarrow> False)"
    by code_simp
  then obtain db where db: "onGpuTransfer sampleConfig (eventKeys (sampleMeta 0) 1) sampleMint emptyIndex = Inr db"
    by (auto split: sum.splits)
  have "plain (tr_from sampleMint)" "plain (tr_to sampleMint)" "js_get (gpuTokens emptyIndex) (tr_token sampleMint) = None"
    by code_simp+
  then show ?thesis
    using db transfers_only_demote [OF db _ _ sampleStream_facts(2), of "''0x48''"] by (auto split: if_splits)
qed

theorem router_buy_acquires_once_witness:
  "\<exists>(db :: PoolDb) db1 db2. onIssued sampleConfig (sampleMeta 6) 1 sampleIssued db = Inr db1 \<and>
     onBuy (sampleMeta 7) 1 sampleBuy db1 = Inr db2 \<and>
     basisOf ''0xA'' ''0x48'' db2 = acquireBasis (basisOf ''0xA'' ''0x48'' db) 3 10"
proof -
  define db where "db = (case indexRun sampleConfig 1 (take 3 sampleStream) emptyIndex of Inr d \<Rightarrow> d | Inl _ \<Rightarrow> emptyIndex)"
  have "(case onIssued sampleConfig (sampleMeta 6) 1 sampleIssued db of Inl _ \<Rightarrow> False
      | Inr d1 \<Rightarrow> (case onBuy (sampleMeta 7) 1 sampleBuy d1 of Inl _ \<Rightarrow> False | Inr _ \<Rightarrow> True))"
    unfolding db_def by code_simp
  then obtain db1 db2 where d: "onIssued sampleConfig (sampleMeta 6) 1 sampleIssued db = Inr db1"
    "onBuy (sampleMeta 7) 1 sampleBuy db1 = Inr db2"
    by (auto split: sum.splits)
  have r: "contractAddress sampleConfig ''GpuRouter'' = OneAddress ''0xR''" by code_simp
  have b: "basisOf ''0xA'' ''0x48'' db2 = acquireBasis (basisOf ''0xA'' ''0x48'' db) 3 10"
    using router_buy_acquires_once [OF d r] sampleStream_facts(2) by (simp add: sampleIssued_def sampleBuy_def)
  show ?thesis by (intro exI conjI) (rule d(1), rule d(2), rule b)
qed

end
