(* ===== verification/PerpPreview.thy ===== *)
theory PerpPreview
  imports KeeperMath
begin

text \<open>
  apps/web/src/data/web3/perps/math.ts: the figures the desk shows and signs before an order
  exists. The helpers are written again there; \<open>preview_helpers\<close> says they are the keeper's, and
  the theorems compare what is shown with what the keeper, and so the engine, will do with it.
  A \<open>bigint\<close> is an \<open>int\<close>, a \<open>RangeError\<close> is \<open>None\<close>, and the \<open>null\<close> of the liquidation
  estimate is the inner \<open>None\<close>.
\<close>

definition BPS :: int where "BPS = 10000"
definition PRICE_SCALE :: int where "PRICE_SCALE = 10000"
definition FUNDING_SCALE :: int where "FUNDING_SCALE = 10 ^ 18"

definition mulDiv :: "int \<Rightarrow> int \<Rightarrow> int \<Rightarrow> Rounding \<Rightarrow> int option" where
  "mulDiv a b d r =
     (if d = 0 then None else
      let n = a * b; q = n sdiv d
      in if r = floor_r \<or> n smod d = 0 then Some q else Some (q + 1))"

definition feeBps :: "int \<Rightarrow> int \<Rightarrow> int option" where
  "feeBps amount bps = mulDiv amount bps BPS ceil_r"

definition maintenance :: "int \<Rightarrow> int \<Rightarrow> int option" where
  "maintenance notional mmBps = mulDiv notional mmBps BPS ceil_r"

definition pnl :: "int \<Rightarrow> int \<Rightarrow> bool \<Rightarrow> int \<Rightarrow> int option" where
  "pnl notional entry long price =
     (if notional = 0 \<or> price = entry then Some 0 else
      let wins = (if long then entry < price else price < entry) in
      if wins then
        (let deltaUp = (if long then price - entry else entry - price)
         in mulDiv notional deltaUp entry floor_r)
      else
        (let delta = (if long then entry - price else price - entry)
         in map_option uminus (mulDiv notional delta entry ceil_r)))"

definition sizeFromCollateral :: "int \<Rightarrow> int \<Rightarrow> int option" where
  "sizeFromCollateral collateralRaw leverageBps = mulDiv collateralRaw leverageBps BPS floor_r"

definition fundingOwed :: "int \<Rightarrow> int \<Rightarrow> int \<Rightarrow> int option" where
  "fundingOwed notional cum checkpoint =
     (if cum \<le> checkpoint then Some 0 else mulDiv notional (cum - checkpoint) FUNDING_SCALE ceil_r)"

definition fundingEarned :: "int \<Rightarrow> int \<Rightarrow> int \<Rightarrow> int option" where
  "fundingEarned notional cum checkpoint =
     (if cum \<le> checkpoint then Some 0 else mulDiv notional (cum - checkpoint) FUNDING_SCALE floor_r)"

definition leverageBpsCeil :: "int \<Rightarrow> int \<Rightarrow> int option" where
  "leverageBpsCeil sizeRaw collateralRaw = mulDiv sizeRaw BPS collateralRaw ceil_r"

definition acceptablePriceBound :: "int \<Rightarrow> int \<Rightarrow> bool \<Rightarrow> bool \<Rightarrow> int option" where
  "acceptablePriceBound price toleranceBps long isIncrease =
     map_option (\<lambda>tolerant. if tolerant > 0 then tolerant else 1)
       (if long = isIncrease then mulDiv price (BPS + toleranceBps) BPS ceil_r
        else mulDiv price (BPS - toleranceBps) BPS floor_r)"

definition liquidationPriceEstimate ::
  "int \<Rightarrow> int \<Rightarrow> int \<Rightarrow> bool \<Rightarrow> int \<Rightarrow> int \<Rightarrow> int option option" where
  "liquidationPriceEstimate notional margin entry long mmBps fundingDebt =
     (if notional = 0 \<or> entry = 0 \<or> mmBps = 0 then Some None else do {
        maint \<leftarrow> maintenance notional mmBps;
        let headroom = margin - maint - fundingDebt;
        let sign = (if long then - 1 else 1);
        swing \<leftarrow> mulDiv entry headroom notional floor_r;
        let est = entry + sign * swing;
        Some (Some (if est \<le> 0 then 0 else est))
      })"

definition unscalePrice :: "int \<Rightarrow> number" where
  "unscalePrice price = fdiv (fl (of_int price)) (fl (of_int PRICE_SCALE))"

subsection \<open>The helpers are the keeper's\<close>

lemma preview_scales [simp]:
  "BPS = KeeperMath.BPS" "FUNDING_SCALE = KeeperMath.FUNDING_SCALE" "PRICE_SCALE = KeeperMath.PRICE_SCALE"
  by (simp_all add: BPS_def KeeperMath.BPS_def FUNDING_SCALE_def KeeperMath.FUNDING_SCALE_def
      PRICE_SCALE_def KeeperMath.PRICE_SCALE_def)

lemma preview_helpers [simp]:
  "mulDiv a b d r = KeeperMath.mulDiv a b d r"
  "feeBps a b = KeeperMath.feeBps a b"
  "maintenance sz mm = KeeperMath.maintenance sz mm"
  "pnl sz e l p = KeeperMath.pnl sz e l p"
  "fundingOwed sz c k = KeeperMath.fundingOwed sz c k"
  "fundingEarned sz c k = KeeperMath.fundingEarned sz c k"
  by (simp_all add: mulDiv_def KeeperMath.mulDiv_def feeBps_def KeeperMath.feeBps_def maintenance_def
      KeeperMath.maintenance_def pnl_def KeeperMath.pnl_def fundingOwed_def KeeperMath.fundingOwed_def
      fundingEarned_def KeeperMath.fundingEarned_def Let_def)

lemma div_less_iff: "0 < (d::int) \<Longrightarrow> n div d < q \<longleftrightarrow> n < q * d"
proof
  assume d: "0 < d" and "n div d < q"
  then have "(n div d + 1) * d \<le> q * d" by (intro mult_right_mono) simp_all
  then show "n < q * d" using div_bounds(2) [OF d, of n] by (simp add: algebra_simps)
next
  assume d: "0 < d" and n: "n < q * d"
  show "n div d < q"
  proof (rule ccontr)
    assume "\<not> n div d < q"
    then have "q * d \<le> n div d * d" using d by (intro mult_right_mono) simp_all
    then show False using n div_bounds(1) [OF d, of n] by simp
  qed
qed

lemma cdiv_le_iff: "0 < (d::int) \<Longrightarrow> cdiv n d \<le> q \<longleftrightarrow> n \<le> q * d"
  using div_less_iff [of d "- n" "- q"] by (auto simp: cdiv_def not_less [symmetric])

subsection \<open>Leverage\<close>

text \<open>The size the desk derives from collateral and leverage is the largest one the engine's own
  leverage check, which rounds up, still reads as at most the leverage asked for.\<close>
theorem leverage_is_kept:
  assumes "0 < coll" "0 \<le> lev" "sizeFromCollateral coll lev = Some sz" "0 \<le> sz'"
  shows "\<exists>l. leverageBpsCeil sz' coll = Some l \<and> (l \<le> lev \<longleftrightarrow> sz' \<le> sz)"
proof -
  have B: "0 < KeeperMath.BPS" by (simp add: KeeperMath.BPS_def)
  have sz: "sz = coll * lev div KeeperMath.BPS"
    using assms mulDiv_floor [OF _ B, of coll lev] by (simp add: sizeFromCollateral_def)
  have l: "leverageBpsCeil sz' coll = Some (cdiv (sz' * KeeperMath.BPS) coll)"
    using assms B mulDiv_ceil [of sz' KeeperMath.BPS coll] by (simp add: leverageBpsCeil_def)
  have "cdiv (sz' * KeeperMath.BPS) coll \<le> lev \<longleftrightarrow> sz' * KeeperMath.BPS \<le> coll * lev"
    using cdiv_le_iff [OF assms(1)] by (simp add: mult.commute)
  also have "\<dots> \<longleftrightarrow> sz' \<le> sz"
    using div_less_iff [OF B, of "coll * lev" sz'] by (auto simp: sz not_less [symmetric])
  finally show ?thesis using l by blast
qed

theorem leverage_is_kept_witness:
  "sizeFromCollateral 333333 25001 = Some 833365 \<and>
   (\<exists>l. leverageBpsCeil 833366 333333 = Some l \<and> (l \<le> 25001 \<longleftrightarrow> 833366 \<le> (833365 :: int)))"
proof -
  have "sizeFromCollateral 333333 25001 = Some 833365" by code_simp
  then show ?thesis using leverage_is_kept [of 333333 25001 833365 833366] by simp
qed

subsection \<open>The signed price bound\<close>

text \<open>The price bound a market order signs lets the reference price through and every price
  within the tolerance of it on the trader's bad side, and no price that is worse by a unit more; on
  the good side it refuses nothing.\<close>
theorem price_bound_is_the_tolerance:
  assumes "0 < price" "0 \<le> tol" "tol < 10000" "acceptablePriceBound price tol long inc = Some bound" "0 < p"
  shows "acceptablePriceMet long inc price bound \<and> (acceptablePriceMet long inc p bound \<longleftrightarrow>
    (if long = inc then (p - 1) * 10000 < price * (10000 + tol)
     else price * (10000 - tol) < (p + 1) * 10000))"
proof (cases "long = inc")
  case True
  have n: "0 < price * (10000 + tol)" using assms by simp
  have up: "q \<le> cdiv (price * (10000 + tol)) 10000 \<longleftrightarrow> (q - 1) * 10000 < price * (10000 + tol)" for q
    using cdiv_le_iff [of 10000 "price * (10000 + tol)" "q - 1"] by (auto simp: not_le [symmetric])
  have "0 < cdiv (price * (10000 + tol)) 10000" using up [of 1] n by simp
  moreover have "KeeperMath.mulDiv price (10000 + tol) 10000 ceil_r = Some (cdiv (price * (10000 + tol)) 10000)"
    using n by (intro mulDiv_ceil) simp_all
  ultimately have "bound = cdiv (price * (10000 + tol)) 10000"
    using assms(4) True by (auto simp: acceptablePriceBound_def KeeperMath.BPS_def)
  moreover have "(price - 1) * 10000 < price * (10000 + tol)"
    using assms by (simp add: algebra_simps add_nonneg_pos)
  ultimately show ?thesis using True up by (auto simp: acceptablePriceMet_def)
next
  case False
  have "0 \<le> price * (10000 - tol)" using assms by simp
  then have "KeeperMath.mulDiv price (10000 - tol) 10000 floor_r = Some (price * (10000 - tol) div 10000)"
    by (intro mulDiv_floor) simp_all
  then have "bound = (if 0 < price * (10000 - tol) div 10000 then price * (10000 - tol) div 10000 else 1)"
    using assms(4) False by (auto simp: acceptablePriceBound_def KeeperMath.BPS_def)
  moreover have "price * (10000 - tol) div 10000 \<le> q \<longleftrightarrow> price * (10000 - tol) < (q + 1) * 10000" for q
    using div_less_iff [of 10000 "price * (10000 - tol)" "q + 1"] by auto
  moreover have "price * (10000 - tol) < (price + 1) * 10000"
    using mult_nonneg_nonneg [OF less_imp_le [OF assms(1)] assms(2)] by (simp only: right_diff_distrib) simp
  ultimately show ?thesis using False assms(1,5) by (auto simp: acceptablePriceMet_def split: if_splits)
qed

theorem price_bound_is_the_tolerance_witness:
  "acceptablePriceBound 23457 50 True True = Some 23575 \<and>
   (acceptablePriceMet True True 23575 23575 \<longleftrightarrow> (23574 :: int) * 10000 < 23457 * 10050)"
proof -
  have b: "acceptablePriceBound 23457 50 True True = Some 23575" by code_simp
  show ?thesis using price_bound_is_the_tolerance [OF _ _ _ b, of 23575] b by simp
qed

subsection \<open>The liquidation price\<close>

lemma liquidatable_iff:
  assumes "0 < sizeUsd p" "0 < entryPrice p" "KeeperMath.maintenance (sizeUsd p) mm = Some m"
  shows "isLiquidatable p s price mm = Some
    (let swing = entryPrice p * (collateral p - m - (owed s + borrow s - earned s - earnedFunding p)) div sizeUsd p
     in if isLong p then price < entryPrice p - swing else entryPrice p + swing < price)"
proof -
  let ?sz = "sizeUsd p" and ?e = "entryPrice p"
  let ?h = "collateral p - m - (owed s + borrow s - earned s - earnedFunding p)"
  let ?d = "if isLong p then price - ?e else ?e - price"
  have "KeeperMath.pnl ?sz ?e (isLong p) price = Some (?sz * ?d div ?e)"
    using assms by (intro pnl_valid) simp_all
  then have "isLiquidatable p s price mm = Some (?sz * ?d div ?e < - ?h)"
    using assms by (auto simp: isLiquidatable_def equity_def)
  also have "?sz * ?d div ?e < - ?h \<longleftrightarrow> ?sz * ?d < - ?h * ?e" by (rule div_less_iff [OF assms(2)])
  also have "\<dots> \<longleftrightarrow> ?e * ?h < (- ?d) * ?sz" by (auto simp: algebra_simps)
  also have "\<dots> \<longleftrightarrow> ?e * ?h div ?sz < - ?d" by (rule div_less_iff [OF assms(1), symmetric])
  finally show ?thesis by (auto simp: Let_def)
qed

text \<open>C27. The liquidation price on the position panel is exact while the position has margin beyond
  its maintenance: at every price the keeper, and so the engine, liquidates the position exactly when
  the price is beyond the figure shown.\<close>
theorem liquidation_estimate_is_exact:
  assumes "0 < sizeUsd p" "0 < entryPrice p" "0 < mm" "0 \<le> price"
    and "KeeperMath.maintenance (sizeUsd p) mm = Some m"
    and "m + owed s + borrow s \<le> collateral p + earnedFunding p + earned s"
    and "liquidationPriceEstimate (sizeUsd p) (collateral p) (entryPrice p) (isLong p) mm
      (owed s + borrow s - earned s - earnedFunding p) = Some (Some est)"
  shows "isLiquidatable p s price mm = Some (if isLong p then price < est else est < price)"
proof -
  let ?h = "collateral p - m - (owed s + borrow s - earned s - earnedFunding p)"
  let ?swing = "entryPrice p * ?h div sizeUsd p"
  have h: "0 \<le> ?h" using assms(6) by simp
  have "KeeperMath.mulDiv (entryPrice p) ?h (sizeUsd p) floor_r = Some ?swing"
    using assms h by (intro mulDiv_floor) simp_all
  then have "est = (let e = entryPrice p + (if isLong p then - 1 else 1) * ?swing in if e \<le> 0 then 0 else e)"
    using assms by (simp add: liquidationPriceEstimate_def Let_def)
  moreover have "0 \<le> ?swing" using assms h by (simp add: pos_imp_zdiv_nonneg_iff)
  ultimately show ?thesis
    using liquidatable_iff [OF assms(1,2,5), of s price] assms(2,4) by (auto simp: Let_def)
qed

definition previewPosition :: "int \<Rightarrow> bool \<Rightarrow> PositionFunding" where
  "previewPosition margin long =
     \<lparr>sizeUsd = 3000000, collateral = margin, entryPrice = 23457, fundingFeeCheckpoint = 0,
      fundingCreditCheckpoint = 0, borrowCheckpoint = 0, earnedFunding = 0, isLong = long\<rparr>"

definition previewSettlement :: Settlement where
  "previewSettlement = \<lparr>owed = 100, earned = 0, borrow = 10\<rparr>"

theorem liquidation_estimate_is_exact_witness:
  "isLiquidatable (previewPosition 1000000 True) previewSettlement 16811 500 = Some True \<and>
   isLiquidatable (previewPosition 1000000 True) previewSettlement 16812 500 = Some False \<and>
   liquidationPriceEstimate 3000000 1000000 23457 True 500 110 = Some (Some 16812)"
proof -
  have e: "liquidationPriceEstimate 3000000 1000000 23457 True 500 110 = Some (Some 16812)" by code_simp
  have m: "KeeperMath.maintenance 3000000 500 = Some 150000" by code_simp
  note x = liquidation_estimate_is_exact [of "previewPosition 1000000 True" 500 _ 150000 previewSettlement 16812]
  show ?thesis using x [of 16811] x [of 16812] e m by (simp add: previewPosition_def previewSettlement_def)
qed

text \<open>Below its maintenance the figure is on the wrong side: the swing is a truncated, not a
  floored, division, so a long with negative headroom is shown a boundary one unit lower than the
  price from which it is safe, and is liquidated at the very figure shown.\<close>
theorem underwater_estimate_reads_low:
  assumes "0 < sizeUsd p" "0 < entryPrice p" "0 < mm" "isLong p"
    and "KeeperMath.maintenance (sizeUsd p) mm = Some m"
    and "collateral p + earnedFunding p + earned s < m + owed s + borrow s"
    and "\<not> sizeUsd p dvd entryPrice p * (collateral p - m - (owed s + borrow s - earned s - earnedFunding p))"
    and "liquidationPriceEstimate (sizeUsd p) (collateral p) (entryPrice p) True mm
      (owed s + borrow s - earned s - earnedFunding p) = Some (Some est)"
  shows "isLiquidatable p s est mm = Some True \<and> isLiquidatable p s (est + 1) mm = Some False"
proof -
  let ?h = "collateral p - m - (owed s + borrow s - earned s - earnedFunding p)"
  let ?n = "entryPrice p * ?h"
  have h: "?n < 0" using assms(2,6) by (intro mult_pos_neg) simp_all
  have "?n sdiv sizeUsd p = - ((- ?n) div sizeUsd p)"
    using h assms(1) by (simp add: signed_divide_int_def sgn_if)
  also have "\<dots> = ?n div sizeUsd p + 1"
    using assms(1,7) by (simp add: zdiv_zminus1_eq_if dvd_eq_mod_eq_0)
  finally have "KeeperMath.mulDiv (entryPrice p) ?h (sizeUsd p) floor_r = Some (?n div sizeUsd p + 1)"
    using assms(1) by (simp add: KeeperMath.mulDiv_def Let_def)
  moreover have "?n div sizeUsd p < 0" using div_less_iff [OF assms(1), of ?n 0] h by simp
  ultimately have "est = entryPrice p - ?n div sizeUsd p - 1"
    using assms by (simp add: liquidationPriceEstimate_def Let_def split: if_splits)
  then show ?thesis
    using liquidatable_iff [OF assms(1,2,5), of s est] liquidatable_iff [OF assms(1,2,5), of s "est + 1"] assms(4)
    by (simp add: Let_def)
qed

theorem underwater_estimate_reads_low_witness:
  "liquidationPriceEstimate 3000000 100000 23457 True 500 110 = Some (Some 23848) \<and>
   isLiquidatable (previewPosition 100000 True) previewSettlement 23848 500 = Some True \<and>
   isLiquidatable (previewPosition 100000 True) previewSettlement 23849 500 = Some False"
proof -
  have e: "liquidationPriceEstimate 3000000 100000 23457 True 500 110 = Some (Some 23848)" by code_simp
  have m: "KeeperMath.maintenance 3000000 500 = Some 150000" by code_simp
  show ?thesis
    using underwater_estimate_reads_low [of "previewPosition 100000 True" 500 150000 previewSettlement 23848] e m
    by (simp add: previewPosition_def previewSettlement_def)
qed

end
