(* ===== verification/CandleFold.thy ===== *)
theory CandleFold
  imports RepoFacts
begin

text \<open>
  apps/web/src/data/oracle/fold.ts: one canonical print folded into the candle grid the chart shows.
  Times are integral milliseconds, below \<open>2 ^ 53\<close>, so that the quotient the code floors is the
  integer quotient; the interval is positive.
\<close>

record CandleDto =
  cn_t :: int
  cn_open :: number
  cn_high :: number
  cn_low :: number
  cn_close :: number
  cn_samples :: int
  cn_carried :: bool

record FoldPrint =
  fp_t :: int
  fp_price :: number

definition MAX_FILL_BUCKETS :: int where "MAX_FILL_BUCKETS = 2000"

definition bucketT :: "int \<Rightarrow> FoldPrint \<Rightarrow> int" where
  "bucketT intervalMs p = fp_t p div intervalMs * intervalMs"

definition realBucket :: "int \<Rightarrow> number \<Rightarrow> CandleDto" where
  "realBucket t price = \<lparr>cn_t = t, cn_open = price, cn_high = price, cn_low = price, cn_close = price,
     cn_samples = 1, cn_carried = False\<rparr>"

definition carriedBucket :: "int \<Rightarrow> number \<Rightarrow> CandleDto" where
  "carriedBucket t close = \<lparr>cn_t = t, cn_open = close, cn_high = close, cn_low = close, cn_close = close,
     cn_samples = 0, cn_carried = True\<rparr>"

function carry :: "int \<Rightarrow> int \<Rightarrow> int \<Rightarrow> number \<Rightarrow> CandleDto list" where \<comment> \<open>the loop that fills\<close>
  "carry step t end close =
     (if 0 < step \<and> t < end then carriedBucket t close # carry step (t + step) end close else [])"
  by pat_completeness auto
termination by (relation "measure (\<lambda>(step, t, end, _). nat (end - t))") auto

declare carry.simps [simp del]

definition merged :: "CandleDto \<Rightarrow> number \<Rightarrow> CandleDto" where
  "merged hit price = \<lparr>cn_t = cn_t hit, cn_open = cn_open hit, cn_high = max (cn_high hit) price,
     cn_low = min (cn_low hit) price, cn_close = price, cn_samples = cn_samples hit + 1, cn_carried = False\<rparr>"

definition foldCandidateIntoBuckets ::
  "CandleDto list \<Rightarrow> FoldPrint \<Rightarrow> int \<Rightarrow> int \<Rightarrow> CandleDto list option" where
  "foldCandidateIntoBuckets buckets p intervalSec fromMs =
     (let intervalMs = intervalSec * 1000; b = bucketT intervalMs p
      in if b < fromMs then None else
         let later = (\<lambda>c. cn_t c > b);
             upto' = rev (dropWhile later (rev buckets));
             after = rev (takeWhile later (rev buckets))
         in if upto' = [] then Some (realBucket b (fp_price p) # buckets) else
            let hit = last upto' in
            if cn_t hit = b then
              Some (butlast upto' @
                (if cn_samples hit = 0 \<or> cn_carried hit then realBucket (cn_t hit) (fp_price p)
                 else merged hit (fp_price p)) # after)
            else if b - cn_t hit > (MAX_FILL_BUCKETS + 1) * intervalMs then None
            else Some (upto' @ carry intervalMs (cn_t hit + intervalMs) b (cn_close hit) @
                   realBucket b (fp_price p) # after))"

subsection \<open>The candles of the repository\<close>



text \<open>The prints of the live feed: the priced computations in the order they were made.\<close>

definition printOf :: "CandidateRow \<Rightarrow> FoldPrint" where
  "printOf r = \<lparr>fp_t = cd_computedAt r, fp_price = the (cd_price r)\<rparr>"


definition foldAll :: "int \<Rightarrow> int \<Rightarrow> FoldPrint list \<Rightarrow> CandleDto list \<Rightarrow> CandleDto list" where
  "foldAll intervalSec fromMs ps bs =
     foldl (\<lambda>bs p. case foldCandidateIntoBuckets bs p intervalSec fromMs of None \<Rightarrow> bs | Some bs' \<Rightarrow> bs') bs ps"

text \<open>The candles of a list of prints, bucket by bucket.\<close>

definition ohlc :: "int \<Rightarrow> FoldPrint list \<Rightarrow> CandleDto" where
  "ohlc b qs = \<lparr>cn_t = b, cn_open = fp_price (hd qs),
     cn_high = foldl (\<lambda>m q. max m (fp_price q)) (fp_price (hd qs)) (tl qs),
     cn_low = foldl (\<lambda>m q. min m (fp_price q)) (fp_price (hd qs)) (tl qs),
     cn_close = fp_price (last qs), cn_samples = int (length qs), cn_carried = False\<rparr>"




lemma ohlc_simps [simp]:
  "cn_t (ohlc b qs) = b" "cn_close (ohlc b qs) = fp_price (last qs)" "cn_samples (ohlc b qs) = int (length qs)"
  "\<not> cn_carried (ohlc b qs)"
  by (simp_all add: ohlc_def)















subsection \<open>The two candles of a bucket\<close>







lemma bucket_print [simp]: "bucketT (intervalSec * 1000) (printOf r) = bucketOf intervalSec r"
  by (simp add: bucketT_def bucketOf_def printOf_def)






text \<open>A print that lands before the first candle of the chart is put in front of it on its own: however
  many intervals lie between, none is carried, although the same prints folded in time order leave a
  regular grid.\<close>
theorem early_print_breaks_the_grid:
  "map cn_t (foldAll 60 0 [\<lparr>fp_t = 250000, fp_price = 6\<rparr>, \<lparr>fp_t = 61000, fp_price = 5\<rparr>] []) = [60000, 240000] \<and>
   map cn_t (foldAll 60 0 [\<lparr>fp_t = 61000, fp_price = 5\<rparr>, \<lparr>fp_t = 250000, fp_price = 6\<rparr>] []) =
     [60000, 120000, 180000, 240000]"
  by code_simp

end
