(* ===== verification/ConfigSchema.thy ===== *)
theory ConfigSchema
  imports Methodology
begin

text \<open>
  What the validator of packages/pricing-engine/src/config.ts accepts, said without its list of checks: a
  schema of the untrusted value (which keys an object has, and of which kind the value of each key is), the
  ranges of the configuration read from it (\<open>global_ok\<close>), and the schema of a panel override. The
  validator is shown to accept exactly that.
\<close>

subsection \<open>The schema\<close>

text \<open>\<open>finiteAt\<close> excludes the infinities that \<open>JSON.parse\<close> can produce.\<close>

definition object_of :: "string list \<Rightarrow> json \<Rightarrow> bool" where
  "object_of keys v \<longleftrightarrow> isPlainObject v \<and> fst ` set (objFields v) = set keys"

definition patch_of :: "string list \<Rightarrow> json \<Rightarrow> bool" where
  "patch_of keys v \<longleftrightarrow> isPlainObject v \<and> objFields v \<noteq> [] \<and> fst ` set (objFields v) \<subseteq> set keys"

definition finiteAt :: "json \<Rightarrow> string \<Rightarrow> bool" where
  "finiteAt v k \<longleftrightarrow> (\<exists>x. jget v k = JNum x)"

definition integerAt :: "json \<Rightarrow> string \<Rightarrow> bool" where
  "integerAt v k \<longleftrightarrow> (\<exists>n. jget v k = JNum (of_int n))"

definition booleanAt :: "json \<Rightarrow> string \<Rightarrow> bool" where
  "booleanAt v k \<longleftrightarrow> (\<exists>b. jget v k = JBool b)"

definition absent :: "json \<Rightarrow> string \<Rightarrow> bool" where
  "absent v k \<longleftrightarrow> jget v k = JUndef"

definition typed_sections :: "json \<Rightarrow> bool" where
  "typed_sections v \<longleftrightarrow>
     (let s = jget v ''screening''; a = jget v ''aggregation''; w = jget v ''weights''; d = jget v ''dispersion'';
          c = jget v ''confidence''; g = jget v ''gates''; st = jget v ''stale''; j = jget v ''jump'';
          m = jget v ''movement'' in
      object_of ([''version'', ''screening'', ''aggregation'', ''weights'', ''weightCap'', ''dispersion'',
         ''confidence'', ''gates'', ''stale'', ''jump'', ''panelOverrides''] @ (if m = JUndef then [] else [''movement''])) v \<and>
      (\<exists>t. jget v ''version'' = JStr t) \<and> finiteAt v ''weightCap'' \<and>
      object_of [''minProvidersForScreen'', ''madScale'', ''sigmaLimit'', ''madZeroRatioBand''] s \<and>
      integerAt s ''minProvidersForScreen'' \<and> finiteAt s ''madScale'' \<and> finiteAt s ''sigmaLimit'' \<and>
      finiteAt s ''madZeroRatioBand'' \<and>
      object_of [''minMachinesForBook'', ''minHostsForBook'', ''arithmeticTolerancePerGpu'', ''gpuCountMin'',
        ''gpuCountMax'', ''eligibleTiers''] a \<and>
      integerAt a ''minMachinesForBook'' \<and> integerAt a ''minHostsForBook'' \<and> finiteAt a ''arithmeticTolerancePerGpu'' \<and>
      integerAt a ''gpuCountMin'' \<and> integerAt a ''gpuCountMax'' \<and>
      (\<exists>ts. jget a ''eligibleTiers'' = JArr (map JStr ts) \<and> (\<forall>t \<in> set ts. tierOf t \<noteq> None)) \<and>
      object_of [''executable'', ''rateCard''] w \<and> finiteAt w ''executable'' \<and> finiteAt w ''rateCard'' \<and>
      object_of [''max'', ''warn''] d \<and> finiteAt d ''max'' \<and> finiteAt d ''warn'' \<and>
      object_of [''voteSigmaFloor''] c \<and> finiteAt c ''voteSigmaFloor'' \<and>
      object_of gateKeys g \<and> integerAt g ''minProviders'' \<and> integerAt g ''minObservations'' \<and>
      finiteAt g ''maxObservationAgeMs'' \<and> booleanAt g ''requireExecutable'' \<and>
      object_of [''carryForwardWindowMs''] st \<and> finiteAt st ''carryForwardWindowMs'' \<and>
      object_of [''maxProviderJumpPct'', ''minCorroborators'', ''minCorroboratorMovePct''] j \<and>
      finiteAt j ''maxProviderJumpPct'' \<and> integerAt j ''minCorroborators'' \<and> finiteAt j ''minCorroboratorMovePct'' \<and>
      (m = JUndef \<or>
       object_of [''allowancePct'', ''slotMs'', ''reversion'', ''stepPct''] m \<and> finiteAt m ''allowancePct'' \<and>
       integerAt m ''slotMs'' \<and> finiteAt m ''reversion'' \<and> finiteAt m ''stepPct''))"

text \<open>A threshold of an override only has to be a positive number, which an infinity is and, in the
  comparisons of the source, \<open>NaN\<close> is not excluded; a dispersion of \<open>null\<close> falls back on the global one.\<close>

definition positive_number :: "json \<Rightarrow> bool" where
  "positive_number v \<longleftrightarrow> (\<exists>x > 0. v = JNum x) \<or> v = JNonFin PosInf \<or> v = JNonFin NaN"

definition typed_override :: "json \<Rightarrow> string \<Rightarrow> json \<Rightarrow> bool" where
  "typed_override global panel raw \<longleftrightarrow>
     (let slugs = jget raw ''additionalProviders''; g = jget raw ''gates''; d = jget raw ''dispersion'';
          oMax = nullish (jget d ''max'') (jget global ''max'');
          oWarn = nullish (jget d ''warn'') (jget global ''warn'') in
      panel \<in> set (map panel_id SETTLEMENT_PANELS) \<and>
      patch_of [''additionalProviders'', ''gates'', ''dispersion''] raw \<and>
      (slugs = JUndef \<or> (\<exists>ts. slugs = JArr (map JStr ts) \<and> ts \<noteq> [] \<and> distinct ts \<and>
         (\<forall>t \<in> set ts. t \<noteq> [] \<and> length t \<le> 64))) \<and>
      (g = JUndef \<or> patch_of gateKeys g \<and>
         (absent g ''minProviders'' \<or> (\<exists>n \<ge> 1. jget g ''minProviders'' = JNum (of_int n))) \<and>
         (absent g ''minObservations'' \<or> (\<exists>n \<ge> 1. jget g ''minObservations'' = JNum (of_int n))) \<and>
         (absent g ''maxObservationAgeMs'' \<or> positive_number (jget g ''maxObservationAgeMs'')) \<and>
         (absent g ''requireExecutable'' \<or> booleanAt g ''requireExecutable'')) \<and>
      (d = JUndef \<or> patch_of [''max'', ''warn''] d \<and> positive_number oMax \<and> positive_number oWarn \<and>
         \<not> geJson oWarn oMax))"

definition typed_overrides :: "json \<Rightarrow> bool" where
  "typed_overrides v \<longleftrightarrow> isPlainObject (jget v ''panelOverrides'') \<and>
     (\<forall>(panel, raw) \<in> set (objFields (jget v ''panelOverrides'')). typed_override (jget v ''dispersion'') panel raw)"

lemma assertKeys_iff: "firstFail (assertKeys v keys path) = None \<longleftrightarrow> fst ` set (objFields v) = set keys"
  by (auto simp: assertKeys_def)

lemma numChk_iff: "firstFail (numChk v k path) = None \<longleftrightarrow> finiteAt v k"
  by (auto simp: numChk_def finiteAt_def isNum_def split: json.splits)

lemma isInt_iff: "isInt x \<longleftrightarrow> (\<exists>n. x = of_int n)"
  by (auto simp: isInt_def intro: exI [of _ "\<lfloor>x\<rfloor>"])

lemma intChk_iff: "firstFail (intChk v k path) = None \<longleftrightarrow> integerAt v k"
  by (auto simp: intChk_def numChk_iff finiteAt_def integerAt_def isInt_iff)

lemma boolChk_iff: "firstFail (boolChk v k path) = None \<longleftrightarrow> booleanAt v k"
  by (auto simp: boolChk_def booleanAt_def split: json.splits)

lemma tiers_iff: "(\<exists>ts. v = JArr (map JStr ts) \<and> (\<forall>t \<in> set ts. tierOf t \<noteq> None)) \<longleftrightarrow>
    (\<exists>xs. v = JArr xs) \<and> (\<forall>x \<in> set (arrVal v). isTier x)"
proof (cases v)
  case (JArr xs)
  have "(\<exists>ts. xs = map JStr ts \<and> (\<forall>t \<in> set ts. tierOf t \<noteq> None)) \<longleftrightarrow> (\<forall>x \<in> set xs. isTier x)"
  proof
    assume "\<forall>x \<in> set xs. isTier x"
    then have "xs = map JStr (map strVal xs) \<and> (\<forall>t \<in> set (map strVal xs). tierOf t \<noteq> None)"
      by (induction xs) (auto simp: isTier_def split: json.splits)
    then show "\<exists>ts. xs = map JStr ts \<and> (\<forall>t \<in> set ts. tierOf t \<noteq> None)" by blast
  qed (auto simp: isTier_def)
  then show ?thesis using JArr by simp
qed simp_all

lemma slugs_iff: "firstFail (checkSlugs path v) = None \<longleftrightarrow> v = JUndef \<or>
    (\<exists>ts. v = JArr (map JStr ts) \<and> ts \<noteq> [] \<and> distinct ts \<and> (\<forall>t \<in> set ts. t \<noteq> [] \<and> length t \<le> 64))"
proof (cases v)
  case (JArr xs)
  have "xs \<noteq> [] \<and> (\<forall>v \<in> set xs. case v of JStr t \<Rightarrow> t \<noteq> [] \<and> length t \<le> 64 | _ \<Rightarrow> False) \<and> distinct xs \<longleftrightarrow>
    (\<exists>ts. xs = map JStr ts \<and> ts \<noteq> [] \<and> distinct ts \<and> (\<forall>t \<in> set ts. t \<noteq> [] \<and> length t \<le> 64))" (is "?L \<longleftrightarrow> ?R")
  proof
    assume L: ?L
    have slug: "v = JStr (strVal v) \<and> strVal v \<noteq> [] \<and> length (strVal v) \<le> 64"
      if "case v of JStr t \<Rightarrow> t \<noteq> [] \<and> length t \<le> 64 | _ \<Rightarrow> False" for v
      using that by (cases v) simp_all
    with L have "\<forall>v \<in> set xs. v = JStr (strVal v) \<and> strVal v \<noteq> [] \<and> length (strVal v) \<le> 64" by blast
    then have "xs = map JStr (map strVal xs)" "\<forall>t \<in> set (map strVal xs). t \<noteq> [] \<and> length t \<le> 64"
      by (auto simp: map_idI)
    moreover from this(1) have "distinct (map strVal xs)" using L by (metis distinct_map)
    ultimately show ?R using L by blast
  qed (auto simp: distinct_map inj_on_def)
  then show ?thesis using JArr by (simp add: checkSlugs_def)
qed (simp_all add: checkSlugs_def)

lemma positive_iff: "isNumber v \<and> \<not> leZero v \<longleftrightarrow> positive_number v"
  by (cases v rule: leZero.cases) (auto simp: isNumber_def positive_number_def nonfinite.exhaust)

lemma isIntegerGe1_iff: "isIntegerGe1 v \<longleftrightarrow> (\<exists>n \<ge> 1. v = JNum (of_int n))"
  by (auto simp: isIntegerGe1_def isInt_iff split: json.splits)

lemma keys_iff: "firstFail (map (\<lambda>k. need (p k) w (k \<in> K)) (map fst fs)) = None \<longleftrightarrow> fst ` set fs \<subseteq> K"
  by auto

lemma override_iff: "firstFail (checkOverride global (k, raw)) = None \<longleftrightarrow> typed_override global k raw"
proof -
  let ?g = "jget raw ''gates''" and ?d = "jget raw ''dispersion''"
  have g: "firstFail (checkOverrideGates p ?g) = None \<longleftrightarrow> ?g = JUndef \<or> patch_of gateKeys ?g \<and>
         (absent ?g ''minProviders'' \<or> (\<exists>n \<ge> 1. jget ?g ''minProviders'' = JNum (of_int n))) \<and>
         (absent ?g ''minObservations'' \<or> (\<exists>n \<ge> 1. jget ?g ''minObservations'' = JNum (of_int n))) \<and>
         (absent ?g ''maxObservationAgeMs'' \<or> positive_number (jget ?g ''maxObservationAgeMs'')) \<and>
         (absent ?g ''requireExecutable'' \<or> booleanAt ?g ''requireExecutable'')" for p
  proof -
    have b: "(case v of JUndef \<Rightarrow> True | JBool _ \<Rightarrow> True | _ \<Rightarrow> False) \<longleftrightarrow> v = JUndef \<or> (\<exists>b. v = JBool b)" for v
      by (cases v) simp_all
    show ?thesis
      unfolding checkOverrideGates_def patch_of_def absent_def booleanAt_def b positive_iff [symmetric] isIntegerGe1_iff [symmetric]
      by (auto simp: keys_iff)
  qed
  have d: "firstFail (checkOverrideDispersion global p ?d) = None \<longleftrightarrow> ?d = JUndef \<or> patch_of [''max'', ''warn''] ?d \<and>
      positive_number (nullish (jget ?d ''max'') (jget global ''max'')) \<and>
      positive_number (nullish (jget ?d ''warn'') (jget global ''warn'')) \<and>
      \<not> geJson (nullish (jget ?d ''warn'') (jget global ''warn'')) (nullish (jget ?d ''max'') (jget global ''max''))" for p
    unfolding checkOverrideDispersion_def patch_of_def positive_iff [symmetric] Let_def
    by (auto simp: keys_iff)
  show ?thesis
    unfolding checkOverride_def typed_override_def Let_def fst_conv snd_conv firstFail_append firstFail_Cons g d slugs_iff
      keys_iff need_None
    by (auto simp: patch_of_def)
qed

lemma overrides_iff: "firstFail (checkOverrides (jget v ''dispersion'') (jget v ''panelOverrides'')) = None \<longleftrightarrow> typed_overrides v"
proof -
  have c: "firstFail (concat xss) = None \<longleftrightarrow> (\<forall>xs \<in> set xss. firstFail xs = None)" for xss :: "'a option list list"
    by (induction xss) auto
  show ?thesis
    unfolding checkOverrides_def typed_overrides_def firstFail_append c using override_iff by auto
qed


lemmas schema_iffs = firstFail_append firstFail_Cons firstFail.simps(1) need_None assertKeys_iff numChk_iff intChk_iff boolChk_iff

lemma integer_read: "integerAt v k \<Longrightarrow> numAt v k = of_int (intAt v k)"
  by (auto simp: integerAt_def numAt_def intAt_def)

lemma checkTop_iff: "firstFail (checkTop v) = None \<longleftrightarrow>
    object_of ([''version'', ''screening'', ''aggregation'', ''weights'', ''weightCap'', ''dispersion'',
       ''confidence'', ''gates'', ''stale'', ''jump'', ''panelOverrides''] @
       (if jget v ''movement'' = JUndef then [] else [''movement''])) v \<and>
    (\<exists>t. jget v ''version'' = JStr t) \<and> strVal (jget v ''version'') \<noteq> [] \<and> length (strVal (jget v ''version'')) \<le> 64"
proof -
  have "(case w of JStr t \<Rightarrow> t \<noteq> [] \<and> length t \<le> 64 | _ \<Rightarrow> False) \<longleftrightarrow>
      (\<exists>t. w = JStr t) \<and> strVal w \<noteq> [] \<and> length (strVal w) \<le> 64" for w
    by (cases w) simp_all
  then show ?thesis unfolding checkTop_def schema_iffs object_of_def by auto
qed

lemma checkAggregation_iff: "firstFail (checkAggregation a) = None \<longleftrightarrow>
    object_of [''minMachinesForBook'', ''minHostsForBook'', ''arithmeticTolerancePerGpu'', ''gpuCountMin'',
      ''gpuCountMax'', ''eligibleTiers''] a \<and>
    integerAt a ''minMachinesForBook'' \<and> integerAt a ''minHostsForBook'' \<and> finiteAt a ''arithmeticTolerancePerGpu'' \<and>
    integerAt a ''gpuCountMin'' \<and> integerAt a ''gpuCountMax'' \<and>
    (\<exists>ts. jget a ''eligibleTiers'' = JArr (map JStr ts) \<and> (\<forall>t \<in> set ts. tierOf t \<noteq> None)) \<and>
    1 \<le> numAt a ''minMachinesForBook'' \<and> 1 \<le> numAt a ''minHostsForBook'' \<and> 0 \<le> numAt a ''arithmeticTolerancePerGpu'' \<and>
    1 \<le> numAt a ''gpuCountMin'' \<and> numAt a ''gpuCountMin'' \<le> numAt a ''gpuCountMax'' \<and>
    arrVal (jget a ''eligibleTiers'') \<noteq> []"
proof -
  have arr: "arrVal w \<noteq> [] \<Longrightarrow> \<exists>xs. w = JArr xs" for w by (cases w) simp_all
  show ?thesis
    unfolding checkAggregation_def schema_iffs object_of_def tiers_iff firstFail_map using arr by auto
qed

lemma section_iffs:
  "firstFail (checkScreening s) = None \<longleftrightarrow>
    object_of [''minProvidersForScreen'', ''madScale'', ''sigmaLimit'', ''madZeroRatioBand''] s \<and>
    integerAt s ''minProvidersForScreen'' \<and> finiteAt s ''madScale'' \<and> finiteAt s ''sigmaLimit'' \<and>
    finiteAt s ''madZeroRatioBand'' \<and> 1 \<le> numAt s ''minProvidersForScreen'' \<and> 0 < numAt s ''madScale'' \<and>
    0 < numAt s ''sigmaLimit'' \<and> 1 < numAt s ''madZeroRatioBand''"
  "firstFail (checkWeights v w) = None \<longleftrightarrow>
    object_of [''executable'', ''rateCard''] w \<and> finiteAt w ''executable'' \<and> finiteAt w ''rateCard'' \<and>
    0 < numAt w ''executable'' \<and> 0 < numAt w ''rateCard'' \<and> numAt w ''rateCard'' \<le> numAt w ''executable'' \<and>
    finiteAt v ''weightCap'' \<and> 0 < numAt v ''weightCap'' \<and> numAt v ''weightCap'' < 1"
  "firstFail (checkDispersion d) = None \<longleftrightarrow>
    object_of [''max'', ''warn''] d \<and> finiteAt d ''max'' \<and> finiteAt d ''warn'' \<and> 0 < numAt d ''max'' \<and>
    0 < numAt d ''warn'' \<and> numAt d ''warn'' < numAt d ''max''"
  "firstFail (checkConfidence c) = None \<longleftrightarrow>
    object_of [''voteSigmaFloor''] c \<and> finiteAt c ''voteSigmaFloor'' \<and> 0 < numAt c ''voteSigmaFloor'' \<and>
    numAt c ''voteSigmaFloor'' < 1"
  "firstFail (checkGates g) = None \<longleftrightarrow>
    object_of gateKeys g \<and> integerAt g ''minProviders'' \<and> integerAt g ''minObservations'' \<and>
    finiteAt g ''maxObservationAgeMs'' \<and> booleanAt g ''requireExecutable'' \<and> 1 \<le> numAt g ''minProviders'' \<and>
    1 \<le> numAt g ''minObservations'' \<and> 0 < numAt g ''maxObservationAgeMs''"
  "firstFail (checkStale st) = None \<longleftrightarrow>
    object_of [''carryForwardWindowMs''] st \<and> finiteAt st ''carryForwardWindowMs'' \<and> 0 < numAt st ''carryForwardWindowMs''"
  "firstFail (checkJump j) = None \<longleftrightarrow>
    object_of [''maxProviderJumpPct'', ''minCorroborators'', ''minCorroboratorMovePct''] j \<and>
    finiteAt j ''maxProviderJumpPct'' \<and> integerAt j ''minCorroborators'' \<and> finiteAt j ''minCorroboratorMovePct'' \<and>
    0 < numAt j ''maxProviderJumpPct'' \<and> 1 \<le> numAt j ''minCorroborators'' \<and> 0 < numAt j ''minCorroboratorMovePct'' \<and>
    numAt j ''minCorroboratorMovePct'' \<le> numAt j ''maxProviderJumpPct''"
  "firstFail (checkMovement m) = None \<longleftrightarrow> m = JUndef \<or>
    (object_of [''allowancePct'', ''slotMs'', ''reversion'', ''stepPct''] m \<and> finiteAt m ''allowancePct'' \<and>
     integerAt m ''slotMs'' \<and> finiteAt m ''reversion'' \<and> finiteAt m ''stepPct'') \<and>
    0 \<le> numAt m ''allowancePct'' \<and> numAt m ''allowancePct'' \<le> fl (1 / 10) \<and> 0 \<le> numAt m ''slotMs'' \<and>
    0 \<le> numAt m ''reversion'' \<and> numAt m ''reversion'' < 1 \<and> 0 < numAt m ''stepPct'' \<and> numAt m ''stepPct'' \<le> 1"
  unfolding checkScreening_def checkWeights_def checkDispersion_def checkConfidence_def checkGates_def checkStale_def
    checkJump_def checkMovement_def object_of_def if_cancel
  by (simp only: schema_iffs, blast)+ (cases "m = JUndef", simp, simp only: if_False schema_iffs, blast)

subsection \<open>The validator is the schema\<close>

text \<open>C26. The validator accepts exactly the values of the schema, unchanged: every section is an object
  with exactly its keys, every threshold of a section is a finite number, every count an integer, every
  flag a boolean, and the configuration read from it is in range; every override names a settlement panel
  and patches known keys only, its counts are integers from one, its flags booleans, its provider slugs
  distinct, and its thresholds are positive numbers, where the infinities and \<open>NaN\<close> that the sections
  refuse are admitted, with the warning not at or above the maximum.\<close>
theorem validate_exact:
  "validateMethodologyConfig input = Inr v \<longleftrightarrow>
     v = input \<and> typed_sections input \<and> typed_overrides input \<and> global_ok (readConfig input)"
proof
  assume ok: "validateMethodologyConfig input = Inr v"
  note sec = validate_sections [OF ok]
  note typed = sec(2-11) [unfolded checkTop_iff checkAggregation_iff section_iffs]
  have "typed_sections input"
    unfolding typed_sections_def Let_def using typed by blast
  then show "v = input \<and> typed_sections input \<and> typed_overrides input \<and> global_ok (readConfig input)"
    using sec(1,12) validated_ok [OF ok] by (simp add: overrides_iff)
next
  assume r: "v = input \<and> typed_sections input \<and> typed_overrides input \<and> global_ok (readConfig input)"
  let ?s = "jget input ''screening''" and ?a = "jget input ''aggregation''" and ?j = "jget input ''jump''"
    and ?g = "jget input ''gates''" and ?m = "jget input ''movement''"
  note t = r [THEN conjunct2, THEN conjunct1, unfolded typed_sections_def Let_def]
  note g = r [THEN conjunct2, THEN conjunct2, THEN conjunct2, unfolded global_ok_def readConfig_def Let_def, simplified]
  have "firstFail (checkTop input) = None"
    unfolding checkTop_iff using t g by auto
  moreover have "firstFail (checkScreening ?s) = None"
    using t g integer_read [of ?s "''minProvidersForScreen''"]
    by (auto simp: section_iffs screening_ok_def)
  moreover have "firstFail (checkAggregation ?a) = None"
  proof -
    obtain ts where ts: "jget ?a ''eligibleTiers'' = JArr (map JStr ts)" "\<forall>t \<in> set ts. tierOf t \<noteq> None"
      using t by blast
    have agg: "1 \<le> intAt ?a ''minMachinesForBook''" "1 \<le> intAt ?a ''minHostsForBook''"
      "0 \<le> numAt ?a ''arithmeticTolerancePerGpu''" "1 \<le> intAt ?a ''gpuCountMin''"
      "intAt ?a ''gpuCountMin'' \<le> intAt ?a ''gpuCountMax''" "ts \<noteq> []"
      using g ts(1) by (auto simp: aggregation_ok_def List.map_filter_simps)
    have ints: "integerAt ?a ''minMachinesForBook''" "integerAt ?a ''minHostsForBook''"
      "integerAt ?a ''gpuCountMin''" "integerAt ?a ''gpuCountMax''"
      using t by blast+
    have "1 \<le> numAt ?a ''minMachinesForBook''" "1 \<le> numAt ?a ''minHostsForBook''" "1 \<le> numAt ?a ''gpuCountMin''"
      "numAt ?a ''gpuCountMin'' \<le> numAt ?a ''gpuCountMax''"
      using agg ints [THEN integer_read] by simp_all
    moreover have "arrVal (jget ?a ''eligibleTiers'') \<noteq> []" using agg(6) ts(1) by simp
    ultimately show ?thesis unfolding checkAggregation_iff using t agg(3) by blast
  qed
  moreover have "firstFail (checkGates ?g) = None"
    using t g integer_read [of ?g "''minProviders''"] integer_read [of ?g "''minObservations''"]
    by (auto simp: section_iffs gates_ok_def)
  moreover have "firstFail (checkJump ?j) = None"
    using t g integer_read [of ?j "''minCorroborators''"]
    by (auto simp: section_iffs jump_ok_def)
  moreover have "firstFail (checkMovement ?m) = None"
  proof (cases "?m = JUndef")
    case False
    then have typed: "object_of [''allowancePct'', ''slotMs'', ''reversion'', ''stepPct''] ?m \<and> finiteAt ?m ''allowancePct'' \<and>
        integerAt ?m ''slotMs'' \<and> finiteAt ?m ''reversion'' \<and> finiteAt ?m ''stepPct''"
      using t by blast
    have mv: "0 \<le> numAt ?m ''allowancePct''" "numAt ?m ''allowancePct'' \<le> fl (1 / 10)" "0 \<le> intAt ?m ''slotMs''"
      "0 \<le> numAt ?m ''reversion''" "numAt ?m ''reversion'' < 1" "0 < numAt ?m ''stepPct''" "numAt ?m ''stepPct'' \<le> 1"
      using g False by (simp_all add: movement_ok_def optOf_def)
    have "0 \<le> numAt ?m ''slotMs''" using integer_read [of ?m "''slotMs''"] typed mv(3) by simp
    then show ?thesis unfolding section_iffs using typed mv by blast
  qed (simp add: section_iffs)
  moreover have "firstFail (checkWeights input (jget input ''weights'')) = None"
    using t g by (auto simp: section_iffs)
  moreover have "firstFail (checkDispersion (jget input ''dispersion'')) = None"
    using t g by (auto simp: section_iffs dispersion_ok_def)
  moreover have "firstFail (checkConfidence (jget input ''confidence'')) = None"
    using t g by (auto simp: section_iffs)
  moreover have "firstFail (checkStale (jget input ''stale'')) = None"
    using t g by (auto simp: section_iffs)
  moreover have "firstFail (checkOverrides (jget input ''dispersion'') (jget input ''panelOverrides'')) = None"
    using r by (simp add: overrides_iff)
  ultimately have "firstFail (configChecks input) = None"
    unfolding configChecks_def firstFail_append by blast
  then show "validateMethodologyConfig input = Inr v"
    using r by (simp add: validateMethodologyConfig_def)
qed

theorem validate_exact_witness:
  "typed_sections defaultJson \<and> typed_overrides defaultJson \<and> global_ok DEFAULT_METHODOLOGY_CONFIG"
  using validate_exact [of defaultJson defaultJson] by (simp add: default_validates default_reads)

end
