(* ===== verification/Machine.thy ===== *)
theory Machine
  imports Prelude
begin

text \<open>
  The contract of a component that moves in steps: an invariant that holds at the start and that every
  step keeps, and a simulation of the steps by those of an abstract machine. The transaction store and
  the action runner of the web application are interpretations.
\<close>

locale machine =
  fixes start :: "'s"
    and step :: "'s \<Rightarrow> 's \<Rightarrow> bool"
    and inv :: "'s \<Rightarrow> bool"
  assumes inv_start: "inv start"
    and inv_step: "inv s \<Longrightarrow> step s s' \<Longrightarrow> inv s'"
begin

lemma inv_later: "step\<^sup>*\<^sup>* s s' \<Longrightarrow> inv s \<Longrightarrow> inv s'"
  by (induction rule: rtranclp_induct) (auto intro: inv_step)

lemma inv_reachable: "step\<^sup>*\<^sup>* start s \<Longrightarrow> inv s"
  using inv_later inv_start by blast

lemma stable_later:
  assumes "step\<^sup>*\<^sup>* s s'" "inv s" "P s" and "\<And>s s'. inv s \<Longrightarrow> P s \<Longrightarrow> step s s' \<Longrightarrow> P s'"
  shows "P s'"
proof -
  have "inv s' \<and> P s'" using assms by (induction rule: rtranclp_induct) (auto intro: inv_step)
  then show ?thesis ..
qed

end

locale machine_refinement = machine start step inv
  for start :: "'s" and step :: "'s \<Rightarrow> 's \<Rightarrow> bool" and inv :: "'s \<Rightarrow> bool" +
  fixes view :: "'s \<Rightarrow> 'a"
    and spec_step :: "'a \<Rightarrow> 'a \<Rightarrow> bool"
  assumes simulates: "inv s \<Longrightarrow> step s s' \<Longrightarrow> spec_step\<^sup>*\<^sup>* (view s) (view s')"
begin

lemma refines: "step\<^sup>*\<^sup>* s s' \<Longrightarrow> inv s \<Longrightarrow> spec_step\<^sup>*\<^sup>* (view s) (view s')"
proof (induction rule: rtranclp_induct)
  case (step y z)
  then show ?case using simulates [OF inv_later] by (meson rtranclp_trans)
qed simp

end

end
