(* ===== verification/TxStore.thy ===== *)
theory TxStore
  imports JsMap Machine
begin

text \<open>
  apps/web/src/data/web3/tx-store.ts and the transaction types of apps/web/src/domain/types.ts: the
  lifecycle of the transactions one session runs.

  An asynchronous \<open>run\<close> is cut at its awaits into synchronous segments: the one up to the wallet's
  prompt (\<open>begin_run\<close>), the one from the wallet's answer to the wait for the receipt
  (\<open>on_wallet\<close>) and the one from the receipt (\<open>on_receipt\<close>). The segments of different
  runs interleave in any order; within one segment the clock is read once. The wallet and the receipt
  wait are the answers the segments take. The subscribers and their notification are left out.
\<close>

datatype TxStatus = Signing | DeclinedTx | Submitting | Pending | Confirmed | RevertedTx | FailedTx

record TxRecord =
  tx_id :: string
  tx_hash :: "string option"
  tx_status :: TxStatus
  tx_origin :: string
  tx_kind :: string
  tx_chainId :: int
  tx_address :: "string option"
  tx_createdAt :: int
  tx_updatedAt :: int
  tx_settledAt :: "int option"
  tx_blockNumber :: "int option"
  tx_error :: "string option"

text \<open>A specification without its closure: what the wallet does is the answer of the prompt.\<close>

record TxSpec =
  sp_origin :: string
  sp_kind :: string

record ReceiptOutcome =
  ro_success :: bool
  ro_blockNumber :: int

text \<open>What the wallet answers: a hash, or an error that is or is not the user's refusal, with the
  words \<open>describe\<close> takes from it.\<close>

datatype WalletAnswer = Signed string | Threw bool string

definition MAX_RECORDS :: nat where "MAX_RECORDS = 30"

definition describe :: "string \<Rightarrow> string" where \<comment> \<open>the ellipsis is three full stops here\<close>
  "describe message = (if length message > 300 then take 300 message @ ''...'' else message)"

record TxStoreState =
  st_records :: "(string, TxRecord) js_map"
  st_snapshot :: "TxRecord list"

definition store_init :: TxStoreState where
  "store_init = \<lparr>st_records = js_empty, st_snapshot = []\<rparr>"

definition newestFirst :: "TxRecord list \<Rightarrow> TxRecord list" where
  "newestFirst = sort_key (\<lambda>r. - tx_createdAt r)"

definition put :: "TxRecord \<Rightarrow> TxStoreState \<Rightarrow> TxStoreState" where
  "put record s =
     (let records = js_set (tx_id record) record (st_records s);
          sorted = newestFirst (js_values records)
      in \<lparr>st_records = fold (\<lambda>dead. js_delete (tx_id dead)) (drop MAX_RECORDS sorted) records,
          st_snapshot = take MAX_RECORDS sorted\<rparr>)"

definition clear :: "TxStoreState \<Rightarrow> TxStoreState" where
  "clear s = store_init"

definition patch :: "string \<Rightarrow> (TxRecord \<Rightarrow> TxRecord) \<Rightarrow> int \<Rightarrow> TxStoreState \<Rightarrow> TxStoreState" where
  "patch key upd now s = (case js_get (st_records s) key of None \<Rightarrow> s
     | Some current \<Rightarrow> put ((upd current)\<lparr>tx_updatedAt := now\<rparr>) s)"

text \<open>\<open>settle\<close> throws when the record is not in the store any more.\<close>

definition settle :: "string \<Rightarrow> (TxRecord \<Rightarrow> TxRecord) \<Rightarrow> int \<Rightarrow> TxStoreState \<Rightarrow> TxStoreState \<times> (string + TxRecord)" where
  "settle key upd now s = (case js_get (st_records s) key of
     None \<Rightarrow> (s, Inl (''Unknown transaction record '' @ key))
   | Some current \<Rightarrow> let next' = (upd current)\<lparr>tx_updatedAt := now\<rparr> in (put next' s, Inr next'))"

subsection \<open>One run, segment by segment\<close>

datatype TxRun = AtWallet | AtReceipt string | Returned TxRecord | ThrewError string

definition signingRecord :: "string \<Rightarrow> TxSpec \<Rightarrow> int \<Rightarrow> string option \<Rightarrow> int \<Rightarrow> TxRecord" where
  "signingRecord key spec chain addr now = \<lparr>tx_id = key, tx_hash = None, tx_status = Signing,
     tx_origin = sp_origin spec, tx_kind = sp_kind spec, tx_chainId = chain, tx_address = addr,
     tx_createdAt = now, tx_updatedAt = now, tx_settledAt = None, tx_blockNumber = None, tx_error = None\<rparr>"

definition begin_run :: "string \<Rightarrow> TxSpec \<Rightarrow> int \<Rightarrow> string option \<Rightarrow> int \<Rightarrow> TxStoreState \<Rightarrow> TxStoreState \<times> TxRun" where
  "begin_run key spec chain addr now s = (put (signingRecord key spec chain addr now) s, AtWallet)"

definition returned :: "TxStoreState \<times> (string + TxRecord) \<Rightarrow> TxStoreState \<times> TxRun" where
  "returned r = (case r of (s, Inl e) \<Rightarrow> (s, ThrewError e) | (s, Inr record) \<Rightarrow> (s, Returned record))"

definition on_wallet :: "string \<Rightarrow> WalletAnswer \<Rightarrow> int \<Rightarrow> TxStoreState \<Rightarrow> TxStoreState \<times> TxRun" where
  "on_wallet key a now s = (case a of
     Threw declined message \<Rightarrow> returned (
       if declined then settle key (\<lambda>r. r\<lparr>tx_status := DeclinedTx,
         tx_error := Some ''Signature declined. Connect again to continue.''\<rparr>) now s
       else settle key (\<lambda>r. r\<lparr>tx_status := FailedTx,
         tx_error := Some (''The wallet refused the request: '' @ describe message)\<rparr>) now s)
   | Signed hash \<Rightarrow>
       (patch key (\<lambda>r. r\<lparr>tx_status := Pending\<rparr>) now
         (patch key (\<lambda>r. r\<lparr>tx_hash := Some hash, tx_status := Submitting\<rparr>) now s), AtReceipt hash))"

definition lostReceipt :: "string \<Rightarrow> int \<Rightarrow> TxStoreState \<Rightarrow> TxStoreState \<times> (string + TxRecord)" where
  "lostReceipt key now = settle key (\<lambda>r. r\<lparr>tx_status := FailedTx,
     tx_error := Some ''No confirmation arrived in time - check the explorer before retrying.''\<rparr>) now"

text \<open>The settling of a receipt is inside the \<open>try\<close>: an exception there is caught and settled as a
  lost receipt.\<close>

definition on_receipt :: "string \<Rightarrow> ReceiptOutcome option \<Rightarrow> int \<Rightarrow> TxStoreState \<Rightarrow> TxStoreState \<times> TxRun" where
  "on_receipt key outcome now s = returned (case outcome of
     None \<Rightarrow> lostReceipt key now s
   | Some receipt \<Rightarrow>
       (case (if ro_success receipt
              then settle key (\<lambda>r. r\<lparr>tx_status := Confirmed, tx_blockNumber := Some (ro_blockNumber receipt),
                tx_settledAt := Some now\<rparr>) now s
              else settle key (\<lambda>r. r\<lparr>tx_status := RevertedTx, tx_blockNumber := Some (ro_blockNumber receipt),
                tx_settledAt := Some now,
                tx_error := Some ''The transaction reverted on-chain. Nothing moved.''\<rparr>) now s) of
          (s', Inl _) \<Rightarrow> lostReceipt key now s'
        | r \<Rightarrow> r))"

subsection \<open>A session: interleaved runs\<close>

record TxSession =
  ss_store :: TxStoreState
  ss_runs :: "string \<Rightarrow> TxRun option"
  ss_clock :: int

definition session_init :: TxSession where
  "session_init = \<lparr>ss_store = store_init, ss_runs = (\<lambda>_. None), ss_clock = 0\<rparr>"

definition advance :: "string \<Rightarrow> int \<Rightarrow> TxStoreState \<times> TxRun \<Rightarrow> TxSession \<Rightarrow> TxSession" where
  "advance key now r w = \<lparr>ss_store = fst r, ss_runs = (ss_runs w)(key \<mapsto> snd r), ss_clock = now\<rparr>"

text \<open>The ids are fresh (\<open>crypto.randomUUID\<close>), the clock does not run backwards, and each pending promise
  is answered at most once.\<close>

inductive tx_step :: "TxSession \<Rightarrow> TxSession \<Rightarrow> bool" where
  start: "ss_runs w key = None \<Longrightarrow> ss_clock w \<le> now \<Longrightarrow>
    tx_step w (advance key now (begin_run key spec chain addr now (ss_store w)) w)"
| wallet: "ss_runs w key = Some AtWallet \<Longrightarrow> ss_clock w \<le> now \<Longrightarrow>
    tx_step w (advance key now (on_wallet key a now (ss_store w)) w)"
| receipt: "ss_runs w key = Some (AtReceipt hash) \<Longrightarrow> ss_clock w \<le> now \<Longrightarrow>
    tx_step w (advance key now (on_receipt key outcome now (ss_store w)) w)"
| cleared: "tx_step w (w\<lparr>ss_store := clear (ss_store w)\<rparr>)"

definition tx_reachable :: "TxSession \<Rightarrow> bool" where
  "tx_reachable = tx_step\<^sup>*\<^sup>* session_init"

subsection \<open>The store keeps its shape\<close>

definition own_keys :: "(string, TxRecord) js_map \<Rightarrow> bool" where
  "own_keys m \<longleftrightarrow> js_ok m \<and> (\<forall>(k, r) \<in> set m. tx_id r = k)"

definition store_ok :: "TxStoreState \<Rightarrow> bool" where
  "store_ok s \<longleftrightarrow> own_keys (st_records s) \<and> st_snapshot s = newestFirst (js_values (st_records s)) \<and>
     length (st_records s) \<le> MAX_RECORDS"

lemma delete_filter: "fold (\<lambda>d. js_delete (f d)) ds m = filter (\<lambda>(k, v). k \<notin> f ` set ds) m"
  by (induction ds arbitrary: m) (auto simp: js_delete_def AList.delete_eq split_beta intro: filter_cong)

lemma own_keys_iff: "own_keys m \<longleftrightarrow> js_ok m \<and> (\<forall>k r. js_get m k = Some r \<longrightarrow> tx_id r = k)"
  by (auto simp: own_keys_def js_ok_def js_get_def map_of_eq_Some_iff)

lemma own_keys_set: "own_keys m \<Longrightarrow> tx_id r = k \<Longrightarrow> own_keys (js_set k r m)"
  by (auto simp: own_keys_iff js_ok_set)

lemma own_keys_filter: "own_keys m \<Longrightarrow> own_keys (filter P m)"
  by (auto simp: own_keys_def js_ok_def distinct_map_filter)

lemma own_keys_get: "own_keys m \<Longrightarrow> js_get m k = Some r \<Longrightarrow> tx_id r = k"
  by (auto simp: own_keys_def js_get_def dest: map_of_SomeD)

lemma own_keys_ids: "own_keys m \<Longrightarrow> map tx_id (js_values m) = map fst m"
  by (auto simp: own_keys_def js_values_def)

lemma newestFirst_set [simp]: "set (newestFirst rs) = set rs"
  and newestFirst_length [simp]: "length (newestFirst rs) = length rs"
  by (simp_all add: newestFirst_def)

lemma newestFirst_ids: "distinct (map tx_id rs) \<Longrightarrow> distinct (map tx_id (newestFirst rs))"
  by (simp add: newestFirst_def distinct_map)

lemma take_filter: "distinct (map f xs) \<Longrightarrow> filter (\<lambda>x. f x \<notin> f ` set (drop n xs)) xs = take n xs"
proof -
  assume d: "distinct (map f xs)"
  then have "distinct (map f (take n xs @ drop n xs))" by simp
  then have disj: "f ` set (take n xs) \<inter> f ` set (drop n xs) = {}" unfolding map_append distinct_append by simp
  have "filter (\<lambda>x. f x \<notin> f ` set (drop n xs)) (take n xs @ drop n xs) = take n xs"
    using disj by (auto simp: filter_id_conv filter_empty_conv simp del: append_take_drop_id)
  then show ?thesis by simp
qed

lemma put_records: "st_records (put r s) = filter (\<lambda>(k, v). k \<notin> tx_id `
    set (drop MAX_RECORDS (newestFirst (js_values (js_set (tx_id r) r (st_records s)))))) (js_set (tx_id r) r (st_records s))"
  by (simp add: put_def Let_def delete_filter)

lemma put_ok:
  assumes "store_ok s"
  shows "store_ok (put r s)"
proof -
  define m where "m = js_set (tx_id r) r (st_records s)"
  define D where "D = tx_id ` set (drop MAX_RECORDS (newestFirst (js_values m)))"
  have m: "own_keys m" using assms own_keys_set by (simp add: m_def store_ok_def)
  have records: "st_records (put r s) = filter (\<lambda>(k, v). k \<notin> D) m"
    by (simp add: put_records D_def m_def)
  have "js_values (filter (\<lambda>(k, v). k \<notin> D) m) = filter (\<lambda>v. tx_id v \<notin> D) (js_values m)"
    using m unfolding own_keys_def js_values_def filter_map by (auto simp: comp_def intro!: arg_cong [of _ _ "map snd"] filter_cong)
  then have "newestFirst (js_values (st_records (put r s))) = filter (\<lambda>v. tx_id v \<notin> D) (newestFirst (js_values m))"
    by (simp add: records newestFirst_def filter_sort)
  also have "\<dots> = take MAX_RECORDS (newestFirst (js_values m))"
    unfolding D_def using m own_keys_ids [OF m]
    by (intro take_filter newestFirst_ids) (simp add: own_keys_def js_ok_def)
  finally have sorted: "newestFirst (js_values (st_records (put r s))) = take MAX_RECORDS (newestFirst (js_values m))" .
  have "length (st_records (put r s)) = length (newestFirst (js_values (st_records (put r s))))"
    by (simp add: js_values_def)
  then have "length (st_records (put r s)) \<le> MAX_RECORDS" by (simp add: sorted)
  then show ?thesis
    using m own_keys_filter sorted by (simp add: store_ok_def records, simp add: put_def m_def Let_def)
qed

lemma put_get: "js_get (st_records (put r s)) k \<in> {None, js_get (js_set (tx_id r) r (st_records s)) k}"
proof -
  have "map_of (filter (\<lambda>(k, v). k \<notin> D) m) k = (if k \<in> D then None else map_of m k)" for D and m :: "(string, TxRecord) js_map"
    by (induction m) auto
  then show ?thesis by (auto simp: put_records js_get_def)
qed

text \<open>Writing a record that is already there evicts nothing.\<close>

lemma put_same:
  assumes "store_ok s" "js_get (st_records s) (tx_id r) = Some r'"
  shows "st_records (put r s) = js_set (tx_id r) r (st_records s)"
proof -
  have "length (js_set (tx_id r) r (st_records s)) = length (st_records s)"
    using assms(2) by (simp add: js_size_set js_has_def)
  then have "drop MAX_RECORDS (newestFirst (js_values (js_set (tx_id r) r (st_records s)))) = []"
    using assms(1) by (simp add: store_ok_def js_values_def)
  then show ?thesis unfolding put_records by simp
qed

subsection \<open>Every run and its record\<close>

definition terminal :: "TxStatus \<Rightarrow> bool" where
  "terminal st \<longleftrightarrow> st \<in> {DeclinedTx, Confirmed, RevertedTx, FailedTx}"

definition settled_record :: "TxRecord \<Rightarrow> bool" where
  "settled_record r \<longleftrightarrow> terminal (tx_status r) \<and>
     (if tx_status r = Confirmed then tx_hash r \<noteq> None \<and> tx_blockNumber r \<noteq> None \<and> tx_error r = None
      else tx_error r \<noteq> None)"

fun fits :: "TxRun \<Rightarrow> TxRecord \<Rightarrow> bool" where
  "fits AtWallet r \<longleftrightarrow> tx_status r = Signing \<and> tx_hash r = None \<and> tx_error r = None"
| "fits (AtReceipt hash) r \<longleftrightarrow> tx_status r = Pending \<and> tx_hash r = Some hash \<and> tx_error r = None"
| "fits (Returned r') r \<longleftrightarrow> r = r'"
| "fits (ThrewError _) r \<longleftrightarrow> False"

definition session_ok :: "TxSession \<Rightarrow> bool" where
  "session_ok w \<longleftrightarrow> store_ok (ss_store w) \<and>
     (\<forall>k r. js_get (st_records (ss_store w)) k = Some r \<longrightarrow> (\<exists>run. ss_runs w k = Some run \<and> fits run r)) \<and>
     (\<forall>k r. ss_runs w k = Some (Returned r) \<longrightarrow> settled_record r)"

text \<open>The life of one record, as the module comment draws it.\<close>

datatype TxView = Absent | Live TxStatus | Gone

inductive lifecycle :: "TxView \<Rightarrow> TxView \<Rightarrow> bool" where
  opened: "lifecycle Absent (Live Signing)"
| declined: "lifecycle (Live Signing) (Live DeclinedTx)"
| wallet_error: "lifecycle (Live Signing) (Live FailedTx)"
| submitted: "lifecycle (Live Signing) (Live Submitting)"
| watched: "lifecycle (Live Submitting) (Live Pending)"
| confirmed: "lifecycle (Live Pending) (Live Confirmed)"
| reverted: "lifecycle (Live Pending) (Live RevertedTx)"
| timed_out: "lifecycle (Live Pending) (Live FailedTx)"
| dropped: "lifecycle (Live st) Gone"

lemmas life_now = lifecycle.intros [THEN r_into_rtranclp [where r = lifecycle]]

lemma life_pending: "lifecycle\<^sup>*\<^sup>* (Live Signing) (Live Pending)"
  using submitted watched by (rule converse_rtranclp_into_rtranclp [OF _ r_into_rtranclp])

text \<open>A segment of run \<open>k\<close> writes the record of \<open>k\<close> or, when it is gone, nothing.\<close>

definition writes :: "string \<Rightarrow> TxStoreState \<Rightarrow> TxStoreState \<times> TxRun \<Rightarrow> bool" where
  "writes k s res \<longleftrightarrow> store_ok (fst res) \<and>
     (case js_get (st_records s) k of None \<Rightarrow> fst res = s \<and> (\<forall>r. snd res \<noteq> Returned r)
      | Some r \<Rightarrow> \<exists>r'. st_records (fst res) = js_set k r' (st_records s) \<and> tx_id r' = k \<and>
          tx_createdAt r' = tx_createdAt r \<and> fits (snd res) r' \<and>
          lifecycle\<^sup>*\<^sup>* (Live (tx_status r)) (Live (tx_status r')) \<and> (\<forall>x. snd res = Returned x \<longrightarrow> settled_record x))"

lemma patch_writes:
  assumes "store_ok s" "js_get (st_records s) k = Some r" "tx_id (f r) = k"
  shows "store_ok (patch k f now s)"
    and "st_records (patch k f now s) = js_set k ((f r)\<lparr>tx_updatedAt := now\<rparr>) (st_records s)"
  using assms put_ok [OF assms(1)] put_same [OF assms(1), of "(f r)\<lparr>tx_updatedAt := now\<rparr>"]
  by (simp_all add: patch_def)

lemma settle_writes:
  assumes "store_ok s" "\<And>r. tx_id (f r) = tx_id r \<and> tx_createdAt (f r) = tx_createdAt r"
    and "\<And>r. js_get (st_records s) k = Some r \<Longrightarrow>
      settled_record (f r) \<and> lifecycle\<^sup>*\<^sup>* (Live (tx_status r)) (Live (tx_status (f r)))"
  shows "writes k s (returned (settle k f now s))"
proof (cases "js_get (st_records s) k")
  case None
  then show ?thesis using assms(1) by (simp add: writes_def settle_def returned_def)
next
  case (Some r)
  then have "tx_id r = k" using assms(1) own_keys_get by (auto simp: store_ok_def)
  then show ?thesis
    using Some assms put_ok [OF assms(1)] put_same [OF assms(1), of "(f r)\<lparr>tx_updatedAt := now\<rparr>"]
    by (auto simp: writes_def settle_def returned_def Let_def settled_record_def)
qed

lemma on_wallet_writes:
  assumes "store_ok s" "\<And>r. js_get (st_records s) k = Some r \<Longrightarrow> fits AtWallet r"
  shows "writes k s (on_wallet k a now s)"
proof (cases a)
  case (Threw d msg)
  then show ?thesis
    using assms by (cases d) (auto simp: on_wallet_def settled_record_def terminal_def intro!: settle_writes life_now)
next
  case (Signed hash)
  show ?thesis
  proof (cases "js_get (st_records s) k")
    case None
    then show ?thesis using Signed assms(1) by (simp add: writes_def on_wallet_def patch_def)
  next
    case (Some r)
    have key: "tx_id r = k" using Some assms(1) own_keys_get by (auto simp: store_ok_def)
    let ?s1 = "patch k (\<lambda>r. r\<lparr>tx_hash := Some hash, tx_status := Submitting\<rparr>) now s"
    have p1: "store_ok ?s1" "st_records ?s1 =
        js_set k (r\<lparr>tx_hash := Some hash, tx_status := Submitting, tx_updatedAt := now\<rparr>) (st_records s)"
      using patch_writes [OF assms(1) Some] key by simp_all
    then have g: "js_get (st_records ?s1) k = Some (r\<lparr>tx_hash := Some hash, tx_status := Submitting, tx_updatedAt := now\<rparr>)"
      by simp
    have "st_records (fst (on_wallet k a now s)) =
        js_set k (r\<lparr>tx_hash := Some hash, tx_status := Pending, tx_updatedAt := now\<rparr>) (st_records s)"
      using patch_writes(2) [OF p1(1) g] key p1(2) by (simp add: Signed on_wallet_def js_set_def)
    moreover have "store_ok (fst (on_wallet k a now s))"
      using patch_writes(1) [OF p1(1) g] key by (simp add: Signed on_wallet_def)
    ultimately show ?thesis
      using Some key assms(2) [OF Some]
      by (auto simp: writes_def Signed on_wallet_def life_pending
          intro!: exI [of _ "r\<lparr>tx_hash := Some hash, tx_status := Pending, tx_updatedAt := now\<rparr>"])
  qed
qed

lemma on_receipt_writes:
  assumes "store_ok s" "\<And>r. js_get (st_records s) k = Some r \<Longrightarrow> fits (AtReceipt h) r"
  shows "writes k s (on_receipt k outcome now s)"
proof (cases "outcome = None \<or> js_get (st_records s) k = None")
  case True
  have "on_receipt k outcome now s = returned (lostReceipt k now s)"
    using True by (auto simp: on_receipt_def lostReceipt_def settle_def Let_def split: option.splits)
  then show ?thesis
    using assms unfolding lostReceipt_def
    by (auto simp: settled_record_def terminal_def intro!: settle_writes life_now)
next
  case False
  then obtain ro r where ro: "outcome = Some ro" "js_get (st_records s) k = Some r" by auto
  let ?f = "\<lambda>r. if ro_success ro
      then r\<lparr>tx_status := Confirmed, tx_blockNumber := Some (ro_blockNumber ro), tx_settledAt := Some now\<rparr>
      else r\<lparr>tx_status := RevertedTx, tx_blockNumber := Some (ro_blockNumber ro), tx_settledAt := Some now,
        tx_error := Some ''The transaction reverted on-chain. Nothing moved.''\<rparr>"
  have "on_receipt k outcome now s = returned (settle k ?f now s)"
    using ro by (auto simp: on_receipt_def settle_def Let_def)
  then show ?thesis using assms by (auto simp: settled_record_def terminal_def intro!: settle_writes life_now)
qed

lemma writes_session:
  assumes w: "session_ok w" and wr: "writes k (ss_store w) res" and key: "ss_runs w k \<noteq> None"
  shows "session_ok (advance k now res w)"
proof (cases "js_get (st_records (ss_store w)) k")
  case None
  then show ?thesis using w wr by (auto simp: session_ok_def writes_def advance_def)
next
  case (Some r)
  with wr obtain r' where r': "st_records (fst res) = js_set k r' (st_records (ss_store w))" "fits (snd res) r'"
    "store_ok (fst res)" "\<forall>x. snd res = Returned x \<longrightarrow> settled_record x"
    by (auto simp: writes_def)
  then show ?thesis using w by (auto simp: session_ok_def advance_def)
qed

lemma begin_session:
  assumes w: "session_ok w" and fresh: "ss_runs w k = None"
  shows "session_ok (advance k now (begin_run k spec chain addr now (ss_store w)) w)"
proof -
  let ?r = "signingRecord k spec chain addr now" and ?s = "ss_store w"
  have key: "tx_id ?r = k" and fit: "fits AtWallet ?r" by (simp_all add: signingRecord_def)
  have get: "js_get (st_records (put ?r ?s)) k' = Some r \<Longrightarrow>
      (if k' = k then r = ?r else js_get (st_records ?s) k' = Some r)" for k' r
    using put_get [of ?r ?s k'] by (auto simp: key split: if_splits)
  have "\<exists>run. ((ss_runs w)(k \<mapsto> AtWallet)) k' = Some run \<and> fits run r"
    if "js_get (st_records (put ?r ?s)) k' = Some r" for k' r
    using get [OF that] fit w by (cases "k' = k") (auto simp: session_ok_def)
  moreover have "store_ok (put ?r ?s)" using w put_ok by (simp add: session_ok_def)
  ultimately show ?thesis using w by (simp add: session_ok_def advance_def begin_run_def)
qed

lemma session_start: "session_ok session_init"
  by (simp add: session_ok_def session_init_def store_ok_def store_init_def own_keys_iff js_ok_empty
      js_values_def js_empty_def newestFirst_def js_get_def js_ok_def)

lemma store_run:
  assumes "session_ok w" "ss_runs w k = Some run" "js_get (st_records (ss_store w)) k = Some r"
  shows "fits run r"
  using assms by (fastforce simp: session_ok_def)

lemma session_step:
  assumes "session_ok w" "tx_step w w'"
  shows "session_ok w'"
  using assms(2)
proof cases
  case (start key now spec chain addr)
  then show ?thesis using begin_session [OF assms(1)] by simp
next
  case (wallet key now a)
  have "writes key (ss_store w) (on_wallet key a now (ss_store w))"
    using on_wallet_writes store_run [OF assms(1) wallet(2)] assms(1) by (simp add: session_ok_def)
  then show ?thesis using writes_session [OF assms(1)] wallet by simp
next
  case (receipt key hash now outcome)
  have "writes key (ss_store w) (on_receipt key outcome now (ss_store w))"
    using on_receipt_writes store_run [OF assms(1) receipt(2)] assms(1) by (simp add: session_ok_def)
  then show ?thesis using writes_session [OF assms(1)] receipt by simp
next
  case cleared
  then show ?thesis
    using assms(1) session_start by (simp add: session_ok_def clear_def session_init_def store_init_def)
qed

interpretation tx: machine session_init tx_step session_ok
  by unfold_locales (rule session_start, erule (1) session_step)

lemma fresh_none: "session_ok w \<Longrightarrow> ss_runs w k = None \<Longrightarrow> js_get (st_records (ss_store w)) k = None"
  unfolding session_ok_def by (metis not_None_eq)

lemma store_values:
  assumes "store_ok s"
  shows "r \<in> set (js_values (st_records s)) \<longleftrightarrow> js_get (st_records s) (tx_id r) = Some r"
proof -
  have own: "js_ok (st_records s)" "\<And>k r. js_get (st_records s) k = Some r \<Longrightarrow> tx_id r = k"
    using assms by (simp_all add: store_ok_def own_keys_iff)
  show ?thesis unfolding js_values_get [OF own(1)] using own(2) by metis
qed

definition view :: "string \<Rightarrow> TxSession \<Rightarrow> TxView" where
  "view k w = (case js_get (st_records (ss_store w)) k of Some r \<Rightarrow> Live (tx_status r)
     | None \<Rightarrow> if ss_runs w k = None then Absent else Gone)"

lemma writes_view:
  assumes "writes key (ss_store w) res" "ss_runs w key \<noteq> None"
  shows "lifecycle\<^sup>*\<^sup>* (view k w) (view k (advance key now res w))"
  using assms by (auto simp: writes_def view_def advance_def split: option.splits)

lemma begin_view:
  assumes w: "session_ok w" and fresh: "ss_runs w key = None"
  shows "lifecycle\<^sup>*\<^sup>* (view k w) (view k (advance key now (begin_run key spec chain addr now (ss_store w)) w))"
proof -
  let ?r = "signingRecord key spec chain addr now" and ?s = "ss_store w"
  note none = fresh_none [OF w fresh]
  have id: "tx_id ?r = key" "tx_status ?r = Signing" by (simp_all add: signingRecord_def)
  have "lifecycle\<^sup>*\<^sup>* Absent Gone"
    using opened dropped by (rule converse_rtranclp_into_rtranclp [OF _ r_into_rtranclp])
  then show ?thesis
    using none fresh id put_get [of ?r ?s k] fresh_none [OF w, of k]
    by (auto simp: view_def advance_def begin_run_def life_now split: option.splits if_splits)
qed

interpretation tx_life: machine_refinement session_init tx_step session_ok "view k" lifecycle for k
proof unfold_locales
  fix w w' assume w: "session_ok w" and "tx_step w w'"
  from this(2) show "lifecycle\<^sup>*\<^sup>* (view k w) (view k w')"
  proof cases
    case (start key now spec chain addr)
    then show ?thesis using begin_view [OF w] by simp
  next
    case (wallet key now a)
    then show ?thesis using on_wallet_writes store_run [OF w wallet(2)] w
      by (auto intro!: writes_view simp: session_ok_def)
  next
    case (receipt key hash now outcome)
    then show ?thesis using on_receipt_writes store_run [OF w receipt(2)] w
      by (auto intro!: writes_view simp: session_ok_def)
  next
    case cleared
    then show ?thesis using fresh_none [OF w, of k]
      by (auto simp: view_def clear_def store_init_def life_now split: option.splits)
  qed
qed

subsection \<open>What a session promises\<close>

text \<open>At every moment of a session the list the interface shows holds at most 30 records, newest
  first, each id once, and exactly the records the store can look up.\<close>
theorem session_records:
  assumes "tx_reachable w"
  shows "length (st_snapshot (ss_store w)) \<le> 30 \<and>
    sorted_wrt (\<lambda>a b. tx_createdAt a \<ge> tx_createdAt b) (st_snapshot (ss_store w)) \<and>
    distinct (map tx_id (st_snapshot (ss_store w))) \<and>
    (\<forall>r. r \<in> set (st_snapshot (ss_store w)) \<longleftrightarrow> js_get (st_records (ss_store w)) (tx_id r) = Some r)"
proof -
  have ok: "store_ok (ss_store w)"
    using tx.inv_reachable assms by (simp add: tx_reachable_def session_ok_def)
  then have own: "own_keys (st_records (ss_store w))" by (simp add: store_ok_def)
  have "sorted (map (\<lambda>r. - tx_createdAt r) (newestFirst rs))" for rs by (simp add: newestFirst_def)
  then have "sorted_wrt (\<lambda>a b. tx_createdAt a \<ge> tx_createdAt b) (newestFirst rs)" for rs by (simp add: sorted_map)
  moreover have "distinct (map tx_id (newestFirst (js_values (st_records (ss_store w)))))"
    using own own_keys_ids [OF own] by (intro newestFirst_ids) (simp add: own_keys_def js_ok_def)
  moreover note store_values [OF ok]
  ultimately show ?thesis using ok by (simp add: store_ok_def MAX_RECORDS_def js_values_def)
qed

text \<open>A run that returns has settled: its record is in one of the four final states, a confirmed
  one with hash, block and no error, any other with the reason. While the store still has the record it
  is that one, whatever the other runs of the session did since.\<close>
theorem returned_record_is_final:
  assumes "tx_reachable w" "ss_runs w k = Some (Returned r)"
  shows "settled_record r \<and> js_get (st_records (ss_store w)) k \<in> {None, Some r}"
proof -
  have ok: "session_ok w" using tx.inv_reachable assms(1) by (simp add: tx_reachable_def)
  then have "js_get (st_records (ss_store w)) k = Some r' \<Longrightarrow> r' = r" for r'
    using store_run [OF ok assms(2)] by auto
  then have "js_get (st_records (ss_store w)) k \<in> {None, Some r}"
    by (cases "js_get (st_records (ss_store w)) k") auto
  then show ?thesis using ok assms(2) by (simp add: session_ok_def)
qed

text \<open>C39. Whatever the runs of a session do, each record moves only along the lifecycle the module
  comment draws, until it is dropped.\<close>
theorem records_follow_the_lifecycle:
  assumes "tx_reachable w" "tx_step\<^sup>*\<^sup>* w w'"
  shows "lifecycle\<^sup>*\<^sup>* (view k w) (view k w')"
  using tx_life.refines [OF assms(2)] tx.inv_reachable assms(1) by (simp add: tx_reachable_def)

lemma last_sort_append:
  assumes "vs \<noteq> []" "last (sort_key f vs) = r" "f n < (f r :: int)"
  shows "last (sort_key f (vs @ [n])) = r"
proof -
  let ?old = "sort_key f vs" and ?new = "sort_key f (vs @ [n])"
  have last: "P (last xs) \<Longrightarrow> xs \<noteq> [] \<Longrightarrow> last (filter P xs) = last xs" for P and xs :: "'a list"
    by (induction xs rule: rev_induct) auto
  have max_last: "x \<in> set xs \<Longrightarrow> f x \<le> f (last (sort_key f xs))" for x xs
  proof -
    assume x: "x \<in> set xs"
    then obtain ys where ys: "sort_key f xs = ys @ [last (sort_key f xs)]"
      by (metis append_butlast_last_id length_greater_0_conv length_pos_if_in_set length_sort)
    have "sorted (map f (sort_key f xs))" by simp
    then have "\<forall>y \<in> set (sort_key f xs). f y \<le> f (last (sort_key f xs))"
      by (subst (asm) (1) ys, subst (1) ys) (auto simp: sorted_append)
    then show ?thesis using x by simp
  qed
  have ne: "?old \<noteq> []" "?new \<noteq> []" using assms(1) by (metis length_0_conv length_sort snoc_eq_iff_butlast)+
  have r: "r \<in> set vs" using assms(1,2) last_in_set [of ?old] by (metis length_0_conv length_sort set_sort)
  have "last ?new \<in> set (vs @ [n])" using last_in_set [of ?new] by (metis length_0_conv length_sort set_sort snoc_eq_iff_butlast)
  then have "f (last ?new) \<le> f r" using max_last [of _ vs] assms(2,3) by auto
  then have top: "f (last ?new) = f r" using max_last [of r "vs @ [n]"] r by auto
  have "filter (\<lambda>x. f x = f r) ?new = filter (\<lambda>x. f x = f r) ?old"
    using assms(3) by (simp add: sort_key_stable)
  moreover have "last (filter (\<lambda>x. f x = f r) ?new) = last ?new"
    using top ne(2) by (intro last)
  moreover have "last (filter (\<lambda>x. f x = f r) ?old) = last ?old"
    using assms(2) ne(1) by (intro last) simp_all
  ultimately show ?thesis using assms(2) by simp
qed

lemma js_set_new: "js_get m k = None \<Longrightarrow> js_values (js_set k v m) = js_values m @ [v]"
  unfolding js_get_def js_set_def js_values_def by (induction m) (auto split: if_splits)

text \<open>In a full list the oldest record makes room for the next run even while its own run waits for
  the receipt; whatever the receipt then says, that run throws instead of returning its record.\<close>
theorem evicted_run_throws:
  assumes "tx_reachable w" "length (st_snapshot (ss_store w)) = 30" "last (st_snapshot (ss_store w)) = r"
    and "tx_createdAt r < now" "ss_runs w k = None"
    and "s = fst (begin_run k spec chain addr now (ss_store w))"
  shows "js_get (st_records s) (tx_id r) = None \<and>
    (\<exists>e. snd (on_receipt (tx_id r) outcome later s) = ThrewError e)"
proof -
  have w: "session_ok w" using tx.inv_reachable assms(1) by (simp add: tx_reachable_def)
  note none = fresh_none [OF this assms(5)]
  have ok: "store_ok (ss_store w)" using w by (simp add: session_ok_def)
  let ?n = "signingRecord k spec chain addr now" and ?vs = "js_values (st_records (ss_store w))"
  have n: "tx_id ?n = k" "tx_createdAt ?n = now" by (simp_all add: signingRecord_def)
  have len: "length ?vs = 30" "last (newestFirst ?vs) = r" using ok assms(2,3) by (simp_all add: store_ok_def)
  have all: "js_values (js_set k ?n (st_records (ss_store w))) = ?vs @ [?n]" using none by (rule js_set_new)
  have "last (newestFirst (?vs @ [?n])) = r"
    unfolding newestFirst_def
    using last_sort_append [of ?vs "\<lambda>r. - tx_createdAt r" r ?n] len assms(4) n
    by (force simp: newestFirst_def)
  moreover have "length (newestFirst (?vs @ [?n])) = Suc 30" using len by simp
  ultimately have "last (drop MAX_RECORDS (newestFirst (?vs @ [?n]))) = r"
    and "drop MAX_RECORDS (newestFirst (?vs @ [?n])) \<noteq> []"
    by (simp_all add: MAX_RECORDS_def)
  then have "r \<in> set (drop MAX_RECORDS (newestFirst (?vs @ [?n])))" using last_in_set by metis
  then have gone: "js_get (st_records s) (tx_id r) = None"
    using all n by (auto simp: assms(6) begin_run_def put_records js_get_def map_of_eq_None_iff)
  then show ?thesis
    by (auto simp: on_receipt_def lostReceipt_def settle_def returned_def split: option.splits)
qed

subsection \<open>Sample sessions\<close>

definition sampleSpec :: TxSpec where "sampleSpec = \<lparr>sp_origin = ''trade'', sp_kind = ''buy''\<rparr>"

fun manyStarts :: "nat \<Rightarrow> TxSession" where
  "manyStarts 0 = session_init"
| "manyStarts (Suc n) = advance (replicate n CHR ''i'') (int n)
     (begin_run (replicate n CHR ''i'') sampleSpec 1 None (int n) (ss_store (manyStarts n))) (manyStarts n)"

lemma manyStarts_runs: "n \<le> m \<Longrightarrow> ss_runs (manyStarts n) (replicate m c) = None"
  by (induction n) (auto simp: advance_def session_init_def dest: arg_cong [of _ _ length])

lemma manyStarts_clock: "ss_clock (manyStarts n) \<le> int n"
  by (cases n) (simp_all add: session_init_def advance_def)

lemma manyStarts_reachable: "tx_reachable (manyStarts n)"
proof (induction n)
  case (Suc n)
  have "tx_step (manyStarts n) (manyStarts (Suc n))"
    unfolding manyStarts.simps using manyStarts_runs manyStarts_clock by (intro tx_step.start) simp_all
  with Suc show ?case by (simp add: tx_reachable_def)
qed (simp add: tx_reachable_def)

definition sampleWallet :: TxSession where
  "sampleWallet = advance [] 7 (on_wallet [] (Signed ''0xab'') 7 (ss_store (manyStarts 1))) (manyStarts 1)"

definition sampleReceipt :: TxSession where
  "sampleReceipt = advance [] 9 (on_receipt [] (Some \<lparr>ro_success = True, ro_blockNumber = 100\<rparr>) 9
     (ss_store sampleWallet)) sampleWallet"

lemma sample_steps: "tx_step (manyStarts 1) sampleWallet" "tx_step sampleWallet sampleReceipt"
proof -
  show "tx_step (manyStarts 1) sampleWallet"
    unfolding sampleWallet_def by (rule tx_step.wallet) (simp_all add: advance_def begin_run_def)
  show "tx_step sampleWallet sampleReceipt"
    unfolding sampleReceipt_def
    by (rule tx_step.receipt) (simp_all add: sampleWallet_def advance_def on_wallet_def)
qed

lemma sample_reachable: "tx_reachable sampleReceipt"
  using manyStarts_reachable [of 1] sample_steps by (simp add: tx_reachable_def)

theorem session_records_witness: "length (st_snapshot (ss_store (manyStarts 40))) \<le> 30"
  using session_records [OF manyStarts_reachable] by blast

theorem returned_record_is_final_witness:
  "\<exists>r. ss_runs sampleReceipt [] = Some (Returned r) \<and> tx_status r = Confirmed \<and> settled_record r"
proof -
  have "case ss_runs sampleReceipt [] of Some (Returned r) \<Rightarrow> tx_status r = Confirmed | _ \<Rightarrow> False" by code_simp
  then obtain r where "ss_runs sampleReceipt [] = Some (Returned r)" "tx_status r = Confirmed"
    by (auto split: option.splits TxRun.splits)
  then show ?thesis using returned_record_is_final [OF sample_reachable] by blast
qed

theorem records_follow_the_lifecycle_witness:
  "view [] (manyStarts 1) = Live Signing \<and> view [] sampleReceipt = Live Confirmed \<and>
   lifecycle\<^sup>*\<^sup>* (view [] (manyStarts 1)) (view [] sampleReceipt)"
proof -
  have "view [] (manyStarts 1) = Live Signing" "view [] sampleReceipt = Live Confirmed" by code_simp+
  then show ?thesis
    using records_follow_the_lifecycle [OF manyStarts_reachable [of 1], of sampleReceipt "[]"] sample_steps
    by (simp add: converse_rtranclp_into_rtranclp r_into_rtranclp)
qed

lemma js_set_append: "js_get m k = None \<Longrightarrow> js_set k v m = m @ [(k, v)]"
  unfolding js_get_def js_set_def by (induction m) (auto split: if_splits)

lemma insort_last: "\<forall>y \<in> set ys. f y < f x \<Longrightarrow> insort_key f x ys = ys @ [x]"
  by (induction ys) auto

lemma manyStarts_records:
  "n \<le> MAX_RECORDS \<Longrightarrow> st_records (ss_store (manyStarts n)) =
     map (\<lambda>i. (replicate i CHR ''i'', signingRecord (replicate i CHR ''i'') sampleSpec 1 None (int i))) [0..<n]"
proof (induction n)
  case 0
  show ?case by (simp add: session_init_def store_init_def js_empty_def)
next
  case (Suc n)
  let ?k = "replicate n CHR ''i''" and ?m = "st_records (ss_store (manyStarts n))"
  have "session_ok (manyStarts n)" using manyStarts_reachable tx.inv_reachable by (simp add: tx_reachable_def)
  then have none: "js_get ?m ?k = None" using fresh_none manyStarts_runs by blast
  have m: "js_set ?k v ?m = ?m @ [(?k, v)]" for v using js_set_append [OF none] .
  have "length (js_values (?m @ [(?k, v)])) \<le> MAX_RECORDS" for v using Suc by (simp add: js_values_def)
  then have "st_records (put (signingRecord ?k sampleSpec 1 None (int n)) (ss_store (manyStarts n))) =
      ?m @ [(?k, signingRecord ?k sampleSpec 1 None (int n))]"
    by (simp add: put_def Let_def m signingRecord_def)
  then show ?case using Suc by (simp add: advance_def begin_run_def)
qed

theorem evicted_run_throws_witness:
  "\<exists>e. snd (on_receipt [] (Some \<lparr>ro_success = True, ro_blockNumber = 100\<rparr>) 50
     (fst (begin_run (replicate 30 CHR ''i'') sampleSpec 1 None 40 (ss_store (manyStarts 30))))) = ThrewError e"
proof -
  let ?rec = "\<lambda>i. signingRecord (replicate i CHR ''i'') sampleSpec 1 None (int i)"
  have "store_ok (ss_store (manyStarts 30))"
    using manyStarts_reachable tx.inv_reachable by (simp add: tx_reachable_def session_ok_def)
  then have snap: "st_snapshot (ss_store (manyStarts 30)) = newestFirst (map ?rec [0..<30])"
    using manyStarts_records [of 30] by (simp add: store_ok_def MAX_RECORDS_def js_values_def comp_def del: upt_rec_numeral)
  have "[0..<30] = 0 # [1..<30]" by (simp add: upt_conv_Cons)
  then have "last (newestFirst (map ?rec [0..<30])) = ?rec 0"
    unfolding newestFirst_def by (simp del: upt_rec_numeral) (subst insort_last, auto simp: signingRecord_def)
  then have last: "last (st_snapshot (ss_store (manyStarts 30))) = ?rec 0"
    and len: "length (st_snapshot (ss_store (manyStarts 30))) = 30" by (simp_all add: snap)
  have new: "ss_runs (manyStarts 30) (replicate 30 CHR ''i'') = None" by (rule manyStarts_runs) simp
  show ?thesis
    using evicted_run_throws [OF manyStarts_reachable len last _ new refl] by (simp add: signingRecord_def)
qed

end
