(* ===== verification/ActionRunner.thy ===== *)
theory ActionRunner
  imports TxStore JsNumber
begin

text \<open>
  apps/web/src/data/web3/action-runner.ts with the action model of apps/web/src/domain/actions.ts and
  \<open>approveSpec\<close> of data/web3/approvals.ts: one user intent driven from its quote to its confirmation.

  As in TxStore the asynchronous \<open>run\<close> is cut at its awaits: the head block, each transaction, the
  simulation and the reconciliation. \<open>begin_action\<close> and the \<open>on_...\<close> definitions are the segments, each
  synchronous and with one reading of the clock; the closures of a plan are the answers they take,
  and \<open>pl_buildSpec\<close>, which is called at signature time, is a function of the instant that may throw.
  The subscribers are left out.
\<close>

datatype ActionOrigin = Trade | Mint | Redeem | Earn | Unearn | PerpOpen | PerpClose | PerpTrigger
  | PerpCancel | PerpClaim

fun originText :: "ActionOrigin \<Rightarrow> string" where
  "originText Trade = ''trade''" | "originText Mint = ''mint''" | "originText Redeem = ''redeem''"
| "originText Earn = ''earn''" | "originText Unearn = ''unearn''" | "originText PerpOpen = ''perp-open''"
| "originText PerpClose = ''perp-close''" | "originText PerpTrigger = ''perp-trigger''"
| "originText PerpCancel = ''perp-cancel''" | "originText PerpClaim = ''perp-claim''"

datatype ActionPhase = Validating | ApprovalRequired | Approving | Simulating | AwaitingSignature
  | SubmittedPhase | Confirming | Reconciling | Complete | FailedPhase | DeclinedPhase | RevertedPhase

definition TERMINAL_PHASES :: "ActionPhase list" where
  "TERMINAL_PHASES = [Complete, FailedPhase, DeclinedPhase, RevertedPhase]"

definition isActionTerminal :: "ActionPhase \<Rightarrow> bool" where
  "isActionTerminal phase = List.member TERMINAL_PHASES phase"

datatype SpenderKind = RouterSpender | GusdSpender | SgusdSpender | StableRouterSpender | PerpEngineSpender

record ApprovalNeed =
  an_token :: string
  an_tokenLabel :: string
  an_spender :: string
  an_spenderKind :: SpenderKind
  an_amount :: int

datatype StepKind = ApproveStep | ActionItself

record ActionStep =
  as_kind :: StepKind
  as_label :: string
  as_txId :: "string option"
  as_hash :: "string option"
  as_done :: bool

record QuoteSnapshot =
  qs_quotedAtMs :: int
  qs_blockNumber :: "int option"
  qs_totals :: "(string \<times> number) list"

record ActionPlan =
  pl_origin :: ActionOrigin
  pl_label :: string
  pl_quote :: "QuoteSnapshot option"
  pl_approvals :: "ApprovalNeed list"
  pl_simulates :: bool
  pl_buildSpec :: "int \<Rightarrow> string + TxSpec"
  pl_reconciles :: bool

record ActionRecord =
  ac_id :: string
  ac_origin :: ActionOrigin
  ac_label :: string
  ac_phase :: ActionPhase
  ac_steps :: "ActionStep list"
  ac_quote :: "QuoteSnapshot option"
  ac_error :: "string option"
  ac_txIds :: "string list"
  ac_indexed :: "string list option"
  ac_createdAt :: int
  ac_updatedAt :: int

definition MAX_QUOTE_AGE_MS :: int where "MAX_QUOTE_AGE_MS = 30000"
definition MAX_QUOTE_AGE_BLOCKS :: int where "MAX_QUOTE_AGE_BLOCKS = 2"

definition STALE_QUOTE_VOICE :: string where \<comment> \<open>a hyphen for the dash\<close>
  "STALE_QUOTE_VOICE = ''Quote expired - review the new quote and try again.''"

definition approveSpec :: "ApprovalNeed \<Rightarrow> string \<Rightarrow> TxSpec" where
  "approveSpec need' origin' = \<lparr>sp_origin = origin', sp_kind = ''approve''\<rparr>"

subsection \<open>The records\<close>

record Runner =
  rn_records :: "(string, ActionRecord) js_map"
  rn_snapshot :: "ActionRecord list"
  rn_readsHead :: bool \<comment> \<open>whether \<open>getBlockNumber\<close> was injected\<close>

definition put :: "ActionRecord \<Rightarrow> Runner \<Rightarrow> Runner" where
  "put record s = (let records = js_set (ac_id record) record (rn_records s)
     in s\<lparr>rn_records := records, rn_snapshot := sort_key (\<lambda>r. - ac_createdAt r) (js_values records)\<rparr>)"

definition clear :: "Runner \<Rightarrow> Runner" where
  "clear s = s\<lparr>rn_records := js_empty, rn_snapshot := []\<rparr>"

definition isActionActive :: "Runner \<Rightarrow> ActionOrigin \<Rightarrow> bool" where
  "isActionActive s origin' =
     list_ex (\<lambda>record. ac_origin record = origin' \<and> \<not> isActionTerminal (ac_phase record)) (rn_snapshot s)"

definition patch :: "string \<Rightarrow> (ActionRecord \<Rightarrow> ActionRecord) \<Rightarrow> int \<Rightarrow> Runner \<Rightarrow> Runner" where
  "patch key upd now s = (case js_get (rn_records s) key of None \<Rightarrow> s
     | Some current \<Rightarrow> put ((upd current)\<lparr>ac_updatedAt := now\<rparr>) s)"

definition settle ::
  "string \<Rightarrow> ActionPhase \<Rightarrow> string option \<Rightarrow> int \<Rightarrow> Runner \<Rightarrow> Runner \<times> (string + ActionRecord)" where
  "settle key phase err now s =
     (let s' = patch key (\<lambda>r. r\<lparr>ac_phase := phase, ac_error := err\<rparr>) now s
      in (s', case js_get (rn_records s') key of
                None \<Rightarrow> Inl (''Unknown action record '' @ key) | Some settled \<Rightarrow> Inr settled))"

definition noteSubmitted :: "string \<Rightarrow> int \<Rightarrow> Runner \<Rightarrow> Runner" where
  "noteSubmitted key now s = (case js_get (rn_records s) key of None \<Rightarrow> s
     | Some current \<Rightarrow> if isActionTerminal (ac_phase current) then s
         else patch key (\<lambda>r. r\<lparr>ac_phase := SubmittedPhase\<rparr>) now s)"

subsection \<open>One run, segment by segment\<close>

datatype ActionPc = AtHead | AtTx nat | AtSimulation | AtReconcile
  | ReturnedAction ActionRecord | RejectedAction string

text \<open>Besides the local \<open>txIds\<close> a run remembers which specifications it has handed to the transaction
  port and which records the port has resolved it with, in their order. The segments only read and
  extend the first of these two histories; the second is written where an answer is delivered.\<close>

record ActionRun =
  ru_plan :: ActionPlan
  ru_txIds :: "string list"
  ru_asked :: "TxSpec list"
  ru_heard :: "TxRecord list"
  ru_pc :: ActionPc

definition settled :: "ActionRun \<Rightarrow> Runner \<times> (string + ActionRecord) \<Rightarrow> Runner \<times> ActionRun" where
  "settled run r = (fst r, run\<lparr>ru_pc := (case snd r of Inl e \<Rightarrow> RejectedAction e | Inr a \<Rightarrow> ReturnedAction a)\<rparr>)"

definition signAction :: "string \<Rightarrow> ActionRun \<Rightarrow> int \<Rightarrow> Runner \<Rightarrow> Runner \<times> ActionRun" where
  "signAction key run now s =
     (let s' = patch key (\<lambda>r. r\<lparr>ac_phase := AwaitingSignature\<rparr>) now s
      in case pl_buildSpec (ru_plan run) now of
           Inl e \<Rightarrow> (s', run\<lparr>ru_pc := RejectedAction e\<rparr>)
         | Inr spec \<Rightarrow> (s', run\<lparr>ru_pc := AtTx (length (pl_approvals (ru_plan run))), ru_asked := ru_asked run @ [spec]\<rparr>))"

definition simulateAction :: "string \<Rightarrow> ActionRun \<Rightarrow> int \<Rightarrow> Runner \<Rightarrow> Runner \<times> ActionRun" where
  "simulateAction key run now s =
     (if pl_simulates (ru_plan run)
      then (patch key (\<lambda>r. r\<lparr>ac_phase := Simulating\<rparr>) now s, run\<lparr>ru_pc := AtSimulation\<rparr>)
      else signAction key run now s)"

definition approveNext :: "string \<Rightarrow> ActionRun \<Rightarrow> nat \<Rightarrow> int \<Rightarrow> Runner \<Rightarrow> Runner \<times> ActionRun" where
  "approveNext key run i now s =
     (let plan = ru_plan run in
      if i < length (pl_approvals plan)
      then (patch key (\<lambda>r. r\<lparr>ac_phase := Approving\<rparr>) now s,
            run\<lparr>ru_pc := AtTx i,
                ru_asked := ru_asked run @ [approveSpec (pl_approvals plan ! i) (originText (pl_origin plan))]\<rparr>)
      else simulateAction key run now s)"

definition initialSteps :: "ActionPlan \<Rightarrow> ActionStep list" where
  "initialSteps plan =
     map (\<lambda>n. \<lparr>as_kind = ApproveStep, as_label = ''Approve '' @ an_tokenLabel n, as_txId = None, as_hash = None,
       as_done = False\<rparr>) (pl_approvals plan) @
     [\<lparr>as_kind = ActionItself, as_label = pl_label plan, as_txId = None, as_hash = None, as_done = False\<rparr>]"

definition newRecord :: "string \<Rightarrow> ActionPlan \<Rightarrow> int \<Rightarrow> ActionRecord" where
  "newRecord key plan now = \<lparr>ac_id = key, ac_origin = pl_origin plan, ac_label = pl_label plan,
     ac_phase = Validating, ac_steps = initialSteps plan, ac_quote = pl_quote plan, ac_error = None,
     ac_txIds = [], ac_indexed = None, ac_createdAt = now, ac_updatedAt = now\<rparr>"

definition begin_action :: "string \<Rightarrow> ActionPlan \<Rightarrow> int \<Rightarrow> Runner \<Rightarrow> Runner \<times> ActionRun" where
  "begin_action key plan now s =
     (let run = \<lparr>ru_plan = plan, ru_txIds = [], ru_asked = [], ru_heard = [], ru_pc = AtHead\<rparr> in
      if isActionActive s (pl_origin plan) then
        (s, run\<lparr>ru_pc := RejectedAction
           ''An action is already in flight here - wait for it to settle before starting another.''\<rparr>)
      else let s1 = put (newRecord key plan now) s in
        case pl_quote plan of
          None \<Rightarrow> approveNext key run 0 now s1
        | Some q \<Rightarrow>
            if now - qs_quotedAtMs q > MAX_QUOTE_AGE_MS
            then settled run (settle key FailedPhase (Some STALE_QUOTE_VOICE) now s1)
            else if qs_blockNumber q \<noteq> None \<and> rn_readsHead s1 then (s1, run)
            else approveNext key run 0 now s1)"

definition on_head :: "string \<Rightarrow> string + int option \<Rightarrow> int \<Rightarrow> ActionRun \<Rightarrow> Runner \<Rightarrow> Runner \<times> ActionRun" where
  "on_head key answer now run s = (case answer of
     Inl e \<Rightarrow> (s, run\<lparr>ru_pc := RejectedAction e\<rparr>)
   | Inr head \<Rightarrow>
       (case (head, Option.bind (pl_quote (ru_plan run)) qs_blockNumber) of
          (Some h, Some b) \<Rightarrow> if h - b > MAX_QUOTE_AGE_BLOCKS
            then settled run (settle key FailedPhase (Some STALE_QUOTE_VOICE) now s)
            else approveNext key run 0 now s
        | _ \<Rightarrow> approveNext key run 0 now s))"

definition on_simulated ::
  "string \<Rightarrow> string + string option \<Rightarrow> int \<Rightarrow> ActionRun \<Rightarrow> Runner \<Rightarrow> Runner \<times> ActionRun" where
  "on_simulated key answer now run s = (case answer of
     Inl e \<Rightarrow> (s, run\<lparr>ru_pc := RejectedAction e\<rparr>)
   | Inr (Some reason) \<Rightarrow> settled run (settle key FailedPhase (Some reason) now s)
   | Inr None \<Rightarrow> signAction key run now s)"

definition reconcileAction :: "string \<Rightarrow> ActionRun \<Rightarrow> int \<Rightarrow> Runner \<Rightarrow> Runner \<times> ActionRun" where
  "reconcileAction key run now s =
     (let s' = patch key (\<lambda>r. r\<lparr>ac_phase := Reconciling\<rparr>) now s in
      if pl_reconciles (ru_plan run) then (s', run\<lparr>ru_pc := AtReconcile\<rparr>)
      else settled run (settle key Complete None now s'))"

text \<open>The result of the reconciliation: None when it threw, else the hashes it saw indexed.\<close>

definition on_reconciled ::
  "string \<Rightarrow> string list option option \<Rightarrow> int \<Rightarrow> ActionRun \<Rightarrow> Runner \<Rightarrow> Runner \<times> ActionRun" where
  "on_reconciled key answer now run s =
     settled run (settle key Complete None now
       (case answer of None \<Rightarrow> s | Some idx \<Rightarrow> patch key (\<lambda>r. r\<lparr>ac_indexed := idx\<rparr>) now s))"

definition linkStep :: "nat \<Rightarrow> TxRecord \<Rightarrow> ActionRecord \<Rightarrow> ActionRecord" where
  "linkStep i tx r = r\<lparr>ac_steps := map (\<lambda>(j, st). if j = i then st\<lparr>as_txId := Some (tx_id tx), as_hash := tx_hash tx\<rparr> else st)
     (enumerate 0 (ac_steps r)), ac_txIds := ac_txIds r @ [tx_id tx]\<rparr>"

definition doneStep :: "nat \<Rightarrow> ActionRecord \<Rightarrow> ActionRecord" where
  "doneStep i r = r\<lparr>ac_steps := map (\<lambda>(j, st). if j = i then st\<lparr>as_done := True\<rparr> else st) (enumerate 0 (ac_steps r))\<rparr>"

definition exitPhase :: "TxStatus \<Rightarrow> ActionPhase" where
  "exitPhase st = (if st = DeclinedTx then DeclinedPhase else if st = RevertedTx then RevertedPhase else FailedPhase)"

text \<open>The answer of the transaction port: the refusal's voice, or the record of the transaction.\<close>

definition on_tx :: "string \<Rightarrow> nat \<Rightarrow> string + TxRecord \<Rightarrow> int \<Rightarrow> ActionRun \<Rightarrow> Runner \<Rightarrow> Runner \<times> ActionRun" where
  "on_tx key i answer now run s = (case answer of
     Inl voice \<Rightarrow> settled run (settle key FailedPhase (Some voice) now s)
   | Inr tx \<Rightarrow>
       let s1 = patch key (linkStep i tx) now s in
       if tx_status tx \<noteq> Confirmed then
         settled run (settle key (exitPhase (tx_status tx))
           (Some (case tx_error tx of Some e \<Rightarrow> e
              | None \<Rightarrow> ''The transaction didn't go through. Try again in a moment.'')) now s1)
       else let s2 = patch key (doneStep i) now s1;
                run' = run\<lparr>ru_txIds := ru_txIds run @ [tx_id tx]\<rparr>
            in if i < length (pl_approvals (ru_plan run)) then approveNext key run' (Suc i) now s2
               else reconcileAction key run' now s2)"

subsection \<open>A session: interleaved runs over a transaction port\<close>

datatype Answer = HeadAnswer "string + int option" | TxAnswer "string + TxRecord"
  | SimulationAnswer "string + string option" | ReconcileAnswer "string list option option"

definition hear :: "string + TxRecord \<Rightarrow> ActionRun \<Rightarrow> ActionRun" where
  "hear answer run = (case answer of Inl _ \<Rightarrow> run | Inr tx \<Rightarrow> run\<lparr>ru_heard := ru_heard run @ [tx]\<rparr>)"

text \<open>The segment an answer resumes; None when nothing waits for it.\<close>

fun deliver :: "string \<Rightarrow> Answer \<Rightarrow> int \<Rightarrow> ActionRun \<Rightarrow> Runner \<Rightarrow> (Runner \<times> ActionRun) option" where
  "deliver key answer now run s = (case (ru_pc run, answer) of
     (AtHead, HeadAnswer a) \<Rightarrow> Some (on_head key a now run s)
   | (AtTx i, TxAnswer a) \<Rightarrow> Some (on_tx key i a now (hear a run) s)
   | (AtSimulation, SimulationAnswer a) \<Rightarrow> Some (on_simulated key a now run s)
   | (AtReconcile, ReconcileAnswer a) \<Rightarrow> Some (on_reconciled key a now run s)
   | _ \<Rightarrow> None)"

record ActionSession =
  se_runner :: Runner
  se_runs :: "string \<Rightarrow> ActionRun option"

definition action_init :: "bool \<Rightarrow> ActionSession" where
  "action_init readsHead =
     \<lparr>se_runner = \<lparr>rn_records = js_empty, rn_snapshot = [], rn_readsHead = readsHead\<rparr>, se_runs = (\<lambda>_. None)\<rparr>"

definition resume :: "string \<Rightarrow> Runner \<times> ActionRun \<Rightarrow> ActionSession \<Rightarrow> ActionSession" where
  "resume key r w = \<lparr>se_runner = fst r, se_runs = (se_runs w)(key \<mapsto> snd r)\<rparr>"

text \<open>What the port resolves to is a parameter: the records its runs can return.\<close>

inductive act_move :: "(TxRecord \<Rightarrow> bool) \<Rightarrow> ActionSession \<Rightarrow> ActionSession \<Rightarrow> bool" for returns where
  start: "se_runs w key = None \<Longrightarrow> act_move returns w (resume key (begin_action key plan now (se_runner w)) w)"
| answer: "se_runs w key = Some run \<Longrightarrow> deliver key a now run (se_runner w) = Some r \<Longrightarrow>
    (\<And>tx. a = TxAnswer (Inr tx) \<Longrightarrow> returns tx) \<Longrightarrow> act_move returns w (resume key r w)"
| submitted: "se_runs w key = Some run \<Longrightarrow> ru_pc run = AtTx (length (pl_approvals (ru_plan run))) \<Longrightarrow>
    act_move returns w (w\<lparr>se_runner := noteSubmitted key now (se_runner w)\<rparr>)"
| follow: "se_runs w key = Some run \<Longrightarrow>
    act_move returns w (w\<lparr>se_runner := patch key (\<lambda>r. r\<lparr>ac_indexed := idx\<rparr>) now (se_runner w)\<rparr>)"

text \<open>Logging out clears the records at any moment.\<close>

inductive act_step :: "(TxRecord \<Rightarrow> bool) \<Rightarrow> ActionSession \<Rightarrow> ActionSession \<Rightarrow> bool" for returns where
  move: "act_move returns w w' \<Longrightarrow> act_step returns w w'"
| logout: "act_step returns w (w\<lparr>se_runner := clear (se_runner w)\<rparr>)"

text \<open>The store of TxStore as the port.\<close>

definition storeReturns :: "TxRecord \<Rightarrow> bool" where
  "storeReturns tx \<longleftrightarrow> (\<exists>w k. tx_reachable w \<and> ss_runs w k = Some (Returned tx))"

definition act_reachable :: "ActionSession \<Rightarrow> bool" where
  "act_reachable w \<longleftrightarrow> (\<exists>readsHead. (act_step storeReturns)\<^sup>*\<^sup>* (action_init readsHead) w)"

end
