(* ===== verification/ActionFacts.thy ===== *)
theory ActionFacts
  imports ActionRunner
begin

text \<open>What the action runner guarantees: one action per surface, terminal phases that never leave,
  signatures in order, complete actions that were confirmed step by step, and runs that end.\<close>

subsection \<open>The records keep their shape\<close>

definition runner_ok :: "Runner \<Rightarrow> bool" where
  "runner_ok s \<longleftrightarrow> js_ok (rn_records s) \<and> (\<forall>k a. js_get (rn_records s) k = Some a \<longrightarrow> ac_id a = k) \<and>
     set (rn_snapshot s) = set (js_values (rn_records s))"

lemma act_put_ok: "runner_ok s \<Longrightarrow> runner_ok (put r s)"
  by (auto simp: runner_ok_def put_def Let_def js_ok_set)

lemma act_put_records [simp]: "rn_records (put r s) = js_set (ac_id r) r (rn_records s)"
  and put_readsHead [simp]: "rn_readsHead (put r s) = rn_readsHead s"
  by (simp_all add: put_def Let_def)

lemma js_set_set: "js_set k a (js_set k b m) = js_set k a m"
  unfolding js_set_def by (induction m) auto

lemma js_set_same: "js_get m k = Some a \<Longrightarrow> js_set k a m = m"
  unfolding js_set_def js_get_def by (induction m) (auto split: if_splits)

text \<open>What a segment of run \<open>key\<close> may do to the records: write its own, when it is there.\<close>

definition touched :: "string \<Rightarrow> Runner \<Rightarrow> Runner \<Rightarrow> bool" where
  "touched key s s' \<longleftrightarrow> runner_ok s' \<and> rn_readsHead s' = rn_readsHead s \<and>
     (case js_get (rn_records s) key of None \<Rightarrow> s' = s
      | Some _ \<Rightarrow> \<exists>a. rn_records s' = js_set key a (rn_records s))"

lemma touched_refl: "runner_ok s \<Longrightarrow> touched key s s"
  by (cases "js_get (rn_records s) key") (auto simp: touched_def intro: js_set_same [symmetric])

lemma touched_trans: "touched key s s1 \<Longrightarrow> touched key s1 s2 \<Longrightarrow> touched key s s2"
  by (auto simp: touched_def js_set_set split: option.splits)

lemma touched_get: "touched key s s' \<Longrightarrow> k \<noteq> key \<Longrightarrow> js_get (rn_records s') k = js_get (rn_records s) k"
  and touched_none: "touched key s s' \<Longrightarrow> js_get (rn_records s') key = None \<longleftrightarrow> js_get (rn_records s) key = None"
  by (auto simp: touched_def split: option.splits)

lemma patch_touched:
  assumes "runner_ok s" "\<And>a. ac_id (f a) = ac_id a"
  shows "touched key s (patch key f now s)"
proof (cases "js_get (rn_records s) key")
  case None
  then show ?thesis using assms(1) touched_refl by (simp add: patch_def)
next
  case (Some a)
  then have "ac_id a = key" using assms(1) by (simp add: runner_ok_def)
  then show ?thesis using Some assms act_put_ok by (auto simp: touched_def patch_def)
qed

lemma patch_get:
  assumes "runner_ok s" "\<And>a. ac_id (f a) = ac_id a"
  shows "js_get (rn_records (patch key f now s)) key =
    map_option (\<lambda>a. (f a)\<lparr>ac_updatedAt := now\<rparr>) (js_get (rn_records s) key)"
proof (cases "js_get (rn_records s) key")
  case (Some a)
  then have "ac_id a = key" using assms(1) by (simp add: runner_ok_def)
  then show ?thesis using Some assms(2) by (simp add: patch_def)
qed (simp add: patch_def)

subsection \<open>A run and its record\<close>

abbreviation approvals_of :: "ActionRun \<Rightarrow> nat" where
  "approvals_of run \<equiv> length (pl_approvals (ru_plan run))"

text \<open>The first \<open>i\<close> steps are confirmed, each by the record the port answered it with, no other is done.\<close>

definition step_of :: "TxRecord \<Rightarrow> ActionStep \<Rightarrow> bool" where
  "step_of tx st \<longleftrightarrow> tx_status tx = Confirmed \<and> tx_hash tx \<noteq> None \<and> as_hash st = tx_hash tx \<and>
     as_txId st = Some (tx_id tx)"

definition progress :: "nat \<Rightarrow> ActionRun \<Rightarrow> ActionRecord \<Rightarrow> bool" where
  "progress i run a \<longleftrightarrow> length (ac_steps a) = Suc (approvals_of run) \<and> i \<le> Suc (approvals_of run) \<and>
     (\<forall>j < Suc (approvals_of run). as_done (ac_steps a ! j) = (j < i)) \<and>
     (\<forall>j < i. step_of (ru_heard run ! j) (ac_steps a ! j)) \<and> length (ru_heard run) = i \<and>
     ac_txIds a = map tx_id (ru_heard run)"

definition asked :: "nat \<Rightarrow> ActionRun \<Rightarrow> bool" where
  "asked m run \<longleftrightarrow> length (ru_asked run) = m \<and> m \<le> Suc (approvals_of run) \<and> take (approvals_of run) (ru_asked run) =
     take m (map (\<lambda>n. approveSpec n (originText (pl_origin (ru_plan run)))) (pl_approvals (ru_plan run)))"

fun asked_state :: "ActionPc \<Rightarrow> ActionRun \<Rightarrow> bool" where
  "asked_state AtHead run \<longleftrightarrow> asked 0 run"
| "asked_state (AtTx i) run \<longleftrightarrow> i \<le> approvals_of run \<and> asked (Suc i) run"
| "asked_state AtSimulation run \<longleftrightarrow> asked (approvals_of run) run"
| "asked_state AtReconcile run \<longleftrightarrow> asked (Suc (approvals_of run)) run"
| "asked_state (ReturnedAction _) run \<longleftrightarrow> (\<exists>m. asked m run)"
| "asked_state (RejectedAction _) run \<longleftrightarrow> (\<exists>m. asked m run)"

definition same_outcome :: "ActionRecord \<Rightarrow> ActionRecord \<Rightarrow> bool" where
  "same_outcome a b \<longleftrightarrow> a\<lparr>ac_indexed := None, ac_updatedAt := 0\<rparr> = b\<lparr>ac_indexed := None, ac_updatedAt := 0\<rparr>"

fun pc_fits :: "ActionPc \<Rightarrow> ActionRun \<Rightarrow> ActionRecord \<Rightarrow> bool" where
  "pc_fits AtHead run a \<longleftrightarrow> \<not> isActionTerminal (ac_phase a) \<and> progress 0 run a"
| "pc_fits (AtTx i) run a \<longleftrightarrow> \<not> isActionTerminal (ac_phase a) \<and> progress i run a"
| "pc_fits AtSimulation run a \<longleftrightarrow> \<not> isActionTerminal (ac_phase a) \<and> progress (approvals_of run) run a"
| "pc_fits AtReconcile run a \<longleftrightarrow> \<not> isActionTerminal (ac_phase a) \<and> progress (Suc (approvals_of run)) run a"
| "pc_fits (ReturnedAction a') run a \<longleftrightarrow> isActionTerminal (ac_phase a) \<and> same_outcome a a' \<and>
     (ac_phase a = Complete \<longrightarrow> progress (Suc (approvals_of run)) run a)"
| "pc_fits (RejectedAction e) run a \<longleftrightarrow> \<not> isActionTerminal (ac_phase a)"

definition fits_run :: "ActionRun \<Rightarrow> ActionRecord \<Rightarrow> bool" where
  "fits_run run a \<longleftrightarrow> ac_origin a = pl_origin (ru_plan run) \<and> pc_fits (ru_pc run) run a"

text \<open>A segment ends well: it touched only its record, which fits the point the run has reached.\<close>

definition ends :: "string \<Rightarrow> ActionPlan \<Rightarrow> Runner \<Rightarrow> Runner \<times> ActionRun \<Rightarrow> bool" where
  "ends key plan s res \<longleftrightarrow> touched key s (fst res) \<and> ru_plan (snd res) = plan \<and>
     asked_state (ru_pc (snd res)) (snd res) \<and>
     (\<forall>a. js_get (rn_records (fst res)) key = Some a \<longrightarrow> fits_run (snd res) a)"

lemma ends_from: "touched key s s1 \<Longrightarrow> ends key plan s1 res \<Longrightarrow> ends key plan s res"
  using touched_trans by (auto simp: ends_def)

text \<open>Ready to go on: \<open>i\<close> steps confirmed, \<open>m\<close> specifications asked for.\<close>

definition ready :: "nat \<Rightarrow> nat \<Rightarrow> string \<Rightarrow> ActionRun \<Rightarrow> Runner \<Rightarrow> bool" where
  "ready i m key run s \<longleftrightarrow> runner_ok s \<and> asked m run \<and>
     (\<forall>a. js_get (rn_records s) key = Some a \<longrightarrow>
        ac_origin a = pl_origin (ru_plan run) \<and> \<not> isActionTerminal (ac_phase a) \<and> progress i run a)"

lemma phases: "isActionTerminal ph \<longleftrightarrow> ph \<in> {Complete, FailedPhase, DeclinedPhase, RevertedPhase}"
  by (auto simp: isActionTerminal_def TERMINAL_PHASES_def)

lemma ready_phase:
  assumes "ready i m key run s" "\<not> isActionTerminal ph"
  shows "ready i m key run (patch key (\<lambda>r. r\<lparr>ac_phase := ph\<rparr>) now s)"
    and "touched key s (patch key (\<lambda>r. r\<lparr>ac_phase := ph\<rparr>) now s)"
  using assms patch_touched [of s "\<lambda>r. r\<lparr>ac_phase := ph\<rparr>" key now]
  by (auto simp: ready_def patch_get progress_def touched_def)

lemma pc_only: "progress i (run\<lparr>ru_pc := pc\<rparr>) a = progress i run a"
  "progress i (run\<lparr>ru_asked := l\<rparr>) a = progress i run a" "asked m (run\<lparr>ru_pc := pc\<rparr>) = asked m run"
  by (simp_all add: progress_def asked_def)

lemma settle_ends:
  assumes "runner_ok s" "\<exists>m. asked m run" "isActionTerminal ph"
    and "\<And>a. js_get (rn_records s) key = Some a \<Longrightarrow> ac_origin a = pl_origin (ru_plan run) \<and>
      (ph = Complete \<longrightarrow> progress (Suc (approvals_of run)) run a)"
  shows "ends key (ru_plan run) s (settled run (settle key ph err now s))"
  using assms patch_touched [of s "\<lambda>r. r\<lparr>ac_phase := ph, ac_error := err\<rparr>" key now]
  by (auto simp: ends_def settled_def settle_def Let_def patch_get fits_run_def pc_only same_outcome_def
      progress_def split: option.splits)

lemma sign_ends:
  assumes "ready (approvals_of run) (approvals_of run) key run s"
  shows "ends key (ru_plan run) s (signAction key run now s)"
proof -
  have "\<not> isActionTerminal AwaitingSignature" by (simp add: phases)
  note rp = ready_phase [OF assms this, of now]
  then show ?thesis
    by (auto simp: ends_def signAction_def Let_def ready_def fits_run_def pc_only asked_def progress_def
        split: sum.splits)
qed

lemma simulate_ends:
  assumes "ready (approvals_of run) (approvals_of run) key run s"
  shows "ends key (ru_plan run) s (simulateAction key run now s)"
proof -
  have "\<not> isActionTerminal Simulating" by (simp add: phases)
  note rp = ready_phase [OF assms this, of now]
  then show ?thesis
    using sign_ends [OF assms] by (auto simp: simulateAction_def ends_def ready_def fits_run_def pc_only)
qed

lemma approve_ends:
  assumes "ready i i key run s" "i \<le> approvals_of run"
  shows "ends key (ru_plan run) s (approveNext key run i now s)"
proof (cases "i < approvals_of run")
  case True
  have "\<not> isActionTerminal Approving" by (simp add: phases)
  note rp = ready_phase [OF assms(1) this, of now]
  then show ?thesis
    using True by (auto simp: approveNext_def Let_def ends_def ready_def fits_run_def pc_only asked_def take_Suc_conv_app_nth)
next
  case False
  then show ?thesis using assms simulate_ends by (simp add: approveNext_def Let_def)
qed

lemma step_fields [simp]:
  "ac_origin (linkStep i tx a) = ac_origin a" "ac_phase (linkStep i tx a) = ac_phase a" "ac_id (linkStep i tx a) = ac_id a"
  "ac_origin (doneStep i a) = ac_origin a" "ac_phase (doneStep i a) = ac_phase a" "ac_id (doneStep i a) = ac_id a"
  by (simp_all add: linkStep_def doneStep_def)

lemma confirmed_progress:
  assumes "progress i run a" "i \<le> approvals_of run" "tx_hash tx \<noteq> None" "tx_status tx = Confirmed"
  shows "progress (Suc i) (run\<lparr>ru_heard := ru_heard run @ [tx], ru_txIds := ids\<rparr>)
    ((doneStep i ((linkStep i tx a)\<lparr>ac_updatedAt := t\<rparr>))\<lparr>ac_updatedAt := t'\<rparr>)"
proof -
  let ?b = "(doneStep i ((linkStep i tx a)\<lparr>ac_updatedAt := t\<rparr>))\<lparr>ac_updatedAt := t'\<rparr>"
  have len: "length (ac_steps a) = Suc (approvals_of run)" "length (ac_steps ?b) = Suc (approvals_of run)"
    "length (ru_heard run) = i"
    using assms(1) by (simp_all add: progress_def doneStep_def linkStep_def)
  have nth: "ac_steps ?b ! j = (if j = i
      then (ac_steps a ! i)\<lparr>as_txId := Some (tx_id tx), as_hash := tx_hash tx, as_done := True\<rparr> else ac_steps a ! j)"
    if "j < Suc (approvals_of run)" for j
    using that len(1) by (simp add: doneStep_def linkStep_def nth_enumerate_eq)
  have ids: "ac_txIds ?b = map tx_id (ru_heard run @ [tx])"
    using assms(1) by (simp add: progress_def doneStep_def linkStep_def)
  have linked: "step_of ((ru_heard run @ [tx]) ! j) (ac_steps ?b ! j)" if "j < Suc i" for j
  proof (cases "j = i")
    case True
    then show ?thesis using assms(2-4) nth [of i] len(3) by (simp add: step_of_def nth_append)
  next
    case False
    then have j: "j < i" using that by simp
    then have "step_of (ru_heard run ! j) (ac_steps a ! j)" using assms(1) by (simp add: progress_def)
    then show ?thesis using j nth [of j] assms(2) len(3) by (simp add: nth_append)
  qed
  have marks: "as_done (ac_steps ?b ! j) = (j < Suc i)" if "j < Suc (approvals_of run)" for j
    using that nth [of j] assms(1) by (auto simp: progress_def)
  show ?thesis
    unfolding progress_def using len(2,3) linked marks ids assms(2) by simp
qed

lemma tx_ends:
  assumes r: "ready i (Suc i) key run s" and i: "i \<le> approvals_of run"
    and tx: "\<And>tx. answer = Inr tx \<Longrightarrow> settled_record tx"
  shows "ends key (ru_plan run) s (on_tx key i answer now (hear answer run) s)"
proof (cases answer)
  case (Inl voice)
  then show ?thesis
    using r by (auto simp: on_tx_def hear_def ready_def phases intro!: settle_ends)
next
  case (Inr tx)
  let ?s1 = "patch key (linkStep i tx) now s" and ?heard = "run\<lparr>ru_heard := ru_heard run @ [tx]\<rparr>"
  have ok: "runner_ok s" "\<And>a. ac_id (linkStep i tx a) = ac_id a" "\<And>a. ac_id (doneStep i a) = ac_id a"
    using r by (simp_all add: ready_def linkStep_def doneStep_def)
  note t1 = patch_touched [OF ok(1,2), of key now]
  have g1: "js_get (rn_records ?s1) key =
      map_option (\<lambda>a. (linkStep i tx a)\<lparr>ac_updatedAt := now\<rparr>) (js_get (rn_records s) key)"
    using patch_get [OF ok(1), of "linkStep i tx"] by simp
  have ok1: "runner_ok ?s1" using t1 by (simp add: touched_def)
  show ?thesis
  proof (cases "tx_status tx = Confirmed")
    case False
    have "ends key (ru_plan ?heard) ?s1 (settled ?heard (settle key (exitPhase (tx_status tx)) v now ?s1))" for v
      using r ok1 by (intro settle_ends) (auto simp: phases exitPhase_def ready_def g1 asked_def)
    then show ?thesis using ends_from [OF t1] False by (simp add: on_tx_def hear_def Inr Let_def)
  next
    case True
    let ?s2 = "patch key (doneStep i) now ?s1" and ?run = "?heard\<lparr>ru_txIds := ru_txIds run @ [tx_id tx]\<rparr>"
    note t2 = touched_trans [OF t1 patch_touched [OF ok1 ok(3), of key now]]
    have ok2: "runner_ok ?s2" using t2 by (simp add: touched_def)
    have hash: "tx_hash tx \<noteq> None" using tx [OF Inr] True by (simp add: settled_record_def)
    have g2: "js_get (rn_records ?s2) key = map_option
        (\<lambda>a. (doneStep i ((linkStep i tx a)\<lparr>ac_updatedAt := now\<rparr>))\<lparr>ac_updatedAt := now\<rparr>) (js_get (rn_records s) key)"
      using patch_get [OF ok1, of "doneStep i"] by (simp add: g1 option.map_comp comp_def)
    have rdy: "ready (Suc i) (Suc i) key ?run ?s2"
      using r ok2 confirmed_progress [OF _ i hash True] by (auto simp: ready_def g2 asked_def)
    show ?thesis
    proof (cases "i < approvals_of run")
      case True
      then show ?thesis
        using ends_from [OF t2 approve_ends [OF rdy, of now, simplified]] \<open>tx_status tx = Confirmed\<close>
        by (simp add: on_tx_def hear_def Inr Let_def)
    next
      case False
      have full: "i = approvals_of run" using i False by simp
      have "\<not> isActionTerminal Reconciling" by (simp add: phases)
      note rp = ready_phase [OF rdy this, of now]
      have "ends key (ru_plan run) ?s2 (reconcileAction key ?run now ?s2)"
      proof (cases "pl_reconciles (ru_plan run)")
        case True
        then show ?thesis
          using rp by (auto simp: reconcileAction_def ends_def ready_def fits_run_def pc_only full [symmetric])
      next
        case False
        have "ends key (ru_plan ?run) (patch key (\<lambda>r. r\<lparr>ac_phase := Reconciling\<rparr>) now ?s2)
            (settled ?run (settle key Complete None now (patch key (\<lambda>r. r\<lparr>ac_phase := Reconciling\<rparr>) now ?s2)))"
          using rp(1) by (intro settle_ends) (auto simp: ready_def phases full [symmetric])
        then show ?thesis using ends_from [OF rp(2)] False by (simp add: reconcileAction_def Let_def)
      qed
      then show ?thesis
        using ends_from [OF t2] \<open>tx_status tx = Confirmed\<close> full by (simp add: on_tx_def hear_def Inr Let_def)
    qed
  qed
qed

lemma reject_ends:
  assumes "ready i m key run s"
  shows "ends key (ru_plan run) s (s, run\<lparr>ru_pc := RejectedAction e\<rparr>)"
  using assms touched_refl by (auto simp: ends_def ready_def fits_run_def pc_only)

lemma deliver_ends:
  assumes ok: "runner_ok s" "asked_state (ru_pc run) run"
    and fit: "\<And>a. js_get (rn_records s) key = Some a \<Longrightarrow> fits_run run a"
    and del: "deliver key ans now run s = Some res" and tx: "\<And>tx. ans = TxAnswer (Inr tx) \<Longrightarrow> settled_record tx"
  shows "ends key (ru_plan run) s res"
proof (cases "ru_pc run")
  case AtHead
  then have r: "ready 0 0 key run s" using ok fit by (auto simp: ready_def fits_run_def)
  have stale: "ends key (ru_plan run) s (settled run (settle key FailedPhase v now s))" for v
    using r by (intro settle_ends) (auto simp: ready_def phases)
  show ?thesis using del AtHead reject_ends [OF r] approve_ends [OF r] stale
    by (auto simp: on_head_def split: Answer.splits sum.splits option.splits)
next
  case (AtTx i)
  then have "ready i (Suc i) key run s" "i \<le> approvals_of run" using ok fit by (auto simp: ready_def fits_run_def)
  then show ?thesis using del AtTx tx tx_ends by (auto split: Answer.splits)
next
  case AtSimulation
  then have r: "ready (approvals_of run) (approvals_of run) key run s" using ok fit by (auto simp: ready_def fits_run_def)
  have "ends key (ru_plan run) s (settled run (settle key FailedPhase v now s))" for v
    using r by (intro settle_ends) (auto simp: ready_def phases)
  then show ?thesis using del AtSimulation reject_ends [OF r] sign_ends [OF r]
    by (auto simp: on_simulated_def split: Answer.splits sum.splits option.splits)
next
  case AtReconcile
  then have r: "ready (Suc (approvals_of run)) (Suc (approvals_of run)) key run s"
    using ok fit by (auto simp: ready_def fits_run_def)
  have fin: "ends key (ru_plan run) s' (settled run (settle key Complete None now s'))"
    if "ready (Suc (approvals_of run)) (Suc (approvals_of run)) key run s'" for s'
    using that by (intro settle_ends) (auto simp: ready_def phases)
  have idx: "ready (Suc (approvals_of run)) (Suc (approvals_of run)) key run (patch key (\<lambda>r. r\<lparr>ac_indexed := idx\<rparr>) now s)"
    "touched key s (patch key (\<lambda>r. r\<lparr>ac_indexed := idx\<rparr>) now s)" for idx
    using r patch_touched [of s "\<lambda>r. r\<lparr>ac_indexed := idx\<rparr>" key now]
    by (auto simp: ready_def patch_get progress_def touched_def)
  show ?thesis using del AtReconcile fin [OF r] ends_from [OF idx(2) fin [OF idx(1)]]
    by (auto simp: on_reconciled_def split: Answer.splits option.splits)
qed (use del in \<open>auto split: Answer.splits\<close>)

text \<open>No segment writes the history of answers.\<close>

lemma heard_kept [simp]:
  "ru_heard (snd (settled run r)) = ru_heard run"
  "ru_heard (snd (signAction key run now s)) = ru_heard run"
  "ru_heard (snd (simulateAction key run now s)) = ru_heard run"
  "ru_heard (snd (approveNext key run i now s)) = ru_heard run"
  "ru_heard (snd (reconcileAction key run now s)) = ru_heard run"
  "ru_heard (snd (begin_action key plan now s)) = []"
  by (simp_all add: settled_def signAction_def simulateAction_def approveNext_def reconcileAction_def begin_action_def
      Let_def split: sum.split option.split)

lemma deliver_heard:
  assumes "deliver key ans now run s = Some r"
  shows "ru_heard (snd r) = ru_heard run @ (case ans of TxAnswer (Inr tx) \<Rightarrow> [tx] | _ \<Rightarrow> [])"
  using assms
  by (auto simp: on_head_def on_tx_def on_simulated_def on_reconciled_def hear_def Let_def
      split: ActionPc.splits Answer.splits sum.splits option.splits if_splits)

subsection \<open>The session\<close>

definition one_per_surface :: "ActionSession \<Rightarrow> bool" where
  "one_per_surface w \<longleftrightarrow> (\<forall>k k' a a'. js_get (rn_records (se_runner w)) k = Some a \<longrightarrow>
     js_get (rn_records (se_runner w)) k' = Some a' \<longrightarrow> ac_origin a = ac_origin a' \<longrightarrow>
     \<not> isActionTerminal (ac_phase a) \<longrightarrow> \<not> isActionTerminal (ac_phase a') \<longrightarrow> k = k')"

definition act_ok :: "ActionSession \<Rightarrow> bool" where
  "act_ok w \<longleftrightarrow> runner_ok (se_runner w) \<and> one_per_surface w \<and>
     (\<forall>k a. js_get (rn_records (se_runner w)) k = Some a \<longrightarrow> (\<exists>run. se_runs w k = Some run \<and> fits_run run a)) \<and>
     (\<forall>k run. se_runs w k = Some run \<longrightarrow> asked_state (ru_pc run) run)"

lemma act_fits: "act_ok w \<Longrightarrow> se_runs w k = Some run \<Longrightarrow> js_get (rn_records (se_runner w)) k = Some a \<Longrightarrow> fits_run run a"
  by (force simp: act_ok_def)

lemma act_runs: "act_ok w \<Longrightarrow> se_runs w k = None \<Longrightarrow> js_get (rn_records (se_runner w)) k = None"
  unfolding act_ok_def by (metis not_None_eq)

lemma act_asked: "act_ok w \<Longrightarrow> se_runs w k = Some run \<Longrightarrow> asked_state (ru_pc run) run"
  by (simp add: act_ok_def)

text \<open>A waiting run has an open record.\<close>

definition waiting :: "ActionRun \<Rightarrow> bool" where
  "waiting run \<longleftrightarrow> (case ru_pc run of ReturnedAction _ \<Rightarrow> False | RejectedAction _ \<Rightarrow> False | _ \<Rightarrow> True)"

lemma waiting_open: "fits_run run a \<Longrightarrow> waiting run \<Longrightarrow> \<not> isActionTerminal (ac_phase a)"
  by (auto simp: fits_run_def waiting_def split: ActionPc.splits)

text \<open>The general step: run \<open>key\<close> touches its record, keeps its plan, and does not reopen it.\<close>

lemma act_ok_touched:
  assumes w: "act_ok w" and run: "se_runs w key = Some run"
    and t: "touched key (se_runner w) s'" and plan: "ru_plan run' = ru_plan run"
    and state: "asked_state (ru_pc run') run'"
    and fit: "\<And>a. js_get (rn_records s') key = Some a \<Longrightarrow> fits_run run' a"
    and keep: "\<And>a a'. js_get (rn_records (se_runner w)) key = Some a \<Longrightarrow> isActionTerminal (ac_phase a) \<Longrightarrow>
      js_get (rn_records s') key = Some a' \<Longrightarrow> isActionTerminal (ac_phase a')"
  shows "act_ok (resume key (s', run') w)"
proof -
  have old: "\<exists>a. js_get (rn_records (se_runner w)) k = Some a \<and> ac_origin a = ac_origin a' \<and>
      (\<not> isActionTerminal (ac_phase a') \<longrightarrow> \<not> isActionTerminal (ac_phase a))"
    if new: "js_get (rn_records s') k = Some a'" for k a'
  proof (cases "k = key")
    case True
    then obtain a where a: "js_get (rn_records (se_runner w)) key = Some a"
      using new touched_none [OF t] by (cases "js_get (rn_records (se_runner w)) key") auto
    then show ?thesis
      using True new keep [OF a] fit [of a'] act_fits [OF w run a] plan by (auto simp: fits_run_def)
  qed (use new touched_get [OF t] in auto)
  have "one_per_surface (resume key (s', run') w)"
    unfolding one_per_surface_def resume_def
  proof (simp, intro allI impI)
    fix k k' a a'
    assume get: "js_get (rn_records s') k = Some a" "js_get (rn_records s') k' = Some a'"
      and "ac_origin a = ac_origin a'" "\<not> isActionTerminal (ac_phase a)" "\<not> isActionTerminal (ac_phase a')"
    then obtain b b' where "js_get (rn_records (se_runner w)) k = Some b" "js_get (rn_records (se_runner w)) k' = Some b'"
      "ac_origin b = ac_origin b'" "\<not> isActionTerminal (ac_phase b)" "\<not> isActionTerminal (ac_phase b')"
      using old [OF get(1)] old [OF get(2)] by metis
    then show "k = k'" using w unfolding act_ok_def one_per_surface_def by blast
  qed
  moreover have "\<exists>run''. ((se_runs w)(key \<mapsto> run')) k = Some run'' \<and> fits_run run'' a"
    if new: "js_get (rn_records s') k = Some a" for k a
    using new fit touched_get [OF t] w by (cases "k = key") (auto simp: act_ok_def)
  ultimately show ?thesis using w t state by (auto simp: act_ok_def resume_def touched_def)
qed

lemma resume_same: "se_runs w key = Some run \<Longrightarrow> resume key (s', run) w = w\<lparr>se_runner := s'\<rparr>"
  by (cases w) (simp add: resume_def fun_upd_idem)

lemma deliver_waiting: "deliver key ans now run s = Some r \<Longrightarrow> waiting run"
  by (auto simp: waiting_def split: ActionPc.splits Answer.splits)

abbreviation fresh_run :: "ActionPlan \<Rightarrow> ActionRun" where
  "fresh_run plan \<equiv> \<lparr>ru_plan = plan, ru_txIds = [], ru_asked = [], ru_heard = [], ru_pc = AtHead\<rparr>"

declare deliver.simps [simp del]

lemma new_record:
  "ac_id (newRecord key plan now) = key" "ac_origin (newRecord key plan now) = pl_origin plan"
  "asked 0 (fresh_run plan)" "fits_run (fresh_run plan) (newRecord key plan now)"
proof -
  have "progress 0 (fresh_run plan) (newRecord key plan now)"
    by (auto simp: progress_def newRecord_def initialSteps_def nth_append)
  then show "fits_run (fresh_run plan) (newRecord key plan now)"
    by (simp add: fits_run_def phases, simp add: newRecord_def)
qed (simp_all add: newRecord_def asked_def)

text \<open>A run that is not refused goes on from the store with its new record.\<close>

lemma begin_ends:
  assumes ok: "runner_ok s" and free: "\<not> isActionActive s (pl_origin plan)"
  shows "ends key plan (put (newRecord key plan now) s) (begin_action key plan now s)"
proof -
  let ?run = "fresh_run plan" and ?s1 = "put (newRecord key plan now) s"
  note new = new_record
  have r: "ready 0 0 key ?run ?s1"
    using new act_put_ok [OF ok] by (auto simp: ready_def fits_run_def)
  have stale: "ends key (ru_plan ?run) ?s1 (settled ?run (settle key FailedPhase v now ?s1))" for v
    using r by (intro settle_ends) (auto simp: ready_def phases)
  have stay: "ends key plan ?s1 (?s1, ?run)"
    using r new touched_refl by (auto simp: ends_def ready_def)
  show ?thesis
    using free stale approve_ends [OF r] stay by (auto simp: begin_action_def Let_def split: option.splits)
qed

lemma begin_ok:
  assumes w: "act_ok w" and fresh: "se_runs w key = None"
  shows "act_ok (resume key (begin_action key plan now (se_runner w)) w)"
proof (cases "isActionActive (se_runner w) (pl_origin plan)")
  case True
  then show ?thesis
    using w act_runs [OF w fresh] by (auto simp: act_ok_def resume_def begin_action_def one_per_surface_def asked_def)
next
  case False
  let ?run = "fresh_run plan"
  let ?w1 = "resume key (put (newRecord key plan now) (se_runner w), ?run) w"
  note new = new_record
  have ok: "runner_ok (se_runner w)" using w by (simp add: act_ok_def)
  then have vals: "set (rn_snapshot (se_runner w)) = set (js_values (rn_records (se_runner w)))"
    and okm: "js_ok (rn_records (se_runner w))" by (simp_all add: runner_ok_def)
  have closed: "isActionTerminal (ac_phase a)"
    if "js_get (rn_records (se_runner w)) k = Some a" "ac_origin a = pl_origin plan" for k a
    using that False js_values_get [OF okm, of a] vals by (auto simp: isActionActive_def list_ex_iff)
  have "one_per_surface ?w1"
    using w closed new by (auto simp: one_per_surface_def resume_def act_ok_def)
  then have w1: "act_ok ?w1"
    using w new act_put_ok by (auto simp: act_ok_def resume_def)
  have e: "ends key plan (se_runner ?w1) (begin_action key plan now (se_runner w))"
    using begin_ends [OF ok False] by (simp add: resume_def)
  have "act_ok (resume key (fst (begin_action key plan now (se_runner w)), snd (begin_action key plan now (se_runner w))) ?w1)"
    using e new by (intro act_ok_touched [OF w1, of key ?run]) (auto simp: ends_def resume_def fits_run_def)
  then show ?thesis by (simp add: resume_def)
qed

lemma begin_others:
  assumes "runner_ok s" "k \<noteq> key"
  shows "js_get (rn_records (fst (begin_action key plan now s))) k = js_get (rn_records s) k"
proof (cases "isActionActive s (pl_origin plan)")
  case True
  then show ?thesis by (simp add: begin_action_def)
next
  case False
  then have "touched key (put (newRecord key plan now) s) (fst (begin_action key plan now s))"
    using begin_ends [OF assms(1)] by (simp add: ends_def)
  from touched_get [OF this assms(2)] show ?thesis using assms(2) new_record(1) by simp
qed

lemma clear_ok: "act_ok w \<Longrightarrow> act_ok (w\<lparr>se_runner := clear (se_runner w)\<rparr>)"
  by (auto simp: act_ok_def one_per_surface_def runner_ok_def clear_def js_ok_empty, simp add: js_values_def js_empty_def)

lemma start_ok: "act_ok (action_init h)"
  by (auto simp: act_ok_def one_per_surface_def runner_ok_def action_init_def js_ok_empty,
      simp add: js_values_def js_empty_def)

text \<open>The contract of the transaction port: what its runs return has settled.\<close>

locale tx_port =
  fixes returns :: "TxRecord \<Rightarrow> bool"
  assumes returns_settled: "returns tx \<Longrightarrow> settled_record tx"
begin

lemma move_ok:
  assumes w: "act_ok w" and "act_move returns w w'"
  shows "act_ok w'"
  using assms(2)
proof cases
  case (start key plan now)
  then show ?thesis using begin_ok [OF w] by simp
next
  case (answer key run a now r)
  have "ends key (ru_plan run) (se_runner w) r"
    using w answer returns_settled act_fits [OF w answer(2)] by (intro deliver_ends) (auto simp: act_ok_def)
  then have "act_ok (resume key (fst r, snd r) w)"
    using act_fits [OF w answer(2)] waiting_open [OF _ deliver_waiting [OF answer(3)]]
    by (intro act_ok_touched [OF w answer(2)]) (auto simp: ends_def)
  then show ?thesis using answer by simp
next
  case (submitted key run now)
  have "act_ok (resume key (noteSubmitted key now (se_runner w), run) w)"
  proof -
    have ok: "runner_ok (se_runner w)" using w by (simp add: act_ok_def)
    have "\<not> isActionTerminal SubmittedPhase" by (simp add: phases)
    then show ?thesis
      using w submitted act_asked [OF w submitted(2)] patch_touched [OF ok, of "\<lambda>r. r\<lparr>ac_phase := SubmittedPhase\<rparr>" key now] touched_refl [OF ok]
        patch_get [OF ok, of "\<lambda>r. r\<lparr>ac_phase := SubmittedPhase\<rparr>" key now] act_fits [OF w submitted(2)]
      by (intro act_ok_touched [OF w submitted(2)])
        (auto simp: noteSubmitted_def act_ok_def fits_run_def progress_def split: option.splits if_splits)
  qed
  then show ?thesis using submitted resume_same by simp
next
  case (follow key run idx now)
  have ok: "runner_ok (se_runner w)" using w by (simp add: act_ok_def)
  have fit: "fits_run run a \<Longrightarrow> fits_run run (a\<lparr>ac_indexed := idx, ac_updatedAt := now\<rparr>)" for a
    by (cases "ru_pc run") (auto simp: fits_run_def progress_def same_outcome_def)
  have "act_ok (resume key (patch key (\<lambda>r. r\<lparr>ac_indexed := idx\<rparr>) now (se_runner w), run) w)"
    using w follow patch_touched [OF ok, of "\<lambda>r. r\<lparr>ac_indexed := idx\<rparr>" key now] act_fits [OF w follow(2)]
    by (intro act_ok_touched [OF w follow(2)]) (auto simp: act_ok_def fit patch_get [OF ok])
  then show ?thesis using follow resume_same by simp
qed

lemma step_ok: "act_ok w \<Longrightarrow> act_step returns w w' \<Longrightarrow> act_ok w'"
  by (erule act_step.cases) (auto intro: move_ok clear_ok)

text \<open>What a step leaves of the other records and of the runs that are over.\<close>

lemma move_record:
  assumes w: "act_ok w" and "act_move returns w w'" and a: "js_get (rn_records (se_runner w)) k = Some a"
  shows "\<exists>a'. js_get (rn_records (se_runner w')) k = Some a' \<and> (isActionTerminal (ac_phase a) \<longrightarrow> same_outcome a a')"
  using assms(2)
proof cases
  case (start key plan now)
  then have "k \<noteq> key" using act_runs [OF w] a by auto
  then show ?thesis using start begin_others [of "se_runner w" k key] w a
    by (auto simp: act_ok_def resume_def same_outcome_def)
next
  case (answer key run x now r)
  have "ends key (ru_plan run) (se_runner w) r"
    using w answer returns_settled act_fits [OF w answer(2)] by (intro deliver_ends) (auto simp: act_ok_def)
  then have t: "touched key (se_runner w) (fst r)" by (simp add: ends_def)
  have "k = key \<Longrightarrow> \<not> isActionTerminal (ac_phase a)"
    using act_fits [OF w answer(2)] a waiting_open [OF _ deliver_waiting [OF answer(3)]] by blast
  then show ?thesis using answer touched_get [OF t] touched_none [OF t] a
    by (cases "k = key") (auto simp: resume_def same_outcome_def)
next
  case (submitted key run now)
  have ok: "runner_ok (se_runner w)" using w by (simp add: act_ok_def)
  have "touched key (se_runner w) (noteSubmitted key now (se_runner w))"
    using patch_touched [OF ok, of "\<lambda>r. r\<lparr>ac_phase := SubmittedPhase\<rparr>" key now] touched_refl [OF ok]
    by (auto simp: noteSubmitted_def split: option.splits)
  moreover have "k = key \<Longrightarrow> \<not> isActionTerminal (ac_phase a)"
    using act_fits [OF w submitted(2)] a submitted(3) by (auto simp: fits_run_def)
  ultimately show ?thesis using submitted touched_get touched_none a
    by (cases "k = key") (fastforce simp: same_outcome_def)+
next
  case (follow key run idx now)
  have ok: "runner_ok (se_runner w)" using w by (simp add: act_ok_def)
  show ?thesis
    using follow a patch_touched [OF ok, of "\<lambda>r. r\<lparr>ac_indexed := idx\<rparr>" key now, THEN touched_get]
    by (cases "k = key") (auto simp: patch_get [OF ok] same_outcome_def)
qed

lemma move_run: "act_move returns w w' \<Longrightarrow> se_runs w k = Some run \<Longrightarrow> \<not> waiting run \<Longrightarrow> se_runs w' k = Some run"
  by (erule act_move.cases) (auto simp: resume_def dest: deliver_waiting)

end

sublocale tx_port \<subseteq> machine "action_init h" "act_step returns" act_ok for h
  by unfold_locales (rule start_ok, erule (1) step_ok)

end
