(* ===== verification/ActionProperties.thy ===== *)
theory ActionProperties
  imports ActionFacts
begin

text \<open>The properties of the action runner over the transaction store, and sample sessions.\<close>

interpretation store_port: tx_port storeReturns
proof
  fix tx assume "storeReturns tx"
  then obtain w k where "session_ok w" "ss_runs w k = Some (Returned tx)"
    using tx.inv_reachable by (auto simp: storeReturns_def tx_reachable_def)
  then show "settled_record tx" by (simp add: session_ok_def)
qed

lemma act_reachable_ok: "act_reachable w \<Longrightarrow> act_ok w"
  using store_port.inv_reachable by (auto simp: act_reachable_def)

lemma act_step_reachable: "act_reachable w \<Longrightarrow> act_step storeReturns w w' \<Longrightarrow> act_reachable w'"
  by (auto simp: act_reachable_def intro: rtranclp.rtrancl_into_rtrancl)

subsection \<open>Safety\<close>

text \<open>C19. Whatever runs interleave, two actions that are both still open never sit on the same surface:
  the duplicate guard and the creation of the record are one synchronous segment.\<close>
theorem one_action_per_surface:
  assumes "act_reachable w"
    and "js_get (rn_records (se_runner w)) k = Some a" "js_get (rn_records (se_runner w)) k' = Some a'"
    and "ac_origin a = ac_origin a'" "\<not> isActionTerminal (ac_phase a)" "\<not> isActionTerminal (ac_phase a')"
  shows "k = k'"
  using act_reachable_ok [OF assms(1)] assms(2-) unfolding act_ok_def one_per_surface_def by blast

lemma step_record:
  assumes "act_ok w" "act_step storeReturns w w'" "js_get (rn_records (se_runner w)) k = Some a"
    "isActionTerminal (ac_phase a)"
  shows "case js_get (rn_records (se_runner w')) k of None \<Rightarrow> se_runs w' k \<noteq> None
    | Some a' \<Rightarrow> same_outcome a a'"
  using assms(2)
proof cases
  case move
  from store_port.move_record [OF assms(1) this assms(3)] show ?thesis using assms(4) by auto
next
  case logout
  then show ?thesis using act_runs [OF assms(1), of k] assms(3) by (auto simp: clear_def js_get_empty)
qed

lemma same_outcome_trans: "same_outcome a b \<Longrightarrow> same_outcome b c \<Longrightarrow> same_outcome a c"
  by (simp add: same_outcome_def)

lemma same_outcome_phase: "same_outcome a b \<Longrightarrow> ac_phase b = ac_phase a"
  by (cases a; cases b) (simp add: same_outcome_def)

lemma runs_stay: "act_step storeReturns w w' \<Longrightarrow> se_runs w k \<noteq> None \<Longrightarrow> se_runs w' k \<noteq> None"
  by (erule act_step.cases; (erule act_move.cases)?) (auto simp: resume_def)

lemma gone_stays:
  assumes "act_step storeReturns w w'" "act_ok w" "se_runs w k \<noteq> None" "js_get (rn_records (se_runner w)) k = None"
  shows "js_get (rn_records (se_runner w')) k = None"
  using assms(1)
proof cases
  case move
  then show ?thesis
  proof cases
    case (start key plan now)
    then have "k \<noteq> key" using assms(3) by auto
    then show ?thesis using start begin_others [of "se_runner w" k key] assms(2,4)
      by (auto simp: act_ok_def resume_def)
  next
    case (answer key run x now r)
    have "ends key (ru_plan run) (se_runner w) r"
      using assms(2) answer store_port.returns_settled act_fits [OF assms(2) answer(2)]
      by (intro deliver_ends) (auto simp: act_ok_def)
    then have t: "touched key (se_runner w) (fst r)" by (simp add: ends_def)
    then show ?thesis using answer touched_get [OF t] touched_none [OF t] assms(4)
      by (cases "k = key") (auto simp: resume_def)
  next
    case (submitted key run now)
    have ok: "runner_ok (se_runner w)" using assms(2) by (simp add: act_ok_def)
    have t: "touched key (se_runner w) (noteSubmitted key now (se_runner w))"
      using patch_touched [OF ok, of "\<lambda>r. r\<lparr>ac_phase := SubmittedPhase\<rparr>" key now] touched_refl [OF ok]
      by (auto simp: noteSubmitted_def split: option.splits)
    then show ?thesis using submitted touched_get [OF t] touched_none [OF t] assms(4) by (cases "k = key") auto
  next
    case (follow key run idx now)
    have ok: "runner_ok (se_runner w)" using assms(2) by (simp add: act_ok_def)
    then show ?thesis
      using follow assms(4) patch_touched [OF ok, of "\<lambda>r. r\<lparr>ac_indexed := idx\<rparr>" key now, THEN touched_get]
      by (cases "k = key") (auto simp: patch_get [OF ok])
  qed
next
  case logout
  then show ?thesis by (simp add: clear_def js_get_empty)
qed

text \<open>Terminal phases never leave: once an action has settled, nothing that any run, any late answer
  or any follow-up does changes its phase, steps, transactions or error; only the indexed evidence may
  grow, and a logout may drop the record.\<close>
theorem settled_actions_stay_settled:
  assumes "act_reachable w" "(act_step storeReturns)\<^sup>*\<^sup>* w w'"
    and "js_get (rn_records (se_runner w)) k = Some a" "isActionTerminal (ac_phase a)"
  shows "case js_get (rn_records (se_runner w')) k of None \<Rightarrow> True
    | Some a' \<Rightarrow> a'\<lparr>ac_indexed := None, ac_updatedAt := 0\<rparr> = a\<lparr>ac_indexed := None, ac_updatedAt := 0\<rparr>"
proof -
  let ?P = "\<lambda>w. se_runs w k \<noteq> None \<and> (case js_get (rn_records (se_runner w)) k of None \<Rightarrow> True | Some a' \<Rightarrow> same_outcome a a')"
  have ok: "act_ok w" using act_reachable_ok assms(1) .
  have start: "?P w" using act_runs [OF ok, of k] assms(3) by (auto simp: same_outcome_def)
  have keep: "?P v'" if v: "act_ok v" "?P v" "act_step storeReturns v v'" for v v'
  proof (cases "js_get (rn_records (se_runner v)) k")
    case None
    then show ?thesis using gone_stays [OF v(3,1)] runs_stay [OF v(3)] v(2) by simp
  next
    case (Some b)
    then have "same_outcome a b" "isActionTerminal (ac_phase b)" using v(2) assms(4) same_outcome_phase by auto
    then show ?thesis
      using step_record [OF v(1,3) Some] runs_stay [OF v(3)] v(2)
      by (auto split: option.splits intro: same_outcome_trans)
  qed
  have "?P w'" by (rule store_port.stable_later [where P = ?P, OF assms(2) ok start]) (rule keep)
  then show ?thesis by (auto simp: same_outcome_def split: option.splits)
qed

text \<open>Whatever the session does, the records a run has heard are records the store returned.\<close>

lemma heard_returned:
  assumes "act_reachable w" "se_runs w k = Some run" "tx \<in> set (ru_heard run)"
  shows "storeReturns tx"
proof -
  have "\<forall>k run. se_runs v k = Some run \<longrightarrow> (\<forall>tx \<in> set (ru_heard run). storeReturns tx)"
    if "(act_step storeReturns)\<^sup>*\<^sup>* (action_init h) v" for h v
    using that
  proof (induction rule: rtranclp_induct)
    case base
    then show ?case by (simp add: action_init_def)
  next
    case (step v v')
    from step(2) show ?case
    proof cases
      case move
      then show ?thesis
      proof cases
        case (answer key run x now r)
        have "storeReturns tx" if "tx \<in> set (ru_heard (snd r))" for tx
          using that deliver_heard [OF answer(3)] answer(2,4) step(3)
          by (auto split: Answer.splits sum.splits)
        then show ?thesis using answer step(3) by (auto simp: resume_def)
      qed (use step(3) in \<open>auto simp: resume_def\<close>)
    qed (use step(3) in simp)
  qed
  then show ?thesis using assms by (auto simp: act_reachable_def)
qed

text \<open>C22. An action that reads complete was confirmed step by step. Its run was answered by the
  transaction port once per approval and once for the action, and by nothing else; each of those answers
  is a transaction record of the store that reads confirmed, with a hash; and step by step, in order, the
  action carries the hash and the id of that very record, is marked done, and lists its id.\<close>
theorem complete_actions_are_confirmed:
  assumes "act_reachable w" "js_get (rn_records (se_runner w)) k = Some a" "ac_phase a = Complete"
  shows "\<exists>run. se_runs w k = Some run \<and> length (ru_heard run) = Suc (length (pl_approvals (ru_plan run))) \<and>
    (\<forall>tx \<in> set (ru_heard run). storeReturns tx \<and> tx_status tx = Confirmed \<and> tx_hash tx \<noteq> None) \<and>
    map as_hash (ac_steps a) = map tx_hash (ru_heard run) \<and>
    map as_txId (ac_steps a) = map (\<lambda>tx. Some (tx_id tx)) (ru_heard run) \<and>
    ac_txIds a = map tx_id (ru_heard run) \<and> (\<forall>st \<in> set (ac_steps a). as_done st)"
proof -
  have ok: "act_ok w" using act_reachable_ok assms(1) .
  then obtain run where run: "se_runs w k = Some run" "fits_run run a"
    using assms(2) unfolding act_ok_def by blast
  have "isActionTerminal (ac_phase a)" using assms(3) by (simp add: phases)
  then have p: "progress (Suc (approvals_of run)) run a"
    using run(2) assms(3) by (cases "ru_pc run") (auto simp: fits_run_def)
  then have "\<forall>tx \<in> set (ru_heard run). tx_status tx = Confirmed \<and> tx_hash tx \<noteq> None"
    by (auto simp: progress_def step_of_def in_set_conv_nth)
  moreover have "map as_hash (ac_steps a) = map tx_hash (ru_heard run)"
    "map as_txId (ac_steps a) = map (\<lambda>tx. Some (tx_id tx)) (ru_heard run)" "\<forall>st \<in> set (ac_steps a). as_done st"
    using p by (auto simp: progress_def step_of_def in_set_conv_nth list_eq_iff_nth_eq)
  ultimately show ?thesis
    using run(1) p heard_returned [OF assms(1) run(1)] by (intro exI [of _ run]) (simp add: progress_def)
qed

text \<open>Signatures are asked for in order and one at a time: while the transaction of step \<open>i\<close> is
  out, exactly the steps before it are confirmed, and what the run has handed to the port so far is the
  first \<open>i + 1\<close> of its approvals, then the action itself.\<close>
theorem signatures_in_order:
  assumes "act_reachable w" "se_runs w k = Some run" "ru_pc run = AtTx i"
    and "js_get (rn_records (se_runner w)) k = Some a"
  shows "length (ru_asked run) = Suc i \<and> i \<le> length (pl_approvals (ru_plan run)) \<and>
    take (length (pl_approvals (ru_plan run))) (ru_asked run) =
      take (Suc i) (map (\<lambda>n. approveSpec n (originText (pl_origin (ru_plan run)))) (pl_approvals (ru_plan run))) \<and>
    map as_done (ac_steps a) = map (\<lambda>j. j < i) [0..<Suc (length (pl_approvals (ru_plan run)))]"
proof -
  have ok: "act_ok w" using act_reachable_ok assms(1) .
  have "progress i run a" using act_fits [OF ok assms(2,4)] assms(3) by (simp add: fits_run_def)
  moreover have "asked_state (AtTx i) run" using act_asked [OF ok assms(2)] assms(3) by simp
  ultimately show ?thesis
    by (auto simp: progress_def asked_def list_eq_iff_nth_eq simp del: upt_Suc)
qed

subsection \<open>Every run ends\<close>

text \<open>An environment that answers: each await is answered, no promise rejects, and the port keeps its
  contract.\<close>

definition answering :: "(ActionPc \<Rightarrow> Answer) \<Rightarrow> bool" where
  "answering env \<longleftrightarrow> (\<exists>h. env AtHead = HeadAnswer (Inr h)) \<and> (\<exists>r. env AtSimulation = SimulationAnswer (Inr r)) \<and>
     (\<exists>r. env AtReconcile = ReconcileAnswer r) \<and>
     (\<forall>i. (\<exists>v. env (AtTx i) = TxAnswer (Inl v)) \<or> (\<exists>tx. env (AtTx i) = TxAnswer (Inr tx) \<and> settled_record tx))"

fun drive :: "nat \<Rightarrow> string \<Rightarrow> (ActionPc \<Rightarrow> Answer) \<Rightarrow> int \<Rightarrow> Runner \<times> ActionRun \<Rightarrow> Runner \<times> ActionRun" where
  "drive 0 key env now r = r"
| "drive (Suc n) key env now (s, run) = (case deliver key (env (ru_pc run)) now run s of
     None \<Rightarrow> (s, run) | Some r \<Rightarrow> drive n key env now r)"

fun waits :: "nat \<Rightarrow> ActionPc \<Rightarrow> nat" where
  "waits n AtHead = n + 4"
| "waits n (AtTx i) = (if i < n then n - i + 3 else 2)"
| "waits n AtSimulation = 3"
| "waits n AtReconcile = 1"
| "waits n _ = 0"

definition rejected :: "ActionRun \<Rightarrow> bool" where
  "rejected run \<longleftrightarrow> (\<exists>e. ru_pc run = RejectedAction e)"

lemma settled_returns:
  assumes "runner_ok s" "js_get (rn_records s) key \<noteq> None"
  shows "waits n (ru_pc (snd (settled run (settle key ph err now s)))) = 0 \<and>
    \<not> rejected (snd (settled run (settle key ph err now s)))"
  using assms by (auto simp: settled_def settle_def Let_def patch_get rejected_def)

lemma patched:
  assumes "runner_ok s" "js_get (rn_records s) key \<noteq> None" "\<And>a. ac_id (f a) = ac_id a"
  shows "runner_ok (patch key f now s)" "js_get (rn_records (patch key f now s)) key \<noteq> None"
  using assms patch_touched [OF assms(1,3), of key now] by (auto simp: touched_def patch_get)

lemma signs:
  assumes "\<forall>t. \<exists>spec. pl_buildSpec (ru_plan run) t = Inr spec"
  shows "ru_pc (snd (signAction key run now s)) = AtTx (approvals_of run)"
proof -
  obtain spec where "pl_buildSpec (ru_plan run) now = Inr spec" using assms by blast
  then show ?thesis by (simp add: signAction_def Let_def)
qed

lemma approves:
  assumes "\<forall>t. \<exists>spec. pl_buildSpec (ru_plan run) t = Inr spec"
  shows "ru_pc (snd (approveNext key run i now s)) \<in>
    (if i < approvals_of run then {AtTx i} else {AtSimulation, AtTx (approvals_of run)})"
  using signs [OF assms] by (auto simp: approveNext_def simulateAction_def Let_def)

lemma deliver_decreases:
  assumes ok: "runner_ok s" "js_get (rn_records s) key \<noteq> None" and env: "answering env"
    and build: "\<forall>t. \<exists>spec. pl_buildSpec (ru_plan run) t = Inr spec"
    and pc: "waits (approvals_of run) (ru_pc run) \<noteq> 0" "asked_state (ru_pc run) run"
  shows "\<exists>r. deliver key (env (ru_pc run)) now run s = Some r \<and> \<not> rejected (snd r) \<and>
    waits (approvals_of run) (ru_pc (snd r)) < waits (approvals_of run) (ru_pc run)"
proof (cases "ru_pc run")
  case AtHead
  obtain h where h: "env AtHead = HeadAnswer (Inr h)" using env by (auto simp: answering_def)
  have "\<not> rejected (snd (on_head key (Inr h) now run s)) \<and>
      waits (approvals_of run) (ru_pc (snd (on_head key (Inr h) now run s))) < approvals_of run + 4"
    using approves [OF build, of key 0 now s] settled_returns [OF ok]
    by (auto simp: on_head_def rejected_def split: option.splits if_splits)
  then show ?thesis using AtHead h by (simp add: deliver.simps)
next
  case (AtTx i)
  then have i: "i \<le> approvals_of run" using pc(2) by simp
  have fin: "waits n (ru_pc (snd (settled run' (settle key ph err now s')))) = 0 \<and>
      \<not> rejected (snd (settled run' (settle key ph err now s')))"
    if "runner_ok s'" "js_get (rn_records s') key \<noteq> None" for n run' ph err s'
    using settled_returns [OF that] .
  have plan: "ru_plan (hear x run) = ru_plan run" for x by (simp add: hear_def split: sum.split)
  have on: "\<not> rejected (snd (on_tx key i x now (hear x run) s)) \<and>
      waits (approvals_of run) (ru_pc (snd (on_tx key i x now (hear x run) s))) < waits (approvals_of run) (AtTx i)" for x
  proof (cases x)
    case (Inl v)
    then show ?thesis using fin [OF ok] by (simp add: on_tx_def)
  next
    case (Inr tx)
    let ?s1 = "patch key (linkStep i tx) now s"
    let ?s2 = "patch key (doneStep i) now ?s1" and ?run = "(hear x run)\<lparr>ru_txIds := ru_txIds (hear x run) @ [tx_id tx]\<rparr>"
    have s1: "runner_ok ?s1" "js_get (rn_records ?s1) key \<noteq> None" using patched [OF ok] by simp_all
    have s2: "runner_ok ?s2" "js_get (rn_records ?s2) key \<noteq> None" using patched [OF s1] by simp_all
    have b: "\<forall>t. \<exists>spec. pl_buildSpec (ru_plan ?run) t = Inr spec" using build by (simp add: plan)
    have s3: "runner_ok (patch key (\<lambda>r. r\<lparr>ac_phase := Reconciling\<rparr>) now ?s2)"
      "js_get (rn_records (patch key (\<lambda>r. r\<lparr>ac_phase := Reconciling\<rparr>) now ?s2)) key \<noteq> None"
      using patched [OF s2] by simp_all
    consider "tx_status tx \<noteq> Confirmed" | "tx_status tx = Confirmed" "i < approvals_of run"
      | "tx_status tx = Confirmed" "i = approvals_of run" using i by fastforce
    then show ?thesis
    proof cases
      case 1
      then show ?thesis using fin [OF s1] by (simp add: on_tx_def Inr Let_def)
    next
      case 2
      then show ?thesis using approves [OF b, of key "Suc i" now ?s2] plan [of "Inr tx"]
        by (auto simp: on_tx_def Inr Let_def rejected_def split: if_splits)
    next
      case 3
      then show ?thesis using fin [OF s3] plan [of "Inr tx"]
        by (simp add: on_tx_def Inr Let_def reconcileAction_def rejected_def)
    qed
  qed
  obtain x where "env (AtTx i) = TxAnswer x" using env unfolding answering_def by blast
  then show ?thesis using AtTx on by (simp add: deliver.simps)
next
  case AtSimulation
  obtain r where "env AtSimulation = SimulationAnswer (Inr r)" using env by (auto simp: answering_def)
  then show ?thesis using AtSimulation signs [OF build, of key now s] settled_returns [OF ok]
    by (cases r) (auto simp: deliver.simps on_simulated_def rejected_def)
next
  case AtReconcile
  obtain r where r: "env AtReconcile = ReconcileAnswer r" using env by (auto simp: answering_def)
  have "runner_ok (patch key (\<lambda>r. r\<lparr>ac_indexed := idx\<rparr>) now s)"
    "js_get (rn_records (patch key (\<lambda>r. r\<lparr>ac_indexed := idx\<rparr>) now s)) key \<noteq> None" for idx
    using patched [OF ok, of "\<lambda>r. r\<lparr>ac_indexed := idx\<rparr>"] by simp_all
  then show ?thesis using AtReconcile r settled_returns [OF ok] settled_returns
    by (cases r) (simp_all add: deliver.simps on_reconciled_def)
qed (use pc(1) in simp_all)

lemma answering_tx:
  assumes "answering env" "waiting run" "env (ru_pc run) = TxAnswer (Inr tx)"
  shows "settled_record tx"
proof (cases "ru_pc run")
  case (AtTx i)
  have "(\<exists>v. env (AtTx i) = TxAnswer (Inl v)) \<or> (\<exists>tx. env (AtTx i) = TxAnswer (Inr tx) \<and> settled_record tx)"
    using assms(1) by (simp add: answering_def)
  then show ?thesis using AtTx assms(3) by auto
qed (use assms in \<open>auto simp: answering_def waiting_def\<close>)

lemma drive_ends:
  assumes "runner_ok s" "js_get (rn_records s) key = Some a" "fits_run run a" "asked_state (ru_pc run) run"
    and "answering env" "\<forall>t. \<exists>spec. pl_buildSpec (ru_plan run) t = Inr spec"
    and "waits (approvals_of run) (ru_pc run) \<le> n" "\<not> rejected run"
  shows "\<exists>a' b. ru_pc (snd (drive n key env now (s, run))) = ReturnedAction a' \<and>
    js_get (rn_records (fst (drive n key env now (s, run)))) key = Some b \<and>
    isActionTerminal (ac_phase b) \<and> same_outcome b a'"
  using assms
proof (induction n arbitrary: s run a)
  case 0
  then show ?case by (cases "ru_pc run") (auto simp: fits_run_def rejected_def split: if_splits)
next
  case (Suc n)
  show ?case
  proof (cases "waits (approvals_of run) (ru_pc run) = 0")
    case True
    then obtain a' where a': "ru_pc run = ReturnedAction a'"
      using Suc.prems(8) by (cases "ru_pc run") (auto simp: rejected_def split: if_splits)
    then show ?thesis using Suc.prems(2,3) by (auto simp: deliver.simps fits_run_def)
  next
    case False
    obtain s' run' where r: "deliver key (env (ru_pc run)) now run s = Some (s', run')" "\<not> rejected run'"
      "waits (approvals_of run) (ru_pc run') < waits (approvals_of run) (ru_pc run)"
      using deliver_decreases [OF Suc.prems(1) _ Suc.prems(5,6) False Suc.prems(4), of key now] Suc.prems(2)
      by fastforce
    have e: "ends key (ru_plan run) s (s', run')"
    proof (rule deliver_ends [OF Suc.prems(1,4) _ r(1)])
      show "fits_run run b" if "js_get (rn_records s) key = Some b" for b
        using that Suc.prems(2,3) by simp
      show "settled_record tx" if "env (ru_pc run) = TxAnswer (Inr tx)" for tx
        using answering_tx [OF Suc.prems(5) deliver_waiting [OF r(1)] that] .
    qed
    then obtain b where b: "js_get (rn_records s') key = Some b" "fits_run run' b"
      using Suc.prems(2) touched_none by (fastforce simp: ends_def)
    have "runner_ok s'" "asked_state (ru_pc run') run'" "ru_plan run' = ru_plan run"
      using e by (simp_all add: ends_def touched_def)
    then show ?thesis
      using Suc.IH [of s' b run'] b r Suc.prems(5,6,7) by simp
  qed
qed

text \<open>C40. An action that may start ends: when every await is answered and none of its promises rejects,
  then after at most four answers more than it has approvals the run returns, with its record in a
  terminal phase, whatever the answers say.\<close>
theorem actions_settle:
  assumes "act_reachable w" "se_runs w key = None" "\<not> isActionActive (se_runner w) (pl_origin plan)"
    and "answering env" "\<forall>t. \<exists>spec. pl_buildSpec plan t = Inr spec"
    and "r = drive (length (pl_approvals plan) + 4) key env later (begin_action key plan now (se_runner w))"
  shows "\<exists>a b. ru_pc (snd r) = ReturnedAction a \<and> js_get (rn_records (fst r)) key = Some b \<and>
    isActionTerminal (ac_phase b) \<and> same_outcome b a"
proof -
  let ?w = "resume key (begin_action key plan now (se_runner w)) w"
  let ?s = "fst (begin_action key plan now (se_runner w))" and ?run = "snd (begin_action key plan now (se_runner w))"
  have w: "act_ok w" using act_reachable_ok assms(1) .
  then have ok: "runner_ok (se_runner w)" by (simp add: act_ok_def)
  note e = begin_ends [OF ok assms(3), of key now]
  then obtain a where a: "js_get (rn_records ?s) key = Some a" "fits_run ?run a"
    using touched_none [of key "put (newRecord key plan now) (se_runner w)" ?s] new_record(1)
    by (fastforce simp: ends_def)
  have s1: "runner_ok (put (newRecord key plan now) (se_runner w))"
    "js_get (rn_records (put (newRecord key plan now) (se_runner w))) key \<noteq> None"
    using act_put_ok [OF ok] new_record(1) by simp_all
  have "\<not> rejected (snd (approveNext key (fresh_run plan) 0 now s)) \<and>
      waits (length (pl_approvals plan)) (ru_pc (snd (approveNext key (fresh_run plan) 0 now s)))
        \<le> length (pl_approvals plan) + 4" for s
    using approves [of "fresh_run plan" key 0 now s] assms(5) by (auto simp: rejected_def split: if_splits)
  then have "\<not> rejected ?run \<and> waits (length (pl_approvals plan)) (ru_pc ?run) \<le> length (pl_approvals plan) + 4"
    using assms(3) settled_returns [OF s1]
    by (simp add: begin_action_def Let_def rejected_def split: option.splits)
  moreover have "runner_ok ?s" "asked_state (ru_pc ?run) ?run" "ru_plan ?run = plan"
    using e by (simp_all add: ends_def touched_def)
  ultimately show ?thesis
    using drive_ends [OF _ a _ assms(4), of "length (pl_approvals plan) + 4" later] assms(5,6) by simp
qed

text \<open>C33. A promise that rejects wedges its surface. When the simulation of an action throws, its run
  rejects and its record stays open for good: whatever happens afterwards, short of a logout, every
  further action on that surface is refused.\<close>
theorem thrown_simulation_blocks_the_surface:
  assumes "act_reachable w" "se_runs w key = Some run" "ru_pc run = AtSimulation"
    and "js_get (rn_records (se_runner w)) key = Some a"
    and "(act_move storeReturns)\<^sup>*\<^sup>* (resume key (on_simulated key (Inl e) now run (se_runner w)) w) w'"
    and "pl_origin plan = pl_origin (ru_plan run)"
  shows "ru_pc (snd (begin_action key' plan later (se_runner w'))) = RejectedAction
    ''An action is already in flight here - wait for it to settle before starting another.''"
proof -
  let ?run = "run\<lparr>ru_pc := RejectedAction e\<rparr>" and ?w1 = "resume key (on_simulated key (Inl e) now run (se_runner w)) w"
  have d: "deliver key (SimulationAnswer (Inl e)) now run (se_runner w) = Some (on_simulated key (Inl e) now run (se_runner w))"
    using assms(3) by (simp add: deliver.simps)
  have w1: "act_ok ?w1"
    using store_port.move_ok [OF act_reachable_ok [OF assms(1)] act_move.answer [OF assms(2) d]] by simp
  have "act_ok w' \<and> se_runs w' key = Some ?run \<and> js_get (rn_records (se_runner w')) key \<noteq> None"
    using assms(5)
  proof (induction rule: rtranclp_induct)
    case base
    then show ?case using w1 assms(4) by (simp add: resume_def on_simulated_def)
  next
    case (step v v')
    then show ?case
      using store_port.move_ok [of v v'] store_port.move_run [OF step(2), of key ?run] store_port.move_record [of v v' key]
      by (auto simp: waiting_def)
  qed
  then obtain b where b: "act_ok w'" "js_get (rn_records (se_runner w')) key = Some b" "fits_run ?run b"
    using act_fits by blast
  then have "b \<in> set (rn_snapshot (se_runner w'))" using js_values_get [of "rn_records (se_runner w')" b]
    by (auto simp: act_ok_def runner_ok_def)
  then have "isActionActive (se_runner w') (pl_origin plan)"
    using b(3) assms(6) by (auto simp: isActionActive_def list_ex_iff fits_run_def)
  then show ?thesis by (simp add: begin_action_def)
qed

end
