(* ===== verification/ActionWitness.thy ===== *)
theory ActionWitness
  imports ActionProperties
begin

text \<open>A sample action, from its start to its end, at which the properties of the runner are applied.\<close>

definition sampleTx :: TxRecord where
  "sampleTx = \<lparr>tx_id = [], tx_hash = Some ''0xab'', tx_status = Confirmed, tx_origin = ''trade'', tx_kind = ''buy'',
     tx_chainId = 1, tx_address = None, tx_createdAt = 0, tx_updatedAt = 9, tx_settledAt = Some 9,
     tx_blockNumber = Some 100, tx_error = None\<rparr>"

lemma sampleTx_returned: "storeReturns sampleTx"
proof -
  have "ss_runs sampleReceipt [] = Some (Returned sampleTx)" by code_simp
  then show ?thesis using sample_reachable by (auto simp: storeReturns_def)
qed

definition samplePlan :: ActionPlan where
  "samplePlan = \<lparr>pl_origin = Trade, pl_label = ''Buy 2 H100'', pl_quote = None,
     pl_approvals = [\<lparr>an_token = ''0x1'', an_tokenLabel = ''gUSD'', an_spender = ''0x2'',
       an_spenderKind = RouterSpender, an_amount = 5\<rparr>],
     pl_simulates = True, pl_buildSpec = (\<lambda>_. Inr sampleSpec), pl_reconciles = True\<rparr>"

fun sampleEnv :: "ActionPc \<Rightarrow> Answer" where
  "sampleEnv AtHead = HeadAnswer (Inr None)"
| "sampleEnv (AtTx i) = TxAnswer (Inr sampleTx)"
| "sampleEnv AtSimulation = SimulationAnswer (Inr None)"
| "sampleEnv _ = ReconcileAnswer (Some None)"

text \<open>The session after the action has been started and answered \<open>n\<close> times.\<close>

fun sampleAction :: "nat \<Rightarrow> ActionSession" where
  "sampleAction 0 = resume ''a'' (begin_action ''a'' samplePlan 0 (se_runner (action_init True))) (action_init True)"
| "sampleAction (Suc n) = (case se_runs (sampleAction n) ''a'' of None \<Rightarrow> sampleAction n
     | Some run \<Rightarrow> (case deliver ''a'' (sampleEnv (ru_pc run)) 1 run (se_runner (sampleAction n)) of
         None \<Rightarrow> sampleAction n | Some r \<Rightarrow> resume ''a'' r (sampleAction n)))"

lemma start_reachable: "act_reachable (action_init True)"
  by (auto simp: act_reachable_def)

lemma sampleAction_reachable: "act_reachable (sampleAction n)"
proof (induction n)
  case 0
  have "act_step storeReturns (action_init True) (sampleAction 0)"
    unfolding sampleAction.simps by (intro act_step.move act_move.start) (simp add: action_init_def)
  then show ?case using act_step_reachable start_reachable by blast
next
  case (Suc n)
  show ?case
  proof (cases "se_runs (sampleAction n) ''a''")
    case (Some run)
    show ?thesis
    proof (cases "deliver ''a'' (sampleEnv (ru_pc run)) 1 run (se_runner (sampleAction n))")
      case (Some r)
      have "storeReturns tx" if "sampleEnv (ru_pc run) = TxAnswer (Inr tx)" for tx
        using that sampleTx_returned by (cases "ru_pc run") auto
      then have "act_step storeReturns (sampleAction n) (resume ''a'' r (sampleAction n))"
        using act_move.answer [OF \<open>se_runs (sampleAction n) ''a'' = Some run\<close> Some] by (blast intro: act_step.move)
      then show ?thesis using act_step_reachable [OF Suc] Some \<open>se_runs (sampleAction n) ''a'' = Some run\<close> by simp
    qed (use Some Suc in simp)
  qed (use Suc in simp)
qed

definition sampleRecord :: "nat \<Rightarrow> ActionRecord option" where
  "sampleRecord n = js_get (rn_records (se_runner (sampleAction n))) ''a''"

lemma sample_states:
  "map_option ac_phase (sampleRecord 0) = Some Approving"
  "map_option ac_phase (sampleRecord 1) = Some Simulating"
  "map_option ac_phase (sampleRecord 2) = Some AwaitingSignature"
  "map_option ac_phase (sampleRecord 4) = Some Complete"
  by code_simp+

theorem one_action_per_surface_witness:
  "{k. \<exists>a. js_get (rn_records (se_runner (sampleAction 1))) k = Some a \<and> ac_origin a = Trade \<and>
     \<not> isActionTerminal (ac_phase a)} = {''a''}"
proof -
  have "case sampleRecord 1 of None \<Rightarrow> False | Some a \<Rightarrow> ac_origin a = Trade \<and> \<not> isActionTerminal (ac_phase a)"
    by code_simp
  then obtain a where a: "js_get (rn_records (se_runner (sampleAction 1))) ''a'' = Some a" "ac_origin a = Trade"
    "\<not> isActionTerminal (ac_phase a)" by (auto simp: sampleRecord_def split: option.splits)
  have "k = ''a''" if "js_get (rn_records (se_runner (sampleAction 1))) k = Some b" "ac_origin b = Trade"
    "\<not> isActionTerminal (ac_phase b)" for k b
    using one_action_per_surface [OF sampleAction_reachable that(1) a(1)] that a by simp
  then show ?thesis using a by blast
qed

lemma runner_written: "se_runner (w\<lparr>se_runner := s\<rparr>) = s"
  by simp

lemma outcome_phase:
  fixes a :: ActionRecord
  assumes "case x of None \<Rightarrow> True
    | Some a' \<Rightarrow> a'\<lparr>ac_indexed := None, ac_updatedAt := 0\<rparr> = a\<lparr>ac_indexed := None, ac_updatedAt := 0\<rparr>"
    and "ac_phase a = p"
  shows "case x of None \<Rightarrow> True | Some a' \<Rightarrow> ac_phase a' = p"
proof (cases x)
  case (Some a')
  then have "same_outcome a a'" using assms(1) by (simp only: same_outcome_def option.case)
  from same_outcome_phase [OF this] show ?thesis using Some assms(2) by simp
qed simp

theorem settled_actions_stay_settled_witness:
  "case js_get (rn_records (patch ''a'' (\<lambda>r. r\<lparr>ac_indexed := Some [''0xab'']\<rparr>) 9 (se_runner (sampleAction 4)))) ''a'' of
     None \<Rightarrow> True | Some a' \<Rightarrow> ac_phase a' = Complete"
proof -
  obtain a where a: "js_get (rn_records (se_runner (sampleAction 4))) ''a'' = Some a" "ac_phase a = Complete"
    using sample_states(4) by (auto simp: sampleRecord_def)
  have "se_runs (sampleAction 4) ''a'' \<noteq> None" by code_simp
  then obtain run where "se_runs (sampleAction 4) ''a'' = Some run" by auto
  then have "(act_step storeReturns)\<^sup>*\<^sup>* (sampleAction 4) ((sampleAction 4)\<lparr>se_runner :=
      patch ''a'' (\<lambda>r. r\<lparr>ac_indexed := Some [''0xab'']\<rparr>) 9 (se_runner (sampleAction 4))\<rparr>)"
    by (intro r_into_rtranclp act_step.move act_move.follow)
  note later = settled_actions_stay_settled [OF sampleAction_reachable this a(1)]
  have "isActionTerminal (ac_phase a)" using a(2) by (simp add: phases)
  from outcome_phase [OF later [OF this] a(2)] show ?thesis by (simp only: runner_written)
qed

theorem complete_actions_are_confirmed_witness:
  "\<exists>a run. sampleRecord 4 = Some a \<and> se_runs (sampleAction 4) ''a'' = Some run \<and>
     ru_heard run = [sampleTx, sampleTx] \<and> map as_hash (ac_steps a) = map tx_hash (ru_heard run)"
proof -
  obtain a where a: "js_get (rn_records (se_runner (sampleAction 4))) ''a'' = Some a" "ac_phase a = Complete"
    using sample_states(4) by (auto simp: sampleRecord_def)
  have "map_option ru_heard (se_runs (sampleAction 4) ''a'') = Some [sampleTx, sampleTx]" by code_simp
  then show ?thesis
    using complete_actions_are_confirmed [OF sampleAction_reachable a] a by (auto simp: sampleRecord_def)
qed

theorem signatures_in_order_witness:
  "\<exists>run a. se_runs (sampleAction 2) ''a'' = Some run \<and> sampleRecord 2 = Some a \<and> length (ru_asked run) = 2 \<and>
     map as_done (ac_steps a) = map (\<lambda>j. j < 1) [0..<Suc (length (pl_approvals (ru_plan run)))]"
proof -
  have "map_option ru_pc (se_runs (sampleAction 2) ''a'') = Some (AtTx 1)" by code_simp
  then obtain run where run: "se_runs (sampleAction 2) ''a'' = Some run" "ru_pc run = AtTx 1" by auto
  obtain a where a: "js_get (rn_records (se_runner (sampleAction 2))) ''a'' = Some a"
    using sample_states(3) by (auto simp: sampleRecord_def)
  show ?thesis using signatures_in_order [OF sampleAction_reachable run a] run a
    by (auto simp: sampleRecord_def simp del: upt_Suc)
qed

lemma sampleEnv_answers: "answering sampleEnv"
  by (auto simp: answering_def sampleTx_def settled_record_def terminal_def)

theorem actions_settle_witness:
  "\<exists>a. ru_pc (snd (drive 5 ''a'' sampleEnv 1 (begin_action ''a'' samplePlan 0 (se_runner (action_init True))))) =
     ReturnedAction a \<and> isActionTerminal (ac_phase a)"
proof -
  have free: "se_runs (action_init True) ''a'' = None"
    "\<not> isActionActive (se_runner (action_init True)) (pl_origin samplePlan)"
    by (simp_all add: action_init_def isActionActive_def)
  have "\<forall>t. \<exists>spec. pl_buildSpec samplePlan t = Inr spec" by (simp add: samplePlan_def)
  from actions_settle [OF start_reachable free sampleEnv_answers this refl] show ?thesis
    using same_outcome_phase by (fastforce simp: samplePlan_def)
qed

theorem thrown_simulation_blocks_the_surface_witness:
  "\<exists>run. se_runs (sampleAction 1) ''a'' = Some run \<and> ru_pc (snd (begin_action ''b'' samplePlan 1000000
     (fst (on_simulated ''a'' (Inl ''offline'') 2 run (se_runner (sampleAction 1)))))) = RejectedAction
       ''An action is already in flight here - wait for it to settle before starting another.''"
proof -
  have "map_option (\<lambda>r. (ru_pc r, pl_origin (ru_plan r))) (se_runs (sampleAction 1) ''a'') = Some (AtSimulation, Trade)"
    by code_simp
  then obtain run where run: "se_runs (sampleAction 1) ''a'' = Some run" "ru_pc run = AtSimulation"
    "pl_origin samplePlan = pl_origin (ru_plan run)" by (auto simp: samplePlan_def)
  obtain a where a: "js_get (rn_records (se_runner (sampleAction 1))) ''a'' = Some a"
    using sample_states(2) by (auto simp: sampleRecord_def)
  from thrown_simulation_blocks_the_surface [OF sampleAction_reachable run(1,2) a rtranclp.rtrancl_refl run(3)]
  show ?thesis using run(1) by (simp add: resume_def)
qed

end
