(* ===== verification/HookQuote.thy ===== *)
theory HookQuote
  imports KeeperMath
begin

text \<open>
  apps/web/src/data/web3/trading/hook-quote.ts: the quotes of a pool without native liquidity, as
  arithmetic over the hook's public state. A \<open>bigint\<close> and an integral \<open>number\<close> are an \<open>int\<close>;
  dividing by zero throws a \<open>RangeError\<close>, which is \<open>None\<close>. A \<open>null\<close> quote of the issuance is an
  inner \<open>None\<close>.
\<close>

record HookMarketState =
  rawPrice :: int
  validFromSec :: int
  validUntilSec :: int
  observedAtSec :: int
  maxObservationAgeSec :: int
  askBps :: int
  bidBps :: int
  polFeeBps :: int
  polPaused :: bool
  maxPolNotionalGusd :: int
  perBlockPolCapGusd :: int
  perBlockUsedGusd :: int
  hookFeeBps :: int
  issueFeeBps :: int
  issuanceEnabled :: bool
  compositionDivisor :: int
  bidInventoryGusd :: int
  askInventoryGpu :: int

record MirrorQuote =
  isBuy :: bool
  exactIn :: bool
  gusdIn :: int
  gusdOut :: int
  gpuIn :: int
  gpuOut :: int
  polGpu :: int
  backstopGpu :: int
  polFeeGusd :: int
  hookFeeGusd :: int
  issueBase :: int
  issueFee :: int

datatype MirrorRejection = OracleStale | NoAskCapacity | NoBidCapacity

datatype MirrorResult = Filled MirrorQuote | Rejected MirrorRejection "int option"

definition GPU_DUST :: int where "GPU_DUST = 1"
definition GUSD_DUST :: int where "GUSD_DUST = 5"

definition mulDivFloor :: "int \<Rightarrow> int \<Rightarrow> int \<Rightarrow> int option" where
  "mulDivFloor a b d = (if d = 0 then None else Some ((a * b) sdiv d))"

definition mulDivCeil :: "int \<Rightarrow> int \<Rightarrow> int \<Rightarrow> int option" where
  "mulDivCeil a b d =
     (if d = 0 then None else
      let p = a * b; q = p sdiv d in Some (if p smod d = 0 then q else q + 1))"

fun minBig :: "int list \<Rightarrow> int" where \<comment> \<open>of at least one value\<close>
  "minBig [] = 0"
| "minBig (v # vs) = fold (\<lambda>v m. if v < m then v else m) vs v"

subsection \<open>Caps, guard and issuance\<close>

definition polCapLeft :: "HookMarketState \<Rightarrow> int" where
  "polCapLeft s =
     (let c = maxPolNotionalGusd s; perBlock = perBlockPolCapGusd s in
      if perBlock \<noteq> 0 then
        let used = perBlockUsedGusd s; left = (if perBlock > used then perBlock - used else 0)
        in if left < c then left else c
      else c)"

definition oracleGuardOk :: "HookMarketState \<Rightarrow> int \<Rightarrow> bool" where
  "oracleGuardOk s nowSec =
     (if rawPrice s = 0 then False
      else if observedAtSec s > nowSec then False
      else if nowSec - observedAtSec s > maxObservationAgeSec s then False
      else nowSec \<ge> validFromSec s \<and> nowSec < validUntilSec s)"

definition effAskBps :: "HookMarketState \<Rightarrow> int" where
  "effAskBps s =
     (let eff = (if polPaused s then 0 else askBps s)
      in if issueFeeBps s < eff then issueFeeBps s else eff)"

record IssueQuote =
  base :: int
  fee :: int

definition total :: "IssueQuote \<Rightarrow> int" where
  "total q = base q + fee q"

definition quoteIssue :: "HookMarketState \<Rightarrow> int \<Rightarrow> int \<Rightarrow> IssueQuote option option" where
  "quoteIssue s amount nowSec =
     (if \<not> oracleGuardOk s nowSec then Some None else do {
        b \<leftarrow> mulDivCeil (rawPrice s * amount) 1 (compositionDivisor s);
        f \<leftarrow> mulDivCeil b (issueFeeBps s) 10000;
        Some (Some \<lparr>base = b, fee = f\<rparr>)
      })"

definition capGpuOf :: "int \<Rightarrow> int \<Rightarrow> int option" where \<comment> \<open>the cap in units at a price\<close>
  "capGpuOf capLeft denom = (if capLeft = 0 then Some 0 else mulDivFloor capLeft (10 ^ 20) denom)"

subsection \<open>Buys\<close>

record BuyLadder =
  lad_polGpu :: int
  lad_polSpend :: int
  lad_polFee :: int
  lad_issueGpu :: int
  lad_issue :: IssueQuote

definition no_issue :: IssueQuote where "no_issue = \<lparr>base = 0, fee = 0\<rparr>"

text \<open>The backstop leg: the exact residual demand when its total fits, the conservative budget
  otherwise.\<close>

definition demandFirst ::
  "HookMarketState \<Rightarrow> int \<Rightarrow> int \<Rightarrow> int \<Rightarrow> (int \<times> IssueQuote) option option" where
  "demandFirst s want leftover nowSec = do {
     overflow \<leftarrow> (if rawPrice s = 0 then Some True else
       map_option (\<lambda>c. c \<ge> 2 ^ 256) (mulDivCeil (rawPrice s * want) 1 (compositionDivisor s)));
     if want \<noteq> 0 \<and> issuanceEnabled s \<and> \<not> overflow then do {
       q \<leftarrow> quoteIssue s want nowSec;
       Some (case q of None \<Rightarrow> None | Some q \<Rightarrow> if total q \<le> leftover then Some (want, q) else None)
     } else Some None
   }"

definition conservative ::
  "HookMarketState \<Rightarrow> int \<Rightarrow> int \<Rightarrow> int \<Rightarrow> (int \<times> IssueQuote) option" where
  "conservative s want issueBudget nowSec =
     (let issueGpu = minBig [want, issueBudget] in
      if issueGpu > 0 \<and> issuanceEnabled s then do {
        q \<leftarrow> quoteIssue s issueGpu nowSec;
        Some (case q of None \<Rightarrow> (0, no_issue) | Some q \<Rightarrow> (issueGpu, q))
      } else Some (0, no_issue))"

definition buyLadder :: "HookMarketState \<Rightarrow> int \<Rightarrow> int \<Rightarrow> int \<Rightarrow> BuyLadder option" where
  "buyLadder s gusdBudget demandCap nowSec =
     (if gusdBudget = 0 then
        Some \<lparr>lad_polGpu = 0, lad_polSpend = 0, lad_polFee = 0, lad_issueGpu = 0, lad_issue = no_issue\<rparr>
      else do {
        let denomAsk = rawPrice s * (10000 + effAskBps s);
        capGpu \<leftarrow> capGpuOf (polCapLeft s) denomAsk;
        affordable \<leftarrow> mulDivFloor gusdBudget (10 ^ 20) denomAsk;
        let pol = minBig [affordable, askInventoryGpu s, capGpu, demandCap];
        polSpend \<leftarrow> mulDivCeil (pol * denomAsk) 1 (10 ^ 20);
        polFee \<leftarrow> mulDivCeil polSpend (polFeeBps s) 10000;
        let leftover = gusdBudget - polSpend;
        let issueHeadroom = (if leftover \<ge> 2 then leftover - 2 else 0);
        issueBudget \<leftarrow> mulDivFloor (issueHeadroom * compositionDivisor s * 10000) 1
          (rawPrice s * (10000 + issueFeeBps s));
        let want = demandCap - pol;
        first \<leftarrow> demandFirst s want leftover nowSec;
        (issueGpu, q) \<leftarrow> (case first of Some x \<Rightarrow> Some x | None \<Rightarrow> conservative s want issueBudget nowSec);
        Some \<lparr>lad_polGpu = pol, lad_polSpend = polSpend, lad_polFee = polFee, lad_issueGpu = issueGpu,
              lad_issue = q\<rparr>
      })"

definition quoteBuyExactOutMirror :: "HookMarketState \<Rightarrow> int \<Rightarrow> int \<Rightarrow> MirrorResult option" where
  "quoteBuyExactOutMirror s sizeRaw nowSec =
     (if \<not> oracleGuardOk s nowSec then Some (Rejected OracleStale None) else do {
        let effAsk = effAskBps s;
        let denomAsk = rawPrice s * (10000 + effAsk);
        capGpu \<leftarrow> capGpuOf (polCapLeft s) denomAsk;
        let pol = minBig [sizeRaw, askInventoryGpu s, capGpu];
        polSpend \<leftarrow> mulDivCeil (pol * denomAsk) 1 (10 ^ 20);
        polFee \<leftarrow> mulDivCeil polSpend (polFeeBps s) 10000;
        let issueGpu = sizeRaw - pol;
        issued \<leftarrow> (if issueGpu > 0 then
             if \<not> issuanceEnabled s then Some (if issueGpu > GPU_DUST then None else Some no_issue)
             else quoteIssue s issueGpu nowSec
           else Some (Some no_issue));
        (case issued of
           None \<Rightarrow> Some (Rejected NoAskCapacity (Some pol))
         | Some q \<Rightarrow> do {
             let charge = polSpend + total q;
             hookFee \<leftarrow> mulDivCeil charge (hookFeeBps s) 10000;
             Some (Filled \<lparr>isBuy = True, exactIn = False, gusdIn = charge + hookFee, gusdOut = 0, gpuIn = 0,
               gpuOut = sizeRaw, polGpu = pol, backstopGpu = issueGpu, polFeeGusd = polFee,
               hookFeeGusd = hookFee, issueBase = base q, issueFee = fee q\<rparr>)
           })
      })"

definition quoteBuyMirror :: "HookMarketState \<Rightarrow> int \<Rightarrow> int \<Rightarrow> MirrorResult option" where
  "quoteBuyMirror s spendRaw nowSec =
     (if \<not> oracleGuardOk s nowSec then Some (Rejected OracleStale None) else do {
        ceiled \<leftarrow> mulDivCeil spendRaw (hookFeeBps s) 10000;
        let hookFee = (if ceiled > spendRaw then spendRaw else ceiled);
        let budget = spendRaw - hookFee;
        ladder \<leftarrow> buyLadder s budget (2 ^ 256 - 1) nowSec;
        let grossGpu = lad_polGpu ladder + lad_issueGpu ladder;
        if grossGpu = 0 then Some (Rejected NoAskCapacity (Some 0))
        else Some (Filled \<lparr>isBuy = True, exactIn = True, gusdIn = spendRaw, gusdOut = 0, gpuIn = 0,
          gpuOut = grossGpu, polGpu = lad_polGpu ladder, backstopGpu = lad_issueGpu ladder,
          polFeeGusd = lad_polFee ladder, hookFeeGusd = hookFee, issueBase = base (lad_issue ladder),
          issueFee = fee (lad_issue ladder)\<rparr>)
      })"

subsection \<open>Sells\<close>

definition grossDraw :: "int \<Rightarrow> int \<Rightarrow> int \<Rightarrow> int option" where
  "grossDraw supply' polFee hookFee = do {
     p \<leftarrow> mulDivCeil supply' polFee 10000;
     h \<leftarrow> mulDivCeil supply' hookFee 10000;
     Some (supply' + p + h)
   }"

fun shrink :: "nat \<Rightarrow> int \<Rightarrow> int \<Rightarrow> int \<Rightarrow> int \<Rightarrow> int option" where
  "shrink 0 budget polFee hookFee supply' = Some supply'"
| "shrink (Suc i) budget polFee hookFee supply' = do {
     gross \<leftarrow> grossDraw supply' polFee hookFee;
     if gross \<le> budget then Some supply'
     else let over = gross - budget
          in shrink i budget polFee hookFee (if over \<ge> supply' then 0 else supply' - over)
   }"

definition supplyForGrossBudget :: "int \<Rightarrow> int \<Rightarrow> int \<Rightarrow> int option" where
  "supplyForGrossBudget budget polFee hookFee =
     (if budget = 0 then Some 0 else do {
        supply' \<leftarrow> mulDivFloor budget 10000 (10000 + (polFee + hookFee));
        shrink 4 budget polFee hookFee supply'
      })"

definition quoteSellMirror :: "HookMarketState \<Rightarrow> int \<Rightarrow> int \<Rightarrow> MirrorResult option" where
  "quoteSellMirror s sizeRaw nowSec =
     (if \<not> oracleGuardOk s nowSec then Some (Rejected OracleStale None) else
      let bidDenom = rawPrice s * (10000 - bidBps s) in
      if bidDenom = 0 then Some (Rejected NoBidCapacity (Some 0)) else do {
        capGpu \<leftarrow> capGpuOf (polCapLeft s) bidDenom;
        expressible \<leftarrow> mulDivFloor (bidInventoryGusd s) (10 ^ 20) bidDenom;
        let capacity = minBig [expressible, capGpu];
        let pol = minBig [sizeRaw, expressible, capGpu];
        let residual = sizeRaw - pol;
        if residual > GPU_DUST then Some (Rejected NoBidCapacity (Some capacity)) else do {
          gross \<leftarrow> mulDivFloor (pol * bidDenom) 1 (10 ^ 20);
          polFee \<leftarrow> mulDivCeil gross (polFeeBps s) 10000;
          let net = gross - polFee;
          hookFee \<leftarrow> mulDivCeil net (hookFeeBps s) 10000;
          Some (Filled \<lparr>isBuy = False, exactIn = True, gusdIn = 0, gusdOut = net - hookFee,
            gpuIn = sizeRaw, gpuOut = 0, polGpu = pol, backstopGpu = 0, polFeeGusd = polFee,
            hookFeeGusd = hookFee, issueBase = 0, issueFee = 0\<rparr>)
        }
      })"

definition quoteSellExactOutMirror :: "HookMarketState \<Rightarrow> int \<Rightarrow> int \<Rightarrow> MirrorResult option" where
  "quoteSellExactOutMirror s proceedsRaw nowSec =
     (if \<not> oracleGuardOk s nowSec then Some (Rejected OracleStale None) else do {
        let bidDenom = rawPrice s * (10000 - bidBps s);
        let budget = minBig [bidInventoryGusd s, polCapLeft s];
        supplyCap \<leftarrow> supplyForGrossBudget budget (polFeeBps s) (hookFeeBps s);
        let supply' = minBig [proceedsRaw, supplyCap];
        let residual = proceedsRaw - supply';
        if residual > GUSD_DUST then Some (Rejected NoBidCapacity (Some supplyCap)) else do {
          polFee \<leftarrow> mulDivCeil supply' (polFeeBps s) 10000;
          hookFee \<leftarrow> mulDivCeil supply' (hookFeeBps s) 10000;
          let gross = supply' + polFee + hookFee;
          gpuAbs \<leftarrow> (if bidDenom = 0 then Some 0 else mulDivCeil gross (10 ^ 20) bidDenom);
          Some (Filled \<lparr>isBuy = False, exactIn = False, gusdIn = 0, gusdOut = supply', gpuIn = gpuAbs,
            gpuOut = 0, polGpu = gpuAbs, backstopGpu = 0, polFeeGusd = polFee, hookFeeGusd = hookFee,
            issueBase = 0, issueFee = 0\<rparr>)
        }
      })"

record SellCapacity =
  maxUnitsRaw :: int
  maxProceedsRaw :: int

definition sellCapacityMirror :: "HookMarketState \<Rightarrow> int \<Rightarrow> SellCapacity option" where
  "sellCapacityMirror s nowSec =
     (if \<not> oracleGuardOk s nowSec then Some \<lparr>maxUnitsRaw = 0, maxProceedsRaw = 0\<rparr> else
      let bidDenom = rawPrice s * (10000 - bidBps s) in
      if bidDenom = 0 then Some \<lparr>maxUnitsRaw = 0, maxProceedsRaw = 0\<rparr> else do {
        let capLeft = polCapLeft s;
        expressible \<leftarrow> mulDivFloor (bidInventoryGusd s) (10 ^ 20) bidDenom;
        capGpu \<leftarrow> capGpuOf capLeft bidDenom;
        proceeds \<leftarrow> supplyForGrossBudget (minBig [bidInventoryGusd s, capLeft]) (polFeeBps s) (hookFeeBps s);
        Some \<lparr>maxUnitsRaw = minBig [expressible, capGpu], maxProceedsRaw = proceeds\<rparr>
      })"

end
