(* ===== verification/HookQuoteFacts.thy ===== *)
theory HookQuoteFacts
  imports HookQuote
begin

text \<open>
  What the quotes of the mirror promise: the largest supply a budget draws, the books of a buy, the
  sharpness of the capacities the desk shows, and that no pair of quotes is a free lunch. The
  hypotheses on the state (\<open>hook_ok\<close>) are what the contract's unsigned types and fee limits give.
\<close>

definition hook_ok :: "HookMarketState \<Rightarrow> bool" where
  "hook_ok s \<longleftrightarrow> 0 \<le> rawPrice s \<and> 0 \<le> askBps s \<and> 0 \<le> bidBps s \<and> bidBps s \<le> 10000 \<and>
     0 \<le> polFeeBps s \<and> 0 \<le> hookFeeBps s \<and> hookFeeBps s \<le> 10000 \<and> 0 \<le> issueFeeBps s \<and>
     issueFeeBps s < 10000 \<and> 0 < compositionDivisor s \<and> 0 \<le> bidInventoryGusd s \<and> 0 \<le> askInventoryGpu s \<and>
     0 \<le> maxPolNotionalGusd s \<and> 0 \<le> perBlockPolCapGusd s \<and> 0 \<le> perBlockUsedGusd s"

subsection \<open>Arithmetic\<close>

lemma floor_eq: "0 \<le> a * b \<Longrightarrow> 0 < d \<Longrightarrow> mulDivFloor a b d = Some (a * b div d)"
  by (simp add: mulDivFloor_def sdiv_pos)

lemma ceil_eq: "0 \<le> a * b \<Longrightarrow> 0 < d \<Longrightarrow> mulDivCeil a b d = Some (cdiv (a * b) d)"
  using mulDiv_ceil [of a b d] by (auto simp: mulDivCeil_def mulDiv_def Let_def split: if_splits)

lemma minBig_simps [simp]:
  "minBig [a, b] = min a b" "minBig [a, b, c] = min a (min b c)" "minBig [a, b, c, d] = min a (min b (min c d))"
  by (simp_all add: min_def)

declare minBig.simps [simp del]

lemma cap_nonneg: "hook_ok s \<Longrightarrow> 0 \<le> polCapLeft s"
  by (simp add: hook_ok_def polCapLeft_def Let_def)

lemma guard_price: "hook_ok s \<Longrightarrow> oracleGuardOk s n \<Longrightarrow> 0 < rawPrice s"
  by (auto simp: hook_ok_def oracleGuardOk_def split: if_splits)

lemma cdiv_step: "0 \<le> p \<Longrightarrow> 0 < d \<Longrightarrow> a \<le> b \<Longrightarrow> cdiv (a * p) d \<le> cdiv (b * p) d"
  by (intro cdiv_mono mult_right_mono)

lemma min4_le:
  "min a (min b (min c d)) \<le> a" "min a (min b (min c d)) \<le> b" "min a (min b (min c d)) \<le> c"
  "min a (min b (min c d)) \<le> (d :: int)"
  by simp_all

subsection \<open>The largest supply of a budget\<close>

definition draw :: "int \<Rightarrow> int \<Rightarrow> int \<Rightarrow> int" where
  "draw p h t = t + cdiv (t * p) 10000 + cdiv (t * h) 10000"

lemma grossDraw_eq: "0 \<le> t \<Longrightarrow> 0 \<le> p \<Longrightarrow> 0 \<le> h \<Longrightarrow> grossDraw t p h = Some (draw p h t)"
  by (simp add: grossDraw_def draw_def ceil_eq)

lemma draw_mono: "0 \<le> p \<Longrightarrow> 0 \<le> h \<Longrightarrow> a \<le> b \<Longrightarrow> draw p h a + (b - a) \<le> draw p h b"
  using cdiv_step [of p 10000 a b] cdiv_step [of h 10000 a b] by (simp add: draw_def)

lemma draw_estimate:
  assumes "0 \<le> B" "0 \<le> p" "0 \<le> h" "s = B * 10000 div (10000 + (p + h))"
  shows "draw p h s \<le> B + 1" "B < draw p h (s + 1)"
proof -
  have D: "0 < 10000 + (p + h)" using assms by simp
  note b = div_bounds [OF D, of "B * 10000", folded assms(4)]
  have c: "n \<le> cdiv n 10000 * 10000" "cdiv n 10000 * 10000 < n + 10000" for n
    using cdiv_bounds [of 10000 n] by simp_all
  show "draw p h s \<le> B + 1"
    using b(1) c(2) [of "s * p"] c(2) [of "s * h"] by (simp add: draw_def algebra_simps)
  show "B < draw p h (s + 1)"
    using b(2) c(1) [of "(s + 1) * p"] c(1) [of "(s + 1) * h"]
    by (simp add: draw_def algebra_simps)
qed

lemma supply_eq:
  assumes "0 \<le> B" "0 \<le> p" "0 \<le> h"
  shows "\<exists>s. supplyForGrossBudget B p h = Some s \<and> 0 \<le> s \<and> (\<forall>t \<ge> 0. draw p h t \<le> B \<longleftrightarrow> t \<le> s)"
proof (cases "B = 0")
  case True
  have "draw p h t \<le> 0 \<longleftrightarrow> t \<le> 0" if "0 \<le> t" for t
    using draw_mono [OF assms(2,3) that] that by (auto simp: draw_def cdiv_def)
  then show ?thesis using True by (auto simp: supplyForGrossBudget_def)
next
  case False
  define s where "s = B * 10000 div (10000 + (p + h))"
  have s0: "0 \<le> s" unfolding s_def using assms by (simp add: pos_imp_zdiv_nonneg_iff)
  note est = draw_estimate [OF assms s_def]
  have mono: "draw p h a \<le> draw p h b - (b - a)" if "a \<le> b" for a b
    using draw_mono [OF assms(2,3) that] by simp
  define s' where "s' = (if draw p h s \<le> B then s else s - 1)"
  have start: "supplyForGrossBudget B p h = shrink 4 B p h s"
    using False assms by (simp add: supplyForGrossBudget_def floor_eq s_def)
  have pos: "0 < s" if "\<not> draw p h s \<le> B"
    using that s0 assms(1) by (cases "s = 0") (auto simp: draw_def cdiv_def)
  have "shrink 4 B p h s = Some s'"
  proof (cases "draw p h s \<le> B")
    case True
    then show ?thesis using s0 assms by (simp add: s'_def numeral_eq_Suc grossDraw_eq)
  next
    case False
    then have over: "draw p h s = B + 1" using est(1) by simp
    have "draw p h (s - 1) \<le> B" using mono [of "s - 1" s] over by simp
    moreover have "(if draw p h s - B \<ge> s then 0 else s - (draw p h s - B)) = s - 1"
      using pos [OF False] over by auto
    ultimately show ?thesis
      using s0 pos [OF False] over assms by (simp add: s'_def numeral_eq_Suc grossDraw_eq Let_def)
  qed
  moreover have "0 \<le> s'" using s0 pos by (auto simp: s'_def)
  moreover have "draw p h t \<le> B \<longleftrightarrow> t \<le> s'" for t
  proof
    assume "draw p h t \<le> B"
    show "t \<le> s'"
    proof (rule ccontr)
      assume "\<not> t \<le> s'"
      then have "draw p h (s' + 1) \<le> draw p h t" using mono [of "s' + 1" t] by simp
      moreover have "B < draw p h (s' + 1)" using est(2) by (auto simp: s'_def)
      ultimately show False using \<open>draw p h t \<le> B\<close> by simp
    qed
  next
    assume "t \<le> s'"
    then have "draw p h t \<le> draw p h s'" using mono [of t s'] by simp
    also have "draw p h s' \<le> B" using est(1) mono [of "s - 1" s] by (auto simp: s'_def)
    finally show "draw p h t \<le> B" .
  qed
  ultimately show ?thesis using start by auto
qed

text \<open>The supply computed for a budget is the largest one whose draw, fees included, stays within
  it, although the loop makes four steps at most and the estimate rounds three times.\<close>
theorem supply_is_the_largest:
  assumes "0 \<le> B" "0 \<le> p" "0 \<le> h" "0 \<le> t"
  shows "\<exists>s g. supplyForGrossBudget B p h = Some s \<and> grossDraw t p h = Some g \<and> (g \<le> B \<longleftrightarrow> t \<le> s)"
  using supply_eq [OF assms(1-3)] grossDraw_eq [OF assms(4,2,3)] assms(4) by auto

theorem supply_is_the_largest_witness:
  "supplyForGrossBudget 1000003 30 70 = Some 990101 \<and> (\<exists>g. grossDraw 990102 30 70 = Some g \<and> \<not> g \<le> 1000003)"
proof -
  have "supplyForGrossBudget 1000003 30 70 = Some 990101" by code_simp
  then show ?thesis using supply_is_the_largest [of 1000003 30 70 990102] by auto
qed

subsection \<open>The books of a buy\<close>

definition issueAt :: "HookMarketState \<Rightarrow> int \<Rightarrow> IssueQuote" where
  "issueAt s a = (let b = cdiv (rawPrice s * a) (compositionDivisor s)
                  in \<lparr>base = b, fee = cdiv (b * issueFeeBps s) 10000\<rparr>)"

lemma issueAt_bounds:
  assumes "hook_ok s" "0 \<le> a"
  shows "0 \<le> base (issueAt s a)" "0 \<le> fee (issueAt s a)"
    "rawPrice s * a \<le> base (issueAt s a) * compositionDivisor s"
proof -
  have ok: "0 \<le> rawPrice s * a" "0 < compositionDivisor s" "0 \<le> issueFeeBps s"
    using assms by (simp_all add: hook_ok_def)
  then have b: "0 \<le> cdiv (rawPrice s * a) (compositionDivisor s)" by (intro cdiv_nonneg)
  then show "0 \<le> base (issueAt s a)" by (simp add: issueAt_def Let_def)
  show "0 \<le> fee (issueAt s a)" using b ok(3) by (simp add: issueAt_def Let_def cdiv_nonneg)
  show "rawPrice s * a \<le> base (issueAt s a) * compositionDivisor s"
    using cdiv_bounds [OF ok(2), of "rawPrice s * a"] by (simp add: issueAt_def Let_def)
qed

lemma quoteIssue_eq:
  assumes "hook_ok s" "oracleGuardOk s n" "0 \<le> a"
  shows "quoteIssue s a n = Some (Some (issueAt s a))"
proof -
  have "0 \<le> rawPrice s * a" "0 < compositionDivisor s" "0 \<le> issueFeeBps s" using assms by (simp_all add: hook_ok_def)
  then show ?thesis using assms(2) by (simp add: quoteIssue_def issueAt_def Let_def ceil_eq cdiv_nonneg)
qed

lemma budget_covers_issue:
  assumes "hook_ok s" "0 < rawPrice s" "0 \<le> H" "0 \<le> x"
    and "x \<le> H * compositionDivisor s * 10000 div (rawPrice s * (10000 + issueFeeBps s))"
  shows "total (issueAt s x) \<le> H + 2"
proof -
  define cd f where "cd = compositionDivisor s" and "f = issueFeeBps s"
  define b g where "b = base (issueAt s x)" and "g = fee (issueAt s x)"
  have ok: "0 < cd" "0 \<le> f" "f < 10000" using assms(1) by (simp_all add: hook_ok_def cd_def f_def)
  have "0 < rawPrice s * (10000 + f)" using assms(2) ok by simp
  note d = div_bounds(1) [OF this, of "H * cd * 10000"]
  have "x * (rawPrice s * (10000 + f)) \<le> H * cd * 10000"
    using assms(2,5) ok by (intro order_trans [OF mult_right_mono d]) (simp_all add: cd_def f_def)
  then have x: "(rawPrice s * x) * (10000 + f) \<le> H * cd * 10000" by (simp add: ac_simps)
  have "b * cd \<le> rawPrice s * x + cd - 1"
    using cdiv_bounds [OF ok(1), of "rawPrice s * x"] by (simp add: b_def cd_def issueAt_def Let_def)
  then have "b * cd * (10000 + f) \<le> (rawPrice s * x + cd - 1) * (10000 + f)"
    using ok by (intro mult_right_mono) simp_all
  then have "b * (10000 + f) * cd < (H * 10000 + 10000 + f) * cd"
    using x ok by (simp add: algebra_simps)
  then have b: "b * (10000 + f) < H * 10000 + 10000 + f" using ok(1) by simp
  have "g * 10000 < b * f + 10000"
    using cdiv_bounds [of 10000 "b * f"] by (simp add: g_def b_def f_def issueAt_def Let_def)
  then have "(b + g) * 10000 < (H + 3) * 10000" using b ok by (simp add: algebra_simps)
  then show ?thesis by (simp add: total_def b_def g_def)
qed

text \<open>What the ladder spends and fills.\<close>

definition ladder_ok :: "HookMarketState \<Rightarrow> int \<Rightarrow> BuyLadder \<Rightarrow> bool" where
  "ladder_ok s budget L \<longleftrightarrow>
     0 \<le> lad_polGpu L \<and> lad_polGpu L \<le> askInventoryGpu s \<and> 0 \<le> lad_issueGpu L \<and>
     lad_polGpu L * (rawPrice s * (10000 + effAskBps s)) \<le> lad_polSpend L * 10 ^ 20 \<and>
     0 \<le> lad_polSpend L \<and> lad_polSpend L \<le> polCapLeft s \<and>
     rawPrice s * lad_issueGpu L \<le> base (lad_issue L) * compositionDivisor s \<and>
     0 \<le> base (lad_issue L) \<and> 0 \<le> fee (lad_issue L) \<and>
     lad_polSpend L + total (lad_issue L) \<le> budget"

text \<open>The ladder in full: the leg from the vault is the largest one its four limits allow, both legs
  are charged at their price rounded up once per factor, and the issuance meets the demand or is the
  largest one the conservative budget (what is left less two wei) pays.\<close>

definition ladder_books :: "HookMarketState \<Rightarrow> int \<Rightarrow> int \<Rightarrow> BuyLadder \<Rightarrow> bool" where
  "ladder_books s budget cap L \<longleftrightarrow>
     (let d = rawPrice s * (10000 + effAskBps s); pol = lad_polGpu L; issued = lad_issueGpu L;
          spend = cdiv (pol * d) (10 ^ 20) in
      0 \<le> pol \<and> pol \<le> askInventoryGpu s \<and> pol \<le> cap \<and> pol * d \<le> budget * 10 ^ 20 \<and>
      pol * d \<le> polCapLeft s * 10 ^ 20 \<and>
      (pol = askInventoryGpu s \<or> pol = cap \<or> budget * 10 ^ 20 < (pol + 1) * d \<or>
       polCapLeft s * 10 ^ 20 < (pol + 1) * d) \<and>
      lad_polSpend L = spend \<and> lad_polFee L = cdiv (spend * polFeeBps s) 10000 \<and>
      0 \<le> issued \<and> lad_issue L = issueAt s issued \<and> spend + total (issueAt s issued) \<le> budget \<and>
      (if issuanceEnabled s
       then pol + issued = cap \<or>
         (budget - spend - 2) * (compositionDivisor s * 10000) < (issued + 1) * (rawPrice s * (10000 + issueFeeBps s))
       else issued = 0))"

lemma issueAt_0: "issueAt s 0 = no_issue" by (simp add: issueAt_def no_issue_def cdiv_def)

lemma effAsk_nonneg: "hook_ok s \<Longrightarrow> 0 \<le> effAskBps s"
  by (auto simp: hook_ok_def effAskBps_def Let_def)

lemma capGpu_eq:
  assumes "hook_ok s" "0 < d"
  shows "capGpuOf (polCapLeft s) d = Some (polCapLeft s * 10 ^ 20 div d)"
  using assms cap_nonneg [OF assms(1)] by (auto simp: capGpuOf_def floor_eq)

lemma cdiv_le: "0 < d \<Longrightarrow> n \<le> q * d \<Longrightarrow> cdiv n (d :: int) \<le> q"
proof -
  assume d: "0 < d" and n: "n \<le> q * d"
  have "cdiv n d * d < (q + 1) * d" using cdiv_bounds [OF d, of n] n by (simp add: algebra_simps)
  then show ?thesis using d by simp
qed

lemma pol_fill:
  assumes "0 < d" "0 \<le> g" "g \<le> c * 10 ^ 20 div d"
  shows "cdiv (g * d) (10 ^ 20) \<le> c" "g * d \<le> cdiv (g * d) (10 ^ 20) * 10 ^ 20" "0 \<le> cdiv (g * d) (10 ^ 20)"
proof -
  have "g * d \<le> c * 10 ^ 20 div d * d" using assms by (intro mult_right_mono) simp_all
  also have "\<dots> \<le> c * 10 ^ 20" by (rule div_bounds(1) [OF assms(1)])
  finally show "cdiv (g * d) (10 ^ 20) \<le> c" by (rule cdiv_le [rotated]) simp
  show "g * d \<le> cdiv (g * d) (10 ^ 20) * 10 ^ 20" using cdiv_bounds [of "10 ^ 20" "g * d"] by simp
  show "0 \<le> cdiv (g * d) (10 ^ 20)" using assms by (intro cdiv_nonneg) simp_all
qed

lemma demandFirst_eq:
  assumes "hook_ok s" "oracleGuardOk s n" "0 \<le> want" "demandFirst s want leftover n = Some r"
  shows "r = None \<or> r = Some (want, issueAt s want) \<and> total (issueAt s want) \<le> leftover \<and> issuanceEnabled s"
  using assms quoteIssue_eq [OF assms(1-3)]
  by (auto simp: demandFirst_def split: if_splits Option.bind_splits)

lemma conservative_eq:
  assumes "hook_ok s" "oracleGuardOk s n" "0 \<le> want" "0 \<le> ib" "conservative s want ib n = Some (g, q)"
  shows "g = (if issuanceEnabled s then min want ib else 0)" "q = issueAt s g"
  using assms quoteIssue_eq [OF assms(1,2), of "min want ib"]
  by (auto simp: conservative_def Let_def issueAt_0 split: if_splits)

lemma largest_issue:
  assumes "hook_ok s" "0 < rawPrice s" "H = (if B \<ge> 2 then B - 2 else 0)"
    and "x = H * compositionDivisor s * 10000 div (rawPrice s * (10000 + issueFeeBps s))"
  shows "(B - 2) * (compositionDivisor s * 10000) < (x + 1) * (rawPrice s * (10000 + issueFeeBps s))"
proof -
  have "0 < rawPrice s * (10000 + issueFeeBps s)" "0 < compositionDivisor s"
    using assms(1,2) by (simp_all add: hook_ok_def)
  note ok = this
  have "(B - 2) * (compositionDivisor s * 10000) \<le> H * (compositionDivisor s * 10000)"
    using ok(2) by (intro mult_right_mono) (simp_all add: assms(3))
  also have "\<dots> < (x + 1) * (rawPrice s * (10000 + issueFeeBps s))"
    using div_bounds(2) [OF ok(1), of "H * compositionDivisor s * 10000"] by (simp add: assms(4) algebra_simps)
  finally show ?thesis .
qed

lemma largest_fill:
  assumes "0 < d" "g = min (b * 10 ^ 20 div d) (min i (min (c * 10 ^ 20 div d) k))" "(0 :: int) \<le> g"
  shows "g \<le> i" "g \<le> k" "g * d \<le> b * 10 ^ 20" "g * d \<le> c * 10 ^ 20"
    "g = i \<or> g = k \<or> b * 10 ^ 20 < (g + 1) * d \<or> c * 10 ^ 20 < (g + 1) * d"
proof -
  have le: "g * d \<le> n" if "g \<le> n div d" for n
    using order_trans [OF mult_right_mono [OF that, of d] div_bounds(1) [OF assms(1), of n]] assms(1)
    by (simp add: mult_nonneg_nonneg)
  have gt: "n < (g + 1) * d" if "g = n div d" for n
    using that div_bounds(2) [OF assms(1), of n] by (simp add: algebra_simps)
  show "g \<le> i" "g \<le> k" using assms(2) by simp_all
  show "g * d \<le> b * 10 ^ 20" "g * d \<le> c * 10 ^ 20" by (rule le, simp add: assms(2))+
  consider "g = b * 10 ^ 20 div d" | "g = i" | "g = c * 10 ^ 20 div d" | "g = k"
    using assms(2) by (auto simp: min_def split: if_splits)
  then show "g = i \<or> g = k \<or> b * 10 ^ 20 < (g + 1) * d \<or> c * 10 ^ 20 < (g + 1) * d"
    by cases (use gt in auto)
qed

lemma buyLadder_books:
  assumes "hook_ok s" "oracleGuardOk s n" "0 \<le> budget" "0 \<le> cap" "buyLadder s budget cap n = Some L"
  shows "ladder_books s budget cap L"
proof (cases "budget = 0")
  case True
  have "0 < rawPrice s * (10000 + effAskBps s)" "0 < rawPrice s * (10000 + issueFeeBps s)"
      "0 < compositionDivisor s"
    using assms(1) guard_price [OF assms(1,2)] effAsk_nonneg [OF assms(1)] by (simp_all add: hook_ok_def)
  then show ?thesis
    using True assms cap_nonneg [OF assms(1)]
    by (auto simp: buyLadder_def ladder_books_def Let_def issueAt_0 no_issue_def total_def hook_ok_def cdiv_def)
next
  case False
  have price: "0 < rawPrice s" by (rule guard_price [OF assms(1,2)])
  define d where "d = rawPrice s * (10000 + effAskBps s)"
  have d: "0 < d" using price effAsk_nonneg [OF assms(1)] by (simp add: d_def)
  define pol where "pol = min (budget * 10 ^ 20 div d) (min (askInventoryGpu s)
    (min (polCapLeft s * 10 ^ 20 div d) cap))"
  have pol0: "0 \<le> pol"
    using assms d cap_nonneg [OF assms(1)] by (simp add: pol_def hook_ok_def pos_imp_zdiv_nonneg_iff)
  note fill = largest_fill [OF d pol_def pol0]
  define spend where "spend = cdiv (pol * d) (10 ^ 20)"
  have sp: "spend \<le> budget" "0 \<le> spend"
    using cdiv_le [of "10 ^ 20" "pol * d" budget] fill(3) pol0 d by (simp_all add: spend_def cdiv_nonneg)
  define H where "H = (if budget - spend \<ge> 2 then budget - spend - 2 else 0)"
  define ib where "ib = H * compositionDivisor s * 10000 div (rawPrice s * (10000 + issueFeeBps s))"
  have H: "0 \<le> H" by (simp add: H_def)
  have cd: "0 < compositionDivisor s" "0 \<le> issueFeeBps s" using assms(1) by (simp_all add: hook_ok_def)
  have ib0: "0 \<le> ib" using H cd price by (simp add: ib_def pos_imp_zdiv_nonneg_iff)
  note e1 = capGpu_eq [OF assms(1) d]
  have e2: "mulDivFloor budget (10 ^ 20) d = Some (budget * 10 ^ 20 div d)"
    using assms(3) d by (intro floor_eq) simp_all
  have e3: "mulDivCeil (pol * d) 1 (10 ^ 20) = Some spend"
    using ceil_eq [of "pol * d" 1 "10 ^ 20"] pol0 d by (simp add: spend_def)
  have e4: "mulDivCeil spend (polFeeBps s) 10000 = Some (cdiv (spend * polFeeBps s) 10000)"
    using sp(2) assms(1) by (intro ceil_eq) (simp_all add: hook_ok_def)
  have e5: "mulDivFloor (H * compositionDivisor s * 10000) 1 (rawPrice s * (10000 + issueFeeBps s)) = Some ib"
    using H cd price floor_eq [of "H * compositionDivisor s * 10000" 1 "rawPrice s * (10000 + issueFeeBps s)"]
    by (simp add: ib_def)
  have "do {
      first \<leftarrow> demandFirst s (cap - pol) (budget - spend) n;
      (issueGpu, q) \<leftarrow> (case first of Some x \<Rightarrow> Some x | None \<Rightarrow> conservative s (cap - pol) ib n);
      Some \<lparr>lad_polGpu = pol, lad_polSpend = spend, lad_polFee = cdiv (spend * polFeeBps s) 10000,
        lad_issueGpu = issueGpu, lad_issue = q\<rparr>
    } = Some L"
    using assms(5) False
    by (simp only: buyLadder_def Let_def d_def [symmetric] e1 e2 e3 e4 e5 minBig_simps pol_def [symmetric]
        H_def [symmetric] if_False Option.bind.simps)
  then obtain g q where L: "L = \<lparr>lad_polGpu = pol, lad_polSpend = spend,
        lad_polFee = cdiv (spend * polFeeBps s) 10000, lad_issueGpu = g, lad_issue = q\<rparr>"
    and leg: "demandFirst s (cap - pol) (budget - spend) n = Some (Some (g, q)) \<or>
      conservative s (cap - pol) ib n = Some (g, q)"
    by (auto split: Option.bind_splits option.splits)
  have cap: "0 \<le> cap - pol" using fill(2) by simp
  have "0 \<le> g \<and> q = issueAt s g \<and> total q \<le> budget - spend \<and>
      (if issuanceEnabled s then pol + g = cap \<or> g = ib else g = 0)"
  proof (rule disjE [OF leg])
    assume "demandFirst s (cap - pol) (budget - spend) n = Some (Some (g, q))"
    then show ?thesis using demandFirst_eq [OF assms(1,2) cap] cap by fastforce
  next
    assume "conservative s (cap - pol) ib n = Some (g, q)"
    note c = conservative_eq [OF assms(1,2) cap ib0 this]
    have "total (issueAt s g) \<le> budget - spend"
    proof (cases "g = 0")
      case True
      then show ?thesis using sp(1) by (simp add: issueAt_0 no_issue_def total_def)
    next
      case False
      then have g: "0 \<le> g" "g \<le> ib" using c(1) cap ib0 by (auto split: if_splits)
      then have "H \<noteq> 0" using False by (auto simp: ib_def)
      then have "budget - spend = H + 2" by (simp add: H_def split: if_splits)
      then show ?thesis using budget_covers_issue [OF assms(1) price H, of g] g by (simp add: ib_def)
    qed
    then show ?thesis using c cap ib0 by (auto simp: min_def split: if_splits)
  qed
  note g = this
  have "if issuanceEnabled s
      then pol + g = cap \<or>
        (budget - spend - 2) * (compositionDivisor s * 10000) < (g + 1) * (rawPrice s * (10000 + issueFeeBps s))
      else g = 0"
    using g largest_issue [OF assms(1) price H_def ib_def] by (cases "issuanceEnabled s") auto
  moreover have "spend + total (issueAt s g) \<le> budget" using g by auto
  moreover note g = g [THEN conjunct1] g [THEN conjunct2, THEN conjunct1]
  ultimately show ?thesis
    unfolding ladder_books_def Let_def L BuyLadder.simps d_def [symmetric] spend_def [symmetric] g(2)
    using fill pol0 g(1) by blast
qed

lemma books_ok:
  assumes "hook_ok s" "ladder_books s budget cap L"
  shows "ladder_ok s budget L"
proof -
  define d where "d = rawPrice s * (10000 + effAskBps s)"
  have d: "0 \<le> d" using assms(1) effAsk_nonneg [OF assms(1)] by (simp add: d_def hook_ok_def)
  have b: "0 \<le> lad_polGpu L" "lad_polGpu L \<le> askInventoryGpu s" "0 \<le> lad_issueGpu L"
      "lad_polSpend L = cdiv (lad_polGpu L * d) (10 ^ 20)" "lad_polGpu L * d \<le> polCapLeft s * 10 ^ 20"
      "lad_issue L = issueAt s (lad_issueGpu L)" "lad_polSpend L + total (lad_issue L) \<le> budget"
    using assms(2) by (simp_all add: ladder_books_def Let_def d_def)
  have "lad_polGpu L * d \<le> lad_polSpend L * 10 ^ 20"
    using cdiv_bounds [of "10 ^ 20" "lad_polGpu L * d"] by (simp add: b(4))
  moreover have "lad_polSpend L \<le> polCapLeft s" unfolding b(4) by (rule cdiv_le [OF _ b(5)]) simp
  moreover have "0 \<le> lad_polSpend L" unfolding b(4) using b(1) d by (intro cdiv_nonneg) simp_all
  ultimately show ?thesis
    using b issueAt_bounds [OF assms(1) b(3)] by (simp add: ladder_ok_def d_def)
qed

lemma quoteBuyMirror_books:
  assumes "hook_ok s" "0 \<le> spend" "quoteBuyMirror s spend n = Some (Filled q)"
  shows "oracleGuardOk s n \<and> gusdIn q = spend \<and> gpuOut q = polGpu q + backstopGpu q \<and> 0 < gpuOut q \<and>
    hookFeeGusd q = min spend (cdiv (spend * hookFeeBps s) 10000) \<and>
    ladder_books s (spend - hookFeeGusd q) (2 ^ 256 - 1)
      \<lparr>lad_polGpu = polGpu q, lad_polSpend = cdiv (polGpu q * (rawPrice s * (10000 + effAskBps s))) (10 ^ 20),
       lad_polFee = polFeeGusd q, lad_issueGpu = backstopGpu q,
       lad_issue = \<lparr>base = issueBase q, fee = issueFee q\<rparr>\<rparr>"
proof -
  have guard: "oracleGuardOk s n" using assms(3) by (simp add: quoteBuyMirror_def split: if_splits)
  define ceiled where "ceiled = cdiv (spend * hookFeeBps s) 10000"
  define h where "h = (if ceiled > spend then spend else ceiled)"
  have h: "h = min spend ceiled" "h \<le> spend" by (simp_all add: h_def)
  have "mulDivCeil spend (hookFeeBps s) 10000 = Some ceiled"
    unfolding ceiled_def using assms(1,2) by (intro ceil_eq) (simp_all add: hook_ok_def)
  then obtain L where L: "buyLadder s (spend - h) (2 ^ 256 - 1) n = Some L"
    and q: "lad_polGpu L + lad_issueGpu L \<noteq> 0" "gusdIn q = spend" "gpuOut q = lad_polGpu L + lad_issueGpu L"
      "hookFeeGusd q = h" "polGpu q = lad_polGpu L" "backstopGpu q = lad_issueGpu L"
      "issueBase q = base (lad_issue L)" "issueFee q = fee (lad_issue L)" "polFeeGusd q = lad_polFee L"
    using assms(3) guard
    by (auto simp: quoteBuyMirror_def Let_def h_def [symmetric] split: Option.bind_splits if_splits)
  have books: "ladder_books s (spend - h) (2 ^ 256 - 1) L"
    using buyLadder_books [OF assms(1) guard _ _ L] h by simp
  then have "0 \<le> lad_polGpu L" "0 \<le> lad_issueGpu L" by (simp_all add: ladder_books_def Let_def)
  moreover have "ladder_books s (spend - hookFeeGusd q) (2 ^ 256 - 1)
      \<lparr>lad_polGpu = polGpu q, lad_polSpend = cdiv (polGpu q * (rawPrice s * (10000 + effAskBps s))) (10 ^ 20),
       lad_polFee = polFeeGusd q, lad_issueGpu = backstopGpu q,
       lad_issue = \<lparr>base = issueBase q, fee = issueFee q\<rparr>\<rparr>"
    using books by (simp add: ladder_books_def Let_def q)
  ultimately show ?thesis using guard h q by (simp add: ceiled_def)
qed

lemma hookFee_bounds:
  assumes "hook_ok s" "0 \<le> spend"
  shows "0 \<le> min spend (cdiv (spend * hookFeeBps s) 10000)" "min spend (cdiv (spend * hookFeeBps s) 10000) \<le> spend"
  using assms by (auto simp: hook_ok_def intro!: cdiv_nonneg)

lemma quoteBuyMirror_shape:
  assumes "hook_ok s" "0 \<le> spend" "quoteBuyMirror s spend n = Some (Filled q)"
  shows "oracleGuardOk s n \<and> gusdIn q = spend \<and> gpuOut q = polGpu q + backstopGpu q \<and> 0 < gpuOut q \<and>
    0 \<le> hookFeeGusd q \<and> hookFeeGusd q \<le> spend \<and>
    (\<exists>L. ladder_ok s (spend - hookFeeGusd q) L \<and> polGpu q = lad_polGpu L \<and> backstopGpu q = lad_issueGpu L \<and>
       issueBase q = base (lad_issue L) \<and> issueFee q = fee (lad_issue L))"
  using quoteBuyMirror_books [OF assms] hookFee_bounds [OF assms(1,2)] books_ok [OF assms(1)] by fastforce

text \<open>C20. The books of a money-first buy. The hook fee is charged on what was typed, rounded up.
  With what is left, the leg from the vault is charged the ask price rounded up and is the largest
  one that the money, the vault and the caps allow; the issuance is charged its price and fee, each
  rounded up, is empty while issuance is disabled, and otherwise reaches the size cap or is the
  largest one the money left less two wei pays, so one unit more would cost more than that. The
  charges together never exceed what was typed.\<close>
theorem money_first_buy_books:
  assumes "hook_ok s" "0 \<le> spend" "quoteBuyMirror s spend n = Some (Filled q)"
  shows "let d = rawPrice s * (10000 + effAskBps s); paid = cdiv (polGpu q * d) (10 ^ 20);
      budget = spend - hookFeeGusd q in
    gusdIn q = spend \<and> hookFeeGusd q = min spend (cdiv (spend * hookFeeBps s) 10000) \<and>
    gpuOut q = polGpu q + backstopGpu q \<and> 0 < gpuOut q \<and>
    0 \<le> polGpu q \<and> polGpu q \<le> askInventoryGpu s \<and> polGpu q * d \<le> polCapLeft s * 10 ^ 20 \<and>
    (polGpu q = askInventoryGpu s \<or> polGpu q = 2 ^ 256 - 1 \<or> budget * 10 ^ 20 < (polGpu q + 1) * d \<or>
     polCapLeft s * 10 ^ 20 < (polGpu q + 1) * d) \<and>
    polFeeGusd q = cdiv (paid * polFeeBps s) 10000 \<and>
    issueBase q = cdiv (rawPrice s * backstopGpu q) (compositionDivisor s) \<and>
    issueFee q = cdiv (issueBase q * issueFeeBps s) 10000 \<and>
    paid + issueBase q + issueFee q + hookFeeGusd q \<le> spend \<and> 0 \<le> backstopGpu q \<and>
    (if issuanceEnabled s
     then gpuOut q = 2 ^ 256 - 1 \<or>
       (budget - paid - 2) * (compositionDivisor s * 10000) <
         (backstopGpu q + 1) * (rawPrice s * (10000 + issueFeeBps s))
     else backstopGpu q = 0)"
  using quoteBuyMirror_books [OF assms]
  by (auto simp: ladder_books_def Let_def issueAt_def total_def)

lemma exactOut_shape:
  assumes "hook_ok s" "0 \<le> sz" "quoteBuyExactOutMirror s sz n = Some (Filled q)"
  shows "\<exists>spend issue. oracleGuardOk s n \<and> gpuOut q = sz \<and> sz = polGpu q + backstopGpu q \<and> 0 \<le> polGpu q \<and>
    polGpu q \<le> askInventoryGpu s \<and> 0 \<le> backstopGpu q \<and>
    spend = cdiv (polGpu q * (rawPrice s * (10000 + effAskBps s))) (10 ^ 20) \<and> spend \<le> polCapLeft s \<and>
    issueBase q = base issue \<and> issueFee q = fee issue \<and>
    (issue = issueAt s (backstopGpu q) \<or> issue = no_issue \<and> backstopGpu q \<le> 1) \<and>
    hookFeeGusd q = cdiv ((spend + total issue) * hookFeeBps s) 10000 \<and>
    gusdIn q = spend + total issue + hookFeeGusd q"
proof -
  have guard: "oracleGuardOk s n" using assms(3) by (simp add: quoteBuyExactOutMirror_def split: if_splits)
  define d where "d = rawPrice s * (10000 + effAskBps s)"
  have d: "0 < d" using guard_price [OF assms(1) guard] effAsk_nonneg [OF assms(1)] by (simp add: d_def)
  define c where "c = polCapLeft s * 10 ^ 20 div d"
  have cap: "capGpuOf (polCapLeft s) d = Some c" unfolding c_def by (rule capGpu_eq [OF assms(1) d])
  have c0: "0 \<le> c" using cap_nonneg [OF assms(1)] d by (simp add: c_def pos_imp_zdiv_nonneg_iff)
  define pol where "pol = min sz (min (askInventoryGpu s) c)"
  have pol: "0 \<le> pol" "pol \<le> sz" "pol \<le> askInventoryGpu s" "pol \<le> c"
    using assms(1,2) c0 by (simp_all add: pol_def hook_ok_def)
  define spend where "spend = cdiv (pol * d) (10 ^ 20)"
  have sp: "0 \<le> spend" "spend \<le> polCapLeft s"
    using pol_fill [OF d pol(1), of "polCapLeft s"] pol(4) by (simp_all add: spend_def c_def)
  have e: "mulDivCeil (pol * d) 1 (10 ^ 20) = Some spend"
    using ceil_eq [of "pol * d" 1 "10 ^ 20"] pol(1) d by (simp add: spend_def)
  have issued: "quoteIssue s (sz - pol) n = Some (Some (issueAt s (sz - pol)))"
    using pol by (intro quoteIssue_eq [OF assms(1) guard]) simp
  note zero = issueAt_0 [of s]
  obtain pf where "mulDivCeil spend (polFeeBps s) 10000 = Some pf" by (simp add: mulDivCeil_def Let_def)
  then obtain issue hf where q: "gpuOut q = sz" "polGpu q = pol" "backstopGpu q = sz - pol"
      "issueBase q = base issue" "issueFee q = fee issue" "hookFeeGusd q = hf"
      "gusdIn q = spend + total issue + hf"
    and i: "issue = issueAt s (sz - pol) \<or> issue = no_issue \<and> sz - pol \<le> 1"
    and hf: "mulDivCeil (spend + total issue) (hookFeeBps s) 10000 = Some hf"
    using assms(3) guard e cap issued zero pol(2)
    by (auto simp: quoteBuyExactOutMirror_def d_def [symmetric] pol_def [symmetric] GPU_DUST_def Let_def
        split: if_splits Option.bind_splits)
  have "0 \<le> total issue"
    using i issueAt_bounds [OF assms(1), of "sz - pol"] pol(2) by (auto simp: total_def no_issue_def)
  then have "hf = cdiv ((spend + total issue) * hookFeeBps s) 10000"
    using hf ceil_eq [of "spend + total issue" "hookFeeBps s" 10000] sp(1) assms(1) by (simp add: hook_ok_def)
  then show ?thesis
    using guard pol sp q i by (intro exI [of _ spend] exI [of _ issue]) (simp add: spend_def d_def)
qed

subsection \<open>Sells\<close>

lemma bid_nonneg: "hook_ok s \<Longrightarrow> 0 \<le> rawPrice s * (10000 - bidBps s)"
  by (simp add: hook_ok_def)

text \<open>The sale of units, with the figures it computes.\<close>

lemma quoteSell_eq:
  assumes "hook_ok s" "oracleGuardOk s n" "0 \<le> sz"
    and d: "d = rawPrice s * (10000 - bidBps s)" "d \<noteq> 0"
    and m: "m = min (bidInventoryGusd s * 10 ^ 20 div d) (polCapLeft s * 10 ^ 20 div d)"
  shows "quoteSellMirror s sz n = Some
    (if sz > m + 1 then Rejected NoBidCapacity (Some m)
     else let pol = min sz m; gross = pol * d div 10 ^ 20;
              polFee = cdiv (gross * polFeeBps s) 10000; net = gross - polFee
          in Filled \<lparr>isBuy = False, exactIn = True, gusdIn = 0, gusdOut = net - the (mulDivCeil net (hookFeeBps s) 10000),
            gpuIn = sz, gpuOut = 0, polGpu = pol, backstopGpu = 0, polFeeGusd = polFee,
            hookFeeGusd = the (mulDivCeil net (hookFeeBps s) 10000), issueBase = 0, issueFee = 0\<rparr>)"
proof -
  have "0 \<le> d" unfolding d(1) by (rule bid_nonneg [OF assms(1)])
  then have d0: "0 < d" using d(2) by simp
  define e where "e = bidInventoryGusd s * 10 ^ 20 div d"
  define c where "c = polCapLeft s * 10 ^ 20 div d"
  have nn: "0 \<le> e" "0 \<le> c"
    using assms(1) cap_nonneg [OF assms(1)] d0 by (simp_all add: e_def c_def hook_ok_def pos_imp_zdiv_nonneg_iff)
  have cap: "capGpuOf (polCapLeft s) d = Some c" unfolding c_def by (rule capGpu_eq [OF assms(1) d0])
  have inv: "mulDivFloor (bidInventoryGusd s) (10 ^ 20) d = Some e"
    unfolding e_def using assms(1) d0 by (intro floor_eq) (simp_all add: hook_ok_def)
  define pol where "pol = min sz m"
  have m': "m = min e c" by (simp add: m e_def c_def)
  have pol: "0 \<le> pol" "sz - pol > 1 \<longleftrightarrow> sz > m + 1" using nn assms(3) by (auto simp: pol_def m' min_def)
  define gross where "gross = pol * d div 10 ^ 20"
  have g: "mulDivFloor (pol * d) 1 (10 ^ 20) = Some gross"
    using floor_eq [of "pol * d" 1 "10 ^ 20"] pol(1) d0 by (simp add: gross_def)
  have "0 \<le> gross" using pol(1) d0 by (simp add: gross_def pos_imp_zdiv_nonneg_iff)
  then have pf: "mulDivCeil gross (polFeeBps s) 10000 = Some (cdiv (gross * polFeeBps s) 10000)"
    using assms(1) by (intro ceil_eq) (simp_all add: hook_ok_def)
  have three: "min sz (min e c) = pol" by (simp add: pol_def m')
  obtain hf where hf: "mulDivCeil (gross - cdiv (gross * polFeeBps s) 10000) (hookFeeBps s) 10000 = Some hf"
    by (simp add: mulDivCeil_def Let_def)
  show ?thesis
    using assms(2) d(2) pol(2) cap inv three pf g hf gross_def [symmetric]
    unfolding quoteSellMirror_def d(1) [symmetric] pol_def [symmetric]
    by (simp add: GPU_DUST_def m' [symmetric] Let_def)
qed

text \<open>A fee that is at most the whole: what is left is not negative.\<close>

lemma fee_le: "0 \<le> g \<Longrightarrow> 0 \<le> f \<Longrightarrow> f \<le> 10000 \<Longrightarrow> cdiv (g * f) 10000 \<le> g"
  by (rule cdiv_le) (simp_all add: mult_left_mono)

lemma sell_pays_at_most:
  assumes "hook_ok s" "polFeeBps s \<le> 10000" "0 \<le> sz" "quoteSellMirror s sz n = Some (Filled q)"
  shows "0 \<le> gusdOut q \<and> 0 \<le> polFeeGusd q \<and> 0 \<le> hookFeeGusd q \<and> polGpu q \<le> sz \<and> sz \<le> polGpu q + 1 \<and>
    (gusdOut q + polFeeGusd q + hookFeeGusd q) * 10 ^ 20 \<le> polGpu q * (rawPrice s * (10000 - bidBps s)) \<and>
    gusdOut q + polFeeGusd q + hookFeeGusd q \<le> bidInventoryGusd s \<and>
    gusdOut q + polFeeGusd q + hookFeeGusd q \<le> polCapLeft s"
proof -
  have guard: "oracleGuardOk s n" using assms(4) by (simp add: quoteSellMirror_def split: if_splits)
  define d where "d = rawPrice s * (10000 - bidBps s)"
  have dn: "d \<noteq> 0" using assms(4) guard by (auto simp: quoteSellMirror_def d_def Let_def)
  have "0 \<le> d" unfolding d_def by (rule bid_nonneg [OF assms(1)])
  then have d: "0 < d" using dn by simp
  define m where "m = min (bidInventoryGusd s * 10 ^ 20 div d) (polCapLeft s * 10 ^ 20 div d)"
  note eq = quoteSell_eq [OF assms(1) guard assms(3) d_def dn m_def]
  define pol where "pol = min sz m"
  define g where "g = pol * d div 10 ^ 20"
  define pf where "pf = cdiv (g * polFeeBps s) 10000"
  have ok: "0 \<le> polFeeBps s" "0 \<le> hookFeeBps s" "hookFeeBps s \<le> 10000" "0 \<le> bidInventoryGusd s"
    using assms(1) by (simp_all add: hook_ok_def)
  have m0: "0 \<le> m" using ok(4) cap_nonneg [OF assms(1)] d by (simp add: m_def pos_imp_zdiv_nonneg_iff)
  then have pol0: "0 \<le> pol" using assms(3) by (simp add: pol_def)
  have g0: "0 \<le> g" using pol0 d by (simp add: g_def pos_imp_zdiv_nonneg_iff)
  have pf0: "0 \<le> pf" "pf \<le> g"
    using g0 ok(1) assms(2) fee_le [of g "polFeeBps s"] by (simp_all add: pf_def cdiv_nonneg)
  have hf: "mulDivCeil (g - pf) (hookFeeBps s) 10000 = Some (cdiv ((g - pf) * hookFeeBps s) 10000)"
    using pf0 ok by (intro ceil_eq) simp_all
  have hf0: "0 \<le> cdiv ((g - pf) * hookFeeBps s) 10000" "cdiv ((g - pf) * hookFeeBps s) 10000 \<le> g - pf"
    using pf0 ok fee_le [of "g - pf" "hookFeeBps s"] by (simp_all add: cdiv_nonneg)
  have q: "gusdOut q = g - pf - cdiv ((g - pf) * hookFeeBps s) 10000" "polGpu q = pol" "polFeeGusd q = pf"
      "hookFeeGusd q = cdiv ((g - pf) * hookFeeBps s) 10000" and sz: "sz \<le> m + 1"
    using eq assms(4) hf unfolding pol_def [symmetric] g_def [symmetric] pf_def [symmetric] Let_def
    by (auto split: if_splits)
  have g20: "g * 10 ^ 20 \<le> pol * d" unfolding g_def by (rule div_bounds(1)) simp
  have le: "g \<le> x" if "pol \<le> x * 10 ^ 20 div d" for x
  proof -
    have "pol * d \<le> x * 10 ^ 20 div d * d" using that d by (intro mult_right_mono) simp_all
    also have "\<dots> \<le> x * 10 ^ 20" by (rule div_bounds(1) [OF d])
    finally show ?thesis using g20 by simp
  qed
  have "pol \<le> m" by (simp add: pol_def)
  then have "g \<le> bidInventoryGusd s" "g \<le> polCapLeft s"
    using m_def by (auto intro!: le elim: order_trans)
  then show ?thesis using q hf0 pf0 g20 sz by (simp add: pol_def d_def [symmetric] min_def)
qed

text \<open>A sale is paid out of the vault's bid: what the seller gets and both fees together are at
  most the bid price of the units taken, what the vault holds and what the caps leave.\<close>
theorem sale_stays_inside_the_bid:
  assumes "hook_ok s" "polFeeBps s \<le> 10000" "0 \<le> sz" "quoteSellMirror s sz n = Some (Filled q)"
  shows "0 \<le> gusdOut q \<and>
    (gusdOut q + polFeeGusd q + hookFeeGusd q) * 10 ^ 20 \<le> polGpu q * (rawPrice s * (10000 - bidBps s)) \<and>
    gusdOut q + polFeeGusd q + hookFeeGusd q \<le> bidInventoryGusd s \<and>
    gusdOut q + polFeeGusd q + hookFeeGusd q \<le> polCapLeft s"
  using sell_pays_at_most [OF assms] by blast

text \<open>C34. The capacity the desk shows is sharp. On a live market with a bid below ten thousand basis
  points it is the largest amount whose value at the bid fits into the vault and the caps. A sale is filled
  exactly up to it and the one unit of dust beyond, at the bid: payout, vault fee and hook fee add up to the
  value of the units, rounded down, and each fee is its rate rounded up. Every larger sale is refused for
  want of bid capacity, with a refusal that names that capacity.\<close>
theorem sell_capacity_is_sharp:
  assumes "hook_ok s" "oracleGuardOk s n" "0 \<le> sz" "bidBps s < 10000" "polFeeBps s \<le> 10000"
    and "sellCapacityMirror s n = Some c"
  shows "let d = rawPrice s * (10000 - bidBps s); m = maxUnitsRaw c; gross = min sz m * d div 10 ^ 20 in
    m * d \<le> min (bidInventoryGusd s) (polCapLeft s) * 10 ^ 20 \<and>
    min (bidInventoryGusd s) (polCapLeft s) * 10 ^ 20 < (m + 1) * d \<and>
    (if sz \<le> m + 1
     then \<exists>q. quoteSellMirror s sz n = Some (Filled q) \<and> gpuIn q = sz \<and> polGpu q = min sz m \<and>
       gusdOut q + polFeeGusd q + hookFeeGusd q = gross \<and>
       polFeeGusd q = cdiv (gross * polFeeBps s) 10000 \<and>
       hookFeeGusd q = cdiv ((gross - polFeeGusd q) * hookFeeBps s) 10000
     else quoteSellMirror s sz n = Some (Rejected NoBidCapacity (Some m)))"
proof -
  define d where "d = rawPrice s * (10000 - bidBps s)"
  have d: "0 < d" using guard_price [OF assms(1,2)] assms(4) by (simp add: d_def)
  define m where "m = min (bidInventoryGusd s * 10 ^ 20 div d) (polCapLeft s * 10 ^ 20 div d)"
  have "mulDivFloor (bidInventoryGusd s) (10 ^ 20) d = Some (bidInventoryGusd s * 10 ^ 20 div d)"
    using assms(1) d by (intro floor_eq) (simp_all add: hook_ok_def)
  then have c: "maxUnitsRaw c = m"
    using assms(2,6) d capGpu_eq [OF assms(1) d] unfolding sellCapacityMirror_def d_def [symmetric] m_def
    by (auto simp: Let_def split: Option.bind_splits)
  define B where "B = min (bidInventoryGusd s) (polCapLeft s) * 10 ^ 20"
  have nn: "0 \<le> bidInventoryGusd s" "0 \<le> polCapLeft s" "0 \<le> polFeeBps s" "0 \<le> hookFeeBps s"
    using assms(1) cap_nonneg [OF assms(1)] by (simp_all add: hook_ok_def)
  have mono: "x * 10 ^ 20 div d \<le> y * 10 ^ 20 div d" if "x \<le> y" for x y
    using d that by (intro zdiv_mono1) (simp_all only: mult_right_mono zero_le_power zero_le_numeral)
  have m: "m = B div d"
    using mono unfolding m_def B_def by (metis min.absorb1 min.absorb2 linear)
  have "B = m * d + B mod d" "B mod d < d" unfolding m using d by simp_all
  then have most: "m * d \<le> B" "B < (m + 1) * d"
    using d pos_mod_sign [OF d, of B] by (simp_all only: distrib_right)
  define gross where "gross = min sz m * d div 10 ^ 20"
  have "0 \<le> m" unfolding m B_def using d nn by (simp add: pos_imp_zdiv_nonneg_iff)
  then have g: "0 \<le> gross" unfolding gross_def using d assms(3) by (simp add: pos_imp_zdiv_nonneg_iff)
  have "cdiv (gross * polFeeBps s) 10000 \<le> gross"
    using g assms(5) by (intro cdiv_le) (simp_all add: mult_left_mono)
  then have "mulDivCeil (gross - cdiv (gross * polFeeBps s) 10000) (hookFeeBps s) 10000 =
      Some (cdiv ((gross - cdiv (gross * polFeeBps s) 10000) * hookFeeBps s) 10000)"
    using nn by (intro ceil_eq) simp_all
  then show ?thesis
    using most quoteSell_eq [OF assms(1-3) d_def _ m_def] d
    unfolding Let_def c d_def [symmetric] B_def [symmetric] gross_def [symmetric] by auto
qed

text \<open>The desk's proceeds capacity is sharp as well: a demand for gUSD is filled exactly up to it
  and five units of dust beyond; a refused demand names the capacity, and the fill pays the demand or
  the capacity, whichever is less.\<close>
theorem proceeds_capacity_is_sharp:
  assumes "hook_ok s" "oracleGuardOk s n" "0 \<le> out" "bidBps s < 10000" "sellCapacityMirror s n = Some c"
  shows "if out \<le> maxProceedsRaw c + 5
    then \<exists>q. quoteSellExactOutMirror s out n = Some (Filled q) \<and> gusdOut q = min out (maxProceedsRaw c)
    else quoteSellExactOutMirror s out n = Some (Rejected NoBidCapacity (Some (maxProceedsRaw c)))"
proof -
  define d where "d = rawPrice s * (10000 - bidBps s)"
  have d: "0 < d" using guard_price [OF assms(1,2)] assms(4) by (simp add: d_def)
  define B where "B = min (bidInventoryGusd s) (polCapLeft s)"
  have ok: "0 \<le> B" "0 \<le> polFeeBps s" "0 \<le> hookFeeBps s"
    using assms(1) cap_nonneg [OF assms(1)] by (simp_all add: hook_ok_def B_def)
  obtain t where t: "supplyForGrossBudget B (polFeeBps s) (hookFeeBps s) = Some t" "0 \<le> t"
    using supply_eq [OF ok] by auto
  have "mulDivFloor (bidInventoryGusd s) (10 ^ 20) d = Some (bidInventoryGusd s * 10 ^ 20 div d)"
    using assms(1) d by (intro floor_eq) (simp_all add: hook_ok_def)
  then have c: "maxProceedsRaw c = t"
    using assms(2,5) d capGpu_eq [OF assms(1) d] t(1) unfolding sellCapacityMirror_def d_def [symmetric]
    by (auto simp: Let_def B_def split: Option.bind_splits)
  define u where "u = min out t"
  obtain pf hf where f: "mulDivCeil u (polFeeBps s) 10000 = Some pf" "mulDivCeil u (hookFeeBps s) 10000 = Some hf"
    by (simp add: mulDivCeil_def Let_def)
  obtain g where "mulDivCeil (u + pf + hf) (10 ^ 20) d = Some g" using d by (simp add: mulDivCeil_def Let_def)
  moreover have "out - u > 5 \<longleftrightarrow> out > t + 5" using t(2) by (auto simp: u_def)
  ultimately show ?thesis
    using assms(2) t(1) f d c unfolding quoteSellExactOutMirror_def d_def [symmetric]
    by (auto simp: Let_def B_def [symmetric] u_def [symmetric] GUSD_DUST_def)
qed

subsection \<open>No free lunch\<close>

lemma at_least_the_price:
  fixes g price eff spend :: int
  assumes "0 \<le> g" "0 \<le> price" "0 \<le> eff" "g * (price * (10000 + eff)) \<le> spend * 10 ^ 20"
  shows "g * price \<le> spend * 10 ^ 16"
proof -
  have "g * price * 10000 \<le> g * price * (10000 + eff)" using assms by (intro mult_left_mono) simp_all
  then show ?thesis using assms(4) by (simp add: mult.assoc)
qed

lemma issue_at_least_the_price:
  fixes g price b cd :: int
  assumes "price * g \<le> b * cd" "0 \<le> b" "cd \<le> 10 ^ 16"
  shows "g * price \<le> b * 10 ^ 16"
  using mult_left_mono [OF assms(3,2)] assms(1) by (simp add: mult.commute [of g])

lemma exactOut_charges:
  assumes "hook_ok s" "compositionDivisor s \<le> 10 ^ 16" "rawPrice s < 10 ^ 16" "0 \<le> sz"
    and "quoteBuyExactOutMirror s sz n = Some (Filled b)"
  shows "gpuOut b * rawPrice s < (gusdIn b + 1) * 10 ^ 16"
proof -
  obtain spend issue where b: "gpuOut b = sz" "sz = polGpu b + backstopGpu b" "0 \<le> polGpu b" "0 \<le> backstopGpu b"
    and spend: "spend = cdiv (polGpu b * (rawPrice s * (10000 + effAskBps s))) (10 ^ 20)"
    and issue: "issue = issueAt s (backstopGpu b) \<or> issue = no_issue \<and> backstopGpu b \<le> 1"
    and hf: "hookFeeGusd b = cdiv ((spend + total issue) * hookFeeBps s) 10000"
    and pays: "gusdIn b = spend + total issue + hookFeeGusd b"
    using exactOut_shape [OF assms(1,4,5)] by blast
  have ok: "0 \<le> rawPrice s" "0 \<le> hookFeeBps s" "0 \<le> effAskBps s"
    using assms(1) effAsk_nonneg [OF assms(1)] by (simp_all add: hook_ok_def)
  have "polGpu b * (rawPrice s * (10000 + effAskBps s)) \<le> spend * 10 ^ 20"
    unfolding spend using cdiv_bounds [of "10 ^ 20"] by simp
  then have pol: "polGpu b * rawPrice s \<le> spend * 10 ^ 16" by (rule at_least_the_price [OF b(3) ok(1,3)])
  have spend0: "0 \<le> spend" unfolding spend using b(3) ok by (intro cdiv_nonneg) simp_all
  have leg: "0 \<le> base issue" "0 \<le> fee issue" "backstopGpu b * rawPrice s < (base issue + 1) * 10 ^ 16"
  proof -
    consider "issue = issueAt s (backstopGpu b)" | "issue = no_issue" "backstopGpu b \<le> 1" using issue by blast
    then have "0 \<le> base issue \<and> 0 \<le> fee issue \<and> backstopGpu b * rawPrice s < (base issue + 1) * 10 ^ 16"
    proof cases
      case 1
      then show ?thesis
        using issueAt_bounds [OF assms(1) b(4)] issue_at_least_the_price [OF _ _ assms(2)] by fastforce
    next
      case 2
      have "backstopGpu b * rawPrice s \<le> 1 * rawPrice s" using 2(2) ok(1) by (intro mult_right_mono) simp_all
      then show ?thesis using 2(1) assms(3) by (simp add: no_issue_def)
    qed
    then show "0 \<le> base issue" "0 \<le> fee issue" "backstopGpu b * rawPrice s < (base issue + 1) * 10 ^ 16" by blast+
  qed
  have "0 \<le> hookFeeGusd b" unfolding hf using spend0 leg ok by (intro cdiv_nonneg) (simp_all add: total_def)
  then have "spend + base issue \<le> gusdIn b" using pays leg(2) by (simp add: total_def)
  moreover have "gpuOut b * rawPrice s < (spend + base issue + 1) * 10 ^ 16"
    using pol leg(3) by (simp add: b(1,2) distrib_right)
  ultimately show ?thesis by (elim less_le_trans) simp
qed

lemma exactIn_charges:
  assumes "hook_ok s" "compositionDivisor s \<le> 10 ^ 16" "0 \<le> spend"
    and "quoteBuyMirror s spend n = Some (Filled b)"
  shows "gpuOut b * rawPrice s \<le> gusdIn b * 10 ^ 16"
proof -
  obtain L where L: "ladder_ok s (spend - hookFeeGusd b) L" and b: "gusdIn b = spend"
      "gpuOut b = lad_polGpu L + lad_issueGpu L" "0 \<le> hookFeeGusd b"
    using quoteBuyMirror_shape [OF assms(1,3,4)] by auto
  have ok: "0 \<le> rawPrice s" "0 \<le> effAskBps s"
    using assms(1) effAsk_nonneg [OF assms(1)] by (simp_all add: hook_ok_def)
  have "lad_polGpu L * rawPrice s \<le> lad_polSpend L * 10 ^ 16"
    using L ok by (intro at_least_the_price [where eff = "effAskBps s"]) (auto simp: ladder_ok_def)
  moreover have "lad_issueGpu L * rawPrice s \<le> base (lad_issue L) * 10 ^ 16"
    using L by (intro issue_at_least_the_price [OF _ _ assms(2)]) (auto simp: ladder_ok_def)
  moreover have "lad_polSpend L + base (lad_issue L) \<le> spend"
    using L b(3) by (auto simp: ladder_ok_def total_def)
  ultimately show ?thesis by (simp add: b distrib_right)
qed

text \<open>C35. There is no free lunch in a pair of quotes: what a purchase, by size or by money, delivers is
  never quoted back for more than the purchase cost, whatever the spreads, the fees, the inventories
  and the roundings.\<close>
theorem no_free_lunch:
  assumes "hook_ok s" "polFeeBps s \<le> 10000" "compositionDivisor s \<le> 10 ^ 16" "rawPrice s < 10 ^ 16"
    and "0 \<le> x" "quoteBuyExactOutMirror s x n = Some (Filled b) \<or> quoteBuyMirror s x n = Some (Filled b)"
    and "quoteSellMirror s (gpuOut b) n' = Some (Filled q)"
  shows "gusdOut q \<le> gusdIn b"
proof -
  have buy: "gpuOut b * rawPrice s < (gusdIn b + 1) * 10 ^ 16" "0 \<le> gpuOut b"
    using assms(6) exactOut_charges [OF assms(1,3,4,5)] exactIn_charges [OF assms(1,3,5)]
      exactOut_shape [OF assms(1,5)] quoteBuyMirror_shape [OF assms(1,5)] assms(5) by fastforce+
  note sell = sell_pays_at_most [OF assms(1,2) buy(2) assms(7)]
  have ok: "0 \<le> rawPrice s" "0 \<le> bidBps s" using assms(1) by (simp_all add: hook_ok_def)
  have "gusdOut q * 10 ^ 20 \<le> polGpu q * (rawPrice s * (10000 - bidBps s))" using sell by simp
  also have "\<dots> \<le> gpuOut b * (rawPrice s * 10000)"
    using sell ok buy(2) assms(1)
    by (intro mult_mono) (auto simp: hook_ok_def intro: mult_left_mono)
  finally have "gusdOut q * 10 ^ 16 \<le> gpuOut b * rawPrice s" by (simp add: mult.commute)
  then have "gusdOut q * 10 ^ 16 < (gusdIn b + 1) * 10 ^ 16" using buy(1) by (rule le_less_trans)
  then show ?thesis by simp
qed

subsection \<open>A market to quote\<close>

definition sampleHook :: HookMarketState where
  "sampleHook = \<lparr>rawPrice = 24003, validFromSec = 0, validUntilSec = 60, observedAtSec = 0,
     maxObservationAgeSec = 3600, askBps = 50, bidBps = 50, polFeeBps = 10, polPaused = False,
     maxPolNotionalGusd = 10 ^ 10, perBlockPolCapGusd = 0, perBlockUsedGusd = 0, hookFeeBps = 30,
     issueFeeBps = 100, issuanceEnabled = True, compositionDivisor = 10 ^ 16,
     bidInventoryGusd = 5000000, askInventoryGpu = 10 ^ 18\<rparr>"

definition sampleBuyQuote :: MirrorQuote where
  "sampleBuyQuote = \<lparr>isBuy = True, exactIn = True, gusdIn = 5000001, gusdOut = 0, gpuIn = 0,
     gpuOut = 2061210583000557273, polGpu = 10 ^ 18, backstopGpu = 1061210583000557273,
     polFeeGusd = 2413, hookFeeGusd = 15001, issueBase = 2547224, issueFee = 25473\<rparr>"

definition sampleSellQuote :: MirrorQuote where
  "sampleSellQuote = \<lparr>isBuy = False, exactIn = True, gusdIn = 0, gusdOut = 4757504, gpuIn = 2 * 10 ^ 18,
     gpuOut = 0, polGpu = 2 * 10 ^ 18, backstopGpu = 0, polFeeGusd = 4777, hookFeeGusd = 14316,
     issueBase = 0, issueFee = 0\<rparr>"

lemma sampleHook_ok: "hook_ok sampleHook" "oracleGuardOk sampleHook 10"
  by (simp_all add: hook_ok_def oracleGuardOk_def sampleHook_def)

lemma sampleQuotes:
  "quoteBuyMirror sampleHook 5000001 10 = Some (Filled sampleBuyQuote)"
  "quoteSellMirror sampleHook (2 * 10 ^ 18) 10 = Some (Filled sampleSellQuote)"
  "sellCapacityMirror sampleHook 10 = Some \<lparr>maxUnitsRaw = 2093540652477066832, maxProceedsRaw = 4980078\<rparr>"
  by code_simp+

theorem money_first_buy_books_witness:
  "quoteBuyMirror sampleHook 5000001 10 = Some (Filled sampleBuyQuote) \<and>
   issueBase sampleBuyQuote = cdiv (rawPrice sampleHook * backstopGpu sampleBuyQuote) (compositionDivisor sampleHook) \<and>
   hookFeeGusd sampleBuyQuote = min 5000001 (cdiv (5000001 * hookFeeBps sampleHook) 10000)"
  using money_first_buy_books [OF sampleHook_ok(1) _ sampleQuotes(1)] sampleQuotes(1)
  by (simp add: Let_def)

theorem sale_stays_inside_the_bid_witness:
  "gusdOut sampleSellQuote + polFeeGusd sampleSellQuote + hookFeeGusd sampleSellQuote \<le> bidInventoryGusd sampleHook"
  using sale_stays_inside_the_bid [OF sampleHook_ok(1) _ _ sampleQuotes(2)] by (simp add: sampleHook_def)

theorem sell_capacity_is_sharp_witness:
  "(\<exists>q. quoteSellMirror sampleHook 2093540652477066833 10 = Some (Filled q)) \<and>
   quoteSellMirror sampleHook 2093540652477066834 10 = Some (Rejected NoBidCapacity (Some 2093540652477066832))"
proof -
  have b: "bidBps sampleHook < 10000" "polFeeBps sampleHook \<le> 10000" by (simp_all add: sampleHook_def)
  note x = sell_capacity_is_sharp [OF sampleHook_ok _ b sampleQuotes(3), unfolded Let_def]
  show ?thesis using x [of 2093540652477066833] x [of 2093540652477066834] by auto
qed

theorem proceeds_capacity_is_sharp_witness:
  "(\<exists>q. quoteSellExactOutMirror sampleHook 4980083 10 = Some (Filled q) \<and> gusdOut q = 4980078) \<and>
   quoteSellExactOutMirror sampleHook 4980084 10 = Some (Rejected NoBidCapacity (Some 4980078))"
proof -
  have b: "bidBps sampleHook < 10000" by (simp add: sampleHook_def)
  note x = proceeds_capacity_is_sharp [OF sampleHook_ok _ b sampleQuotes(3)]
  show ?thesis using x [of 4980083] x [of 4980084] by simp
qed

theorem no_free_lunch_witness:
  "\<exists>q. quoteSellMirror sampleHook 2061210583000557273 30 = Some (Filled q) \<and> gusdOut q \<le> 5000001"
proof -
  have "case quoteSellMirror sampleHook 2061210583000557273 30 of Some (Filled q) \<Rightarrow> True | _ \<Rightarrow> False"
    by code_simp
  then obtain q where q: "quoteSellMirror sampleHook 2061210583000557273 30 = Some (Filled q)"
    by (auto split: option.splits MirrorResult.splits)
  have ok: "polFeeBps sampleHook \<le> 10000" "compositionDivisor sampleHook \<le> 10 ^ 16" "rawPrice sampleHook < 10 ^ 16"
    by (simp_all add: sampleHook_def)
  show ?thesis
    using no_free_lunch [OF sampleHook_ok(1) ok _ disjI2 [OF sampleQuotes(1)], of 30 q] q
    by (simp add: sampleBuyQuote_def)
qed

text \<open>Within the dust of the proceeds capacity the fill pays less than was asked for.\<close>
theorem dusty_sale_pays_less:
  "\<exists>q. quoteSellExactOutMirror sampleHook 4980080 10 = Some (Filled q) \<and> gusdOut q < 4980080"
proof -
  have "case quoteSellExactOutMirror sampleHook 4980080 10 of Some (Filled q) \<Rightarrow> gusdOut q < 4980080 | _ \<Rightarrow> False"
    by code_simp
  then show ?thesis by (auto split: option.splits MirrorResult.splits)
qed

end
