(* ===== verification/Genesis.thy ===== *)
theory Genesis
  imports HookQuoteFacts
begin

text \<open>
  apps/web/src/domain/units.ts (the integer half) and apps/web/src/data/web3/trading/genesis.ts: the
  solver that turns a spend into units on a market without a pool. The issuance quote is a call to the
  contract, so it is an argument: \<open>issue k u\<close> is the answer to the \<open>k\<close>-th call, for \<open>u\<close> units. The
  fee is a nonnegative number of basis points, so the divisor of the seed is not zero. The solver never
  overspends; it finds the largest answer from a price of one cent and a spend of one grain's cost and
  three units up (\<open>solver_is_exact\<close>), and not always below (\<open>cheap_units_are_left\<close>).
\<close>

subsection \<open>Units\<close>

definition GPU_LEDGER_GRAIN :: int where "GPU_LEDGER_GRAIN = 10 ^ (18 - 4)"

definition floorToLedgerGrain :: "int \<Rightarrow> int" where
  "floorToLedgerGrain raw = (raw sdiv GPU_LEDGER_GRAIN) * GPU_LEDGER_GRAIN"

datatype BpsDir = Up | Down

definition applyBps :: "int \<Rightarrow> int \<Rightarrow> BpsDir \<Rightarrow> int" where
  "applyBps raw bps dir = (case dir of
     Up \<Rightarrow> (raw * (10000 + bps) + 10000 - 1) sdiv 10000
   | Down \<Rightarrow> (raw * (10000 - bps)) sdiv 10000)"

subsection \<open>The solver\<close>

record IssueQuoteRaw =
  iq_base :: int
  iq_fee :: int
  iq_total :: int

type_synonym issue_fn = "nat \<Rightarrow> int \<Rightarrow> IssueQuoteRaw"

record SolvedIssuance =
  so_units :: int
  so_quote :: IssueQuoteRaw

definition MAX_REFINEMENTS :: nat where "MAX_REFINEMENTS = 3"
definition MAX_WALK_STEPS :: nat where "MAX_WALK_STEPS = 8"

fun newton :: "nat \<Rightarrow> issue_fn \<Rightarrow> int \<Rightarrow> nat \<Rightarrow> int \<Rightarrow> IssueQuoteRaw \<Rightarrow> nat \<times> int \<times> IssueQuoteRaw" where
  "newton 0 issue spend k u q = (k, u, q)"
| "newton (Suc i) issue spend k u q =
     (if iq_total q > 0 then
        let next' = (u * spend) sdiv iq_total q in
        if next' = u \<or> next' = 0 then (k, u, q) else newton i issue spend (Suc k) next' (issue k next')
      else (k, u, q))"

fun walkDown :: "nat \<Rightarrow> issue_fn \<Rightarrow> int \<Rightarrow> nat \<Rightarrow> int \<Rightarrow> IssueQuoteRaw \<Rightarrow> (nat \<times> int \<times> IssueQuoteRaw) option" where
  "walkDown 0 issue spend k u q = Some (k, u, q)"
| "walkDown (Suc i) issue spend k u q =
     (if iq_total q > spend then
        let u' = u - GPU_LEDGER_GRAIN in
        if u' = 0 then None else walkDown i issue spend (Suc k) u' (issue k u')
      else Some (k, u, q))"

fun walkUp :: "nat \<Rightarrow> issue_fn \<Rightarrow> int \<Rightarrow> nat \<Rightarrow> int \<Rightarrow> IssueQuoteRaw \<Rightarrow> int \<times> IssueQuoteRaw" where
  "walkUp 0 issue spend k u q = (u, q)"
| "walkUp (Suc i) issue spend k u q =
     (let up = u + GPU_LEDGER_GRAIN; upQuote = issue k up in
      if iq_total upQuote > spend then (u, q) else walkUp i issue spend (Suc k) up upQuote)"

definition issueUnitsForSpend :: "int \<Rightarrow> int \<Rightarrow> int \<Rightarrow> issue_fn \<Rightarrow> SolvedIssuance option" where
  "issueUnitsForSpend spendRaw price4dp feeRate issue =
     (if spendRaw \<le> 0 \<or> price4dp = 0 then None else
      let seed = (spendRaw * 10 ^ 16 * 10 ^ 4) sdiv (price4dp * (10000 + feeRate)) in
      if seed = 0 then None else
      let (k, u, q) = newton MAX_REFINEMENTS issue spendRaw 1 seed (issue 0 seed) in
      if iq_total q = 0 then None else
      let u = floorToLedgerGrain u in
      if u = 0 then None else
      (case walkDown MAX_WALK_STEPS issue spendRaw (Suc k) u (issue k u) of
         None \<Rightarrow> None
       | Some (k, u, q) \<Rightarrow>
           let (u, q) = walkUp 2 issue spendRaw k u q in
           if u = 0 \<or> iq_total q > spendRaw \<or> iq_total q = 0 then None
           else Some \<lparr>so_units = u, so_quote = q\<rparr>))"

subsection \<open>What every answer satisfies\<close>

text \<open>The units stay on the grain and come with the contract's answer to a call for exactly them.\<close>

definition asked_for :: "issue_fn \<Rightarrow> int \<Rightarrow> IssueQuoteRaw \<Rightarrow> bool" where
  "asked_for issue u q \<longleftrightarrow> GPU_LEDGER_GRAIN dvd u \<and> (\<exists>k. q = issue k u)"

lemma walkDown_asked: "asked_for issue u q \<Longrightarrow> walkDown i issue spend k u q = Some (k', u', q') \<Longrightarrow> asked_for issue u' q'"
  by (induction i issue spend k u q rule: walkDown.induct)
    (auto simp: asked_for_def Let_def split: if_splits)

lemma walkUp_asked: "asked_for issue u q \<Longrightarrow> walkUp i issue spend k u q = (u', q') \<Longrightarrow> asked_for issue u' q'"
  by (induction i issue spend k u q rule: walkUp.induct)
    (auto simp: asked_for_def Let_def split: if_splits)

lemma floor_grain: "GPU_LEDGER_GRAIN dvd floorToLedgerGrain u"
  by (simp add: floorToLedgerGrain_def)

lemma solution_shape:
  assumes "issueUnitsForSpend spend price f issue = Some r"
  obtains k u q k' u' q' where "0 < spend"
    "newton MAX_REFINEMENTS issue spend 1 ((spend * 10 ^ 16 * 10 ^ 4) sdiv (price * (10000 + f)))
       (issue 0 ((spend * 10 ^ 16 * 10 ^ 4) sdiv (price * (10000 + f)))) = (k, u, q)"
    "floorToLedgerGrain u \<noteq> 0"
    "walkDown MAX_WALK_STEPS issue spend (Suc k) (floorToLedgerGrain u) (issue k (floorToLedgerGrain u)) = Some (k', u', q')"
    "walkUp 2 issue spend k' u' q' = (so_units r, so_quote r)"
    "so_units r \<noteq> 0" "iq_total (so_quote r) \<le> spend" "iq_total (so_quote r) \<noteq> 0"
proof -
  let ?seed = "(spend * 10 ^ 16 * 10 ^ 4) sdiv (price * (10000 + f))"
  obtain k u q where n: "newton MAX_REFINEMENTS issue spend 1 ?seed (issue 0 ?seed) = (k, u, q)"
    by (cases "newton MAX_REFINEMENTS issue spend 1 ?seed (issue 0 ?seed)") auto
  have pos: "0 < spend" and fl: "floorToLedgerGrain u \<noteq> 0" and
    rest: "(case walkDown MAX_WALK_STEPS issue spend (Suc k) (floorToLedgerGrain u) (issue k (floorToLedgerGrain u)) of
         None \<Rightarrow> None
       | Some (k, u, q) \<Rightarrow>
           let (u, q) = walkUp 2 issue spend k u q in
           if u = 0 \<or> iq_total q > spend \<or> iq_total q = 0 then None
           else Some \<lparr>so_units = u, so_quote = q\<rparr>) = Some r"
    using assms n unfolding issueUnitsForSpend_def Let_def by (simp_all split: if_splits)
  obtain k' u' q' where d: "walkDown MAX_WALK_STEPS issue spend (Suc k) (floorToLedgerGrain u)
      (issue k (floorToLedgerGrain u)) = Some (k', u', q')"
    using rest by (auto split: option.splits)
  obtain u'' q'' where w: "walkUp 2 issue spend k' u' q' = (u'', q'')"
    by (cases "walkUp 2 issue spend k' u' q'") auto
  have "r = \<lparr>so_units = u'', so_quote = q''\<rparr>" "u'' \<noteq> 0" "iq_total q'' \<le> spend" "iq_total q'' \<noteq> 0"
    using rest by (auto simp: d w split: if_splits)
  then show thesis using that [OF pos n fl d] w by simp
qed

text \<open>Whatever the contract answers, even when it changes its mind between two calls, a solution
  never overspends: its units lie on the ledger grain, and the quote that comes with it is an answer
  to a call for exactly these units, of a total above zero and within the spend.\<close>
theorem solution_never_overspends:
  assumes "issueUnitsForSpend spend price f issue = Some r"
  shows "GPU_LEDGER_GRAIN dvd so_units r \<and> so_units r \<noteq> 0 \<and> (\<exists>k. so_quote r = issue k (so_units r)) \<and>
    iq_total (so_quote r) \<le> spend \<and> iq_total (so_quote r) \<noteq> 0"
proof -
  from solution_shape [OF assms] obtain k u k' u' q' where
    down: "walkDown MAX_WALK_STEPS issue spend (Suc k) (floorToLedgerGrain u) (issue k (floorToLedgerGrain u)) = Some (k', u', q')"
    and up: "walkUp 2 issue spend k' u' q' = (so_units r, so_quote r)"
    and fin: "so_units r \<noteq> 0" "iq_total (so_quote r) \<le> spend" "iq_total (so_quote r) \<noteq> 0"
    by metis
  have "asked_for issue (floorToLedgerGrain u) (issue k (floorToLedgerGrain u))"
    using floor_grain by (auto simp: asked_for_def)
  from walkUp_asked [OF walkDown_asked [OF this down] up] show ?thesis using fin by (auto simp: asked_for_def)
qed

subsection \<open>The contract's own arithmetic\<close>

text \<open>What \<open>quoteIssue\<close> computes, as the module comment states it.\<close>

definition contractQuote :: "int \<Rightarrow> int \<Rightarrow> int \<Rightarrow> IssueQuoteRaw" where
  "contractQuote price f u = (let b = cdiv (u * price) (10 ^ 16); c = cdiv (b * f) 10000
     in \<lparr>iq_base = b, iq_fee = c, iq_total = b + c\<rparr>)"

definition contractIssue :: "int \<Rightarrow> int \<Rightarrow> issue_fn" where
  [simp]: "contractIssue price f k u = contractQuote price f u"

definition cost :: "int \<Rightarrow> int \<Rightarrow> int \<Rightarrow> int" where
  "cost price f u = iq_total (contractQuote price f u)"

lemma cost_eq [simp]: "iq_total (contractQuote price f u) = cost price f u"
  by (simp add: cost_def contractQuote_def Let_def)

lemma cost_mono: "0 \<le> price \<Longrightarrow> 0 \<le> f \<Longrightarrow> u \<le> v \<Longrightarrow> cost price f u \<le> cost price f v"
  unfolding cost_def contractQuote_def Let_def
  by (auto intro!: add_mono cdiv_mono mult_right_mono)

text \<open>The cost without the rounding, times \<open>10 ^ 20\<close>, is linear; both roundings together add less
  than \<open>2 + f / 10000\<close>.\<close>

lemma cost_bounds:
  assumes "0 \<le> f"
  shows "u * (price * (10000 + f)) \<le> cost price f u * 10 ^ 20"
    and "cost price f u * 10 ^ 20 < u * (price * (10000 + f)) + (20000 + f) * 10 ^ 16"
proof -
  define b where "b = cdiv (u * price) (10 ^ 16)"
  define c where "c = cdiv (b * f) 10000"
  have t: "cost price f u = b + c" by (simp add: cost_def contractQuote_def b_def c_def Let_def)
  have b: "u * price \<le> b * 10 ^ 16" "b * 10 ^ 16 \<le> u * price + 10 ^ 16 - 1"
    using cdiv_bounds [of "10 ^ 16" "u * price"] by (simp_all add: b_def)
  have c: "b * f \<le> c * 10000" "c * 10000 \<le> b * f + 9999"
    using cdiv_bounds [of 10000 "b * f"] by (simp_all add: c_def)
  have "u * price * (10000 + f) \<le> b * 10 ^ 16 * (10000 + f)" using b(1) assms by (intro mult_right_mono) simp_all
  also have "\<dots> \<le> (b + c) * 10 ^ 20" using c(1) by (simp add: algebra_simps)
  finally show "u * (price * (10000 + f)) \<le> cost price f u * 10 ^ 20" by (simp add: t mult.assoc)
  have "b * 10 ^ 16 * (10000 + f) \<le> (u * price + 10 ^ 16 - 1) * (10000 + f)"
    using b(2) assms by (intro mult_right_mono) simp_all
  then have "(b + c) * 10 ^ 20 \<le> (u * price + 10 ^ 16 - 1) * (10000 + f) + 9999 * 10 ^ 16"
    using c(2) by (simp add: algebra_simps)
  also have "\<dots> < u * (price * (10000 + f)) + (20000 + f) * 10 ^ 16" using assms by (simp add: algebra_simps)
  finally show "cost price f u * 10 ^ 20 < u * (price * (10000 + f)) + (20000 + f) * 10 ^ 16" by (simp add: t)
qed

lemma le_div: "0 < d \<Longrightarrow> a * d \<le> n \<Longrightarrow> a \<le> n div (d :: int)"
  using zdiv_mono1 [of "a * d" n d] by simp

text \<open>The refinements keep the units between the budget and three units of money below it.\<close>

definition near :: "int \<Rightarrow> int \<Rightarrow> int \<Rightarrow> int \<Rightarrow> bool" where
  "near price f spend u \<longleftrightarrow> 0 < u \<and> u * (price * (10000 + f)) \<le> spend * 10 ^ 20 \<and>
     spend * 10 ^ 20 < (u + 1) * (price * (10000 + f)) + (20000 + f) * 10 ^ 16"

lemma newton_near:
  assumes pr: "0 < price" "0 \<le> f" "0 < spend" and u: "near price f spend u"
    and nx: "next' = u * spend div cost price f u" "next' \<noteq> 0"
  shows "near price f spend next'"
proof -
  define w where "w = price * (10000 + f)"
  have w: "0 < w" using pr by (simp add: w_def)
  note cb = cost_bounds [OF pr(2), where u = u and price = price, folded w_def]
  have u': "0 < u" "u * w \<le> spend * 10 ^ 20" "spend * 10 ^ 20 < (u + 1) * w + (20000 + f) * 10 ^ 16"
    using u by (simp_all add: near_def w_def)
  define t where "t = cost price f u"
  have "0 < u * w" using u' w by simp
  then have t: "0 < t" using cb(1) by (simp add: t_def)
  have n: "next' * t \<le> u * spend" "u * spend < (next' + 1) * t"
    using div_bounds [OF t, of "u * spend"] by (simp_all add: nx(1) t_def algebra_simps)
  have pos: "0 \<le> next'" using nx(1) u' pr(3) t by (simp add: t_def pos_imp_zdiv_nonneg_iff)
  have "next' * w * t \<le> u * spend * w" using n(1) w by (metis mult.commute mult.left_commute mult_right_mono less_imp_le)
  also have "\<dots> = spend * (u * w)" by simp
  also have "\<dots> \<le> spend * (t * 10 ^ 20)" using cb(1) pr(3) by (intro mult_left_mono) (simp_all add: t_def)
  finally have up: "next' * w \<le> spend * 10 ^ 20" using t by (simp add: mult.assoc mult.left_commute [of t])
  have low: "spend * 10 ^ 20 < (next' + 1) * w + (20000 + f) * 10 ^ 16"
  proof (cases "t \<le> spend")
    case True
    then have "u * t \<le> u * spend" using u'(1) by simp
    then have "u \<le> next'" using t by (simp add: nx(1) t_def [symmetric] le_div)
    then have "(u + 1) * w \<le> (next' + 1) * w" using w by simp
    then show ?thesis using u'(3) by linarith
  next
    case False
    define E where "E = (20000 + f) * 10 ^ 16"
    have E: "0 \<le> E" using pr(2) by (simp add: E_def)
    have "spend * (t * 10 ^ 20 - E) < spend * (u * w)" using cb(2) pr(3) by (simp add: t_def E_def)
    also have "\<dots> = u * spend * w" by simp
    also have "\<dots> < (next' + 1) * t * w" using n(2) w by simp
    finally have "(spend * 10 ^ 20) * t < ((next' + 1) * w) * t + spend * E" by (simp add: algebra_simps)
    also have "spend * E \<le> t * E" using False E by (intro mult_right_mono) simp_all
    finally have "(spend * 10 ^ 20) * t < ((next' + 1) * w + E) * t" by (simp add: algebra_simps)
    then show ?thesis using t by (simp add: E_def)
  qed
  show ?thesis using pos nx(2) up low by (simp add: near_def w_def)
qed

lemma seed_near:
  assumes pr: "0 < price" "0 \<le> f" "0 < spend" and "spend * 10 ^ 20 div (price * (10000 + f)) \<noteq> 0"
  shows "near price f spend (spend * 10 ^ 20 div (price * (10000 + f)))"
proof -
  have w: "0 < price * (10000 + f)" using pr by simp
  have "0 \<le> spend * 10 ^ 20 div (price * (10000 + f))" using pr w by (simp add: pos_imp_zdiv_nonneg_iff)
  then show ?thesis
    using div_bounds [OF w, of "spend * 10 ^ 20"] assms(4) pr(2) by (simp add: near_def algebra_simps)
qed

lemma near_cost: "0 < price \<Longrightarrow> 0 \<le> f \<Longrightarrow> near price f spend u \<Longrightarrow> 0 < cost price f u"
proof -
  assume pr: "0 < price" "0 \<le> f" and "near price f spend u"
  then have "0 < u * (price * (10000 + f))" by (simp add: near_def)
  with cost_bounds(1) [OF pr(2), where u = u and price = price] show ?thesis by (smt (verit) mult_nonpos_nonneg zero_le_power)
qed

lemma newton_keeps:
  assumes pr: "0 < price" "0 \<le> f" "0 < spend"
  shows "near price f spend u \<Longrightarrow> q = contractQuote price f u \<Longrightarrow>
    newton i (contractIssue price f) spend k' u q = (k'', u', q') \<Longrightarrow>
    near price f spend u' \<and> iq_total q' = cost price f u'"
proof (induction i arbitrary: k' u q)
  case (Suc i)
  have c: "0 < cost price f u" using near_cost pr Suc.prems(1) by blast
  have "0 \<le> u * spend" using Suc.prems(1) pr(3) by (simp add: near_def)
  then have sd: "u * spend sdiv cost price f u = u * spend div cost price f u" using c by (rule sdiv_pos)
  show ?case
  proof (cases "u * spend div cost price f u = u \<or> u * spend div cost price f u = 0")
    case True
    then show ?thesis using Suc.prems c sd by (auto simp: Let_def)
  next
    case False
    then have "near price f spend (u * spend div cost price f u)" using newton_near [OF pr Suc.prems(1) refl] by simp
    from Suc.IH [OF this refl] show ?thesis using Suc.prems False c sd by (simp add: Let_def)
  qed
qed auto

text \<open>The walks over the contract's arithmetic.\<close>

lemma grain_pos: "0 < GPU_LEDGER_GRAIN"
  by (simp add: GPU_LEDGER_GRAIN_def)

definition stops :: "int \<Rightarrow> int \<Rightarrow> int \<Rightarrow> int \<Rightarrow> bool" where
  "stops price f spend u \<longleftrightarrow> cost price f u \<le> spend \<and> spend < cost price f (u + GPU_LEDGER_GRAIN)"

lemma walkDown_stop: "iq_total q \<le> spend \<Longrightarrow> walkDown i issue spend k u q = Some (k, u, q)"
  by (cases i) simp_all

lemma walkDown_go: "spend < iq_total q \<Longrightarrow> u \<noteq> GPU_LEDGER_GRAIN \<Longrightarrow> walkDown (Suc i) issue spend k u q =
    walkDown i issue spend (Suc k) (u - GPU_LEDGER_GRAIN) (issue k (u - GPU_LEDGER_GRAIN))"
  by (simp add: Let_def)

lemma walkUp_two: "walkUp 2 issue spend k u q = (let G = GPU_LEDGER_GRAIN in
    if iq_total (issue k (u + G)) > spend then (u, q)
    else if iq_total (issue (Suc k) (u + G + G)) > spend then (u + G, issue k (u + G))
    else (u + G + G, issue (Suc k) (u + G + G)))"
  by (simp add: numeral_2_eq_2 Let_def)

lemma walks:
  assumes u: "GPU_LEDGER_GRAIN dvd u" "0 < u" and one: "cost price f GPU_LEDGER_GRAIN \<le> spend"
    and down: "cost price f (u - 2 * GPU_LEDGER_GRAIN) \<le> spend"
    and up: "spend < cost price f (u + 3 * GPU_LEDGER_GRAIN)"
  shows "\<exists>k' u' v. walkDown MAX_WALK_STEPS (contractIssue price f) spend k u (contractQuote price f u) =
      Some (k', u', contractQuote price f u') \<and>
    walkUp 2 (contractIssue price f) spend k' u' (contractQuote price f u') = (v, contractQuote price f v) \<and>
    0 < v \<and> GPU_LEDGER_GRAIN dvd v \<and> stops price f spend v"
proof -
  let ?G = GPU_LEDGER_GRAIN
  have above: "?G < u" if "cost price f u > spend"
  proof -
    have "?G \<le> u" using u by (simp add: zdvd_imp_le)
    then show ?thesis using that one by (cases "u = ?G") auto
  qed
  obtain i where steps: "MAX_WALK_STEPS = Suc (Suc i)" using that [of 6] by (simp add: MAX_WALK_STEPS_def)
  show ?thesis
  proof (cases "cost price f u \<le> spend")
    case True
    then have d: "walkDown MAX_WALK_STEPS (contractIssue price f) spend k u (contractQuote price f u) =
        Some (k, u, contractQuote price f u)" by (simp add: walkDown_stop)
    have "\<exists>v. walkUp 2 (contractIssue price f) spend k u (contractQuote price f u) = (v, contractQuote price f v) \<and>
        0 < v \<and> ?G dvd v \<and> stops price f spend v"
      using True u grain_pos up by (auto simp: walkUp_two Let_def stops_def algebra_simps)
    then show ?thesis using d by blast
  next
    case False
    then have u1: "?G < u" using above by simp
    have last: "walkUp 2 (contractIssue price f) spend k' x (contractQuote price f x) = (x, contractQuote price f x)"
      if "spend < cost price f (x + ?G)" for k' x
      using that by (simp add: walkUp_two Let_def)
    show ?thesis
    proof (cases "cost price f (u - ?G) \<le> spend")
      case True
      have "walkDown MAX_WALK_STEPS (contractIssue price f) spend k u (contractQuote price f u) =
          Some (Suc k, u - ?G, contractQuote price f (u - ?G))"
        unfolding steps using True False u1 by (simp add: walkDown_go walkDown_stop del: walkDown.simps)
      moreover have "stops price f spend (u - ?G)" using True False by (simp add: stops_def)
      ultimately show ?thesis using last [of "u - ?G"] False u1 u(1) by auto
    next
      case False2: False
      have "u - ?G \<noteq> ?G" using False2 one by auto
      moreover have "?G \<le> u - ?G" using u(1) u1 by (simp add: zdvd_imp_le)
      ultimately have u2: "2 * ?G < u" "u - ?G \<noteq> ?G" by simp_all
      have "walkDown MAX_WALK_STEPS (contractIssue price f) spend k u (contractQuote price f u) =
          Some (Suc (Suc k), u - ?G - ?G, contractQuote price f (u - ?G - ?G))"
        unfolding steps using False False2 u1 u2 down by (simp add: walkDown_go walkDown_stop del: walkDown.simps)
      moreover have "stops price f spend (u - ?G - ?G)" using False2 down by (simp add: stops_def)
      moreover have "?G dvd u - ?G - ?G" using u(1) by simp
      ultimately show ?thesis using last [of "u - ?G - ?G"] False2 u2 by auto
    qed
  qed
qed

text \<open>C25. On the contract's own arithmetic, at a price of a cent or more and a fee of at most 100 percent,
  the solver is exact: for every spend that covers one grain and the three units its roundings can
  take it answers, and its answer is the largest number of grains whose cost is within the spend.\<close>
theorem solver_is_exact:
  assumes "100 \<le> price" "0 \<le> f" "f \<le> 10000" "cost price f GPU_LEDGER_GRAIN + 3 \<le> spend"
  shows "\<exists>u. issueUnitsForSpend spend price f (contractIssue price f) =
      Some \<lparr>so_units = u, so_quote = contractQuote price f u\<rparr> \<and>
    GPU_LEDGER_GRAIN dvd u \<and> 0 < u \<and> cost price f u \<le> spend \<and>
    (\<forall>v. GPU_LEDGER_GRAIN dvd v \<and> u < v \<longrightarrow> spend < cost price f v)"
proof -
  let ?G = GPU_LEDGER_GRAIN
  define w where "w = price * (10000 + f)"
  define E where "E = (20000 + f) * 10 ^ 16"
  have w: "0 < w" using assms by (simp add: w_def)
  have Gw: "(10000 + f) * 10 ^ 16 \<le> ?G * w"
    using mult_right_mono [OF assms(1), of "10000 + f"] assms(2) by (simp add: w_def GPU_LEDGER_GRAIN_def)
  have E: "E \<le> 2 * (?G * w)" "E \<le> 3 * 10 ^ 20" using Gw assms(2,3) by (simp_all add: E_def)
  note cb = cost_bounds [OF assms(2), where price = price, folded w_def E_def]
  have pr: "0 < price" "0 \<le> f" "0 < spend"
  proof -
    have "0 \<le> ?G * w" using w grain_pos by simp
    then have "0 \<le> cost price f ?G * 10 ^ 20" using cb(1) [of ?G] by linarith
    then show "0 < spend" using assms(4) by simp
  qed (use assms in simp_all)
  have big: "?G * w + 3 * 10 ^ 20 \<le> spend * 10 ^ 20" using cb(1) [of ?G] assms(4) by simp
  define seed where "seed = spend * 10 ^ 20 div w"
  have "?G \<le> seed" using big w by (simp add: seed_def le_div)
  then have seed: "near price f spend seed" "seed \<noteq> 0"
    using seed_near [OF pr, folded w_def] grain_pos by (auto simp: seed_def)
  obtain k u q where n: "newton MAX_REFINEMENTS (contractIssue price f) spend 1 seed (contractQuote price f seed) = (k, u, q)"
    by (cases "newton MAX_REFINEMENTS (contractIssue price f) spend 1 seed (contractQuote price f seed)") auto
  have u: "near price f spend u" "iq_total q \<noteq> 0"
    using newton_keeps [OF pr seed(1) refl n] near_cost [OF pr(1,2), of spend u] by auto
  then have u': "0 < u" "u * w \<le> spend * 10 ^ 20" "spend * 10 ^ 20 < (u + 1) * w + E"
    by (simp_all add: near_def w_def E_def)
  define v where "v = floorToLedgerGrain u"
  have v: "v = u div ?G * ?G" using u'(1) grain_pos by (simp add: v_def floorToLedgerGrain_def sdiv_pos)
  have vb: "v \<le> u" "u < v + ?G" "?G dvd v" using div_bounds [OF grain_pos, of u] by (simp_all add: v algebra_simps)
  have "?G \<le> u"
  proof (rule ccontr)
    assume "\<not> ?G \<le> u"
    then have "(u + 1) * w \<le> ?G * w" using w by simp
    then show False using u'(3) big E(2) by linarith
  qed
  then have v0: "0 < v" using vb v grain_pos by (simp add: pos_imp_zdiv_pos_iff)
  have vw: "v * w \<le> spend * 10 ^ 20" "spend * 10 ^ 20 < v * w + ?G * w + E"
  proof -
    have "v * w \<le> u * w" "(u + 1) * w \<le> (v + ?G) * w" using vb w by simp_all
    then show "v * w \<le> spend * 10 ^ 20" "spend * 10 ^ 20 < v * w + ?G * w + E"
      using u'(2,3) by (simp_all add: algebra_simps)
  qed
  have "cost price f (v - 2 * ?G) * 10 ^ 20 < spend * 10 ^ 20"
    using cb(2) [of "v - 2 * ?G"] vw(1) E(1) by (simp add: algebra_simps)
  then have down: "cost price f (v - 2 * ?G) \<le> spend" by simp
  have "spend * 10 ^ 20 < cost price f (v + 3 * ?G) * 10 ^ 20"
    using cb(1) [of "v + 3 * ?G"] vw(2) E(1) by (simp add: algebra_simps)
  then have up: "spend < cost price f (v + 3 * ?G)" by simp
  obtain k' u' x where x: "walkDown MAX_WALK_STEPS (contractIssue price f) spend (Suc k) v (contractQuote price f v) =
      Some (k', u', contractQuote price f u')"
    "walkUp 2 (contractIssue price f) spend k' u' (contractQuote price f u') = (x, contractQuote price f x)"
    "0 < x" "?G dvd x" "stops price f spend x"
    using walks [OF vb(3) v0 _ down up, of "Suc k"] assms(4) by auto
  have cx: "0 < cost price f x"
  proof -
    have "0 < x * w" using x(3) w by simp
    then have "0 < cost price f x * 10 ^ 20" using cb(1) [of x] by linarith
    then show ?thesis by simp
  qed
  have "spend * 10 ^ 16 * 10 ^ 4 = spend * 10 ^ 20" by simp
  then have sd: "(spend * 10 ^ 16 * 10 ^ 4) sdiv (price * (10000 + f)) = seed"
    using sdiv_pos [of "spend * 10 ^ 20" w] pr(3) w by (simp only: seed_def w_def [symmetric]) simp
  have "issueUnitsForSpend spend price f (contractIssue price f) = Some \<lparr>so_units = x, so_quote = contractQuote price f x\<rparr>"
    unfolding issueUnitsForSpend_def sd Let_def
    using pr(1,3) seed(2) n u(2) v0 x cx by (simp add: v_def [symmetric] stops_def)
  moreover have "spend < cost price f y" if "?G dvd y" "x < y" for y
  proof -
    have "?G dvd y - x" using that(1) x(4) by simp
    then have "?G \<le> y - x" using that(2) by (intro zdvd_imp_le) simp_all
    then have "cost price f (x + ?G) \<le> cost price f y" using pr by (intro cost_mono) simp_all
    then show ?thesis using x(5) by (simp add: stops_def)
  qed
  ultimately show ?thesis using x(3-5) by (auto simp: stops_def)
qed

theorem solution_never_overspends_witness:
  "\<exists>r. issueUnitsForSpend 5000000 24003 30 (contractIssue 24003 30) = Some r \<and>
     GPU_LEDGER_GRAIN dvd so_units r \<and> iq_total (so_quote r) \<le> 5000000"
proof -
  have "case issueUnitsForSpend 5000000 24003 30 (contractIssue 24003 30) of None \<Rightarrow> False | Some r \<Rightarrow> True"
    by code_simp
  then obtain r where "issueUnitsForSpend 5000000 24003 30 (contractIssue 24003 30) = Some r"
    by (auto split: option.splits)
  then show ?thesis using solution_never_overspends by blast
qed

theorem solver_is_exact_witness:
  "\<exists>u. issueUnitsForSpend 5000000 24003 30 (contractIssue 24003 30) =
     Some \<lparr>so_units = u, so_quote = contractQuote 24003 30 u\<rparr> \<and>
   (\<forall>v. GPU_LEDGER_GRAIN dvd v \<and> u < v \<longrightarrow> 5000000 < cost 24003 30 v)"
proof -
  have "cost 24003 30 GPU_LEDGER_GRAIN + 3 \<le> 5000000" by code_simp
  from solver_is_exact [OF _ _ _ this] show ?thesis by auto
qed

text \<open>Below a cent the two steps of the upward walk are too few: here 825 grains are found, while
  900 cost no more than the spend.\<close>
theorem cheap_units_are_left:
  "map_option so_units (issueUnitsForSpend 10 1 30 (contractIssue 1 30)) = Some (825 * GPU_LEDGER_GRAIN) \<and>
   cost 1 30 (900 * GPU_LEDGER_GRAIN) = 10"
  by code_simp

end
