(* ===== verification/ActivityStore.thy ===== *)
theory ActivityStore
  imports JsText Machine
begin

text \<open>
  apps/web/src/data/protocol/activity-store.ts with the rows of data/protocol/dto.ts and
  domain/indexer.ts: the indexed activity of the bound wallet. A pass of \<open>load\<close> and a request for an
  older page are cut at their awaits; a pending pass is the address it captured (\<open>as_inflight\<close>), a
  pending page the address and the cursor it asked with. The client is there or not
  (\<open>client\<close>); the subscribers and their notification are left out. The decoded arguments of an
  event are a list of names, each with its text when it is a string.
\<close>

subsection \<open>Rows\<close>

datatype ExecutionSide = BuySide | SellSide

record ExecutionDto =
  ex_side :: ExecutionSide
  ex_chainId :: int
  ex_blockNumber :: int
  ex_logIndex :: int
  ex_txHash :: string
  ex_blockTimestampSec :: int
  ex_gpuId :: string
  ex_wallet :: string
  ex_payer :: "string option"
  ex_gpuAmount :: string
  ex_gUsdAmount :: string
  ex_polFeeGusd :: string
  ex_issuanceFeeGusd :: "string option"
  ex_hookFeeGusd :: string

record IndexedEvent =
  ie_contract :: string
  ie_event :: string
  ie_user :: string
  ie_chainId :: int
  ie_blockNumber :: int
  ie_logIndex :: int
  ie_txHash :: string
  ie_seenAtMs :: int
  ie_data :: "(string \<times> string option) list"

record WalletVaultPositionDto =
  vp_chainId :: int
  vp_shares :: string
  vp_assetsCost :: string
  vp_basisState :: string
  vp_avgEntryAssets :: "string option"
  vp_realizedPnlGusd :: "string option"
  vp_reason :: "string option"
  vp_deposits :: int
  vp_withdraws :: int
  vp_firstActivityAtSec :: "int option"
  vp_lastActivityAtSec :: "int option"

text \<open>A page of either stream.\<close>

record 'a Body =
  bd_rows :: "'a list"
  bd_nextCursor :: "string option"

definition rowKey :: "int \<Rightarrow> string \<Rightarrow> int \<Rightarrow> string" where
  "rowKey chain hash index = int_text chain @ '':'' @ toLowerCase hash @ '':'' @ int_text index"

definition execKey :: "ExecutionDto \<Rightarrow> string" where
  "execKey e = rowKey (ex_chainId e) (ex_txHash e) (ex_logIndex e)"

definition eventKey :: "IndexedEvent \<Rightarrow> string" where
  "eventKey e = rowKey (ie_chainId e) (ie_txHash e) (ie_logIndex e)"

definition mergeById :: "'a list \<Rightarrow> 'a list \<Rightarrow> ('a \<Rightarrow> string) \<Rightarrow> 'a list" where
  "mergeById held page key =
     (let seen = key ` set held; older = filter (\<lambda>row. key row \<notin> seen) page
      in if older = [] then held else held @ older)"

subsection \<open>The store\<close>

definition PAGE_LIMIT :: nat where "PAGE_LIMIT = 25"
definition MAX_PAGES :: nat where "MAX_PAGES = 5"

record IndexedActivityState =
  ia_address :: "string option"
  ia_loadedAt :: "int option"
  ia_executions :: "ExecutionDto list"
  ia_events :: "IndexedEvent list"
  ia_vaultPosition :: "WalletVaultPositionDto option"
  ia_hasMoreExecutions :: bool
  ia_hasMoreEvents :: bool
  ia_loading :: bool
  ia_version :: int

definition EMPTY_ACTIVITY :: IndexedActivityState where
  "EMPTY_ACTIVITY = \<lparr>ia_address = None, ia_loadedAt = None, ia_executions = [], ia_events = [],
     ia_vaultPosition = None, ia_hasMoreExecutions = False, ia_hasMoreEvents = False,
     ia_loading = False, ia_version = 0\<rparr>"

record ActivityStore =
  as_state :: IndexedActivityState
  as_execCursor :: "string option"
  as_eventCursor :: "string option"
  as_execPages :: nat
  as_eventPages :: nat
  as_inflight :: "string option"

definition activity_init :: ActivityStore where
  "activity_init = \<lparr>as_state = EMPTY_ACTIVITY, as_execCursor = None, as_eventCursor = None,
     as_execPages = 0, as_eventPages = 0, as_inflight = None\<rparr>"

definition bump :: "IndexedActivityState \<Rightarrow> IndexedActivityState" where
  "bump st = st\<lparr>ia_version := ia_version st + 1\<rparr>"

text \<open>The first half of \<open>load\<close>: up to the three requests.\<close>

definition begin_load :: "bool \<Rightarrow> ActivityStore \<Rightarrow> ActivityStore" where
  "begin_load client s = (case ia_address (as_state s) of None \<Rightarrow> s | Some address \<Rightarrow>
     if \<not> client then s
     else if as_inflight s \<noteq> None then s
     else s\<lparr>as_state := bump ((as_state s)\<lparr>ia_loading := True\<rparr>), as_inflight := Some address\<rparr>)"

text \<open>The second half: each answer has landed or failed.\<close>

record LoadAnswers =
  la_executions :: "ExecutionDto Body option"
  la_events :: "IndexedEvent Body option"
  la_positions :: "WalletVaultPositionDto option option"

definition land_executions :: "ExecutionDto Body \<Rightarrow> ActivityStore \<Rightarrow> ActivityStore" where
  "land_executions body s = s\<lparr>as_state := (as_state s)\<lparr>ia_executions := bd_rows body,
     ia_hasMoreExecutions := bd_nextCursor body \<noteq> None\<rparr>, as_execCursor := bd_nextCursor body\<rparr>"

definition land_events :: "IndexedEvent Body \<Rightarrow> ActivityStore \<Rightarrow> ActivityStore" where
  "land_events body s = s\<lparr>as_state := (as_state s)\<lparr>ia_events := bd_rows body,
     ia_hasMoreEvents := bd_nextCursor body \<noteq> None\<rparr>, as_eventCursor := bd_nextCursor body\<rparr>"

definition landed :: "LoadAnswers \<Rightarrow> bool" where
  "landed a \<longleftrightarrow> la_executions a \<noteq> None \<or> la_events a \<noteq> None \<or> la_positions a \<noteq> None"

definition optionally :: "('b \<Rightarrow> 's \<Rightarrow> 's) \<Rightarrow> 'b option \<Rightarrow> 's \<Rightarrow> 's" where
  "optionally f x s = (case x of None \<Rightarrow> s | Some v \<Rightarrow> f v s)"

definition on_loaded :: "LoadAnswers \<Rightarrow> int \<Rightarrow> ActivityStore \<Rightarrow> ActivityStore" where
  "on_loaded a now s =
     (if ia_address (as_state s) \<noteq> as_inflight s then s\<lparr>as_inflight := None\<rparr>
      else
        let s1 = s\<lparr>as_state := (as_state s)\<lparr>ia_loading := False\<rparr>\<rparr>;
            s2 = optionally land_executions (la_executions a) s1;
            s3 = optionally land_events (la_events a) s2;
            s4 = optionally (\<lambda>vault s. s\<lparr>as_state := (as_state s)\<lparr>ia_vaultPosition := vault\<rparr>\<rparr>) (la_positions a) s3
        in s4\<lparr>as_execPages := 0, as_eventPages := 0, as_inflight := None,
             as_state := bump ((as_state s4)\<lparr>ia_loadedAt :=
               (if landed a then Some now else ia_loadedAt (as_state s))\<rparr>)\<rparr>)"

definition ensureLoaded :: "bool \<Rightarrow> ActivityStore \<Rightarrow> ActivityStore" where
  "ensureLoaded client s =
     (if ia_address (as_state s) = None then s
      else if ia_loadedAt (as_state s) \<noteq> None then s
      else begin_load client s)"

definition subscribe_activity :: "bool \<Rightarrow> bool \<Rightarrow> ActivityStore \<Rightarrow> ActivityStore" where
  "subscribe_activity client first s = (if first then ensureLoaded client s else s)"

definition setAddress :: "bool \<Rightarrow> string option \<Rightarrow> ActivityStore \<Rightarrow> ActivityStore" where
  "setAddress client address s =
     (let next' = map_option toLowerCase address in
      if next' \<noteq> None \<and> next' = ia_address (as_state s) then s
      else
        let s' = s\<lparr>as_execCursor := None, as_eventCursor := None, as_execPages := 0, as_eventPages := 0,
               as_state := EMPTY_ACTIVITY\<lparr>ia_address := next', ia_version := ia_version (as_state s) + 1\<rparr>\<rparr>
        in if next' \<noteq> None then begin_load client s' else s')"

text \<open>The first half of \<open>loadMoreExecutions\<close> and \<open>loadMoreEvents\<close>: the page is counted, and the
  request, when there is one, names the address and the cursor.\<close>

definition askExecutions :: "bool \<Rightarrow> ActivityStore \<Rightarrow> ActivityStore \<times> (string \<times> string) option" where
  "askExecutions client s = (case ia_address (as_state s) of None \<Rightarrow> (s, None) | Some address \<Rightarrow>
     if \<not> ia_hasMoreExecutions (as_state s) then (s, None)
     else if as_execPages s \<ge> MAX_PAGES then (s, None)
     else
       let s' = s\<lparr>as_execPages := as_execPages s + 1\<rparr> in
       (case as_execCursor s of None \<Rightarrow> (s', None)
        | Some cursor \<Rightarrow> (s', if client then Some (address, cursor) else None)))"

definition askEvents :: "bool \<Rightarrow> ActivityStore \<Rightarrow> ActivityStore \<times> (string \<times> string) option" where
  "askEvents client s = (case ia_address (as_state s) of None \<Rightarrow> (s, None) | Some address \<Rightarrow>
     if \<not> ia_hasMoreEvents (as_state s) then (s, None)
     else if as_eventPages s \<ge> MAX_PAGES then (s, None)
     else
       let s' = s\<lparr>as_eventPages := as_eventPages s + 1\<rparr> in
       (case as_eventCursor s of None \<Rightarrow> (s', None)
        | Some cursor \<Rightarrow> (s', if client then Some (address, cursor) else None)))"

text \<open>The second half: a page that failed changes nothing.\<close>

definition on_executions_page :: "ExecutionDto Body option \<Rightarrow> ActivityStore \<Rightarrow> ActivityStore" where
  "on_executions_page answer s = optionally (\<lambda>body s. s\<lparr>as_execCursor := bd_nextCursor body,
     as_state := bump ((as_state s)\<lparr>ia_executions := mergeById (ia_executions (as_state s)) (bd_rows body) execKey,
       ia_hasMoreExecutions := bd_nextCursor body \<noteq> None\<rparr>)\<rparr>) answer s"

definition on_events_page :: "IndexedEvent Body option \<Rightarrow> ActivityStore \<Rightarrow> ActivityStore" where
  "on_events_page answer s = optionally (\<lambda>body s. s\<lparr>as_eventCursor := bd_nextCursor body,
     as_state := bump ((as_state s)\<lparr>ia_events := mergeById (ia_events (as_state s)) (bd_rows body) eventKey,
       ia_hasMoreEvents := bd_nextCursor body \<noteq> None\<rparr>)\<rparr>) answer s"

subsection \<open>A session\<close>

text \<open>The requests that have no answer yet.\<close>

record ActivitySession =
  aw_store :: ActivityStore
  aw_execAsks :: "(string \<times> string) list"
  aw_eventAsks :: "(string \<times> string) list"

definition activity_session :: ActivitySession where
  "activity_session = \<lparr>aw_store = activity_init, aw_execAsks = [], aw_eventAsks = []\<rparr>"

text \<open>What the endpoints of a wallet answer: rows of this wallet, none of them twice.\<close>

definition execs_of :: "string \<Rightarrow> ExecutionDto Body option \<Rightarrow> bool" where
  "execs_of a answer \<longleftrightarrow> (case answer of None \<Rightarrow> True | Some body \<Rightarrow>
     distinct (map execKey (bd_rows body)) \<and> (\<forall>row \<in> set (bd_rows body). ex_wallet row = a))"

definition events_of :: "string \<Rightarrow> IndexedEvent Body option \<Rightarrow> bool" where
  "events_of a answer \<longleftrightarrow> (case answer of None \<Rightarrow> True | Some body \<Rightarrow>
     distinct (map eventKey (bd_rows body)) \<and> (\<forall>row \<in> set (bd_rows body). ie_user row = a))"

text \<open>The steps of a session with a client. In a \<open>calm\<close> session the wallet changes only while no older
  page is pending.\<close>

inductive activity_step :: "bool \<Rightarrow> ActivitySession \<Rightarrow> ActivitySession \<Rightarrow> bool" for calm :: bool where
  bind_wallet: "(calm \<longrightarrow> aw_execAsks w = [] \<and> aw_eventAsks w = []) \<Longrightarrow>
    activity_step calm w (w\<lparr>aw_store := setAddress True address (aw_store w)\<rparr>)"
| subscribed: "activity_step calm w (w\<lparr>aw_store := subscribe_activity True first (aw_store w)\<rparr>)"
| refreshed: "activity_step calm w (w\<lparr>aw_store := begin_load True (aw_store w)\<rparr>)"
| pass_answered: "as_inflight (aw_store w) = Some a \<Longrightarrow> execs_of a (la_executions ans) \<Longrightarrow>
    events_of a (la_events ans) \<Longrightarrow> activity_step calm w (w\<lparr>aw_store := on_loaded ans now (aw_store w)\<rparr>)"
| more_executions: "askExecutions True (aw_store w) = (s, ask) \<Longrightarrow>
    activity_step calm w (w\<lparr>aw_store := s, aw_execAsks := aw_execAsks w @ (case ask of None \<Rightarrow> [] | Some r \<Rightarrow> [r])\<rparr>)"
| more_events: "askEvents True (aw_store w) = (s, ask) \<Longrightarrow>
    activity_step calm w (w\<lparr>aw_store := s, aw_eventAsks := aw_eventAsks w @ (case ask of None \<Rightarrow> [] | Some r \<Rightarrow> [r])\<rparr>)"
| executions_page: "(a, cursor) \<in> set (aw_execAsks w) \<Longrightarrow> execs_of a answer \<Longrightarrow>
    activity_step calm w (w\<lparr>aw_store := on_executions_page answer (aw_store w),
      aw_execAsks := remove1 (a, cursor) (aw_execAsks w)\<rparr>)"
| events_page: "(a, cursor) \<in> set (aw_eventAsks w) \<Longrightarrow> events_of a answer \<Longrightarrow>
    activity_step calm w (w\<lparr>aw_store := on_events_page answer (aw_store w),
      aw_eventAsks := remove1 (a, cursor) (aw_eventAsks w)\<rparr>)"

subsection \<open>What every session keeps\<close>

lemma mergeById_distinct:
  "distinct (map key held) \<Longrightarrow> distinct (map key page) \<Longrightarrow> distinct (map key (mergeById held page key))"
  by (auto simp: mergeById_def Let_def distinct_map_filter rev_image_eqI)

lemma mergeById_set: "set (mergeById held page key) \<subseteq> set held \<union> set page"
  by (auto simp: mergeById_def Let_def)

text \<open>A store in order: a stream promises more exactly when it has a cursor, its pages stay within the
  cap, the spinner stands for a pass of the bound wallet, and no row is shown twice.\<close>

definition store_in_order :: "ActivityStore \<Rightarrow> bool" where
  "store_in_order s \<longleftrightarrow>
     (ia_hasMoreExecutions (as_state s) \<longleftrightarrow> as_execCursor s \<noteq> None) \<and>
     (ia_hasMoreEvents (as_state s) \<longleftrightarrow> as_eventCursor s \<noteq> None) \<and>
     as_execPages s \<le> MAX_PAGES \<and> as_eventPages s \<le> MAX_PAGES \<and>
     (ia_loading (as_state s) \<longrightarrow> (\<exists>a. as_inflight s = Some a \<and> ia_address (as_state s) = Some a)) \<and>
     distinct (map execKey (ia_executions (as_state s))) \<and> distinct (map eventKey (ia_events (as_state s)))"

lemmas activity_defs = begin_load_def on_loaded_def land_executions_def land_events_def ensureLoaded_def
  subscribe_activity_def setAddress_def on_executions_page_def on_events_page_def optionally_def bump_def
  EMPTY_ACTIVITY_def Let_def

named_theorems in_order

lemma begin_load_in_order [in_order]: "store_in_order s \<Longrightarrow> store_in_order (begin_load client s)"
  by (auto simp: store_in_order_def activity_defs split: option.splits)

lemma setAddress_in_order [in_order]: "store_in_order s \<Longrightarrow> store_in_order (setAddress client address s)"
proof -
  assume s: "store_in_order s"
  have "store_in_order (s\<lparr>as_execCursor := None, as_eventCursor := None, as_execPages := 0, as_eventPages := 0,
     as_state := EMPTY_ACTIVITY\<lparr>ia_address := a, ia_version := v\<rparr>\<rparr>)" for a v
    by (simp add: store_in_order_def EMPTY_ACTIVITY_def)
  then show ?thesis using s by (auto simp: setAddress_def Let_def intro: begin_load_in_order)
qed

lemma subscribe_in_order [in_order]: "store_in_order s \<Longrightarrow> store_in_order (subscribe_activity client first s)"
  by (simp add: subscribe_activity_def ensureLoaded_def in_order)

lemma on_loaded_in_order [in_order]:
  "store_in_order s \<Longrightarrow> execs_of a (la_executions ans) \<Longrightarrow> events_of b (la_events ans) \<Longrightarrow>
   store_in_order (on_loaded ans now s)"
  by (cases "la_executions ans"; cases "la_events ans"; cases "la_positions ans")
    (auto simp: store_in_order_def activity_defs execs_of_def events_of_def)

lemma ask_in_order [in_order]:
  "store_in_order s \<Longrightarrow> store_in_order (fst (askExecutions client s))"
  "store_in_order s \<Longrightarrow> store_in_order (fst (askEvents client s))"
  by (auto simp: store_in_order_def askExecutions_def askEvents_def Let_def split: option.splits)

lemma page_in_order [in_order]:
  "store_in_order s \<Longrightarrow> execs_of a execs \<Longrightarrow> store_in_order (on_executions_page execs s)"
  "store_in_order s \<Longrightarrow> events_of a evs \<Longrightarrow> store_in_order (on_events_page evs s)"
  by (auto simp: store_in_order_def activity_defs execs_of_def events_of_def mergeById_distinct split: option.splits)

lemma ask_in_order' [in_order]:
  "askExecutions client s = (s', ask) \<Longrightarrow> store_in_order s \<Longrightarrow> store_in_order s'"
  "askEvents client s = (s', ask) \<Longrightarrow> store_in_order s \<Longrightarrow> store_in_order s'"
  by (metis ask_in_order(1) fst_conv) (metis ask_in_order(2) fst_conv)

lemma in_order_step: "activity_step calm w w' \<Longrightarrow> store_in_order (aw_store w) \<Longrightarrow> store_in_order (aw_store w')"
  by (induction rule: activity_step.induct) (simp_all add: in_order)

text \<open>Whose rows the store shows, and whose pages are pending.\<close>

definition rows_owned :: "IndexedActivityState \<Rightarrow> bool" where
  "rows_owned st \<longleftrightarrow> (\<forall>row \<in> set (ia_executions st). ia_address st = Some (ex_wallet row)) \<and>
     (\<forall>row \<in> set (ia_events st). ia_address st = Some (ie_user row))"

definition asks_owned :: "ActivitySession \<Rightarrow> bool" where
  "asks_owned w \<longleftrightarrow> (\<forall>(a, cursor) \<in> set (aw_execAsks w) \<union> set (aw_eventAsks w). ia_address (as_state (aw_store w)) = Some a)"

named_theorems owned

lemma begin_load_owned [owned]: "rows_owned (as_state (begin_load client s)) \<longleftrightarrow> rows_owned (as_state s)"
  "ia_address (as_state (begin_load client s)) = ia_address (as_state s)"
  by (auto simp: rows_owned_def activity_defs split: option.splits)

lemma subscribe_owned [owned]: "rows_owned (as_state (subscribe_activity client first s)) \<longleftrightarrow> rows_owned (as_state s)"
  "ia_address (as_state (subscribe_activity client first s)) = ia_address (as_state s)"
  by (auto simp: subscribe_activity_def ensureLoaded_def owned)

lemma setAddress_owned [owned]: "rows_owned (as_state s) \<Longrightarrow> rows_owned (as_state (setAddress client address s))"
  by (auto simp: setAddress_def Let_def owned) (simp_all add: rows_owned_def EMPTY_ACTIVITY_def)

lemma on_loaded_owned [owned]:
  "as_inflight s = Some a \<Longrightarrow> execs_of a (la_executions ans) \<Longrightarrow> events_of a (la_events ans) \<Longrightarrow>
   rows_owned (as_state s) \<Longrightarrow> rows_owned (as_state (on_loaded ans now s))"
  "ia_address (as_state (on_loaded ans now s)) = ia_address (as_state s)"
  by (cases "la_executions ans"; cases "la_events ans"; cases "la_positions ans";
      auto simp: rows_owned_def activity_defs execs_of_def events_of_def)+

lemma ask_owned [owned]:
  "askExecutions client s = (s', ask) \<Longrightarrow> rows_owned (as_state s') \<longleftrightarrow> rows_owned (as_state s)"
  "askEvents client s = (s', ask) \<Longrightarrow> rows_owned (as_state s') \<longleftrightarrow> rows_owned (as_state s)"
  "askExecutions client s = (s', ask) \<Longrightarrow> ia_address (as_state s') = ia_address (as_state s)"
  "askEvents client s = (s', ask) \<Longrightarrow> ia_address (as_state s') = ia_address (as_state s)"
  "askExecutions client s = (s', Some (a, c)) \<Longrightarrow> ia_address (as_state s) = Some a"
  "askEvents client s = (s', Some (a, c)) \<Longrightarrow> ia_address (as_state s) = Some a"
  by (auto simp: askExecutions_def askEvents_def Let_def split: option.splits if_splits)

lemma page_owned [owned]:
  "rows_owned (as_state s) \<Longrightarrow> ia_address (as_state s) = Some a \<Longrightarrow> execs_of a execs \<Longrightarrow>
   rows_owned (as_state (on_executions_page execs s))"
  "rows_owned (as_state s) \<Longrightarrow> ia_address (as_state s) = Some a \<Longrightarrow> events_of a evs \<Longrightarrow>
   rows_owned (as_state (on_events_page evs s))"
  "ia_address (as_state (on_executions_page execs s)) = ia_address (as_state s)"
  "ia_address (as_state (on_events_page evs s)) = ia_address (as_state s)"
  using mergeById_set
  by (auto simp: rows_owned_def activity_defs execs_of_def events_of_def split: option.splits dest!: subsetD [OF mergeById_set])

lemma in_remove1: "x \<in> set (remove1 y xs) \<Longrightarrow> x \<in> set xs"
  using notin_set_remove1 by fastforce

lemma owned_step:
  "activity_step True w w' \<Longrightarrow> rows_owned (as_state (aw_store w)) \<and> asks_owned w \<Longrightarrow>
   rows_owned (as_state (aw_store w')) \<and> asks_owned w'"
proof (induction rule: activity_step.induct)
  case (executions_page a cursor w answer)
  then have "ia_address (as_state (aw_store w)) = Some a" by (force simp: asks_owned_def)
  then show ?case using executions_page by (auto simp: owned asks_owned_def dest: in_remove1)
next
  case (events_page a cursor w answer)
  then have "ia_address (as_state (aw_store w)) = Some a" by (force simp: asks_owned_def)
  then show ?case using events_page by (auto simp: owned asks_owned_def dest: in_remove1)
next
  case (more_executions w s ask)
  then show ?case by (cases ask) (auto simp: owned asks_owned_def)
next
  case (more_events w s ask)
  then show ?case by (cases ask) (auto simp: owned asks_owned_def)
qed (auto simp: owned asks_owned_def)

lemma calm_is_any: "activity_step True w w' \<Longrightarrow> activity_step False w w'"
  by (induction rule: activity_step.induct) (auto intro: activity_step.intros)

interpretation activity: machine activity_session "activity_step False" "\<lambda>w. store_in_order (aw_store w)"
proof unfold_locales
  show "store_in_order (aw_store activity_session)"
    by (simp add: activity_session_def activity_init_def store_in_order_def EMPTY_ACTIVITY_def)
qed (rule in_order_step)

interpretation calm_activity: machine activity_session "activity_step True" "\<lambda>w. rows_owned (as_state (aw_store w)) \<and> asks_owned w"
proof unfold_locales
  show "rows_owned (as_state (aw_store activity_session)) \<and> asks_owned activity_session"
    by (simp add: activity_session_def activity_init_def rows_owned_def asks_owned_def EMPTY_ACTIVITY_def)
qed (rule owned_step)

subsection \<open>Properties\<close>

text \<open>However the requests of a session interleave, a stream of the wallet's activity promises more
  rows exactly when it holds a cursor, asks for at most five older pages between two full loads, shows
  no row twice, and the spinner stands for a pass of the bound wallet.\<close>
theorem activity_stays_in_order:
  assumes "(activity_step False)\<^sup>*\<^sup>* activity_session w"
  shows "(ia_hasMoreExecutions (as_state (aw_store w)) \<longleftrightarrow> as_execCursor (aw_store w) \<noteq> None) \<and>
    (ia_hasMoreEvents (as_state (aw_store w)) \<longleftrightarrow> as_eventCursor (aw_store w) \<noteq> None) \<and>
    as_execPages (aw_store w) \<le> 5 \<and> as_eventPages (aw_store w) \<le> 5 \<and>
    distinct (map execKey (ia_executions (as_state (aw_store w)))) \<and>
    distinct (map eventKey (ia_events (as_state (aw_store w)))) \<and>
    (ia_loading (as_state (aw_store w)) \<longrightarrow>
      (\<exists>a. as_inflight (aw_store w) = Some a \<and> ia_address (as_state (aw_store w)) = Some a))"
  using activity.inv_reachable [OF assms] by (simp add: store_in_order_def MAX_PAGES_def)

text \<open>In a session whose wallet changes only while no older page is pending, every row shown belongs
  to the bound wallet, also when the wallet changes while a full load is in flight.\<close>
theorem rows_belong_to_the_wallet:
  assumes "(activity_step True)\<^sup>*\<^sup>* activity_session w"
  shows "(\<forall>row \<in> set (ia_executions (as_state (aw_store w))). ia_address (as_state (aw_store w)) = Some (ex_wallet row)) \<and>
    (\<forall>row \<in> set (ia_events (as_state (aw_store w))). ia_address (as_state (aw_store w)) = Some (ie_user row))"
  using calm_activity.inv_reachable [OF assms] by (simp add: rows_owned_def)

text \<open>A wallet that is bound while a pass of another wallet is in flight is not loaded: the pass that
  comes back is dropped, as it must be, and no pass for the new wallet is started, so that the store
  stays empty, not loading and with nothing in flight until something else refreshes it.\<close>
theorem switch_in_flight_loads_nothing:
  assumes "as_inflight s = Some a" "toLowerCase b \<noteq> a" "ia_address (as_state s) = Some a"
  shows "let s' = on_loaded ans now (setAddress True (Some b) s) in
    ia_address (as_state s') = Some (toLowerCase b) \<and> ia_loadedAt (as_state s') = None \<and>
    ia_executions (as_state s') = [] \<and> ia_events (as_state s') = [] \<and>
    \<not> ia_loading (as_state s') \<and> as_inflight s' = None"
  using assms by (simp add: activity_defs)

subsection \<open>A sample session\<close>

definition sampleExecution :: "string \<Rightarrow> int \<Rightarrow> ExecutionDto" where
  "sampleExecution wallet index = \<lparr>ex_side = BuySide, ex_chainId = 1, ex_blockNumber = 7, ex_logIndex = index,
     ex_txHash = ''0xF'', ex_blockTimestampSec = 70, ex_gpuId = ''0x48'', ex_wallet = wallet, ex_payer = None,
     ex_gpuAmount = ''1'', ex_gUsdAmount = ''1'', ex_polFeeGusd = ''0'', ex_issuanceFeeGusd = None,
     ex_hookFeeGusd = ''0''\<rparr>"

definition sampleAnswers :: LoadAnswers where
  "sampleAnswers = \<lparr>la_executions = Some \<lparr>bd_rows = [sampleExecution ''0xa'' 1], bd_nextCursor = Some ''c''\<rparr>,
     la_events = None, la_positions = None\<rparr>"

definition bound :: ActivitySession where
  "bound = activity_session\<lparr>aw_store := setAddress True (Some ''0xA'') (aw_store activity_session)\<rparr>"

definition loaded :: ActivitySession where
  "loaded = bound\<lparr>aw_store := on_loaded sampleAnswers 50 (aw_store bound)\<rparr>"

definition asking :: ActivitySession where
  "asking = loaded\<lparr>aw_store := fst (askExecutions True (aw_store loaded)), aw_execAsks := [(''0xa'', ''c'')]\<rparr>"

definition switched :: ActivitySession where
  "switched = asking\<lparr>aw_store := setAddress True (Some ''0xB'') (aw_store asking)\<rparr>"

definition crossed :: ActivitySession where
  "crossed = switched\<lparr>aw_store := on_executions_page (Some \<lparr>bd_rows = [sampleExecution ''0xa'' 2], bd_nextCursor = None\<rparr>)
     (aw_store switched), aw_execAsks := []\<rparr>"

lemma bound_step: "activity_step True activity_session bound"
  unfolding bound_def by (rule activity_step.bind_wallet) (simp add: activity_session_def)

lemma loaded_step: "activity_step True bound loaded"
  unfolding loaded_def
proof (rule activity_step.pass_answered)
  show "as_inflight (aw_store bound) = Some ''0xa''" by code_simp
qed (simp_all add: sampleAnswers_def execs_of_def events_of_def sampleExecution_def)

lemma asking_step: "activity_step True loaded asking"
proof -
  have "askExecutions True (aw_store loaded) = (aw_store asking, Some (''0xa'', ''c''))" by code_simp
  from activity_step.more_executions [where calm = True, OF this] show ?thesis
    by (simp add: asking_def) (simp add: loaded_def bound_def activity_session_def)
qed

lemma switched_step: "activity_step False asking switched"
  unfolding switched_def by (rule activity_step.bind_wallet) simp

lemma crossed_step: "activity_step False switched crossed"
proof -
  have asks: "aw_execAsks switched = [(''0xa'', ''c'')]" by (simp add: switched_def asking_def)
  have "activity_step False switched (switched\<lparr>aw_store := on_executions_page
      (Some \<lparr>bd_rows = [sampleExecution ''0xa'' 2], bd_nextCursor = None\<rparr>) (aw_store switched),
      aw_execAsks := remove1 (''0xa'', ''c'') (aw_execAsks switched)\<rparr>)"
    by (rule activity_step.executions_page) (simp_all add: asks execs_of_def sampleExecution_def)
  then show ?thesis by (simp add: crossed_def asks)
qed

lemma calm_asking: "(activity_step True)\<^sup>*\<^sup>* activity_session asking"
  by (rule rtranclp.rtrancl_into_rtrancl [OF rtranclp.rtrancl_into_rtrancl
      [OF r_into_rtranclp [of "activity_step True", OF bound_step] loaded_step] asking_step])

lemma any_asking: "(activity_step False)\<^sup>*\<^sup>* activity_session asking"
  using calm_asking by (rule rtranclp_mono [THEN predicate2D, rotated]) (auto intro: calm_is_any)

lemma crossed_reachable: "(activity_step False)\<^sup>*\<^sup>* activity_session crossed"
  by (rule rtranclp.rtrancl_into_rtrancl [OF rtranclp.rtrancl_into_rtrancl [OF any_asking switched_step] crossed_step])

text \<open>A page of the previous wallet that is pending when the wallet changes lands on the new wallet:
  its rows are shown as the new wallet's.\<close>
theorem stale_page_lands_on_the_next_wallet:
  "\<exists>w row. (activity_step False)\<^sup>*\<^sup>* activity_session w \<and> ia_address (as_state (aw_store w)) = Some ''0xb'' \<and>
     row \<in> set (ia_executions (as_state (aw_store w))) \<and> ex_wallet row = ''0xa''"
proof (intro exI conjI)
  show "(activity_step False)\<^sup>*\<^sup>* activity_session crossed" by (rule crossed_reachable)
  show "ia_address (as_state (aw_store crossed)) = Some ''0xb''" by code_simp
  have "ia_executions (as_state (aw_store crossed)) = [sampleExecution ''0xa'' 2]" by code_simp
  then show "sampleExecution ''0xa'' 2 \<in> set (ia_executions (as_state (aw_store crossed)))" by simp
qed (simp add: sampleExecution_def)

theorem activity_stays_in_order_witness:
  "ia_hasMoreExecutions (as_state (aw_store asking)) \<and> as_execPages (aw_store asking) \<le> 5 \<and>
   ia_hasMoreExecutions (as_state (aw_store asking)) = (as_execCursor (aw_store asking) \<noteq> None)"
proof -
  from activity_stays_in_order [OF any_asking]
  have "as_execPages (aw_store asking) \<le> 5"
    "ia_hasMoreExecutions (as_state (aw_store asking)) = (as_execCursor (aw_store asking) \<noteq> None)" by simp_all
  moreover have "ia_hasMoreExecutions (as_state (aw_store asking))" by code_simp
  ultimately show ?thesis by simp
qed

theorem rows_belong_to_the_wallet_witness:
  "ia_executions (as_state (aw_store asking)) \<noteq> [] \<and>
   (\<forall>row \<in> set (ia_executions (as_state (aw_store asking))). Some ''0xa'' = Some (ex_wallet row))"
proof -
  have "ia_address (as_state (aw_store asking)) = Some ''0xa''" by code_simp
  then have "\<forall>row \<in> set (ia_executions (as_state (aw_store asking))). Some ''0xa'' = Some (ex_wallet row)"
    using rows_belong_to_the_wallet [OF calm_asking] by simp
  moreover have "ia_executions (as_state (aw_store asking)) = [sampleExecution ''0xa'' 1]" by code_simp
  ultimately show ?thesis by simp
qed

theorem switch_in_flight_loads_nothing_witness:
  "ia_loadedAt (as_state (on_loaded sampleAnswers 60 (setAddress True (Some ''0xB'') (aw_store bound)))) = None"
proof -
  have "as_inflight (aw_store bound) = Some ''0xa''" "ia_address (as_state (aw_store bound)) = Some ''0xa''"
    "toLowerCase ''0xB'' \<noteq> ''0xa''" by code_simp+
  from switch_in_flight_loads_nothing [OF this(1,3,2), of sampleAnswers 60] show ?thesis by (simp add: Let_def)
qed

end
