(* ===== verification/GpuIds.thy ===== *)
theory GpuIds
  imports Catalog Indexer
begin

text \<open>
  apps/web/src/data/oracle/panel-map.ts and data/web3/gpu-id.ts: the assets of the web application, the
  panels they settle on and the way back from an on-chain GPU id. A decoded id is a list of code units,
  because \<open>String.fromCharCode\<close> may leave the bytes; an id has no line breaks, which the pattern of
  pairs would skip. \<open>padHex (toHex s)\<close> is a call into viem, the parameter \<open>hexOf\<close>.
\<close>

datatype AssetId = H100 | H200 | L40S | RTX4090

record PanelRef =
  ref_panelId :: string
  ref_gpuId :: GpuId

definition ASSET_GPU :: "(AssetId \<times> GpuId) list" where
  "ASSET_GPU = [(H100, H100_SXM_80GB), (H200, H200_141GB), (L40S, L40S_48GB), (RTX4090, RTX_4090_24GB)]"

definition buildOraclePanels :: "(AssetId \<times> PanelRef) list" where
  "buildOraclePanels = List.map_filter (\<lambda>(asset, gpuId).
     map_option (\<lambda>panel. (asset, \<lparr>ref_panelId = panel_id panel, ref_gpuId = gpuId\<rparr>))
       (find (\<lambda>p. panel_gpuId p = gpuId) SETTLEMENT_PANELS)) ASSET_GPU"

definition ORACLE_PANELS :: "(AssetId \<times> PanelRef) list" where
  "ORACLE_PANELS = buildOraclePanels"

definition codeUnits :: "string \<Rightarrow> int list" where
  "codeUnits s = map char_code s"

definition GPU_ID_TO_ASSET :: "(int list, AssetId) js_map" where
  "GPU_ID_TO_ASSET = fold (\<lambda>(asset, ref). js_set (codeUnits (gpuIdText (ref_gpuId ref))) asset) ORACLE_PANELS js_empty"

definition isOracleBacked :: "AssetId \<Rightarrow> bool" where
  "isOracleBacked asset \<longleftrightarrow> asset \<in> fst ` set ORACLE_PANELS"

definition assetForGpuParam :: "string \<Rightarrow> AssetId option" where
  "assetForGpuParam param = map_option fst
     (find (\<lambda>(asset, ref). ref_panelId ref = param \<or> gpuIdText (ref_gpuId ref) = param) ORACLE_PANELS)"

text \<open>\<open>None\<close> is the thrown error.\<close>

definition gpuIdForAsset :: "(string \<Rightarrow> string) \<Rightarrow> AssetId \<Rightarrow> string option" where
  "gpuIdForAsset hexOf asset = map_option (\<lambda>ref. hexOf (gpuIdText (ref_gpuId ref))) (map_of ORACLE_PANELS asset)"

text \<open>\<open>/(00)+$/\<close>: whole pairs, counted from the end.\<close>

fun strip_rev :: "string \<Rightarrow> string" where
  "strip_rev (a # b # s) = (if a = CHR ''0'' \<and> b = CHR ''0'' then strip_rev s else a # b # s)"
| "strip_rev s = s"

definition stripPadding :: "string \<Rightarrow> string" where
  "stripPadding raw = rev (strip_rev (rev raw))"

fun hexPairs :: "string \<Rightarrow> string list" where
  "hexPairs (a # b # s) = [a, b] # hexPairs s"
| "hexPairs _ = []"

definition gpuIdToString :: "string \<Rightarrow> int list" where
  "gpuIdToString gpuId = map (\<lambda>b. case parseInt16 b of None \<Rightarrow> 0 | Some n \<Rightarrow> n mod 65536)
     (hexPairs (stripPadding (drop 2 gpuId)))"

definition assetForGpuId :: "string \<Rightarrow> AssetId option" where
  "assetForGpuId gpuId = (let sku = gpuIdToString gpuId in
     map_option fst (find (\<lambda>(asset, ref). codeUnits (gpuIdText (ref_gpuId ref)) = sku) ORACLE_PANELS))"

definition assetForWireGpuId :: "string \<Rightarrow> AssetId option" where
  "assetForWireGpuId gpuId =
     js_get GPU_ID_TO_ASSET (if take 2 gpuId = ''0x'' then gpuIdToString gpuId else codeUnits gpuId)"

subsection \<open>Decoding what was encoded\<close>

lemma hex_zero [simp]: "hex_char 0 = CHR ''0''" "hex_byte 0 = ''00''"
  by code_simp+

lemma strip_rev_zeros: "strip_rev (concat (map hex_byte (replicate n 0)) @ s) = strip_rev s"
proof (induction n)
  case (Suc n)
  then show ?case by simp
qed simp

lemma rev_zeros: "rev (concat (map hex_byte (replicate n 0))) = concat (map hex_byte (replicate n 0))"
proof (induction n)
  case (Suc n)
  have "concat (replicate n ''00'') @ ''00'' = ''00'' @ concat (replicate n ''00'')" by (induction n) simp_all
  then show ?case using Suc by simp
qed simp

lemma hex_char_zero: "0 \<le> d \<Longrightarrow> d < 16 \<Longrightarrow> hex_char d = CHR ''0'' \<longleftrightarrow> d = 0"
proof -
  assume d: "0 \<le> d" "d < 16"
  have "hex_val (hex_char d) = Some d" using d by (rule hex_val_hex_char)
  moreover have "hex_val (CHR ''0'') = Some 0" by (simp add: hex_val_def char_code_def)
  ultimately have "hex_char d = CHR ''0'' \<Longrightarrow> d = 0" by simp
  then show ?thesis by auto
qed

lemma strip_bytes:
  assumes "\<forall>b \<in> set bs. 0 < b \<and> b < 256"
  shows "stripPadding (concat (map hex_byte (bs @ replicate n 0))) = concat (map hex_byte bs)"
proof (cases bs rule: rev_cases)
  case Nil
  then show ?thesis using strip_rev_zeros [of n "[]"] rev_zeros [of n] by (simp add: stripPadding_def del: map_replicate)
next
  case (snoc cs b)
  then have b: "0 \<le> b div 16" "b div 16 < 16" "0 \<le> b mod 16" "b mod 16 < 16" "0 < b"
    using assms by (auto simp: pos_imp_zdiv_nonneg_iff)
  have "\<not> (b mod 16 = 0 \<and> b div 16 = 0)" using b(5) div_mult_mod_eq [of b 16] by linarith
  then have "strip_rev (rev (hex_byte b) @ s) = rev (hex_byte b) @ s" for s
    using hex_char_zero [OF b(1,2)] hex_char_zero [OF b(3,4)] by (auto simp: hex_byte_def)
  then show ?thesis by (simp add: snoc stripPadding_def rev_zeros strip_rev_zeros del: map_replicate)
qed

lemma pairs_bytes: "hexPairs (concat (map hex_byte bs)) = map hex_byte bs"
  by (induction bs) (simp_all add: hex_byte_def)

lemma decodes_encoded:
  assumes "encodeGpuId sku = Inr h"
  shows "gpuIdToString h = codeUnits sku"
proof -
  have h: "drop 2 h = concat (map hex_byte (map char_code sku @ replicate (32 - length sku) 0))"
    and p: "\<forall>c \<in> set sku. printable (char_code c)"
    using assms by (auto simp: encodeGpuId_Inr)
  have b: "\<forall>b \<in> set (map char_code sku). 0 < b \<and> b < 256"
    using p char_code_range by (auto simp: printable_def)
  have "map (\<lambda>b. case parseInt16 b of None \<Rightarrow> 0 | Some n \<Rightarrow> n mod 65536) (map hex_byte (map char_code sku)) =
      map char_code sku"
    using b char_code_range by (auto simp: parseInt16_hex_byte intro!: mod_pos_pos_trivial) (smt (verit))
  then show ?thesis by (simp only: gpuIdToString_def h strip_bytes [OF b] pairs_bytes codeUnits_def)
qed

lemma codeUnits_inj: "codeUnits s = codeUnits t \<longleftrightarrow> s = t"
proof -
  have "inj char_code" by (rule injI) (metis char_code_range(3) of_char_eq_iff)
  then show ?thesis by (auto simp: codeUnits_def inj_map_eq_map)
qed

lemma ORACLE_PANELS_eq: "ORACLE_PANELS =
  [(H100, \<lparr>ref_panelId = ''H100_PANEL_V1'', ref_gpuId = H100_SXM_80GB\<rparr>),
   (H200, \<lparr>ref_panelId = ''H200_PANEL_V1'', ref_gpuId = H200_141GB\<rparr>),
   (L40S, \<lparr>ref_panelId = ''L40S_PANEL_V1'', ref_gpuId = L40S_48GB\<rparr>),
   (RTX4090, \<lparr>ref_panelId = ''RTX_4090_PANEL_V1'', ref_gpuId = RTX_4090_24GB\<rparr>)]"
  by (simp add: ORACLE_PANELS_def buildOraclePanels_def ASSET_GPU_def SETTLEMENT_PANELS_def List.map_filter_def)

text \<open>C32. The three decoders of a GPU id, the attestor's, the indexer's and the web application's, read the
  same SKU from every id the attestor encodes, and both lookups of the application resolve the id of a
  panel's SKU to the asset that settles on it.\<close>
theorem gpu_id_decoders_agree:
  assumes "encodeGpuId sku = Inr h"
  shows "gpuIdToString h = codeUnits sku \<and> decodeSku h = codeUnits sku \<and> decodeGpuId h = Inr sku \<and>
    (\<forall>(asset, ref) \<in> set ORACLE_PANELS. gpuIdText (ref_gpuId ref) = sku \<longrightarrow>
       assetForGpuId h = Some asset \<and> assetForWireGpuId h = Some asset)"
proof -
  have g: "gpuIdToString h = codeUnits sku" by (rule decodes_encoded [OF assms])
  have two: "take 2 h = ''0x''" using assms by (auto simp: encodeGpuId_Inr)
  have "assetForGpuId h = Some asset \<and> assetForWireGpuId h = Some asset"
    if "(asset, ref) \<in> set ORACLE_PANELS" "gpuIdText (ref_gpuId ref) = sku" for asset ref
    using that two
    by (auto simp: assetForGpuId_def assetForWireGpuId_def g Let_def codeUnits_inj GPU_ID_TO_ASSET_def ORACLE_PANELS_eq)
  then show ?thesis
    using g indexer_decodes_attestor_ids [OF assms] decode_encode [OF assms] by (auto simp: codeUnits_def)
qed

theorem gpu_id_decoders_agree_witness:
  "\<exists>h. encodeGpuId ''L40S_48GB'' = Inr h \<and> assetForGpuId h = Some L40S \<and> assetForWireGpuId h = Some L40S"
proof -
  have "\<exists>h. encodeGpuId ''L40S_48GB'' = Inr h" by (simp add: encodeGpuId_Inr printable_def char_code_def)
  then obtain h where h: "encodeGpuId ''L40S_48GB'' = Inr h" ..
  from gpu_id_decoders_agree [OF h] have "assetForGpuId h = Some L40S \<and> assetForWireGpuId h = Some L40S"
    unfolding ORACLE_PANELS_eq by simp
  then show ?thesis using h by blast
qed

end
