(* ===== verification/ProtocolMap.thy ===== *)
theory ProtocolMap
  imports ActivityStore GpuIds KeeperBook CostBasis "HOL-Library.Product_Lexorder"
begin

text \<open>
  apps/web/src/data/protocol/map.ts with the rows of data/protocol/dto.ts: from the wire's decimal
  strings to the figures and rows of the product. \<open>Number(formatUnits(raw, decimals))\<close> of
  domain/units.ts calls viem and is the parameter \<open>fu\<close>; a string that \<open>BigInt\<close> refuses is \<open>None\<close>.
  Counts and times are integral numbers.
\<close>

type_synonym format_units = "int \<Rightarrow> nat \<Rightarrow> number"

definition GUSD_DECIMALS :: nat where "GUSD_DECIMALS = 6"
definition GPU_TOKEN_DECIMALS :: nat where "GPU_TOKEN_DECIMALS = 18"

definition formatGusdRaw :: "format_units \<Rightarrow> int \<Rightarrow> number" where
  "formatGusdRaw fu raw = fu raw GUSD_DECIMALS"

definition formatGpuUnits :: "format_units \<Rightarrow> int \<Rightarrow> number" where
  "formatGpuUnits fu raw = fu raw GPU_TOKEN_DECIMALS"

text \<open>\<open>Number(raw) / 1e6\<close>, which rounds twice.\<close>

definition perMillion :: "int \<Rightarrow> number" where
  "perMillion raw = fdiv (fl (of_int raw)) 1000000"

subsection \<open>Wire rows\<close>

record WalletPositionDto =
  wp_chainId :: int
  wp_gpuId :: string
  wp_qtyGpu :: string
  wp_costGusd :: string
  wp_basisState :: string
  wp_avgEntryGusd :: "string option"
  wp_realizedPnlGusd :: "string option"
  wp_reason :: "string option"
  wp_acquisitions :: int
  wp_disposals :: int
  wp_firstActivityAtSec :: "int option"
  wp_lastActivityAtSec :: "int option"

record PoolDto =
  pd_chainId :: int
  pd_poolId :: string
  pd_gpuId :: "string option"
  pd_canonical :: bool
  pd_registeredBlockNumber :: "int option"
  pd_registeredAtSec :: "int option"
  pd_currency0 :: "string option"
  pd_currency1 :: "string option"
  pd_fee :: "int option"
  pd_tickSpacing :: "int option"
  pd_hooks :: "string option"
  pd_gusdIsCurrency0 :: "bool option"
  pd_sqrtPriceX96 :: "string option"
  pd_tick :: "int option"
  pd_liquidity :: "string option"
  pd_swapCount :: int
  pd_volumeGusd :: string
  pd_buyVolumeGusd :: string
  pd_sellVolumeGusd :: string
  pd_hookFeesGusd :: string
  pd_lpFeesGusdEst :: string
  pd_lastSwapAtSec :: "int option"
  pd_lastSwapBlockNumber :: "int option"
  pd_ammPriceGusd :: "string option"

record PoolStatsBucketDto =
  pb_bucketStart :: int
  pb_volumeGusd :: string
  pb_buyVolumeGusd :: string
  pb_sellVolumeGusd :: string
  pb_buys :: int
  pb_sells :: int
  pb_hookFeesGusd :: string
  pb_lpFeesGusdEst :: string
  pb_swaps :: int

record SwapTapeDto =
  sw_chainId :: int
  sw_blockNumber :: int
  sw_logIndex :: int
  sw_blockTimestampSec :: int
  sw_poolId :: string
  sw_sender :: string
  sw_amount0 :: string
  sw_amount1 :: string
  sw_side :: "ExecutionSide option"
  sw_gusdAmount :: "string option"
  sw_sqrtPriceX96 :: string
  sw_liquidity :: string
  sw_tick :: int
  sw_fee :: int

record SgusdVaultDto =
  sv_chainId :: int
  sv_seededGusd :: string
  sv_depositsGusd :: string
  sv_withdrawsGusd :: string
  sv_sharesMinted :: string
  sv_sharesBurned :: string
  sv_depositCount :: int
  sv_withdrawCount :: int
  sv_revenueGusd :: string

datatype Freshness = CurrentReport | ExpiredReport | UnknownReport

record GpuOracleStateDto =
  os_chainId :: int
  os_gpuId :: string
  os_price :: "string option"
  os_observedAtSec :: "int option"
  os_epoch :: "string option"
  os_reportHash :: "string option"
  os_caller :: "string option"
  os_lastConsumedBlockNumber :: "int option"
  os_priceScale :: int
  os_ageSec :: "int option"
  os_freshness :: Freshness

subsection \<open>Guarded parsing\<close>

definition signedRaw :: "string option \<Rightarrow> int option" where
  "signedRaw v = (case v of None \<Rightarrow> None | Some s \<Rightarrow> if s = [] then None else bigint_of_string s)"

definition rawOf :: "string option \<Rightarrow> int option" where
  "rawOf v = (case v of None \<Rightarrow> None | Some s \<Rightarrow> if s = [] then None else
     (case bigint_of_string s of None \<Rightarrow> None | Some b \<Rightarrow> if b < 0 then None else Some b))"

definition number6 :: "format_units \<Rightarrow> string option \<Rightarrow> number option" where
  "number6 fu raw = map_option (formatGusdRaw fu) (rawOf raw)"

definition number18 :: "format_units \<Rightarrow> string option \<Rightarrow> number option" where
  "number18 fu raw = map_option (formatGpuUnits fu) (rawOf raw)"

definition stringArg :: "IndexedEvent \<Rightarrow> string \<Rightarrow> string option" where
  "stringArg e key = (case map_of (ie_data e) key of Some v \<Rightarrow> v | None \<Rightarrow> None)"

definition number6FromData :: "format_units \<Rightarrow> IndexedEvent \<Rightarrow> string \<Rightarrow> number option" where
  "number6FromData fu e key = (case stringArg e key of None \<Rightarrow> None | Some v \<Rightarrow> number6 fu (Some v))"

definition number18FromData :: "format_units \<Rightarrow> IndexedEvent \<Rightarrow> string \<Rightarrow> number option" where
  "number18FromData fu e key = (case stringArg e key of None \<Rightarrow> None | Some v \<Rightarrow> number18 fu (Some v))"

subsection \<open>Pools\<close>

record MarketTrade =
  mt_id :: string
  mt_side :: ExecutionSide
  mt_size :: number
  mt_price :: number
  mt_notional :: number
  mt_t :: int

text \<open>A pool whose order is not known counts as one where gUSD is the second currency, as \<open>null\<close> is falsy.\<close>

definition swapToMarketTrade :: "format_units \<Rightarrow> SwapTapeDto \<Rightarrow> PoolDto option \<Rightarrow> MarketTrade option" where
  "swapToMarketTrade fu swap pool = (case (sw_side swap, sw_gusdAmount swap, pool) of
     (Some side, Some gusdAmount, Some p) \<Rightarrow>
       (case (signedRaw (Some (if pd_gusdIsCurrency0 p = Some True then sw_amount1 swap else sw_amount0 swap)),
              rawOf (Some gusdAmount)) of
          (Some gpuRaw, Some gusdRaw) \<Rightarrow>
            if gpuRaw = 0 then None
            else
              let notional = formatGusdRaw fu gusdRaw;
                  units = formatGpuUnits fu (if gpuRaw < 0 then - gpuRaw else gpuRaw)
              in if units = 0 then None
                 else Some \<lparr>mt_id = sw_poolId swap @ '':'' @ int_text (sw_blockNumber swap) @ '':'' @ int_text (sw_logIndex swap),
                        mt_side = side, mt_size = units, mt_price = fdiv notional units, mt_notional = notional,
                        mt_t = sw_blockTimestampSec swap * 1000\<rparr>
        | _ \<Rightarrow> None)
   | _ \<Rightarrow> None)"

definition inRangeGusdDepth :: "PoolDto \<Rightarrow> number option" where
  "inRangeGusdDepth pool = (case pd_gusdIsCurrency0 pool of None \<Rightarrow> None | Some first \<Rightarrow>
     (case (rawOf (pd_liquidity pool), rawOf (pd_sqrtPriceX96 pool)) of
        (Some l, Some s) \<Rightarrow>
          if s = 0 \<or> l = 0 then None
          else Some (perMillion (if first then (l * 2 ^ 96) div s else (l * s) div 2 ^ 96))
      | _ \<Rightarrow> None))"

definition DAY_SEC :: int where "DAY_SEC = 86400"

definition sumBuckets :: "PoolStatsBucketDto list \<Rightarrow> int \<Rightarrow> (PoolStatsBucketDto \<Rightarrow> number) \<Rightarrow> number" where
  "sumBuckets buckets nowSec pick =
     fold (\<lambda>b sum. if pb_bucketStart b \<ge> nowSec - DAY_SEC then fadd sum (pick b) else sum) buckets 0"

definition volume24hGusd :: "format_units \<Rightarrow> PoolStatsBucketDto list \<Rightarrow> int \<Rightarrow> number" where
  "volume24hGusd fu buckets nowSec = sumBuckets buckets nowSec
     (\<lambda>b. case number6 fu (Some (pb_volumeGusd b)) of None \<Rightarrow> 0 | Some v \<Rightarrow> v)"

definition trades24h :: "PoolStatsBucketDto list \<Rightarrow> int \<Rightarrow> number" where
  "trades24h buckets nowSec = sumBuckets buckets nowSec (\<lambda>b. fl (of_int (pb_buys b + pb_sells b)))"

subsection \<open>Cost basis and the vault\<close>

definition basisNumber :: "format_units \<Rightarrow> string option \<Rightarrow> number option" where
  "basisNumber fu raw = (case raw of None \<Rightarrow> None | Some _ \<Rightarrow> map_option (formatGusdRaw fu) (rawOf raw))"

record BasisFields =
  bf_avgEntry :: "number option"
  bf_realizedPnl :: "number option"
  bf_basisReason :: "string option"

definition basisFromPosition :: "format_units \<Rightarrow> WalletPositionDto \<Rightarrow> BasisFields" where
  "basisFromPosition fu p = \<lparr>bf_avgEntry = basisNumber fu (wp_avgEntryGusd p),
     bf_realizedPnl = basisNumber fu (wp_realizedPnlGusd p), bf_basisReason = wp_reason p\<rparr>"

definition basisFromVault :: "format_units \<Rightarrow> WalletVaultPositionDto \<Rightarrow> BasisFields" where
  "basisFromVault fu v = \<lparr>bf_avgEntry = basisNumber fu (vp_avgEntryAssets v),
     bf_realizedPnl = basisNumber fu (vp_realizedPnlGusd v), bf_basisReason = vp_reason v\<rparr>"

definition vaultDeployedGusd :: "SgusdVaultDto \<Rightarrow> number option" where
  "vaultDeployedGusd v = (case (bigint_of_string (sv_seededGusd v), bigint_of_string (sv_depositsGusd v),
       bigint_of_string (sv_withdrawsGusd v), bigint_of_string (sv_revenueGusd v)) of
     (Some seeded, Some deposited, Some withdrawn, Some revenue) \<Rightarrow>
       Some (perMillion (seeded + deposited - withdrawn + revenue))
   | _ \<Rightarrow> None)"

definition sgusdSupply :: "SgusdVaultDto \<Rightarrow> number option" where
  "sgusdSupply v = (case (bigint_of_string (sv_sharesMinted v), bigint_of_string (sv_sharesBurned v)) of
     (Some minted, Some burned) \<Rightarrow> Some (perMillion (minted - burned)) | _ \<Rightarrow> None)"

definition gusdNumber :: "format_units \<Rightarrow> string option \<Rightarrow> number option" where
  "gusdNumber fu raw = number6 fu raw"

subsection \<open>Activity\<close>

datatype ActivitySource = ExecutionSource | EventSource

record ActivityRow =
  ar_id :: string
  ar_t :: int
  ar_verb :: string
  ar_asset :: "AssetId option"
  ar_size :: "number option"
  ar_notional :: "number option"
  ar_source :: ActivitySource
  ar_txHash :: string
  ar_blockNumber :: int
  ar_logIndex :: int

definition rowId :: "string \<Rightarrow> int \<Rightarrow> int \<Rightarrow> int \<Rightarrow> string" where
  "rowId kind chain block index = kind @ int_text chain @ '':'' @ int_text block @ '':'' @ int_text index"

definition executionRow :: "format_units \<Rightarrow> ExecutionDto \<Rightarrow> ActivityRow" where
  "executionRow fu x = \<lparr>ar_id = rowId ''x:'' (ex_chainId x) (ex_blockNumber x) (ex_logIndex x),
     ar_t = ex_blockTimestampSec x * 1000, ar_verb = (if ex_side x = BuySide then ''Buy'' else ''Sell''),
     ar_asset = assetForGpuId (ex_gpuId x), ar_size = number18 fu (Some (ex_gpuAmount x)),
     ar_notional = number6 fu (Some (ex_gUsdAmount x)), ar_source = ExecutionSource, ar_txHash = ex_txHash x,
     ar_blockNumber = ex_blockNumber x, ar_logIndex = ex_logIndex x\<rparr>"

definition activityRow :: "IndexedEvent \<Rightarrow> string \<Rightarrow> AssetId option \<Rightarrow> number option \<Rightarrow> number option \<Rightarrow> ActivityRow" where
  "activityRow e verb asset units notional = \<lparr>ar_id = rowId ''e:'' (ie_chainId e) (ie_blockNumber e) (ie_logIndex e),
     ar_t = ie_seenAtMs e, ar_verb = verb, ar_asset = asset, ar_size = units, ar_notional = notional,
     ar_source = EventSource, ar_txHash = ie_txHash e, ar_blockNumber = ie_blockNumber e, ar_logIndex = ie_logIndex e\<rparr>"

definition eventRow :: "format_units \<Rightarrow> IndexedEvent \<Rightarrow> ActivityRow" where
  "eventRow fu e = (let asset = (case stringArg e ''gpuId'' of None \<Rightarrow> None | Some g \<Rightarrow> assetForGpuId g) in
     if ie_event e = ''Minted'' then activityRow e ''Mint'' asset None (number6FromData fu e ''gusdOut'')
     else if ie_event e = ''Redeemed'' then activityRow e ''Redeem'' asset None (number6FromData fu e ''underlyingOut'')
     else if ie_event e = ''Issued'' then activityRow e ''Issue'' asset (number18FromData fu e ''amount'') None
     else if ie_event e = ''Deposit'' then activityRow e ''Stake'' None None (number6FromData fu e ''assets'')
     else if ie_event e = ''Withdraw'' then activityRow e ''Unstake'' None None (number6FromData fu e ''assets'')
     else if ie_event e = ''Buy'' then activityRow e ''Buy'' asset (number18FromData fu e ''gpuOut'') (number6FromData fu e ''paid'')
     else if ie_event e = ''Sell'' then activityRow e ''Sell'' asset (number18FromData fu e ''gpuIn'') (number6FromData fu e ''out'')
     else activityRow e (ie_event e) asset None None)"

text \<open>The comparator orders by time, then block, then log index, all descending; the sort is stable.\<close>

definition newestRows :: "ActivityRow list \<Rightarrow> ActivityRow list" where
  "newestRows = sort_key (\<lambda>r. (- ar_t r, - ar_blockNumber r, - ar_logIndex r))"

definition routed :: "string set \<Rightarrow> IndexedEvent \<Rightarrow> bool" where
  "routed execTx e \<longleftrightarrow> ie_event e \<in> {''Buy'', ''Sell''} \<and> toLowerCase (ie_txHash e) \<in> execTx"

definition mergeActivity :: "format_units \<Rightarrow> ExecutionDto list \<Rightarrow> IndexedEvent list \<Rightarrow> int \<Rightarrow> ActivityRow list" where
  "mergeActivity fu executions events limit =
     (let execRows = map (executionRow fu) executions;
          execTx = set (map (toLowerCase \<circ> ar_txHash) execRows);
          rows = map (eventRow fu) (filter (\<lambda>e. \<not> routed execTx e) events) @ execRows
      in take (nat (max 0 limit)) (newestRows rows))"

subsection \<open>The oracle's transparency row\<close>

record OracleReportRow =
  or_freshness :: Freshness
  or_ageSec :: "int option"
  or_observedAtSec :: "int option"
  or_epoch :: "string option"
  or_lastConsumedBlockNumber :: "int option"

definition oracleReportRow :: "GpuOracleStateDto option \<Rightarrow> int option \<Rightarrow> OracleReportRow" where
  "oracleReportRow state nowSec = (case state of
     None \<Rightarrow> \<lparr>or_freshness = UnknownReport, or_ageSec = None, or_observedAtSec = None, or_epoch = None,
       or_lastConsumedBlockNumber = None\<rparr>
   | Some st \<Rightarrow> \<lparr>or_freshness = os_freshness st,
       or_ageSec = (case (os_observedAtSec st, nowSec) of (Some observed, Some now) \<Rightarrow> Some (max 0 (now - observed)) | _ \<Rightarrow> None),
       or_observedAtSec = os_observedAtSec st, or_epoch = os_epoch st,
       or_lastConsumedBlockNumber = os_lastConsumedBlockNumber st\<rparr>)"

subsection \<open>Decimal text and back\<close>

lemma digits_in_value: "\<forall>c \<in> set cs. is_digit c \<Longrightarrow> digits_in 10 acc cs = Some (digits_value acc cs)"
proof (induction cs arbitrary: acc)
  case (Cons c cs)
  then have "digit_in 10 c = Some (digit_value c)"
    by (auto simp: digit_in_def hex_val_def Let_def is_digit_def digit_value_def char_code_def)
  then show ?case using Cons by simp
qed simp

lemma trim_digits:
  assumes "s \<noteq> []" "\<not> is_blank (hd s)" "\<not> is_blank (last s)"
  shows "trim_blanks s = s"
proof -
  have "dropWhile is_blank s = s" using assms by (cases s) simp_all
  moreover have "dropWhile is_blank (rev s) = rev s" using assms by (cases s rule: rev_cases) simp_all
  ultimately show ?thesis by (simp add: trim_blanks_def)
qed

lemma is_digit_char_facts:
  "is_digit c \<Longrightarrow> \<not> is_blank c \<and> c \<notin> {CHR ''x'', CHR ''X'', CHR ''o'', CHR ''O'', CHR ''b'', CHR ''B'', CHR ''-'', CHR ''+''}"
  by (auto simp: is_digit_def is_blank_def char_code_def)

lemma nat_text_nonempty: "nat_text n \<noteq> []"
  by (simp add: nat_text.simps [of n])

lemma bigint_of_digits:
  assumes "s \<noteq> []" "\<forall>c \<in> set s. is_digit c"
  shows "bigint_of_string s = Some (digits_value 0 s)" "bigint_of_string (CHR ''-'' # s) = Some (- digits_value 0 s)"
proof -
  have i: "int_in 10 s = Some (digits_value 0 s)" using assms by (simp add: int_in_def digits_in_value)
  have c: "\<not> is_blank c" "c \<notin> {CHR ''x'', CHR ''X'', CHR ''o'', CHR ''O'', CHR ''b'', CHR ''B'', CHR ''-'', CHR ''+''}"
    if "c \<in> set s" for c using that assms(2) is_digit_char_facts by blast+
  have t: "trim_blanks s = s" using assms(1) c(1) by (intro trim_digits) simp_all
  have "\<not> is_blank (CHR ''-'')" by (simp add: is_blank_def char_code_def)
  then have t': "trim_blanks (CHR ''-'' # s) = CHR ''-'' # s" using assms(1) c(1) by (intro trim_digits) simp_all
  obtain a s' where s: "s = a # s'" using assms(1) by (cases s) auto
  show "bigint_of_string s = Some (digits_value 0 s)"
    using i c(2) unfolding bigint_of_string_def t Let_def by (cases s') (auto simp: s)
  show "bigint_of_string (CHR ''-'' # s) = Some (- digits_value 0 s)"
    using i unfolding bigint_of_string_def t' Let_def by (auto simp: s)
qed

lemma bigint_of_int_text: "bigint_of_string (int_text n) = Some n"
proof (cases "n < 0")
  case True
  then show ?thesis
    using bigint_of_digits(2) [of "nat_text (- n)"] nat_text_nonempty nat_text_digits [of "- n"] nat_text_value [of "- n"]
    by (auto simp: int_text_def)
next
  case False
  then show ?thesis
    using bigint_of_digits(1) [of "nat_text n"] nat_text_nonempty nat_text_digits [of n] nat_text_value [of n]
    by (auto simp: int_text_def)
qed

lemma int_text_nonempty: "int_text n \<noteq> []"
  using nat_text_nonempty by (simp add: int_text_def)

text \<open>A realized profit reaches the screen as its figure, a realized loss does not: the parser of the
  wire's figures refuses negative ones, so a wallet that sold below its cost is shown no realized
  figure at all, although the position is complete and the row is rendered with a sign.\<close>
theorem realized_losses_are_hidden:
  assumes "wp_realizedPnlGusd p = Some (int_text (realizedPnlGusd b))"
  shows "bf_realizedPnl (basisFromPosition fu p) =
    (if realizedPnlGusd b < 0 then None else Some (fu (realizedPnlGusd b) 6))"
  using assms by (simp add: int_text_nonempty basisFromPosition_def basisNumber_def rawOf_def bigint_of_int_text formatGusdRaw_def GUSD_DECIMALS_def)

subsection \<open>The trail\<close>

definition notOlder :: "ActivityRow \<Rightarrow> ActivityRow \<Rightarrow> bool" where
  "notOlder r s \<longleftrightarrow> ar_t s < ar_t r \<or> ar_t r = ar_t s \<and>
     (ar_blockNumber s < ar_blockNumber r \<or> ar_blockNumber r = ar_blockNumber s \<and> ar_logIndex s \<le> ar_logIndex r)"

lemma newestRows_sorted: "sorted_wrt notOlder (newestRows rows)"
proof -
  have "sorted_wrt (\<lambda>r s. (- ar_t r, - ar_blockNumber r, - ar_logIndex r) \<le> (- ar_t s, - ar_blockNumber s, - ar_logIndex s))
      (newestRows rows)"
    using sorted_sort_key [of "\<lambda>r. (- ar_t r, - ar_blockNumber r, - ar_logIndex r)" rows]
    by (simp add: newestRows_def sorted_map)
  then show ?thesis by (rule sorted_wrt_mono_rel [rotated]) (auto simp: notOlder_def less_eq_prod_def)
qed

lemma eventRow_fields: "ar_source (eventRow fu e) = EventSource" "ar_txHash (eventRow fu e) = ie_txHash e"
  "ar_verb (eventRow fu e) \<in> {''Buy'', ''Sell''} \<Longrightarrow> ie_event e \<in> {''Buy'', ''Sell''}"
  by (auto simp: eventRow_def activityRow_def Let_def split: if_splits)

lemma executionRow_fields [simp]: "ar_source (executionRow fu x) = ExecutionSource" "ar_txHash (executionRow fu x) = ex_txHash x"
  by (simp_all add: executionRow_def)

text \<open>C23. The wallet's trail is the newest part, at most \<open>limit\<close> rows, of all executions together with all
  events but the purchases and sales whose transaction has an execution: a router trade prints once, as
  its execution, in whichever case its transaction hash is written.\<close>
theorem router_trade_prints_once:
  "\<exists>rest. mset (mergeActivity fu exs evs limit @ rest) = mset (map (executionRow fu) exs) +
      mset (map (eventRow fu) (filter (\<lambda>e. \<not> routed (toLowerCase ` ex_txHash ` set exs) e) evs)) \<and>
    sorted_wrt notOlder (mergeActivity fu exs evs limit @ rest) \<and>
    int (length (mergeActivity fu exs evs limit)) \<le> max 0 limit \<and>
    (int (length (mergeActivity fu exs evs limit)) < limit \<longrightarrow> rest = []) \<and>
    (\<forall>r \<in> set (mergeActivity fu exs evs limit). ar_source r = EventSource \<and> ar_verb r \<in> {''Buy'', ''Sell''} \<longrightarrow>
       toLowerCase (ar_txHash r) \<notin> toLowerCase ` ex_txHash ` set exs)"
proof -
  define tx where "tx = toLowerCase ` ex_txHash ` set exs"
  define rows where "rows = map (eventRow fu) (filter (\<lambda>e. \<not> routed tx e) evs) @ map (executionRow fu) exs"
  have tx: "set (map (toLowerCase \<circ> ar_txHash) (map (executionRow fu) exs)) = tx" by (auto simp: tx_def)
  have m: "mergeActivity fu exs evs limit = take (nat (max 0 limit)) (newestRows rows)"
    unfolding mergeActivity_def Let_def tx rows_def ..
  have sub: "set (mergeActivity fu exs evs limit) \<subseteq> set rows"
    using set_take_subset [of "nat (max 0 limit)" "newestRows rows"] by (simp add: m newestRows_def)
  have "toLowerCase (ar_txHash r) \<notin> tx"
    if r: "r \<in> set (mergeActivity fu exs evs limit)" "ar_source r = EventSource" "ar_verb r \<in> {''Buy'', ''Sell''}" for r
  proof -
    obtain e where e: "r = eventRow fu e" "\<not> routed tx e" using r(1,2) sub by (auto simp: rows_def)
    then show ?thesis using eventRow_fields(3) [of fu e] r(3) by (auto simp: routed_def eventRow_fields(2))
  qed
  moreover have "sorted_wrt notOlder (mergeActivity fu exs evs limit @ drop (nat (max 0 limit)) (newestRows rows))"
    using newestRows_sorted by (simp add: m)
  moreover have "mset (mergeActivity fu exs evs limit @ drop (nat (max 0 limit)) (newestRows rows)) =
      mset (map (executionRow fu) exs) + mset (map (eventRow fu) (filter (\<lambda>e. \<not> routed tx e) evs))"
  proof -
    have "mergeActivity fu exs evs limit @ drop (nat (max 0 limit)) (newestRows rows) = newestRows rows" by (simp add: m)
    then show ?thesis by (simp only:) (simp add: newestRows_def rows_def)
  qed
  ultimately show ?thesis
    unfolding tx_def by (intro exI [of _ "drop (nat (max 0 limit)) (newestRows rows)"]) (auto simp: m)
qed

subsection \<open>Samples\<close>

definition samplePosition :: WalletPositionDto where
  "samplePosition = \<lparr>wp_chainId = 1, wp_gpuId = ''0x48'', wp_qtyGpu = ''0'', wp_costGusd = ''0'',
     wp_basisState = ''complete'', wp_avgEntryGusd = None, wp_realizedPnlGusd = Some ''-50'', wp_reason = None,
     wp_acquisitions = 1, wp_disposals = 1, wp_firstActivityAtSec = None, wp_lastActivityAtSec = None\<rparr>"

text \<open>Ten units bought at 100 and sold at 50.\<close>

theorem realized_losses_are_hidden_witness:
  "realizedPnlGusd (disposeBasis (acquireBasis emptyBasis 10 100) 10 50) = -50 \<and>
   bf_realizedPnl (basisFromPosition fu samplePosition) = None"
proof -
  have b: "realizedPnlGusd (disposeBasis (acquireBasis emptyBasis 10 100) 10 50) = -50" by code_simp
  have "int_text (- 50) = ''-50''" by code_simp
  then have "wp_realizedPnlGusd samplePosition =
      Some (int_text (realizedPnlGusd (disposeBasis (acquireBasis emptyBasis 10 100) 10 50)))"
    by (simp add: b samplePosition_def)
  from realized_losses_are_hidden [OF this, of fu] show ?thesis by (simp add: b)
qed

text \<open>A purchase through the router: the execution, and the event of the same transaction with its hash
  in the other case.\<close>

definition routedEvent :: IndexedEvent where
  "routedEvent = \<lparr>ie_contract = '''', ie_event = ''Buy'', ie_user = ''0xa'', ie_chainId = 1, ie_blockNumber = 7,
     ie_logIndex = 2, ie_txHash = ''0xf'', ie_seenAtMs = 0, ie_data = []\<rparr>"

definition wholeUnits :: format_units where
  "wholeUnits raw decimals = of_int raw"

theorem router_trade_prints_once_witness:
  "mergeActivity wholeUnits [sampleExecution ''0xa'' 1] [routedEvent] 100 =
     [executionRow wholeUnits (sampleExecution ''0xa'' 1)]"
proof -
  let ?rows = "mergeActivity wholeUnits [sampleExecution ''0xa'' 1] [routedEvent] 100"
  have "toLowerCase ''0xf'' = toLowerCase ''0xF''" by code_simp
  then have "routed (toLowerCase ` ex_txHash ` set [sampleExecution ''0xa'' 1]) routedEvent"
    by (simp add: routed_def routedEvent_def sampleExecution_def)
  with router_trade_prints_once [of wholeUnits "[sampleExecution ''0xa'' 1]" "[routedEvent]" 100]
  obtain rest where m: "mset (?rows @ rest) = {#executionRow wholeUnits (sampleExecution ''0xa'' 1)#}"
    and rest: "int (length ?rows) < 100 \<longrightarrow> rest = []" by auto
  from arg_cong [OF m, of size] have "length ?rows \<le> 1" by simp
  with m rest show ?thesis by simp
qed

end
