(* ===== verification/AccountStore.thy ===== *)
theory AccountStore
  imports ProtocolMap
begin

text \<open>
  apps/web/src/data/onchain/account-store.ts with the read types of data/web3/reads.ts: the balances and
  positions of the bound wallet. A refresh is cut at its await; \<open>InFlight\<close> is the promise of a pass
  with the address it captured and whether it reads the balances directly. The reads seam is built
  before the await: when that throws, the pass is over before its promise is assigned, and the field
  keeps a promise that is already settled (\<open>SettledPass\<close>). The reads themselves, the visibility of the
  page and the chain are arguments; subscribers and logging are left out.
\<close>

record ReadBalances =
  rb_gUsd :: number
  rb_stable :: number
  rb_sGusd :: number

record ReadPosition =
  rp_gpu :: string
  rp_token :: string
  rp_raw :: int
  rp_size :: number
  rp_avgEntryRaw :: "string option"
  rp_realizedPnlGusdRaw :: "string option"
  rp_basisState :: "string option"
  rp_basisReason :: "string option"

record OnchainPosition =
  op_gpuId :: string
  op_asset :: "AssetId option"
  op_token :: string
  op_size :: number
  op_avgEntry :: "number option"
  op_realizedPnl :: "number option"
  op_basisReason :: "string option"

record OnchainAccountSnapshot =
  oa_address :: "string option"
  oa_loadedAt :: "int option"
  oa_chainId :: int
  oa_gUsd :: number
  oa_stable :: number
  oa_sGusd :: number
  oa_positions :: "OnchainPosition list"

definition EMPTY_ACCOUNT :: OnchainAccountSnapshot where
  "EMPTY_ACCOUNT = \<lparr>oa_address = None, oa_loadedAt = None, oa_chainId = 0, oa_gUsd = 0, oa_stable = 0,
     oa_sGusd = 0, oa_positions = []\<rparr>"

definition POLL_MS :: int where "POLL_MS = 30000"

datatype Refreshing = NoPass | InFlight string bool | SettledPass

record OnChainAccountStore =
  ac_snapshot :: OnchainAccountSnapshot
  ac_refreshing :: Refreshing
  ac_polling :: bool
  ac_outageLogged :: bool

definition account_init :: OnChainAccountStore where
  "account_init = \<lparr>ac_snapshot = EMPTY_ACCOUNT, ac_refreshing = NoPass, ac_polling = False, ac_outageLogged = False\<rparr>"

text \<open>A string is falsy when it is null or empty.\<close>

definition bound_wallet :: "string option \<Rightarrow> string option" where
  "bound_wallet address = (case address of None \<Rightarrow> None | Some a \<Rightarrow> if a = [] then None else Some a)"

text \<open>The pass up to its await. \<open>seam\<close>: building the reads did not throw.\<close>

definition begin_refresh :: "bool \<Rightarrow> bool \<Rightarrow> OnChainAccountStore \<Rightarrow> OnChainAccountStore" where
  "begin_refresh seam directBalances s = (case bound_wallet (oa_address (ac_snapshot s)) of None \<Rightarrow> s
   | Some address \<Rightarrow>
       if ac_refreshing s \<noteq> NoPass then s
       else if seam then s\<lparr>ac_refreshing := InFlight address directBalances\<rparr>
       else s\<lparr>ac_refreshing := SettledPass, ac_outageLogged := True\<rparr>)"

definition shownPosition :: "format_units \<Rightarrow> ReadPosition \<Rightarrow> OnchainPosition" where
  "shownPosition fu p = \<lparr>op_gpuId = rp_gpu p, op_asset = assetForGpuId (rp_gpu p), op_token = rp_token p,
     op_size = rp_size p, op_avgEntry = basisNumber fu (rp_avgEntryRaw p),
     op_realizedPnl = basisNumber fu (rp_realizedPnlGusdRaw p), op_basisReason = rp_basisReason p\<rparr>"

definition shownAccount :: "format_units \<Rightarrow> string \<Rightarrow> int \<Rightarrow> int \<Rightarrow> ReadBalances \<Rightarrow> ReadPosition list \<Rightarrow> OnchainAccountSnapshot" where
  "shownAccount fu address chain now balances positions = \<lparr>oa_address = Some address, oa_loadedAt = Some now,
     oa_chainId = chain, oa_gUsd = rb_gUsd balances, oa_stable = rb_stable balances, oa_sGusd = rb_sGusd balances,
     oa_positions = map (shownPosition fu) positions\<rparr>"

text \<open>The pass from its await, with both reads or an exception. The \<open>return\<close> of a stale pass still runs
  the \<open>finally\<close>.\<close>

definition on_refreshed :: "format_units \<Rightarrow> int \<Rightarrow> int \<Rightarrow> (ReadBalances \<times> ReadPosition list) option \<Rightarrow>
    OnChainAccountStore \<Rightarrow> OnChainAccountStore" where
  "on_refreshed fu chain now answer s = (case ac_refreshing s of
     InFlight address direct \<Rightarrow>
       (let s' = (case answer of
            None \<Rightarrow> s\<lparr>ac_outageLogged := True\<rparr>
          | Some (balances, positions) \<Rightarrow>
              if oa_address (ac_snapshot s) \<noteq> Some address then s
              else s\<lparr>ac_snapshot := shownAccount fu address chain now balances positions, ac_outageLogged := False\<rparr>)
        in s'\<lparr>ac_refreshing := NoPass\<rparr>)
   | _ \<Rightarrow> s)"

definition bindAddress :: "bool \<Rightarrow> int \<Rightarrow> string option \<Rightarrow> OnChainAccountStore \<Rightarrow> OnChainAccountStore" where
  "bindAddress seam chain address s =
     (if address = oa_address (ac_snapshot s) then s
      else let s1 = s\<lparr>ac_polling := False\<rparr> in
        (case bound_wallet address of
           None \<Rightarrow> s1\<lparr>ac_snapshot := EMPTY_ACCOUNT\<rparr>
         | Some a \<Rightarrow> (begin_refresh seam False (s1\<lparr>ac_snapshot := EMPTY_ACCOUNT\<lparr>oa_address := Some a, oa_chainId := chain\<rparr>\<rparr>))
             \<lparr>ac_polling := True\<rparr>))"

text \<open>The timer and the visibility listener are there while the store polls.\<close>

definition poll_tick :: "bool \<Rightarrow> bool \<Rightarrow> OnChainAccountStore \<Rightarrow> OnChainAccountStore" where
  "poll_tick seam visible s = (if ac_polling s \<and> visible then begin_refresh seam False s else s)"

definition onVisibility :: "bool \<Rightarrow> bool \<Rightarrow> OnChainAccountStore \<Rightarrow> OnChainAccountStore" where
  "onVisibility seam visible s =
     (if ac_polling s \<and> visible \<and> bound_wallet (oa_address (ac_snapshot s)) \<noteq> None then begin_refresh seam False s else s)"

definition invalidate :: "bool \<Rightarrow> OnChainAccountStore \<Rightarrow> OnChainAccountStore" where
  "invalidate seam s = begin_refresh seam False s"

subsection \<open>A session\<close>

text \<open>\<open>reads a\<close>: what the contracts and the indexer may answer for wallet \<open>a\<close>.\<close>

type_synonym wallet_reads = "string \<Rightarrow> ReadBalances \<times> ReadPosition list \<Rightarrow> bool"

inductive account_step :: "format_units \<Rightarrow> wallet_reads \<Rightarrow> OnChainAccountStore \<Rightarrow> OnChainAccountStore \<Rightarrow> bool"
  for fu :: format_units and reads :: wallet_reads where
  rebind: "account_step fu reads s (bindAddress seam chain address s)"
| refresh: "account_step fu reads s (begin_refresh seam direct s)"
| polled: "account_step fu reads s (poll_tick seam visible s)"
| seen: "account_step fu reads s (onVisibility seam visible s)"
| invalidated: "account_step fu reads s (invalidate seam s)"
| answered: "ac_refreshing s = InFlight a direct \<Longrightarrow> reads a answer \<Longrightarrow>
    account_step fu reads s (on_refreshed fu chain now (Some answer) s)"
| failed: "account_step fu reads s (on_refreshed fu chain now None s)"

text \<open>A snapshot shows one answer for its wallet, or nothing.\<close>

definition shows_reads :: "format_units \<Rightarrow> wallet_reads \<Rightarrow> OnchainAccountSnapshot \<Rightarrow> bool" where
  "shows_reads fu reads snap \<longleftrightarrow> (case oa_loadedAt snap of
      None \<Rightarrow> oa_gUsd snap = 0 \<and> oa_stable snap = 0 \<and> oa_sGusd snap = 0 \<and> oa_positions snap = []
    | Some now \<Rightarrow> \<exists>a balances positions. oa_address snap = Some a \<and> reads a (balances, positions) \<and>
        oa_gUsd snap = rb_gUsd balances \<and> oa_stable snap = rb_stable balances \<and>
        oa_sGusd snap = rb_sGusd balances \<and> oa_positions snap = map (shownPosition fu) positions)"

definition account_ok :: "format_units \<Rightarrow> wallet_reads \<Rightarrow> OnChainAccountStore \<Rightarrow> bool" where
  "account_ok fu reads s \<longleftrightarrow> shows_reads fu reads (ac_snapshot s) \<and>
     (ac_polling s \<longleftrightarrow> oa_address (ac_snapshot s) \<noteq> None) \<and> oa_address (ac_snapshot s) \<noteq> Some []"

lemma shows_nothing [simp]: "shows_reads fu reads (EMPTY_ACCOUNT\<lparr>oa_address := a, oa_chainId := chain\<rparr>)"
  "shows_reads fu reads EMPTY_ACCOUNT" "oa_address EMPTY_ACCOUNT = None"
  by (simp_all add: shows_reads_def EMPTY_ACCOUNT_def)

lemma shows_answer: "reads a (balances, positions) \<Longrightarrow> shows_reads fu reads (shownAccount fu a chain now balances positions)"
  by (auto simp: shows_reads_def shownAccount_def)

lemma begin_refresh_simps [simp]:
  "ac_snapshot (begin_refresh seam direct s) = ac_snapshot s" "ac_polling (begin_refresh seam direct s) = ac_polling s"
  by (auto simp: begin_refresh_def split: option.splits)

lemma begin_refresh_ok: "account_ok fu reads s \<Longrightarrow> account_ok fu reads (begin_refresh seam direct s)"
  by (simp add: account_ok_def)

lemma bindAddress_ok: "account_ok fu reads s \<Longrightarrow> account_ok fu reads (bindAddress seam chain address s)"
  by (auto simp: account_ok_def bindAddress_def Let_def bound_wallet_def split: option.splits)

lemma on_refreshed_ok:
  assumes "account_ok fu reads s"
    and "\<And>x a direct. answer = Some x \<Longrightarrow> ac_refreshing s = InFlight a direct \<Longrightarrow> reads a x"
  shows "account_ok fu reads (on_refreshed fu chain now answer s)"
proof (cases "ac_refreshing s")
  case (InFlight a direct)
  then show ?thesis
    using assms shows_answer [of reads a]
    by (cases answer) (auto simp: account_ok_def on_refreshed_def Let_def shownAccount_def split: if_splits)
qed (use assms(1) in \<open>simp_all add: on_refreshed_def\<close>)

lemma account_ok_step: "account_step fu reads s s' \<Longrightarrow> account_ok fu reads s \<Longrightarrow> account_ok fu reads s'"
  by (induction rule: account_step.induct)
    (auto simp: poll_tick_def onVisibility_def invalidate_def intro: begin_refresh_ok bindAddress_ok on_refreshed_ok)

interpretation account: machine account_init "account_step fu reads" "account_ok fu reads" for fu reads
proof unfold_locales
  show "account_ok fu reads account_init" by (simp add: account_ok_def account_init_def)
qed (rule account_ok_step)

text \<open>C30. Whatever the order of logins, logouts, refreshes, polls and answers, the figures shown are those
  some read for the bound wallet answered, all of one answer, or those of the empty account; they are
  never those of another wallet, and the store polls exactly while a wallet is bound.\<close>
theorem figures_belong_to_the_wallet:
  assumes "(account_step fu reads)\<^sup>*\<^sup>* account_init s"
  shows "(case oa_loadedAt (ac_snapshot s) of
      None \<Rightarrow> oa_gUsd (ac_snapshot s) = 0 \<and> oa_stable (ac_snapshot s) = 0 \<and> oa_sGusd (ac_snapshot s) = 0 \<and>
        oa_positions (ac_snapshot s) = []
    | Some now \<Rightarrow> \<exists>a balances positions. oa_address (ac_snapshot s) = Some a \<and> reads a (balances, positions) \<and>
        oa_gUsd (ac_snapshot s) = rb_gUsd balances \<and> oa_stable (ac_snapshot s) = rb_stable balances \<and>
        oa_sGusd (ac_snapshot s) = rb_sGusd balances \<and>
        oa_positions (ac_snapshot s) = map (shownPosition fu) positions) \<and>
    (ac_polling s \<longleftrightarrow> oa_address (ac_snapshot s) \<noteq> None)"
  using account.inv_reachable [OF assms] by (simp add: account_ok_def shows_reads_def)

text \<open>A refresh that is asked for while a pass is in flight is dropped whatever it asks for: the
  reconciler's direct read of the balances after a confirmation is answered by the pass that was already
  under way, which may read the indexer's, and reports success. And a wallet bound meanwhile shows
  nothing when that pass ends, with no pass under way for it until something else asks.\<close>
theorem refreshes_are_dropped:
  assumes "ac_refreshing s = InFlight a False" "oa_address (ac_snapshot s) = Some a" "b \<noteq> a" "b \<noteq> []"
  shows "begin_refresh seam True s = s \<and>
    (let s' = on_refreshed fu chain now answer (bindAddress seam chain (Some b) s) in
       oa_address (ac_snapshot s') = Some b \<and> oa_loadedAt (ac_snapshot s') = None \<and> ac_refreshing s' = NoPass)"
  using assms
  by (auto simp: begin_refresh_def bindAddress_def on_refreshed_def bound_wallet_def Let_def EMPTY_ACCOUNT_def
      split: option.splits)

text \<open>A seam that throws before the first await leaves a settled promise in the field, and no pass is
  ever started again.\<close>

lemma wedged_step: "account_step fu reads s s' \<Longrightarrow> ac_refreshing s = SettledPass \<Longrightarrow> ac_refreshing s' = SettledPass"
  by (induction rule: account_step.induct)
    (auto simp: poll_tick_def onVisibility_def invalidate_def begin_refresh_def bindAddress_def on_refreshed_def Let_def
      split: option.splits)

theorem thrown_seam_stops_refreshing:
  assumes "(account_step fu reads)\<^sup>*\<^sup>* (begin_refresh False direct s) s'"
    and "ac_refreshing s = NoPass" "bound_wallet (oa_address (ac_snapshot s)) \<noteq> None"
  shows "ac_refreshing s' = SettledPass"
proof -
  have "ac_refreshing (begin_refresh False direct s) = SettledPass"
    using assms(2,3) by (auto simp: begin_refresh_def)
  with assms(1) show ?thesis by (induction rule: rtranclp_induct) (auto intro: wedged_step)
qed

subsection \<open>Samples\<close>

definition sampleReads :: "ReadBalances \<times> ReadPosition list" where
  "sampleReads = (\<lparr>rb_gUsd = 10, rb_stable = 5, rb_sGusd = 2\<rparr>, [])"

definition account_bound :: OnChainAccountStore where
  "account_bound = bindAddress True 1 (Some ''0xa'') account_init"

definition account_loaded :: "format_units \<Rightarrow> OnChainAccountStore" where
  "account_loaded fu = on_refreshed fu 1 50 (Some sampleReads) account_bound"

lemma account_bound_eq: "ac_refreshing account_bound = InFlight ''0xa'' False"
  "oa_address (ac_snapshot account_bound) = Some ''0xa''"
  by (simp_all add: account_bound_def bindAddress_def account_init_def begin_refresh_def bound_wallet_def EMPTY_ACCOUNT_def)

theorem figures_belong_to_the_wallet_witness:
  "oa_loadedAt (ac_snapshot (account_loaded wholeUnits)) = Some 50 \<and>
   oa_gUsd (ac_snapshot (account_loaded wholeUnits)) = 10"
proof -
  let ?reads = "\<lambda>a answer. a = ''0xa'' \<and> answer = sampleReads"
  have "account_step wholeUnits ?reads account_init account_bound" unfolding account_bound_def by (rule account_step.rebind)
  moreover have "account_step wholeUnits ?reads account_bound (account_loaded wholeUnits)"
    unfolding account_loaded_def by (rule account_step.answered [OF account_bound_eq(1)]) simp
  ultimately have "(account_step wholeUnits ?reads)\<^sup>*\<^sup>* account_init (account_loaded wholeUnits)" by simp
  from figures_belong_to_the_wallet [OF this]
  have "case oa_loadedAt (ac_snapshot (account_loaded wholeUnits)) of None \<Rightarrow> True | Some now \<Rightarrow>
      \<exists>balances positions. (balances, positions) = sampleReads \<and> oa_gUsd (ac_snapshot (account_loaded wholeUnits)) = rb_gUsd balances"
    by (auto split: option.splits)
  moreover have "oa_loadedAt (ac_snapshot (account_loaded wholeUnits)) = Some 50"
    by (simp add: account_loaded_def on_refreshed_def account_bound_eq sampleReads_def shownAccount_def Let_def)
  ultimately show ?thesis by (auto simp: sampleReads_def)
qed

theorem refreshes_are_dropped_witness:
  "begin_refresh True True account_bound = account_bound \<and>
   oa_loadedAt (ac_snapshot (on_refreshed wholeUnits 1 60 (Some sampleReads) (bindAddress True 1 (Some ''0xb'') account_bound))) = None"
  using refreshes_are_dropped [OF account_bound_eq, of "''0xb''" True wholeUnits 1 60 "Some sampleReads"] by (simp add: Let_def)

end
