(* ===== verification/Reconcile.thy ===== *)
theory Reconcile
  imports AccountStore TxStore
begin

text \<open>
  apps/web/src/data/onchain/reconcile.ts: what runs after an action's transactions confirmed. The stores
  it refreshes and the indexer it asks answer as the arguments say; the calls it makes are its trace.
  A store or an indexer that throws is caught, so each answer is only whether it threw; an indexer that
  throws and one that answers null are the same \<open>None\<close>.
\<close>

definition FOLLOW_UP_DELAYS_MS :: "int list" where
  "FOLLOW_UP_DELAYS_MS = [1000, 3000, 8000, 15000]"

datatype ReconcileCall =
    RefreshAccount bool          \<comment> \<open>\<open>directBalances\<close>\<close>
  | RefreshEarn | RefreshActivity | RefreshProtocol | SettledSeam
  | AskEvents string int         \<comment> \<open>wallet and first block\<close>
  | Delay int
  | EvidenceUpdate "string list"

record ReconcilerDeps =
  rd_earn :: bool
  rd_indexer :: bool
  rd_tx :: bool
  rd_activity :: bool
  rd_protocol :: bool
  rd_onSettled :: bool

record ReconcileWorld =
  rw_accountRefreshed :: bool
  rw_account :: OnchainAccountSnapshot
  rw_isIndexed :: "int \<Rightarrow> bool"
  rw_record :: "string \<Rightarrow> TxRecord option"
  rw_events :: "IndexedEvent list option"

record FollowUp =
  fo_address :: string
  fo_from :: int
  fo_hashes :: "string list"
  fo_indexed :: "string list option"

record ReconciliationResult =
  re_balances :: bool
  re_indexed :: "string list option"
  re_follow :: "FollowUp option"

text \<open>The earliest settled block of the action and the hashes of its confirmed transactions.\<close>

definition settledOne :: "TxRecord option \<Rightarrow> int option \<times> string list \<Rightarrow> int option \<times> string list" where
  "settledOne rec acc = (case rec of None \<Rightarrow> acc | Some r \<Rightarrow>
     (case tx_blockNumber r of None \<Rightarrow> acc | Some block \<Rightarrow>
        if tx_status r \<noteq> Confirmed then acc
        else (Some (case fst acc of None \<Rightarrow> block | Some b \<Rightarrow> min b block),
              (case tx_hash r of Some h \<Rightarrow> if h = [] then snd acc else snd acc @ [h] | None \<Rightarrow> snd acc))))"

fun settledBlocks :: "(string \<Rightarrow> TxRecord option) \<Rightarrow> string list \<Rightarrow> int option \<times> string list \<Rightarrow> int option \<times> string list" where
  "settledBlocks lookup [] acc = acc"
| "settledBlocks lookup (i # txIds) acc = settledBlocks lookup txIds (settledOne (lookup i) acc)"

definition evidence :: "string list \<Rightarrow> IndexedEvent list option \<Rightarrow> string list option" where
  "evidence hashes answer = (case answer of None \<Rightarrow> None | Some events \<Rightarrow>
     (let seen = set (map (toLowerCase \<circ> ie_txHash) events) in Some (filter (\<lambda>h. toLowerCase h \<in> seen) hashes)))"

definition storeCalls :: "ReconcilerDeps \<Rightarrow> ReconcileCall list" where
  "storeCalls d = [RefreshAccount True] @ (if rd_earn d then [RefreshEarn] else []) @
     (if rd_activity d then [RefreshActivity] else []) @ (if rd_protocol d then [RefreshProtocol] else []) @
     (if rd_onSettled d then [SettledSeam] else [])"

definition reconcileStores :: "ReconcilerDeps \<Rightarrow> ReconcileWorld \<Rightarrow> string list \<Rightarrow> ReconcileCall list \<times> ReconciliationResult" where
  "reconcileStores d w txIds =
     (let plain = \<lparr>re_balances = rw_accountRefreshed w, re_indexed = None, re_follow = None\<rparr> in
      if \<not> rd_indexer d \<or> \<not> rd_tx d \<or> txIds = [] then (storeCalls d, plain)
      else (case bound_wallet (oa_address (rw_account w)) of
          None \<Rightarrow> (storeCalls d, plain)
        | Some address \<Rightarrow>
            if \<not> rw_isIndexed w (oa_chainId (rw_account w)) then (storeCalls d, plain)
            else (case settledBlocks (rw_record w) txIds (None, []) of
                (None, hashes) \<Rightarrow> (storeCalls d, plain)
              | (Some fromBlock, hashes) \<Rightarrow>
                  let indexed = evidence hashes (rw_events w);
                      complete = (case indexed of None \<Rightarrow> False | Some seen \<Rightarrow> length seen \<ge> length hashes)
                  in (storeCalls d @ [AskEvents address fromBlock],
                      plain\<lparr>re_indexed := indexed,
                        re_follow := if complete then None else
                          Some \<lparr>fo_address = address, fo_from = fromBlock, fo_hashes = hashes, fo_indexed = indexed\<rparr>\<rparr>))))"

text \<open>The follow-up: one answer of the indexer for each delay.\<close>

definition regrown :: "ReconcilerDeps \<Rightarrow> ReconcileCall list" where
  "regrown d = [RefreshAccount False] @ (if rd_activity d then [RefreshActivity] else []) @
     (if rd_protocol d then [RefreshProtocol] else [])"

fun followLoop :: "ReconcilerDeps \<Rightarrow> FollowUp \<Rightarrow> string list \<Rightarrow> (int \<times> IndexedEvent list option) list \<Rightarrow> ReconcileCall list" where
  "followLoop d f latest [] = []"
| "followLoop d f latest ((delayMs, answer) # rest) =
     [Delay delayMs, AskEvents (fo_address f) (fo_from f)] @
     (case evidence (fo_hashes f) answer of
        None \<Rightarrow> followLoop d f latest rest
      | Some next' \<Rightarrow>
          if length next' > length latest then
            regrown d @ [EvidenceUpdate next'] @
            (if length next' \<ge> length (fo_hashes f) then [] else followLoop d f next' rest)
          else followLoop d f latest rest)"

definition follow :: "ReconcilerDeps \<Rightarrow> FollowUp \<Rightarrow> (nat \<Rightarrow> IndexedEvent list option) \<Rightarrow> ReconcileCall list" where
  "follow d f answers = followLoop d f (case fo_indexed f of None \<Rightarrow> [] | Some seen \<Rightarrow> seen)
     (zip FOLLOW_UP_DELAYS_MS (map answers [0..<4]))"

subsection \<open>Evidence\<close>

definition updates :: "ReconcileCall list \<Rightarrow> string list list" where
  "updates calls = List.map_filter (\<lambda>c. case c of EvidenceUpdate e \<Rightarrow> Some e | _ \<Rightarrow> None) calls"

definition waited :: "ReconcileCall list \<Rightarrow> int" where
  "waited calls = sum_list (map (\<lambda>c. case c of Delay ms \<Rightarrow> ms | _ \<Rightarrow> 0) calls)"

lemma updates_simps [simp]: "updates [] = []" "updates (c # cs) = (case c of EvidenceUpdate e \<Rightarrow> [e] | _ \<Rightarrow> []) @ updates cs"
  "updates (xs @ ys) = updates xs @ updates ys" "updates (regrown d) = []"
  by (auto simp: updates_def regrown_def List.map_filter_def split: ReconcileCall.splits)

lemma waited_simps [simp]: "waited [] = 0" "waited (c # cs) = (case c of Delay ms \<Rightarrow> ms | _ \<Rightarrow> 0) + waited cs"
  "waited (xs @ ys) = waited xs + waited ys" "waited (regrown d) = 0"
  by (auto simp: waited_def regrown_def)

text \<open>A transaction counts when it is confirmed in a block.\<close>

definition settles :: "TxRecord \<Rightarrow> int \<Rightarrow> bool" where
  "settles r n \<longleftrightarrow> tx_status r = Confirmed \<and> tx_blockNumber r = Some n"

lemma settledOne_keeps: "fst acc = Some x \<Longrightarrow> \<exists>y. fst (settledOne rec acc) = Some y \<and> y \<le> x"
  by (cases rec) (auto simp: settledOne_def split: option.splits)

lemma settledOne_least: "settles r n \<Longrightarrow> \<exists>y. fst (settledOne (Some r) acc) = Some y \<and> y \<le> n"
  by (auto simp: settledOne_def settles_def split: option.splits)

lemma settledBlocks_hashes:
  "set (snd (settledBlocks lookup txIds acc)) \<subseteq> set (snd acc) \<union>
     {h. \<exists>i \<in> set txIds. \<exists>r n. lookup i = Some r \<and> settles r n \<and> tx_hash r = Some h}"
proof (induction txIds arbitrary: acc)
  case (Cons i txIds)
  have "set (snd (settledOne (lookup i) acc)) \<subseteq> set (snd acc) \<union>
      {h. \<exists>r n. lookup i = Some r \<and> settles r n \<and> tx_hash r = Some h}"
    by (auto simp: settledOne_def settles_def split: option.splits if_splits)
  then show ?case using Cons [of "settledOne (lookup i) acc"] unfolding settledBlocks.simps list.set by blast
qed simp

lemma settledBlocks_grows: "set (snd acc) \<subseteq> set (snd (settledBlocks lookup txIds acc))"
proof (induction txIds arbitrary: acc)
  case (Cons i txIds)
  have "set (snd acc) \<subseteq> set (snd (settledOne (lookup i) acc))"
    by (auto simp: settledOne_def split: option.splits)
  then show ?case using Cons [of "settledOne (lookup i) acc"] by simp
qed simp

lemma settledBlocks_all:
  "i \<in> set txIds \<Longrightarrow> lookup i = Some r \<Longrightarrow> settles r n \<Longrightarrow> tx_hash r = Some h \<Longrightarrow> h \<noteq> [] \<Longrightarrow>
   h \<in> set (snd (settledBlocks lookup txIds acc))"
proof (induction txIds arbitrary: acc)
  case (Cons j txIds)
  show ?case
  proof (cases "i = j")
    case True
    then have "h \<in> set (snd (settledOne (lookup j) acc))"
      using Cons.prems by (auto simp: settledOne_def settles_def)
    then show ?thesis using settledBlocks_grows [of "settledOne (lookup j) acc" lookup txIds] by auto
  next
    case False
    then show ?thesis using Cons by simp
  qed
qed simp

lemma settledBlocks_keeps:
  "fst acc = Some x \<Longrightarrow> \<exists>y. fst (settledBlocks lookup txIds acc) = Some y \<and> y \<le> x"
proof (induction txIds arbitrary: acc x)
  case (Cons i txIds)
  then obtain y where "fst (settledOne (lookup i) acc) = Some y" "y \<le> x"
    using settledOne_keeps by blast
  with Cons.IH [OF this(1)] show ?case by fastforce
qed simp

lemma settledBlocks_least:
  "i \<in> set txIds \<Longrightarrow> lookup i = Some r \<Longrightarrow> settles r n \<Longrightarrow>
   \<exists>y. fst (settledBlocks lookup txIds acc) = Some y \<and> y \<le> n"
proof (induction txIds arbitrary: acc)
  case (Cons j txIds)
  show ?case
  proof (cases "i = j")
    case True
    then obtain y where "fst (settledOne (lookup j) acc) = Some y" "y \<le> n"
      using Cons.prems settledOne_least by fastforce
    with settledBlocks_keeps [OF this(1)] show ?thesis by fastforce
  next
    case False
    then show ?thesis using Cons by simp
  qed
qed simp

lemma evidence_set: "evidence hashes answer = Some seen \<Longrightarrow> set seen \<subseteq> set hashes"
  by (auto simp: evidence_def Let_def split: option.splits)

lemma evidence_complete: "evidence hashes answer = Some seen \<Longrightarrow> length hashes \<le> length seen \<Longrightarrow> seen = hashes"
proof -
  assume e: "evidence hashes answer = Some seen" "length hashes \<le> length seen"
  then obtain P where "seen = filter P hashes" by (auto simp: evidence_def Let_def split: option.splits)
  with e(2) show "seen = hashes"
    using length_filter_less [of _ hashes P] by (metis filter_id_conv linorder_not_le)
qed

text \<open>Every update is what one answer shows, longer than what was known before.\<close>

lemma followLoop_updates:
  "sorted_wrt (\<lambda>a b. length a < length b) (updates (followLoop d f latest asked)) \<and>
   (\<forall>e \<in> set (updates (followLoop d f latest asked)). length latest < length e \<and>
      (\<exists>answer \<in> set (map snd asked). evidence (fo_hashes f) answer = Some e))"
proof (induction d f latest asked rule: followLoop.induct)
  case (2 d f latest delayMs answer rest)
  show ?case
  proof (cases "evidence (fo_hashes f) answer")
    case None
    then show ?thesis using 2 by auto
  next
    case (Some next')
    show ?thesis
    proof (cases "length next' > length latest")
      case True
      show ?thesis
      proof (cases "length next' \<ge> length (fo_hashes f)")
        case True
        then show ?thesis using Some \<open>length next' > length latest\<close> by auto
      next
        case False
        then show ?thesis using 2(2) [OF Some True False] Some True by fastforce
      qed
    next
      case False
      then show ?thesis using 2(3) [OF Some False] Some by auto
    qed
  qed
qed simp

lemma followLoop_completes:
  "length latest < length (fo_hashes f) \<Longrightarrow> answer \<in> set (map snd asked) \<Longrightarrow>
   evidence (fo_hashes f) answer = Some (fo_hashes f) \<Longrightarrow>
   updates (followLoop d f latest asked) \<noteq> [] \<and> last (updates (followLoop d f latest asked)) = fo_hashes f"
proof (induction d f latest asked rule: followLoop.induct)
  case (2 d f latest delayMs a rest)
  show ?case
  proof (cases "evidence (fo_hashes f) a")
    case None
    then show ?thesis using 2 by auto
  next
    case (Some next')
    show ?thesis
    proof (cases "length next' > length latest")
      case True
      show ?thesis
      proof (cases "length next' \<ge> length (fo_hashes f)")
        case True
        then show ?thesis using evidence_complete [OF Some True] Some 2(4) by simp
      next
        case False
        then show ?thesis using 2(2) [OF Some True False] 2(4-6) Some True by auto
      qed
    next
      case False
      then have "answer \<in> set (map snd rest)" using 2(4-6) Some by auto
      then show ?thesis using 2(3) [OF Some False] 2(4,6) Some False by auto
    qed
  qed
qed simp

lemma followLoop_budget:
  "\<forall>ms \<in> fst ` set asked. 0 \<le> ms \<Longrightarrow> waited (followLoop d f latest asked) \<le> sum_list (map fst asked)"
  by (induction d f latest asked rule: followLoop.induct)
    (auto split: option.splits intro!: sum_list_nonneg add_nonneg_nonneg)

lemma asks_followLoop:
  "length (filter (\<lambda>c. case c of AskEvents _ _ \<Rightarrow> True | _ \<Rightarrow> False) (followLoop d f latest asked)) \<le> length asked"
  by (induction d f latest asked rule: followLoop.induct) (auto simp: regrown_def split: option.splits)

text \<open>The reconciliation reports as indexed only hashes of transactions of this action that are
  confirmed in a block, each carried by an event the indexer returned for the bound wallet; it asks for
  events from a block no later than that of any of these transactions, and it hands back a follow-up
  exactly when it asked and some hash of a confirmed transaction is still missing.\<close>
theorem indexed_evidence_is_sound:
  assumes "reconcileStores d w txIds = (calls, r)"
  shows "(\<forall>h \<in> (case re_indexed r of None \<Rightarrow> {} | Some seen \<Rightarrow> set seen).
      (\<exists>i \<in> set txIds. \<exists>rec n. rw_record w i = Some rec \<and> settles rec n \<and> tx_hash rec = Some h) \<and>
      (\<exists>events. rw_events w = Some events \<and> toLowerCase h \<in> toLowerCase ` ie_txHash ` set events)) \<and>
    (\<forall>a b. AskEvents a b \<in> set calls \<longrightarrow> oa_address (rw_account w) = Some a \<and>
      (\<forall>i \<in> set txIds. \<forall>rec n. rw_record w i = Some rec \<and> settles rec n \<longrightarrow> b \<le> n)) \<and>
    (\<forall>f. re_follow r = Some f \<longrightarrow> fo_indexed f = re_indexed r \<and> re_indexed r \<noteq> Some (fo_hashes f)) \<and>
    ((\<exists>a b. AskEvents a b \<in> set calls) \<and> re_follow r = None \<longrightarrow> (\<exists>seen. re_indexed r = Some seen \<and>
      (\<forall>i \<in> set txIds. \<forall>rec n h. rw_record w i = Some rec \<and> settles rec n \<and> tx_hash rec = Some h \<and> h \<noteq> [] \<longrightarrow>
         h \<in> set seen)))"
proof -
  let ?plain = "\<lparr>re_balances = rw_accountRefreshed w, re_indexed = None, re_follow = None\<rparr>"
  obtain fromBlock hashes where sb: "settledBlocks (rw_record w) txIds (None, []) = (fromBlock, hashes)"
    by (cases "settledBlocks (rw_record w) txIds (None, [])")
  have none: "AskEvents a b \<notin> set (storeCalls d)" for a b by (simp add: storeCalls_def)
  consider "calls = storeCalls d" "r = ?plain"
    | address b where "oa_address (rw_account w) = Some address" "fromBlock = Some b"
        "calls = storeCalls d @ [AskEvents address b]" "re_indexed r = evidence hashes (rw_events w)"
        "re_follow r = None \<and> re_indexed r = Some hashes \<or> re_follow r = Some \<lparr>fo_address = address, fo_from = b, fo_hashes = hashes,
           fo_indexed = re_indexed r\<rparr> \<and> (\<forall>seen. re_indexed r = Some seen \<longrightarrow> length seen < length hashes)"
    using assms sb
    by (auto simp: reconcileStores_def Let_def bound_wallet_def dest: evidence_complete split: option.splits if_splits)
  then show ?thesis
  proof cases
    case 1
    then show ?thesis using none by simp
  next
    case (2 address b)
    have least: "b \<le> n" if "i \<in> set txIds" "rw_record w i = Some rec" "settles rec n" for i rec n
      using settledBlocks_least [where lookup = "rw_record w" and acc = "(None, [])", OF that] 2(2) sb by simp
    have hs: "\<exists>i \<in> set txIds. \<exists>rec n. rw_record w i = Some rec \<and> settles rec n \<and> tx_hash rec = Some h"
      if "h \<in> set hashes" for h
      using settledBlocks_hashes [of "rw_record w" txIds "(None, [])"] that by (auto simp: sb)
    have ev: "h \<in> set hashes \<and> (\<exists>events. rw_events w = Some events \<and> toLowerCase h \<in> toLowerCase ` ie_txHash ` set events)"
      if "re_indexed r = Some seen" "h \<in> set seen" for h seen
      using that 2(4) by (auto simp: evidence_def Let_def split: option.splits)
    have all: "h \<in> set hashes"
      if "i \<in> set txIds" "rw_record w i = Some rec" "settles rec n" "tx_hash rec = Some h" "h \<noteq> []" for i rec n h
      using settledBlocks_all [where lookup = "rw_record w" and acc = "(None, [])", OF that] by (simp add: sb)
    have fo: "fo_indexed f = re_indexed r \<and> re_indexed r \<noteq> Some (fo_hashes f)" if "re_follow r = Some f" for f
      using that 2(5) by (cases "re_indexed r") auto
    have seen: "re_indexed r = Some hashes" if "re_follow r = None" using that 2(5) by auto
    have asks: "AskEvents a' b' \<in> set calls \<longleftrightarrow> a' = address \<and> b' = b" for a' b' using 2(3) none by auto
    show ?thesis
      unfolding asks using 2(1) least hs ev all fo seen by (auto split: option.splits)
  qed
qed

text \<open>C24. The follow-up waits 27 seconds at the most and asks the indexer at most four times; each update
  it reports is what one answer shows and names more hashes than anything before it; and as soon as one
  of its answers shows every hash, or would if it were asked, the last update is the complete list.\<close>
theorem follow_up_grows_to_completion:
  shows "waited (follow d f answers) \<le> 27000 \<and>
    length (filter (\<lambda>c. case c of AskEvents _ _ \<Rightarrow> True | _ \<Rightarrow> False) (follow d f answers)) \<le> 4 \<and>
    sorted_wrt (\<lambda>a b. length a < length b) (updates (follow d f answers)) \<and>
    (\<forall>e \<in> set (updates (follow d f answers)). \<exists>k < 4. evidence (fo_hashes f) (answers k) = Some e) \<and>
    ((\<exists>k < 4. evidence (fo_hashes f) (answers k) = Some (fo_hashes f)) \<and>
     (\<forall>seen. fo_indexed f = Some seen \<longrightarrow> length seen < length (fo_hashes f)) \<and> fo_hashes f \<noteq> [] \<longrightarrow>
       updates (follow d f answers) \<noteq> [] \<and> last (updates (follow d f answers)) = fo_hashes f)"
proof -
  let ?asked = "zip FOLLOW_UP_DELAYS_MS (map answers [0..<4])"
  let ?latest = "case fo_indexed f of None \<Rightarrow> [] | Some seen \<Rightarrow> seen"
  have asked: "map snd ?asked = map answers [0..<4]" "map fst ?asked = FOLLOW_UP_DELAYS_MS" "length ?asked = 4"
    by (simp_all add: FOLLOW_UP_DELAYS_MS_def upt_rec)
  have "set (map snd ?asked) = answers ` {0..<4}" by (simp only: asked(1) set_map set_upt)
  then have k: "answer \<in> set (map snd ?asked) \<longleftrightarrow> (\<exists>k < 4. answers k = answer)" for answer by auto
  have "set (map fst ?asked) = set FOLLOW_UP_DELAYS_MS" by (simp only: asked(2))
  then have "\<forall>ms \<in> fst ` set ?asked. 0 \<le> ms"
    unfolding set_map by (simp only:) (simp add: FOLLOW_UP_DELAYS_MS_def)
  then have "waited (follow d f answers) \<le> sum_list (map fst ?asked)"
    unfolding follow_def by (rule followLoop_budget)
  then have "waited (follow d f answers) \<le> 27000" by (simp only: asked(2)) (simp add: FOLLOW_UP_DELAYS_MS_def)
  moreover have "length (filter (\<lambda>c. case c of AskEvents _ _ \<Rightarrow> True | _ \<Rightarrow> False) (follow d f answers)) \<le> 4"
    unfolding follow_def using asks_followLoop [of d f ?latest ?asked] by (simp only: asked(3))
  moreover have "updates (follow d f answers) \<noteq> [] \<and> last (updates (follow d f answers)) = fo_hashes f"
    if h: "\<exists>k < 4. evidence (fo_hashes f) (answers k) = Some (fo_hashes f)" "fo_hashes f \<noteq> []"
      "\<forall>seen. fo_indexed f = Some seen \<longrightarrow> length seen < length (fo_hashes f)"
  proof -
    obtain j where j: "j < 4" "evidence (fo_hashes f) (answers j) = Some (fo_hashes f)" using h(1) by blast
    have "answers j \<in> set (map snd ?asked)" using j(1) by (simp only: k) blast
    moreover have "length ?latest < length (fo_hashes f)" using h(2,3) by (cases "fo_indexed f") simp_all
    ultimately show ?thesis unfolding follow_def using j(2) by (intro followLoop_completes)
  qed
  moreover have "sorted_wrt (\<lambda>a b. length a < length b) (updates (follow d f answers))"
    unfolding follow_def using followLoop_updates by blast
  moreover have "\<exists>k < 4. evidence (fo_hashes f) (answers k) = Some e" if e: "e \<in> set (updates (follow d f answers))" for e
  proof -
    obtain answer where "answer \<in> set (map snd ?asked)" "evidence (fo_hashes f) answer = Some e"
      using e followLoop_updates [of d f ?latest ?asked] unfolding follow_def by blast
    then show ?thesis by (simp only: k) blast
  qed
  ultimately show ?thesis by (intro conjI ballI impI) simp_all
qed

subsection \<open>A sample\<close>

definition sampleTx :: TxRecord where
  "sampleTx = \<lparr>tx_id = ''t'', tx_hash = Some ''0xF'', tx_status = Confirmed, tx_origin = '''', tx_kind = '''',
     tx_chainId = 1, tx_address = None, tx_createdAt = 0, tx_updatedAt = 0, tx_settledAt = Some 0,
     tx_blockNumber = Some 7, tx_error = None\<rparr>"

definition sampleEvent :: IndexedEvent where
  "sampleEvent = \<lparr>ie_contract = '''', ie_event = ''Buy'', ie_user = ''0xa'', ie_chainId = 1, ie_blockNumber = 7,
     ie_logIndex = 0, ie_txHash = ''0xf'', ie_seenAtMs = 0, ie_data = []\<rparr>"

definition allDeps :: ReconcilerDeps where
  "allDeps = \<lparr>rd_earn = True, rd_indexer = True, rd_tx = True, rd_activity = True, rd_protocol = True, rd_onSettled = True\<rparr>"

definition sampleWorld :: ReconcileWorld where
  "sampleWorld = \<lparr>rw_accountRefreshed = True, rw_account = EMPTY_ACCOUNT\<lparr>oa_address := Some ''0xa'', oa_chainId := 1\<rparr>,
     rw_isIndexed = (\<lambda>chain. chain = 1), rw_record = (\<lambda>i. if i = ''t'' then Some sampleTx else None),
     rw_events = Some [sampleEvent]\<rparr>"

theorem indexed_evidence_is_sound_witness:
  "re_indexed (snd (reconcileStores allDeps sampleWorld [''t''])) = Some [''0xF''] \<and>
   (\<exists>events. rw_events sampleWorld = Some events \<and> toLowerCase ''0xF'' \<in> toLowerCase ` ie_txHash ` set events)"
proof -
  have i: "re_indexed (snd (reconcileStores allDeps sampleWorld [''t''])) = Some [''0xF'']" by code_simp
  from indexed_evidence_is_sound [of allDeps sampleWorld "[''t'']", OF surjective_pairing]
  have "\<forall>h \<in> set [''0xF'']. \<exists>events. rw_events sampleWorld = Some events \<and>
      toLowerCase h \<in> toLowerCase ` ie_txHash ` set events" unfolding i by simp
  then show ?thesis using i by simp
qed

theorem follow_up_grows_to_completion_witness:
  "let f = \<lparr>fo_address = ''0xa'', fo_from = 7, fo_hashes = [''0xF''], fo_indexed = None\<rparr>;
       answers = (\<lambda>k. if k = 2 then Some [sampleEvent] else None)
   in updates (follow allDeps f answers) \<noteq> [] \<and> last (updates (follow allDeps f answers)) = [''0xF'']"
proof -
  let ?f = "\<lparr>fo_address = ''0xa'', fo_from = 7, fo_hashes = [''0xF''], fo_indexed = None\<rparr>"
  let ?answers = "\<lambda>k :: nat. if k = 2 then Some [sampleEvent] else None"
  have "evidence [''0xF''] (Some [sampleEvent]) = Some [''0xF'']" by code_simp
  then have "\<exists>k < 4. evidence (fo_hashes ?f) (?answers k) = Some (fo_hashes ?f)" by (intro exI [of _ 2]) simp
  then show ?thesis
    using follow_up_grows_to_completion [of allDeps ?f ?answers] by (simp add: Let_def)
qed

end
