(* ===== verification/TradeQuotes.thy ===== *)
theory TradeQuotes
  imports ProtocolMap Genesis
begin

text \<open>
  apps/web/src/data/web3/trading/quotes.ts with the trade types of domain/types.ts, the key of
  data/web3/pool.ts and the attestation of data/oracle/attestation.ts: the quotes the order slip signs.
  The chain, the attestor and the clock answer as a \<open>QuoteWorld\<close> says: the \<open>k\<close>-th fetch of the
  attestation, and for the \<open>j\<close>-th run of a quote's body the answers of its reads. A promise that
  rejects is \<open>Rejects\<close>. A fetch of the attestation is an option, \<open>None\<close> when its outcome is not a
  current report: \<open>fetchAttestation\<close> documents that it never throws and turns a failed transport into
  an outcome. Its parse of the answer's body stands outside that guard, so a body that is not JSON would
  reject the quote; that rejection is not in the model. Encodings and the parsing and printing of units are calls into viem, the
  arguments \<open>hexOf\<close>, \<open>pu\<close> (\<open>None\<close> when it throws) and \<open>fu\<close>. A tolerance is an integral number.
\<close>

subsection \<open>Requests, legs and quotes\<close>

type_synonym TradeSide = ExecutionSide

datatype TradeBasis = UnitsBasis number | GusdBasis number

record TradeRequest =
  tr_asset :: AssetId
  tr_side :: TradeSide
  tr_toleranceBps :: "int option"
  tr_basis :: TradeBasis

datatype TradeLeg =
    PoolLeg (leg_gpuUnits: number) (leg_gUsd: number) (leg_fee: number)
  | IssuanceLeg (leg_gpuUnits: number) (leg_gUsd: number) (leg_fee: number)

datatype TradeLegKind = PoolKind | IssuanceKind

fun leg_kind :: "TradeLeg \<Rightarrow> TradeLegKind" where
  "leg_kind (PoolLeg _ _ _) = PoolKind"
| "leg_kind (IssuanceLeg _ _ _) = IssuanceKind"

record TradeQuote =
  tq_asset :: AssetId
  tq_side :: TradeSide
  tq_size :: number
  tq_price :: number
  tq_notional :: number
  tq_maxPaid :: number
  tq_minOut :: number
  tq_minSize :: number
  tq_legs :: "TradeLeg list"
  tq_toleranceBps :: int
  tq_quotedAtMs :: int
  tq_blockNumber :: int

definition legUnits :: "TradeQuote \<Rightarrow> TradeLegKind \<Rightarrow> number" where
  "legUnits quote kind = fold (\<lambda>leg sum. if leg_kind leg = kind then fadd sum (leg_gpuUnits leg) else sum) (tq_legs quote) 0"

definition quoteFees :: "TradeQuote \<Rightarrow> number" where
  "quoteFees quote = fold (\<lambda>leg sum. fadd sum (leg_fee leg)) (tq_legs quote) 0"

datatype QuoteReason = StaleOracle | NoAsk | NoBid | NoQuoteReason | QuoteTimeout

datatype QuoteOutcome = Rejects | NullQuote | Unavailable QuoteReason "int option" | Quoted TradeQuote

definition DEFAULT_TOLERANCE_BPS :: int where "DEFAULT_TOLERANCE_BPS = 50"
definition UINT128_MAX :: int where "UINT128_MAX = 2 ^ 128 - 1"

type_synonym parse_units = "string \<Rightarrow> nat \<Rightarrow> int option"

definition parseScaled :: "parse_units \<Rightarrow> number \<Rightarrow> nat \<Rightarrow> int option" where
  "parseScaled pu amount decimals = (if amount < 0 then Some 0 else pu (num_text amount) decimals)"

definition parseGusd :: "parse_units \<Rightarrow> number \<Rightarrow> int option" where
  "parseGusd pu amount = parseScaled pu amount GUSD_DECIMALS"

definition parseGpuUnits :: "parse_units \<Rightarrow> number \<Rightarrow> int option" where
  "parseGpuUnits pu amount = parseScaled pu amount GPU_TOKEN_DECIMALS"

subsection \<open>The attestation and the pool\<close>

record SignedReport =
  sr_report :: ReportV1
  sr_signature :: string

datatype Attestation =
    CurrentReportOf SignedReport string string  \<comment> \<open>signed, \<open>updateData\<close>, \<open>reportHash\<close>\<close>
  | UnknownGpu | Degraded | Unreachable

record GpuRegistration =
  gr_gpuId :: string
  gr_token :: string
  gr_issuanceEnabled :: bool
  gr_poolRegistered :: bool
  gr_poolFee :: int
  gr_tickSpacing :: int
  gr_issuanceFeeBps :: int

record PoolKey =
  pk_currency0 :: string
  pk_currency1 :: string
  pk_fee :: int
  pk_tickSpacing :: int
  pk_hooks :: string

fun text_less :: "string \<Rightarrow> string \<Rightarrow> bool" where
  "text_less _ [] = False"
| "text_less [] (_ # _) = True"
| "text_less (a # s) (b # t) = (char_code a < char_code b \<or> a = b \<and> text_less s t)"

definition canonicalPoolKey :: "string \<Rightarrow> string \<Rightarrow> int \<Rightarrow> int \<Rightarrow> string \<Rightarrow> PoolKey" where
  "canonicalPoolKey gUsd gpuToken poolFee tickSpacing hook =
     (let (c0, c1) = (if text_less (toLowerCase gUsd) (toLowerCase gpuToken) then (gUsd, gpuToken) else (gpuToken, gUsd))
      in \<lparr>pk_currency0 = c0, pk_currency1 = c1, pk_fee = poolFee, pk_tickSpacing = tickSpacing, pk_hooks = hook\<rparr>)"

definition isBuyZeroForOne :: "PoolKey \<Rightarrow> string \<Rightarrow> bool" where
  "isBuyZeroForOne key gUsd \<longleftrightarrow> toLowerCase (pk_currency0 key) = toLowerCase gUsd"

definition gpuCurrencyOf :: "PoolKey \<Rightarrow> string \<Rightarrow> string" where
  "gpuCurrencyOf key gUsd = (if isBuyZeroForOne key gUsd then pk_currency1 key else pk_currency0 key)"

subsection \<open>The world of a quote\<close>

record GpuQuoteResult = MirrorQuote +
  nativeGpu :: int
  endTick :: int

datatype QuoteMethod = QuoteBuyExactOut | QuoteBuy | QuoteSell | QuoteSellExactOut

record QuoteReads =
  qr_blockNumber :: "int option"
  qr_hookState :: "string \<Rightarrow> SignedReport \<Rightarrow> HookMarketState option"
  qr_liquidity :: "PoolKey \<Rightarrow> int option"
  qr_lens :: "QuoteMethod \<Rightarrow> PoolKey \<Rightarrow> int \<Rightarrow> string \<Rightarrow> GpuQuoteResult option"
  qr_quoteIssue :: "string \<Rightarrow> int \<Rightarrow> string \<Rightarrow> (number \<times> number) option"  \<comment> \<open>\<open>totalPaid\<close> and \<open>fee\<close>\<close>
  qr_issueRaw :: "nat \<Rightarrow> int \<Rightarrow> IssueQuoteRaw option"
  qr_nowQuote :: int
  qr_nowStamp :: int
  qr_nowHeal :: int

record QuoteWorld =
  qw_gusd :: string
  qw_hook :: string
  qw_registration :: "string \<Rightarrow> GpuRegistration option option"
  qw_attestation :: "nat \<Rightarrow> Attestation"
  qw_reads :: "nat \<Rightarrow> QuoteReads"

definition quoteSeconds :: "int \<Rightarrow> int" where
  "quoteSeconds ms = \<lfloor>fdiv (of_int ms) 1000\<rfloor>"

record MirrorBatch =
  mb_state :: HookMarketState
  mb_nativeLiquidity :: int

definition mirrorBatch :: "QuoteReads \<Rightarrow> string \<Rightarrow> PoolKey \<Rightarrow> SignedReport \<Rightarrow> MirrorBatch option" where
  "mirrorBatch reads gpuId poolKey signed = (case qr_hookState reads gpuId signed of
     None \<Rightarrow> None
   | Some state \<Rightarrow> Some \<lparr>mb_state = state,
       mb_nativeLiquidity = (case qr_liquidity reads poolKey of None \<Rightarrow> 0 | Some l \<Rightarrow> l)\<rparr>)"

fun mirrorOf :: "QuoteMethod \<Rightarrow> HookMarketState \<Rightarrow> int \<Rightarrow> int \<Rightarrow> MirrorResult option" where
  "mirrorOf QuoteBuyExactOut = quoteBuyExactOutMirror"
| "mirrorOf QuoteBuy = quoteBuyMirror"
| "mirrorOf QuoteSell = quoteSellMirror"
| "mirrorOf QuoteSellExactOut = quoteSellExactOutMirror"

fun reasonOf :: "MirrorRejection \<Rightarrow> QuoteReason" where
  "reasonOf OracleStale = StaleOracle"
| "reasonOf NoAskCapacity = NoAsk"
| "reasonOf NoBidCapacity = NoBid"

datatype LensOutcome = LensRejects | LensFails QuoteReason "int option" | LensFills GpuQuoteResult

definition fromMirror :: "MirrorResult option \<Rightarrow> LensOutcome" where
  "fromMirror m = (case m of None \<Rightarrow> LensRejects
     | Some (Filled r) \<Rightarrow> LensFills (MirrorQuote.extend r \<lparr>nativeGpu = 0, endTick = 0\<rparr>)
     | Some (Rejected reason capacity) \<Rightarrow> LensFails (reasonOf reason) capacity)"

definition runGpuQuote :: "QuoteReads \<Rightarrow> MirrorBatch option \<Rightarrow> PoolKey \<Rightarrow> QuoteMethod \<Rightarrow> int \<Rightarrow> string \<Rightarrow> number \<Rightarrow> LensOutcome" where
  "runGpuQuote reads batch poolKey method amountRaw updateData reportValidUntilSec =
     (let nowSec = quoteSeconds (qr_nowQuote reads) in
      case batch of
        Some b \<Rightarrow>
          if mb_nativeLiquidity b = 0 then fromMirror (mirrorOf method (mb_state b) amountRaw nowSec)
          else (case qr_lens reads method poolKey amountRaw updateData of
              Some r \<Rightarrow> LensFills r
            | None \<Rightarrow>
                if \<not> oracleGuardOk (mb_state b) nowSec then LensFails StaleOracle None
                else fromMirror (mirrorOf method (mb_state b) amountRaw nowSec))
      | None \<Rightarrow>
          (case qr_lens reads method poolKey amountRaw updateData of
              Some r \<Rightarrow> LensFills r
            | None \<Rightarrow> if reportValidUntilSec \<le> of_int nowSec then LensFails StaleOracle None
                      else LensFails QuoteTimeout None))"

subsection \<open>A live report\<close>

definition REPORT_BRIDGE_ATTEMPTS :: nat where "REPORT_BRIDGE_ATTEMPTS = 2"

record CurrentAtt =
  ca_signed :: SignedReport
  ca_updateData :: string
  ca_reportHash :: string

definition currentAttestation :: "QuoteWorld \<Rightarrow> nat \<Rightarrow> CurrentAtt option" where
  "currentAttestation w k = (case qw_attestation w k of
     CurrentReportOf signed updateData hash \<Rightarrow> Some \<lparr>ca_signed = signed, ca_updateData = updateData, ca_reportHash = hash\<rparr>
   | _ \<Rightarrow> None)"

text \<open>The bridge, with the number of the next fetch; \<open>None\<close> is the refusal \<open>oracle-stale\<close>.\<close>

fun bridge :: "nat \<Rightarrow> QuoteWorld \<Rightarrow> nat \<Rightarrow> nat \<times> CurrentAtt option" where
  "bridge 0 w k = (Suc k, currentAttestation w k)"
| "bridge (Suc n) w k = (case currentAttestation w k of
     Some att \<Rightarrow> (Suc k, Some att)
   | None \<Rightarrow> bridge n w (Suc k))"

definition currentAttestationLive :: "QuoteWorld \<Rightarrow> nat \<Rightarrow> nat \<times> CurrentAtt option" where
  "currentAttestationLive w k = bridge REPORT_BRIDGE_ATTEMPTS w k"

definition reportLapsed :: "CurrentAtt \<Rightarrow> int \<Rightarrow> bool" where
  "reportLapsed att nowMs \<longleftrightarrow> rp_validUntil (sr_report (ca_signed att)) \<le> of_int (quoteSeconds nowMs)"

text \<open>One heal for a quote: \<open>heals\<close> counts those left, \<open>j\<close> the run of the body, \<open>k\<close> the next fetch.\<close>

fun runLive :: "nat \<Rightarrow> QuoteWorld \<Rightarrow> (nat \<Rightarrow> CurrentAtt \<Rightarrow> QuoteOutcome) \<Rightarrow> nat \<Rightarrow> nat \<Rightarrow> CurrentAtt \<Rightarrow> nat \<times> QuoteOutcome" where
  "runLive 0 w work j k att = (k, work j att)"
| "runLive (Suc heals) w work j k att = (case work j att of
     Unavailable reason capacity \<Rightarrow>
       if \<not> reportLapsed att (qr_nowHeal (qw_reads w j)) then (k, Unavailable reason capacity)
       else (case currentAttestationLive w k of
           (k', None) \<Rightarrow> (k', Unavailable reason capacity)
         | (k', Some fresh) \<Rightarrow>
             if ca_reportHash fresh = ca_reportHash att then (k', Unavailable reason capacity)
             else runLive heals w work (Suc j) k' fresh)
   | result \<Rightarrow> (k, result))"

definition withLiveReport :: "QuoteWorld \<Rightarrow> (nat \<Rightarrow> CurrentAtt \<Rightarrow> QuoteOutcome) \<Rightarrow> nat \<times> QuoteOutcome" where
  "withLiveReport w work = (case currentAttestationLive w 0 of
     (k, None) \<Rightarrow> (k, Unavailable StaleOracle None)
   | (k, Some att) \<Rightarrow> runLive 1 w work 0 k att)"

subsection \<open>The four quotes\<close>

definition poolKeyOf :: "QuoteWorld \<Rightarrow> GpuRegistration \<Rightarrow> PoolKey" where
  "poolKeyOf w reg = canonicalPoolKey (qw_gusd w) (gr_token reg) (gr_poolFee reg) (gr_tickSpacing reg) (qw_hook w)"

definition lensOf :: "QuoteWorld \<Rightarrow> QuoteReads \<Rightarrow> string \<Rightarrow> GpuRegistration \<Rightarrow> CurrentAtt \<Rightarrow> QuoteMethod \<Rightarrow> int \<Rightarrow> LensOutcome" where
  "lensOf w reads gpuId reg att method amountRaw =
     runGpuQuote reads (mirrorBatch reads gpuId (poolKeyOf w reg) (ca_signed att)) (poolKeyOf w reg) method amountRaw
       (ca_updateData att) (rp_validUntil (sr_report (ca_signed att)))"

definition buyLegs :: "format_units \<Rightarrow> GpuQuoteResult \<Rightarrow> TradeLeg list" where
  "buyLegs fu r =
     (let marketGpu = nativeGpu r + polGpu r; backstopGusd = issueBase r + issueFee r in
      (if marketGpu > 0 then [PoolLeg (formatGpuUnits fu marketGpu) (perMillion (gusdIn r - backstopGusd))
          (perMillion (polFeeGusd r + hookFeeGusd r))] else []) @
      (if backstopGpu r > 0 then [IssuanceLeg (formatGpuUnits fu (backstopGpu r)) (perMillion backstopGusd)
          (perMillion (issueFee r))] else []))"

definition quoteBuyOnReport ::
  "format_units \<Rightarrow> parse_units \<Rightarrow> QuoteWorld \<Rightarrow> string \<Rightarrow> AssetId \<Rightarrow> number \<Rightarrow> int \<Rightarrow> GpuRegistration \<Rightarrow> int \<Rightarrow>
   nat \<Rightarrow> CurrentAtt \<Rightarrow> QuoteOutcome" where
  "quoteBuyOnReport fu pu w gpuId asset sz toleranceBps reg sizeRaw j att =
     (let reads = qw_reads w j in
      case qr_blockNumber reads of None \<Rightarrow> Rejects | Some headBlock \<Rightarrow>
      if \<not> gr_poolRegistered reg then
        if \<not> gr_issuanceEnabled reg then NullQuote
        else (case qr_quoteIssue reads gpuId sizeRaw (ca_updateData att) of
            None \<Rightarrow> Unavailable StaleOracle None
          | Some (totalPaid, feePaid) \<Rightarrow>
              (case parseGusd pu totalPaid of None \<Rightarrow> Rejects | Some totalRaw \<Rightarrow>
                Quoted \<lparr>tq_asset = asset, tq_side = BuySide, tq_size = sz, tq_price = fdiv totalPaid sz,
                  tq_notional = totalPaid, tq_maxPaid = perMillion (applyBps totalRaw toleranceBps Up),
                  tq_minOut = 0, tq_minSize = 0, tq_legs = [IssuanceLeg sz totalPaid feePaid],
                  tq_toleranceBps = toleranceBps, tq_quotedAtMs = qr_nowStamp reads, tq_blockNumber = headBlock\<rparr>))
      else (case lensOf w reads gpuId reg att QuoteBuyExactOut sizeRaw of
          LensRejects \<Rightarrow> Rejects
        | LensFails reason capacity \<Rightarrow> Unavailable reason capacity
        | LensFills r \<Rightarrow>
            if gpuOut r \<noteq> sizeRaw \<or> gusdIn r = 0 then NullQuote
            else Quoted \<lparr>tq_asset = asset, tq_side = BuySide, tq_size = sz,
              tq_price = fdiv (perMillion (gusdIn r)) sz, tq_notional = perMillion (gusdIn r),
              tq_maxPaid = perMillion (applyBps (gusdIn r) toleranceBps Up), tq_minOut = 0, tq_minSize = 0,
              tq_legs = buyLegs fu r, tq_toleranceBps = toleranceBps, tq_quotedAtMs = qr_nowStamp reads,
              tq_blockNumber = headBlock\<rparr>))"

definition quoteSellOnReport ::
  "QuoteWorld \<Rightarrow> string \<Rightarrow> AssetId \<Rightarrow> number \<Rightarrow> int \<Rightarrow> GpuRegistration \<Rightarrow> int \<Rightarrow> nat \<Rightarrow> CurrentAtt \<Rightarrow> QuoteOutcome" where
  "quoteSellOnReport w gpuId asset sz toleranceBps reg sizeRaw j att =
     (let reads = qw_reads w j in
      case qr_blockNumber reads of None \<Rightarrow> Rejects | Some headBlock \<Rightarrow>
      (case lensOf w reads gpuId reg att QuoteSell sizeRaw of
          LensRejects \<Rightarrow> Rejects
        | LensFails reason capacity \<Rightarrow> Unavailable reason capacity
        | LensFills r \<Rightarrow>
            if gusdOut r = 0 \<or> gpuIn r \<noteq> sizeRaw then NullQuote
            else Quoted \<lparr>tq_asset = asset, tq_side = SellSide, tq_size = sz,
              tq_price = fdiv (perMillion (gusdOut r)) sz, tq_notional = perMillion (gusdOut r), tq_maxPaid = 0,
              tq_minOut = perMillion (applyBps (gusdOut r) toleranceBps Down), tq_minSize = 0,
              tq_legs = [PoolLeg sz (perMillion (gusdOut r)) (perMillion (polFeeGusd r + hookFeeGusd r))],
              tq_toleranceBps = toleranceBps, tq_quotedAtMs = qr_nowStamp reads, tq_blockNumber = headBlock\<rparr>))"

text \<open>A contract quote that reverts counts as zeros in the solver.\<close>

definition issueOrZero :: "QuoteReads \<Rightarrow> issue_fn" where
  "issueOrZero reads k amountRaw = (case qr_issueRaw reads k amountRaw of
     None \<Rightarrow> \<lparr>iq_base = 0, iq_fee = 0, iq_total = 0\<rparr> | Some q \<Rightarrow> q)"

definition quoteBuyBySpendOnReport ::
  "format_units \<Rightarrow> QuoteWorld \<Rightarrow> string \<Rightarrow> AssetId \<Rightarrow> number \<Rightarrow> int \<Rightarrow> GpuRegistration \<Rightarrow> int \<Rightarrow>
   nat \<Rightarrow> CurrentAtt \<Rightarrow> QuoteOutcome" where
  "quoteBuyBySpendOnReport fu w gpuId asset gusd toleranceBps reg spendRaw j att =
     (let reads = qw_reads w j in
      case qr_blockNumber reads of None \<Rightarrow> Rejects | Some headBlock \<Rightarrow>
      if \<not> gr_poolRegistered reg then
        if \<not> gr_issuanceEnabled reg then NullQuote
        else (case issueUnitsForSpend spendRaw (rp_price (sr_report (ca_signed att))) (gr_issuanceFeeBps reg) (issueOrZero reads) of
            None \<Rightarrow> NullQuote
          | Some solved \<Rightarrow>
              let sz = formatGpuUnits fu (so_units solved); notional = perMillion (iq_total (so_quote solved)) in
              Quoted \<lparr>tq_asset = asset, tq_side = BuySide, tq_size = sz, tq_price = fdiv notional sz,
                tq_notional = notional, tq_maxPaid = gusd, tq_minOut = 0, tq_minSize = sz,
                tq_legs = [IssuanceLeg sz notional (perMillion (iq_fee (so_quote solved)))],
                tq_toleranceBps = toleranceBps, tq_quotedAtMs = qr_nowStamp reads, tq_blockNumber = headBlock\<rparr>)
      else (case lensOf w reads gpuId reg att QuoteBuy spendRaw of
          LensRejects \<Rightarrow> Rejects
        | LensFails reason capacity \<Rightarrow> Unavailable reason capacity
        | LensFills r \<Rightarrow>
            let minSizeRaw = floorToLedgerGrain (applyBps (gpuOut r) toleranceBps Down) in
            if gusdIn r \<noteq> spendRaw \<or> gpuOut r = 0 \<or> minSizeRaw = 0 then NullQuote
            else
              let sz = formatGpuUnits fu (gpuOut r); notional = perMillion (gusdIn r) in
              Quoted \<lparr>tq_asset = asset, tq_side = BuySide, tq_size = sz, tq_price = fdiv notional sz,
                tq_notional = notional, tq_maxPaid = gusd, tq_minOut = 0,
                tq_minSize = formatGpuUnits fu minSizeRaw, tq_legs = buyLegs fu r,
                tq_toleranceBps = toleranceBps, tq_quotedAtMs = qr_nowStamp reads, tq_blockNumber = headBlock\<rparr>))"

definition quoteSellByProceedsOnReport ::
  "format_units \<Rightarrow> QuoteWorld \<Rightarrow> string \<Rightarrow> AssetId \<Rightarrow> int \<Rightarrow> GpuRegistration \<Rightarrow> int \<Rightarrow> nat \<Rightarrow> CurrentAtt \<Rightarrow> QuoteOutcome" where
  "quoteSellByProceedsOnReport fu w gpuId asset toleranceBps reg proceedsRaw j att =
     (let reads = qw_reads w j in
      case qr_blockNumber reads of None \<Rightarrow> Rejects | Some headBlock \<Rightarrow>
      (case lensOf w reads gpuId reg att QuoteSellExactOut proceedsRaw of
          LensRejects \<Rightarrow> Rejects
        | LensFails reason capacity \<Rightarrow> Unavailable reason capacity
        | LensFills r \<Rightarrow>
            if gusdOut r \<noteq> proceedsRaw \<or> gpuIn r < GPU_LEDGER_GRAIN then NullQuote
            else
              let sz = formatGpuUnits fu (gpuIn r); notional = perMillion (gusdOut r) in
              Quoted \<lparr>tq_asset = asset, tq_side = SellSide, tq_size = sz, tq_price = fdiv notional sz,
                tq_notional = notional, tq_maxPaid = 0, tq_minOut = perMillion (applyBps (gusdOut r) toleranceBps Down),
                tq_minSize = 0,
                tq_legs = [PoolLeg sz (perMillion (gusdOut r)) (perMillion (polFeeGusd r + hookFeeGusd r))],
                tq_toleranceBps = toleranceBps, tq_quotedAtMs = qr_nowStamp reads, tq_blockNumber = headBlock\<rparr>))"

text \<open>What the four entry points share: the id, the registration and the raw amount, each of which may
  end the quote before a report is fetched.\<close>

definition quotePrelude ::
  "(string \<Rightarrow> string) \<Rightarrow> QuoteWorld \<Rightarrow> AssetId \<Rightarrow> bool \<Rightarrow> int option \<Rightarrow>
   (string \<Rightarrow> GpuRegistration \<Rightarrow> int \<Rightarrow> nat \<times> QuoteOutcome) \<Rightarrow> nat \<times> QuoteOutcome" where
  "quotePrelude hexOf w asset needsPool amountRaw body = (case gpuIdForAsset hexOf asset of
     None \<Rightarrow> (0, NullQuote)
   | Some gpuId \<Rightarrow> (case qw_registration w gpuId of
       None \<Rightarrow> (0, Rejects)
     | Some None \<Rightarrow> (0, NullQuote)
     | Some (Some reg) \<Rightarrow>
         if needsPool \<and> \<not> gr_poolRegistered reg then (0, NullQuote)
         else (case amountRaw of
             None \<Rightarrow> (0, Rejects)
           | Some raw \<Rightarrow> if raw = 0 \<or> raw > UINT128_MAX then (0, NullQuote) else body gpuId reg raw)))"

definition quoteBuy :: "format_units \<Rightarrow> parse_units \<Rightarrow> (string \<Rightarrow> string) \<Rightarrow> QuoteWorld \<Rightarrow> AssetId \<Rightarrow> number \<Rightarrow> int \<Rightarrow> nat \<times> QuoteOutcome" where
  "quoteBuy fu pu hexOf w asset sz toleranceBps =
     (if sz \<le> 0 then (0, NullQuote) else quotePrelude hexOf w asset False (parseGpuUnits pu sz)
        (\<lambda>gpuId reg sizeRaw. withLiveReport w (quoteBuyOnReport fu pu w gpuId asset sz toleranceBps reg sizeRaw)))"

definition quoteSell :: "parse_units \<Rightarrow> (string \<Rightarrow> string) \<Rightarrow> QuoteWorld \<Rightarrow> AssetId \<Rightarrow> number \<Rightarrow> int \<Rightarrow> nat \<times> QuoteOutcome" where
  "quoteSell pu hexOf w asset sz toleranceBps =
     (if sz \<le> 0 then (0, NullQuote) else quotePrelude hexOf w asset True (parseGpuUnits pu sz)
        (\<lambda>gpuId reg sizeRaw. withLiveReport w (quoteSellOnReport w gpuId asset sz toleranceBps reg sizeRaw)))"

definition quoteBuyBySpend :: "format_units \<Rightarrow> parse_units \<Rightarrow> (string \<Rightarrow> string) \<Rightarrow> QuoteWorld \<Rightarrow> AssetId \<Rightarrow> number \<Rightarrow> int \<Rightarrow> nat \<times> QuoteOutcome" where
  "quoteBuyBySpend fu pu hexOf w asset gusd toleranceBps =
     (if gusd \<le> 0 then (0, NullQuote) else quotePrelude hexOf w asset False (parseGusd pu gusd)
        (\<lambda>gpuId reg spendRaw. withLiveReport w (quoteBuyBySpendOnReport fu w gpuId asset gusd toleranceBps reg spendRaw)))"

definition quoteSellByProceeds :: "format_units \<Rightarrow> parse_units \<Rightarrow> (string \<Rightarrow> string) \<Rightarrow> QuoteWorld \<Rightarrow> AssetId \<Rightarrow> number \<Rightarrow> int \<Rightarrow> nat \<times> QuoteOutcome" where
  "quoteSellByProceeds fu pu hexOf w asset gusd toleranceBps =
     (if gusd \<le> 0 then (0, NullQuote) else quotePrelude hexOf w asset True (parseGusd pu gusd)
        (\<lambda>gpuId reg proceedsRaw. withLiveReport w (quoteSellByProceedsOnReport fu w gpuId asset toleranceBps reg proceedsRaw)))"

definition quoteAssetDetailed :: "format_units \<Rightarrow> parse_units \<Rightarrow> (string \<Rightarrow> string) \<Rightarrow> QuoteWorld \<Rightarrow> TradeRequest \<Rightarrow> nat \<times> QuoteOutcome" where
  "quoteAssetDetailed fu pu hexOf w request =
     (let toleranceBps = (case tr_toleranceBps request of None \<Rightarrow> DEFAULT_TOLERANCE_BPS | Some t \<Rightarrow> t) in
      case tr_basis request of
        GusdBasis gusd \<Rightarrow>
          if tr_side request = BuySide then quoteBuyBySpend fu pu hexOf w (tr_asset request) gusd toleranceBps
          else quoteSellByProceeds fu pu hexOf w (tr_asset request) gusd toleranceBps
      | UnitsBasis sz \<Rightarrow>
          if tr_side request = BuySide then quoteBuy fu pu hexOf w (tr_asset request) sz toleranceBps
          else quoteSell pu hexOf w (tr_asset request) sz toleranceBps)"

definition quoteAsset :: "format_units \<Rightarrow> parse_units \<Rightarrow> (string \<Rightarrow> string) \<Rightarrow> QuoteWorld \<Rightarrow> TradeRequest \<Rightarrow> QuoteOutcome" where
  "quoteAsset fu pu hexOf w request = (case snd (quoteAssetDetailed fu pu hexOf w request) of
     Unavailable _ _ \<Rightarrow> NullQuote | outcome \<Rightarrow> outcome)"

subsection \<open>Availability\<close>

definition AVAILABILITY_TTL_MS :: int where "AVAILABILITY_TTL_MS = 15000"

record TradeAvailability =
  ta_issuanceEnabled :: bool
  ta_poolRegistered :: bool
  ta_poolFeeBps :: number
  ta_hookFeeBps :: int
  ta_issuanceFeeBps :: int
  ta_oraclePrice :: "number option"

type_synonym availability_cache = "(AssetId, int \<times> TradeAvailability option) js_map"

text \<open>The value of a read that throws leaves the cache as it was (\<open>None\<close>). \<open>now\<close> and \<open>later\<close> are the two
  readings of the clock.\<close>

definition describeAsset ::
  "(string \<Rightarrow> string) \<Rightarrow> QuoteWorld \<Rightarrow> int option \<Rightarrow> int \<Rightarrow> int \<Rightarrow> AssetId \<Rightarrow> availability_cache \<Rightarrow>
   TradeAvailability option option \<times> availability_cache" where
  "describeAsset hexOf w hookFee now later asset cache =
     (case (case js_get cache asset of Some (cachedAt, v) \<Rightarrow> if now - cachedAt < AVAILABILITY_TTL_MS then Some v else None | None \<Rightarrow> None) of
        Some v \<Rightarrow> (Some v, cache)
      | None \<Rightarrow> (case gpuIdForAsset hexOf asset of
          None \<Rightarrow> (Some None, cache)
        | Some gpuId \<Rightarrow> (case qw_registration w gpuId of
            None \<Rightarrow> (None, cache)
          | Some None \<Rightarrow> (Some None, js_set asset (later, None) cache)
          | Some (Some reg) \<Rightarrow> (case hookFee of
              None \<Rightarrow> (None, cache)
            | Some hf \<Rightarrow>
                let v = Some \<lparr>ta_issuanceEnabled = gr_issuanceEnabled reg, ta_poolRegistered = gr_poolRegistered reg,
                  ta_poolFeeBps = fdiv (fl (of_int (gr_poolFee reg))) 100, ta_hookFeeBps = hf,
                  ta_issuanceFeeBps = gr_issuanceFeeBps reg,
                  ta_oraclePrice = (case currentAttestation w 0 of
                     Some att \<Rightarrow> if rp_price (sr_report (ca_signed att)) > 0
                       then Some (fdiv (fl (of_int (rp_price (sr_report (ca_signed att))))) 10000) else None
                   | None \<Rightarrow> None)\<rparr>
                in (Some v, js_set asset (later, v) cache)))))"

end
