(* ===== verification/TradeQuoteFacts.thy ===== *)
theory TradeQuoteFacts
  imports TradeQuotes
begin

text \<open>What a quote promises: how often it fetches a report, when a refusal may name a capacity, and the
  limits a money-first order signs.\<close>

subsection \<open>Fetches\<close>

lemma bridge_fetches:
  "bridge n w k = (k', r) \<Longrightarrow> k < k' \<and> k' \<le> k + n + 1 \<and>
   (case r of None \<Rightarrow> k' = k + n + 1 \<and> (\<forall>i. k \<le> i \<and> i < k' \<longrightarrow> currentAttestation w i = None)
    | Some att \<Rightarrow> currentAttestation w (k' - 1) = Some att)"
proof (induction n w k rule: bridge.induct)
  case (1 w k)
  then show ?case by (auto simp: less_Suc_eq le_less split: option.splits)
next
  case (2 n w k)
  show ?case
  proof (cases "currentAttestation w k")
    case None
    then have "bridge n w (Suc k) = (k', r)" using 2(2) by simp
    from 2(1) [OF None this] have *: "Suc k < k' \<and> k' \<le> Suc k + n + 1"
      "case r of None \<Rightarrow> k' = Suc k + n + 1 \<and> (\<forall>i. Suc k \<le> i \<and> i < k' \<longrightarrow> currentAttestation w i = None)
       | Some att \<Rightarrow> currentAttestation w (k' - 1) = Some att" by simp_all
    have "currentAttestation w i = None" if "r = None" "k \<le> i" "i < k'" for i
      using that None *(2) by (cases "i = k") auto
    then show ?thesis using * by (auto split: option.splits)
  next
    case (Some att)
    then have "k' = Suc k" "r = Some att" using 2(2) by simp_all
    then show ?thesis using Some by simp
  qed
qed

lemma runLive_outcome:
  "runLive heals w work j k att = (k', out) \<Longrightarrow> i0 < k \<Longrightarrow> currentAttestation w i0 = Some att \<Longrightarrow>
   k \<le> k' \<and> k' \<le> k + 3 * heals \<and>
   (\<exists>i j' att'. i < k' \<and> j \<le> j' \<and> j' \<le> j + heals \<and> currentAttestation w i = Some att' \<and> out = work j' att')"
proof (induction heals arbitrary: j k att i0)
  case 0
  then show ?case by auto
next
  case (Suc heals)
  show ?case
  proof (cases "\<exists>reason capacity k1 fresh. work j att = Unavailable reason capacity \<and>
      reportLapsed att (qr_nowHeal (qw_reads w j)) \<and> currentAttestationLive w k = (k1, Some fresh) \<and>
      ca_reportHash fresh \<noteq> ca_reportHash att")
    case True
    then obtain reason capacity k1 fresh where h: "work j att = Unavailable reason capacity"
      "reportLapsed att (qr_nowHeal (qw_reads w j))" "currentAttestationLive w k = (k1, Some fresh)"
      "ca_reportHash fresh \<noteq> ca_reportHash att" by blast
    have b: "k < k1" "k1 \<le> k + 3" "currentAttestation w (k1 - 1) = Some fresh"
      using bridge_fetches [of 2 w k k1 "Some fresh"] h(3)
      by (simp_all add: currentAttestationLive_def REPORT_BRIDGE_ATTEMPTS_def)
    have "runLive heals w work (Suc j) k1 fresh = (k', out)" using Suc.prems(1) h by simp
    from Suc.IH [OF this _ b(3)] b show ?thesis by (auto intro: exI le_trans) (metis Suc_leD add_Suc_shift le_SucI)
  next
    case False
    have "\<exists>k1. k \<le> k1 \<and> k1 \<le> k + 3 \<and> (k', out) = (k1, work j att)"
    proof (cases "currentAttestationLive w k")
      case (Pair k1 r)
      have "k < k1 \<and> k1 \<le> k + 3"
        using bridge_fetches [of 2 w k k1 r] Pair by (simp add: currentAttestationLive_def REPORT_BRIDGE_ATTEMPTS_def)
      then show ?thesis
        using Suc.prems(1) False Pair by (cases "work j att"; cases r) (auto split: if_splits)
    qed
    then have k': "k \<le> k'" "k' \<le> k + 3" "out = work j att" by auto
    have "i0 < k'" using Suc.prems(2) k'(1) by simp
    then have "i0 < k' \<and> j \<le> j \<and> j \<le> j + Suc heals \<and> currentAttestation w i0 = Some att \<and> out = work j att"
      using Suc.prems(3) k'(3) by simp
    then show ?thesis using k'(1,2) by (intro conjI exI) auto
  qed
qed

lemma live_outcome:
  assumes "withLiveReport w work = (k, out)"
  shows "k \<le> 6 \<and> (out = Unavailable StaleOracle None \<and> (\<forall>i < 3. currentAttestation w i = None) \<or>
    (\<exists>i j att. i < k \<and> j \<le> 1 \<and> currentAttestation w i = Some att \<and> out = work j att))"
proof (cases "currentAttestationLive w 0")
  case (Pair k0 r)
  have "bridge 2 w 0 = (k0, r)" using Pair by (simp add: currentAttestationLive_def REPORT_BRIDGE_ATTEMPTS_def)
  from bridge_fetches [OF this]
  have b: "0 < k0" "k0 \<le> 3" "r = None \<Longrightarrow> k0 = 3 \<and> (\<forall>i < k0. currentAttestation w i = None)"
    "\<And>att. r = Some att \<Longrightarrow> currentAttestation w (k0 - 1) = Some att" by auto
  show ?thesis
  proof (cases r)
    case None
    then show ?thesis using assms Pair b by (auto simp: withLiveReport_def)
  next
    case (Some att)
    then have "runLive 1 w work 0 k0 att = (k, out)" using assms Pair by (simp add: withLiveReport_def)
    from runLive_outcome [OF this, of "k0 - 1"] b Some
    have *: "k \<le> k0 + 3" "\<exists>i j' att'. i < k \<and> j' \<le> 1 \<and> currentAttestation w i = Some att' \<and> out = work j' att'" by auto
    then show ?thesis using b(2) by auto
  qed
qed

subsection \<open>Refusals\<close>

lemma mirror_guard:
  "\<not> oracleGuardOk s n \<Longrightarrow> mirrorOf m s a n = Some (Rejected OracleStale None)"
  by (cases m) (simp_all add: quoteBuyExactOutMirror_def quoteBuyMirror_def quoteSellMirror_def quoteSellExactOutMirror_def)

text \<open>The method and the raw amount a request is quoted with.\<close>

definition methodOf :: "TradeRequest \<Rightarrow> QuoteMethod" where
  "methodOf request = (case tr_basis request of
     UnitsBasis _ \<Rightarrow> if tr_side request = BuySide then QuoteBuyExactOut else QuoteSell
   | GusdBasis _ \<Rightarrow> if tr_side request = BuySide then QuoteBuy else QuoteSellExactOut)"

definition amountOf :: "parse_units \<Rightarrow> TradeRequest \<Rightarrow> int option" where
  "amountOf pu request = (case tr_basis request of
     UnitsBasis sz \<Rightarrow> parseGpuUnits pu sz | GusdBasis gusd \<Rightarrow> parseGusd pu gusd)"

text \<open>What each reason says of the reads of the run it comes from. A side is said to be short only of a
  market whose state was read, whose oracle guard held and whose mirror rejected this very amount for it,
  and the capacity named is below the amount.\<close>

definition short_of :: "MirrorRejection \<Rightarrow> HookMarketState option \<Rightarrow> int \<Rightarrow> QuoteMethod \<Rightarrow> int \<Rightarrow> int option \<Rightarrow> bool" where
  "short_of why state nowSec m raw capacity \<longleftrightarrow>
     (\<exists>s c. state = Some s \<and> oracleGuardOk s nowSec \<and> capacity = Some c \<and> c < raw \<and>
        mirrorOf m s raw nowSec = Some (Rejected why capacity))"

definition refusal_ok ::
  "QuoteWorld \<Rightarrow> string \<Rightarrow> GpuRegistration \<Rightarrow> QuoteMethod \<Rightarrow> int \<Rightarrow> nat \<Rightarrow> CurrentAtt \<Rightarrow> QuoteReason \<Rightarrow> int option \<Rightarrow> bool" where
  "refusal_ok w gpuId reg m raw j att reason capacity =
     (let reads = qw_reads w j; nowSec = quoteSeconds (qr_nowQuote reads);
          state = qr_hookState reads gpuId (ca_signed att); held = of_int nowSec < rp_validUntil (sr_report (ca_signed att));
          reverted = (qr_lens reads m (poolKeyOf w reg) raw (ca_updateData att) = None) in
      case reason of
        NoAsk \<Rightarrow> m \<in> {QuoteBuy, QuoteBuyExactOut} \<and> short_of NoAskCapacity state nowSec m raw capacity
      | NoBid \<Rightarrow> m \<in> {QuoteSell, QuoteSellExactOut} \<and> short_of NoBidCapacity state nowSec m raw capacity
      | QuoteTimeout \<Rightarrow> capacity = None \<and> state = None \<and> reverted \<and> held
      | StaleOracle \<Rightarrow> capacity = None \<and>
          ((\<exists>s. state = Some s \<and> \<not> oracleGuardOk s nowSec) \<or> state = None \<and> reverted \<and> \<not> held \<or>
           m = QuoteBuyExactOut \<and> \<not> gr_poolRegistered reg \<and> qr_quoteIssue reads gpuId raw (ca_updateData att) = None)
      | NoQuoteReason \<Rightarrow> False)"

lemma mirror_rejects:
  assumes "mirrorOf m s raw n = Some (Rejected why capacity)" "0 < raw" "oracleGuardOk s n"
  shows "(\<exists>c. capacity = Some c \<and> c < raw) \<and>
    (why = NoAskCapacity \<and> m \<in> {QuoteBuy, QuoteBuyExactOut} \<or> why = NoBidCapacity \<and> m \<in> {QuoteSell, QuoteSellExactOut})"
proof (cases m)
  case QuoteBuyExactOut
  then show ?thesis
    using assms by (auto simp: quoteBuyExactOutMirror_def quoteIssue_def GPU_DUST_def Let_def split: Option.bind_splits if_splits)
next
  case QuoteBuy
  then show ?thesis using assms by (auto simp: quoteBuyMirror_def Let_def split: Option.bind_splits if_splits)
next
  case QuoteSell
  then show ?thesis
    using assms by (auto simp: quoteSellMirror_def GPU_DUST_def Let_def split: Option.bind_splits if_splits)
next
  case QuoteSellExactOut
  show ?thesis
  proof (cases "supplyForGrossBudget (min (bidInventoryGusd s) (polCapLeft s)) (polFeeBps s) (hookFeeBps s)")
    case None
    then show ?thesis using assms QuoteSellExactOut by (simp add: quoteSellExactOutMirror_def Let_def)
  next
    case c: (Some c)
    show ?thesis
      using assms QuoteSellExactOut
      by (auto simp: quoteSellExactOutMirror_def GUSD_DUST_def Let_def c split: Option.bind_splits if_splits)
  qed
qed

lemma fromMirror_refusal:
  assumes "fromMirror (mirrorOf m s raw n) = LensFails reason capacity"
  shows "\<exists>why. mirrorOf m s raw n = Some (Rejected why capacity) \<and> reason = reasonOf why"
  using assms by (auto simp: fromMirror_def split: option.splits MirrorResult.splits)

lemma mirrored_refusal:
  assumes "fromMirror (mirrorOf m s raw n) = LensFails reason capacity" "0 < raw"
    and "n = quoteSeconds (qr_nowQuote (qw_reads w j))" "qr_hookState (qw_reads w j) g (ca_signed att) = Some s"
  shows "refusal_ok w g reg m raw j att reason capacity"
proof -
  obtain why where why: "mirrorOf m s raw n = Some (Rejected why capacity)" "reason = reasonOf why"
    using fromMirror_refusal [OF assms(1)] by blast
  show ?thesis
  proof (cases "oracleGuardOk s n")
    case True
    have "short_of why (Some s) n m raw capacity"
      using mirror_rejects [OF why(1) assms(2) True] why(1) True by (auto simp: short_of_def)
    then show ?thesis
      using mirror_rejects [OF why(1) assms(2) True] why(2) assms(3,4) by (auto simp: refusal_ok_def Let_def)
  next
    case False
    then have "why = OracleStale" "capacity = None" using why(1) mirror_guard [OF False, of m raw] by auto
    then show ?thesis using False why(2) assms(3,4) by (simp add: refusal_ok_def Let_def)
  qed
qed

lemma lens_refusal:
  assumes "lensOf w (qw_reads w j) g reg att m raw = LensFails reason capacity" "0 < raw"
  shows "refusal_ok w g reg m raw j att reason capacity"
proof (cases "qr_hookState (qw_reads w j) g (ca_signed att)")
  case None
  then show ?thesis
    using assms by (auto simp: lensOf_def mirrorBatch_def runGpuQuote_def Let_def refusal_ok_def not_less split: option.splits if_splits)
next
  case (Some s)
  let ?n = "quoteSeconds (qr_nowQuote (qw_reads w j))"
  have "reason = StaleOracle \<and> capacity = None \<and> \<not> oracleGuardOk s ?n \<or>
      fromMirror (mirrorOf m s raw ?n) = LensFails reason capacity"
    using assms(1) Some by (auto simp: lensOf_def mirrorBatch_def runGpuQuote_def Let_def split: option.splits if_splits)
  then show ?thesis
    using mirrored_refusal [OF _ assms(2) refl Some] Some by (auto simp: refusal_ok_def Let_def)
qed

lemma body_refusals:
  assumes "0 < raw"
  shows
  "quoteBuyOnReport fu pu w g asset sz tol reg raw j att = Unavailable reason capacity \<Longrightarrow>
     refusal_ok w g reg QuoteBuyExactOut raw j att reason capacity"
  "quoteSellOnReport w g asset sz tol reg raw j att = Unavailable reason capacity \<Longrightarrow>
     refusal_ok w g reg QuoteSell raw j att reason capacity"
  "quoteBuyBySpendOnReport fu w g asset sz tol reg raw j att = Unavailable reason capacity \<Longrightarrow>
     refusal_ok w g reg QuoteBuy raw j att reason capacity"
  "quoteSellByProceedsOnReport fu w g asset tol reg raw j att = Unavailable reason capacity \<Longrightarrow>
     refusal_ok w g reg QuoteSellExactOut raw j att reason capacity"
  using assms
  by (auto simp: quoteBuyOnReport_def quoteSellOnReport_def quoteBuyBySpendOnReport_def quoteSellByProceedsOnReport_def Let_def
      refusal_ok_def [of _ _ _ _ _ _ _ StaleOracle] intro: lens_refusal split: option.splits LensOutcome.splits if_splits)

lemma prelude_outcome:
  assumes "quotePrelude hexOf w asset needsPool amountRaw body = (k, out)"
    "\<And>g reg raw. gpuIdForAsset hexOf asset = Some g \<Longrightarrow> amountRaw = Some raw \<Longrightarrow> body g reg raw = (k, out) \<Longrightarrow>
       qw_registration w g = Some (Some reg) \<Longrightarrow> raw \<noteq> 0 \<Longrightarrow> P"
    "k = 0 \<Longrightarrow> out \<in> {NullQuote, Rejects} \<Longrightarrow> P"
  shows P
  using assms by (auto simp: quotePrelude_def split: option.splits if_splits)

lemmas quote_entries = quoteAssetDetailed_def quoteBuy_def quoteSell_def quoteBuyBySpend_def quoteSellByProceeds_def

text \<open>Every outcome of a quote: none and no fetch, or the body of its method on a report.\<close>

lemma quote_outcome:
  assumes "quoteAssetDetailed fu pu hexOf w request = (k, out)" "\<forall>t d n. pu t d = Some n \<longrightarrow> 0 \<le> n"
  shows "k = 0 \<and> out \<in> {NullQuote, Rejects} \<or>
    (\<exists>g reg raw work. gpuIdForAsset hexOf (tr_asset request) = Some g \<and> qw_registration w g = Some (Some reg) \<and>
      amountOf pu request = Some raw \<and> withLiveReport w work = (k, out) \<and>
      (\<forall>j att reason capacity. work j att = Unavailable reason capacity \<longrightarrow>
         refusal_ok w g reg (methodOf request) raw j att reason capacity))"
  (is "?no \<or> ?body")
proof -
  have pos: "0 < raw" if "parseScaled pu a d = Some raw" "raw \<noteq> 0" for a d raw
  proof -
    have "0 \<le> raw" using that(1) assms(2) by (auto simp: parseScaled_def split: if_splits)
    then show ?thesis using that(2) by simp
  qed
  define P where "P \<longleftrightarrow> ?no \<or> ?body"
  have no: P if "k = 0" "out \<in> {NullQuote, Rejects}" using that by (simp add: P_def)
  have body: P if "withLiveReport w work = (k, out)" "gpuIdForAsset hexOf (tr_asset request) = Some g"
    "qw_registration w g = Some (Some reg)" "amountOf pu request = Some raw"
    "\<And>j att reason capacity. work j att = Unavailable reason capacity \<Longrightarrow>
       refusal_ok w g reg (methodOf request) raw j att reason capacity" for work g reg raw
    using that unfolding P_def by blast
  have P
  proof (cases "tr_basis request"; cases "tr_side request = BuySide")
    fix sz assume b: "tr_basis request = UnitsBasis sz" "tr_side request = BuySide"
    then have *: "amountOf pu request = parseGpuUnits pu sz" "methodOf request = QuoteBuyExactOut"
      by (simp_all add: amountOf_def methodOf_def)
    show P
      using assms(1) b
      by (auto simp: quote_entries Let_def * [unfolded parseGpuUnits_def] parseGpuUnits_def split: if_splits
          intro: no elim!: prelude_outcome body body_refusals(1) [OF pos])
  next
    fix sz assume b: "tr_basis request = UnitsBasis sz" "tr_side request \<noteq> BuySide"
    then have *: "amountOf pu request = parseGpuUnits pu sz" "methodOf request = QuoteSell"
      by (simp_all add: amountOf_def methodOf_def)
    show P
      using assms(1) b
      by (auto simp: quote_entries Let_def * [unfolded parseGpuUnits_def] parseGpuUnits_def split: if_splits
          intro: no elim!: prelude_outcome body body_refusals(2) [OF pos])
  next
    fix gusd assume b: "tr_basis request = GusdBasis gusd" "tr_side request = BuySide"
    then have *: "amountOf pu request = parseGusd pu gusd" "methodOf request = QuoteBuy"
      by (simp_all add: amountOf_def methodOf_def)
    show P
      using assms(1) b
      by (auto simp: quote_entries Let_def * [unfolded parseGusd_def] parseGusd_def split: if_splits
          intro: no elim!: prelude_outcome body body_refusals(3) [OF pos])
  next
    fix gusd assume b: "tr_basis request = GusdBasis gusd" "tr_side request \<noteq> BuySide"
    then have *: "amountOf pu request = parseGusd pu gusd" "methodOf request = QuoteSellExactOut"
      by (simp_all add: amountOf_def methodOf_def)
    show P
      using assms(1) b
      by (auto simp: quote_entries Let_def * [unfolded parseGusd_def] parseGusd_def split: if_splits
          intro: no elim!: prelude_outcome body body_refusals(4) [OF pos])
  qed
  then show ?thesis by (simp only: P_def)
qed

text \<open>C37. Every quote, whatever its outcome, fetches at most six reports, and a refusal is never vague: it
  is the stale oracle without a capacity after three fetches that found no current report, or it comes from
  the first or the second run of the quote on a current report and says what the reads of that run showed.
  NoAsk is said of a buy and NoBid of a sale, and then the market state was read, its own oracle guard held,
  and the mirror rejected this amount for want of that side with the capacity the refusal names, which is
  below the amount. The stale oracle names no capacity and is said when the guard failed, when neither the
  state nor the lens answered and the report had expired, or when issuance alone trades and its quote
  reverted; a timeout only when neither answered and the report still held.\<close>
theorem refusals_name_their_reads:
  assumes "quoteAssetDetailed fu pu hexOf w request = (k, out)" "\<forall>t d n. pu t d = Some n \<longrightarrow> 0 \<le> n"
  shows "k \<le> 6 \<and> (case out of
      Unavailable reason capacity \<Rightarrow>
        reason = StaleOracle \<and> capacity = None \<and> (\<forall>i < 3. currentAttestation w i = None) \<or>
        (\<exists>i j g reg raw att. i < k \<and> j \<le> 1 \<and> currentAttestation w i = Some att \<and>
           gpuIdForAsset hexOf (tr_asset request) = Some g \<and> qw_registration w g = Some (Some reg) \<and>
           amountOf pu request = Some raw \<and>
           refusal_ok w g reg (methodOf request) raw j att reason capacity)
    | _ \<Rightarrow> True)"
proof -
  consider (none) "k = 0" "out \<in> {NullQuote, Rejects}"
    | (run) g reg raw work where "gpuIdForAsset hexOf (tr_asset request) = Some g"
        "qw_registration w g = Some (Some reg)" "amountOf pu request = Some raw"
        "withLiveReport w work = (k, out)"
        "\<And>j att reason capacity. work j att = Unavailable reason capacity \<Longrightarrow>
           refusal_ok w g reg (methodOf request) raw j att reason capacity"
    using quote_outcome [OF assms] by blast
  then show ?thesis
  proof cases
    case none
    then show ?thesis by auto
  next
    case run
    note live = live_outcome [OF run(4)]
    show ?thesis
    proof (cases out)
      case (Unavailable reason capacity)
      then have "reason = StaleOracle \<and> capacity = None \<and> (\<forall>i < 3. currentAttestation w i = None) \<or>
          (\<exists>i j att. i < k \<and> j \<le> 1 \<and> currentAttestation w i = Some att \<and> work j att = Unavailable reason capacity)"
        using live by (metis QuoteOutcome.inject(1))
      then show ?thesis
      proof (elim disjE exE conjE)
        assume "reason = StaleOracle" "capacity = None" "\<forall>i < 3. currentAttestation w i = None"
        then show ?thesis using live Unavailable by simp
      next
        fix i j att
        assume *: "i < k" "j \<le> 1" "currentAttestation w i = Some att" "work j att = Unavailable reason capacity"
        from run(5) [OF *(4)] *(1-3) run(1-3) show ?thesis
          using live Unavailable by (simp del: One_nat_def) blast
      qed
    qed (use live in auto)
  qed
qed

subsection \<open>Money-first buys\<close>

text \<open>What the contracts promise of the answers: unsigned amounts and bounded fees.\<close>

definition honest_reads :: "QuoteReads \<Rightarrow> bool" where
  "honest_reads reads \<longleftrightarrow>
     (\<forall>gpuId signed s. qr_hookState reads gpuId signed = Some s \<longrightarrow> hook_ok s) \<and>
     (\<forall>m poolKey a u r. qr_lens reads m poolKey a u = Some r \<longrightarrow> 0 \<le> gpuOut r)"

lemma mirrored_buy_nonneg:
  assumes "hook_ok s" "0 \<le> spend" "fromMirror (quoteBuyMirror s spend n) = LensFills r"
  shows "0 \<le> gpuOut r"
proof -
  obtain q where "quoteBuyMirror s spend n = Some (Filled q)" "r = MirrorQuote.extend q \<lparr>nativeGpu = 0, endTick = 0\<rparr>"
    using assms(3) by (auto simp: fromMirror_def split: option.splits MirrorResult.splits)
  moreover from this have "0 < gpuOut q" using quoteBuyMirror_shape [OF assms(1,2)] by blast
  ultimately show ?thesis by (simp add: MirrorQuote.extend_def)
qed

lemma lens_buy_nonneg:
  assumes "honest_reads (qw_reads w j)" "0 \<le> spend" "lensOf w (qw_reads w j) g reg att QuoteBuy spend = LensFills r"
  shows "0 \<le> gpuOut r"
proof (cases "qr_hookState (qw_reads w j) g (ca_signed att)")
  case None
  then show ?thesis
    using assms by (auto simp: lensOf_def mirrorBatch_def runGpuQuote_def Let_def honest_reads_def split: option.splits if_splits)
next
  case (Some s)
  then have "hook_ok s" using assms(1) by (auto simp: honest_reads_def)
  then show ?thesis
    using assms Some mirrored_buy_nonneg [of s spend]
    by (auto simp: lensOf_def mirrorBatch_def runGpuQuote_def Let_def honest_reads_def split: option.splits if_splits)
qed

text \<open>A minimum of units at a tolerance: whole grains, at most one grain below the exact figure.\<close>

definition minimum_of :: "int \<Rightarrow> int \<Rightarrow> int \<Rightarrow> bool" where
  "minimum_of bps u m \<longleftrightarrow> GPU_LEDGER_GRAIN dvd m \<and> 0 < m \<and> m * 10000 \<le> u * (10000 - bps) \<and>
     u * (10000 - bps) < (m + GPU_LEDGER_GRAIN) * 10000"

lemma minimum_floor:
  assumes "0 \<le> u" "bps \<le> 10000" "floorToLedgerGrain (applyBps u bps Down) \<noteq> 0"
  shows "minimum_of bps u (floorToLedgerGrain (applyBps u bps Down))"
proof -
  define v where "v = u * (10000 - bps)"
  define t where "t = v div 10000"
  have v: "0 \<le> v" using assms(1,2) by (simp add: v_def)
  have t: "applyBps u bps Down = t" "0 \<le> t" "t * 10000 \<le> v" "v < (t + 1) * 10000"
    using v by (simp_all add: applyBps_def t_def v_def [symmetric] sdiv_pos)
  define m where "m = t div GPU_LEDGER_GRAIN * GPU_LEDGER_GRAIN"
  have m: "floorToLedgerGrain t = m" using t(2) grain_pos by (simp add: floorToLedgerGrain_def m_def sdiv_pos)
  have "0 \<le> m" using t(2) grain_pos by (simp add: m_def pos_imp_zdiv_nonneg_iff)
  moreover have "m \<noteq> 0" using assms(3) t(1) m by simp
  moreover have "m \<le> t" "t + 1 \<le> m + GPU_LEDGER_GRAIN"
    by (simp_all add: m_def GPU_LEDGER_GRAIN_def)
  moreover have "GPU_LEDGER_GRAIN dvd m" by (simp add: m_def)
  ultimately have "minimum_of bps u m" using t(3,4) by (simp add: minimum_of_def v_def [symmetric])
  then show ?thesis using t(1) m by simp
qed

definition spend_limits :: "format_units \<Rightarrow> number \<Rightarrow> int \<Rightarrow> int \<Rightarrow> QuoteOutcome \<Rightarrow> bool" where
  "spend_limits fu gusd bps raw out = (case out of
     Quoted q \<Rightarrow> tq_maxPaid q = gusd \<and> tq_minOut q = 0 \<and>
       (\<exists>u m p. tq_size q = formatGpuUnits fu u \<and> tq_minSize q = formatGpuUnits fu m \<and>
          tq_notional q = perMillion p \<and>
          (p = raw \<and> minimum_of bps u m \<or> p \<le> raw \<and> m = u \<and> m \<noteq> 0 \<and> GPU_LEDGER_GRAIN dvd m))
   | _ \<Rightarrow> True)"

lemma spend_body:
  assumes "honest_reads (qw_reads w j)" "bps \<le> 10000" "0 \<le> raw"
  shows "spend_limits fu gusd bps raw (quoteBuyBySpendOnReport fu w g asset gusd bps reg raw j att)"
proof (cases "gr_poolRegistered reg")
  case False
  have "\<exists>u m p. formatGpuUnits fu (so_units x) = formatGpuUnits fu u \<and> formatGpuUnits fu (so_units x) = formatGpuUnits fu m \<and>
      perMillion (iq_total (so_quote x)) = perMillion p \<and>
      (p = raw \<and> minimum_of bps u m \<or> p \<le> raw \<and> m = u \<and> m \<noteq> 0 \<and> GPU_LEDGER_GRAIN dvd m)"
    if "issueUnitsForSpend raw price f issue = Some x" for price f issue x
    using solution_never_overspends [OF that] by (intro exI [of _ "so_units x"] exI [of _ "iq_total (so_quote x)"]) simp
  then show ?thesis
    using False by (auto simp: quoteBuyBySpendOnReport_def spend_limits_def Let_def split: option.splits)
next
  case True
  show ?thesis
  proof (cases "lensOf w (qw_reads w j) g reg att QuoteBuy raw")
    case (LensFills r)
    have "minimum_of bps (gpuOut r) (floorToLedgerGrain (applyBps (gpuOut r) bps Down))"
      if "floorToLedgerGrain (applyBps (gpuOut r) bps Down) \<noteq> 0"
      using that lens_buy_nonneg [OF assms(1,3) LensFills] assms(2) by (intro minimum_floor)
    then show ?thesis
      using True LensFills by (auto simp: quoteBuyBySpendOnReport_def spend_limits_def Let_def split: option.splits)
  qed (use True in \<open>auto simp: quoteBuyBySpendOnReport_def spend_limits_def Let_def split: option.splits\<close>)
qed

text \<open>C36. A money-first buy signs what was typed: the limit on the payment is the typed amount itself and the
  notional is at most its raw value (all of it where the pool trades); the minimum of units is a positive
  number of whole ledger grains, the quoted units less the tolerance and less than one grain below that, or
  the solved units themselves where only issuance trades.\<close>
theorem money_first_buy_limits:
  assumes "quoteAssetDetailed fu pu hexOf w request = (k, Quoted q)"
    and "tr_side request = BuySide" "tr_basis request = GusdBasis gusd" "tr_toleranceBps request = Some bps"
    and "bps \<le> 10000" "\<forall>t d n. pu t d = Some n \<longrightarrow> 0 \<le> n" "\<forall>j. honest_reads (qw_reads w j)"
  shows "0 < gusd \<and> (\<exists>raw. parseGusd pu gusd = Some raw \<and> spend_limits fu gusd bps raw (Quoted q))"
proof -
  have b: "quoteBuyBySpend fu pu hexOf w (tr_asset request) gusd bps = (k, Quoted q)"
    using assms(1-4) by (simp add: quoteAssetDetailed_def Let_def)
  then have pos: "0 < gusd" by (auto simp: quoteBuyBySpend_def split: if_splits)
  then obtain g reg raw where p: "parseGusd pu gusd = Some raw"
    "withLiveReport w (quoteBuyBySpendOnReport fu w g (tr_asset request) gusd bps reg raw) = (k, Quoted q)"
    using b by (auto simp: quoteBuyBySpend_def elim!: prelude_outcome)
  have "0 \<le> raw" using p(1) pos assms(6) by (auto simp: parseGusd_def parseScaled_def split: if_splits)
  then have "spend_limits fu gusd bps raw (Quoted q)"
    using live_outcome [OF p(2)] spend_body assms(5,7) by (metis QuoteOutcome.distinct(11))
  then show ?thesis using pos p(1) by blast
qed

subsection \<open>A report that lapses on a market without a pool\<close>

lemma zeros_are_no_solution:
  assumes "\<forall>k a. qr_issueRaw reads k a = None"
  shows "issueUnitsForSpend spend price f (issueOrZero reads) = None"
proof (cases "issueUnitsForSpend spend price f (issueOrZero reads)")
  case (Some r)
  from solution_never_overspends [OF this] assms show ?thesis by (auto simp: issueOrZero_def)
qed

text \<open>When the report lapses before the reads of a quote, issuance reverts. The size-first buy of a market
  without a pool refuses with the stale oracle, which the wrapper heals on a fresh report. The money-first
  buy of the same market reads the reverts as zeros and ends as null at once, lapsed or not, and no fresh
  report is asked for.\<close>
theorem lapsed_spend_is_never_healed:
  assumes "\<not> gr_poolRegistered reg" "gr_issuanceEnabled reg" "qr_blockNumber (qw_reads w 0) = Some b"
    and "\<forall>k a. qr_issueRaw (qw_reads w 0) k a = None" "qr_quoteIssue (qw_reads w 0) g raw (ca_updateData att) = None"
    and "currentAttestationLive w 0 = (k, Some att)"
  shows "withLiveReport w (quoteBuyBySpendOnReport fu w g asset gusd bps reg raw) = (k, NullQuote)"
    and "quoteBuyOnReport fu pu w g asset sz bps reg raw 0 att = Unavailable StaleOracle None"
  using assms zeros_are_no_solution [OF assms(4)]
  by (simp_all add: withLiveReport_def quoteBuyBySpendOnReport_def quoteBuyOnReport_def Let_def)

subsection \<open>A world to quote in\<close>

definition quoteWorld :: "Attestation \<Rightarrow> QuoteWorld" where
  "quoteWorld a = \<lparr>qw_gusd = ''0xaa'', qw_hook = ''0xcc'',
     qw_registration = (\<lambda>g. Some (Some \<lparr>gr_gpuId = g, gr_token = ''0xbb'', gr_issuanceEnabled = True,
       gr_poolRegistered = True, gr_poolFee = 3000, gr_tickSpacing = 60, gr_issuanceFeeBps = 100\<rparr>)),
     qw_attestation = (\<lambda>_. a),
     qw_reads = (\<lambda>_. \<lparr>qr_blockNumber = Some 7, qr_hookState = (\<lambda>_ _. Some sampleHook), qr_liquidity = (\<lambda>_. Some 0),
       qr_lens = (\<lambda>_ _ _ _. None), qr_quoteIssue = (\<lambda>_ _ _. None), qr_issueRaw = (\<lambda>_ _. None),
       qr_nowQuote = 10000, qr_nowStamp = 10000, qr_nowHeal = 10000\<rparr>)\<rparr>"

definition sampleSigned :: SignedReport where
  "sampleSigned = \<lparr>sr_report = \<lparr>rp_gpuId = ''0x01'', rp_price = 24003, rp_observedAt = 0, rp_epoch = 1, rp_validFrom = 0,
     rp_validUntil = 60, rp_calcHash = ''0x02''\<rparr>, sr_signature = ''0x03''\<rparr>"

definition buyRequest :: TradeRequest where
  "buyRequest = \<lparr>tr_asset = L40S, tr_side = BuySide, tr_toleranceBps = Some 50, tr_basis = GusdBasis 5\<rparr>"

abbreviation "sampleUnits \<equiv> (\<lambda>n (d :: nat). (of_int n :: rat))"
abbreviation "sampleParse \<equiv> (\<lambda>(t :: string) (d :: nat). Some (5000001 :: int))"

definition sellRequest :: TradeRequest where
  "sellRequest = \<lparr>tr_asset = L40S, tr_side = SellSide, tr_toleranceBps = None, tr_basis = UnitsBasis 3\<rparr>"

lemma sample_seconds [simp]: "quoteSeconds 10000 = 10"
  by (simp add: quoteSeconds_def fdiv_def fl_numeral)

lemma sample_current [simp]:
  "currentAttestation (quoteWorld (CurrentReportOf signed u h)) k = Some \<lparr>ca_signed = signed, ca_updateData = u, ca_reportHash = h\<rparr>"
  by (simp add: currentAttestation_def quoteWorld_def)

lemma sample_live [simp]:
  "currentAttestationLive (quoteWorld (CurrentReportOf signed u h)) k = (Suc k, Some \<lparr>ca_signed = signed, ca_updateData = u, ca_reportHash = h\<rparr>)"
  by (simp add: currentAttestationLive_def REPORT_BRIDGE_ATTEMPTS_def numeral_2_eq_2)

lemma sample_lens [simp]:
  "lensOf (quoteWorld a) (qw_reads (quoteWorld a) j) g reg att m raw = fromMirror (mirrorOf m sampleHook raw 10)"
  by (simp add: lensOf_def runGpuQuote_def mirrorBatch_def quoteWorld_def Let_def)

lemma sample_registration [simp]:
  "qw_registration (quoteWorld a) g = Some (Some \<lparr>gr_gpuId = g, gr_token = ''0xbb'', gr_issuanceEnabled = True,
     gr_poolRegistered = True, gr_poolFee = 3000, gr_tickSpacing = 60, gr_issuanceFeeBps = 100\<rparr>)"
  "qr_blockNumber (qw_reads (quoteWorld a) j) = Some 7"
  by (simp_all add: quoteWorld_def)

lemma sample_id [simp]: "gpuIdForAsset hexOf L40S = Some (hexOf (gpuIdText L40S_48GB))"
  by (simp add: gpuIdForAsset_def ORACLE_PANELS_eq)

lemma sample_refusal:
  "quoteAssetDetailed sampleUnits (\<lambda>_ _. Some 2093540652477066834) (\<lambda>t. t)
     (quoteWorld (CurrentReportOf sampleSigned ''0x04'' ''0x05'')) sellRequest =
   (1, Unavailable NoBid (Some 2093540652477066832))"
proof -
  have "quoteSellMirror sampleHook 2093540652477066834 10 = Some (Rejected NoBidCapacity (Some 2093540652477066832))"
    by code_simp
  moreover have "\<not> reportLapsed \<lparr>ca_signed = sampleSigned, ca_updateData = ''0x04'', ca_reportHash = ''0x05''\<rparr> 10000"
    by (simp add: reportLapsed_def sampleSigned_def)
  moreover have "qr_nowHeal (qw_reads (quoteWorld a) j) = 10000" for a j by (simp add: quoteWorld_def)
  ultimately show ?thesis
    by (simp add: quoteAssetDetailed_def sellRequest_def quoteSell_def quotePrelude_def withLiveReport_def
        parseGpuUnits_def parseScaled_def UINT128_MAX_def quoteSellOnReport_def fromMirror_def Let_def)
qed

theorem refusals_name_their_reads_witness:
  "\<exists>raw. amountOf (\<lambda>_ _. Some 2093540652477066834) sellRequest = Some raw \<and> 2093540652477066832 < raw \<and>
     quoteSellMirror sampleHook raw 10 = Some (Rejected NoBidCapacity (Some 2093540652477066832))"
  using refusals_name_their_reads [OF sample_refusal]
  by (auto simp: refusal_ok_def short_of_def methodOf_def sellRequest_def quoteWorld_def Let_def)

lemma sample_quote:
  "\<exists>k q. quoteAssetDetailed sampleUnits sampleParse (\<lambda>t. t)
     (quoteWorld (CurrentReportOf sampleSigned ''0x04'' ''0x05'')) buyRequest = (k, Quoted q)"
  by (simp add: quoteAssetDetailed_def buyRequest_def quoteBuyBySpend_def quotePrelude_def withLiveReport_def
      parseGusd_def parseScaled_def UINT128_MAX_def quoteBuyBySpendOnReport_def fromMirror_def Let_def sampleQuotes
      sampleBuyQuote_def MirrorQuote.extend_def floorToLedgerGrain_def applyBps_def GPU_LEDGER_GRAIN_def sdiv_pos)

theorem money_first_buy_limits_witness:
  "\<exists>k q raw. quoteAssetDetailed sampleUnits sampleParse (\<lambda>t. t)
       (quoteWorld (CurrentReportOf sampleSigned ''0x04'' ''0x05'')) buyRequest = (k, Quoted q) \<and>
     parseGusd sampleParse 5 = Some raw \<and> spend_limits sampleUnits 5 50 raw (Quoted q)"
proof -
  obtain k q where q: "quoteAssetDetailed sampleUnits sampleParse (\<lambda>t. t)
     (quoteWorld (CurrentReportOf sampleSigned ''0x04'' ''0x05'')) buyRequest = (k, Quoted q)"
    using sample_quote by blast
  have "honest_reads (qw_reads (quoteWorld a) j)" for a j
    by (simp add: honest_reads_def quoteWorld_def sampleHook_ok)
  then show ?thesis
    using money_first_buy_limits [OF q, of 5 50] q by (auto simp: buyRequest_def)
qed

end
