(* ===== verification/Spec2Isabelle.thy ===== *)
theory Spec2Isabelle
  imports EngineWitness PricingProperties KeeperMain Attestor IndexerProperties PerpPreview CandleFold ConfigSchema
    ActionWitness Genesis ActivityStore AccountStore Reconcile TradeQuoteFacts
begin

text \<open>
  Verification of the TypeScript services of gUSD: the pricing engine and its database, the attestor
  that signs its prices, the keeper that executes perpetual orders, the indexer that projects the
  chain's events into tables, and the parts of the web application that quote and run a transaction.

  \<^bold>\<open>The program and how its parts meet.\<close>
  Collectors write observations; \<open>computeIndex\<close> (packages/pricing-engine) turns one panel's
  observations into an index candidate under a methodology configuration; the repositories
  (packages/db) store candidates, configurations and reports. The attestor (apps/attestor) polls the
  newest candidates, audits them against thresholds that follow the panel's configuration, and signs a
  report (packages/attestor-client) whose price the oracle contract accepts once per epoch. The
  indexer (apps/indexer) folds the contracts' events into entity tables through a store that runs every
  handler twice. The keeper (apps/keeper) reads those tables into a book, listens to candidates on two
  streams, and simulates and broadcasts executions and liquidations with an arithmetic that replays
  the perpetuals engine. The web application (apps/web) mirrors that arithmetic and the pool hook's for
  its quotes, and drives approvals and transactions to their receipts.

  \<^bold>\<open>Foundations.\<close>
  \<^item> \<open>Prelude\<close>: the named collections and the generic lemmas.
  \<^item> \<open>JsNumber\<close>: binary64 numbers as the rationals they denote, every operation rounded by \<open>fl\<close> to
    nearest, ties to even; \<open>JsText\<close>: decimal text of integers and numbers; \<open>JsMap\<close>: JavaScript's
    \<open>Map\<close> as an association list in insertion order.
  \<^item> \<open>Tables\<close>: the inserts, conflict clauses and ordered reads of PostgreSQL on lists of rows.
  \<^item> \<open>Machine\<close>: the locales of a component that moves in steps (\<open>machine\<close>: an invariant that every
    step keeps; \<open>machine_refinement\<close>: a simulation by an abstract machine).

  \<^bold>\<open>Pricing engine, packages/pricing-engine/src, packages/types/src, packages/gpu-catalog/src.\<close>
  \<open>MarketTypes\<close> holds the vocabulary of packages/types and \<open>Catalog\<close> the GPU catalogue and panels.
  \<open>RobustStats\<close> is median.ts, \<open>Weights\<close> weights.ts, \<open>Screen\<close> screen.ts, \<open>Gates\<close> gates.ts, \<open>Band\<close>
  band.ts, \<open>Aggregate\<close> aggregate.ts, \<open>Methodology\<close> config.ts, and \<open>Engine\<close> engine.ts, whose
  \<open>computeIndex\<close> composes them in the source's ten steps. \<open>PricingProperties\<close> has what the statistical
  layer promises to the engine, \<open>EngineWitness\<close> a concrete computation. \<open>ConfigSchema\<close> states without the
  list of checks what a methodology is, and shows that the validator of config.ts accepts exactly that.
  The lemmas show which prices can move the index, that the receipts of a result carry every observed
  price once, under its provider and with the reason that holds, what a published status means, and
  where every figure comes from: its anchor, the anchor and a bounded offset, or the carried prior.

  \<^bold>\<open>Database, packages/db/src.\<close>
  \<open>Repos\<close> models repos.ts over the tables of schema/; \<open>RepoFacts\<close> shows the unique keys, the single
  open methodology, idempotent writers, and that the candles partition the series.

  \<^bold>\<open>Attestor, packages/attestor-client/src/report.ts and apps/attestor/src.\<close>
  \<open>Report\<close> is the codec and the report window, \<open>Assess\<close> the audit (types.ts, thresholds.ts,
  validate.ts), \<open>Attestor\<close> the store on the repositories and the poller. The store is a locale whose
  laws the repositories discharge; a pass is shown to attest one report for a GPU and an epoch, of the
  newest candidate, and never to be blocked by its own audit.

  \<^bold>\<open>Keeper, apps/keeper/src.\<close>
  \<open>KeeperMath\<close> is math.ts, \<open>KeeperBook\<close> state.ts, \<open>KeeperStrategy\<close> strategy.ts, \<open>KeeperExecute\<close>
  execute.ts as traces of actions in a world that answers for the node, the oracle and the tables,
  \<open>KeeperMain\<close> main.ts, stream.ts and health.ts. The lemmas show solvent funding, that every position
  below maintenance becomes a work item, that only simulated calls are broadcast, and that the
  reconciliation ends as its own reads say, or with one reload.

  \<^bold>\<open>Indexer, apps/indexer/src.\<close>
  \<open>EnvioStore\<close> is envio-compat.ts and schema.ts: entities, the preload overlay, the conversions of the
  columns. \<open>Indexer\<close> has the event keys, the typed tables and the user-event projection; \<open>CostBasis\<close>
  and \<open>WalletState\<close> the wallets, \<open>ProtocolCounters\<close> the counters and buckets, \<open>MarketHandlers\<close> and
  \<open>PoolHandlers\<close> the handlers of the markets and of the pools, \<open>IndexerPerp\<close> handlers/perp.ts.
  \<open>PerpLedger\<close>, \<open>WalletFacts\<close>, \<open>IndexerRun\<close> and \<open>IndexerProperties\<close> show what holds after any stream of
  events: balances are sums of transfers, counters sums of buckets, claims sums of settlements, wallet
  rows summaries of their events.

  \<^bold>\<open>Web application, apps/web/src.\<close>
  \<open>PerpPreview\<close> is data/web3/perps/math.ts, proved against the keeper's arithmetic. \<open>HookQuote\<close> is
  data/web3/trading/hook-quote.ts and \<open>HookQuoteFacts\<close> the books, capacities and bounds of its quotes.
  \<open>Genesis\<close> is data/web3/trading/genesis.ts, proved exact on the contract's arithmetic from a price of one
  cent and a spend of one grain's cost and three units up; below a cent an example shows it is not.
  \<open>CandleFold\<close> is data/oracle/fold.ts: folding the stored computations of a window gives the candles of
  \<open>getCandidateCandles\<close> in \<open>Repos\<close>, with the silent intervals between them, which the repository does
  not return, carried flat (\<open>carrySilent\<close>). \<open>TxStore\<close> is
  data/web3/tx-store.ts and \<open>ActionRunner\<close> data/web3/action-runner.ts over it; \<open>ActionFacts\<close> proves the
  runner against the laws of a transaction port (locale \<open>tx_port\<close>, an extension of \<open>machine\<close>),
  \<open>ActionProperties\<close> interprets them on the store, \<open>ActionWitness\<close> runs a sample session. A run keeps two
  histories that no step reads: what it has handed to the port and the records the port has returned. \<open>TradeQuotes\<close>
  is data/web3/trading/quotes.ts over the hook mirror and the solver, and \<open>TradeQuoteFacts\<close> shows what a
  refusal may say and which limits a money-first order signs. \<open>GpuIds\<close> is data/web3/gpu-id.ts with the
  panels, proved against the attestor's and the indexer's decoders. \<open>ProtocolMap\<close> is data/protocol/map.ts.
  \<open>ActivityStore\<close>, \<open>AccountStore\<close> and \<open>Reconcile\<close> are the two stores of a wallet's figures and the
  reconciliation after a confirmed action (data/protocol/activity-store.ts, data/onchain); the stores are
  proved as instances of the locale \<open>machine\<close>, and where the code breaks their contract (an older page
  of the wallet before, a refresh that another pass swallows) a theorem shows the run that does it.

  \<^bold>\<open>How the code is read.\<close>
  \<^item> A \<open>number\<close> that carries a fraction is rounded at every operation (\<open>fl\<close>); an integral \<open>number\<close>
    and a \<open>bigint\<close> are an \<open>int\<close>. For the indexer's columns \<open>columns_read_back\<close> states the range,
    up to \<open>2 ^ 53\<close>, in which the two agree, and \<open>counter_rounds_above_2_53\<close> what happens above it.
  \<^item> A BigInt division truncates (\<open>sdiv\<close>) and a division by zero is the exception it throws.
  \<^item> Exceptions are values: \<open>None\<close>, \<open>Inl\<close> or a constructor of their own, and a handler that raises
    leaves the tables as they were.
  \<^item> An asynchronous function is cut at its awaits. The segments are functions on the state, the
    answers their arguments, and a session any interleaving of segments; a segment reads the clock once.
  \<^item> Texts that only a person reads keep their values and their branches; dashes and ellipses outside
    ASCII are written in ASCII.

  \<^bold>\<open>Bounds.\<close>
  Every bound is the source's: 60 passes of the weight cap, 20 reads of a reconciliation, the tries of
  a boot retry, four steps of the budget search, three refinements and walks of eight and two steps of
  the genesis solver, thirty records of the transaction store, five older pages of the activity store,
  the four questions of a follow-up, two further fetches of a report and one heal of a quote. Loops
  without such a bound recurse on the list they consume; a run of an action is proved to end after at
  most four answers more than it has approvals.

  \<^bold>\<open>What is a parameter.\<close>
  Hash, signature and ABI encoding (viem); PostgreSQL's failures and generated ids; Envio's context and
  the generated addresses; the node, the oracle and the clock; the wallet's answer, the receipts and
  the closures a plan carries; the contract's issuance quote; the parsing and printing of
  decimal units and the hexadecimal encoding. Theorems name what they rely on as
  hypotheses (\<open>hook_ok\<close>, the laws of the locales), and each has a concrete instance.

  \<^bold>\<open>Not modelled.\<close>
  The Solidity contracts. In the web application the React components, the generated ABIs, the mock
  data and the clients of the indexer, the oracle, the identity provider and the wallet, with the
  ports that assemble their answers. In the services the reading of environments and deployment files,
  the HTTP health endpoints, logging, signal handling, the watchdog tables and the migration runner:
  input and output or calls into a library, with no state of their own that the rest relies on.
\<close>

end
